(* ===== verification/Prelude.thy ===== *)
theory Prelude
  imports Main "HOL-Library.Word" "HOL-Library.AList"
begin

text \<open>
  Shared vocabulary of the development: Python values and exceptions, the result
  type of code that may raise, comprehensions over code that may raise, the
  big-endian byte strings the wire formats are made of, and the collections of
  rewrite rules the component theories extend.
\<close>

unbundle bit_operations_syntax

named_theorems result_simps "rewriting of computations that may raise"
named_theorems byte_simps "byte strings and their integers"
named_theorems read_simps "memory reads through a symbol table"
named_theorems returns_intros "computations that do not raise"

subsection \<open>Python values and exceptions\<close>

text \<open>
  A dynamically typed argument. \<open>bool\<close> is a subclass of \<open>int\<close> in Python, and the code
  tells the two apart by \<open>type(x) is int\<close> or by an explicit \<open>isinstance(x, bool)\<close>, so they
  are separate constructors here. \<open>PyOther\<close> stands for a value of any other type.
\<close>

type_synonym byte = "8 word"

datatype pyval =
    PyNone
  | PyBool bool
  | PyInt int
  | PyStr string
  | PyBytes "byte list"
  | PyOther

datatype exn =
    TypeError
  | ValueError
  | KeyError
  | IndexError
  | OverflowError
  | LookupError
  | PyBoyInvalidInput
  | OtherException

type_synonym 'a result = "exn + 'a"

subsection \<open>Computations that may raise\<close>

definition rbind :: "('e + 'a) \<Rightarrow> ('a \<Rightarrow> 'e + 'b) \<Rightarrow> 'e + 'b" where
  "rbind r f = (case r of Inl e \<Rightarrow> Inl e | Inr x \<Rightarrow> f x)"

lemma rbind_Inr [simp]: "rbind (Inr x) f = f x"
  by (simp add: rbind_def)

lemma rbind_Inl [simp]: "rbind (Inl e) f = Inl e"
  by (simp add: rbind_def)

lemma rbind_eq_Inr_iff [result_simps]:
  "rbind r f = Inr y \<longleftrightarrow> (\<exists>x. r = Inr x \<and> f x = Inr y)"
  by (cases r) auto

lemma rbind_eq_Inl_iff:
  "rbind r f = Inl e \<longleftrightarrow> r = Inl e \<or> (\<exists>x. r = Inr x \<and> f x = Inl e)"
  by (cases r) auto

lemma rbind_assoc: "rbind (rbind r f) g = rbind r (\<lambda>x. rbind (f x) g)"
  by (cases r) auto

lemma rbind_split:
  "P (rbind r f) \<longleftrightarrow> (\<forall>e. r = Inl e \<longrightarrow> P (Inl e)) \<and> (\<forall>x. r = Inr x \<longrightarrow> P (f x))"
  by (cases r) auto

text \<open>A tuple comprehension whose element expression may raise: left to right, first error wins.\<close>

fun rmapM :: "('a \<Rightarrow> 'e + 'b) \<Rightarrow> 'a list \<Rightarrow> 'e + 'b list" where
  "rmapM f [] = Inr []"
| "rmapM f (x # xs) = rbind (f x) (\<lambda>y. rbind (rmapM f xs) (\<lambda>ys. Inr (y # ys)))"

lemma rmapM_Inr_iff [result_simps]:
  "rmapM f xs = Inr ys \<longleftrightarrow> list_all2 (\<lambda>x y. f x = Inr y) xs ys"
proof (induction xs arbitrary: ys)
  case Nil
  show ?case by auto
next
  case (Cons x xs)
  show ?case by (cases ys) (auto simp: result_simps Cons.IH)
qed

lemma rmapM_total:
  "(\<And>x. x \<in> set xs \<Longrightarrow> f x = Inr (g x)) \<Longrightarrow> rmapM f xs = Inr (map g xs)"
  by (induction xs) auto

lemma rmapM_length: "rmapM f xs = Inr ys \<Longrightarrow> length ys = length xs"
  by (auto simp: result_simps dest: list_all2_lengthD)

subsection \<open>Computations that do not raise\<close>

definition returns :: "'e + 'a \<Rightarrow> bool" where
  "returns r \<longleftrightarrow> (\<exists>x. r = Inr x)"

lemma returns_Inr [returns_intros]: "returns (Inr x)"
  by (simp add: returns_def)

lemma returns_rbind [returns_intros]:
  "returns r \<Longrightarrow> (\<And>x. r = Inr x \<Longrightarrow> returns (f x)) \<Longrightarrow> returns (rbind r f)"
  by (auto simp: returns_def)

lemma returns_if [returns_intros]:
  "(P \<Longrightarrow> returns a) \<Longrightarrow> (\<not> P \<Longrightarrow> returns b) \<Longrightarrow> returns (if P then a else b)"
  by simp

lemma returns_Let [returns_intros]: "(\<And>x. x = v \<Longrightarrow> returns (f x)) \<Longrightarrow> returns (Let v f)"
  by simp

lemma returns_pair [returns_intros]: "(\<And>a b. p = (a, b) \<Longrightarrow> returns (f a b)) \<Longrightarrow> returns (case p of (a, b) \<Rightarrow> f a b)"
  by (cases p) simp

lemma returns_option [returns_intros]:
  "(v = None \<Longrightarrow> returns a) \<Longrightarrow> (\<And>x. v = Some x \<Longrightarrow> returns (f x)) \<Longrightarrow> returns (case v of None \<Rightarrow> a | Some x \<Rightarrow> f x)"
  by (cases v) auto

lemma returns_bool [returns_intros]:
  "(v \<Longrightarrow> returns a) \<Longrightarrow> (\<not> v \<Longrightarrow> returns b) \<Longrightarrow> returns (case v of True \<Rightarrow> a | False \<Rightarrow> b)"
  by (cases v) auto

lemma returns_rmapM [returns_intros]:
  "(\<And>x. x \<in> set xs \<Longrightarrow> returns (f x)) \<Longrightarrow> returns (rmapM f xs)"
  by (induction xs) (auto intro!: returns_intros)

subsection \<open>Masks on Python integers\<close>

lemma and_255: "(x::int) AND 255 = x mod 256"
proof -
  have "(255::int) = mask 8" by (simp add: mask_eq_exp_minus_1)
  then have "x AND 255 = take_bit 8 x" by (simp add: take_bit_eq_mask)
  then show ?thesis by (simp add: take_bit_eq_mod)
qed

lemma and_15: "(x::int) AND 15 = x mod 16"
proof -
  have "(15::int) = mask 4" by (simp add: mask_eq_exp_minus_1)
  then have "x AND 15 = take_bit 4 x" by (simp only: take_bit_eq_mask)
  then show ?thesis by (simp add: take_bit_eq_mod)
qed

lemma and_255_range [simp]: "0 \<le> (x::int) AND 255" "(x::int) AND 255 < 256"
  by (simp_all add: and_255)

lemma and_255_le [simp]: "(x::int) AND 255 \<le> 255"
  using and_255_range(2) [of x] by linarith

lemma and_255_id: "0 \<le> x \<Longrightarrow> x < 256 \<Longrightarrow> (x::int) AND 255 = x"
  by (simp add: and_255)

subsection \<open>Big-endian integers\<close>

text \<open>\<open>struct\<close> formats \<open>B\<close>, \<open>H\<close>, \<open>I\<close> and \<open>Q\<close> in big-endian order: \<open>be_bytes n v\<close> packs \<open>v\<close> in
  \<open>n\<close> bytes (the code checks the range first), \<open>be_int\<close> unpacks.\<close>

fun be_bytes :: "nat \<Rightarrow> int \<Rightarrow> byte list" where
  "be_bytes 0 v = []"
| "be_bytes (Suc n) v = be_bytes n (v div 256) @ [word_of_int v]"

definition be_int :: "byte list \<Rightarrow> int" where
  "be_int bs = foldl (\<lambda>a b. a * 256 + uint b) 0 bs"

lemma length_be_bytes [simp]: "length (be_bytes n v) = n"
  by (induction n arbitrary: v) auto

lemma be_int_Nil [simp]: "be_int [] = 0"
  by (simp add: be_int_def)

lemma be_int_snoc [byte_simps]: "be_int (bs @ [b]) = be_int bs * 256 + uint b"
  by (simp add: be_int_def)

lemma uint_byte_range: "0 \<le> uint (b::byte)" "uint (b::byte) < 256"
  using uint_lt2p [of b] by simp_all

lemma be_int_nonneg [simp]: "0 \<le> be_int bs"
  by (induction bs rule: rev_induct) (simp_all add: byte_simps)

lemma be_int_less: "be_int bs < 256 ^ length bs"
proof (induction bs rule: rev_induct)
  case Nil
  show ?case by simp
next
  case (snoc b bs)
  have "be_int (bs @ [b]) < be_int bs * 256 + 256"
    using uint_byte_range(2) [of b] by (simp add: byte_simps)
  also have "\<dots> \<le> 256 ^ length bs * 256"
    using snoc by (simp add: add1_zle_eq algebra_simps flip: distrib_left)
  finally show ?case by simp
qed

lemma be_int_be_bytes [byte_simps]: "be_int (be_bytes n v) = v mod 256 ^ n"
proof (induction n arbitrary: v)
  case 0
  show ?case by simp
next
  case (Suc n)
  have "be_int (be_bytes (Suc n) v) = (v div 256) mod 256 ^ n * 256 + v mod 256"
    by (simp add: byte_simps Suc uint_word_of_int)
  also have "\<dots> = v mod (256 * 256 ^ n)"
    by (subst zmod_zmult2_eq) simp_all
  finally show ?case by simp
qed

lemma be_bytes_be_int [byte_simps]: "be_bytes (length bs) (be_int bs) = bs"
proof (induction bs rule: rev_induct)
  case Nil
  show ?case by simp
next
  case (snoc b bs)
  have "(be_int bs * 256 + uint b) div 256 = be_int bs"
    using uint_byte_range [of b] by simp
  moreover have "(word_of_int (be_int bs * 256 + uint b) :: byte) = b"
  proof -
    have "uint (word_of_int (be_int bs * 256 + uint b) :: byte) = (be_int bs * 256 + uint b) mod 256"
      by (simp only: uint_word_of_int) simp
    also have "\<dots> = uint b"
      using uint_byte_range [of b] by simp
    finally show ?thesis by (simp only: word_uint_eq_iff)
  qed
  ultimately show ?case
    by (simp add: byte_simps snoc)
qed

lemma be_bytes_inj:
  "be_bytes n v = be_bytes n w \<Longrightarrow> 0 \<le> v \<Longrightarrow> v < 256 ^ n \<Longrightarrow> 0 \<le> w \<Longrightarrow> w < 256 ^ n \<Longrightarrow> v = w"
  by (metis be_int_be_bytes mod_pos_pos_trivial)

end
