(* ===== verification/Symbols.thy ===== *)
theory Symbols
  imports Prelude
begin

text \<open>
  The symbol table and the typed memory readers (\<open>symbols/loader.py\<close>). A memory is what the
  emulator (or a test double) offers: a read at a CPU address and a read at a bank and an
  address, either of which may raise. Everything the parsers of \<open>state/\<close> know about the game
  they read through the operations of this theory.
\<close>

unbundle bit_operations_syntax

subsection \<open>Symbols and the backing memory\<close>

record symbol =
  sym_name :: string
  sym_bank :: int
  sym_addr :: int

record memory =
  mem_at :: "int \<Rightarrow> exn + int"
  mem_bank :: "int \<Rightarrow> int \<Rightarrow> exn + int"

definition WRAM_SWITCHABLE_START :: int where "WRAM_SWITCHABLE_START = 0xD000"
definition WRAM_SWITCHABLE_END :: int where "WRAM_SWITCHABLE_END = 0xE000"
definition WRAM_BATTLE_BANK :: int where "WRAM_BATTLE_BANK = 1"

text \<open>The failures that mean a store has no bank dimension; any other failure propagates.\<close>

definition no_bank_dimension :: "exn \<Rightarrow> bool" where
  "no_bank_dimension e \<longleftrightarrow> e \<in> {TypeError, KeyError, PyBoyInvalidInput}"

definition read_banked :: "memory \<Rightarrow> int \<Rightarrow> exn + int option" where
  "read_banked m address =
     (case mem_bank m WRAM_BATTLE_BANK address of
        Inr v \<Rightarrow> Inr (Some (v AND 0xFF))
      | Inl e \<Rightarrow> if no_bank_dimension e then Inr None else Inl e)"

definition read_wram_u8 :: "memory \<Rightarrow> int \<Rightarrow> exn + int" where
  "read_wram_u8 m address =
     (if WRAM_SWITCHABLE_START \<le> address \<and> address < WRAM_SWITCHABLE_END
      then rbind (read_banked m address)
             (\<lambda>banked. case banked of
                Some v \<Rightarrow> Inr v
              | None \<Rightarrow> rbind (mem_at m address) (\<lambda>v. Inr (v AND 0xFF)))
      else rbind (mem_at m address) (\<lambda>v. Inr (v AND 0xFF)))"

definition read_wram_bytes :: "memory \<Rightarrow> int \<Rightarrow> int \<Rightarrow> exn + int list" where
  "read_wram_bytes m address len =
     (if len \<le> 0 then Inl ValueError
      else rmapM (\<lambda>index. read_wram_u8 m (address + index)) [0..len - 1])"

subsection \<open>The symbol table\<close>

text \<open>
  A Python dict keeps the position of a key that is assigned again and appends a new one,
  which is what \<open>AList.update\<close> does to an association list.
\<close>

record symbol_table =
  by_name :: "(string \<times> symbol) list"
  by_addr :: "((int \<times> int) \<times> string list) list"

definition add_symbol :: "symbol_table \<Rightarrow> symbol \<Rightarrow> symbol_table" where
  "add_symbol t s =
     (let key = (sym_bank s, sym_addr s);
          names = (case map_of (by_addr t) key of None \<Rightarrow> [] | Some ns \<Rightarrow> ns)
      in t\<lparr>by_name := AList.update (sym_name s) s (by_name t),
           by_addr := AList.update key (names @ [sym_name s]) (by_addr t)\<rparr>)"

definition symbol_table_of :: "symbol list \<Rightarrow> symbol_table" where
  "symbol_table_of ss = foldl add_symbol \<lparr>by_name = [], by_addr = []\<rparr> ss"

definition table_len :: "symbol_table \<Rightarrow> nat" where
  "table_len t = length (by_name t)"

definition has_symbol :: "symbol_table \<Rightarrow> string \<Rightarrow> bool" where
  "has_symbol t name \<longleftrightarrow> map_of (by_name t) name \<noteq> None"

definition table_iter :: "symbol_table \<Rightarrow> symbol list" where
  "table_iter t = map snd (by_name t)"

definition getitem :: "symbol_table \<Rightarrow> string \<Rightarrow> exn + symbol" where
  "getitem t name = (case map_of (by_name t) name of None \<Rightarrow> Inl KeyError | Some s \<Rightarrow> Inr s)"

definition get_symbol :: "symbol_table \<Rightarrow> string \<Rightarrow> symbol option" where
  "get_symbol t name = map_of (by_name t) name"

definition addr_of :: "symbol_table \<Rightarrow> string \<Rightarrow> exn + int" where
  "addr_of t name = rbind (getitem t name) (\<lambda>s. Inr (sym_addr s))"

definition bank_addr :: "symbol_table \<Rightarrow> string \<Rightarrow> exn + int \<times> int" where
  "bank_addr t name = rbind (getitem t name) (\<lambda>s. Inr (sym_bank s, sym_addr s))"

definition names_at :: "symbol_table \<Rightarrow> int \<Rightarrow> int \<Rightarrow> string list" where
  "names_at t bank addr = (case map_of (by_addr t) (bank, addr) of None \<Rightarrow> [] | Some ns \<Rightarrow> ns)"

subsection \<open>Typed reads\<close>

definition read_u8 :: "memory \<Rightarrow> symbol_table \<Rightarrow> string \<Rightarrow> exn + int" where
  "read_u8 m t name = rbind (addr_of t name) (\<lambda>a. read_wram_u8 m a)"

definition read_bytes :: "memory \<Rightarrow> symbol_table \<Rightarrow> string \<Rightarrow> int \<Rightarrow> exn + int list" where
  "read_bytes m t name len =
     (if len \<le> 0 then Inl ValueError
      else rbind (addr_of t name) (\<lambda>a. read_wram_bytes m a len))"

text \<open>The two-element unpacking \<open>lo, hi = ...\<close>; a list of another length raises.\<close>

definition unpack2 :: "int list \<Rightarrow> exn + int \<times> int" where
  "unpack2 xs = (case xs of [a, b] \<Rightarrow> Inr (a, b) | _ \<Rightarrow> Inl ValueError)"

definition read_u16_le :: "memory \<Rightarrow> symbol_table \<Rightarrow> string \<Rightarrow> exn + int" where
  "read_u16_le m t name =
     rbind (read_bytes m t name 2)
       (\<lambda>bs. rbind (unpack2 bs) (\<lambda>(lo, hi). Inr (lo OR push_bit 8 hi)))"

definition read_u16_be :: "memory \<Rightarrow> symbol_table \<Rightarrow> string \<Rightarrow> exn + int" where
  "read_u16_be m t name =
     rbind (read_bytes m t name 2)
       (\<lambda>bs. rbind (unpack2 bs) (\<lambda>(hi, lo). Inr (push_bit 8 hi OR lo)))"

definition read_bit :: "memory \<Rightarrow> symbol_table \<Rightarrow> string \<Rightarrow> int \<Rightarrow> exn + bool" where
  "read_bit m t name b =
     (if \<not> (0 \<le> b \<and> b \<le> 7) then Inl ValueError
      else rbind (read_u8 m t name) (\<lambda>v. Inr (drop_bit (nat b) v AND 1 \<noteq> 0)))"

text \<open>The optional read every state parser has: \<open>None\<close> for an absent symbol.\<close>

definition opt_u8 :: "memory \<Rightarrow> symbol_table \<Rightarrow> string \<Rightarrow> exn + int option" where
  "opt_u8 m t name =
     (if has_symbol t name then rbind (read_u8 m t name) (\<lambda>v. Inr (Some v)) else Inr None)"

subsection \<open>Parsing a \<open>.sym\<close> file\<close>

text \<open>Characters are code points below 256; \<open>str.strip\<close>, \<open>\s\<close> and \<open>splitlines\<close> use these classes.\<close>

definition code :: "char \<Rightarrow> nat" where
  "code c = of_char c"

definition is_space :: "char \<Rightarrow> bool" where
  "is_space c \<longleftrightarrow> (let n = code c in (9 \<le> n \<and> n \<le> 13) \<or> (28 \<le> n \<and> n \<le> 32) \<or> n = 133 \<or> n = 160)"

definition is_line_break :: "char \<Rightarrow> bool" where
  "is_line_break c \<longleftrightarrow> (let n = code c in (10 \<le> n \<and> n \<le> 13) \<or> (28 \<le> n \<and> n \<le> 30) \<or> n = 133)"

definition is_hex :: "char \<Rightarrow> bool" where
  "is_hex c \<longleftrightarrow> (let n = code c in (48 \<le> n \<and> n \<le> 57) \<or> (65 \<le> n \<and> n \<le> 70) \<or> (97 \<le> n \<and> n \<le> 102))"

definition hex_digit :: "char \<Rightarrow> int" where
  "hex_digit c = (let n = int (code c) in if n \<le> 57 then n - 48 else if n \<le> 70 then n - 55 else n - 87)"

definition hex_int :: "string \<Rightarrow> int" where
  "hex_int s = foldl (\<lambda>a c. 16 * a + hex_digit c) 0 s"

definition strip :: "string \<Rightarrow> string" where
  "strip s = rev (dropWhile is_space (rev (dropWhile is_space s)))"

fun splitlines_from :: "string \<Rightarrow> string \<Rightarrow> string list" where
  "splitlines_from acc [] = (if acc = [] then [] else [rev acc])"
| "splitlines_from acc (c # cs) =
     (if code c = 13 \<and> cs \<noteq> [] \<and> code (hd cs) = 10 then rev acc # splitlines_from [] (tl cs)
      else if is_line_break c then rev acc # splitlines_from [] cs
      else splitlines_from (c # acc) cs)"

definition splitlines :: "string \<Rightarrow> string list" where
  "splitlines s = splitlines_from [] s"

text \<open>
  \<open>_SYM_LINE\<close> on a stripped line. The bank and address groups are determined by their
  neighbours. The name group is greedy: it takes the whole run of non-blank characters when
  the rest of the line is blank or a comment, and otherwise backtracks to the last semicolon
  inside the run, which then starts the comment. The dot of the comment group does not match a newline.
\<close>

definition comment_ok :: "string \<Rightarrow> bool" where
  "comment_ok r \<longleftrightarrow> r = [] \<or> (hd r = CHR '';'' \<and> (\<forall>c \<in> set r. code c \<noteq> 10))"

definition match_name :: "string \<Rightarrow> string option" where
  "match_name s =
     (let w = takeWhile (\<lambda>c. \<not> is_space c) s;
          rest = dropWhile (\<lambda>c. \<not> is_space c) s;
          cuts = filter (\<lambda>i. comment_ok (drop i s)) [1..<length w]
      in if w = [] then None
         else if comment_ok (dropWhile is_space rest) then Some w
         else if cuts = [] then None
         else Some (take (last cuts) w))"

definition match_sym_line :: "string \<Rightarrow> (string \<times> string \<times> string) option" where
  "match_sym_line line =
     (let s = dropWhile is_space line;
          bank = takeWhile is_hex s;
          after_bank = dropWhile is_hex s
      in if \<not> (1 \<le> length bank \<and> length bank \<le> 4) then None
         else if after_bank = [] \<or> hd after_bank \<noteq> CHR '':'' then None
         else let a = tl after_bank;
                  addr = takeWhile is_hex a;
                  after_addr = dropWhile is_hex a
              in if length addr \<noteq> 4 then None
                 else if after_addr = [] \<or> \<not> is_space (hd after_addr) then None
                 else map_option (\<lambda>name. (bank, addr, name)) (match_name (dropWhile is_space after_addr)))"

definition parse_sym_line :: "string \<Rightarrow> symbol option" where
  "parse_sym_line raw =
     (let line = strip raw
      in if line = [] \<or> hd line = CHR '';'' then None
         else map_option
                (\<lambda>(bank_hex, addr_hex, name).
                   \<lparr>sym_name = name, sym_bank = hex_int bank_hex, sym_addr = hex_int addr_hex\<rparr>)
                (match_sym_line line))"

definition parse_sym_lines :: "string list \<Rightarrow> symbol list" where
  "parse_sym_lines lines = List.map_filter parse_sym_line lines"

definition load_sym_text :: "string \<Rightarrow> symbol_table" where
  "load_sym_text txt = symbol_table_of (parse_sym_lines (splitlines txt))"

subsection \<open>Bytes read from memory\<close>

lemma read_wram_u8_range:
  "read_wram_u8 m a = Inr v \<Longrightarrow> 0 \<le> v \<and> v < 256"
  by (auto simp: read_wram_u8_def read_banked_def result_simps split: if_splits sum.splits option.splits)

lemma read_wram_bytes_Inr:
  "read_wram_bytes m a len = Inr bs \<Longrightarrow>
     0 < len \<and> length bs = nat len \<and> (\<forall>i < nat len. read_wram_u8 m (a + int i) = Inr (bs ! i))"
  by (auto simp: read_wram_bytes_def list_all2_conv_all_nth rmapM_Inr_iff split: if_splits)

lemma read_u8_range: "read_u8 m t n = Inr v \<Longrightarrow> 0 \<le> v \<and> v < 256"
  by (auto simp: read_u8_def result_simps dest: read_wram_u8_range)

lemma opt_u8_Inr:
  "opt_u8 m t n = Inr v \<longleftrightarrow>
     (if has_symbol t n then (\<exists>x. read_u8 m t n = Inr x \<and> v = Some x) else v = None)"
  by (auto simp: opt_u8_def result_simps)

lemma opt_u8_range: "opt_u8 m t n = Inr (Some v) \<Longrightarrow> 0 \<le> v \<and> v < 256"
  by (auto simp: opt_u8_Inr dest: read_u8_range split: if_splits)

lemma upto_0_1: "[0..(1::int)] = [0, 1]"
  by (simp add: upto.simps)

lemma or_push_bit_8:
  "0 \<le> lo \<Longrightarrow> lo < 256 \<Longrightarrow> (lo::int) OR push_bit 8 hi = lo + 256 * hi"
proof -
  assume "0 \<le> lo" "lo < 256"
  then have lo: "take_bit 8 lo = lo" by (simp add: take_bit_eq_mod)
  have "lo AND push_bit 8 hi = 0"
    by (subst lo [symmetric], rule bit_eqI)
       (simp add: bit_and_iff bit_take_bit_iff bit_push_bit_iff)
  then have "lo OR push_bit 8 hi = lo + push_bit 8 hi"
    using plus_and_or [of lo "push_bit 8 hi"] by simp
  then show ?thesis by (simp add: push_bit_eq_mult)
qed

lemma push_bit_8_or:
  "0 \<le> lo \<Longrightarrow> lo < 256 \<Longrightarrow> push_bit 8 (hi::int) OR lo = 256 * hi + lo"
  using or_push_bit_8 [of lo hi] by (simp add: or.commute)

subsection \<open>The interface of a readable WRAM\<close>

text \<open>
  The parsers only ask a memory for battle WRAM bytes. A client that can rely on every such
  read answering gets the value of each typed read through a known symbol.
\<close>

locale wram_reader =
  fixes m :: memory and rd :: "int \<Rightarrow> int"
  assumes read_wram: "read_wram_u8 m a = Inr (rd a)"
begin

lemma rd_range: "0 \<le> rd a \<and> rd a < 256"
  using read_wram by (rule read_wram_u8_range)

lemma read_wram_bytes_ok:
  "0 < len \<Longrightarrow> read_wram_bytes m a len = Inr (map (\<lambda>i. rd (a + i)) [0..len - 1])"
  by (auto simp: read_wram_bytes_def read_wram intro!: rmapM_total)

lemma read_u8_ok: "getitem t n = Inr s \<Longrightarrow> read_u8 m t n = Inr (rd (sym_addr s))"
  by (simp add: read_u8_def addr_of_def read_wram)

lemma read_u16_be_ok:
  "getitem t n = Inr s \<Longrightarrow> read_u16_be m t n = Inr (256 * rd (sym_addr s) + rd (sym_addr s + 1))"
  using rd_range [of "sym_addr s + 1"]
  by (simp add: read_u16_be_def read_bytes_def addr_of_def read_wram_bytes_ok upto_0_1 unpack2_def push_bit_8_or)

lemma read_u16_le_ok:
  "getitem t n = Inr s \<Longrightarrow> read_u16_le m t n = Inr (rd (sym_addr s) + 256 * rd (sym_addr s + 1))"
  using rd_range [of "sym_addr s"]
  by (simp add: read_u16_le_def read_bytes_def addr_of_def read_wram_bytes_ok upto_0_1 unpack2_def or_push_bit_8)

end

text \<open>
  The two kinds of backing store the loader documents: a flat one without a bank dimension
  (a \<open>bytearray\<close> refuses the tuple key with \<open>TypeError\<close>), and PyBoy's colour memory, where the
  switchable window shows whatever bank is mapped while bank 1 stays addressable.
\<close>

definition flat_store :: "(int \<Rightarrow> int) \<Rightarrow> memory" where
  "flat_store f = \<lparr>mem_at = (\<lambda>a. Inr (f a)), mem_bank = (\<lambda>_ _. Inl TypeError)\<rparr>"

definition cgb_store :: "(int \<Rightarrow> int) \<Rightarrow> (int \<Rightarrow> int \<Rightarrow> int) \<Rightarrow> memory" where
  "cgb_store mapped banks = \<lparr>mem_at = (\<lambda>a. Inr (mapped a)), mem_bank = (\<lambda>b a. Inr (banks b a))\<rparr>"

definition battle_byte :: "(int \<Rightarrow> int) \<Rightarrow> (int \<Rightarrow> int \<Rightarrow> int) \<Rightarrow> int \<Rightarrow> int" where
  "battle_byte mapped banks a =
     (if WRAM_SWITCHABLE_START \<le> a \<and> a < WRAM_SWITCHABLE_END
      then banks WRAM_BATTLE_BANK a AND 0xFF else mapped a AND 0xFF)"

interpretation flat: wram_reader "flat_store f" "\<lambda>a. f a AND 0xFF" for f
  by unfold_locales (simp add: read_wram_u8_def read_banked_def flat_store_def no_bank_dimension_def)

interpretation cgb: wram_reader "cgb_store mapped banks" "battle_byte mapped banks" for mapped banks
  by unfold_locales (simp add: read_wram_u8_def read_banked_def cgb_store_def battle_byte_def)

subsection \<open>What the table answers\<close>

text \<open>The table after a sequence of additions, seen through its lookups.\<close>

lemma getitem_Inr_iff: "getitem t n = Inr s \<longleftrightarrow> get_symbol t n = Some s"
  by (auto simp: getitem_def get_symbol_def split: option.splits)

lemma has_symbol_iff: "has_symbol t n \<longleftrightarrow> (\<exists>s. get_symbol t n = Some s)"
  by (auto simp: has_symbol_def get_symbol_def)

lemma has_symbol_getitem: "has_symbol t n \<Longrightarrow> \<exists>s. getitem t n = Inr s"
  by (simp add: has_symbol_iff getitem_Inr_iff)

context wram_reader begin

lemma read_u8_known: "has_symbol t n \<Longrightarrow> \<exists>v. read_u8 m t n = Inr v \<and> 0 \<le> v \<and> v < 256"
  by (auto simp: has_symbol_iff getitem_Inr_iff [symmetric] dest: read_u8_ok)
     (meson rd_range read_u8_ok)

lemma read_u8_total:
  "read_u8 m t n = (case get_symbol t n of None \<Rightarrow> Inl KeyError | Some s \<Rightarrow> Inr (rd (sym_addr s)))"
  by (auto simp: read_u8_def addr_of_def getitem_def get_symbol_def read_wram split: option.splits)

lemma opt_u8_total: "opt_u8 m t n = Inr (map_option (\<lambda>s. rd (sym_addr s)) (get_symbol t n))"
  by (auto simp: opt_u8_def read_u8_total has_symbol_iff split: option.splits)

end

lemma get_symbol_add:
  "get_symbol (add_symbol t s) n = (if n = sym_name s then Some s else get_symbol t n)"
  by (simp add: add_symbol_def get_symbol_def Let_def update_conv')

lemma names_at_add:
  "names_at (add_symbol t s) b a =
     names_at t b a @ (if sym_bank s = b \<and> sym_addr s = a then [sym_name s] else [])"
  by (auto simp: add_symbol_def names_at_def Let_def update_conv' split: option.splits)

lemma by_name_distinct_add:
  "distinct (map fst (by_name t)) \<Longrightarrow> distinct (map fst (by_name (add_symbol t s)))"
  by (simp add: add_symbol_def Let_def distinct_update)

lemma table_spec_aux:
  "get_symbol (foldl add_symbol t ss) n =
     (case map_of (rev (map (\<lambda>s. (sym_name s, s)) ss)) n of Some s \<Rightarrow> Some s | None \<Rightarrow> get_symbol t n)
   \<and> names_at (foldl add_symbol t ss) b a =
     names_at t b a @ map sym_name (filter (\<lambda>s. sym_bank s = b \<and> sym_addr s = a) ss)
   \<and> (distinct (map fst (by_name t)) \<longrightarrow> distinct (map fst (by_name (foldl add_symbol t ss))))"
  by (induction ss rule: rev_induct)
     (auto simp: get_symbol_add names_at_add by_name_distinct_add map_add_def split: option.splits)

text \<open>
  Building a table from the symbols of a file, in order: a lookup by name answers the last
  symbol with that name, the reverse lookup at a bank and an address lists the names of every
  symbol placed there in file order (duplicates included), and no name is stored twice.
\<close>

theorem symbol_table_last_write_wins:
  "get_symbol (symbol_table_of ss) n = map_of (rev (map (\<lambda>s. (sym_name s, s)) ss)) n
   \<and> names_at (symbol_table_of ss) b a = map sym_name (filter (\<lambda>s. sym_bank s = b \<and> sym_addr s = a) ss)
   \<and> distinct (map fst (by_name (symbol_table_of ss)))"
  using table_spec_aux [of "\<lparr>by_name = [], by_addr = []\<rparr>" ss n b a]
  by (auto simp: symbol_table_of_def get_symbol_def names_at_def split: option.splits)

subsection \<open>The line format, rendered and parsed back\<close>

definition hex_char :: "int \<Rightarrow> char" where
  "hex_char d = ''0123456789ABCDEF'' ! nat d"

fun hex_str :: "nat \<Rightarrow> int \<Rightarrow> string" where
  "hex_str 0 v = []"
| "hex_str (Suc n) v = hex_str n (v div 16) @ [hex_char (v mod 16)]"

definition render_sym_line :: "int \<Rightarrow> int \<Rightarrow> string \<Rightarrow> string" where
  "render_sym_line b a name = hex_str 2 b @ '':'' @ hex_str 4 a @ '' '' @ name"

lemma hex_char_cases:
  assumes "0 \<le> d" "d < 16"
  shows "is_hex (hex_char d) \<and> hex_digit (hex_char d) = d \<and> \<not> is_space (hex_char d) \<and> hex_char d \<noteq> CHR '';''"
proof -
  have "d \<in> set [0..15]" using assms by auto
  moreover have "\<forall>d \<in> set [0..15]. is_hex (hex_char d) \<and> hex_digit (hex_char d) = d
      \<and> \<not> is_space (hex_char d) \<and> hex_char d \<noteq> CHR '';''"
    by code_simp
  ultimately show ?thesis by blast
qed

lemma hex_str_props:
  "length (hex_str n v) = n
   \<and> (\<forall>c \<in> set (hex_str n v). is_hex c \<and> \<not> is_space c \<and> c \<noteq> CHR '';'')
   \<and> hex_int (hex_str n v) = v mod 16 ^ n"
proof (induction n arbitrary: v)
  case 0
  show ?case by (simp add: hex_int_def)
next
  case (Suc n)
  have d: "0 \<le> v mod 16" "v mod 16 < 16" by simp_all
  have "hex_int (hex_str (Suc n) v) = 16 * ((v div 16) mod 16 ^ n) + v mod 16"
    using Suc [of "v div 16"] hex_char_cases [OF d] by (simp add: hex_int_def)
  also have "\<dots> = v mod (16 * 16 ^ n)"
    by (subst zmod_zmult2_eq) simp_all
  finally show ?case
    using Suc [of "v div 16"] hex_char_cases [OF d] by auto
qed

lemma takeWhile_all_stop:
  "(\<forall>x \<in> set xs. P x) \<Longrightarrow> \<not> P y \<Longrightarrow> takeWhile P (xs @ y # ys) = xs \<and> dropWhile P (xs @ y # ys) = y # ys"
  by (simp add: takeWhile_append2 dropWhile_append2)

lemma rstrip_stop:
  "\<not> is_space y \<Longrightarrow> rev (dropWhile is_space (rev (xs @ y # ys))) = xs @ y # rev (dropWhile is_space (rev ys))"
proof -
  assume y: "\<not> is_space y"
  have "dropWhile is_space (rev ys @ y # rev xs) = dropWhile is_space (rev ys) @ y # rev xs"
  proof (cases "\<forall>c \<in> set (rev ys). is_space c")
    case True
    then have "dropWhile is_space (rev ys @ zs) = dropWhile is_space zs" for zs
      by (intro dropWhile_append2) auto
    from this [of "[]"] this [of "y # rev xs"] y show ?thesis by simp
  next
    case False
    then show ?thesis by (auto intro: dropWhile_append1)
  qed
  then show ?thesis by simp
qed

lemma punctuation_classes:
  "\<not> is_hex (CHR '':'')" "\<not> is_hex (CHR '' '')" "is_space (CHR '' '')" "\<not> is_space (CHR '';'')"
  by code_simp+

lemma match_rendered:
  assumes name: "name \<noteq> []" "\<forall>c \<in> set name. \<not> is_space c"
    and tail: "comment_ok (dropWhile is_space tail)" "tail = [] \<or> is_space (hd tail)"
  shows "match_sym_line (hex_str 2 b @ '':'' @ hex_str 4 a @ '' '' @ name @ tail)
           = Some (hex_str 2 b, hex_str 4 a, name)"
proof -
  let ?b = "hex_str 2 b" and ?a = "hex_str 4 a"
  let ?rest = "?a @ CHR '' '' # name @ tail"
  let ?line = "?b @ CHR '':'' # ?rest"
  have b: "length ?b = 2" "\<forall>c \<in> set ?b. is_hex c" "\<forall>c \<in> set ?b. \<not> is_space c"
    and a: "length ?a = 4" "\<forall>c \<in> set ?a. is_hex c"
    using hex_str_props [of 2 b] hex_str_props [of 4 a] by auto
  have "dropWhile is_space ?line = ?line"
    using b by (cases ?b) auto
  moreover have "takeWhile is_hex ?line = ?b" "dropWhile is_hex ?line = CHR '':'' # ?rest"
    using takeWhile_all_stop [OF b(2) punctuation_classes(1)] by auto
  moreover have "takeWhile is_hex ?rest = ?a" "dropWhile is_hex ?rest = CHR '' '' # name @ tail"
    using takeWhile_all_stop [OF a(2) punctuation_classes(2)] by auto
  moreover have "dropWhile is_space (CHR '' '' # name @ tail) = name @ tail"
    using name punctuation_classes(3) by (cases name) auto
  moreover have "takeWhile (\<lambda>c. \<not> is_space c) (name @ tail) = name"
      "dropWhile (\<lambda>c. \<not> is_space c) (name @ tail) = tail"
    using name tail(2) by (cases tail; simp add: takeWhile_append2 dropWhile_append2)+
  ultimately show ?thesis
    using name(1) tail(1) a(1) b(1) punctuation_classes(3)
    by (simp add: match_sym_line_def match_name_def Let_def)
qed

text \<open>
  Round trip of the line format: a symbol rendered as \<open>BB:AAAA Name\<close>, with or without a
  comment separated from the name by blanks, parses back to exactly that symbol.
\<close>

theorem parse_sym_line_roundtrip:
  assumes bounds: "0 \<le> b" "b < 256" "0 \<le> a" "a < 65536"
    and name: "name \<noteq> []" "\<forall>c \<in> set name. \<not> is_space c"
    and blanks: "blanks \<noteq> []" "\<forall>c \<in> set blanks. is_space c"
    and comment: "\<forall>c \<in> set comment. code c \<noteq> 10"
  shows "parse_sym_line (render_sym_line b a name) = Some \<lparr>sym_name = name, sym_bank = b, sym_addr = a\<rparr>
    \<and> parse_sym_line (render_sym_line b a name @ blanks @ '';'' @ comment)
        = Some \<lparr>sym_name = name, sym_bank = b, sym_addr = a\<rparr>"
proof -
  let ?mk = "\<lambda>tail. hex_str 2 b @ '':'' @ hex_str 4 a @ '' '' @ name @ tail"
  let ?sym = "\<lparr>sym_name = name, sym_bank = b, sym_addr = a\<rparr>"
  have hex: "hex_int (hex_str 2 b) = b" "hex_int (hex_str 4 a) = a"
    using hex_str_props [of 2 b] hex_str_props [of 4 a] bounds by simp_all
  obtain h hs where h: "hex_str 2 b = h # hs" "\<not> is_space h" "h \<noteq> CHR '';''"
    using hex_str_props [of 2 b] by (cases "hex_str 2 b") auto
  have parse: "parse_sym_line raw = Some ?sym"
    if "strip raw = ?mk tail" "comment_ok (dropWhile is_space tail)" "tail = [] \<or> is_space (hd tail)"
    for raw tail
    using match_rendered [OF name that(2,3), of b a] that(1) h hex
    by (simp add: parse_sym_line_def Let_def)
  have lstrip: "dropWhile is_space (?mk tail) = ?mk tail" for tail
    using h by simp
  obtain nm z where z: "name = nm @ [z]" "\<not> is_space z"
    using name by (cases name rule: rev_cases) auto
  have plain: "strip (?mk []) = ?mk []"
    using rstrip_stop [OF z(2), of "hex_str 2 b @ '':'' @ hex_str 4 a @ '' '' @ nm" "[]"] lstrip [of "[]"]
    by (simp add: strip_def z)
  let ?c = "rev (dropWhile is_space (rev comment))"
  have commented: "strip (?mk (blanks @ '';'' @ comment)) = ?mk (blanks @ '';'' @ ?c)"
    using rstrip_stop [OF punctuation_classes(4), of "?mk blanks" comment] lstrip [of "blanks @ '';'' @ comment"]
    by (simp add: strip_def)
  have "set ?c \<subseteq> set comment"
    using set_dropWhileD by fastforce
  then have "comment_ok (dropWhile is_space (blanks @ '';'' @ ?c))"
    using blanks(2) comment punctuation_classes(4)
    by (auto simp: comment_ok_def dropWhile_append2 code_def)
  moreover have "is_space (hd (blanks @ '';'' @ ?c))"
    using blanks by (cases blanks) auto
  ultimately have "parse_sym_line (?mk (blanks @ '';'' @ comment)) = Some ?sym"
    using parse [OF commented] by blast
  moreover have "parse_sym_line (?mk []) = Some ?sym"
    using parse [OF plain] by (simp add: comment_ok_def)
  ultimately show ?thesis by (simp add: render_sym_line_def)
qed

theorem parse_sym_line_roundtrip_witness:
  "parse_sym_line (render_sym_line 1 0xD163 ''wPartyCount'')
     = Some \<lparr>sym_name = ''wPartyCount'', sym_bank = 1, sym_addr = 0xD163\<rparr>"
  using parse_sym_line_roundtrip [of 1 "0xD163" "''wPartyCount''" "'' ''" "''party''"]
  by (simp add: is_space_def code_def)

text \<open>
  A comment written directly after the name is not recognised when the line ends with it:
  the name group swallows the semicolon and everything after it, while the same comment with
  a blank inside is cut off at its semicolon.
\<close>

theorem adjacent_comment_joins_name:
  "map_option sym_name (parse_sym_line ''01:D163 wPartyCount;party'') = Some ''wPartyCount;party''
   \<and> map_option sym_name (parse_sym_line ''01:D163 wPartyCount;party size'') = Some ''wPartyCount''
   \<and> map_option sym_name (parse_sym_line ''01:D163 wPartyCount ;party'') = Some ''wPartyCount''"
  by code_simp

end
