(* ===== verification/Text_State.thy ===== *)
theory Text_State
  imports Symbols
begin

text \<open>
  Text and dialogue state (\<open>state/text.py\<close>). Both symbols are optional and their reads are
  guarded, so the parser itself never raises one of the guarded exceptions; each field carries
  a three-valued validity beside it.
\<close>

definition VRAM_TILEMAP_LO :: int where "VRAM_TILEMAP_LO = 0x9800"
definition VRAM_TILEMAP_HI :: int where "VRAM_TILEMAP_HI = 0x9FFF"
definition WRAM_TILEMAP_BYTES :: int where "WRAM_TILEMAP_BYTES = 20 * 18"

record text_state =
  text_dest_addr :: "int option"
  suppress_prompt_wait :: bool
  text_dest_valid :: "bool option"
  suppress_prompt_wait_valid :: "bool option"
  dest_in_wram_tilemap :: "bool option"

definition suppress_prompt_wait_observed :: "text_state \<Rightarrow> bool option" where
  "suppress_prompt_wait_observed s =
     (if suppress_prompt_wait_valid s \<noteq> Some True then None else Some (suppress_prompt_wait s))"

definition text_active :: "text_state \<Rightarrow> bool option" where
  "text_active s = None"

definition dest_in_tilemap :: "text_state \<Rightarrow> bool option" where
  "dest_in_tilemap s = dest_in_wram_tilemap s"

definition dest_in_vram_tilemap :: "text_state \<Rightarrow> bool" where
  "dest_in_vram_tilemap s =
     (case text_dest_addr s of
        None \<Rightarrow> False
      | Some a \<Rightarrow> if text_dest_valid s = Some False then False
                  else VRAM_TILEMAP_LO \<le> a \<and> a \<le> VRAM_TILEMAP_HI)"

text \<open>The exceptions the two guarded readers turn into an invalid observation.\<close>

definition caught :: "exn \<Rightarrow> bool" where
  "caught e \<longleftrightarrow> e \<in> {IndexError, KeyError, TypeError, ValueError, OverflowError}"

definition guarded_read :: "(memory \<Rightarrow> symbol_table \<Rightarrow> string \<Rightarrow> exn + int)
    \<Rightarrow> memory \<Rightarrow> symbol_table \<Rightarrow> string \<Rightarrow> exn + int option \<times> bool option" where
  "guarded_read rd m t name =
     (case get_symbol t name of
        None \<Rightarrow> Inr (None, None)
      | Some s \<Rightarrow>
          if sym_bank s \<noteq> 0 then Inr (None, Some False)
          else (case rd m t name of
                  Inr v \<Rightarrow> Inr (Some v, Some True)
                | Inl e \<Rightarrow> if caught e then Inr (None, Some False) else Inl e))"

definition text_read_u8 :: "memory \<Rightarrow> symbol_table \<Rightarrow> string \<Rightarrow> exn + int option \<times> bool option" where
  "text_read_u8 = guarded_read read_u8"

definition text_read_u16 :: "memory \<Rightarrow> symbol_table \<Rightarrow> string \<Rightarrow> exn + int option \<times> bool option" where
  "text_read_u16 = guarded_read read_u16_le"

text \<open>Whether the cursor lies in the symbol-backed WRAM tile map, when that can be told.\<close>

definition classify_dest :: "symbol_table \<Rightarrow> int option \<Rightarrow> bool option \<Rightarrow> bool option" where
  "classify_dest t dest dest_valid =
     (case (dest, get_symbol t ''wTileMap'') of
        (Some a, Some tilemap) \<Rightarrow>
          if dest_valid = Some True \<and> sym_bank tilemap = 0
          then let tilemap_end = sym_addr tilemap + WRAM_TILEMAP_BYTES
               in if tilemap_end \<le> 0x10000 then Some (sym_addr tilemap \<le> a \<and> a < tilemap_end) else None
          else None
      | _ \<Rightarrow> None)"

definition parse_text :: "memory \<Rightarrow> symbol_table \<Rightarrow> exn + text_state" where
  "parse_text m t =
     rbind (text_read_u16 m t ''wTextDest'') (\<lambda>(dest, dest_valid).
     rbind (text_read_u8 m t ''wDoNotWaitForButtonPressAfterDisplayingText'') (\<lambda>(raw, raw_valid).
       Inr \<lparr>text_dest_addr = dest,
            suppress_prompt_wait =
              (if raw_valid = Some True then (case raw of None \<Rightarrow> False | Some v \<Rightarrow> v \<noteq> 0) else False),
            text_dest_valid = dest_valid,
            suppress_prompt_wait_valid = raw_valid,
            dest_in_wram_tilemap = classify_dest t dest dest_valid\<rparr>))"

subsection \<open>Properties\<close>

lemma guarded_read_Inr:
  "guarded_read rd m t n = Inr (v, valid) \<Longrightarrow>
     (valid = None \<longleftrightarrow> \<not> has_symbol t n) \<and> (valid = Some True \<longleftrightarrow> v \<noteq> None)
     \<and> (v \<noteq> None \<longrightarrow> rd m t n = Inr (the v))"
  by (auto simp: guarded_read_def has_symbol_iff split: option.splits if_splits sum.splits)

lemma guarded_read_caught: "guarded_read rd m t n = Inl e \<Longrightarrow> \<not> caught e"
  by (auto simp: guarded_read_def split: option.splits if_splits sum.splits)

lemma parse_text_fields:
  assumes "parse_text m t = Inr s"
  shows "text_read_u16 m t ''wTextDest'' = Inr (text_dest_addr s, text_dest_valid s)"
    and "\<exists>raw. text_read_u8 m t ''wDoNotWaitForButtonPressAfterDisplayingText''
               = Inr (raw, suppress_prompt_wait_valid s)
             \<and> suppress_prompt_wait s = (suppress_prompt_wait_valid s = Some True \<and> (\<exists>v. raw = Some v \<and> v \<noteq> 0))"
    and "dest_in_wram_tilemap s = classify_dest t (text_dest_addr s) (text_dest_valid s)"
  using assms
  by (auto simp: parse_text_def result_simps text_read_u8_def dest: guarded_read_Inr split: option.splits)

text \<open>
  The text parser reports provenance truthfully: a validity of \<open>None\<close> means exactly that the
  symbol is absent, \<open>True\<close> exactly that a value was read, the tile-map classification is only
  given for a destination that was read, and the observed suppression flag is \<open>Some\<close> only for a
  byte that was read. None of the exceptions the readers guard against escapes.
\<close>

theorem parse_text_provenance:
  "case parse_text m t of
     Inl e \<Rightarrow> \<not> caught e
   | Inr s \<Rightarrow>
         (text_dest_valid s = None \<longleftrightarrow> \<not> has_symbol t ''wTextDest'')
       \<and> (text_dest_valid s = Some True \<longleftrightarrow> text_dest_addr s \<noteq> None)
       \<and> (dest_in_wram_tilemap s \<noteq> None \<longrightarrow> text_dest_valid s = Some True \<and> has_symbol t ''wTileMap'')
       \<and> (suppress_prompt_wait_valid s = None
            \<longleftrightarrow> \<not> has_symbol t ''wDoNotWaitForButtonPressAfterDisplayingText'')
       \<and> (suppress_prompt_wait_observed s = None \<longrightarrow> \<not> suppress_prompt_wait s)
       \<and> (\<forall>b. suppress_prompt_wait_observed s = Some b \<longrightarrow>
            (\<exists>v. read_u8 m t ''wDoNotWaitForButtonPressAfterDisplayingText'' = Inr v \<and> b = (v \<noteq> 0)))"
proof (cases "parse_text m t")
  case (Inl e)
  then have "\<not> caught e"
    by (auto simp: parse_text_def rbind_eq_Inl_iff text_read_u8_def text_read_u16_def
        dest!: guarded_read_caught)
  with Inl show ?thesis by simp
next
  case (Inr s)
  note dest = guarded_read_Inr [OF parse_text_fields(1) [OF Inr, unfolded text_read_u16_def]]
  obtain raw where raw: "guarded_read read_u8 m t ''wDoNotWaitForButtonPressAfterDisplayingText''
        = Inr (raw, suppress_prompt_wait_valid s)"
      "suppress_prompt_wait s = (suppress_prompt_wait_valid s = Some True \<and> (\<exists>v. raw = Some v \<and> v \<noteq> 0))"
    using parse_text_fields(2) [OF Inr] by (auto simp: text_read_u8_def)
  note flag = guarded_read_Inr [OF raw(1)]
  show ?thesis
    unfolding Inr sum.case
  proof (intro conjI allI impI)
    show "text_dest_valid s = None \<longleftrightarrow> \<not> has_symbol t ''wTextDest''"
      and "text_dest_valid s = Some True \<longleftrightarrow> text_dest_addr s \<noteq> None"
      using dest by auto
    show "suppress_prompt_wait_valid s = None
        \<longleftrightarrow> \<not> has_symbol t ''wDoNotWaitForButtonPressAfterDisplayingText''"
      using flag by auto
    show "\<not> suppress_prompt_wait s" if "suppress_prompt_wait_observed s = None"
      using that raw(2) by (auto simp: suppress_prompt_wait_observed_def split: if_splits)
    show "text_dest_valid s = Some True" and "has_symbol t ''wTileMap''"
      if "dest_in_wram_tilemap s \<noteq> None"
      using that parse_text_fields(3) [OF Inr]
      by (auto simp: classify_dest_def has_symbol_iff split: option.splits if_splits)
    show "\<exists>v. read_u8 m t ''wDoNotWaitForButtonPressAfterDisplayingText'' = Inr v \<and> b = (v \<noteq> 0)"
      if "suppress_prompt_wait_observed s = Some b" for b
    proof -
      from that have valid: "suppress_prompt_wait_valid s = Some True" and b: "b = suppress_prompt_wait s"
        by (simp_all add: suppress_prompt_wait_observed_def split: if_splits)
      with flag obtain v where "raw = Some v" by auto
      with flag raw(2) valid b show ?thesis by auto
    qed
  qed
qed

theorem parse_text_provenance_witness:
  "case parse_text (flat_store (\<lambda>a. if a = 0xC001 then 0xC3 else 0xA0))
         (symbol_table_of [\<lparr>sym_name = ''wTextDest'', sym_bank = 0, sym_addr = 0xC000\<rparr>,
                           \<lparr>sym_name = ''wTileMap'', sym_bank = 0, sym_addr = 0xC3A0\<rparr>]) of
     Inl e \<Rightarrow> False
   | Inr s \<Rightarrow> text_dest_addr s = Some 0xC3A0 \<and> dest_in_wram_tilemap s = Some True
       \<and> suppress_prompt_wait_observed s = None \<and> \<not> suppress_prompt_wait s"
proof -
  let ?m = "flat_store (\<lambda>a. if a = 0xC001 then 0xC3 else 0xA0)"
  let ?t = "symbol_table_of [\<lparr>sym_name = ''wTextDest'', sym_bank = 0, sym_addr = 0xC000\<rparr>,
                           \<lparr>sym_name = ''wTileMap'', sym_bank = 0, sym_addr = 0xC3A0\<rparr>]"
  have "case parse_text ?m ?t of Inl e \<Rightarrow> False
      | Inr s \<Rightarrow> text_dest_addr s = Some 0xC3A0 \<and> dest_in_wram_tilemap s = Some True
          \<and> suppress_prompt_wait_observed s = None"
    by code_simp
  then show ?thesis using parse_text_provenance [where m = ?m and t = ?t]
    by (auto split: sum.splits)
qed

end
