(* ===== verification/Menu_State.thy ===== *)
theory Menu_State
  imports Symbols
begin

text \<open>Menu cursor state (\<open>state/menu.py\<close>): two required bytes and five optional ones.\<close>

record menu_state =
  current_item :: int
  max_item :: int
  watched_keys :: "int option"
  list_scroll_offset :: "int option"
  saved_party_pc :: "int option"
  saved_bag :: "int option"
  saved_battle_start :: "int option"

definition cursor_valid :: "menu_state \<Rightarrow> bool option" where
  "cursor_valid s =
     (if current_item s > max_item s then Some False
      else case list_scroll_offset s of
             None \<Rightarrow> None
           | Some off \<Rightarrow> Some (current_item s + off \<le> max_item s))"

definition cursor_at_top :: "menu_state \<Rightarrow> bool option" where
  "cursor_at_top s =
     (case list_scroll_offset s of
        None \<Rightarrow> None
      | Some off \<Rightarrow> Some (current_item s = 0 \<and> off = 0))"

definition parse_menu :: "memory \<Rightarrow> symbol_table \<Rightarrow> exn + menu_state" where
  "parse_menu m t =
     rbind (read_u8 m t ''wCurrentMenuItem'') (\<lambda>cur.
     rbind (read_u8 m t ''wMaxMenuItem'') (\<lambda>mx.
     rbind (opt_u8 m t ''wMenuWatchedKeys'') (\<lambda>keys.
     rbind (opt_u8 m t ''wListScrollOffset'') (\<lambda>scroll.
     rbind (opt_u8 m t ''wPartyAndBillsPCSavedMenuItem'') (\<lambda>pc.
     rbind (opt_u8 m t ''wBagSavedMenuItem'') (\<lambda>bag.
     rbind (opt_u8 m t ''wBattleAndStartSavedMenuItem'') (\<lambda>battle.
       Inr \<lparr>current_item = cur, max_item = mx, watched_keys = keys, list_scroll_offset = scroll,
            saved_party_pc = pc, saved_bag = bag, saved_battle_start = battle\<rparr>)))))))"

context wram_reader begin

lemma parse_menu_known:
  "has_symbol t ''wCurrentMenuItem'' \<Longrightarrow> has_symbol t ''wMaxMenuItem'' \<Longrightarrow> \<exists>s. parse_menu m t = Inr s"
  by (auto simp: parse_menu_def has_symbol_iff read_u8_total opt_u8_total)

lemma parse_menu_missing:
  "\<not> (has_symbol t ''wCurrentMenuItem'' \<and> has_symbol t ''wMaxMenuItem'') \<Longrightarrow> parse_menu m t = Inl KeyError"
  by (auto simp: parse_menu_def has_symbol_iff read_u8_total split: option.splits)

end

lemma parse_menu_Inr:
  "parse_menu m t = Inr s \<Longrightarrow>
     has_symbol t ''wCurrentMenuItem'' \<and> has_symbol t ''wMaxMenuItem''
     \<and> read_u8 m t ''wCurrentMenuItem'' = Inr (current_item s)
     \<and> read_u8 m t ''wMaxMenuItem'' = Inr (max_item s)
     \<and> opt_u8 m t ''wListScrollOffset'' = Inr (list_scroll_offset s)"
  by (auto simp: parse_menu_def result_simps read_u8_def addr_of_def getitem_Inr_iff has_symbol_iff)

text \<open>
  A parsed menu reports the bytes of memory. Its cursor is declared valid only when item and
  scroll offset stay within the bottom item, declared unknown exactly when the scroll symbol is absent
  and the raw pair is consistent, and a cursor at the top of the list is always valid.
\<close>

theorem parse_menu_cursor:
  assumes "parse_menu m t = Inr s"
  shows "read_u8 m t ''wCurrentMenuItem'' = Inr (current_item s)
    \<and> read_u8 m t ''wMaxMenuItem'' = Inr (max_item s)
    \<and> (cursor_valid s = Some True \<longleftrightarrow>
         (\<exists>off. read_u8 m t ''wListScrollOffset'' = Inr off \<and> has_symbol t ''wListScrollOffset''
               \<and> current_item s + off \<le> max_item s))
    \<and> (cursor_valid s = None \<longleftrightarrow> \<not> has_symbol t ''wListScrollOffset'' \<and> current_item s \<le> max_item s)
    \<and> (cursor_at_top s = Some True \<longrightarrow> cursor_valid s = Some True)"
proof -
  note f = parse_menu_Inr [OF assms]
  have "0 \<le> max_item s" using f read_u8_range by blast
  moreover have "0 \<le> off" if "list_scroll_offset s = Some off" for off
    using f that by (auto dest: opt_u8_range)
  ultimately show ?thesis
    using f by (cases "list_scroll_offset s")
      (auto simp: cursor_valid_def cursor_at_top_def opt_u8_Inr split: if_splits)
qed

theorem parse_menu_cursor_witness:
  "\<exists>s. parse_menu (flat_store (\<lambda>a. if a = 0xCC28 then 6 else 2))
         (symbol_table_of [\<lparr>sym_name = ''wCurrentMenuItem'', sym_bank = 0, sym_addr = 0xCC26\<rparr>,
                           \<lparr>sym_name = ''wMaxMenuItem'', sym_bank = 0, sym_addr = 0xCC28\<rparr>]) = Inr s
     \<and> current_item s = 2 \<and> cursor_valid s = None"
proof -
  let ?m = "flat_store (\<lambda>a. if a = 0xCC28 then 6 else 2)"
  let ?t = "symbol_table_of [\<lparr>sym_name = ''wCurrentMenuItem'', sym_bank = 0, sym_addr = 0xCC26\<rparr>,
                             \<lparr>sym_name = ''wMaxMenuItem'', sym_bank = 0, sym_addr = 0xCC28\<rparr>]"
  obtain s where s: "parse_menu ?m ?t = Inr s"
    using flat.parse_menu_known [of ?t] by (force simp: symbol_table_of_def add_symbol_def has_symbol_def)
  have "read_u8 ?m ?t ''wCurrentMenuItem'' = Inr 2" "read_u8 ?m ?t ''wMaxMenuItem'' = Inr 6"
      "\<not> has_symbol ?t ''wListScrollOffset''"
    by code_simp+
  with s parse_menu_cursor [OF s] show ?thesis by auto
qed

end
