(* ===== verification/State_Base.thy ===== *)
theory State_Base
  imports Prelude
begin

text \<open>
  Shared state primitives (\<open>state/base.py\<close>): the facing direction and the non-volatile status
  byte. Both decoders are total on every integer and never guess: an encoding the game does not
  use is reported as unknown.
\<close>

unbundle bit_operations_syntax

subsection \<open>Facing direction\<close>

datatype direction = DOWN | UP | LEFT | RIGHT

fun direction_value :: "direction \<Rightarrow> int" where
  "direction_value DOWN = 0"
| "direction_value UP = 4"
| "direction_value LEFT = 8"
| "direction_value RIGHT = 12"

text \<open>The enum constructor: the member with that value, or \<open>ValueError\<close>.\<close>

definition direction_of :: "int \<Rightarrow> exn + direction" where
  "direction_of n =
     (if n = 0 then Inr DOWN else if n = 4 then Inr UP
      else if n = 8 then Inr LEFT else if n = 12 then Inr RIGHT else Inl ValueError)"

text \<open>\<open>isinstance(raw, int)\<close> holds of booleans too, which then compare equal to 0 and 1.\<close>

definition as_int :: "pyval \<Rightarrow> int option" where
  "as_int v = (case v of PyInt n \<Rightarrow> Some n | PyBool b \<Rightarrow> Some (if b then 1 else 0) | _ \<Rightarrow> None)"

definition parse_direction :: "pyval \<Rightarrow> direction option" where
  "parse_direction raw =
     (case as_int raw of
        None \<Rightarrow> None
      | Some n \<Rightarrow>
          if \<not> (0 \<le> n \<and> n \<le> 0xFF) then None
          else (case direction_of n of Inl _ \<Rightarrow> None | Inr d \<Rightarrow> Some d))"

subsection \<open>Status byte\<close>

definition SLEEP_COUNTER_MASK :: int where "SLEEP_COUNTER_MASK = 7"
definition POISON_BIT :: nat where "POISON_BIT = 3"
definition BURN_BIT :: nat where "BURN_BIT = 4"
definition FREEZE_BIT :: nat where "FREEZE_BIT = 5"
definition PARALYSIS_BIT :: nat where "PARALYSIS_BIT = 6"

definition STATUS_KNOWN_MASK :: int where
  "STATUS_KNOWN_MASK =
     SLEEP_COUNTER_MASK OR push_bit POISON_BIT 1 OR push_bit BURN_BIT 1
       OR push_bit FREEZE_BIT 1 OR push_bit PARALYSIS_BIT 1"

definition STATUS_UNKNOWN_MASK :: int where
  "STATUS_UNKNOWN_MASK = 0xFF XOR STATUS_KNOWN_MASK"

record status_condition =
  status_raw :: int
  sleep_turns :: int
  poisoned :: bool
  burned :: bool
  frozen :: bool
  paralyzed :: bool

definition asleep :: "status_condition \<Rightarrow> bool" where
  "asleep s \<longleftrightarrow> sleep_turns s > 0"

definition unknown_bits :: "status_condition \<Rightarrow> int" where
  "unknown_bits s = status_raw s AND STATUS_UNKNOWN_MASK"

definition status_is_valid :: "status_condition \<Rightarrow> bool" where
  "status_is_valid s \<longleftrightarrow> 0 \<le> status_raw s \<and> status_raw s \<le> 0xFF \<and> unknown_bits s = 0"

definition status_is_unknown :: "status_condition \<Rightarrow> bool" where
  "status_is_unknown s \<longleftrightarrow> \<not> status_is_valid s"

definition is_healthy :: "status_condition \<Rightarrow> bool" where
  "is_healthy s \<longleftrightarrow> status_is_valid s \<and> status_raw s = 0"

definition status_bit :: "int \<Rightarrow> nat \<Rightarrow> bool" where
  "status_bit raw k \<longleftrightarrow> drop_bit k raw AND 1 \<noteq> 0"

definition parse_status :: "int \<Rightarrow> status_condition" where
  "parse_status raw0 =
     (let raw = raw0 AND 0xFF
      in \<lparr>status_raw = raw,
          sleep_turns = raw AND SLEEP_COUNTER_MASK,
          poisoned = status_bit raw POISON_BIT,
          burned = status_bit raw BURN_BIT,
          frozen = status_bit raw FREEZE_BIT,
          paralyzed = status_bit raw PARALYSIS_BIT\<rparr>)"

subsection \<open>The status byte is decomposed without loss\<close>

definition bit_weight :: "bool \<Rightarrow> int \<Rightarrow> int" where
  "bit_weight b w = (if b then w else 0)"

definition recompose :: "status_condition \<Rightarrow> int" where
  "recompose s = sleep_turns s + bit_weight (poisoned s) 8 + bit_weight (burned s) 16
     + bit_weight (frozen s) 32 + bit_weight (paralyzed s) 64 + unknown_bits s"

lemmas status_defs =
  parse_status_def status_bit_def unknown_bits_def status_is_valid_def is_healthy_def asleep_def
  recompose_def bit_weight_def STATUS_UNKNOWN_MASK_def STATUS_KNOWN_MASK_def
  SLEEP_COUNTER_MASK_def POISON_BIT_def BURN_BIT_def FREEZE_BIT_def PARALYSIS_BIT_def

lemma status_byte_table:
  "\<forall>r \<in> set [0..255].
     recompose (parse_status r) = r
     \<and> status_is_valid (parse_status r) = (r < 128)
     \<and> is_healthy (parse_status r) = (r = 0)
     \<and> sleep_turns (parse_status r) = r mod 8"
  by code_simp

lemma parse_status_mod: "parse_status (raw mod 256) = parse_status raw"
  by (simp add: parse_status_def Let_def and_255)

lemma status_raw_parse: "status_raw (parse_status raw) = raw mod 256"
  by (simp add: parse_status_def Let_def and_255)

text \<open>
  Every byte is the sum of its decoded conditions and its reserved bit: nothing of the
  status byte is lost, it is valid exactly when the reserved bit is clear, it is healthy exactly
  when it is zero, and the sleep counter is below eight. The argument is first reduced to a byte.
\<close>

theorem parse_status_lossless:
  "recompose (parse_status raw) = raw mod 256
   \<and> (status_is_valid (parse_status raw) \<longleftrightarrow> raw mod 256 < 128)
   \<and> (is_healthy (parse_status raw) \<longleftrightarrow> raw mod 256 = 0)
   \<and> 0 \<le> sleep_turns (parse_status raw) \<and> sleep_turns (parse_status raw) < 8"
proof -
  have "raw mod 256 \<in> set [0..255]" by simp
  from bspec [OF status_byte_table this] show ?thesis
    by (simp add: parse_status_mod)
qed

text \<open>
  The direction decoder answers a direction exactly on the integer that encodes it: every
  other value, out of the byte range or not an integer at all, is unknown.
\<close>

theorem parse_direction_exact:
  "parse_direction v = Some d \<longleftrightarrow> as_int v = Some (direction_value d)"
  by (cases d) (auto simp: parse_direction_def direction_of_def split: if_splits option.splits)

end
