(* ===== verification/Overworld_State.thy ===== *)
theory Overworld_State
  imports Symbols State_Base
begin

text \<open>Free-movement state (\<open>state/overworld.py\<close>): four required bytes, the facing direction
  with its two candidate symbols, and three optional bytes.\<close>

unbundle bit_operations_syntax

definition BIT_SCRIPTED_MOVEMENT_STATE :: nat where "BIT_SCRIPTED_MOVEMENT_STATE = 7"

record overworld_state =
  map_id :: int
  ow_x :: int
  ow_y :: int
  walk_counter :: int
  ow_direction :: "direction option"
  map_script_flags :: "int option"
  current_map_script :: "int option"
  status_flags5_raw :: "int option"

definition is_standing :: "overworld_state \<Rightarrow> bool" where
  "is_standing s \<longleftrightarrow> walk_counter s = 0"

definition scripted_movement_active :: "overworld_state \<Rightarrow> bool" where
  "scripted_movement_active s =
     (case status_flags5_raw s of
        None \<Rightarrow> False
      | Some v \<Rightarrow> drop_bit BIT_SCRIPTED_MOVEMENT_STATE v AND 1 \<noteq> 0)"

definition read_direction :: "memory \<Rightarrow> symbol_table \<Rightarrow> exn + direction option" where
  "read_direction m t =
     (if has_symbol t ''wSpritePlayerStateData1FacingDirection''
      then rbind (read_u8 m t ''wSpritePlayerStateData1FacingDirection'') (\<lambda>v. Inr (parse_direction (PyInt v)))
      else case get_symbol t ''wSpriteStateData1'' of
             None \<Rightarrow> Inr None
           | Some base \<Rightarrow> rbind (read_wram_u8 m (sym_addr base + 0x09)) (\<lambda>v. Inr (parse_direction (PyInt v))))"

definition parse_overworld :: "memory \<Rightarrow> symbol_table \<Rightarrow> exn + overworld_state" where
  "parse_overworld m t =
     rbind (read_u8 m t ''wCurMap'') (\<lambda>mid.
     rbind (read_u8 m t ''wXCoord'') (\<lambda>x.
     rbind (read_u8 m t ''wYCoord'') (\<lambda>y.
     rbind (read_u8 m t ''wWalkCounter'') (\<lambda>walk.
     rbind (read_direction m t) (\<lambda>dir.
     rbind (opt_u8 m t ''wCurrentMapScriptFlags'') (\<lambda>flags.
     rbind (opt_u8 m t ''wCurMapScript'') (\<lambda>script.
     rbind (opt_u8 m t ''wStatusFlags5'') (\<lambda>flags5.
       Inr \<lparr>map_id = mid, ow_x = x, ow_y = y, walk_counter = walk, ow_direction = dir,
            map_script_flags = flags, current_map_script = script, status_flags5_raw = flags5\<rparr>))))))))"

context wram_reader begin

lemma read_direction_total: "\<exists>d. read_direction m t = Inr d"
  by (auto simp: read_direction_def has_symbol_iff read_u8_total read_wram split: option.splits)

lemma parse_overworld_known:
  assumes "has_symbol t ''wCurMap''" "has_symbol t ''wXCoord''" "has_symbol t ''wYCoord''" "has_symbol t ''wWalkCounter''"
  shows "\<exists>s. parse_overworld m t = Inr s"
  using assms read_direction_total [of t]
  by (auto simp: parse_overworld_def has_symbol_iff read_u8_total opt_u8_total)

end

lemma scripted_bit: "0 \<le> v \<Longrightarrow> v < 256 \<Longrightarrow> drop_bit 7 (v::int) AND 1 \<noteq> 0 \<longleftrightarrow> 128 \<le> v"
proof -
  assume "0 \<le> v" "v < 256"
  then have "v \<in> set [0..255]" by simp
  moreover have "\<forall>v \<in> set [0..255]. (drop_bit 7 (v::int) AND 1 \<noteq> 0) = (128 \<le> v)"
    by code_simp
  ultimately show ?thesis by blast
qed

lemma parse_overworld_flags5:
  "parse_overworld m t = Inr s \<Longrightarrow> opt_u8 m t ''wStatusFlags5'' = Inr (status_flags5_raw s)
     \<and> read_direction m t = Inr (ow_direction s)"
  by (auto simp: parse_overworld_def result_simps)

text \<open>
  Scripted movement is reported exactly when the status symbol is present and the high bit of its
  byte is set; a reported direction is the decoding of the byte at the facing symbol, or at
  offset 9 of the sprite block when that symbol is absent, and without either symbol it is unknown.
\<close>

theorem parse_overworld_fields:
  assumes "parse_overworld m t = Inr s"
  shows "(scripted_movement_active s \<longleftrightarrow>
           (\<exists>v. has_symbol t ''wStatusFlags5'' \<and> read_u8 m t ''wStatusFlags5'' = Inr v \<and> 128 \<le> v))
    \<and> (\<forall>d. ow_direction s = Some d \<longrightarrow>
           (\<exists>a. read_wram_u8 m a = Inr (direction_value d)
               \<and> (addr_of t ''wSpritePlayerStateData1FacingDirection'' = Inr a
                  \<or> (\<not> has_symbol t ''wSpritePlayerStateData1FacingDirection''
                     \<and> addr_of t ''wSpriteStateData1'' = Inr (a - 9)))))
    \<and> (\<not> has_symbol t ''wSpritePlayerStateData1FacingDirection'' \<and> \<not> has_symbol t ''wSpriteStateData1''
          \<longrightarrow> ow_direction s = None)"
proof (intro conjI allI impI)
  note f = parse_overworld_flags5 [OF assms]
  have "drop_bit 7 v AND 1 \<noteq> 0 \<longleftrightarrow> 128 \<le> v" if "status_flags5_raw s = Some v" for v
    using f that by (intro scripted_bit) (auto dest: opt_u8_range)
  then show "scripted_movement_active s \<longleftrightarrow>
      (\<exists>v. has_symbol t ''wStatusFlags5'' \<and> read_u8 m t ''wStatusFlags5'' = Inr v \<and> 128 \<le> v)"
    using f by (auto simp: scripted_movement_active_def BIT_SCRIPTED_MOVEMENT_STATE_def opt_u8_Inr
        split: option.splits if_splits)
  fix d
  assume "ow_direction s = Some d"
  with f have "read_direction m t = Inr (Some d)" by simp
  moreover have "v = direction_value d" if "parse_direction (PyInt v) = Some d" for v
    using that by (cases d) (auto simp: parse_direction_def as_int_def direction_of_def split: if_splits)
  ultimately show "\<exists>a. read_wram_u8 m a = Inr (direction_value d)
      \<and> (addr_of t ''wSpritePlayerStateData1FacingDirection'' = Inr a
         \<or> (\<not> has_symbol t ''wSpritePlayerStateData1FacingDirection''
            \<and> addr_of t ''wSpriteStateData1'' = Inr (a - 9)))"
    by (fastforce simp: read_direction_def read_u8_def addr_of_def getitem_def get_symbol_def result_simps
        split: if_splits option.splits)
next
  assume "\<not> has_symbol t ''wSpritePlayerStateData1FacingDirection'' \<and> \<not> has_symbol t ''wSpriteStateData1''"
  then show "ow_direction s = None"
    using parse_overworld_flags5 [OF assms] by (auto simp: read_direction_def has_symbol_iff)
qed

theorem parse_overworld_fields_witness:
  "\<exists>s. parse_overworld (flat_store (\<lambda>a. if a = 0xC109 then 8 else 0x80))
         (symbol_table_of (map (\<lambda>(n, a). \<lparr>sym_name = n, sym_bank = 0, sym_addr = a\<rparr>)
            [(''wCurMap'', 0xD35E), (''wXCoord'', 0xD362), (''wYCoord'', 0xD361), (''wWalkCounter'', 0xCFC5),
             (''wSpriteStateData1'', 0xC100), (''wStatusFlags5'', 0xD730)])) = Inr s
     \<and> scripted_movement_active s"
proof -
  let ?m = "flat_store (\<lambda>a. if a = 0xC109 then 8 else 0x80)"
  let ?t = "symbol_table_of (map (\<lambda>(n, a). \<lparr>sym_name = n, sym_bank = 0, sym_addr = a\<rparr>)
            [(''wCurMap'', 0xD35E), (''wXCoord'', 0xD362), (''wYCoord'', 0xD361), (''wWalkCounter'', 0xCFC5),
             (''wSpriteStateData1'', 0xC100), (''wStatusFlags5'', 0xD730)])"
  have "has_symbol ?t ''wCurMap''" "has_symbol ?t ''wXCoord''" "has_symbol ?t ''wYCoord''" "has_symbol ?t ''wWalkCounter''"
      and flags: "has_symbol ?t ''wStatusFlags5''" "read_u8 ?m ?t ''wStatusFlags5'' = Inr 128"
    by code_simp+
  then obtain s where s: "parse_overworld ?m ?t = Inr s"
    using flat.parse_overworld_known [of ?t] by blast
  with parse_overworld_fields [OF s] flags show ?thesis by auto
qed

end
