(* ===== verification/Progress_State.thy ===== *)
theory Progress_State
  imports Symbols
begin

text \<open>Progression state (\<open>state/progress.py\<close>): badges, trainer id, money in packed decimal, play
  time and single event flags addressed by bit index.\<close>

unbundle bit_operations_syntax

datatype badge = BOULDER | CASCADE | THUNDER | RAINBOW | SOUL | MARSH | VOLCANO | EARTH

fun badge_value :: "badge \<Rightarrow> nat" where
  "badge_value BOULDER = 0"
| "badge_value CASCADE = 1"
| "badge_value THUNDER = 2"
| "badge_value RAINBOW = 3"
| "badge_value SOUL = 4"
| "badge_value MARSH = 5"
| "badge_value VOLCANO = 6"
| "badge_value EARTH = 7"

definition ALL_BADGES :: "badge list" where
  "ALL_BADGES = [BOULDER, CASCADE, THUNDER, RAINBOW, SOUL, MARSH, VOLCANO, EARTH]"

definition NUM_EVENT_FLAGS :: int where "NUM_EVENT_FLAGS = 0xA00"

record progress_state =
  badges_raw :: int
  trainer_id :: "int option"
  money :: "int option"
  play_time_hours :: "int option"
  play_time_minutes :: "int option"
  play_time_seconds :: "int option"
  play_time_maxed :: bool
  play_time_maxed_raw :: "int option"

definition has_badge :: "progress_state \<Rightarrow> badge \<Rightarrow> bool" where
  "has_badge s b \<longleftrightarrow> drop_bit (badge_value b) (badges_raw s) AND 1 \<noteq> 0"

definition badges :: "progress_state \<Rightarrow> badge list" where
  "badges s = filter (has_badge s) ALL_BADGES"

fun bit_count :: "nat \<Rightarrow> nat" where
  "bit_count n = (if n = 0 then 0 else n mod 2 + bit_count (n div 2))"

declare bit_count.simps [simp del]

definition badge_count :: "progress_state \<Rightarrow> nat" where
  "badge_count s = bit_count (nat (badges_raw s AND 0xFF))"

definition play_time_maxed_known :: "progress_state \<Rightarrow> bool" where
  "play_time_maxed_known s \<longleftrightarrow> play_time_maxed_raw s \<noteq> None"

definition play_time_maxed_value :: "progress_state \<Rightarrow> bool option" where
  "play_time_maxed_value s = (if play_time_maxed_known s then Some (play_time_maxed s) else None)"

definition play_time_known :: "progress_state \<Rightarrow> bool" where
  "play_time_known s \<longleftrightarrow> play_time_maxed_known s \<and> play_time_hours s \<noteq> None
     \<and> play_time_minutes s \<noteq> None \<and> play_time_seconds s \<noteq> None"

definition opt_u8_range_max :: "memory \<Rightarrow> symbol_table \<Rightarrow> string \<Rightarrow> int \<Rightarrow> exn + int option" where
  "opt_u8_range_max m t name maximum =
     rbind (opt_u8 m t name)
       (\<lambda>value. Inr (case value of None \<Rightarrow> None | Some v \<Rightarrow> if v \<le> maximum then Some v else None))"

text \<open>Three bytes of packed decimal: the loop stops with unknown at the first bad nibble.\<close>

fun bcd_loop :: "memory \<Rightarrow> int \<Rightarrow> int list \<Rightarrow> int \<Rightarrow> exn + int option" where
  "bcd_loop m addr [] result = Inr (Some result)"
| "bcd_loop m addr (i # is) result =
     rbind (read_wram_u8 m (addr + i))
       (\<lambda>b. let hi = drop_bit 4 b AND 0xF; lo = b AND 0xF
            in if hi > 9 \<or> lo > 9 then Inr None
               else bcd_loop m addr is (result * 100 + hi * 10 + lo))"

definition read_bcd3 :: "memory \<Rightarrow> int \<Rightarrow> exn + int option" where
  "read_bcd3 m addr = bcd_loop m addr [0, 1, 2] 0"

definition parse_progress :: "memory \<Rightarrow> symbol_table \<Rightarrow> exn + progress_state" where
  "parse_progress m t =
     rbind (read_u8 m t ''wObtainedBadges'') (\<lambda>raw.
     rbind (if has_symbol t ''wPlayerID''
            then rbind (read_u16_be m t ''wPlayerID'') (\<lambda>v. Inr (Some v)) else Inr None) (\<lambda>tid.
     rbind (if has_symbol t ''wPlayerMoney''
            then rbind (addr_of t ''wPlayerMoney'') (read_bcd3 m) else Inr None) (\<lambda>cash.
     rbind (opt_u8 m t ''wPlayTimeHours'') (\<lambda>hours.
     rbind (opt_u8_range_max m t ''wPlayTimeMinutes'' 59) (\<lambda>minutes.
     rbind (opt_u8_range_max m t ''wPlayTimeSeconds'' 59) (\<lambda>seconds.
     rbind (opt_u8 m t ''wPlayTimeMaxed'') (\<lambda>maxed_raw.
       Inr \<lparr>badges_raw = raw, trainer_id = tid, money = cash, play_time_hours = hours,
            play_time_minutes = minutes, play_time_seconds = seconds,
            play_time_maxed = (case maxed_raw of None \<Rightarrow> False | Some v \<Rightarrow> v \<noteq> 0),
            play_time_maxed_raw = maxed_raw\<rparr>)))))))"

definition read_event_flag :: "memory \<Rightarrow> symbol_table \<Rightarrow> pyval \<Rightarrow> exn + bool" where
  "read_event_flag m t bit_index =
     (case bit_index of
        PyInt k \<Rightarrow>
          if \<not> (0 \<le> k \<and> k < NUM_EVENT_FLAGS) then Inl ValueError
          else rbind (addr_of t ''wEventFlags'')
                 (\<lambda>base. rbind (read_wram_u8 m (base + k div 8))
                    (\<lambda>value. Inr (drop_bit (nat (k mod 8)) value AND 1 \<noteq> 0)))
      | _ \<Rightarrow> Inl ValueError)"

subsection \<open>Badges\<close>

lemma shifted_bit: "drop_bit k (x::int) AND 1 \<noteq> 0 \<longleftrightarrow> bit x k"
  by (simp add: and_one_eq bit_iff_odd_drop_bit odd_iff_mod_2_eq_one)

lemma badge_table:
  "\<forall>r \<in> set [0..255]. length (filter (\<lambda>b. bit (r::int) (badge_value b)) ALL_BADGES) = bit_count (nat r)"
  by code_simp

lemma badge_value_less: "badge_value b < 8"
  by (cases b) simp_all

text \<open>
  A badge is listed exactly when its bit is set in the badge byte, each at most once and in the
  order of the enumeration, and the population count of the byte is the number of badges listed.
\<close>

theorem badges_exact:
  "(b \<in> set (badges s) \<longleftrightarrow> bit (badges_raw s) (badge_value b))
   \<and> distinct (badges s) \<and> sorted (map badge_value (badges s)) \<and> badge_count s = length (badges s)"
proof -
  have "b \<in> set ALL_BADGES" by (cases b) (simp_all add: ALL_BADGES_def)
  then have mem: "b \<in> set (badges s) \<longleftrightarrow> bit (badges_raw s) (badge_value b)"
    by (simp add: badges_def has_badge_def shifted_bit)
  have "bit (badges_raw s mod 256) (badge_value c) = bit (badges_raw s) (badge_value c)" for c
    using badge_value_less [of c] bit_take_bit_iff [of 8 "badges_raw s" "badge_value c"]
    by (simp add: take_bit_eq_mod)
  then have "badges s = filter (\<lambda>b. bit (badges_raw s mod 256) (badge_value b)) ALL_BADGES"
    by (simp add: badges_def has_badge_def [abs_def] shifted_bit)
  moreover have "badges_raw s mod 256 \<in> set [0..255]" by simp
  ultimately have "badge_count s = length (badges s)"
    using badge_table by (simp add: badge_count_def and_255)
  moreover have "distinct (badges s)" "sorted (map badge_value (badges s))"
    by (auto simp: badges_def ALL_BADGES_def)
  ultimately show ?thesis using mem by blast
qed

subsection \<open>Packed decimal\<close>

text \<open>The packed encoding of a six-digit number, most significant byte first.\<close>

definition bcd_byte :: "int \<Rightarrow> int" where
  "bcd_byte d = 16 * (d div 10) + d mod 10"

definition to_bcd3 :: "int \<Rightarrow> int list" where
  "to_bcd3 v = [bcd_byte (v div 100 div 100), bcd_byte (v div 100 mod 100), bcd_byte (v mod 100)]"

lemma nibbles:
  assumes "0 \<le> b" "b < (256::int)"
  shows "drop_bit 4 b AND 0xF = b div 16 \<and> b AND 0xF = b mod 16"
  using assms by (simp add: and_15 drop_bit_eq_div)

definition bcd_digits :: "int \<Rightarrow> int option" where
  "bcd_digits b = (if b div 16 > 9 \<or> b mod 16 > 9 then None else Some (10 * (b div 16) + b mod 16))"

lemma bcd_digits_iff:
  "0 \<le> b \<Longrightarrow> b < 256 \<Longrightarrow> bcd_digits b = Some d \<longleftrightarrow> 0 \<le> d \<and> d < 100 \<and> b = bcd_byte d"
  unfolding bcd_digits_def bcd_byte_def by (auto; presburger)

lemma bcd_loop_step:
  assumes "read_wram_u8 m (addr + i) = Inr b"
  shows "bcd_loop m addr (i # is) r =
    (case bcd_digits b of None \<Rightarrow> Inr None | Some d \<Rightarrow> bcd_loop m addr is (r * 100 + d))"
  using assms nibbles [of b] read_wram_u8_range [OF assms]
  by (auto simp: bcd_digits_def Let_def algebra_simps)

lemma base_100:
  fixes p z v :: int
  assumes "0 \<le> z" "z < 100"
  shows "p * 100 + z = v \<longleftrightarrow> p = v div 100 \<and> z = v mod 100"
  using assms by auto

lemma three_digits:
  fixes v x y z :: int
  assumes "0 \<le> x" "x < 100" "0 \<le> y" "y < 100" "0 \<le> z" "z < 100"
  shows "(x * 100 + y) * 100 + z = v \<longleftrightarrow> x = v div 100 div 100 \<and> y = v div 100 mod 100 \<and> z = v mod 100"
  using base_100 [of z "x * 100 + y" v] base_100 [of y x "v div 100"] assms by blast

lemma read_bcd3_bytes:
  assumes r: "read_wram_u8 m a = Inr b0" "read_wram_u8 m (a + 1) = Inr b1" "read_wram_u8 m (a + 2) = Inr b2"
  shows "read_bcd3 m a =
    (case (bcd_digits b0, bcd_digits b1, bcd_digits b2) of
       (Some x, Some y, Some z) \<Rightarrow> Inr (Some ((x * 100 + y) * 100 + z)) | _ \<Rightarrow> Inr None)"
  using bcd_loop_step [of m a 0 b0] bcd_loop_step [of m a 1 b1] bcd_loop_step [of m a 2 b2] r
  by (auto simp: read_bcd3_def split: option.splits)

text \<open>
  Round trip of the money encoding: over readable bytes the reader answers an amount exactly
  when the three bytes are the packed decimal encoding of that amount, which then has at most six
  digits; every other byte pattern is unknown and never an invented number.
\<close>

theorem read_bcd3_roundtrip:
  assumes "read_wram_u8 m a = Inr b0" "read_wram_u8 m (a + 1) = Inr b1" "read_wram_u8 m (a + 2) = Inr b2"
  shows "(read_bcd3 m a = Inr (Some v) \<longleftrightarrow> 0 \<le> v \<and> v \<le> 999999 \<and> [b0, b1, b2] = to_bcd3 v)
    \<and> (read_bcd3 m a = Inr None \<longleftrightarrow> (\<forall>v \<in> {0..999999}. [b0, b1, b2] \<noteq> to_bcd3 v))"
proof -
  have bounds: "0 \<le> b0" "b0 < 256" "0 \<le> b1" "b1 < 256" "0 \<le> b2" "b2 < 256"
    using assms by (auto dest!: read_wram_u8_range)
  have digits: "read_bcd3 m a = Inr (Some v) \<longleftrightarrow> 0 \<le> v \<and> v \<le> 999999 \<and> [b0, b1, b2] = to_bcd3 v" for v
  proof -
    have "read_bcd3 m a = Inr (Some v) \<longleftrightarrow>
        (\<exists>x y z. bcd_digits b0 = Some x \<and> bcd_digits b1 = Some y \<and> bcd_digits b2 = Some z
                 \<and> (x * 100 + y) * 100 + z = v)"
      by (auto simp: read_bcd3_bytes [OF assms] split: option.splits)
    also have "\<dots> \<longleftrightarrow> (\<exists>x y z. (0 \<le> x \<and> x < 100 \<and> b0 = bcd_byte x) \<and> (0 \<le> y \<and> y < 100 \<and> b1 = bcd_byte y)
                 \<and> (0 \<le> z \<and> z < 100 \<and> b2 = bcd_byte z) \<and> (x * 100 + y) * 100 + z = v)"
      by (simp only: bcd_digits_iff bounds)
    also have "\<dots> \<longleftrightarrow> 0 \<le> v \<and> v \<le> 999999 \<and> [b0, b1, b2] = to_bcd3 v"
    proof
      assume v: "0 \<le> v \<and> v \<le> 999999 \<and> [b0, b1, b2] = to_bcd3 v"
      then have "0 \<le> v div 100 div 100" "v div 100 div 100 < 100"
        using v zdiv_mono1 [of v 999999 10000]
        by (simp_all add: pos_imp_zdiv_nonneg_iff zdiv_zmult2_eq [symmetric])
      moreover have "(v div 100 div 100 * 100 + v div 100 mod 100) * 100 + v mod 100 = v"
        by (simp only: div_mult_mod_eq)
      moreover have "b0 = bcd_byte (v div 100 div 100)" "b1 = bcd_byte (v div 100 mod 100)" "b2 = bcd_byte (v mod 100)"
        using v by (simp_all only: to_bcd3_def list.inject)
      moreover have "0 \<le> v div 100 mod 100" "v div 100 mod 100 < 100" "0 \<le> v mod 100" "v mod 100 < 100"
        by simp_all
      ultimately show "\<exists>x y z. (0 \<le> x \<and> x < 100 \<and> b0 = bcd_byte x) \<and> (0 \<le> y \<and> y < 100 \<and> b1 = bcd_byte y)
                 \<and> (0 \<le> z \<and> z < 100 \<and> b2 = bcd_byte z) \<and> (x * 100 + y) * 100 + z = v"
        by blast
    next
      assume "\<exists>x y z. (0 \<le> x \<and> x < 100 \<and> b0 = bcd_byte x) \<and> (0 \<le> y \<and> y < 100 \<and> b1 = bcd_byte y)
                 \<and> (0 \<le> z \<and> z < 100 \<and> b2 = bcd_byte z) \<and> (x * 100 + y) * 100 + z = v"
      then obtain x y z where xyz: "0 \<le> x" "x < 100" "0 \<le> y" "y < 100" "0 \<le> z" "z < 100"
          "(x * 100 + y) * 100 + z = v" and bs: "b0 = bcd_byte x" "b1 = bcd_byte y" "b2 = bcd_byte z"
        by blast
      have "0 \<le> v \<and> v \<le> 999999" using xyz by auto
      with three_digits [OF xyz(1-6), of v] xyz(7) bs show "0 \<le> v \<and> v \<le> 999999 \<and> [b0, b1, b2] = to_bcd3 v"
        by (simp add: to_bcd3_def)
    qed
    finally show ?thesis .
  qed
  have "read_bcd3 m a = Inr None \<longleftrightarrow> (\<forall>v. read_bcd3 m a \<noteq> Inr (Some v))"
    by (auto simp: read_bcd3_bytes [OF assms] split: option.splits)
  then show ?thesis using digits by auto
qed

theorem read_bcd3_roundtrip_witness:
  "read_bcd3 (flat_store (\<lambda>a. if a = 0xD347 then 0x01 else if a = 0xD348 then 0x23 else 0x45)) 0xD347 = Inr (Some 12345)"
  using read_bcd3_roundtrip [of "flat_store (\<lambda>a. if a = 0xD347 then 0x01 else if a = 0xD348 then 0x23 else 0x45)"
      "0xD347" "0x01" "0x23" "0x45" 12345]
  by (simp add: flat.read_wram to_bcd3_def bcd_byte_def)

subsection \<open>Event flags\<close>

text \<open>
  An event flag is read from inside the 320-byte event array or not at all: an index that is not an
  integer, is a boolean, or lies outside the array raises \<open>ValueError\<close> before any read, and an
  answer is the addressed bit of the addressed byte.
\<close>

theorem read_event_flag_bounds:
  "case read_event_flag m t k of
     Inr f \<Rightarrow> (\<exists>n base v. k = PyInt n \<and> addr_of t ''wEventFlags'' = Inr base
        \<and> base \<le> base + n div 8 \<and> base + n div 8 < base + 320
        \<and> read_wram_u8 m (base + n div 8) = Inr v \<and> f = bit v (nat (n mod 8)))
   | Inl e \<Rightarrow> (e = ValueError \<and> \<not> (\<exists>n \<in> {0..<2560}. k = PyInt n))
        \<or> (\<exists>n \<in> {0..<2560}. k = PyInt n \<and> (addr_of t ''wEventFlags'' = Inl e
              \<or> (\<exists>base. addr_of t ''wEventFlags'' = Inr base \<and> read_wram_u8 m (base + n div 8) = Inl e)))"
  by (auto simp: read_event_flag_def NUM_EVENT_FLAGS_def result_simps rbind_eq_Inl_iff shifted_bit
      split: pyval.splits if_splits sum.splits)

end
