(* ===== verification/Bag_State.thy ===== *)
theory Bag_State
  imports Symbols
begin

text \<open>
  Bag inventory (\<open>state/bag.py\<close>): a stack count, up to twenty item and quantity pairs and a
  terminator byte, with a bounded scan and an explicit validity beside the raw bytes.
\<close>

definition MAX_BAG_STACKS :: int where "MAX_BAG_STACKS = 20"
definition MAX_ITEM_QUANTITY :: int where "MAX_ITEM_QUANTITY = 99"
definition NO_ITEM :: int where "NO_ITEM = 0x00"
definition BAG_TERMINATOR :: int where "BAG_TERMINATOR = 0xFF"
definition ITEM_STACK_SIZE :: int where "ITEM_STACK_SIZE = 2"

lemmas bag_constants =
  MAX_BAG_STACKS_def MAX_ITEM_QUANTITY_def NO_ITEM_def BAG_TERMINATOR_def ITEM_STACK_SIZE_def

record bag_stack =
  item_id :: int
  quantity :: int

definition item_id_valid :: "bag_stack \<Rightarrow> bool" where
  "item_id_valid s \<longleftrightarrow> NO_ITEM < item_id s \<and> item_id s < BAG_TERMINATOR"

definition quantity_valid :: "bag_stack \<Rightarrow> bool" where
  "quantity_valid s \<longleftrightarrow> 1 \<le> quantity s \<and> quantity s \<le> MAX_ITEM_QUANTITY"

definition stack_valid :: "bag_stack \<Rightarrow> bool" where
  "stack_valid s \<longleftrightarrow> item_id_valid s \<and> quantity_valid s"

record bag =
  bag_count :: int
  bag_stacks :: "bag_stack list"
  bag_valid :: "bool option"
  bag_raw_count :: "int option"
  terminator_index :: "int option"
  bag_count_valid :: "bool option"
  terminator_valid :: "bool option"

definition bag_is_valid :: "bag \<Rightarrow> bool" where
  "bag_is_valid b \<longleftrightarrow> bag_valid b = Some True"

definition bag_is_unknown :: "bag \<Rightarrow> bool" where
  "bag_is_unknown b \<longleftrightarrow> bag_valid b = None"

definition terminator_found :: "bag \<Rightarrow> bool option" where
  "terminator_found b =
     (if bag_valid b = None \<and> terminator_index b = None then None else Some (terminator_index b \<noteq> None))"

definition has_item :: "bag \<Rightarrow> int \<Rightarrow> bool option" where
  "has_item b item =
     (let matching = filter (\<lambda>s. item_id s = item) (bag_stacks b)
      in if bag_is_unknown b then None
         else if matching = [] then Some False
         else if \<exists>s \<in> set matching. \<not> stack_valid s then None
         else Some True)"

definition quantity_of :: "bag \<Rightarrow> int \<Rightarrow> int option" where
  "quantity_of b item =
     (let matching = filter (\<lambda>s. item_id s = item) (bag_stacks b)
      in if bag_is_unknown b then None
         else if \<exists>s \<in> set matching. \<not> stack_valid s then None
         else Some (sum_list (map quantity matching)))"

text \<open>The scan for the first sentinel slot, never past the twenty-first.\<close>

fun find_terminator_from :: "memory \<Rightarrow> int \<Rightarrow> int list \<Rightarrow> exn + int option" where
  "find_terminator_from m base [] = Inr None"
| "find_terminator_from m base (index # rest) =
     rbind (read_wram_u8 m (base + index * ITEM_STACK_SIZE))
       (\<lambda>item. if item = BAG_TERMINATOR then Inr (Some index) else find_terminator_from m base rest)"

definition find_terminator :: "memory \<Rightarrow> int \<Rightarrow> exn + int option" where
  "find_terminator m base = find_terminator_from m base [0..MAX_BAG_STACKS]"

definition read_stacks :: "memory \<Rightarrow> int \<Rightarrow> int \<Rightarrow> exn + bag_stack list" where
  "read_stacks m base count =
     rmapM (\<lambda>i. rbind (read_wram_u8 m (base + i * ITEM_STACK_SIZE))
                  (\<lambda>item. rbind (read_wram_u8 m (base + i * ITEM_STACK_SIZE + 1))
                    (\<lambda>q. Inr \<lparr>item_id = item, quantity = q\<rparr>)))
       [0..count - 1]"

definition parse_bag :: "memory \<Rightarrow> symbol_table \<Rightarrow> exn + bag" where
  "parse_bag m t =
     rbind (read_u8 m t ''wNumBagItems'') (\<lambda>raw.
       let count = min raw MAX_BAG_STACKS
       in if raw = 0 \<and> \<not> has_symbol t ''wBagItems''
          then Inr \<lparr>bag_count = 0, bag_stacks = [], bag_valid = Some True, bag_raw_count = Some 0,
                    terminator_index = None, bag_count_valid = Some True, terminator_valid = None\<rparr>
          else rbind (addr_of t ''wBagItems'') (\<lambda>base.
               rbind (find_terminator m base) (\<lambda>term.
               let stack_count = (case term of None \<Rightarrow> count | Some i \<Rightarrow> i)
               in rbind (read_stacks m base stack_count) (\<lambda>stacks.
                    let count_ok = (raw \<le> MAX_BAG_STACKS);
                        term_ok = (term = Some raw);
                        ok = (count_ok \<and> term_ok \<and> list_all stack_valid stacks)
                    in Inr \<lparr>bag_count = count, bag_stacks = stacks, bag_valid = Some ok,
                            bag_raw_count = Some raw, terminator_index = term,
                            bag_count_valid = Some count_ok, terminator_valid = Some term_ok\<rparr>))))"

subsection \<open>The bounded scan\<close>

text \<open>A slot that holds the sentinel, and one that holds something else.\<close>

definition slot_is :: "memory \<Rightarrow> int \<Rightarrow> int \<Rightarrow> bool \<Rightarrow> bool" where
  "slot_is m base j sentinel \<longleftrightarrow> (\<exists>v. read_wram_u8 m (base + j * ITEM_STACK_SIZE) = Inr v \<and> (v = BAG_TERMINATOR) = sentinel)"

lemma slot_is_functional: "slot_is m base j True \<Longrightarrow> \<not> slot_is m base j False"
  by (auto simp: slot_is_def)

lemma find_terminator_from_upto:
  "find_terminator_from m base [a..b] = Inr r \<Longrightarrow>
     (case r of
        Some i \<Rightarrow> a \<le> i \<and> i \<le> b \<and> slot_is m base i True \<and> (\<forall>j \<in> {a..<i}. slot_is m base j False)
      | None \<Rightarrow> \<forall>j \<in> {a..b}. slot_is m base j False)"
proof (induction a b rule: upto.induct)
  case (1 a b)
  show ?case
  proof (cases "a \<le> b")
    case False
    with 1(2) show ?thesis by auto
  next
    case True
    then have u: "[a..b] = a # [a + 1..b]" by (rule upto_rec1)
    with 1(2) obtain v where v: "read_wram_u8 m (base + a * ITEM_STACK_SIZE) = Inr v"
      and rest: "(if v = BAG_TERMINATOR then Inr (Some a) else find_terminator_from m base [a + 1..b]) = Inr r"
      by (auto simp: result_simps)
    show ?thesis
    proof (cases "v = BAG_TERMINATOR")
      case True
      with v rest \<open>a \<le> b\<close> show ?thesis by (auto simp: slot_is_def)
    next
      case False
      then have "slot_is m base a False" using v by (simp add: slot_is_def)
      moreover have "{a..b} = insert a {a + 1..b}" using True by auto
      moreover have "a < i \<Longrightarrow> {a..<i} = insert a {a + 1..<i}" for i by auto
      ultimately show ?thesis
        using 1(1) [OF True] rest False by (auto split: option.splits)
    qed
  qed
qed

lemma find_terminator_from_scan:
  "\<lbrakk>a \<le> i; i \<le> b; slot_is m base i True; \<forall>j \<in> {a..<i}. slot_is m base j False\<rbrakk>
     \<Longrightarrow> find_terminator_from m base [a..b] = Inr (Some i)"
proof (induction a b rule: upto.induct)
  case (1 a b)
  then have u: "[a..b] = a # [a + 1..b]" by (intro upto_rec1) simp
  show ?case
  proof (cases "a = i")
    case True
    with 1(4) u show ?thesis by (auto simp: slot_is_def)
  next
    case False
    then have "slot_is m base a False" using 1 by auto
    moreover have "find_terminator_from m base [a + 1..b] = Inr (Some i)"
      using 1 False by auto
    ultimately show ?thesis using u by (auto simp: slot_is_def)
  qed
qed

lemma bag_stack_eq_iff: "\<lparr>item_id = x, quantity = q\<rparr> = s \<longleftrightarrow> item_id s = x \<and> quantity s = q"
  by (cases s) auto

lemma read_stacks_Inr_iff:
  "read_stacks m base n = Inr xs \<longleftrightarrow>
     length xs = nat n \<and> (\<forall>i < nat n. read_wram_u8 m (base + int i * 2) = Inr (item_id (xs ! i))
        \<and> read_wram_u8 m (base + int i * 2 + 1) = Inr (quantity (xs ! i)))"
  by (auto simp: read_stacks_def rmapM_Inr_iff list_all2_conv_all_nth result_simps ITEM_STACK_SIZE_def
      bag_stack_eq_iff nth_upto)

subsection \<open>The memory layout of a bag\<close>

text \<open>What the game stores: the stack pairs from the base address on, then the terminator.\<close>

definition bag_layout :: "memory \<Rightarrow> int \<Rightarrow> bag_stack list \<Rightarrow> bool" where
  "bag_layout m base xs \<longleftrightarrow>
     (\<forall>i < length xs. read_wram_u8 m (base + int i * 2) = Inr (item_id (xs ! i))
        \<and> read_wram_u8 m (base + int i * 2 + 1) = Inr (quantity (xs ! i)))
     \<and> read_wram_u8 m (base + int (length xs) * 2) = Inr 255"

lemma layout_read_stacks: "bag_layout m base xs \<Longrightarrow> read_stacks m base (int (length xs)) = Inr xs"
  by (simp add: read_stacks_Inr_iff bag_layout_def)

lemma layout_terminator:
  assumes "bag_layout m base xs" "list_all stack_valid xs" "length xs \<le> 20"
  shows "find_terminator m base = Inr (Some (int (length xs)))"
proof -
  have "slot_is m base (int (length xs)) True"
    using assms(1) by (simp add: slot_is_def bag_layout_def bag_constants)
  moreover have "slot_is m base j False" if "j \<in> {0..<int (length xs)}" for j
  proof -
    from that obtain i where i: "j = int i" "i < length xs"
      by (metis atLeastLessThan_iff nonneg_int_cases of_nat_less_iff)
    then have "stack_valid (xs ! i)" using assms(2) by (simp add: list_all_length)
    with i assms(1) show ?thesis
      by (auto simp: slot_is_def bag_layout_def bag_constants stack_valid_def item_id_valid_def)
  qed
  ultimately show ?thesis
    using assms(3) find_terminator_from_scan [of 0 "int (length xs)" 20 m base]
    by (simp add: find_terminator_def MAX_BAG_STACKS_def)
qed

lemma parse_bag_present:
  assumes "has_symbol t ''wBagItems''"
  shows "parse_bag m t = Inr b \<longleftrightarrow>
    (\<exists>raw base term stacks. read_u8 m t ''wNumBagItems'' = Inr raw \<and> addr_of t ''wBagItems'' = Inr base
       \<and> find_terminator m base = Inr term
       \<and> read_stacks m base (case term of None \<Rightarrow> min raw 20 | Some i \<Rightarrow> i) = Inr stacks
       \<and> b = \<lparr>bag_count = min raw 20, bag_stacks = stacks,
              bag_valid = Some (raw \<le> 20 \<and> term = Some raw \<and> list_all stack_valid stacks),
              bag_raw_count = Some raw, terminator_index = term,
              bag_count_valid = Some (raw \<le> 20), terminator_valid = Some (term = Some raw)\<rparr>)"
  using assms by (auto simp: parse_bag_def result_simps Let_def MAX_BAG_STACKS_def)

text \<open>
  The bag parser and the memory layout agree both ways. A bag is reported valid with a list of
  stacks exactly when the count byte is the length of that list, at most twenty, every stack holds a
  real item and a quantity from 1 to 99, and the list followed by the terminator lies at the bag's address.
\<close>

theorem parse_bag_valid_iff_layout:
  assumes bag: "has_symbol t ''wBagItems''" and base: "addr_of t ''wBagItems'' = Inr base"
  shows "(\<exists>b. parse_bag m t = Inr b \<and> bag_valid b = Some True \<and> bag_stacks b = xs)
    \<longleftrightarrow> read_u8 m t ''wNumBagItems'' = Inr (int (length xs)) \<and> length xs \<le> 20
        \<and> list_all stack_valid xs \<and> bag_layout m base xs"
proof
  assume "\<exists>b. parse_bag m t = Inr b \<and> bag_valid b = Some True \<and> bag_stacks b = xs"
  then obtain raw where raw: "read_u8 m t ''wNumBagItems'' = Inr raw" "raw \<le> 20" "list_all stack_valid xs"
      and t: "find_terminator m base = Inr (Some raw)" and s: "read_stacks m base raw = Inr xs"
    using base by (auto simp: parse_bag_present [OF bag])
  have "0 \<le> raw" using raw(1) read_u8_range by blast
  with s have len: "int (length xs) = raw" by (simp add: read_stacks_Inr_iff)
  moreover have "read_wram_u8 m (base + raw * 2) = Inr 255"
    using find_terminator_from_upto [of m base 0 20 "Some raw"] t
    by (auto simp: find_terminator_def slot_is_def bag_constants)
  ultimately show "read_u8 m t ''wNumBagItems'' = Inr (int (length xs)) \<and> length xs \<le> 20
        \<and> list_all stack_valid xs \<and> bag_layout m base xs"
    using raw s by (auto simp: bag_layout_def read_stacks_Inr_iff)
next
  assume r: "read_u8 m t ''wNumBagItems'' = Inr (int (length xs)) \<and> length xs \<le> 20
        \<and> list_all stack_valid xs \<and> bag_layout m base xs"
  then have "find_terminator m base = Inr (Some (int (length xs)))"
      "read_stacks m base (int (length xs)) = Inr xs"
    using layout_terminator layout_read_stacks by blast+
  with r base show "\<exists>b. parse_bag m t = Inr b \<and> bag_valid b = Some True \<and> bag_stacks b = xs"
    by (auto simp: parse_bag_present [OF bag])
qed

theorem parse_bag_valid_iff_layout_witness:
  "\<exists>b. parse_bag (flat_store (\<lambda>a. if a = 0xD31D then 1 else if a = 0xD31E then 4 else if a = 0xD31F then 5 else 255))
      (symbol_table_of [\<lparr>sym_name = ''wNumBagItems'', sym_bank = 0, sym_addr = 0xD31D\<rparr>,
                        \<lparr>sym_name = ''wBagItems'', sym_bank = 0, sym_addr = 0xD31E\<rparr>]) = Inr b
    \<and> bag_valid b = Some True \<and> bag_stacks b = [\<lparr>item_id = 4, quantity = 5\<rparr>]"
proof -
  let ?m = "flat_store (\<lambda>a. if a = 0xD31D then 1 else if a = 0xD31E then 4 else if a = 0xD31F then 5 else 255)"
  let ?t = "symbol_table_of [\<lparr>sym_name = ''wNumBagItems'', sym_bank = 0, sym_addr = 0xD31D\<rparr>,
                        \<lparr>sym_name = ''wBagItems'', sym_bank = 0, sym_addr = 0xD31E\<rparr>]"
  have t: "has_symbol ?t ''wBagItems''" "addr_of ?t ''wBagItems'' = Inr 0xD31E"
      "read_u8 ?m ?t ''wNumBagItems'' = Inr 1"
    by code_simp+
  have "bag_layout ?m 0xD31E [\<lparr>item_id = 4, quantity = 5\<rparr>]"
    by (simp add: bag_layout_def flat.read_wram)
  moreover have "list_all stack_valid [\<lparr>item_id = 4, quantity = 5\<rparr>]"
    by code_simp
  ultimately show ?thesis
    using parse_bag_valid_iff_layout [OF t(1,2), of ?m "[\<lparr>item_id = 4, quantity = 5\<rparr>]"] t(3) by simp
qed

subsection \<open>Bounds and queries\<close>

lemma parse_bag_stacks_bound:
  assumes "parse_bag m t = Inr b"
  shows "length (bag_stacks b) \<le> 20 \<and> 0 \<le> bag_count b \<and> bag_count b \<le> 20"
proof (cases "has_symbol t ''wBagItems''")
  case True
  with assms obtain raw base trm where r: "read_u8 m t ''wNumBagItems'' = Inr raw"
      and t: "find_terminator m base = Inr trm"
      and s: "read_stacks m base (case trm of None \<Rightarrow> min raw 20 | Some i \<Rightarrow> i) = Inr (bag_stacks b)"
      and c: "bag_count b = min raw 20"
    by (auto simp: parse_bag_present)
  from t have "trm = Some i \<Longrightarrow> i \<le> 20" for i
    using find_terminator_from_upto [of m base 0 20 trm] by (auto simp: find_terminator_def MAX_BAG_STACKS_def)
  then show ?thesis
    using s c read_u8_range [OF r] by (auto simp: read_stacks_Inr_iff split: option.splits)
next
  case False
  with assms show ?thesis
    by (auto simp: parse_bag_def result_simps Let_def addr_of_def getitem_Inr_iff has_symbol_iff split: if_splits)
qed

text \<open>
  Whatever the memory holds, a parsed bag has at most twenty stacks and a count from 0 to 20, an
  answer about an item is never given from an invalid stack, and a positive answer to \<open>has_item\<close>
  goes with a total quantity of at least one and at most 99 for each stack that holds the item.
\<close>

theorem parse_bag_queries:
  assumes "parse_bag m t = Inr b"
  shows "length (bag_stacks b) \<le> 20 \<and> 0 \<le> bag_count b \<and> bag_count b \<le> 20
    \<and> (has_item b i = Some True \<longrightarrow>
         (\<exists>q. quantity_of b i = Some q \<and> 1 \<le> q
            \<and> q \<le> 99 * int (length (filter (\<lambda>s. item_id s = i) (bag_stacks b)))))
    \<and> (has_item b i = Some False \<longrightarrow> quantity_of b i = Some 0)
    \<and> (has_item b i = None \<longrightarrow> quantity_of b i = None)"
proof -
  let ?ms = "filter (\<lambda>s. item_id s = i) (bag_stacks b)"
  have sums: "int (length xs) \<le> sum_list (map quantity xs) \<and> sum_list (map quantity xs) \<le> 99 * int (length xs)"
    if "\<forall>s \<in> set xs. stack_valid s" for xs
    using that by (induction xs) (auto simp: stack_valid_def quantity_valid_def MAX_ITEM_QUANTITY_def)
  have "has_item b i = Some True \<longrightarrow>
      (\<exists>q. quantity_of b i = Some q \<and> 1 \<le> q \<and> q \<le> 99 * int (length ?ms))"
  proof
    assume h: "has_item b i = Some True"
    then have ms: "\<not> bag_is_unknown b" "?ms \<noteq> []" "\<forall>s \<in> set ?ms. stack_valid s"
      by (auto simp: has_item_def Let_def split: if_splits)
    then have "quantity_of b i = Some (sum_list (map quantity ?ms))"
      unfolding quantity_of_def Let_def by (simp only: if_False) auto
    moreover have "1 \<le> int (length ?ms)" using ms(2) by (cases ?ms) auto
    ultimately show "\<exists>q. quantity_of b i = Some q \<and> 1 \<le> q \<and> q \<le> 99 * int (length ?ms)"
      using sums [OF ms(3)] by auto
  qed
  moreover have "has_item b i = Some False \<longrightarrow> quantity_of b i = Some 0"
    by (auto simp: has_item_def quantity_of_def Let_def filter_empty_conv split: if_splits)
  moreover have "has_item b i = None \<longrightarrow> quantity_of b i = None"
    by (auto simp: has_item_def quantity_of_def Let_def split: if_splits)
  ultimately show ?thesis using parse_bag_stacks_bound [OF assms] by blast
qed

theorem parse_bag_queries_witness:
  "\<exists>b. parse_bag (flat_store (\<lambda>a. if a = 0xD31D then 0 else 7))
      (symbol_table_of [\<lparr>sym_name = ''wNumBagItems'', sym_bank = 0, sym_addr = 0xD31D\<rparr>]) = Inr b
    \<and> length (bag_stacks b) \<le> 20 \<and> quantity_of b 4 = Some 0"
proof -
  let ?m = "flat_store (\<lambda>a. if a = 0xD31D then 0 else 7)"
  let ?t = "symbol_table_of [\<lparr>sym_name = ''wNumBagItems'', sym_bank = 0, sym_addr = 0xD31D\<rparr>]"
  let ?b = "\<lparr>bag_count = 0, bag_stacks = [], bag_valid = Some True, bag_raw_count = Some 0,
             terminator_index = None, bag_count_valid = Some True, terminator_valid = None\<rparr>"
  have b: "parse_bag ?m ?t = Inr ?b" by code_simp
  moreover have "has_item ?b 4 = Some False" by code_simp
  ultimately show ?thesis using parse_bag_queries [OF b, of 4] by auto
qed

end
