(* ===== verification/Party_State.thy ===== *)
theory Party_State
  imports Symbols State_Base
begin

text \<open>
  The party parser (\<open>state/party.py\<close>, lines 1 to 453): the six-slot block of 44-byte records, the
  separate species list with its terminator, and the active battle struct, each with an explicit
  three-valued validity. The floating-point \<open>hp_fraction\<close> is not modelled.
\<close>

unbundle bit_operations_syntax

definition PARTY_STRUCT_SIZE :: int where "PARTY_STRUCT_SIZE = 44"
definition MAX_PARTY_SLOTS :: int where "MAX_PARTY_SLOTS = 6"
definition OFFSET_SPECIES :: int where "OFFSET_SPECIES = 0"
definition OFFSET_HP :: int where "OFFSET_HP = 1"
definition OFFSET_STATUS :: int where "OFFSET_STATUS = 4"
definition OFFSET_TYPE1 :: int where "OFFSET_TYPE1 = 5"
definition OFFSET_TYPE2 :: int where "OFFSET_TYPE2 = 6"
definition OFFSET_MOVES :: int where "OFFSET_MOVES = 8"
definition OFFSET_PP :: int where "OFFSET_PP = 29"
definition OFFSET_LEVEL :: int where "OFFSET_LEVEL = 33"
definition OFFSET_MAX_HP :: int where "OFFSET_MAX_HP = 34"
definition PARTY_SPECIES_SENTINEL :: int where "PARTY_SPECIES_SENTINEL = 0xFF"
definition NO_MON :: int where "NO_MON = 0x00"
definition BATTLE_ACTIVE_VALUES :: "int list" where "BATTLE_ACTIVE_VALUES = [0x01, 0x02]"

lemmas party_constants =
  PARTY_STRUCT_SIZE_def MAX_PARTY_SLOTS_def OFFSET_SPECIES_def OFFSET_HP_def OFFSET_STATUS_def
  OFFSET_TYPE1_def OFFSET_TYPE2_def OFFSET_MOVES_def OFFSET_PP_def OFFSET_LEVEL_def
  OFFSET_MAX_HP_def PARTY_SPECIES_SENTINEL_def NO_MON_def BATTLE_ACTIVE_VALUES_def

definition BATTLE_STRUCT_FIELD_SUFFIXES :: "string list" where
  "BATTLE_STRUCT_FIELD_SUFFIXES =
     [''Species'', ''HP'', ''Status'', ''Type1'', ''Type2'', ''Moves'', ''PP'', ''Level'', ''MaxHP'']"

subsection \<open>Party members and parties\<close>

record party_mon =
  mon_slot :: int
  mon_species :: int
  mon_level :: int
  mon_hp :: int
  mon_max_hp :: int
  mon_status :: status_condition
  mon_type1 :: int
  mon_type2 :: int
  mon_moves :: "int \<times> int \<times> int \<times> int"
  mon_pp :: "int \<times> int \<times> int \<times> int"
  mon_party_species :: "int option"
  mon_species_valid :: "bool option"
  mon_hp_valid :: "bool option"
  mon_status_valid :: "bool option"
  mon_valid :: "bool option"

definition fainted :: "party_mon \<Rightarrow> bool option" where
  "fainted p =
     (if mon_species_valid p = Some False \<or> mon_hp_valid p \<noteq> Some True then None
      else Some (mon_hp p = 0))"

definition mon_is_valid :: "party_mon \<Rightarrow> bool option" where
  "mon_is_valid p = mon_valid p"

definition mon_is_unknown :: "party_mon \<Rightarrow> bool" where
  "mon_is_unknown p \<longleftrightarrow> mon_valid p = None"

record party =
  party_count :: int
  party_mons :: "party_mon list"
  party_count_raw :: "int option"
  party_count_valid :: "bool option"
  species_terminator :: "int option"
  sentinel_valid :: "bool option"
  party_valid :: "bool option"
  active_battle_raw :: "int option"
  active_slot :: "int option"
  active_mon :: "party_mon option"
  active_mon_valid :: "bool option"

definition battle_active :: "party \<Rightarrow> bool option" where
  "battle_active p =
     (case active_battle_raw p of
        None \<Rightarrow> None
      | Some raw \<Rightarrow>
          if raw = 0 \<or> raw = PARTY_SPECIES_SENTINEL then Some False
          else if raw \<in> set BATTLE_ACTIVE_VALUES then Some True
          else None)"

definition lead :: "party \<Rightarrow> party_mon option" where
  "lead p = (case party_mons p of [] \<Rightarrow> None | x # _ \<Rightarrow> Some x)"

definition all_fainted :: "party \<Rightarrow> bool option" where
  "all_fainted p =
     (if party_mons p = [] then Some False
      else if party_count_valid p = Some False \<or> sentinel_valid p = Some False then None
      else let fs = map fainted (party_mons p)
           in if None \<in> set fs then None else Some (list_all (\<lambda>f. f = Some True) fs))"

subsection \<open>Three-valued validity\<close>

definition combine_validity :: "bool option list \<Rightarrow> bool option" where
  "combine_validity vs =
     (if list_ex (\<lambda>v. v = Some False) vs then Some False
      else if list_all (\<lambda>v. v = Some True) vs then Some True
      else None)"

definition is_no_species :: "int \<Rightarrow> bool" where
  "is_no_species s \<longleftrightarrow> s = NO_MON \<or> s = PARTY_SPECIES_SENTINEL"

definition species_valid :: "int \<Rightarrow> int option \<Rightarrow> bool option" where
  "species_valid species party_species =
     (if is_no_species species then Some False
      else case party_species of
             None \<Rightarrow> None
           | Some p \<Rightarrow> Some (\<not> is_no_species p \<and> species = p))"

definition record_species_valid :: "int \<Rightarrow> bool" where
  "record_species_valid species \<longleftrightarrow> \<not> is_no_species species"

definition make_party_mon :: "int \<Rightarrow> int \<Rightarrow> int \<Rightarrow> int \<Rightarrow> int \<Rightarrow> status_condition \<Rightarrow> int \<Rightarrow> int
    \<Rightarrow> int \<times> int \<times> int \<times> int \<Rightarrow> int \<times> int \<times> int \<times> int \<Rightarrow> int option \<Rightarrow> bool \<Rightarrow> party_mon" where
  "make_party_mon slot species level hp max_hp status type1 type2 moves pp party_species standalone =
     (let sv = (if standalone then Some (record_species_valid species) else species_valid species party_species);
          hv = (max_hp > 0 \<and> 0 \<le> hp \<and> hp \<le> max_hp);
          stv = status_is_valid status
      in \<lparr>mon_slot = slot, mon_species = species, mon_level = level, mon_hp = hp, mon_max_hp = max_hp,
          mon_status = status, mon_type1 = type1, mon_type2 = type2, mon_moves = moves, mon_pp = pp,
          mon_party_species = party_species, mon_species_valid = sv, mon_hp_valid = Some hv,
          mon_status_valid = Some stv, mon_valid = combine_validity [sv, Some hv, Some stv]\<rparr>)"

subsection \<open>Reading the records\<close>

definition party_read_u8 :: "memory \<Rightarrow> int \<Rightarrow> exn + int" where
  "party_read_u8 m addr = read_wram_u8 m addr"

definition party_read_u16_be :: "memory \<Rightarrow> int \<Rightarrow> exn + int" where
  "party_read_u16_be m addr =
     rbind (party_read_u8 m addr) (\<lambda>hi. rbind (party_read_u8 m (addr + 1)) (\<lambda>lo. Inr (push_bit 8 hi OR lo)))"

definition read_tuple4 :: "memory \<Rightarrow> int \<Rightarrow> exn + int \<times> int \<times> int \<times> int" where
  "read_tuple4 m addr =
     rbind (party_read_u8 m addr) (\<lambda>a.
     rbind (party_read_u8 m (addr + 1)) (\<lambda>b.
     rbind (party_read_u8 m (addr + 2)) (\<lambda>c.
     rbind (party_read_u8 m (addr + 3)) (\<lambda>d. Inr (a, b, c, d)))))"

definition parse_party_slot :: "memory \<Rightarrow> int \<Rightarrow> int \<Rightarrow> int option \<Rightarrow> exn + party_mon" where
  "parse_party_slot m slot base party_species =
     rbind (party_read_u8 m (base + OFFSET_SPECIES)) (\<lambda>species.
     rbind (party_read_u16_be m (base + OFFSET_HP)) (\<lambda>hp.
     rbind (party_read_u8 m (base + OFFSET_STATUS)) (\<lambda>status.
     rbind (party_read_u8 m (base + OFFSET_TYPE1)) (\<lambda>type1.
     rbind (party_read_u8 m (base + OFFSET_TYPE2)) (\<lambda>type2.
     rbind (read_tuple4 m (base + OFFSET_MOVES)) (\<lambda>moves.
     rbind (read_tuple4 m (base + OFFSET_PP)) (\<lambda>pp.
     rbind (party_read_u8 m (base + OFFSET_LEVEL)) (\<lambda>level.
     rbind (party_read_u16_be m (base + OFFSET_MAX_HP)) (\<lambda>max_hp.
       Inr (make_party_mon slot species level hp max_hp (parse_status status) type1 type2 moves pp
              party_species False))))))))))"

definition parse_battle_combatant :: "memory \<Rightarrow> symbol_table \<Rightarrow> string \<Rightarrow> int \<Rightarrow> exn + party_mon option" where
  "parse_battle_combatant m t prefix slot =
     (if list_ex (\<lambda>suffix. \<not> has_symbol t (prefix @ suffix)) BATTLE_STRUCT_FIELD_SUFFIXES then Inr None
      else
        rbind (read_u8 m t (prefix @ ''Species'')) (\<lambda>species.
        rbind (read_u8 m t (prefix @ ''Level'')) (\<lambda>level.
        rbind (read_u16_be m t (prefix @ ''HP'')) (\<lambda>hp.
        rbind (read_u16_be m t (prefix @ ''MaxHP'')) (\<lambda>max_hp.
        rbind (read_u8 m t (prefix @ ''Status'')) (\<lambda>status.
        rbind (read_u8 m t (prefix @ ''Type1'')) (\<lambda>type1.
        rbind (read_u8 m t (prefix @ ''Type2'')) (\<lambda>type2.
        rbind (addr_of t (prefix @ ''Moves'')) (\<lambda>moves_at.
        rbind (read_tuple4 m moves_at) (\<lambda>moves.
        rbind (addr_of t (prefix @ ''PP'')) (\<lambda>pp_at.
        rbind (read_tuple4 m pp_at) (\<lambda>pp.
          Inr (Some (make_party_mon slot species level hp max_hp (parse_status status) type1 type2 moves pp
                 None True))))))))))))))"

definition parse_active_battle :: "memory \<Rightarrow> symbol_table \<Rightarrow> party_mon list
    \<Rightarrow> exn + int option \<times> int option \<times> party_mon option \<times> bool option" where
  "parse_active_battle m t mons =
     (if \<not> has_symbol t ''wIsInBattle'' then Inr (None, None, None, None)
      else rbind (read_u8 m t ''wIsInBattle'') (\<lambda>raw.
        if raw \<notin> set BATTLE_ACTIVE_VALUES then Inr (Some raw, None, None, None)
        else if \<not> has_symbol t ''wPlayerMonNumber'' then Inr (Some raw, None, None, Some False)
        else rbind (read_u8 m t ''wPlayerMonNumber'') (\<lambda>slot.
          if slot \<ge> int (length mons) then Inr (Some raw, Some slot, None, Some False)
          else rbind (parse_battle_combatant m t ''wBattleMon'' slot) (\<lambda>active.
            case active of
              None \<Rightarrow> Inr (Some raw, Some slot, None, Some False)
            | Some mon \<Rightarrow> Inr (Some raw, Some slot, Some mon, Some (mon_is_valid mon = Some True))))))"

text \<open>The species list with its terminator, when its symbol is loaded.\<close>

definition read_species_list :: "memory \<Rightarrow> symbol_table \<Rightarrow> int
    \<Rightarrow> exn + int list option \<times> int option \<times> bool option" where
  "read_species_list m t raw =
     (if has_symbol t ''wPartySpecies''
      then rbind (addr_of t ''wPartySpecies'') (\<lambda>base.
           rbind (rmapM (\<lambda>slot. party_read_u8 m (base + slot)) [0..MAX_PARTY_SLOTS]) (\<lambda>species.
             if raw \<le> MAX_PARTY_SLOTS
             then let trm = species ! nat raw
                  in Inr (Some species, Some trm, Some (trm = PARTY_SPECIES_SENTINEL))
             else Inr (Some species, None, Some False)))
      else Inr (None, None, None))"

definition read_party_mons :: "memory \<Rightarrow> symbol_table \<Rightarrow> int \<Rightarrow> int list option \<Rightarrow> exn + party_mon list" where
  "read_party_mons m t count species =
     (if count \<noteq> 0
      then rbind (addr_of t ''wPartyMons'') (\<lambda>base.
             rmapM (\<lambda>slot. parse_party_slot m slot (base + slot * PARTY_STRUCT_SIZE)
                      (map_option (\<lambda>l. l ! nat slot) species))
               [0..count - 1])
      else Inr [])"

definition parse_party :: "memory \<Rightarrow> symbol_table \<Rightarrow> exn + party" where
  "parse_party m t =
     rbind (read_u8 m t ''wPartyCount'') (\<lambda>raw.
     let count = min raw MAX_PARTY_SLOTS
     in rbind (read_species_list m t raw) (\<lambda>(species, trm, trm_valid).
        rbind (read_party_mons m t count species) (\<lambda>mons.
        rbind (parse_active_battle m t mons) (\<lambda>(battle_raw, slot, active, active_valid).
          let count_ok = Some (raw \<le> MAX_PARTY_SLOTS)
          in Inr \<lparr>party_count = count, party_mons = mons, party_count_raw = Some raw,
                  party_count_valid = count_ok, species_terminator = trm, sentinel_valid = trm_valid,
                  party_valid = combine_validity (count_ok # trm_valid # map mon_is_valid mons),
                  active_battle_raw = battle_raw, active_slot = slot, active_mon = active,
                  active_mon_valid = active_valid\<rparr>))))"

subsection \<open>Reading through the battle bank only\<close>

text \<open>Every operation of this file reaches the memory through \<open>read_wram_u8\<close>.\<close>

lemma typed_reads_cong:
  assumes "read_wram_u8 m = read_wram_u8 m'"
  shows "read_u8 m = read_u8 m'" "read_u16_be m = read_u16_be m'" "read_tuple4 m = read_tuple4 m'"
    "parse_party_slot m = parse_party_slot m'"
  using assms
  by (auto simp: fun_eq_iff read_u8_def read_u16_be_def read_bytes_def read_wram_bytes_def read_tuple4_def
      party_read_u8_def party_read_u16_be_def parse_party_slot_def)

lemma parse_battle_combatant_cong:
  "read_wram_u8 m = read_wram_u8 m' \<Longrightarrow> parse_battle_combatant m = parse_battle_combatant m'"
  by (intro ext) (simp add: parse_battle_combatant_def typed_reads_cong [of m m'])

lemma parse_party_cong:
  assumes "read_wram_u8 m = read_wram_u8 m'"
  shows "parse_party m = parse_party m'"
proof (rule ext)
  fix t
  show "parse_party m t = parse_party m' t"
    unfolding parse_party_def parse_active_battle_def read_species_list_def read_party_mons_def
      party_read_u8_def typed_reads_cong [OF assms] parse_battle_combatant_cong [OF assms] assms
    by (rule refl)
qed

definition in_window :: "int \<Rightarrow> bool" where
  "in_window a \<longleftrightarrow> WRAM_SWITCHABLE_START \<le> a \<and> a < WRAM_SWITCHABLE_END"

definition with_window :: "(int \<Rightarrow> int) \<Rightarrow> (int \<Rightarrow> int) \<Rightarrow> int \<Rightarrow> int" where
  "with_window shown rest a = (if in_window a then shown a else rest a)"

lemma cgb_window_irrelevant:
  "read_wram_u8 (cgb_store (with_window shown rest) banks) = read_wram_u8 (cgb_store (with_window shown' rest) banks)"
  by (intro ext) (simp add: cgb.read_wram battle_byte_def with_window_def in_window_def)

text \<open>
  Bank independence: on a colour memory, the parsed party does not depend on which bank the game
  has mapped into the switchable window. Whatever the window shows, the parser answers the same.
\<close>

theorem parse_party_bank_independent:
  "parse_party (cgb_store (with_window shown rest) banks) t
     = parse_party (cgb_store (with_window shown' rest) banks) t"
  by (rule fun_cong [OF parse_party_cong [OF cgb_window_irrelevant]])

subsection \<open>The validity of a party\<close>

lemma combine_validity_iff:
  "combine_validity vs = Some True \<longleftrightarrow> (\<forall>v \<in> set vs. v = Some True)"
  "combine_validity vs = Some False \<longleftrightarrow> Some False \<in> set vs"
  by (auto simp: combine_validity_def list_ex_iff list_all_iff)

lemma make_party_mon_fields [simp]:
  "mon_slot (make_party_mon s sp l h mh st a b mv pp ps sa) = s"
  "mon_species (make_party_mon s sp l h mh st a b mv pp ps sa) = sp"
  "mon_hp (make_party_mon s sp l h mh st a b mv pp ps sa) = h"
  "mon_max_hp (make_party_mon s sp l h mh st a b mv pp ps sa) = mh"
  "mon_status (make_party_mon s sp l h mh st a b mv pp ps sa) = st"
  "mon_hp_valid (make_party_mon s sp l h mh st a b mv pp ps sa) = Some (mh > 0 \<and> 0 \<le> h \<and> h \<le> mh)"
  by (simp_all add: make_party_mon_def Let_def)

lemma make_party_mon_valid:
  "mon_valid (make_party_mon s sp l h mh st a b mv pp (Some ps) False) = Some True
     \<longleftrightarrow> \<not> is_no_species sp \<and> ps = sp \<and> 0 < mh \<and> 0 \<le> h \<and> h \<le> mh \<and> status_is_valid st"
  by (auto simp: make_party_mon_def Let_def combine_validity_iff species_valid_def)

text \<open>What makes the record of one slot trustworthy, in terms of the bytes of the game.\<close>

definition sound_slot :: "(int \<Rightarrow> int) \<Rightarrow> int \<Rightarrow> int \<Rightarrow> int \<Rightarrow> bool" where
  "sound_slot rd list_at mons_at i \<longleftrightarrow>
     (let base = mons_at + i * 44;
          hp = 256 * rd (base + 1) + rd (base + 2);
          max_hp = 256 * rd (base + 34) + rd (base + 35)
      in rd base \<noteq> 0 \<and> rd base \<noteq> 255 \<and> rd (list_at + i) = rd base
         \<and> 0 < max_hp \<and> hp \<le> max_hp \<and> rd (base + 4) < 128)"

text \<open>The fields of a party the validity depends on.\<close>

lemma parse_party_fields:
  assumes "parse_party m t = Inr p"
  obtains raw species where "read_u8 m t ''wPartyCount'' = Inr raw"
    "read_species_list m t raw = Inr (species, species_terminator p, sentinel_valid p)"
    "read_party_mons m t (min raw 6) species = Inr (party_mons p)"
    "party_count p = min raw 6" "party_count_raw p = Some raw" "party_count_valid p = Some (raw \<le> 6)"
    "party_valid p = combine_validity (party_count_valid p # sentinel_valid p # map mon_is_valid (party_mons p))"
  using assms by (auto simp: parse_party_def result_simps Let_def MAX_PARTY_SLOTS_def)

context wram_reader begin

lemma party_read_u8_ok: "party_read_u8 m a = Inr (rd a)"
  by (simp add: party_read_u8_def read_wram)

lemma party_read_u16_be_ok: "party_read_u16_be m a = Inr (256 * rd a + rd (a + 1))"
  using rd_range [of "a + 1"] by (simp add: party_read_u16_be_def party_read_u8_ok push_bit_8_or)

lemma read_tuple4_ok: "read_tuple4 m a = Inr (rd a, rd (a + 1), rd (a + 2), rd (a + 3))"
  by (simp add: read_tuple4_def party_read_u8_ok)

lemma parse_party_slot_ok:
  "parse_party_slot m slot base ps = Inr (make_party_mon slot (rd base) (rd (base + 33))
     (256 * rd (base + 1) + rd (base + 2)) (256 * rd (base + 34) + rd (base + 35)) (parse_status (rd (base + 4)))
     (rd (base + 5)) (rd (base + 6))
     (rd (base + 8), rd (base + 9), rd (base + 10), rd (base + 11))
     (rd (base + 29), rd (base + 30), rd (base + 31), rd (base + 32)) ps False)"
  by (simp add: parse_party_slot_def party_read_u8_ok party_read_u16_be_ok read_tuple4_ok party_constants
      add.assoc)

lemma slot_valid_iff:
  "mon_valid (make_party_mon slot (rd base) lv
     (256 * rd (base + 1) + rd (base + 2)) (256 * rd (base + 34) + rd (base + 35)) (parse_status (rd (base + 4)))
     a b mv pp (Some ps) False) = Some True
   \<longleftrightarrow> rd base \<noteq> 0 \<and> rd base \<noteq> 255 \<and> ps = rd base \<and> 0 < 256 * rd (base + 34) + rd (base + 35)
       \<and> 256 * rd (base + 1) + rd (base + 2) \<le> 256 * rd (base + 34) + rd (base + 35) \<and> rd (base + 4) < 128"
  using rd_range [of "base + 1"] rd_range [of "base + 2"] rd_range [of "base + 4"]
  by (auto simp: make_party_mon_valid is_no_species_def party_constants parse_status_lossless)

lemma read_species_list_ok:
  assumes "addr_of t ''wPartySpecies'' = Inr la" "has_symbol t ''wPartySpecies''"
  shows "read_species_list m t raw =
     Inr (Some (map (\<lambda>i. rd (la + i)) [0..6]),
          (if raw \<le> 6 then Some (map (\<lambda>i. rd (la + i)) [0..6] ! nat raw) else None),
          Some (raw \<le> 6 \<and> map (\<lambda>i. rd (la + i)) [0..6] ! nat raw = 255))"
proof -
  have "rmapM (\<lambda>slot. party_read_u8 m (la + slot)) [0..6] = Inr (map (\<lambda>i. rd (la + i)) [0..6])"
    by (rule rmapM_total) (simp add: party_read_u8_ok)
  then show ?thesis
    using assms by (simp add: read_species_list_def MAX_PARTY_SLOTS_def PARTY_SPECIES_SENTINEL_def Let_def)
qed

definition slot_mon :: "int \<Rightarrow> int \<Rightarrow> int option \<Rightarrow> party_mon" where
  "slot_mon mons_at i ps = projr (parse_party_slot m i (mons_at + i * 44) ps)"

lemma parse_party_slot_mon: "parse_party_slot m i (mons_at + i * 44) ps = Inr (slot_mon mons_at i ps)"
  by (simp add: slot_mon_def parse_party_slot_ok)

lemma slot_mon_valid:
  "mon_valid (slot_mon mons_at i (Some (rd (la + i)))) = Some True \<longleftrightarrow> sound_slot rd la mons_at i"
  unfolding slot_mon_def parse_party_slot_ok sum.sel slot_valid_iff sound_slot_def Let_def by (rule refl)

lemma read_party_mons_ok:
  assumes "addr_of t ''wPartyMons'' = Inr ma"
  shows "read_party_mons m t count species
     = Inr (map (\<lambda>i. slot_mon ma i (map_option (\<lambda>l. l ! nat i) species)) [0..count - 1])"
  using assms
  by (auto simp: read_party_mons_def PARTY_STRUCT_SIZE_def parse_party_slot_mon intro!: rmapM_total)

lemma parse_party_valid_iff:
  assumes syms: "has_symbol t ''wPartySpecies''" "addr_of t ''wPartySpecies'' = Inr la" "addr_of t ''wPartyMons'' = Inr ma"
    and p: "parse_party m t = Inr p"
  shows "party_valid p = Some True \<longleftrightarrow>
     (\<exists>n. party_count_raw p = Some n \<and> n \<le> 6 \<and> rd (la + n) = 255 \<and> (\<forall>i \<in> {0..<n}. sound_slot rd la ma i))"
proof -
  obtain raw species where raw: "read_u8 m t ''wPartyCount'' = Inr raw"
    and sp: "read_species_list m t raw = Inr (species, species_terminator p, sentinel_valid p)"
    and ms: "read_party_mons m t (min raw 6) species = Inr (party_mons p)"
    and c: "party_count_raw p = Some raw" "party_count_valid p = Some (raw \<le> 6)"
    and v: "party_valid p = combine_validity (party_count_valid p # sentinel_valid p # map mon_is_valid (party_mons p))"
    using p by (rule parse_party_fields)
  let ?l = "map (\<lambda>i. rd (la + i)) [0..6]"
  have range: "0 \<le> raw" using read_u8_range [OF raw] by simp
  have nth: "?l ! nat i = rd (la + i)" if "0 \<le> i" "i \<le> 6" for i
    using that nth_upto [of 0 "nat i" 6] by (simp add: nth_map)
  have sp': "species = Some ?l" "sentinel_valid p = Some (raw \<le> 6 \<and> ?l ! nat raw = 255)"
    using sp syms by (simp_all add: read_species_list_ok)
  have "party_mons p = map (\<lambda>i. slot_mon ma i (Some (?l ! nat i))) [0..min raw 6 - 1]"
    using ms syms(3) sp'(1) by (simp add: read_party_mons_ok)
  also have "\<dots> = map (\<lambda>i. slot_mon ma i (Some (rd (la + i)))) [0..min raw 6 - 1]"
    using nth by (intro map_cong) auto
  finally have mons: "party_mons p = map (\<lambda>i. slot_mon ma i (Some (rd (la + i)))) [0..min raw 6 - 1]" .
  show ?thesis
  proof (cases "raw \<le> 6")
    case True
    with range have "{0..min raw 6 - 1} = {0..<raw}" by auto
    with True range show ?thesis
      unfolding v combine_validity_iff c sp'(2) mons
      by (auto simp: nth mon_is_valid_def slot_mon_valid)
  next
    case False
    then show ?thesis unfolding v combine_validity_iff c by simp
  qed
qed

end

text \<open>
  A parsed party is reported valid exactly when the game's own data is consistent: the count byte
  is at most six, the species list has its terminator right after the counted entries, and every
  counted record names the same real species as the list, has a positive maximum and no more than the
  maximum of hit points, and a status byte with the reserved bit clear. All bytes are those of bank 1.
\<close>

theorem parse_party_valid_exact:
  assumes "has_symbol t ''wPartySpecies''" "addr_of t ''wPartySpecies'' = Inr la" "addr_of t ''wPartyMons'' = Inr ma"
    and "parse_party (cgb_store mapped banks) t = Inr p"
  shows "party_valid p = Some True \<longleftrightarrow>
     (\<exists>n. party_count_raw p = Some n \<and> n \<le> 6 \<and> battle_byte mapped banks (la + n) = 255
        \<and> (\<forall>i \<in> {0..<n}. sound_slot (battle_byte mapped banks) la ma i))"
  using assms by (rule cgb.parse_party_valid_iff)

text \<open>One healthy party member of species 4, in bank 1 behind a window that shows another bank.\<close>

definition sample_banks :: "int \<Rightarrow> int \<Rightarrow> int" where
  "sample_banks b a =
     (if b \<noteq> 1 then 0x77
      else if a = 0xD163 then 1 else if a = 0xD164 then 4 else if a = 0xD165 then 255
      else if a = 0xD16B then 4 else if a = 0xD16D then 20 else if a = 0xD18C then 5
      else if a = 0xD18E then 20 else 0)"

definition sample_symbols :: symbol_table where
  "sample_symbols = symbol_table_of
     [\<lparr>sym_name = ''wPartyCount'', sym_bank = 1, sym_addr = 0xD163\<rparr>,
      \<lparr>sym_name = ''wPartySpecies'', sym_bank = 1, sym_addr = 0xD164\<rparr>,
      \<lparr>sym_name = ''wPartyMons'', sym_bank = 1, sym_addr = 0xD16B\<rparr>]"

theorem parse_party_valid_exact_witness:
  "case parse_party (cgb_store (\<lambda>_. 0x55) sample_banks) sample_symbols of
     Inl e \<Rightarrow> False
   | Inr p \<Rightarrow> party_valid p = Some True \<and> (\<exists>n. party_count_raw p = Some n
        \<and> (\<forall>i \<in> {0..<n}. sound_slot (battle_byte (\<lambda>_. 0x55) sample_banks) 0xD164 0xD16B i))"
proof -
  let ?m = "cgb_store (\<lambda>_. 0x55) sample_banks"
  have t: "has_symbol sample_symbols ''wPartySpecies''" "addr_of sample_symbols ''wPartySpecies'' = Inr 0xD164"
      "addr_of sample_symbols ''wPartyMons'' = Inr 0xD16B"
    by code_simp+
  have "case parse_party ?m sample_symbols of Inl e \<Rightarrow> False | Inr p \<Rightarrow> party_valid p = Some True"
    by code_simp
  then obtain p where "parse_party ?m sample_symbols = Inr p" "party_valid p = Some True"
    by (cases "parse_party ?m sample_symbols") auto
  with parse_party_valid_exact [OF t this(1)] show ?thesis by auto
qed

subsection \<open>Who has fainted\<close>

lemma parse_party_mon_hp:
  assumes "parse_party m t = Inr p" "x \<in> set (party_mons p)"
  shows "mon_hp_valid x = Some (mon_max_hp x > 0 \<and> 0 \<le> mon_hp x \<and> mon_hp x \<le> mon_max_hp x)"
proof -
  obtain raw species where "read_party_mons m t (min raw 6) species = Inr (party_mons p)"
    using assms(1) by (rule parse_party_fields)
  with assms(2) obtain slot base ps where "parse_party_slot m slot base ps = Inr x"
    by (fastforce simp: read_party_mons_def result_simps list_all2_conv_all_nth in_set_conv_nth split: if_splits)
  then show ?thesis by (auto simp: parse_party_slot_def result_simps)
qed

lemma parse_party_length:
  assumes "parse_party m t = Inr p"
  shows "int (length (party_mons p)) = party_count p \<and> 0 \<le> party_count p \<and> party_count p \<le> 6"
proof -
  obtain raw species where r: "read_u8 m t ''wPartyCount'' = Inr raw"
      "read_party_mons m t (min raw 6) species = Inr (party_mons p)" "party_count p = min raw 6"
    using assms by (rule parse_party_fields)
  moreover have "0 \<le> raw" using r(1) read_u8_range by blast
  ultimately show ?thesis
    by (auto simp: read_party_mons_def result_simps dest!: list_all2_lengthD split: if_splits)
qed

text \<open>
  The blackout query is sound in both directions and never guesses: a positive answer means a
  non-empty party within its bounds whose members all have zero hit points out of a positive maximum;
  a negative answer means the party is empty or some member has hit points left. A party never holds
  more than six members, exactly as many as its count says.
\<close>

theorem all_fainted_sound:
  assumes "parse_party m t = Inr p"
  shows "int (length (party_mons p)) = party_count p \<and> party_count p \<le> 6
    \<and> (all_fainted p = Some True \<longrightarrow>
         party_mons p \<noteq> [] \<and> party_count_valid p = Some True
         \<and> (\<forall>x \<in> set (party_mons p). mon_hp x = 0 \<and> 0 < mon_max_hp x))
    \<and> (all_fainted p = Some False \<longrightarrow>
         party_mons p = [] \<or> (\<exists>x \<in> set (party_mons p). 0 < mon_hp x \<and> mon_hp x \<le> mon_max_hp x))"
proof -
  have f: "fainted x = Some b \<longleftrightarrow>
      mon_species_valid x \<noteq> Some False \<and> 0 < mon_max_hp x \<and> 0 \<le> mon_hp x \<and> mon_hp x \<le> mon_max_hp x \<and> b = (mon_hp x = 0)"
    if "x \<in> set (party_mons p)" for x b
    using parse_party_mon_hp [OF assms that] by (auto simp: fainted_def)
  have cv: "party_count_valid p \<noteq> None"
    using assms by (rule parse_party_fields) simp
  have "all_fainted p = Some True \<longrightarrow> party_mons p \<noteq> [] \<and> party_count_valid p = Some True
         \<and> (\<forall>x \<in> set (party_mons p). mon_hp x = 0 \<and> 0 < mon_max_hp x)"
    using f [of _ True] cv by (auto simp: all_fainted_def Let_def list_all_iff split: if_splits)
  moreover have "all_fainted p = Some False \<longrightarrow>
      party_mons p = [] \<or> (\<exists>x \<in> set (party_mons p). 0 < mon_hp x \<and> mon_hp x \<le> mon_max_hp x)"
  proof (intro impI disjCI)
    assume a: "all_fainted p = Some False"
      and none: "\<not> (\<exists>x \<in> set (party_mons p). 0 < mon_hp x \<and> mon_hp x \<le> mon_max_hp x)"
    show "party_mons p = []"
    proof (rule ccontr)
      assume "party_mons p \<noteq> []"
      with a have nn: "None \<notin> set (map fainted (party_mons p))"
          and "\<not> list_all (\<lambda>f. f = Some True) (map fainted (party_mons p))"
        by (auto simp: all_fainted_def Let_def split: if_splits)
      then obtain x where x: "x \<in> set (party_mons p)" "fainted x \<noteq> Some True"
        by (auto simp: list_all_iff)
      moreover from nn x(1) have "fainted x \<noteq> None"
        by (cases "fainted x") (auto simp: image_iff)
      ultimately have "fainted x = Some False" by (cases "fainted x") auto
      with f [OF x(1), of False] have "0 < mon_hp x \<and> mon_hp x \<le> mon_max_hp x" by simp
      with none x(1) show False by blast
    qed
  qed
  ultimately show ?thesis using parse_party_length [OF assms] by blast
qed

theorem all_fainted_sound_witness:
  "case parse_party (cgb_store (\<lambda>_. 0x55) sample_banks) sample_symbols of
     Inl e \<Rightarrow> False
   | Inr p \<Rightarrow> all_fainted p = Some False \<and> (\<exists>x \<in> set (party_mons p). 0 < mon_hp x \<and> mon_hp x \<le> mon_max_hp x)"
proof -
  let ?m = "cgb_store (\<lambda>_. 0x55) sample_banks"
  have "case parse_party ?m sample_symbols of Inl e \<Rightarrow> False
      | Inr p \<Rightarrow> all_fainted p = Some False \<and> party_mons p \<noteq> []"
    by code_simp
  then obtain p where p: "parse_party ?m sample_symbols = Inr p" "all_fainted p = Some False" "party_mons p \<noteq> []"
    by (cases "parse_party ?m sample_symbols") auto
  with all_fainted_sound [OF p(1)] show ?thesis by auto
qed

end
