(* ===== verification/Battle_State.thy ===== *)
theory Battle_State
  imports Party_State
begin

text \<open>
  The battle parser (\<open>state/battle.py\<close>): the combatants, the stat stages, the terminal result and
  the derived phase, from WRAM bytes and from the execution-hook observations the session passes in.
  The order of the reads is the order of the code, so the first failing read decides the exception.
\<close>

unbundle bit_operations_syntax

subsection \<open>Enumerations\<close>

datatype battle_kind = NO_BATTLE | WILD | TRAINER

definition battle_kind_of :: "int \<Rightarrow> battle_kind option" where
  "battle_kind_of v =
     (if v = 0 then Some NO_BATTLE else if v = 1 then Some WILD else if v = 2 then Some TRAINER else None)"

datatype battle_type = NORMAL | OLD_MAN | SAFARI

definition battle_type_of :: "int \<Rightarrow> battle_type option" where
  "battle_type_of v =
     (if v = 0 then Some NORMAL else if v = 1 then Some OLD_MAN else if v = 2 then Some SAFARI else None)"

datatype battle_phase =
    INACTIVE
  | INTRO
  | COMMAND_SELECTION
  | ACTION_RESOLUTION
  | FORCED_REPLACEMENT
  | TERMINAL_RETURN
  | UNKNOWN_PHASE

subsection \<open>Observations\<close>

record stat_stages =
  st_attack :: "int option"
  st_defense :: "int option"
  st_speed :: "int option"
  st_special :: "int option"
  st_accuracy :: "int option"
  st_evasion :: "int option"
  st_valid :: "bool option"

record hook_observation =
  hook_open :: "bool option"
  hook_evidence :: "string list"

record battle_lifecycle =
  was_active :: bool
  lc_escaped :: bool
  end_observed :: bool
  end_result :: "int option"
  end_escaped :: bool

record battle_state =
  bs_kind :: "battle_kind option"
  raw_is_in_battle :: int
  bs_battle_type :: "battle_type option"
  engaged_trainer_class :: "int option"
  engaged_trainer_set :: "int option"
  player_mon_slot :: "int option"
  move_menu_type :: "int option"
  player_selected_move :: "int option"
  enemy_selected_move :: "int option"
  action_result_or_took_turn :: "int option"
  enemy_mon :: "party_mon option"
  enemy_mon_valid :: "bool option"
  phase :: "battle_phase option"
  phase_valid :: "bool option"
  phase_evidence :: "string list"
  raw_battle_result :: "int option"
  escaped_from_battle :: "int option"
  terminal_result :: "int option"
  player_move_list_index :: "int option"
  bs_current_menu_item :: "int option"
  in_handle_player_mon_fainted :: "int option"
  player_stat_stages :: "stat_stages option"
  enemy_stat_stages :: "stat_stages option"
  menu_open :: "bool option"
  menu_evidence :: "string list"
  resolution_open :: "bool option"
  resolution_evidence :: "string list"

definition battle_is_active :: "battle_state \<Rightarrow> bool" where
  "battle_is_active b \<longleftrightarrow> raw_is_in_battle b \<noteq> 0"

definition is_trainer_battle :: "battle_state \<Rightarrow> bool" where
  "is_trainer_battle b \<longleftrightarrow> bs_kind b = Some TRAINER"

definition is_wild_battle :: "battle_state \<Rightarrow> bool" where
  "is_wild_battle b \<longleftrightarrow> bs_kind b = Some WILD"

definition truthy :: "int option \<Rightarrow> bool" where
  "truthy v \<longleftrightarrow> (case v of None \<Rightarrow> False | Some n \<Rightarrow> n \<noteq> 0)"

definition turn_already_consumed :: "battle_state \<Rightarrow> bool" where
  "turn_already_consumed b \<longleftrightarrow> truthy (action_result_or_took_turn b)"

subsection \<open>Stat stages\<close>

definition STAT_MOD_NEUTRAL :: int where "STAT_MOD_NEUTRAL = 7"
definition STAT_MOD_MIN :: int where "STAT_MOD_MIN = 1"
definition STAT_MOD_MAX :: int where "STAT_MOD_MAX = 13"

definition STAT_MOD_FIELDS :: "(string \<times> string) list" where
  "STAT_MOD_FIELDS =
     [(''attack'', ''AttackMod''), (''defense'', ''DefenseMod''), (''speed'', ''SpeedMod''),
      (''special'', ''SpecialMod''), (''accuracy'', ''AccuracyMod''), (''evasion'', ''EvasionMod'')]"

text \<open>The loop over the six modifiers: the decoded stages, whether one was invalid, whether one was missing.\<close>

fun stat_stage_loop :: "memory \<Rightarrow> symbol_table \<Rightarrow> string \<Rightarrow> (string \<times> string) list
    \<Rightarrow> (string \<times> int option) list \<Rightarrow> bool \<Rightarrow> bool \<Rightarrow> exn + (string \<times> int option) list \<times> bool \<times> bool" where
  "stat_stage_loop m t prefix [] stages any_invalid any_missing = Inr (stages, any_invalid, any_missing)"
| "stat_stage_loop m t prefix ((field, suffix) # rest) stages any_invalid any_missing =
     (if \<not> has_symbol t (prefix @ suffix)
      then stat_stage_loop m t prefix rest (AList.update field None stages) any_invalid True
      else rbind (read_u8 m t (prefix @ suffix)) (\<lambda>raw_mod.
        if STAT_MOD_MIN \<le> raw_mod \<and> raw_mod \<le> STAT_MOD_MAX
        then stat_stage_loop m t prefix rest (AList.update field (Some (raw_mod - STAT_MOD_NEUTRAL)) stages) any_invalid any_missing
        else stat_stage_loop m t prefix rest (AList.update field None stages) True any_missing))"

definition stage_field :: "(string \<times> int option) list \<Rightarrow> string \<Rightarrow> int option" where
  "stage_field stages field = (case map_of stages field of None \<Rightarrow> None | Some v \<Rightarrow> v)"

definition parse_stat_stages :: "memory \<Rightarrow> symbol_table \<Rightarrow> string \<Rightarrow> exn + stat_stages option" where
  "parse_stat_stages m t prefix =
     (if \<not> list_ex (\<lambda>(_, suffix). has_symbol t (prefix @ suffix)) STAT_MOD_FIELDS then Inr None
      else rbind (stat_stage_loop m t prefix STAT_MOD_FIELDS [] False False) (\<lambda>(stages, any_invalid, any_missing).
        Inr (Some \<lparr>st_attack = stage_field stages ''attack'', st_defense = stage_field stages ''defense'',
                   st_speed = stage_field stages ''speed'', st_special = stage_field stages ''special'',
                   st_accuracy = stage_field stages ''accuracy'', st_evasion = stage_field stages ''evasion'',
                   st_valid = (if any_invalid then Some False else if any_missing then None else Some True)\<rparr>)))"

subsection \<open>The opposing combatant\<close>

definition parse_enemy_mon :: "memory \<Rightarrow> symbol_table \<Rightarrow> battle_kind option \<Rightarrow> exn + party_mon option \<times> bool option" where
  "parse_enemy_mon m t kind =
     (if kind \<noteq> Some WILD \<and> kind \<noteq> Some TRAINER then Inr (None, None)
      else if \<not> has_symbol t ''wEnemyMonPartyPos'' then Inr (None, None)
      else rbind (read_u8 m t ''wEnemyMonPartyPos'') (\<lambda>slot.
           rbind (parse_battle_combatant m t ''wEnemyMon'' slot) (\<lambda>r.
             case r of
               None \<Rightarrow> Inr (None, None)
             | Some mon \<Rightarrow>
                 if kind = Some WILD then Inr (Some mon, None)
                 else Inr (Some mon, Some (mon_valid mon = Some True \<and> 0 \<le> slot \<and> slot < MAX_PARTY_SLOTS)))))"

subsection \<open>The replacement menu\<close>

definition PARTY_MENU_TYPE_SYMBOL :: string where "PARTY_MENU_TYPE_SYMBOL = ''wPartyMenuTypeOrMessageID''"
definition PARTY_MENU_ANIM_SYMBOL :: string where "PARTY_MENU_ANIM_SYMBOL = ''wPartyMenuAnimMonEnabled''"
definition BATTLE_PARTY_MENU_TYPE :: int where "BATTLE_PARTY_MENU_TYPE = 2"
definition PARTY_MENU_ANIM_ACTIVE :: int where "PARTY_MENU_ANIM_ACTIVE = 0x40"
definition PARTY_COUNT_SYMBOL :: string where "PARTY_COUNT_SYMBOL = ''wPartyCount''"
definition PARTY_HP_SYMBOL :: string where "PARTY_HP_SYMBOL = ''wPartyMon1HP''"

definition FORCED_REPLACEMENT_EVIDENCE_SYMBOLS :: "string list" where
  "FORCED_REPLACEMENT_EVIDENCE_SYMBOLS =
     [PARTY_MENU_TYPE_SYMBOL, PARTY_MENU_ANIM_SYMBOL, PARTY_COUNT_SYMBOL, PARTY_HP_SYMBOL]"

lemmas menu_constants =
  PARTY_MENU_TYPE_SYMBOL_def PARTY_MENU_ANIM_SYMBOL_def BATTLE_PARTY_MENU_TYPE_def
  PARTY_MENU_ANIM_ACTIVE_def PARTY_COUNT_SYMBOL_def PARTY_HP_SYMBOL_def

definition battle_party_menu_is_live :: "memory \<Rightarrow> symbol_table \<Rightarrow> exn + bool option" where
  "battle_party_menu_is_live m t =
     (if \<not> has_symbol t PARTY_MENU_TYPE_SYMBOL \<or> \<not> has_symbol t PARTY_MENU_ANIM_SYMBOL then Inr None
      else rbind (read_u8 m t PARTY_MENU_TYPE_SYMBOL) (\<lambda>v.
        if v \<noteq> BATTLE_PARTY_MENU_TYPE then Inr (Some False)
        else rbind (read_u8 m t PARTY_MENU_ANIM_SYMBOL) (\<lambda>a. Inr (Some (a = PARTY_MENU_ANIM_ACTIVE)))))"

fun scan_living :: "memory \<Rightarrow> int \<Rightarrow> int list \<Rightarrow> exn + bool" where
  "scan_living m base [] = Inr False"
| "scan_living m base (slot # rest) =
     (let off = base + slot * PARTY_STRUCT_SIZE
      in rbind (read_wram_u8 m off) (\<lambda>a. rbind (read_wram_u8 m (off + 1)) (\<lambda>b.
           if a OR b \<noteq> 0 then Inr True else scan_living m base rest)))"

definition party_has_living_member :: "memory \<Rightarrow> symbol_table \<Rightarrow> exn + bool option" where
  "party_has_living_member m t =
     (if \<not> has_symbol t PARTY_COUNT_SYMBOL \<or> \<not> has_symbol t PARTY_HP_SYMBOL then Inr None
      else rbind (read_u8 m t PARTY_COUNT_SYMBOL) (\<lambda>count.
        if \<not> (0 < count \<and> count \<le> MAX_PARTY_SLOTS) then Inr None
        else rbind (addr_of t PARTY_HP_SYMBOL) (\<lambda>base.
             rbind (scan_living m base [0..count - 1]) (\<lambda>b. Inr (Some b)))))"

definition forced_replacement_is_current :: "memory \<Rightarrow> symbol_table \<Rightarrow> exn + bool option" where
  "forced_replacement_is_current m t =
     rbind (battle_party_menu_is_live m t) (\<lambda>live.
       case live of
         None \<Rightarrow> rbind (read_u8 m t ''wInHandlePlayerMonFainted'') (\<lambda>flag.
                   if flag \<noteq> 0 then Inr None else Inr (Some False))
       | Some False \<Rightarrow> Inr (Some False)
       | Some True \<Rightarrow> party_has_living_member m t)"

definition resolution_bracket_ended_by_menu :: "memory \<Rightarrow> symbol_table \<Rightarrow> hook_observation option
    \<Rightarrow> hook_observation option \<Rightarrow> exn + hook_observation option" where
  "resolution_bracket_ended_by_menu m t menu resolution =
     (case resolution of
        None \<Rightarrow> Inr resolution
      | Some r \<Rightarrow>
          if hook_open r \<noteq> Some True then Inr resolution
          else if (case menu of None \<Rightarrow> False | Some h \<Rightarrow> hook_open h = Some True)
          then Inr (Some (r\<lparr>hook_open := Some False\<rparr>))
          else rbind (battle_party_menu_is_live m t) (\<lambda>live.
            if live = Some True then Inr (Some (r\<lparr>hook_open := Some False\<rparr>)) else Inr resolution))"

subsection \<open>The phase\<close>

definition PHASE_TRANSIENT_SYMBOLS :: "string list" where
  "PHASE_TRANSIENT_SYMBOLS =
     [''wBattleResult'', ''wInHandlePlayerMonFainted'', ''wMoveMenuType'', ''wPlayerMoveListIndex'',
      ''wActionResultOrTookBattleTurn'']"

definition VALID_BATTLE_RESULTS :: "int list" where "VALID_BATTLE_RESULTS = [0, 1, 2]"
definition CONFIRMED_BATTLE_RESULTS :: "int list" where "CONFIRMED_BATTLE_RESULTS = [1, 2]"

fun extend_unique :: "string list \<Rightarrow> string list \<Rightarrow> string list" where
  "extend_unique target [] = target"
| "extend_unique target (name # rest) =
     extend_unique (if name \<in> set target then target else target @ [name]) rest"

definition evidence_of :: "hook_observation option \<Rightarrow> string list" where
  "evidence_of h = (case h of None \<Rightarrow> [] | Some o' \<Rightarrow> hook_evidence o')"

definition is_open :: "hook_observation option \<Rightarrow> bool" where
  "is_open h \<longleftrightarrow> (case h of None \<Rightarrow> False | Some o' \<Rightarrow> hook_open o' = Some True)"

text \<open>The decision at the end of the derivation, over the signals that survived.\<close>

definition decide_phase :: "bool option \<Rightarrow> bool \<Rightarrow> bool \<Rightarrow> bool \<Rightarrow> string list
    \<Rightarrow> battle_phase option \<times> bool \<times> string list" where
  "decide_phase forced action resolving open_menu evidence =
     (let observed = (if forced = Some True then [FORCED_REPLACEMENT] else [])
                     @ (if action \<or> resolving then [ACTION_RESOLUTION] else [])
                     @ (if open_menu then [COMMAND_SELECTION] else [])
      in if forced = None then (None, False, evidence)
         else if length observed > 1 then (None, False, evidence)
         else if observed \<noteq> [] then (Some (hd observed), True, evidence)
         else (Some UNKNOWN_PHASE, False, evidence))"

definition derive_phase :: "memory \<Rightarrow> symbol_table \<Rightarrow> int \<Rightarrow> battle_kind option \<Rightarrow> bool
    \<Rightarrow> hook_observation option \<Rightarrow> hook_observation option
    \<Rightarrow> exn + battle_phase option \<times> bool \<times> string list" where
  "derive_phase m t raw kind ended menu resolution =
     (if raw = 0 then
        (if ended then
           (if has_symbol t ''wBattleResult'' then
              rbind (read_u8 m t ''wBattleResult'') (\<lambda>result.
                if result \<in> set VALID_BATTLE_RESULTS
                then Inr (Some TERMINAL_RETURN, True, [''wIsInBattle'', ''wBattleResult''])
                else Inr (Some UNKNOWN_PHASE, False, [''wIsInBattle'']))
            else Inr (Some UNKNOWN_PHASE, False, [''wIsInBattle'']))
         else Inr (Some INACTIVE, True, [''wIsInBattle'']))
      else if kind = None then Inr (None, False, [''wIsInBattle''])
      else if list_ex (\<lambda>name. \<not> has_symbol t name) PHASE_TRANSIENT_SYMBOLS then
        Inr (Some UNKNOWN_PHASE, False,
             extend_unique (''wIsInBattle'' # filter (has_symbol t) PHASE_TRANSIENT_SYMBOLS) (evidence_of menu))
      else
        let evidence0 = extend_unique (''wIsInBattle'' # PHASE_TRANSIENT_SYMBOLS) (evidence_of menu)
        in rbind (forced_replacement_is_current m t) (\<lambda>forced.
           rbind (read_u8 m t ''wInHandlePlayerMonFainted'') (\<lambda>flag.
           rbind (if flag \<noteq> 0 then Inr True
                  else rbind (battle_party_menu_is_live m t) (\<lambda>live. Inr (live = Some True))) (\<lambda>consulted.
           rbind (read_u8 m t ''wActionResultOrTookBattleTurn'') (\<lambda>action.
             let evidence1 = (if consulted
                              then extend_unique evidence0 (filter (has_symbol t) FORCED_REPLACEMENT_EVIDENCE_SYMBOLS)
                              else evidence0);
                 resolving = is_open resolution;
                 evidence2 = (if resolving then extend_unique evidence1 (evidence_of resolution) else evidence1)
             in Inr (decide_phase forced (action \<noteq> 0) resolving (is_open menu) evidence2))))))"

subsection \<open>The parser\<close>

definition promoted_result :: "battle_lifecycle option \<Rightarrow> bool \<Rightarrow> bool \<Rightarrow> int option" where
  "promoted_result lifecycle ended escaped =
     (case lifecycle of
        None \<Rightarrow> None
      | Some l \<Rightarrow>
          if ended \<and> end_observed l
          then (if (\<exists>v \<in> set CONFIRMED_BATTLE_RESULTS. end_result l = Some v) \<and> \<not> (escaped \<or> end_escaped l)
                then end_result l else None)
          else None)"

definition battle_ended :: "battle_lifecycle option \<Rightarrow> int \<Rightarrow> bool" where
  "battle_ended lifecycle raw \<longleftrightarrow> (case lifecycle of None \<Rightarrow> False | Some l \<Rightarrow> was_active l \<and> raw = 0)"

definition escape_seen :: "battle_lifecycle option \<Rightarrow> int option \<Rightarrow> bool" where
  "escape_seen lifecycle escaped_raw \<longleftrightarrow>
     truthy escaped_raw \<or> (case lifecycle of None \<Rightarrow> False | Some l \<Rightarrow> lc_escaped l)"

definition opt_battle_type :: "memory \<Rightarrow> symbol_table \<Rightarrow> exn + battle_type option" where
  "opt_battle_type m t =
     (if \<not> has_symbol t ''wBattleType'' then Inr None
      else rbind (read_u8 m t ''wBattleType'') (\<lambda>v. Inr (battle_type_of v)))"

definition parse_battle :: "memory \<Rightarrow> symbol_table \<Rightarrow> battle_lifecycle option \<Rightarrow> hook_observation option
    \<Rightarrow> hook_observation option \<Rightarrow> exn + battle_state" where
  "parse_battle m t lifecycle menu resolution0 =
     rbind (read_u8 m t ''wIsInBattle'') (\<lambda>raw.
     let kind = battle_kind_of raw;
         ended = battle_ended lifecycle raw;
         in_battle = (kind = Some WILD \<or> kind = Some TRAINER)
     in
     rbind (parse_enemy_mon m t kind) (\<lambda>(enemy, enemy_valid).
     rbind (opt_u8 m t ''wBattleResult'') (\<lambda>raw_result.
     rbind (opt_u8 m t ''wEscapedFromBattle'') (\<lambda>escaped_raw.
     let escaped = escape_seen lifecycle escaped_raw in
     rbind (resolution_bracket_ended_by_menu m t menu resolution0) (\<lambda>resolution.
     rbind (derive_phase m t raw kind ended menu resolution) (\<lambda>(ph, ph_valid, ph_evidence).
     rbind (opt_battle_type m t) (\<lambda>btype.
     rbind (opt_u8 m t ''wEngagedTrainerClass'') (\<lambda>tclass.
     rbind (opt_u8 m t ''wEngagedTrainerSet'') (\<lambda>tset.
     rbind (opt_u8 m t ''wPlayerMonNumber'') (\<lambda>pslot.
     rbind (opt_u8 m t ''wMoveMenuType'') (\<lambda>mmtype.
     rbind (opt_u8 m t ''wPlayerSelectedMove'') (\<lambda>pmove.
     rbind (opt_u8 m t ''wEnemySelectedMove'') (\<lambda>emove.
     rbind (opt_u8 m t ''wActionResultOrTookBattleTurn'') (\<lambda>action.
     rbind (opt_u8 m t ''wPlayerMoveListIndex'') (\<lambda>mlindex.
     rbind (opt_u8 m t ''wCurrentMenuItem'') (\<lambda>mitem.
     rbind (opt_u8 m t ''wInHandlePlayerMonFainted'') (\<lambda>faint.
     rbind (if in_battle then parse_stat_stages m t ''wPlayerMon'' else Inr None) (\<lambda>pstages.
     rbind (if in_battle then parse_stat_stages m t ''wEnemyMon'' else Inr None) (\<lambda>estages.
       Inr \<lparr>bs_kind = kind, raw_is_in_battle = raw, bs_battle_type = btype,
            engaged_trainer_class = tclass, engaged_trainer_set = tset, player_mon_slot = pslot,
            move_menu_type = mmtype, player_selected_move = pmove, enemy_selected_move = emove,
            action_result_or_took_turn = action, enemy_mon = enemy, enemy_mon_valid = enemy_valid,
            phase = ph, phase_valid = Some ph_valid, phase_evidence = ph_evidence,
            raw_battle_result = raw_result, escaped_from_battle = escaped_raw,
            terminal_result = promoted_result lifecycle ended escaped,
            player_move_list_index = mlindex, bs_current_menu_item = mitem,
            in_handle_player_mon_fainted = faint, player_stat_stages = pstages, enemy_stat_stages = estages,
            menu_open = (case menu of None \<Rightarrow> None | Some h \<Rightarrow> hook_open h), menu_evidence = evidence_of menu,
            resolution_open = (case resolution of None \<Rightarrow> None | Some h \<Rightarrow> hook_open h),
            resolution_evidence = evidence_of resolution\<rparr>)))))))))))))))))))"

subsection \<open>What a reported phase proves\<close>

text \<open>The evidence each phase needs: the raw battle byte, the lifecycle and the two hook observations.\<close>

definition menu_is_live :: "memory \<Rightarrow> symbol_table \<Rightarrow> bool" where
  "menu_is_live m t \<longleftrightarrow> read_u8 m t ''wPartyMenuTypeOrMessageID'' = Inr 2 \<and> read_u8 m t ''wPartyMenuAnimMonEnabled'' = Inr 0x40"

definition action_flag :: "memory \<Rightarrow> symbol_table \<Rightarrow> bool \<Rightarrow> bool" where
  "action_flag m t b \<longleftrightarrow> (\<exists>v. read_u8 m t ''wActionResultOrTookBattleTurn'' = Inr v \<and> (v \<noteq> 0) = b)"

text \<open>
  No replacement is due: with the party menu readable it is not up, or it is up over a party proven to have
  no living member; with the menu unreadable the faint flag is clear.
\<close>

definition no_replacement :: "memory \<Rightarrow> symbol_table \<Rightarrow> bool" where
  "no_replacement m t \<longleftrightarrow>
     (if has_symbol t ''wPartyMenuTypeOrMessageID'' \<and> has_symbol t ''wPartyMenuAnimMonEnabled''
      then \<not> menu_is_live m t \<or> party_has_living_member m t = Inr (Some False)
      else read_u8 m t ''wInHandlePlayerMonFainted'' = Inr 0)"

text \<open>A battle of a known kind is on and every symbol the derivation needs is there.\<close>

definition in_known_battle :: "symbol_table \<Rightarrow> int \<Rightarrow> bool" where
  "in_known_battle t raw \<longleftrightarrow> raw \<noteq> 0 \<and> battle_kind_of raw \<noteq> None \<and> list_all (has_symbol t) PHASE_TRANSIENT_SYMBOLS"

fun phase_proof :: "memory \<Rightarrow> symbol_table \<Rightarrow> int \<Rightarrow> bool \<Rightarrow> hook_observation option \<Rightarrow> hook_observation option
    \<Rightarrow> battle_phase \<Rightarrow> bool" where
  "phase_proof m t raw ended menu res INACTIVE = (raw = 0 \<and> \<not> ended)"
| "phase_proof m t raw ended menu res TERMINAL_RETURN =
     (raw = 0 \<and> ended \<and> (\<exists>r. read_u8 m t ''wBattleResult'' = Inr r \<and> (r = 0 \<or> r = 1 \<or> r = 2)))"
| "phase_proof m t raw ended menu res COMMAND_SELECTION =
     (in_known_battle t raw \<and> is_open menu \<and> action_flag m t False \<and> \<not> is_open res \<and> no_replacement m t)"
| "phase_proof m t raw ended menu res ACTION_RESOLUTION =
     (in_known_battle t raw \<and> \<not> is_open menu \<and> (action_flag m t True \<or> is_open res) \<and> no_replacement m t)"
| "phase_proof m t raw ended menu res FORCED_REPLACEMENT =
     (in_known_battle t raw \<and> \<not> is_open menu \<and> action_flag m t False \<and> \<not> is_open res
      \<and> menu_is_live m t \<and> party_has_living_member m t = Inr (Some True))"
| "phase_proof m t raw ended menu res INTRO = False"
| "phase_proof m t raw ended menu res UNKNOWN_PHASE = False"

lemma read_u8_symbol: "read_u8 m t name = Inr v \<Longrightarrow> has_symbol t name"
  by (auto simp: read_u8_def addr_of_def has_symbol_iff getitem_Inr_iff result_simps split: option.splits)

lemma live_menu_cases:
  assumes "battle_party_menu_is_live m t = Inr live"
  shows "live = (if has_symbol t ''wPartyMenuTypeOrMessageID'' \<and> has_symbol t ''wPartyMenuAnimMonEnabled''
                 then Some (menu_is_live m t) else None)"
  using assms by (auto simp: battle_party_menu_is_live_def menu_is_live_def menu_constants result_simps split: if_splits)

lemma forced_cases:
  assumes "forced_replacement_is_current m t = Inr forced"
  shows "forced = Some False \<longleftrightarrow> no_replacement m t"
    and "forced = Some True \<longleftrightarrow> menu_is_live m t \<and> party_has_living_member m t = Inr (Some True)"
proof -
  obtain live where l: "battle_party_menu_is_live m t = Inr live"
    and f: "(case live of None \<Rightarrow> rbind (read_u8 m t ''wInHandlePlayerMonFainted'') (\<lambda>flag.
                   if flag \<noteq> 0 then Inr None else Inr (Some False))
       | Some False \<Rightarrow> Inr (Some False)
       | Some True \<Rightarrow> party_has_living_member m t) = Inr forced"
    using assms by (auto simp: forced_replacement_is_current_def result_simps)
  have unreadable: "\<not> menu_is_live m t" if "live = None"
    using that live_menu_cases [OF l] by (auto simp: menu_is_live_def dest: read_u8_symbol split: if_splits)
  show "forced = Some False \<longleftrightarrow> no_replacement m t"
    using f live_menu_cases [OF l]
    by (auto simp: no_replacement_def result_simps split: option.splits bool.splits if_splits)
  show "forced = Some True \<longleftrightarrow> menu_is_live m t \<and> party_has_living_member m t = Inr (Some True)"
    using f live_menu_cases [OF l] unreadable
    by (auto simp: result_simps split: option.splits bool.splits if_splits)
qed

lemma decide_phase_cases:
  assumes "decide_phase forced action resolving open_menu ev = (ph, valid, ev')"
  shows "ph = Some q \<and> valid \<longleftrightarrow>
       q = FORCED_REPLACEMENT \<and> forced = Some True \<and> \<not> action \<and> \<not> resolving \<and> \<not> open_menu
     \<or> q = ACTION_RESOLUTION \<and> forced = Some False \<and> (action \<or> resolving) \<and> \<not> open_menu
     \<or> q = COMMAND_SELECTION \<and> forced = Some False \<and> \<not> action \<and> \<not> resolving \<and> open_menu"
    and "\<not> valid \<Longrightarrow> ph = None \<or> ph = Some UNKNOWN_PHASE"
    and "valid \<Longrightarrow> ph \<noteq> None"
  using assms by (auto simp: decide_phase_def Let_def split: if_splits)

lemma derive_phase_proof:
  assumes "derive_phase m t raw (battle_kind_of raw) ended menu res = Inr (ph, valid, ev)"
  shows "(ph = Some q \<and> valid \<longleftrightarrow> phase_proof m t raw ended menu res q)
     \<and> (\<not> valid \<longrightarrow> ph = None \<or> ph = Some UNKNOWN_PHASE) \<and> (valid \<longrightarrow> ph \<noteq> None)"
proof (cases "in_known_battle t raw")
  case False
  show ?thesis
  proof (cases "raw = 0")
    case True
    with assms show ?thesis
      by (cases q) (auto simp: derive_phase_def in_known_battle_def VALID_BATTLE_RESULTS_def result_simps
          dest: read_u8_symbol split: if_splits)
  next
    case nonzero: False
    with False assms have "valid = False" "ph = None \<or> ph = Some UNKNOWN_PHASE"
      by (auto simp: derive_phase_def in_known_battle_def result_simps list_ex_iff list_all_iff split: if_splits)
    with nonzero False show ?thesis by (cases q) auto
  qed
next
  case True
  then have k: "raw \<noteq> 0" "battle_kind_of raw \<noteq> None" "\<not> list_ex (\<lambda>name. \<not> has_symbol t name) PHASE_TRANSIENT_SYMBOLS"
    by (auto simp: in_known_battle_def list_ex_iff list_all_iff)
  with assms obtain forced action ev1 where
      forced: "forced_replacement_is_current m t = Inr forced"
      and action: "read_u8 m t ''wActionResultOrTookBattleTurn'' = Inr action"
      and d: "decide_phase forced (action \<noteq> 0) (is_open res) (is_open menu) ev1 = (ph, valid, ev)"
    by (auto simp: derive_phase_def result_simps Let_def split del: if_split)
  have a: "action_flag m t b \<longleftrightarrow> (action \<noteq> 0) = b" for b using action by (simp add: action_flag_def)
  have "ph = Some q \<and> valid \<longleftrightarrow> phase_proof m t raw ended menu res q"
    unfolding decide_phase_cases(1) [OF d] forced_cases [OF forced]
    by (cases q) (use True k in \<open>auto simp: a\<close>)
  with decide_phase_cases(2, 3) [OF d] show ?thesis by blast
qed

lemma parse_battle_phase:
  assumes "parse_battle m t lifecycle menu res0 = Inr b"
  obtains res v where "resolution_bracket_ended_by_menu m t menu res0 = Inr res"
    "read_u8 m t ''wIsInBattle'' = Inr (raw_is_in_battle b)"
    "derive_phase m t (raw_is_in_battle b) (bs_kind b)
       (battle_ended lifecycle (raw_is_in_battle b)) menu res = Inr (phase b, v, phase_evidence b)"
    "phase_valid b = Some v" "bs_kind b = battle_kind_of (raw_is_in_battle b)"
  using assms by (auto simp: parse_battle_def result_simps Let_def split del: if_split)

lemma parse_battle_terminal:
  assumes "parse_battle m t lifecycle menu res0 = Inr b"
  shows "terminal_result b = promoted_result lifecycle
    (battle_ended lifecycle (raw_is_in_battle b)) (escape_seen lifecycle (escaped_from_battle b))"
  using assms by (auto simp: parse_battle_def result_simps Let_def split del: if_split)

text \<open>
  C37. A phase that is reported valid is backed by its own evidence and contradicted by none, and a phase with
  that evidence is reported. Inside a battle of a known kind, with every symbol present, a command menu
  needs its entry hook open, no action taken, no move bracket open and no replacement due; a resolution
  needs the action flag or the open move bracket, the command menu closed and no replacement due; a
  replacement needs the live party menu over a party with a living member, with no action, bracket or
  command menu; where two of them hold at once, or the replacement cannot be decided, no phase is valid.
  A terminal phase needs the observed end of a battle and a known result. The intro is never derived, and
  a phase that is not valid is reported as unknown or not at all.
\<close>

theorem parse_battle_phase_proved:
  assumes "parse_battle m t lifecycle menu res0 = Inr b"
  shows "\<exists>res. resolution_bracket_ended_by_menu m t menu res0 = Inr res
    \<and> (phase b = Some q \<and> phase_valid b = Some True \<longleftrightarrow>
        phase_proof m t (raw_is_in_battle b)
           (\<exists>l. lifecycle = Some l \<and> was_active l \<and> raw_is_in_battle b = 0) menu res q)
    \<and> (phase_valid b = Some True \<longrightarrow> phase b \<noteq> None)
    \<and> (phase_valid b \<noteq> Some True \<longrightarrow> phase_valid b = Some False \<and> (phase b = None \<or> phase b = Some UNKNOWN_PHASE))"
proof -
  let ?ended = "battle_ended lifecycle (raw_is_in_battle b)"
  obtain res v where r: "resolution_bracket_ended_by_menu m t menu res0 = Inr res"
    and d: "derive_phase m t (raw_is_in_battle b) (bs_kind b) ?ended menu res = Inr (phase b, v, phase_evidence b)"
    and v: "phase_valid b = Some v" and k: "bs_kind b = battle_kind_of (raw_is_in_battle b)"
    using assms by (rule parse_battle_phase)
  have "?ended = (\<exists>l. lifecycle = Some l \<and> was_active l \<and> raw_is_in_battle b = 0)"
    by (cases lifecycle) (auto simp: battle_ended_def)
  with derive_phase_proof [OF d [unfolded k], of q] r v show ?thesis by auto
qed

text \<open>A trainer battle with every flag clear, or, with another first byte, no battle at all.\<close>

definition battle_symbols :: symbol_table where
  "battle_symbols = symbol_table_of
     [\<lparr>sym_name = ''wIsInBattle'', sym_bank = 0, sym_addr = 1\<rparr>,
      \<lparr>sym_name = ''wBattleResult'', sym_bank = 0, sym_addr = 2\<rparr>,
      \<lparr>sym_name = ''wInHandlePlayerMonFainted'', sym_bank = 0, sym_addr = 3\<rparr>,
      \<lparr>sym_name = ''wMoveMenuType'', sym_bank = 0, sym_addr = 4\<rparr>,
      \<lparr>sym_name = ''wPlayerMoveListIndex'', sym_bank = 0, sym_addr = 5\<rparr>,
      \<lparr>sym_name = ''wActionResultOrTookBattleTurn'', sym_bank = 0, sym_addr = 6\<rparr>]"

definition battle_sample :: "int \<Rightarrow> memory" where
  "battle_sample raw = flat_store (\<lambda>a. if a = 1 then raw else 0)"

theorem parse_battle_phase_proved_witness:
  "case parse_battle (battle_sample 2) battle_symbols None (Some \<lparr>hook_open = Some True, hook_evidence = [''DisplayBattleMenu'']\<rparr>) None of
     Inl e \<Rightarrow> False
   | Inr b \<Rightarrow> phase_valid b = Some True \<and> phase b = Some COMMAND_SELECTION \<and> action_flag (battle_sample 2) battle_symbols False"
proof -
  let ?menu = "Some \<lparr>hook_open = Some True, hook_evidence = [''DisplayBattleMenu'']\<rparr>"
  have "case parse_battle (battle_sample 2) battle_symbols None ?menu None of
      Inl e \<Rightarrow> False | Inr b \<Rightarrow> phase_valid b = Some True \<and> phase b = Some COMMAND_SELECTION"
    by code_simp
  then obtain b where b: "parse_battle (battle_sample 2) battle_symbols None ?menu None = Inr b"
      "phase_valid b = Some True" "phase b = Some COMMAND_SELECTION"
    by (cases "parse_battle (battle_sample 2) battle_symbols None ?menu None") auto
  with parse_battle_phase_proved [OF b(1), of COMMAND_SELECTION] show ?thesis by auto
qed

text \<open>
  A terminal result is promoted exactly when the end of the battle was observed by the session, the
  sampled outcome byte is 1 or 2, and no escape was seen, neither in memory, nor in the lifecycle, nor
  at the end itself.
\<close>

theorem terminal_result_exact:
  assumes "parse_battle m t lifecycle menu res0 = Inr b"
  shows "terminal_result b = Some v \<longleftrightarrow>
    (v = 1 \<or> v = 2) \<and> raw_is_in_battle b = 0 \<and> \<not> truthy (escaped_from_battle b)
    \<and> (\<exists>l. lifecycle = Some l \<and> was_active l \<and> end_observed l \<and> end_result l = Some v
           \<and> \<not> lc_escaped l \<and> \<not> end_escaped l)"
  by (auto simp: parse_battle_terminal [OF assms] promoted_result_def CONFIRMED_BATTLE_RESULTS_def
      battle_ended_def escape_seen_def
      split: option.splits if_splits)

theorem terminal_result_exact_witness:
  "case parse_battle (battle_sample 0) battle_symbols
       (Some \<lparr>was_active = True, lc_escaped = False, end_observed = True, end_result = Some 2, end_escaped = False\<rparr>) None None of
     Inl e \<Rightarrow> False
   | Inr b \<Rightarrow> terminal_result b = Some 2"
proof -
  let ?l = "Some \<lparr>was_active = True, lc_escaped = False, end_observed = True, end_result = Some 2, end_escaped = False\<rparr>"
  have "case parse_battle (battle_sample 0) battle_symbols ?l None None of
      Inl e \<Rightarrow> False | Inr b \<Rightarrow> raw_is_in_battle b = 0 \<and> \<not> truthy (escaped_from_battle b)"
    by code_simp
  then obtain b where b: "parse_battle (battle_sample 0) battle_symbols ?l None None = Inr b"
      "raw_is_in_battle b = 0" "\<not> truthy (escaped_from_battle b)"
    by (cases "parse_battle (battle_sample 0) battle_symbols ?l None None") auto
  with terminal_result_exact [OF b(1), of 2] show ?thesis by auto
qed

subsection \<open>Stat stages\<close>

text \<open>The six decoded stages in the order of the fields, and what each of them has to be.\<close>

definition stage_values :: "stat_stages \<Rightarrow> int option list" where
  "stage_values s = [st_attack s, st_defense s, st_speed s, st_special s, st_accuracy s, st_evasion s]"

definition stage_ok :: "memory \<Rightarrow> symbol_table \<Rightarrow> string \<Rightarrow> int option \<Rightarrow> bool" where
  "stage_ok m t name v \<longleftrightarrow>
     (case v of
        None \<Rightarrow> \<not> has_symbol t name \<or> (\<exists>raw. read_u8 m t name = Inr raw \<and> \<not> (1 \<le> raw \<and> raw \<le> 13))
      | Some n \<Rightarrow> -6 \<le> n \<and> n \<le> 6 \<and> read_u8 m t name = Inr (n + 7))"

lemma stat_stage_loop_spec:
  assumes "stat_stage_loop m t prefix todo stages bad mis = Inr (stages', bad', mis')"
    and "distinct (map fst todo)"
  shows "(\<forall>f. f \<notin> set (map fst todo) \<longrightarrow> map_of stages' f = map_of stages f)
    \<and> (\<forall>(f, suffix) \<in> set todo. \<exists>v. map_of stages' f = Some v \<and> stage_ok m t (prefix @ suffix) v)
    \<and> (bad' \<longleftrightarrow> bad \<or> (\<exists>(f, suffix) \<in> set todo. has_symbol t (prefix @ suffix) \<and> map_of stages' f = Some None))
    \<and> (mis' \<longleftrightarrow> mis \<or> (\<exists>(f, suffix) \<in> set todo. \<not> has_symbol t (prefix @ suffix)))"
  using assms
proof (induction todo arbitrary: stages bad mis)
  case Nil
  then show ?case by simp
next
  case (Cons p rest)
  obtain f suffix where p: "p = (f, suffix)" by force
  have d: "f \<notin> set (map fst rest)" "distinct (map fst rest)" using Cons.prems(2) p by auto
  show ?case
  proof (cases "has_symbol t (prefix @ suffix)")
    case False
    with Cons.prems(1) p
    have "stat_stage_loop m t prefix rest (AList.update f None stages) bad True = Inr (stages', bad', mis')"
      by simp
    from Cons.IH [OF this d(2)] show ?thesis
      using False p d(1) by (auto simp: stage_ok_def update_conv')
  next
    case True
    with Cons.prems(1) p obtain raw where raw: "read_u8 m t (prefix @ suffix) = Inr raw"
      and rest: "(if 1 \<le> raw \<and> raw \<le> 13
          then stat_stage_loop m t prefix rest (AList.update f (Some (raw - 7)) stages) bad mis
          else stat_stage_loop m t prefix rest (AList.update f None stages) True mis) = Inr (stages', bad', mis')"
      by (auto simp: result_simps STAT_MOD_MIN_def STAT_MOD_MAX_def STAT_MOD_NEUTRAL_def cong: if_cong)
    show ?thesis
    proof (cases "1 \<le> raw \<and> raw \<le> 13")
      case ok: True
      with rest have "stat_stage_loop m t prefix rest (AList.update f (Some (raw - 7)) stages) bad mis = Inr (stages', bad', mis')"
        by simp
      from Cons.IH [OF this d(2)] show ?thesis
        using True ok raw p d(1) by (auto simp: stage_ok_def update_conv')
    next
      case wrong: False
      with rest have "stat_stage_loop m t prefix rest (AList.update f None stages) True mis = Inr (stages', bad', mis')"
        by auto
      from Cons.IH [OF this d(2)] show ?thesis
        using True wrong raw p d(1) by (auto simp: stage_ok_def update_conv')
    qed
  qed
qed

text \<open>
  Stat stages are decoded exactly. Each stage is present just when its modifier byte is from 1 to 13
  and is that byte minus seven, so it lies from -6 to 6; the block is valid when all six are decoded,
  invalid when some present byte is out of range, and unknown when the only gaps are absent symbols.
\<close>

theorem parse_stat_stages_exact:
  assumes "parse_stat_stages m t prefix = Inr (Some s)"
  shows "list_all2 (\<lambda>(_, suffix) v. stage_ok m t (prefix @ suffix) v) STAT_MOD_FIELDS (stage_values s)
    \<and> (st_valid s = Some True \<longleftrightarrow> None \<notin> set (stage_values s))
    \<and> (st_valid s = Some False \<longleftrightarrow>
         list_ex (\<lambda>((_, suffix), v). has_symbol t (prefix @ suffix) \<and> v = None) (zip STAT_MOD_FIELDS (stage_values s)))"
proof -
  obtain stages bad mis where l: "stat_stage_loop m t prefix STAT_MOD_FIELDS [] False False = Inr (stages, bad, mis)"
    and s: "s = \<lparr>st_attack = stage_field stages ''attack'', st_defense = stage_field stages ''defense'',
                   st_speed = stage_field stages ''speed'', st_special = stage_field stages ''special'',
                   st_accuracy = stage_field stages ''accuracy'', st_evasion = stage_field stages ''evasion'',
                   st_valid = (if bad then Some False else if mis then None else Some True)\<rparr>"
    using assms by (auto simp: parse_stat_stages_def result_simps split: if_splits)
  have f: "stage_values s = map (\<lambda>(f, _). stage_field stages f) STAT_MOD_FIELDS"
    by (simp add: s stage_values_def STAT_MOD_FIELDS_def)
  have v: "st_valid s = (if bad then Some False else if mis then None else Some True)"
    by (simp add: s)
  have zip: "zip xs (map h xs) = map (\<lambda>x. (x, h x)) xs" for h :: "string \<times> string \<Rightarrow> int option" and xs
    by (induction xs) auto
  have "distinct (map fst STAT_MOD_FIELDS)" by (simp add: STAT_MOD_FIELDS_def)
  note spec = stat_stage_loop_spec [OF l this]
  have known: "\<exists>v. map_of stages f = Some v \<and> stage_field stages f = v \<and> stage_ok m t (prefix @ suffix) v"
    if "(f, suffix) \<in> set STAT_MOD_FIELDS" for f suffix
    using spec that by (fastforce simp: stage_field_def)
  have ok: "stage_ok m t (prefix @ suffix) (stage_field stages f)"
    if "(f, suffix) \<in> set STAT_MOD_FIELDS" for f suffix
    using known [OF that] by auto
  have bad: "bad \<longleftrightarrow> (\<exists>(f, suffix) \<in> set STAT_MOD_FIELDS. has_symbol t (prefix @ suffix) \<and> stage_field stages f = None)"
    using spec known by (fastforce simp: stage_field_def)
  have mis: "mis \<longleftrightarrow> (\<exists>(f, suffix) \<in> set STAT_MOD_FIELDS. \<not> has_symbol t (prefix @ suffix))"
    using spec by auto
  have absent: "stage_field stages f = None" if "(f, suffix) \<in> set STAT_MOD_FIELDS" "\<not> has_symbol t (prefix @ suffix)" for f suffix
    using ok [OF that(1)] that(2)
    by (auto simp: stage_ok_def read_u8_def addr_of_def has_symbol_iff getitem_Inr_iff result_simps split: option.splits)
  have "list_all2 (\<lambda>(_, suffix) v. stage_ok m t (prefix @ suffix) v) STAT_MOD_FIELDS (stage_values s)"
    unfolding f list_all2_map2 list_all2_same using ok by auto
  moreover have "st_valid s = Some True \<longleftrightarrow> None \<notin> set (stage_values s)"
  proof -
    have "bad \<or> mis \<longleftrightarrow> (\<exists>(f, suffix) \<in> set STAT_MOD_FIELDS. stage_field stages f = None)"
      using bad mis absent by blast
    also have "\<dots> \<longleftrightarrow> None \<in> set (stage_values s)"
      by (simp add: f image_iff case_prod_beta eq_commute [of None])
    finally show ?thesis unfolding v by auto
  qed
  moreover have "st_valid s = Some False \<longleftrightarrow>
      list_ex (\<lambda>((_, suffix), v). has_symbol t (prefix @ suffix) \<and> v = None) (zip STAT_MOD_FIELDS (stage_values s))"
    unfolding f v zip using bad by (auto simp: list_ex_iff)
  ultimately show ?thesis by blast
qed

theorem parse_stat_stages_exact_witness:
  "case parse_stat_stages (flat_store (\<lambda>a. 14)) (symbol_table_of [\<lparr>sym_name = ''wPlayerMonAttackMod'', sym_bank = 0, sym_addr = 9\<rparr>]) ''wPlayerMon'' of
     Inr (Some s) \<Rightarrow> st_valid s \<noteq> Some True \<and> st_attack s = None
   | _ \<Rightarrow> False"
proof -
  let ?m = "flat_store (\<lambda>a. 14)"
  let ?t = "symbol_table_of [\<lparr>sym_name = ''wPlayerMonAttackMod'', sym_bank = 0, sym_addr = 9\<rparr>]"
  have "case parse_stat_stages ?m ?t ''wPlayerMon'' of Inr (Some s) \<Rightarrow> st_attack s = None | _ \<Rightarrow> False"
    by code_simp
  then obtain s where s: "parse_stat_stages ?m ?t ''wPlayerMon'' = Inr (Some s)" "st_attack s = None"
    by (auto split: sum.splits option.splits)
  then have "None \<in> set (stage_values s)" by (simp add: stage_values_def)
  with parse_stat_stages_exact [OF s(1)] s show ?thesis by auto
qed

subsection \<open>The two readings of the party's hit points agree\<close>

context wram_reader begin

lemma scan_living_ok:
  "scan_living m base slots = Inr (\<exists>i \<in> set slots. rd (base + i * 44) \<noteq> 0 \<or> rd (base + i * 44 + 1) \<noteq> 0)"
  by (induction slots) (auto simp: read_wram PARTY_STRUCT_SIZE_def Let_def or_eq_0_iff)

lemma slot_mon_hp: "mon_hp (slot_mon ma i ps) = 256 * rd (ma + i * 44 + 1) + rd (ma + i * 44 + 2)"
  by (simp add: slot_mon_def parse_party_slot_ok)

lemma living_iff:
  assumes "parse_party m t = Inr p" "addr_of t ''wPartyMons'' = Inr ma" "addr_of t ''wPartyMon1HP'' = Inr (ma + 1)"
    and c: "party_count_raw p = Some n" "0 < n" "n \<le> 6"
  shows "party_has_living_member m t = Inr (Some (\<exists>x \<in> set (party_mons p). mon_hp x \<noteq> 0))"
proof -
  obtain raw species where raw: "read_u8 m t ''wPartyCount'' = Inr raw" "party_count_raw p = Some raw"
    and ms: "read_party_mons m t (min raw 6) species = Inr (party_mons p)"
    using assms(1) by (rule parse_party_fields)
  have n: "raw = n" using raw c by simp
  have syms: "has_symbol t PARTY_COUNT_SYMBOL" "has_symbol t PARTY_HP_SYMBOL"
    using raw(1) assms(3)
    by (auto simp: menu_constants has_symbol_iff read_u8_def addr_of_def result_simps getitem_Inr_iff)
  have mons: "party_mons p = map (\<lambda>i. slot_mon ma i (map_option (\<lambda>l. l ! nat i) species)) [0..n - 1]"
    using ms assms(2) n c by (simp add: read_party_mons_ok)
  have zero: "256 * rd a + rd b = 0 \<longleftrightarrow> rd a = 0 \<and> rd b = 0" for a b
    using rd_range [of a] rd_range [of b] by presburger
  have "rd (ma + 1 + i * 44) \<noteq> 0 \<or> rd (ma + 1 + i * 44 + 1) \<noteq> 0 \<longleftrightarrow> mon_hp (slot_mon ma i ps) \<noteq> 0" for i ps
  proof -
    have "mon_hp (slot_mon ma i ps) = 256 * rd (ma + 1 + i * 44) + rd (ma + 1 + i * 44 + 1)"
      by (simp add: slot_mon_hp algebra_simps)
    with zero [of "ma + 1 + i * 44" "ma + 1 + i * 44 + 1"] show ?thesis by simp
  qed
  then show ?thesis
    using syms raw(1) assms(3) c n
    by (simp add: party_has_living_member_def menu_constants scan_living_ok mons MAX_PARTY_SLOTS_def)
qed

end

text \<open>
  The battle parser's search for a living party member agrees with the decoded party: with the
  hit-point symbol one byte into the first record, as the layout has it, and a count from one to six,
  the search answers true exactly when some decoded member has hit points left.
\<close>

theorem living_member_agrees_with_party:
  assumes "parse_party (cgb_store mapped banks) t = Inr p"
    and "addr_of t ''wPartyMons'' = Inr ma" "addr_of t ''wPartyMon1HP'' = Inr (ma + 1)"
    and "party_count_raw p = Some n" "0 < n" "n \<le> 6"
  shows "party_has_living_member (cgb_store mapped banks) t
    = Inr (Some (\<exists>x \<in> set (party_mons p). mon_hp x \<noteq> 0))"
  using assms by (rule cgb.living_iff)

theorem living_member_agrees_with_party_witness:
  "party_has_living_member (cgb_store (\<lambda>_. 0x55) sample_banks)
     (add_symbol sample_symbols \<lparr>sym_name = ''wPartyMon1HP'', sym_bank = 1, sym_addr = 0xD16C\<rparr>) = Inr (Some True)"
proof -
  let ?m = "cgb_store (\<lambda>_. 0x55) sample_banks"
  let ?t = "add_symbol sample_symbols \<lparr>sym_name = ''wPartyMon1HP'', sym_bank = 1, sym_addr = 0xD16C\<rparr>"
  have t: "addr_of ?t ''wPartyMons'' = Inr 0xD16B" "addr_of ?t ''wPartyMon1HP'' = Inr (0xD16B + 1)"
    by code_simp+
  have "case parse_party ?m ?t of Inl e \<Rightarrow> False
      | Inr p \<Rightarrow> party_count_raw p = Some 1 \<and> map mon_hp (party_mons p) = [20]"
    by code_simp
  then obtain p where p: "parse_party ?m ?t = Inr p" "party_count_raw p = Some 1" "map mon_hp (party_mons p) = [20]"
    by (cases "parse_party ?m ?t") auto
  then have "\<exists>x \<in> set (party_mons p). mon_hp x \<noteq> 0" by (cases "party_mons p") auto
  with living_member_agrees_with_party [OF p(1) t p(2)] show ?thesis by simp
qed

end
