(* ===== verification/Game_State.thy ===== *)
theory Game_State
  imports Text_State Menu_State Overworld_State Progress_State Bag_State Party_State Battle_State
    "HOL-Library.Char_ord" "HOL-Library.List_Lexorder"
begin

text \<open>
  The aggregate snapshot (\<open>state/game_state.py\<close>): each component parsed when its required symbols are
  there, and the validity record that says which of the 53 field paths are missing, unknown or invalid.
  Python's sets of paths are lists here, sorted without duplicates where the code sorts them.
\<close>

unbundle bit_operations_syntax

datatype state_status = STATE_VALID | STATE_PARTIAL | STATE_UNKNOWN

record state_validity =
  v_status :: state_status
  v_missing :: "string list"
  v_unknown :: "string list"
  v_invalid :: "string list"

definition v_is_valid :: "state_validity \<Rightarrow> bool" where
  "v_is_valid v \<longleftrightarrow> v_status v = STATE_VALID"

definition v_is_unknown :: "state_validity \<Rightarrow> bool" where
  "v_is_unknown v \<longleftrightarrow> v_unknown v \<noteq> [] \<or> v_invalid v \<noteq> []"

definition completely_unknown :: "state_validity \<Rightarrow> bool" where
  "completely_unknown v \<longleftrightarrow> v_status v = STATE_UNKNOWN"

definition FIELD_SOURCES :: "(string \<times> string list) list" where
  "FIELD_SOURCES = [
      (''overworld.map_id'', [''wCurMap'']),
      (''overworld.x'', [''wXCoord'']),
      (''overworld.y'', [''wYCoord'']),
      (''overworld.walk_counter'', [''wWalkCounter'']),
      (''overworld.direction'', [''wSpritePlayerStateData1FacingDirection'', ''wSpriteStateData1'']),
      (''overworld.map_script_flags'', [''wCurrentMapScriptFlags'']),
      (''overworld.current_map_script'', [''wCurMapScript'']),
      (''overworld.status_flags5_raw'', [''wStatusFlags5'']),
      (''overworld.is_standing'', [''wWalkCounter'']),
      (''overworld.scripted_movement_active'', [''wStatusFlags5'']),
      (''menu.current_item'', [''wCurrentMenuItem'']),
      (''menu.max_item'', [''wMaxMenuItem'']),
      (''menu.watched_keys'', [''wMenuWatchedKeys'']),
      (''menu.list_scroll_offset'', [''wListScrollOffset'']),
      (''menu.saved_party_pc'', [''wPartyAndBillsPCSavedMenuItem'']),
      (''menu.saved_bag'', [''wBagSavedMenuItem'']),
      (''menu.saved_battle_start'', [''wBattleAndStartSavedMenuItem'']),
      (''menu.cursor_valid'', [''wListScrollOffset'']),
      (''menu.cursor_at_top'', [''wCurrentMenuItem'', ''wListScrollOffset'']),
      (''text.text_dest_addr'', [''wTextDest'']),
      (''text.text_dest_valid'', [''wTextDest'']),
      (''text.suppress_prompt_wait'', [''wDoNotWaitForButtonPressAfterDisplayingText'']),
      (''text.suppress_prompt_wait_valid'', [''wDoNotWaitForButtonPressAfterDisplayingText'']),
      (''text.dest_in_wram_tilemap'', [''wTileMap'']),
      (''text.dest_in_vram_tilemap'', [''wTextDest'']),
      (''battle.kind'', [''wIsInBattle'']),
      (''battle.raw_is_in_battle'', [''wIsInBattle'']),
      (''battle.battle_type'', [''wBattleType'']),
      (''battle.engaged_trainer_class'', [''wEngagedTrainerClass'']),
      (''battle.engaged_trainer_set'', [''wEngagedTrainerSet'']),
      (''battle.player_mon_slot'', [''wPlayerMonNumber'']),
      (''battle.move_menu_type'', [''wMoveMenuType'']),
      (''battle.player_selected_move'', [''wPlayerSelectedMove'']),
      (''battle.enemy_selected_move'', [''wEnemySelectedMove'']),
      (''battle.action_result_or_took_turn'', [''wActionResultOrTookBattleTurn'']),
      (''battle.active'', [''wIsInBattle'']),
      (''battle.is_trainer_battle'', [''wIsInBattle'']),
      (''battle.is_wild_battle'', [''wIsInBattle'']),
      (''battle.turn_already_consumed'', [''wActionResultOrTookBattleTurn'']),
      (''battle_active'', [''wIsInBattle'']),
      (''party.count'', [''wPartyCount'']),
      (''party.mons'', [''wPartyMons'']),
      (''bag.count'', [''wNumBagItems'']),
      (''bag.stacks'', [''wBagItems'']),
      (''bag.valid'', [''wNumBagItems'']),
      (''progress.badges_raw'', [''wObtainedBadges'']),
      (''progress.trainer_id'', [''wPlayerID'']),
      (''progress.money'', [''wPlayerMoney'']),
      (''progress.play_time_hours'', [''wPlayTimeHours'']),
      (''progress.play_time_minutes'', [''wPlayTimeMinutes'']),
      (''progress.play_time_seconds'', [''wPlayTimeSeconds'']),
      (''progress.play_time_maxed'', [''wPlayTimeMaxed'']),
      (''progress.play_time_maxed_raw'', [''wPlayTimeMaxed''])
   ]"

datatype component = OVERWORLD | MENU | TEXT | BATTLE | PARTY | BAG | PROGRESS

definition REQUIRED_SYMBOLS :: "component \<Rightarrow> string list" where
  "REQUIRED_SYMBOLS c =
     (case c of
        OVERWORLD \<Rightarrow> [''wCurMap'', ''wXCoord'', ''wYCoord'', ''wWalkCounter'']
      | MENU \<Rightarrow> [''wCurrentMenuItem'', ''wMaxMenuItem'']
      | TEXT \<Rightarrow> []
      | BATTLE \<Rightarrow> [''wIsInBattle'']
      | PROGRESS \<Rightarrow> [''wObtainedBadges'']
      | _ \<Rightarrow> [])"

record components =
  c_overworld :: "overworld_state option"
  c_menu :: "menu_state option"
  c_text :: "text_state option"
  c_battle :: "battle_state option"
  c_party :: "party option"
  c_bag :: "bag option"
  c_progress :: "progress_state option"

record game_state = components +
  validity :: state_validity

definition gs_battle_active :: "game_state \<Rightarrow> bool option" where
  "gs_battle_active g =
     (case c_battle g of
        None \<Rightarrow> None
      | Some b \<Rightarrow>
          if list_ex (\<lambda>f. f \<in> set (v_unknown (validity g)) \<or> f \<in> set (v_invalid (validity g)))
               [''battle_active'', ''battle.kind'']
          then None
          else case bs_kind b of None \<Rightarrow> None | Some k \<Rightarrow> Some (k \<noteq> NO_BATTLE))"

definition parse_if_symbols :: "(memory \<Rightarrow> symbol_table \<Rightarrow> exn + 'a) \<Rightarrow> memory \<Rightarrow> symbol_table \<Rightarrow> string list
    \<Rightarrow> exn + 'a option" where
  "parse_if_symbols parser m t required =
     (if list_ex (\<lambda>name. \<not> has_symbol t name) required then Inr None
      else rbind (parser m t) (\<lambda>v. Inr (Some v)))"

definition party_required_symbols :: "memory \<Rightarrow> symbol_table \<Rightarrow> exn + string list" where
  "party_required_symbols m t =
     (if \<not> has_symbol t ''wPartyCount'' then Inr [''wPartyCount'', ''wPartyMons'']
      else rbind (read_u8 m t ''wPartyCount'') (\<lambda>count.
        Inr (if count = 0 then [''wPartyCount''] else [''wPartyCount'', ''wPartyMons''])))"

definition bag_required_symbols :: "memory \<Rightarrow> symbol_table \<Rightarrow> exn + string list" where
  "bag_required_symbols m t =
     (if \<not> has_symbol t ''wNumBagItems'' then Inr [''wNumBagItems'', ''wBagItems'']
      else rbind (read_u8 m t ''wNumBagItems'') (\<lambda>count.
        Inr (if count = 0 then [''wNumBagItems''] else [''wNumBagItems'', ''wBagItems''])))"

subsection \<open>Missing and unknown paths\<close>

text \<open>The component name before the first dot of a path.\<close>

definition component_for_path :: "string \<Rightarrow> string" where
  "component_for_path path =
     (if path = ''battle_active'' then ''battle'' else takeWhile (\<lambda>c. c \<noteq> CHR ''.'') path)"

definition component_missing :: "'a components_scheme \<Rightarrow> string \<Rightarrow> bool" where
  "component_missing c name =
     (if name = ''overworld'' then c_overworld c = None
      else if name = ''menu'' then c_menu c = None
      else if name = ''text'' then c_text c = None
      else if name = ''battle'' then c_battle c = None
      else if name = ''party'' then c_party c = None
      else if name = ''bag'' then c_bag c = None
      else if name = ''progress'' then c_progress c = None
      else True)"

definition field_not_applicable :: "string \<Rightarrow> 'a components_scheme \<Rightarrow> bool" where
  "field_not_applicable path c =
     (if path = ''party.mons'' then (case c_party c of Some p \<Rightarrow> party_count p = 0 | None \<Rightarrow> False)
      else if path = ''bag.stacks'' then (case c_bag c of Some b \<Rightarrow> bag_count b = 0 | None \<Rightarrow> False)
      else False)"

fun scan_fields :: "symbol_table \<Rightarrow> 'a components_scheme \<Rightarrow> (string \<times> string list) list
    \<Rightarrow> string list \<times> string list \<Rightarrow> string list \<times> string list" where
  "scan_fields t c [] (unknown, missing) = (unknown, missing)"
| "scan_fields t c ((path, sources) # rest) (unknown, missing) =
     (let available = list_ex (has_symbol t) sources
      in if component_missing c (component_for_path path)
         then scan_fields t c rest (unknown @ [path], if available then missing else missing @ sources)
         else if field_not_applicable path c then scan_fields t c rest (unknown, missing)
         else if available then scan_fields t c rest (unknown, missing)
         else scan_fields t c rest (unknown @ [path], missing @ sources))"

subsection \<open>Values outside their known encoding\<close>

text \<open>The sets of unknown and of invalid paths, threaded through the checks in the order of the code.\<close>

type_synonym marks = "string list \<times> string list"

definition mark_both :: "bool \<Rightarrow> string list \<Rightarrow> marks \<Rightarrow> marks" where
  "mark_both cond paths ms = (if cond then (fst ms @ paths, snd ms @ paths) else ms)"

definition mark_invalid_only :: "bool \<Rightarrow> string \<Rightarrow> marks \<Rightarrow> marks" where
  "mark_invalid_only cond path ms = (if cond \<and> path \<notin> set (fst ms) then (fst ms, snd ms @ [path]) else ms)"

definition mark_unknown_only :: "bool \<Rightarrow> string list \<Rightarrow> marks \<Rightarrow> marks" where
  "mark_unknown_only cond paths ms = (if cond then (fst ms @ paths, snd ms) else ms)"

definition mark_text :: "text_state option \<Rightarrow> marks \<Rightarrow> marks" where
  "mark_text text ms =
     (case text of
        None \<Rightarrow> ms
      | Some s \<Rightarrow>
          let ms1 = mark_both (text_dest_valid s = Some False)
                [''text.text_dest_addr'', ''text.text_dest_valid'', ''text.dest_in_wram_tilemap'', ''text.dest_in_vram_tilemap''] ms;
              ms2 = mark_both (suppress_prompt_wait_valid s = Some False)
                [''text.suppress_prompt_wait'', ''text.suppress_prompt_wait_valid''] ms1
          in mark_unknown_only (dest_in_wram_tilemap s = None \<and> ''text.dest_in_wram_tilemap'' \<notin> set (fst ms2))
               [''text.dest_in_wram_tilemap''] ms2)"

definition mark_menu :: "menu_state option \<Rightarrow> marks \<Rightarrow> marks" where
  "mark_menu menu ms =
     (case menu of
        None \<Rightarrow> ms
      | Some s \<Rightarrow>
          if cursor_valid s = Some False then mark_both True [''menu.cursor_valid'', ''menu.cursor_at_top''] ms
          else mark_unknown_only (cursor_valid s = None) [''menu.cursor_valid'', ''menu.cursor_at_top''] ms)"

definition mark_overworld :: "overworld_state option \<Rightarrow> marks \<Rightarrow> marks" where
  "mark_overworld overworld ms =
     (case overworld of
        None \<Rightarrow> ms
      | Some s \<Rightarrow> mark_invalid_only (ow_direction s = None) ''overworld.direction'' ms)"

definition mark_battle :: "battle_state option \<Rightarrow> marks \<Rightarrow> marks" where
  "mark_battle battle ms =
     (case battle of
        None \<Rightarrow> ms
      | Some b \<Rightarrow>
          mark_invalid_only (bs_battle_type b = None) ''battle.battle_type''
            (mark_both (bs_kind b = None \<and> ''battle.kind'' \<notin> set (fst ms))
               [''battle.kind'', ''battle.active'', ''battle.is_trainer_battle'', ''battle.is_wild_battle'', ''battle_active''] ms))"

definition mark_bag :: "bag option \<Rightarrow> marks \<Rightarrow> marks" where
  "mark_bag bag ms = (case bag of None \<Rightarrow> ms | Some b \<Rightarrow> mark_both (bag_valid b \<noteq> Some True) [''bag.valid''] ms)"

definition mark_party :: "party option \<Rightarrow> marks \<Rightarrow> marks" where
  "mark_party party ms =
     (case party of
        None \<Rightarrow> ms
      | Some p \<Rightarrow> mark_both (list_ex (\<lambda>mon. status_is_unknown (mon_status mon)) (party_mons p)) [''party.mons''] ms)"

definition mark_count :: "memory \<Rightarrow> symbol_table \<Rightarrow> string \<Rightarrow> int \<Rightarrow> string list \<Rightarrow> marks \<Rightarrow> exn + marks" where
  "mark_count m t name limit paths ms =
     (if has_symbol t name
      then rbind (read_u8 m t name) (\<lambda>raw. Inr (mark_both (raw > limit) paths ms))
      else Inr ms)"

fun bcd_invalid_from :: "memory \<Rightarrow> int \<Rightarrow> int list \<Rightarrow> exn + bool" where
  "bcd_invalid_from m base [] = Inr False"
| "bcd_invalid_from m base (off # rest) =
     rbind (read_wram_u8 m (base + off)) (\<lambda>raw.
       if drop_bit 4 raw > 9 \<or> raw AND 0x0F > 9 then Inr True else bcd_invalid_from m base rest)"

definition money_has_invalid_bcd :: "memory \<Rightarrow> symbol_table \<Rightarrow> exn + bool" where
  "money_has_invalid_bcd m t = rbind (addr_of t ''wPlayerMoney'') (\<lambda>base. bcd_invalid_from m base [0..2])"

definition mark_progress :: "memory \<Rightarrow> symbol_table \<Rightarrow> progress_state option \<Rightarrow> marks \<Rightarrow> exn + marks" where
  "mark_progress m t progress ms =
     (if progress = None then Inr ms
      else rbind (mark_count m t ''wPlayTimeMinutes'' 59 [''progress.play_time_minutes''] ms) (\<lambda>ms1.
           rbind (mark_count m t ''wPlayTimeSeconds'' 59 [''progress.play_time_seconds''] ms1) (\<lambda>ms2.
             if has_symbol t ''wPlayerMoney''
             then rbind (money_has_invalid_bcd m t) (\<lambda>bad. Inr (mark_both bad [''progress.money''] ms2))
             else Inr ms2)))"

definition mark_invalid_values :: "memory \<Rightarrow> symbol_table \<Rightarrow> 'a components_scheme \<Rightarrow> marks \<Rightarrow> exn + marks" where
  "mark_invalid_values m t c ms =
     (let ms1 = mark_party (c_party c) (mark_bag (c_bag c) (mark_battle (c_battle c)
                  (mark_overworld (c_overworld c) (mark_menu (c_menu c) (mark_text (c_text c) ms)))))
      in rbind (mark_count m t ''wPartyCount'' 6 [''party.count'', ''party.mons''] ms1) (\<lambda>ms2.
         rbind (mark_count m t ''wNumBagItems'' 20 [''bag.count'', ''bag.stacks''] ms2) (\<lambda>ms3.
           mark_progress m t (c_progress c) ms3)))"

definition sorted_set :: "string list \<Rightarrow> string list" where
  "sorted_set xs = sort (remdups xs)"

definition build_validity :: "memory \<Rightarrow> symbol_table \<Rightarrow> 'a components_scheme \<Rightarrow> exn + state_validity" where
  "build_validity m t c =
     (let (unknown0, missing) = scan_fields t c FIELD_SOURCES ([], [])
      in rbind (mark_invalid_values m t c (unknown0, [])) (\<lambda>(unknown, invalid).
           let known = filter (\<lambda>p. p \<notin> set unknown \<and> p \<notin> set invalid) (map fst FIELD_SOURCES);
               status = (if known = [] then STATE_UNKNOWN
                         else if unknown \<noteq> [] \<or> invalid \<noteq> [] then STATE_PARTIAL else STATE_VALID)
           in Inr \<lparr>v_status = status, v_missing = sorted_set missing,
                   v_unknown = sorted_set unknown, v_invalid = sorted_set invalid\<rparr>))"

definition parse_game_state :: "memory \<Rightarrow> symbol_table \<Rightarrow> exn + game_state" where
  "parse_game_state m t =
     rbind (parse_if_symbols parse_overworld m t (REQUIRED_SYMBOLS OVERWORLD)) (\<lambda>overworld.
     rbind (parse_if_symbols parse_menu m t (REQUIRED_SYMBOLS MENU)) (\<lambda>menu.
     rbind (parse_if_symbols parse_text m t (REQUIRED_SYMBOLS TEXT)) (\<lambda>text.
     rbind (parse_if_symbols (\<lambda>m t. parse_battle m t None None None) m t (REQUIRED_SYMBOLS BATTLE)) (\<lambda>battle.
     rbind (party_required_symbols m t) (\<lambda>party_req.
     rbind (parse_if_symbols parse_party m t party_req) (\<lambda>party.
     rbind (bag_required_symbols m t) (\<lambda>bag_req.
     rbind (parse_if_symbols parse_bag m t bag_req) (\<lambda>bag.
     rbind (parse_if_symbols parse_progress m t (REQUIRED_SYMBOLS PROGRESS)) (\<lambda>progress.
       let c = \<lparr>c_overworld = overworld, c_menu = menu, c_text = text, c_battle = battle,
                c_party = party, c_bag = bag, c_progress = progress\<rparr>
       in rbind (build_validity m t c) (\<lambda>v.
            Inr \<lparr>c_overworld = overworld, c_menu = menu, c_text = text, c_battle = battle,
                 c_party = party, c_bag = bag, c_progress = progress, validity = v\<rparr>))))))))))"

subsection \<open>Parsing never raises\<close>

context wram_reader begin

lemma read_wram_returns [returns_intros]: "returns (read_wram_u8 m a)"
  by (simp add: read_wram returns_def)

lemma read_u8_returns [returns_intros]: "has_symbol t n \<Longrightarrow> returns (read_u8 m t n)"
  by (auto simp: has_symbol_iff read_u8_total returns_def)

lemma opt_u8_returns [returns_intros]: "returns (opt_u8 m t n)"
  by (simp add: opt_u8_total returns_def)

lemma read_u16_returns [returns_intros]:
  "has_symbol t n \<Longrightarrow> returns (read_u16_be m t n)" "has_symbol t n \<Longrightarrow> returns (read_u16_le m t n)"
  by (auto simp: has_symbol_iff returns_def getitem_Inr_iff [symmetric] dest: read_u16_be_ok read_u16_le_ok)

lemma addr_of_returns [returns_intros]: "has_symbol t n \<Longrightarrow> returns (addr_of t n)"
  by (auto simp: addr_of_def returns_def dest: has_symbol_getitem)

lemma party_reads_return [returns_intros]:
  "returns (party_read_u8 m a)" "returns (party_read_u16_be m a)" "returns (read_tuple4 m a)"
  by (simp_all add: party_read_u8_ok party_read_u16_be_ok read_tuple4_ok returns_def)

lemma parse_party_slot_returns [returns_intros]: "returns (parse_party_slot m slot base ps)"
  by (simp add: parse_party_slot_ok returns_def)

lemma combatant_returns [returns_intros]: "returns (parse_battle_combatant m t prefix slot)"
  by (auto simp: parse_battle_combatant_def BATTLE_STRUCT_FIELD_SUFFIXES_def intro!: returns_intros)

lemma parse_party_returns:
  "has_symbol t ''wPartyCount'' \<Longrightarrow> (read_u8 m t ''wPartyCount'' = Inr 0 \<or> has_symbol t ''wPartyMons'')
     \<Longrightarrow> returns (parse_party m t)"
  by (auto simp: parse_party_def read_species_list_def read_party_mons_def parse_active_battle_def MAX_PARTY_SLOTS_def
      intro!: returns_intros)

lemma stat_stage_loop_returns [returns_intros]:
  "returns (stat_stage_loop m t prefix fs stages a b)"
proof (induction fs arbitrary: stages a b)
  case (Cons f rest)
  then show ?case by (cases f) (auto intro!: returns_intros)
qed (simp add: returns_intros)

lemma scan_living_returns [returns_intros]: "returns (scan_living m base slots)"
  by (simp add: scan_living_ok returns_def)

lemma menu_live_returns [returns_intros]: "returns (battle_party_menu_is_live m t)"
  by (auto simp: battle_party_menu_is_live_def intro!: returns_intros)

lemma living_returns [returns_intros]: "returns (party_has_living_member m t)"
  by (auto simp: party_has_living_member_def intro!: returns_intros)

lemma forced_returns [returns_intros]:
  "has_symbol t ''wInHandlePlayerMonFainted'' \<Longrightarrow> returns (forced_replacement_is_current m t)"
  by (auto simp: forced_replacement_is_current_def intro!: returns_intros)

lemma derive_phase_returns [returns_intros]: "returns (derive_phase m t raw kind ended menu res)"
  by (auto simp: derive_phase_def PHASE_TRANSIENT_SYMBOLS_def intro!: returns_intros)

lemma parse_battle_returns: "has_symbol t ''wIsInBattle'' \<Longrightarrow> returns (parse_battle m t l menu res)"
  by (auto simp: parse_battle_def parse_enemy_mon_def resolution_bracket_ended_by_menu_def
      opt_battle_type_def parse_stat_stages_def intro!: returns_intros)

lemma find_terminator_returns [returns_intros]: "returns (find_terminator_from m base slots)"
  by (induction slots) (auto intro!: returns_intros)

lemma parse_bag_returns:
  "has_symbol t ''wNumBagItems'' \<Longrightarrow> (read_u8 m t ''wNumBagItems'' = Inr 0 \<or> has_symbol t ''wBagItems'')
     \<Longrightarrow> returns (parse_bag m t)"
  by (auto simp: parse_bag_def find_terminator_def read_stacks_def intro!: returns_intros)

lemma bcd_loop_returns [returns_intros]: "returns (bcd_loop m a is r)"
  by (induction "is" arbitrary: r) (auto intro!: returns_intros)

lemma parse_progress_returns: "has_symbol t ''wObtainedBadges'' \<Longrightarrow> returns (parse_progress m t)"
  by (auto simp: parse_progress_def read_bcd3_def opt_u8_range_max_def intro!: returns_intros)

lemma guarded_returns:
  "(has_symbol t n \<Longrightarrow> returns (rd' m t n)) \<Longrightarrow> returns (guarded_read rd' m t n)"
  by (auto simp: guarded_read_def has_symbol_iff returns_def split: option.splits)

lemma parse_text_returns: "returns (parse_text m t)"
  by (auto simp: parse_text_def text_read_u8_def text_read_u16_def intro!: returns_intros guarded_returns)

lemma parse_menu_returns:
  "has_symbol t ''wCurrentMenuItem'' \<Longrightarrow> has_symbol t ''wMaxMenuItem'' \<Longrightarrow> returns (parse_menu m t)"
  by (auto simp: parse_menu_def intro!: returns_intros)

lemma parse_overworld_returns:
  "has_symbol t ''wCurMap'' \<Longrightarrow> has_symbol t ''wXCoord'' \<Longrightarrow> has_symbol t ''wYCoord''
     \<Longrightarrow> has_symbol t ''wWalkCounter'' \<Longrightarrow> returns (parse_overworld m t)"
  by (auto simp: parse_overworld_def read_direction_def intro!: returns_intros)

lemma parse_if_symbols_returns:
  "(list_all (has_symbol t) required \<Longrightarrow> returns (parser m t)) \<Longrightarrow> returns (parse_if_symbols parser m t required)"
  by (auto simp: parse_if_symbols_def list_ex_iff list_all_iff intro!: returns_intros)

lemma party_required_returns [returns_intros]:
  "returns (party_required_symbols m t)" "returns (bag_required_symbols m t)"
  by (auto simp: party_required_symbols_def bag_required_symbols_def intro!: returns_intros)

lemma party_required_enough:
  "party_required_symbols m t = Inr req \<Longrightarrow> returns (parse_if_symbols parse_party m t req)"
  by (auto simp: party_required_symbols_def result_simps split: if_splits
      intro!: parse_if_symbols_returns parse_party_returns)

lemma bag_required_enough:
  "bag_required_symbols m t = Inr req \<Longrightarrow> returns (parse_if_symbols parse_bag m t req)"
  by (auto simp: bag_required_symbols_def result_simps split: if_splits
      intro!: parse_if_symbols_returns parse_bag_returns)

lemma bcd_invalid_returns [returns_intros]: "returns (bcd_invalid_from m base is)"
  by (induction "is") (auto intro!: returns_intros)

lemma build_validity_returns [returns_intros]: "returns (build_validity m t c)"
  by (auto simp: build_validity_def mark_invalid_values_def mark_count_def mark_progress_def
      money_has_invalid_bcd_def intro!: returns_intros)

lemma parse_game_state_returns: "returns (parse_game_state m t)"
proof -
  have "returns (parse_if_symbols parse_overworld m t (REQUIRED_SYMBOLS OVERWORLD))"
    "returns (parse_if_symbols parse_menu m t (REQUIRED_SYMBOLS MENU))"
    "returns (parse_if_symbols parse_text m t (REQUIRED_SYMBOLS TEXT))"
    "returns (parse_if_symbols (\<lambda>m t. parse_battle m t None None None) m t (REQUIRED_SYMBOLS BATTLE))"
    "returns (parse_if_symbols parse_progress m t (REQUIRED_SYMBOLS PROGRESS))"
    by (auto simp: REQUIRED_SYMBOLS_def intro!: parse_if_symbols_returns parse_overworld_returns parse_menu_returns
        parse_text_returns parse_battle_returns parse_progress_returns)
  then show ?thesis
    unfolding parse_game_state_def
    by (auto intro!: returns_intros party_required_enough bag_required_enough)
qed

end

text \<open>
  The aggregate parser never raises: for every symbol table, complete, partial or empty, and every
  content of the memory, flat or banked, it returns a snapshot.
\<close>

theorem parse_game_state_total:
  "(\<exists>g. parse_game_state (flat_store f) t = Inr g)
   \<and> (\<exists>g. parse_game_state (cgb_store mapped banks) t = Inr g)"
  using flat.parse_game_state_returns cgb.parse_game_state_returns by (simp add: returns_def)

subsection \<open>What the validity record means\<close>

lemma mark_empty:
  "mark_both cond paths ms = ([], []) \<Longrightarrow> ms = ([], []) \<and> (cond \<longrightarrow> paths = [])"
  "mark_invalid_only cond path ms = ([], []) \<Longrightarrow> ms = ([], []) \<and> \<not> cond"
  "mark_unknown_only cond paths ms = ([], []) \<Longrightarrow> ms = ([], []) \<and> (cond \<longrightarrow> paths = [])"
  by (cases ms; auto simp: mark_both_def mark_invalid_only_def mark_unknown_only_def split: if_splits)+

lemma mark_both_False [simp]: "mark_both False paths ms = ms"
  by (simp add: mark_both_def)

lemma mark_step_empty:
  "mark_text text ms = ([], []) \<Longrightarrow> ms = ([], []) \<and> (\<forall>s. text = Some s \<longrightarrow>
     text_dest_valid s \<noteq> Some False \<and> suppress_prompt_wait_valid s \<noteq> Some False \<and> dest_in_wram_tilemap s \<noteq> None)"
  "mark_menu menu ms = ([], []) \<Longrightarrow> ms = ([], []) \<and> (\<forall>s. menu = Some s \<longrightarrow> cursor_valid s = Some True)"
  "mark_overworld ow ms = ([], []) \<Longrightarrow> ms = ([], []) \<and> (\<forall>s. ow = Some s \<longrightarrow> ow_direction s \<noteq> None)"
  "mark_battle battle ms = ([], []) \<Longrightarrow> ms = ([], []) \<and>
     (\<forall>b. battle = Some b \<longrightarrow> bs_kind b \<noteq> None \<and> bs_battle_type b \<noteq> None)"
  "mark_bag bag ms = ([], []) \<Longrightarrow> ms = ([], []) \<and> (\<forall>b. bag = Some b \<longrightarrow> bag_valid b = Some True)"
  "mark_party party ms = ([], []) \<Longrightarrow> ms = ([], []) \<and>
     (\<forall>p. party = Some p \<longrightarrow> (\<forall>mon \<in> set (party_mons p). status_is_valid (mon_status mon)))"
  by (auto simp: mark_text_def mark_menu_def mark_overworld_def mark_battle_def mark_bag_def mark_party_def
      Let_def list_ex_iff status_is_unknown_def dest!: mark_empty split: option.splits if_splits)

lemma mark_count_empty:
  "mark_count m t name limit paths ms = Inr ([], []) \<Longrightarrow> paths \<noteq> [] \<Longrightarrow>
     ms = ([], []) \<and> (\<forall>v. has_symbol t name \<and> read_u8 m t name = Inr v \<longrightarrow> v \<le> limit)"
  by (auto simp: mark_count_def result_simps dest!: mark_empty split: if_splits)

lemma mark_progress_empty:
  "mark_progress m t pr ms = Inr ([], []) \<Longrightarrow> ms = ([], [])"
  by (auto simp: mark_progress_def result_simps dest!: mark_empty mark_count_empty split: if_splits)

text \<open>Which entries of the registry the scan reports, and which symbols it lists.\<close>

definition field_unknown :: "symbol_table \<Rightarrow> 'a components_scheme \<Rightarrow> string \<times> string list \<Rightarrow> bool" where
  "field_unknown t c f \<longleftrightarrow> component_missing c (component_for_path (fst f))
     \<or> \<not> field_not_applicable (fst f) c \<and> \<not> list_ex (has_symbol t) (snd f)"

definition field_missing :: "symbol_table \<Rightarrow> 'a components_scheme \<Rightarrow> string \<times> string list \<Rightarrow> bool" where
  "field_missing t c f \<longleftrightarrow> \<not> list_ex (has_symbol t) (snd f)
     \<and> (component_missing c (component_for_path (fst f)) \<or> \<not> field_not_applicable (fst f) c)"

lemma scan_fields_spec:
  "scan_fields t c fs (u, mi) =
     (u @ map fst (filter (field_unknown t c) fs), mi @ concat (map snd (filter (field_missing t c) fs)))"
  by (induction fs arbitrary: u mi) (auto simp: field_unknown_def field_missing_def Let_def)

lemma set_sorted_set [simp]: "set (sorted_set xs) = set xs"
  by (simp add: sorted_set_def)

lemma sorted_set_sorted: "sorted (sorted_set xs) \<and> distinct (sorted_set xs)"
  by (simp add: sorted_set_def)

lemma parse_game_state_validity:
  assumes "parse_game_state m t = Inr g"
  shows "\<exists>c. build_validity m t c = Inr (validity g)
    \<and> c = \<lparr>c_overworld = c_overworld g, c_menu = c_menu g, c_text = c_text g, c_battle = c_battle g,
          c_party = c_party g, c_bag = c_bag g, c_progress = c_progress g\<rparr>"
  using assms by (auto simp: parse_game_state_def result_simps Let_def)

lemma components_functions_cong:
  assumes "c = \<lparr>c_overworld = c_overworld g, c_menu = c_menu g, c_text = c_text g, c_battle = c_battle g,
          c_party = c_party g, c_bag = c_bag g, c_progress = c_progress g\<rparr>"
  shows "field_unknown t c = field_unknown t g" "field_missing t c = field_missing t g"
    "mark_invalid_values m t c = mark_invalid_values m t g"
  using assms
  by (auto simp: fun_eq_iff field_unknown_def field_missing_def component_missing_def field_not_applicable_def
      mark_invalid_values_def)

lemma validity_parts:
  assumes "parse_game_state m t = Inr g"
  obtains unknown invalid where
    "mark_invalid_values m t g (map fst (filter (field_unknown t g) FIELD_SOURCES), []) = Inr (unknown, invalid)"
    "v_unknown (validity g) = sorted_set unknown" "v_invalid (validity g) = sorted_set invalid"
    "v_missing (validity g) = sorted_set (concat (map snd (filter (field_missing t g) FIELD_SOURCES)))"
    "v_is_valid (validity g) \<Longrightarrow> unknown = [] \<and> invalid = []"
proof -
  from parse_game_state_validity [OF assms] obtain c where
    b: "build_validity m t c = Inr (validity g)" and
    c: "c = \<lparr>c_overworld = c_overworld g, c_menu = c_menu g, c_text = c_text g, c_battle = c_battle g,
          c_party = c_party g, c_bag = c_bag g, c_progress = c_progress g\<rparr>"
    by blast
  note cong = components_functions_cong [OF c]
  from b obtain unknown invalid where r:
    "mark_invalid_values m t g (map fst (filter (field_unknown t g) FIELD_SOURCES), []) = Inr (unknown, invalid)"
    and v: "validity g = \<lparr>v_status = (if filter (\<lambda>p. p \<notin> set unknown \<and> p \<notin> set invalid) (map fst FIELD_SOURCES) = []
              then STATE_UNKNOWN else if unknown \<noteq> [] \<or> invalid \<noteq> [] then STATE_PARTIAL else STATE_VALID),
            v_missing = sorted_set (concat (map snd (filter (field_missing t g) FIELD_SOURCES))),
            v_unknown = sorted_set unknown, v_invalid = sorted_set invalid\<rparr>"
    unfolding build_validity_def Let_def scan_fields_spec append_Nil prod.case cong
    by (auto simp: rbind_eq_Inr_iff simp del: if_split)
  show thesis
    using r v by (intro that [of unknown invalid]) (auto simp: v_is_valid_def split: if_splits)
qed

lemma mark_invalid_values_empty:
  assumes "mark_invalid_values m t c (u, []) = Inr ([], [])"
  shows "u = []"
    "c_text c = Some s \<Longrightarrow> text_dest_valid s \<noteq> Some False \<and> suppress_prompt_wait_valid s \<noteq> Some False \<and> dest_in_wram_tilemap s \<noteq> None"
    "c_menu c = Some s' \<Longrightarrow> cursor_valid s' = Some True"
    "c_overworld c = Some ow \<Longrightarrow> ow_direction ow \<noteq> None"
    "c_battle c = Some b \<Longrightarrow> bs_kind b \<noteq> None \<and> bs_battle_type b \<noteq> None"
    "c_bag c = Some bg \<Longrightarrow> bag_valid bg = Some True"
    "c_party c = Some p \<Longrightarrow> \<forall>mon \<in> set (party_mons p). status_is_valid (mon_status mon)"
    "has_symbol t ''wPartyCount'' \<Longrightarrow> read_u8 m t ''wPartyCount'' = Inr n \<Longrightarrow> n \<le> 6"
proof -
  let ?ms = "mark_party (c_party c) (mark_bag (c_bag c) (mark_battle (c_battle c)
                  (mark_overworld (c_overworld c) (mark_menu (c_menu c) (mark_text (c_text c) (u, []))))))"
  from assms obtain ms2 ms3 where
      1: "mark_count m t ''wPartyCount'' 6 [''party.count'', ''party.mons''] ?ms = Inr ms2" and
      2: "mark_count m t ''wNumBagItems'' 20 [''bag.count'', ''bag.stacks''] ms2 = Inr ms3" and
      3: "mark_progress m t (c_progress c) ms3 = Inr ([], [])"
    unfolding mark_invalid_values_def Let_def rbind_eq_Inr_iff by blast
  have e3: "ms3 = ([], [])" using mark_progress_empty [OF 3] .
  have e2: "ms2 = ([], [])" using 2 mark_count_empty unfolding e3 by blast
  note e = mark_count_empty [OF 1 [unfolded e2]]
  note p = mark_step_empty(6) [OF conjunct1 [OF e]]
  note b = mark_step_empty(5) [OF conjunct1 [OF p]]
  note a = mark_step_empty(4) [OF conjunct1 [OF b]]
  note o' = mark_step_empty(3) [OF conjunct1 [OF a]]
  note me = mark_step_empty(2) [OF conjunct1 [OF o']]
  note te = mark_step_empty(1) [OF conjunct1 [OF me]]
  show "u = []" using te by simp
  show "c_text c = Some s \<Longrightarrow> text_dest_valid s \<noteq> Some False \<and> suppress_prompt_wait_valid s \<noteq> Some False \<and> dest_in_wram_tilemap s \<noteq> None"
    using te by simp
  show "c_menu c = Some s' \<Longrightarrow> cursor_valid s' = Some True" using me by simp
  show "c_overworld c = Some ow \<Longrightarrow> ow_direction ow \<noteq> None" using o' by simp
  show "c_battle c = Some b \<Longrightarrow> bs_kind b \<noteq> None \<and> bs_battle_type b \<noteq> None" using a by simp
  show "c_bag c = Some bg \<Longrightarrow> bag_valid bg = Some True" using b by simp
  show "c_party c = Some p \<Longrightarrow> \<forall>mon \<in> set (party_mons p). status_is_valid (mon_status mon)" using p by simp
  show "has_symbol t ''wPartyCount'' \<Longrightarrow> read_u8 m t ''wPartyCount'' = Inr n \<Longrightarrow> n \<le> 6"
    using e by simp
qed

lemma mark_grows:
  "set (fst ms) \<subseteq> set (fst (mark_both b ps ms))"
  "set (fst ms) \<subseteq> set (fst (mark_invalid_only b q ms))"
  "set (fst ms) \<subseteq> set (fst (mark_unknown_only b ps ms))"
  by (auto simp: mark_both_def mark_invalid_only_def mark_unknown_only_def)

lemma mark_step_grows:
  "set (fst ms) \<subseteq> set (fst (mark_text te ms))" "set (fst ms) \<subseteq> set (fst (mark_menu me ms))"
  "set (fst ms) \<subseteq> set (fst (mark_overworld ow ms))" "set (fst ms) \<subseteq> set (fst (mark_battle b ms))"
  "set (fst ms) \<subseteq> set (fst (mark_bag bg ms))" "set (fst ms) \<subseteq> set (fst (mark_party p ms))"
  unfolding mark_text_def mark_menu_def mark_overworld_def mark_battle_def mark_bag_def mark_party_def Let_def
  by (auto split: option.splits if_splits intro: mark_grows [THEN subsetD])

lemma mark_count_grows: "mark_count m t n l ps ms = Inr ms' \<Longrightarrow> set (fst ms) \<subseteq> set (fst ms')"
  by (auto simp: mark_count_def result_simps mark_both_def split: if_splits)

lemma mark_progress_grows: "mark_progress m t pr ms = Inr ms' \<Longrightarrow> set (fst ms) \<subseteq> set (fst ms')"
  unfolding mark_progress_def
  by (auto simp: result_simps mark_both_def split: if_splits dest!: mark_count_grows)

lemma mark_invalid_values_grows:
  assumes "mark_invalid_values m t c ms = Inr ms'"
  shows "set (fst ms) \<subseteq> set (fst ms')"
proof -
  let ?ms = "mark_party (c_party c) (mark_bag (c_bag c) (mark_battle (c_battle c)
                  (mark_overworld (c_overworld c) (mark_menu (c_menu c) (mark_text (c_text c) ms)))))"
  from assms obtain ms2 ms3 where
      "mark_count m t ''wPartyCount'' 6 [''party.count'', ''party.mons''] ?ms = Inr ms2"
      "mark_count m t ''wNumBagItems'' 20 [''bag.count'', ''bag.stacks''] ms2 = Inr ms3"
      "mark_progress m t (c_progress c) ms3 = Inr ms'"
    unfolding mark_invalid_values_def Let_def rbind_eq_Inr_iff by blast
  note later = mark_count_grows [OF this(1)] mark_count_grows [OF this(2)] mark_progress_grows [OF this(3)]
  have "set (fst ms) \<subseteq> set (fst ?ms)"
    by (intro order_trans [OF mark_step_grows(1) order_trans [OF mark_step_grows(2) order_trans [OF mark_step_grows(3)
        order_trans [OF mark_step_grows(4) order_trans [OF mark_step_grows(5) mark_step_grows(6)]]]]])
  with later show ?thesis by (meson order_trans)
qed

lemma all_components_present:
  assumes "\<forall>f \<in> set FIELD_SOURCES. \<not> component_missing c (component_for_path (fst f))"
  shows "c_overworld c \<noteq> None" "c_menu c \<noteq> None" "c_text c \<noteq> None" "c_battle c \<noteq> None"
    "c_party c \<noteq> None" "c_bag c \<noteq> None" "c_progress c \<noteq> None"
proof -
  have "\<forall>n \<in> {''overworld'', ''menu'', ''text'', ''battle'', ''party'', ''bag'', ''progress''}.
      n \<in> set (map (component_for_path \<circ> fst) FIELD_SOURCES)"
    by code_simp
  then have "\<not> component_missing c ''overworld''" "\<not> component_missing c ''menu''"
    "\<not> component_missing c ''text''" "\<not> component_missing c ''battle''" "\<not> component_missing c ''party''"
    "\<not> component_missing c ''bag''" "\<not> component_missing c ''progress''"
    using assms by auto
  then show "c_overworld c \<noteq> None" "c_menu c \<noteq> None" "c_text c \<noteq> None" "c_battle c \<noteq> None"
    "c_party c \<noteq> None" "c_bag c \<noteq> None" "c_progress c \<noteq> None"
    by (simp_all add: component_missing_def)
qed

text \<open>
  C36. A snapshot that calls itself valid is complete and decodable: all seven components were parsed,
  every registered field has one of its symbols loaded (or does not apply, for an empty party or bag),
  and no value is outside its encoding - the facing direction, the battle kind and type, the menu
  cursor, the text destination, the bag layout and every member's status byte are all recognised.
\<close>

theorem valid_snapshot_is_decoded:
  assumes "parse_game_state m t = Inr g" and "v_is_valid (validity g)"
  shows "(\<exists>ow me te b p bg pr. c_overworld g = Some ow \<and> c_menu g = Some me \<and> c_text g = Some te
      \<and> c_battle g = Some b \<and> c_party g = Some p \<and> c_bag g = Some bg \<and> c_progress g = Some pr
      \<and> ow_direction ow \<noteq> None \<and> cursor_valid me = Some True \<and> dest_in_wram_tilemap te \<noteq> None
      \<and> bs_kind b \<noteq> None \<and> bs_battle_type b \<noteq> None \<and> bag_valid bg = Some True
      \<and> (\<forall>mon \<in> set (party_mons p). status_is_valid (mon_status mon)))
    \<and> (\<forall>(path, sources) \<in> set FIELD_SOURCES.
         field_not_applicable path g \<or> (\<exists>n \<in> set sources. has_symbol t n))"
proof -
  obtain unknown invalid where
    "mark_invalid_values m t g (map fst (filter (field_unknown t g) FIELD_SOURCES), []) = Inr (unknown, invalid)"
    and "unknown = [] \<and> invalid = []"
    using assms by (auto elim!: validity_parts)
  with assms(2) have r: "mark_invalid_values m t g (map fst (filter (field_unknown t g) FIELD_SOURCES), []) = Inr ([], [])"
    by simp
  note e = mark_invalid_values_empty [OF r]
  from e(1) have none: "\<forall>f \<in> set FIELD_SOURCES. \<not> field_unknown t g f"
    by (simp add: filter_empty_conv)
  then have "\<forall>f \<in> set FIELD_SOURCES. \<not> component_missing g (component_for_path (fst f))"
    by (simp add: field_unknown_def)
  note present = all_components_present [OF this]
  have "\<forall>(path, sources) \<in> set FIELD_SOURCES. field_not_applicable path g \<or> (\<exists>n \<in> set sources. has_symbol t n)"
    using none by (auto simp: field_unknown_def list_ex_iff)
  moreover from present obtain ow me te b p bg pr where c: "c_overworld g = Some ow" "c_menu g = Some me"
    "c_text g = Some te" "c_battle g = Some b" "c_party g = Some p" "c_bag g = Some bg" "c_progress g = Some pr"
    by auto
  ultimately show ?thesis
    using e(2) [OF c(3)] e(3) [OF c(2)] e(4) [OF c(1)] e(5) [OF c(4)] e(6) [OF c(6)] e(7) [OF c(5)]
    by (simp add: c)
qed

text \<open>A complete table over a memory of zeros with the bag's terminator.\<close>

definition complete_symbols :: symbol_table where
  "complete_symbols = \<lparr>by_name = map (\<lambda>n. (n, \<lparr>sym_name = n, sym_bank = 0,
       sym_addr = (if n = ''wBagItems'' then 5 else 0)\<rparr>)) (concat (map snd FIELD_SOURCES)), by_addr = []\<rparr>"

definition quiet_memory :: memory where
  "quiet_memory = flat_store (\<lambda>a. if a = 5 then 255 else 0)"

theorem valid_snapshot_is_decoded_witness:
  "case parse_game_state quiet_memory complete_symbols of
     Inl e \<Rightarrow> False
   | Inr g \<Rightarrow> v_is_valid (validity g) \<and> (\<exists>b. c_battle g = Some b \<and> bs_kind b \<noteq> None)"
proof -
  have "case parse_game_state quiet_memory complete_symbols of Inl e \<Rightarrow> False | Inr g \<Rightarrow> v_is_valid (validity g)"
    by code_simp
  then obtain g where "parse_game_state quiet_memory complete_symbols = Inr g" "v_is_valid (validity g)"
    by (cases "parse_game_state quiet_memory complete_symbols") auto
  with valid_snapshot_is_decoded [OF this] show ?thesis by auto
qed

text \<open>
  Nothing is silently dropped: the missing symbols are reported sorted, without duplicates and are
  all really absent from the table; every field of a component that could not be parsed is reported
  unknown, and so is every field that applies and has none of its symbols loaded, whose symbols are
  then listed.
\<close>

theorem missing_symbols_reported:
  assumes "parse_game_state m t = Inr g"
  shows "sorted (v_missing (validity g)) \<and> distinct (v_missing (validity g))
    \<and> (\<forall>n \<in> set (v_missing (validity g)). \<not> has_symbol t n)
    \<and> (\<forall>(path, sources) \<in> set FIELD_SOURCES.
         (component_missing g (component_for_path path) \<longrightarrow> path \<in> set (v_unknown (validity g)))
         \<and> (\<not> field_not_applicable path g \<and> (\<forall>n \<in> set sources. \<not> has_symbol t n) \<longrightarrow>
              path \<in> set (v_unknown (validity g)) \<and> set sources \<subseteq> set (v_missing (validity g))))"
proof -
  obtain unknown invalid where
    r: "mark_invalid_values m t g (map fst (filter (field_unknown t g) FIELD_SOURCES), []) = Inr (unknown, invalid)"
    and u: "v_unknown (validity g) = sorted_set unknown"
    and mi: "v_missing (validity g) = sorted_set (concat (map snd (filter (field_missing t g) FIELD_SOURCES)))"
    using assms by (rule validity_parts)
  have "set (map fst (filter (field_unknown t g) FIELD_SOURCES)) \<subseteq> set unknown"
    using mark_invalid_values_grows [OF r] by simp
  then have "path \<in> set (v_unknown (validity g))" if "(path, sources) \<in> set FIELD_SOURCES" "field_unknown t g (path, sources)"
    for path sources
    using that u by force
  moreover have "set sources \<subseteq> set (v_missing (validity g))"
    if "(path, sources) \<in> set FIELD_SOURCES" "field_missing t g (path, sources)" for path sources
    using that mi by force
  ultimately show ?thesis
    using sorted_set_sorted mi
    by (auto simp: field_unknown_def field_missing_def list_ex_iff)
qed

theorem missing_symbols_reported_witness:
  "case parse_game_state quiet_memory (symbol_table_of []) of
     Inl e \<Rightarrow> False
   | Inr g \<Rightarrow> ''wIsInBattle'' \<in> set (v_missing (validity g)) \<and> ''battle_active'' \<in> set (v_unknown (validity g))"
proof -
  let ?t = "symbol_table_of []"
  obtain g where g: "parse_game_state quiet_memory ?t = Inr g"
    using flat.parse_game_state_returns by (auto simp: quiet_memory_def returns_def)
  have f: "(''battle_active'', [''wIsInBattle'']) \<in> set FIELD_SOURCES"
    by code_simp
  have "\<not> has_symbol ?t ''wIsInBattle''"
    by code_simp
  with missing_symbols_reported [OF g] bspec [OF conjunct2 [OF conjunct2 [OF conjunct2 [OF missing_symbols_reported [OF g]]]] f]
  show ?thesis by (simp add: g field_not_applicable_def)
qed

subsection \<open>The aggregate battle flag\<close>

text \<open>
  The aggregate battle flag is fail-closed: it is given only for a decoded battle byte of 0, 1 or 2,
  and then says exactly whether that byte is not zero; with the symbol missing or any other byte
  it is unknown.
\<close>

theorem aggregate_battle_active_sound:
  assumes "parse_game_state m t = Inr g" and "gs_battle_active g = Some b"
  shows "\<exists>v. read_u8 m t ''wIsInBattle'' = Inr v \<and> 0 \<le> v \<and> v \<le> 2 \<and> b = (v \<noteq> 0)"
proof -
  obtain bs k where bs: "c_battle g = Some bs" "bs_kind bs = Some k" "b = (k \<noteq> NO_BATTLE)"
    using assms(2) by (auto simp: gs_battle_active_def split: option.splits if_splits)
  have "\<exists>r. parse_if_symbols (\<lambda>m t. parse_battle m t None None None) m t (REQUIRED_SYMBOLS BATTLE) = Inr r \<and> c_battle g = r"
    using assms(1) by (auto simp: parse_game_state_def result_simps Let_def)
  with bs(1) have p: "parse_battle m t None None None = Inr bs"
    by (auto simp: parse_if_symbols_def result_simps split: if_splits)
  obtain v where "read_u8 m t ''wIsInBattle'' = Inr (raw_is_in_battle bs)"
      "bs_kind bs = battle_kind_of (raw_is_in_battle bs)"
    using p by (rule parse_battle_phase)
  with bs(2,3) show ?thesis
    by (auto simp: battle_kind_of_def split: if_splits)
qed

theorem aggregate_battle_active_sound_witness:
  "\<exists>v. read_u8 quiet_memory complete_symbols ''wIsInBattle'' = Inr v \<and> 0 \<le> v \<and> v \<le> 2 \<and> False = (v \<noteq> 0)"
proof -
  have "case parse_game_state quiet_memory complete_symbols of Inl e \<Rightarrow> False | Inr g \<Rightarrow> gs_battle_active g = Some False"
    by code_simp
  then obtain g where "parse_game_state quiet_memory complete_symbols = Inr g" "gs_battle_active g = Some False"
    by (cases "parse_game_state quiet_memory complete_symbols") auto
  from aggregate_battle_active_sound [OF this] show ?thesis .
qed

end
