(* ===== verification/Party_Records.thy ===== *)
theory Party_Records
  imports Party_State
begin

text \<open>
  Raw party records and the exchange audit (\<open>state/party.py\<close>, lines 456 to 786). The digest
  function is a parameter; messages are carried as constructors, not as formatted text.
\<close>

unbundle bit_operations_syntax

record party_record =
  rec_slot :: int
  rec_raw :: "int list"
  rec_digest :: string
  rec_species :: int
  rec_level :: int

definition record_size :: "party_record \<Rightarrow> int" where
  "record_size r = int (length (rec_raw r))"

record party_records =
  recs :: "party_record list"
  recs_count :: "int option"
  recs_count_raw :: "int option"
  recs_count_valid :: "bool option"
  recs_valid :: "bool option"
  missing_symbols :: "string list"

definition recs_is_unknown :: "party_records \<Rightarrow> bool" where
  "recs_is_unknown rs \<longleftrightarrow> recs_valid rs = None"

definition record_at :: "party_records \<Rightarrow> pyval \<Rightarrow> party_record option" where
  "record_at rs slot =
     (case slot of
        PyInt n \<Rightarrow> if n < 0 \<or> n \<ge> int (length (recs rs)) then None else Some (recs rs ! nat n)
      | _ \<Rightarrow> None)"




subsection \<open>The exchange audit\<close>

datatype reason =
    NotAnIndex string
  | ExceedsParty string int
  | OutsideParty string int int
  | RecordsUnavailable string "string list"
  | CountOutsideInvariant string
  | CheckDetail string

datatype audit_status = Exact | Mismatch | Unknown | OutOfRange

record exchange_check =
  check_name :: string
  check_status :: "bool option"
  check_detail :: string

record exchange_audit =
  audit_valid :: "bool option"
  audit_status :: audit_status
  audit_checks :: "exchange_check list"
  audit_reasons :: "reason list"

definition is_exact :: "exchange_audit \<Rightarrow> bool" where
  "is_exact a \<longleftrightarrow> audit_valid a = Some True"

definition audit_check :: "exchange_audit \<Rightarrow> string \<Rightarrow> bool option" where
  "audit_check a name =
     (case find (\<lambda>c. check_name c = name) (audit_checks a) of None \<Rightarrow> None | Some c \<Rightarrow> check_status c)"

definition slot_problem :: "string \<Rightarrow> party_records \<Rightarrow> pyval \<Rightarrow> reason option" where
  "slot_problem name rs slot =
     (case slot of
        PyInt n \<Rightarrow>
          if n < 0 then Some (NotAnIndex name)
          else if n \<ge> MAX_PARTY_SLOTS then Some (ExceedsParty name n)
          else if recs_count rs \<noteq> None \<and> recs_count_valid rs = Some True \<and> n \<ge> the (recs_count rs)
            then Some (OutsideParty name n (the (recs_count rs)))
          else if recs_valid rs = Some True \<and> n \<ge> int (length (recs rs))
            then Some (OutsideParty name n (int (length (recs rs))))
          else None
      | _ \<Rightarrow> Some (NotAnIndex name))"

definition availability_problem :: "string \<Rightarrow> party_records \<Rightarrow> reason option" where
  "availability_problem name rs =
     (case recs_valid rs of
        None \<Rightarrow> Some (RecordsUnavailable name (if missing_symbols rs = [] then [''symbols''] else missing_symbols rs))
      | Some False \<Rightarrow> Some (CountOutsideInvariant name)
      | Some True \<Rightarrow> None)"

fun first_problem :: "('a \<Rightarrow> reason option) \<Rightarrow> 'a list \<Rightarrow> reason option" where
  "first_problem f [] = None"
| "first_problem f (x # xs) = (case f x of Some r \<Rightarrow> Some r | None \<Rightarrow> first_problem f xs)"

definition other_records_unchanged :: "party_records \<Rightarrow> party_records \<Rightarrow> nat \<Rightarrow> bool" where
  "other_records_unchanged before aft slot =
     (if length (recs before) \<noteq> length (recs aft) then False
      else let survivors = take slot (recs before) @ drop (slot + 1) (recs before)
           in list_all2 (\<lambda>old new. rec_raw old = rec_raw new) survivors (butlast (recs aft)))"

definition exchange_checks :: "party_records \<Rightarrow> party_records \<Rightarrow> party_records \<Rightarrow> party_records
    \<Rightarrow> nat \<Rightarrow> nat \<Rightarrow> exchange_check list" where
  "exchange_checks a_before a_after b_before b_after slot_a slot_b =
     (let a_out = recs a_before ! slot_a; a_in = last (recs a_after);
          b_out = recs b_before ! slot_b; b_in = last (recs b_after);
          size_ok = list_all (\<lambda>r. record_size r = PARTY_STRUCT_SIZE)
            (recs a_before @ recs a_after @ recs b_before @ recs b_after);
          swapped = (rec_raw a_in = rec_raw b_out \<and> rec_raw b_in = rec_raw a_out);
          unchanged = (other_records_unchanged a_before a_after slot_a
                       \<and> other_records_unchanged b_before b_after slot_b);
          distinguished = (if rec_species a_out = rec_species b_out
                           then rec_raw a_out \<noteq> rec_raw b_out \<and> swapped else True)
      in [\<lparr>check_name = ''record_size_44'', check_status = Some size_ok,
           check_detail = (if size_ok then '''' else ''a party record is not the 44-byte party_struct size'')\<rparr>,
          \<lparr>check_name = ''intended_slots_swapped'', check_status = Some swapped,
           check_detail = (if swapped then '''' else ''the final slots did not receive the selected outgoing records'')\<rparr>,
          \<lparr>check_name = ''unrelated_records_unchanged'', check_status = Some unchanged,
           check_detail = (if unchanged then '''' else ''surviving records changed or did not compact in order'')\<rparr>,
          \<lparr>check_name = ''same_species_distinguished'', check_status = Some distinguished,
           check_detail = (if distinguished then '''' else ''same-species members were not distinguished by raw record'')\<rparr>])"

definition slot_index :: "pyval \<Rightarrow> nat" where
  "slot_index v = (case v of PyInt n \<Rightarrow> nat n | _ \<Rightarrow> 0)"

definition audit_exact_party_exchange :: "party_records \<Rightarrow> party_records \<Rightarrow> party_records \<Rightarrow> party_records
    \<Rightarrow> pyval \<Rightarrow> pyval \<Rightarrow> exchange_audit" where
  "audit_exact_party_exchange a_before a_after b_before b_after slot_a slot_b =
     (let positions = [(''owner_a_before'', a_before, slot_a), (''owner_a_after'', a_after, slot_a),
                       (''owner_b_before'', b_before, slot_b), (''owner_b_after'', b_after, slot_b)]
      in case first_problem (\<lambda>(name, rs, slot). slot_problem name rs slot) positions of
           Some r \<Rightarrow> \<lparr>audit_valid = Some False, audit_status = OutOfRange, audit_checks = [], audit_reasons = [r]\<rparr>
         | None \<Rightarrow>
             (case first_problem (\<lambda>(name, rs, _). availability_problem name rs) positions of
                Some r \<Rightarrow> \<lparr>audit_valid = None, audit_status = Unknown, audit_checks = [], audit_reasons = [r]\<rparr>
              | None \<Rightarrow>
                  (let checks = exchange_checks a_before a_after b_before b_after (slot_index slot_a) (slot_index slot_b)
                   in if list_all (\<lambda>c. check_status c = Some True) checks
                      then \<lparr>audit_valid = Some True, audit_status = Exact, audit_checks = checks, audit_reasons = []\<rparr>
                      else \<lparr>audit_valid = Some False, audit_status = Mismatch, audit_checks = checks,
                            audit_reasons = map (CheckDetail \<circ> check_detail)
                              (filter (\<lambda>c. check_status c = Some False) checks)\<rparr>)))"

subsection \<open>What an exact audit means\<close>

text \<open>
  The trade of the game on the raw records of one owner: the selected record leaves, the survivors
  close up, and the received record is appended.
\<close>

definition trade_out_in :: "int list list \<Rightarrow> nat \<Rightarrow> int list \<Rightarrow> int list list" where
  "trade_out_in xs slot received = take slot xs @ drop (slot + 1) xs @ [received]"

definition raws :: "party_records \<Rightarrow> int list list" where
  "raws rs = map rec_raw (recs rs)"

lemma trade_spec:
  assumes "slot < length (recs before)" "recs aft \<noteq> []"
  shows "other_records_unchanged before aft slot \<and> rec_raw (last (recs aft)) = received
     \<longleftrightarrow> raws aft = trade_out_in (raws before) slot received"
proof -
  let ?s = "take slot (recs before) @ drop (slot + 1) (recs before)"
  have len: "length ?s = length (recs before) - 1"
    using assms(1) by simp
  have l2: "list_all2 (\<lambda>old new. rec_raw old = rec_raw new) xs ys \<longleftrightarrow> map rec_raw xs = map rec_raw ys" for xs ys
    by (auto simp: list_all2_conv_all_nth list_eq_iff_nth_eq)
  have "raws aft = map rec_raw (butlast (recs aft)) @ [rec_raw (last (recs aft))]"
    using assms(2) unfolding raws_def by (metis append_butlast_last_id list.simps(9) map_append list.map(1))
  then have "raws aft = trade_out_in (raws before) slot received
      \<longleftrightarrow> map rec_raw ?s = map rec_raw (butlast (recs aft)) \<and> rec_raw (last (recs aft)) = received"
    by (auto simp: trade_out_in_def raws_def take_map drop_map)
  moreover have "map rec_raw ?s = map rec_raw (butlast (recs aft)) \<longrightarrow> length (recs before) = length (recs aft)"
  proof
    assume "map rec_raw ?s = map rec_raw (butlast (recs aft))"
    then have "length ?s = length (butlast (recs aft))" by (rule map_eq_imp_length_eq)
    then have "length (recs before) - 1 = length (recs aft) - 1" by (simp only: len length_butlast)
    moreover have "0 < length (recs aft)" using assms(2) by simp
    ultimately show "length (recs before) = length (recs aft)" using assms(1) by linarith
  qed
  moreover have "other_records_unchanged before aft slot \<longleftrightarrow>
      length (recs before) = length (recs aft) \<and> map rec_raw ?s = map rec_raw (butlast (recs aft))"
    by (simp only: other_records_unchanged_def Let_def l2) simp
  ultimately show ?thesis by blast
qed

definition slot_in_range :: "party_records \<Rightarrow> int \<Rightarrow> bool" where
  "slot_in_range rs n \<longleftrightarrow> 0 \<le> n \<and> n < 6 \<and> n < int (length (recs rs))
     \<and> (recs_count rs \<noteq> None \<and> recs_count_valid rs = Some True \<longrightarrow> n < the (recs_count rs))"

lemma slot_problem_None:
  "recs_valid rs = Some True \<Longrightarrow> slot_problem name rs v = None \<longleftrightarrow> (\<exists>n. v = PyInt n \<and> slot_in_range rs n)"
  by (cases v) (auto simp: slot_problem_def slot_in_range_def MAX_PARTY_SLOTS_def)

lemma availability_None: "availability_problem name rs = None \<longleftrightarrow> recs_valid rs = Some True"
  by (auto simp: availability_problem_def split: option.splits bool.splits)

text \<open>
  C35. The audit answers \<open>exact\<close> precisely when the two owners really traded: all four observations are
  valid, both slots are occupied before and after, every record has its 44 bytes, each owner's new
  party is the old one without the selected record, closed up, with the other owner's record
  appended, and two members of the same species differ in their records.
\<close>

theorem audit_exact_iff_trade:
  "audit_status (audit_exact_party_exchange a a' b b' (PyInt i) (PyInt j)) = Exact \<longleftrightarrow>
     (\<forall>rs \<in> {a, a', b, b'}. recs_valid rs = Some True \<and> (\<forall>r \<in> set (recs rs). length (rec_raw r) = 44))
     \<and> slot_in_range a i \<and> slot_in_range a' i \<and> slot_in_range b j \<and> slot_in_range b' j
     \<and> raws a' = trade_out_in (raws a) (nat i) (rec_raw (recs b ! nat j))
     \<and> raws b' = trade_out_in (raws b) (nat j) (rec_raw (recs a ! nat i))
     \<and> (rec_species (recs a ! nat i) = rec_species (recs b ! nat j)
          \<longrightarrow> rec_raw (recs a ! nat i) \<noteq> rec_raw (recs b ! nat j))"
proof (cases "\<forall>rs \<in> {a, a', b, b'}. recs_valid rs = Some True")
  case False
  then show ?thesis
    by (auto simp: audit_exact_party_exchange_def Let_def availability_None split: option.splits)
next
  case True
  show ?thesis
  proof (cases "slot_in_range a i \<and> slot_in_range a' i \<and> slot_in_range b j \<and> slot_in_range b' j")
    case False
    with True show ?thesis
      by (auto simp: audit_exact_party_exchange_def Let_def slot_problem_None split: option.splits)
  next
    case ranges: True
    then have idx: "nat i < length (recs a)" "nat j < length (recs b)" "recs a' \<noteq> []" "recs b' \<noteq> []"
      by (auto simp: slot_in_range_def)
    have p: "slot_problem n1 a (PyInt i) = None" "slot_problem n2 a' (PyInt i) = None"
        "slot_problem n3 b (PyInt j) = None" "slot_problem n4 b' (PyInt j) = None"
        "availability_problem n1 a = None" "availability_problem n2 a' = None"
        "availability_problem n3 b = None" "availability_problem n4 b' = None" for n1 n2 n3 n4
      using True ranges by (auto simp: slot_problem_None availability_None)
    have "audit_status (audit_exact_party_exchange a a' b b' (PyInt i) (PyInt j)) = Exact \<longleftrightarrow>
        list_all (\<lambda>c. check_status c = Some True) (exchange_checks a a' b b' (nat i) (nat j))"
      by (simp add: audit_exact_party_exchange_def Let_def p slot_index_def)
    also have "\<dots> \<longleftrightarrow> (\<forall>rs \<in> {a, a', b, b'}. \<forall>r \<in> set (recs rs). length (rec_raw r) = 44)
        \<and> (other_records_unchanged a a' (nat i) \<and> rec_raw (last (recs a')) = rec_raw (recs b ! nat j))
        \<and> (other_records_unchanged b b' (nat j) \<and> rec_raw (last (recs b')) = rec_raw (recs a ! nat i))
        \<and> (rec_species (recs a ! nat i) = rec_species (recs b ! nat j)
             \<longrightarrow> rec_raw (recs a ! nat i) \<noteq> rec_raw (recs b ! nat j))"
      by (auto simp: exchange_checks_def Let_def list_all_iff record_size_def PARTY_STRUCT_SIZE_def)
    finally show ?thesis
      using True ranges unfolding trade_spec [OF idx(1,3)] trade_spec [OF idx(2,4)] by auto
  qed
qed

text \<open>Two one-member parties of different species that trade their only member.\<close>

definition sample_record :: "int \<Rightarrow> party_record" where
  "sample_record species =
     \<lparr>rec_slot = 0, rec_raw = species # replicate 43 1, rec_digest = [], rec_species = species, rec_level = 1\<rparr>"

definition sample_records :: "int \<Rightarrow> party_records" where
  "sample_records species =
     \<lparr>recs = [sample_record species], recs_count = Some 1, recs_count_raw = Some 1, recs_count_valid = Some True,
      recs_valid = Some True, missing_symbols = []\<rparr>"

theorem audit_exact_iff_trade_witness:
  "audit_status (audit_exact_party_exchange (sample_records 7) (sample_records 9)
     (sample_records 9) (sample_records 7) (PyInt 0) (PyInt 0)) = Exact"
  unfolding audit_exact_iff_trade
  by (simp add: sample_records_def sample_record_def slot_in_range_def raws_def trade_out_in_def)

subsection \<open>Two readers of a party\<close>





end
