(* ===== verification/Time_Queue.thy ===== *)
theory Time_Queue
  imports Prelude "HOL-Library.Multiset"
begin

text \<open>
  The edge queue of the emulated-time coordinator (\<open>link/emulated_time.py\<close>). The code keeps a
  \<open>heapq\<close> of \<open>(at_half_cycle, sequence, edge)\<close> triples and only ever pushes, looks at the least
  element and pops it; sequences are unique, so an edge itself is never compared. The model keeps
  the same elements sorted. The locale states what the coordinator relies on.
\<close>

record timed_edge =
  edge_epoch :: string
  edge_sequence :: int
  edge_at :: int
  edge_payload :: "byte list"

text \<open>The order of the triples.\<close>

definition edge_before :: "timed_edge \<Rightarrow> timed_edge \<Rightarrow> bool" where
  "edge_before a b \<longleftrightarrow> edge_at a < edge_at b \<or> edge_at a = edge_at b \<and> edge_sequence a \<le> edge_sequence b"

fun push_edge :: "timed_edge \<Rightarrow> timed_edge list \<Rightarrow> timed_edge list" where
  "push_edge e [] = [e]"
| "push_edge e (x # xs) = (if edge_before e x then e # x # xs else x # push_edge e xs)"

subsection \<open>The interface\<close>

locale min_queue =
  fixes push :: "'e \<Rightarrow> 'q \<Rightarrow> 'q"
    and content :: "'q \<Rightarrow> 'e list"
    and before :: "'e \<Rightarrow> 'e \<Rightarrow> bool"
  assumes push_content: "mset (content (push e q)) = add_mset e (mset (content q))"
    and push_sorted: "sorted_wrt before (content q) \<Longrightarrow> sorted_wrt before (content (push e q))"
begin

lemma push_set: "set (content (push e q)) = insert e (set (content q))"
  using arg_cong [OF push_content, of set_mset] by simp

lemma push_length: "length (content (push e q)) = Suc (length (content q))"
  using arg_cong [OF push_content, of size] by simp

lemma push_all: "(\<forall>x \<in> set (content (push e q)). P x) \<longleftrightarrow> P e \<and> (\<forall>x \<in> set (content q). P x)"
  by (simp add: push_set)

text \<open>A bound that decreases along the order holds of the whole queue when it holds of its front.\<close>

lemma front_bounds_all:
  fixes f :: "'e \<Rightarrow> int"
  assumes "sorted_wrt before (content q)" "\<And>a b. before a b \<Longrightarrow> f b \<le> f a"
    and "content q \<noteq> []" "f (hd (content q)) \<le> k"
  shows "\<forall>x \<in> set (content q). f x \<le> k"
proof -
  obtain e es where q: "content q = e # es" using assms(3) by (cases "content q") auto
  with assms(1,2,4) show ?thesis by fastforce
qed

lemma pushed_front_bound:
  fixes f :: "'e \<Rightarrow> int"
  assumes "\<forall>x \<in> set (content q). f x \<le> k" "f e \<le> k"
  shows "\<forall>x \<in> set (content (push e q)). f x \<le> k"
  using assms by (simp add: push_all)

end

lemma edge_before_trans: "edge_before a b \<Longrightarrow> edge_before b c \<Longrightarrow> edge_before a c"
  by (auto simp: edge_before_def)

lemma edge_before_other: "\<not> edge_before a b \<Longrightarrow> edge_before b a"
  by (auto simp: edge_before_def)

lemma mset_push_edge: "mset (push_edge e q) = add_mset e (mset q)"
  by (induction q) auto

lemma set_push_edge: "set (push_edge e q) = insert e (set q)"
  using arg_cong [OF mset_push_edge, of set_mset] by simp

lemma sorted_push_edge: "sorted_wrt edge_before q \<Longrightarrow> sorted_wrt edge_before (push_edge e q)"
  by (induction q)
     (auto simp: set_push_edge intro: edge_before_trans dest: edge_before_other)

interpretation edge_heap: min_queue push_edge "\<lambda>q. q" edge_before
  by unfold_locales (simp_all add: mset_push_edge sorted_push_edge)

end
