(* ===== verification/Emulated_Time.thy ===== *)
theory Emulated_Time
  imports Time_Queue
begin

text \<open>
  The emulated-time coordinator (\<open>link/emulated_time.py\<close>): one record of the instance's fields and
  one function per public operation, each with every guard of the code in its order. An operation
  returns either the exception it raises or its result, together with the state it leaves behind; a
  failed check closes the coordinator and keeps the first failure. Arguments are Python values. A
  permit is named by its token when it is the object this instance issued, and is foreign otherwise.
  Waiting (\<open>wait_for_permit\<close>) is not modelled; the notifications have no state.
\<close>

definition QUANTUM_CYCLES :: int where "QUANTUM_CYCLES = 128"
definition MAX_PENDING_EDGES :: nat where "MAX_PENDING_EDGES = 1024"
definition MAX_EDGE_PAYLOAD_BYTES :: nat where "MAX_EDGE_PAYLOAD_BYTES = 4096"

datatype time_error =
    EmulatedTimeError string
  | CoordinatorClosed string

record permit =
  permit_token :: int
  cpu_cycles :: int
  half_cycles :: int
  instruction_cap :: int

datatype permit_ref = Issued int | Foreign

datatype transition_arg =
    NoTransition
  | SpeedTransition pyval pyval
  | NotATransition

record edge_delivery =
  dl_edge :: timed_edge
  delivered_half_cycle :: int
  lateness_half_cycles :: int
  batch_token :: int

record failure_snapshot =
  f_reason :: string
  f_phase :: string
  f_epoch :: "string option"
  f_local :: "int option"
  f_peer :: "int option"
  f_raw :: "int option"
  f_observed_raw :: "int option"
  f_edge_sequence :: "int option"
  f_edge_at :: "int option"
  f_measured_lateness :: "int option"
  f_allowed_lateness :: "int option"
  f_excess :: "int option"
  f_emission_complete :: "int option"

type_synonym episode_key = "string \<times> int \<times> int"

record coord =
  closed :: bool
  cancelled :: bool
  terminal_reason :: "string option"
  failure :: "failure_snapshot option"
  epoch :: string
  raw :: int
  observed_raw :: int
  rate :: int
  rearm :: int
  quantum :: int
  max_lateness :: int
  enforce_completeness :: bool
  local :: int
  peer :: int
  progress_sequence :: int
  pending :: "permit option"
  token :: int
  episode :: "episode_key option"
  episode_open :: bool
  episode_end :: int
  instructions :: int
  last_sequence :: int
  last_edge :: "timed_edge option"
  edges :: "timed_edge list"
  watermark :: int
  watermark_sequence :: int
  pending_delivery :: "int option"
  held_delivery :: "edge_delivery list"
  held_deadline :: "int option"
  delivery_episode :: "episode_key option"

type_synonym 'a outcome = "(time_error + 'a) \<times> coord"

subsection \<open>Argument checks\<close>

definition int_at_least :: "int \<Rightarrow> pyval \<Rightarrow> bool" where
  "int_at_least minimum v \<longleftrightarrow> (case v of PyInt n \<Rightarrow> n \<ge> minimum | _ \<Rightarrow> False)"

definition the_int :: "pyval \<Rightarrow> int" where
  "the_int v = (case v of PyInt n \<Rightarrow> n | _ \<Rightarrow> 0)"

definition is_name :: "pyval \<Rightarrow> bool" where
  "is_name v \<longleftrightarrow> (case v of PyStr s \<Rightarrow> s \<noteq> [] \<and> length s \<le> 256 | _ \<Rightarrow> False)"

definition the_str :: "pyval \<Rightarrow> string" where
  "the_str v = (case v of PyStr s \<Rightarrow> s | _ \<Rightarrow> [])"

definition is_bool :: "pyval \<Rightarrow> bool" where
  "is_bool v \<longleftrightarrow> (case v of PyBool _ \<Rightarrow> True | _ \<Rightarrow> False)"

definition the_bool :: "pyval \<Rightarrow> bool" where
  "the_bool v = (case v of PyBool b \<Rightarrow> b | _ \<Rightarrow> False)"

definition is_payload :: "pyval \<Rightarrow> bool" where
  "is_payload v \<longleftrightarrow> (case v of PyBytes bs \<Rightarrow> length bs \<le> MAX_EDGE_PAYLOAD_BYTES | _ \<Rightarrow> False)"

definition the_bytes :: "pyval \<Rightarrow> byte list" where
  "the_bytes v = (case v of PyBytes bs \<Rightarrow> bs | _ \<Rightarrow> [])"

text \<open>Python compares strings by code points.\<close>

fun str_le :: "string \<Rightarrow> string \<Rightarrow> bool" where
  "str_le [] ys = True"
| "str_le (x # xs) [] = False"
| "str_le (x # xs) (y # ys) = (if x = y then str_le xs ys else (of_char x :: nat) < of_char y)"

definition integer_message :: "string \<Rightarrow> int \<Rightarrow> string" where
  "integer_message name minimum = name @ '' must be an integer >= '' @ (if minimum = 0 then ''0'' else ''1'')"

definition name_message :: "string \<Rightarrow> string" where
  "name_message name = name @ '' must be a nonempty string of at most 256 characters''"

subsection \<open>Failing and closing\<close>

definition record_failure :: "string \<Rightarrow> string \<Rightarrow> int option \<Rightarrow> int option \<Rightarrow> int option \<Rightarrow> coord \<Rightarrow> coord" where
  "record_failure message ph edge_seq edge_time measured c =
     (if terminal_reason c = None
      then c\<lparr>terminal_reason := Some message,
             failure := Some \<lparr>f_reason = message, f_phase = ph, f_epoch = Some (epoch c),
               f_local = Some (local c), f_peer = Some (peer c), f_raw = Some (raw c),
               f_observed_raw = Some (observed_raw c), f_edge_sequence = edge_seq, f_edge_at = edge_time,
               f_measured_lateness = measured,
               f_allowed_lateness = map_option (\<lambda>_. max_lateness c) measured,
               f_excess = map_option (\<lambda>v. max 0 (v - max_lateness c)) measured,
               f_emission_complete = Some (watermark c)\<rparr>,
             closed := True\<rparr>
      else c\<lparr>closed := True\<rparr>)"

definition fail_late :: "string \<Rightarrow> string \<Rightarrow> timed_edge \<Rightarrow> int \<Rightarrow> coord \<Rightarrow> 'a outcome" where
  "fail_late message ph e measured c =
     (Inl (EmulatedTimeError message),
      record_failure message ph (Some (edge_sequence e)) (Some (edge_at e)) (Some measured) c)"

definition fail :: "string \<Rightarrow> coord \<Rightarrow> 'a outcome" where
  "fail message c = (Inl (EmulatedTimeError message), record_failure message ''validation'' None None None c)"

text \<open>\<open>_open\<close> raises without changing anything.\<close>

definition raise_closed :: "coord \<Rightarrow> 'a outcome" where
  "raise_closed c =
     (Inl (CoordinatorClosed (case terminal_reason c of
         None \<Rightarrow> ''coordinator closed'' | Some r \<Rightarrow> if r = [] then ''coordinator closed'' else r)), c)"

subsection \<open>Derived accounting\<close>

definition debt :: "coord \<Rightarrow> int" where
  "debt c = max 0 (local c - peer c - quantum c)"

definition active_episode :: "coord \<Rightarrow> bool" where
  "active_episode c \<longleftrightarrow> episode_open c \<and> episode_end c > local c \<and> instructions c > 0"

record time_snapshot =
  s_local :: int
  s_peer :: int
  s_debt :: int
  s_remaining_episode :: int
  s_remaining_instructions :: int
  s_pending_permit :: bool
  s_closed :: bool
  s_cancelled :: bool
  s_epoch :: string
  s_request_id :: "string option"
  s_active_episode :: bool
  s_raw :: int
  s_terminal_reason :: "string option"
  s_pending_delivery :: bool
  s_observed_raw :: int
  s_double_speed :: bool
  s_failure :: "failure_snapshot option"

definition snapshot :: "coord \<Rightarrow> time_snapshot" where
  "snapshot c =
     \<lparr>s_local = local c, s_peer = peer c, s_debt = debt c,
      s_remaining_episode = max 0 (episode_end c - local c),
      s_remaining_instructions = instructions c, s_pending_permit = (pending c \<noteq> None),
      s_closed = closed c, s_cancelled = cancelled c, s_epoch = epoch c,
      s_request_id = map_option fst (episode c), s_active_episode = episode_open c, s_raw = raw c,
      s_terminal_reason = terminal_reason c, s_pending_delivery = (pending_delivery c \<noteq> None),
      s_observed_raw = observed_raw c, s_double_speed = (rate c = 1), s_failure = failure c\<rparr>"

subsection \<open>Construction\<close>

text \<open>A failing constructor raises; there is no instance to look at.\<close>

definition create :: "pyval \<Rightarrow> pyval \<Rightarrow> pyval \<Rightarrow> pyval \<Rightarrow> pyval \<Rightarrow> pyval \<Rightarrow> pyval \<Rightarrow> time_error + coord" where
  "create ep clock rearm_budget max_edge_lateness double quantum_cycles enforce =
     (if \<not> is_name ep then Inl (EmulatedTimeError (name_message ''epoch''))
      else if \<not> int_at_least 0 clock then Inl (EmulatedTimeError (integer_message ''raw_cpu_clock'' 0))
      else if \<not> int_at_least 0 rearm_budget then Inl (EmulatedTimeError (integer_message ''rearm_budget'' 0))
      else if \<not> int_at_least 0 max_edge_lateness then Inl (EmulatedTimeError (integer_message ''max_edge_lateness'' 0))
      else if \<not> int_at_least 1 quantum_cycles then Inl (EmulatedTimeError (integer_message ''quantum_cycles'' 1))
      else if \<not> is_bool double then Inl (EmulatedTimeError ''double_speed must be bool'')
      else if \<not> is_bool enforce then Inl (EmulatedTimeError ''enforce_completeness must be bool'')
      else Inr \<lparr>closed = False, cancelled = False, terminal_reason = None, failure = None,
                epoch = the_str ep, raw = the_int clock, observed_raw = the_int clock,
                rate = (if the_bool double then 1 else 2), rearm = the_int rearm_budget * 2,
                quantum = the_int quantum_cycles * 2, max_lateness = the_int max_edge_lateness * 2,
                enforce_completeness = the_bool enforce, local = 0, peer = 0, progress_sequence = 0,
                pending = None, token = 0, episode = None, episode_open = False, episode_end = 0,
                instructions = 0, last_sequence = 0, last_edge = None, edges = [],
                watermark = -1, watermark_sequence = 0, pending_delivery = None, held_delivery = [],
                held_deadline = None, delivery_episode = None\<rparr>)"

subsection \<open>Episodes\<close>

definition begin_episode :: "pyval \<Rightarrow> pyval \<Rightarrow> pyval \<Rightarrow> coord \<Rightarrow> unit outcome" where
  "begin_episode request_id cycle_budget cap c =
     (if closed c then raise_closed c
      else if \<not> is_name request_id then fail (name_message ''request_id'') c
      else if \<not> int_at_least 1 cycle_budget then fail (integer_message ''cycle_budget'' 1) c
      else if \<not> int_at_least 1 cap then fail (integer_message ''instruction_cap'' 1) c
      else if the_int cycle_budget * 2 > rearm c then fail ''episode exceeds explicit rearm_budget'' c
      else let ep = (the_str request_id, the_int cycle_budget, the_int cap)
      in if episode c = Some ep then (Inr (), c)
      else if (case episode c of None \<Rightarrow> False | Some (r, _, _) \<Rightarrow> str_le (the_str request_id) r)
        then fail ''request IDs must increase; conflicting replay'' c
      else if delivery_episode c \<noteq> None
        then fail ''cannot replace held delivery episode before acknowledgement'' c
      else if pending c \<noteq> None \<or> debt c \<noteq> 0 \<or> active_episode c
        then fail ''cannot replace pending, indebted, or active episode'' c
      else (Inr (), c\<lparr>episode := Some ep, episode_open := True,
                      episode_end := local c + the_int cycle_budget * 2, instructions := the_int cap\<rparr>))"

definition begin_delivery_rearm :: "pyval \<Rightarrow> pyval \<Rightarrow> pyval \<Rightarrow> pyval \<Rightarrow> coord \<Rightarrow> unit outcome" where
  "begin_delivery_rearm batch request_id cycle_budget cap c =
     (if closed c then raise_closed c
      else if \<not> int_at_least 1 batch then fail (integer_message ''batch_token'' 1) c
      else if \<not> is_name request_id then fail (name_message ''request_id'') c
      else if \<not> int_at_least 1 cycle_budget then fail (integer_message ''cycle_budget'' 1) c
      else if \<not> int_at_least 1 cap then fail (integer_message ''instruction_cap'' 1) c
      else if the_int cycle_budget * 2 > rearm c then fail ''episode exceeds explicit rearm_budget'' c
      else if pending_delivery c \<noteq> Some (the_int batch) then fail ''rearm requires a pending delivered batch'' c
      else if pending c \<noteq> None then fail ''delivery rearm requires no outstanding permit'' c
      else let ep = (the_str request_id, the_int cycle_budget, the_int cap)
      in if delivery_episode c \<noteq> None
         then (if delivery_episode c = Some ep then (Inr (), c)
               else fail ''delivery batch already has a rearm allowance'' c)
      else if (case episode c of None \<Rightarrow> False | Some (r, _, _) \<Rightarrow> str_le (the_str request_id) r)
        then fail ''request IDs must increase; conflicting replay'' c
      else (case begin_episode request_id cycle_budget cap c of
              (Inl e, c') \<Rightarrow> (Inl e, c')
            | (Inr _, c') \<Rightarrow> (Inr (), c'\<lparr>delivery_episode := episode c'\<rparr>)))"

definition finish_episode :: "pyval \<Rightarrow> coord \<Rightarrow> unit outcome" where
  "finish_episode request_id c =
     (if closed c then raise_closed c
      else if \<not> is_name request_id then fail (name_message ''request_id'') c
      else if map_option fst (episode c) \<noteq> Some (the_str request_id)
        then fail ''finish requires the current request ID'' c
      else if pending c \<noteq> None then fail ''finish requires no outstanding permit'' c
      else (Inr (), c\<lparr>episode_open := False, episode_end := local c, instructions := 0\<rparr>))"

subsection \<open>Permits\<close>

text \<open>
  The clauses of \<open>_reserve\<close>: what blocks a reservation outright, and the ceiling of local time, lowered
  in turn by the held delivery, by the next edge and by the watermark. A clause that finds a bound
  already broken fails; a clause that leaves no room answers without a permit.
\<close>

datatype ceiling_step =
    Ceiling int
  | NoRoom
  | Late string string timed_edge int

definition reserve_blocked :: "coord \<Rightarrow> bool" where
  "reserve_blocked c \<longleftrightarrow>
     pending c \<noteq> None
     \<or> (pending_delivery c \<noteq> None
        \<and> \<not> (delivery_episode c \<noteq> None \<and> episode c = delivery_episode c \<and> active_episode c))
     \<or> progress_sequence c = 0"

definition credit_ceiling :: "coord \<Rightarrow> ceiling_step" where
  "credit_ceiling c =
     (if episode_open c
      then if instructions c = 0 then NoRoom
           else Ceiling (min (peer c + quantum c + rearm c) (episode_end c))
      else Ceiling (peer c + quantum c))"

definition held_ceiling :: "coord \<Rightarrow> int \<Rightarrow> ceiling_step" where
  "held_ceiling c ceiling =
     (case held_deadline c of
        None \<Rightarrow> Ceiling ceiling
      | Some d \<Rightarrow>
          if local c > d
          then let e = dl_edge (hd (held_delivery c))
               in Late ''held delivery lateness exceeds bound'' ''reserve.held_lateness'' e (local c - edge_at e)
          else Ceiling (min ceiling d))"

definition edge_ceiling :: "coord \<Rightarrow> int \<Rightarrow> ceiling_step" where
  "edge_ceiling c ceiling =
     (case edges c of
        [] \<Rightarrow> Ceiling ceiling
      | e # _ \<Rightarrow>
          let scheduled = edge_at e; distance = scheduled - local c
          in if distance \<le> 0 then NoRoom
             else let boundary = local c + ((distance + rate c - 1) div rate c) * rate c
                  in if boundary - scheduled > max_lateness c
                     then Late ''future edge boundary cannot fit speed and lateness bound''
                            ''reserve.boundary_lateness'' e (boundary - scheduled)
                     else Ceiling (min ceiling (scheduled + max_lateness c)))"

definition complete_ceiling :: "coord \<Rightarrow> int \<Rightarrow> int" where
  "complete_ceiling c ceiling =
     (if enforce_completeness c then min ceiling (watermark c + max_lateness c) else ceiling)"

definition grant :: "int \<Rightarrow> coord \<Rightarrow> int \<Rightarrow> permit option outcome" where
  "grant max_cpu_cycles c ceiling =
     (let cycles = min max_cpu_cycles (max 0 (ceiling - local c) div rate c)
      in if cycles = 0 then (Inr None, c)
         else let p = \<lparr>permit_token = token c + 1, cpu_cycles = cycles, half_cycles = cycles * rate c,
                       instruction_cap = (if episode_open c then instructions c else cycles)\<rparr>
              in (Inr (Some p), c\<lparr>token := token c + 1, pending := Some p\<rparr>))"

definition with_ceiling :: "ceiling_step \<Rightarrow> coord \<Rightarrow> (int \<Rightarrow> permit option outcome) \<Rightarrow> permit option outcome" where
  "with_ceiling s c k =
     (case s of
        Ceiling x \<Rightarrow> k x
      | NoRoom \<Rightarrow> (Inr None, c)
      | Late message ph e measured \<Rightarrow> fail_late message ph e measured c)"

definition reserve_core :: "int \<Rightarrow> coord \<Rightarrow> permit option outcome" where
  "reserve_core max_cpu_cycles c =
     (if reserve_blocked c then (Inr None, c)
      else with_ceiling (credit_ceiling c) c (\<lambda>credit.
           with_ceiling (held_ceiling c credit) c (\<lambda>held.
           with_ceiling (edge_ceiling c held) c (\<lambda>room.
             grant max_cpu_cycles c (complete_ceiling c room)))))"

definition reserve :: "pyval \<Rightarrow> coord \<Rightarrow> permit option outcome" where
  "reserve max_cpu_cycles c =
     (if closed c then raise_closed c
      else if \<not> int_at_least 1 max_cpu_cycles then fail (integer_message ''max_cpu_cycles'' 1) c
      else reserve_core (the_int max_cpu_cycles) c)"

subsection \<open>Committing and discarding a permit\<close>

text \<open>The permit is the outstanding one, by identity.\<close>

definition held_permit :: "permit_ref \<Rightarrow> coord \<Rightarrow> permit option" where
  "held_permit ref c =
     (case (ref, pending c) of
        (Issued k, Some p) \<Rightarrow> if k = permit_token p then Some p else None
      | _ \<Rightarrow> None)"

definition transition_valid :: "transition_arg \<Rightarrow> coord \<Rightarrow> int \<Rightarrow> bool" where
  "transition_valid tr c clock =
     (case tr of
        NoTransition \<Rightarrow> True
      | NotATransition \<Rightarrow> False
      | SpeedTransition at double \<Rightarrow>
          (case at of PyInt n \<Rightarrow> is_bool double \<and> raw c \<le> n \<and> n \<le> clock | _ \<Rightarrow> False))"

definition transition_rate :: "transition_arg \<Rightarrow> coord \<Rightarrow> int" where
  "transition_rate tr c =
     (case tr of SpeedTransition _ double \<Rightarrow> if the_bool double then 1 else 2 | _ \<Rightarrow> rate c)"

definition elapsed_halves :: "transition_arg \<Rightarrow> coord \<Rightarrow> int \<Rightarrow> int" where
  "elapsed_halves tr c clock =
     (case tr of
        SpeedTransition at _ \<Rightarrow> (the_int at - raw c) * rate c + (clock - the_int at) * transition_rate tr c
      | _ \<Rightarrow> (clock - raw c) * rate c)"

text \<open>Observed execution is recorded first; the checks come after.\<close>

definition record_execution :: "transition_arg \<Rightarrow> int \<Rightarrow> pyval \<Rightarrow> coord \<Rightarrow> coord" where
  "record_execution tr clock executed c =
     c\<lparr>instructions := (if episode_open c \<and> int_at_least 0 executed
                        then max 0 (instructions c - the_int executed) else instructions c),
       local := local c + elapsed_halves tr c clock, raw := clock,
       rate := transition_rate tr c, pending := None\<rparr>"

definition settle :: "permit \<Rightarrow> int \<Rightarrow> int \<Rightarrow> pyval \<Rightarrow> coord \<Rightarrow> time_snapshot outcome" where
  "settle p delta elapsed executed c =
     (if closed c then raise_closed c
      else if \<not> int_at_least 0 executed then fail (integer_message ''instructions'' 0) c
      else if delta > cpu_cycles p then fail ''physical permit overrun; actual elapsed recorded'' c
      else if elapsed > half_cycles p then fail ''half-cycle permit overrun; actual elapsed recorded'' c
      else if the_int executed > instruction_cap p then fail ''instruction cap exceeded; actual elapsed recorded'' c
      else if (case held_deadline c of None \<Rightarrow> False | Some d \<Rightarrow> local c > d)
        then let e = dl_edge (hd (held_delivery c))
             in fail_late ''held delivery lateness exceeds bound; actual elapsed recorded''
                  ''commit.held_lateness'' e (local c - edge_at e) c
      else if edges c \<noteq> [] \<and> local c - edge_at (hd (edges c)) > max_lateness c
        then fail_late ''edge lateness exceeds bound; actual elapsed recorded''
               ''commit.edge_lateness'' (hd (edges c)) (local c - edge_at (hd (edges c))) c
      else (Inr (snapshot c), c))"

definition commit :: "permit_ref \<Rightarrow> pyval \<Rightarrow> pyval \<Rightarrow> transition_arg \<Rightarrow> coord \<Rightarrow> time_snapshot outcome" where
  "commit ref clock executed tr c =
     (case held_permit ref c of
        None \<Rightarrow> if closed c then raise_closed c else fail ''invalid or already committed permit'' c
      | Some p \<Rightarrow>
          if \<not> int_at_least 0 clock then fail (integer_message ''raw_cpu_clock'' 0) c
          else let c1 = c\<lparr>observed_raw := the_int clock\<rparr>; delta = the_int clock - raw c
          in if \<not> transition_valid tr c1 (the_int clock)
             then fail ''invalid speed transition; unknown normalized interval'' (c1\<lparr>pending := None\<rparr>)
             else if delta \<le> 0
             then fail ''CPU clock rollback or zero progress; elapsed cannot advance''
                    (c1\<lparr>rate := transition_rate tr c1, pending := None\<rparr>)
             else settle p delta (elapsed_halves tr c1 (the_int clock)) executed
                    (record_execution tr (the_int clock) executed c1))"

definition discard_unconsumed_permit :: "permit_ref \<Rightarrow> pyval \<Rightarrow> pyval \<Rightarrow> pyval option \<Rightarrow> coord
    \<Rightarrow> time_snapshot outcome" where
  "discard_unconsumed_permit ref clock executed double c =
     (case held_permit ref c of
        None \<Rightarrow> if closed c then raise_closed c else fail ''invalid or already consumed permit'' c
      | Some p \<Rightarrow>
          let c1 = (if int_at_least 0 clock then c\<lparr>observed_raw := the_int clock\<rparr> else c)\<lparr>pending := None\<rparr>
          in if clock \<noteq> PyInt (raw c1) \<or> executed \<noteq> PyInt 0
                \<or> (case double of None \<Rightarrow> False | Some d \<Rightarrow> d \<noteq> PyBool (rate c1 = 1))
             then fail ''invalid unconsumed permit report; unknown normalized interval'' c1
             else if closed c1 then raise_closed c1
             else (Inr (snapshot c1), c1))"

definition set_speed :: "pyval \<Rightarrow> pyval \<Rightarrow> coord \<Rightarrow> unit outcome" where
  "set_speed clock double c =
     (if closed c then raise_closed c
      else if \<not> int_at_least 0 clock then fail (integer_message ''raw_cpu_clock'' 0) c
      else if \<not> is_bool double then fail ''double_speed must be bool'' c
      else if pending c \<noteq> None \<or> the_int clock \<noteq> raw c
        then fail ''speed change requires committed old-rate clock and no permit'' c
      else (Inr (), c\<lparr>rate := (if the_bool double then 1 else 2)\<rparr>))"

subsection \<open>Peer progress, edges and the watermark\<close>

text \<open>\<open>_check_epoch\<close>: the message of the failure, if there is one.\<close>

definition epoch_problem :: "pyval \<Rightarrow> coord \<Rightarrow> string option" where
  "epoch_problem ep c =
     (if \<not> is_name ep then Some (name_message ''epoch'')
      else if the_str ep \<noteq> epoch c then Some ''epoch mismatch; construct a new coordinator''
      else None)"

definition record_peer_progress :: "pyval \<Rightarrow> pyval \<Rightarrow> pyval \<Rightarrow> coord \<Rightarrow> bool outcome" where
  "record_peer_progress ep sequence committed c =
     (if closed c then raise_closed c
      else case epoch_problem ep c of Some msg \<Rightarrow> fail msg c | None \<Rightarrow>
      if \<not> int_at_least 1 sequence then fail (integer_message ''sequence'' 1) c
      else if \<not> int_at_least 0 committed then fail (integer_message ''committed_half_cycles'' 0) c
      else if the_int sequence = progress_sequence c
        then (if the_int committed = peer c then (Inr False, c) else fail ''conflicting progress replay'' c)
      else if the_int sequence \<noteq> progress_sequence c + 1 then fail ''noncontiguous progress sequence'' c
      else if progress_sequence c = 0 \<and> the_int committed \<noteq> 0
        then fail ''first peer progress must anchor epoch at zero'' c
      else if the_int committed < peer c then fail ''peer progress rollback'' c
      else (Inr True, c\<lparr>progress_sequence := the_int sequence, peer := the_int committed\<rparr>))"

definition receive_edge :: "pyval \<Rightarrow> pyval \<Rightarrow> pyval \<Rightarrow> pyval \<Rightarrow> coord \<Rightarrow> bool outcome" where
  "receive_edge ep sequence at payload c =
     (if closed c then raise_closed c
      else case epoch_problem ep c of Some msg \<Rightarrow> fail msg c | None \<Rightarrow>
      if \<not> int_at_least 1 sequence then fail (integer_message ''sequence'' 1) c
      else if \<not> int_at_least 0 at then fail (integer_message ''at_half_cycle'' 0) c
      else if \<not> is_payload payload then fail ''payload must be bytes within MAX_EDGE_PAYLOAD_BYTES'' c
      else let e = \<lparr>edge_epoch = the_str ep, edge_sequence = the_int sequence, edge_at = the_int at,
                    edge_payload = the_bytes payload\<rparr>
      in if the_int sequence = last_sequence c
         then (if last_edge c = Some e then (Inr False, c) else fail ''conflicting edge replay'' c)
      else if the_int sequence \<noteq> last_sequence c + 1 then fail ''noncontiguous edge receipt sequence'' c
      else if the_int at \<le> watermark c then fail ''edge contradicts inclusive completeness watermark'' c
      else if local c - the_int at > max_lateness c
        then fail_late ''edge lateness exceeds bound'' ''receive_edge.lateness'' e (local c - the_int at) c
      else if length (edges c) \<ge> MAX_PENDING_EDGES then fail ''edge backlog exhausted'' c
      else (Inr True, c\<lparr>last_sequence := the_int sequence, last_edge := Some e, edges := push_edge e (edges c)\<rparr>))"

definition advance_watermark :: "pyval \<Rightarrow> pyval \<Rightarrow> pyval \<Rightarrow> coord \<Rightarrow> unit outcome" where
  "advance_watermark ep sequence through c =
     (if closed c then raise_closed c
      else case epoch_problem ep c of Some msg \<Rightarrow> fail msg c | None \<Rightarrow>
      if \<not> int_at_least 0 sequence then fail (integer_message ''sequence'' 0) c
      else if \<not> int_at_least 0 through then fail (integer_message ''through_half_cycle'' 0) c
      else if the_int sequence \<noteq> last_sequence c \<or> the_int sequence < watermark_sequence c
        then fail ''watermark requires complete contiguous receipt prefix'' c
      else if the_int through < watermark c then fail ''watermark rollback'' c
      else (Inr (), c\<lparr>watermark := the_int through, watermark_sequence := the_int sequence\<rparr>))"

subsection \<open>Deliveries\<close>

text \<open>
  The loop that pops the ready edges. The batch token is the next value of the process-wide counter.
  A delivery that turns out too late fails with the edges popped so far gone from the queue.
\<close>

fun pop_loop :: "int \<Rightarrow> int \<Rightarrow> timed_edge list \<Rightarrow> edge_delivery list \<Rightarrow> coord
    \<Rightarrow> timed_edge option \<times> timed_edge list \<times> edge_delivery list" where
  "pop_loop through batch [] ready c = (None, [], ready)"
| "pop_loop through batch (e # es) ready c =
     (if edge_at e \<le> through
      then if local c - edge_at e > max_lateness c then (Some e, es, ready)
           else pop_loop through batch es
                  (ready @ [\<lparr>dl_edge = e, delivered_half_cycle = local c,
                             lateness_half_cycles = local c - edge_at e, batch_token = batch\<rparr>]) c
      else (None, e # es, ready))"

definition pop_ready_edges :: "int \<Rightarrow> coord \<Rightarrow> edge_delivery list outcome" where
  "pop_ready_edges batch c =
     (if closed c then raise_closed c
      else if pending c \<noteq> None \<or> pending_delivery c \<noteq> None then (Inr [], c)
      else (case pop_loop (min (local c) (watermark c)) batch (edges c) [] c of
              (Some e, rest, _) \<Rightarrow>
                fail_late ''delivery lateness exceeds bound'' ''delivery.lateness'' e (local c - edge_at e)
                  (c\<lparr>edges := rest\<rparr>)
            | (None, rest, ready) \<Rightarrow>
                if ready = [] then (Inr [], c\<lparr>edges := rest\<rparr>)
                else (Inr ready, c\<lparr>edges := rest, pending_delivery := Some batch, held_delivery := ready,
                                   held_deadline := Some (edge_at (dl_edge (hd ready)) + max_lateness c)\<rparr>)))"

definition acknowledge_delivery :: "pyval \<Rightarrow> coord \<Rightarrow> unit outcome" where
  "acknowledge_delivery batch c =
     (if closed c then raise_closed c
      else if \<not> int_at_least 1 batch then fail (integer_message ''batch_token'' 1) c
      else if pending_delivery c \<noteq> Some (the_int batch)
        then fail ''invalid or already acknowledged delivery batch'' c
      else if pending c \<noteq> None then fail ''acknowledgement requires no outstanding permit'' c
      else let c1 = (if delivery_episode c \<noteq> None
                     then c\<lparr>episode_open := False, episode_end := local c, instructions := 0\<rparr> else c)
           in (Inr (), c1\<lparr>pending_delivery := None, held_delivery := [], held_deadline := None,
                          delivery_episode := None\<rparr>))"

subsection \<open>Cancelling, closing, resetting\<close>

definition cancel :: "coord \<Rightarrow> unit outcome" where
  "cancel c = (Inr (), c\<lparr>cancelled := True, closed := True,
     terminal_reason := (case terminal_reason c of None \<Rightarrow> Some ''coordinator cancelled'' | Some r \<Rightarrow> Some r)\<rparr>)"

definition close :: "coord \<Rightarrow> unit outcome" where
  "close c = (Inr (), c\<lparr>closed := True,
     terminal_reason := (case terminal_reason c of None \<Rightarrow> Some ''coordinator closed'' | Some r \<Rightarrow> Some r)\<rparr>)"

definition reset :: "pyval \<Rightarrow> pyval \<Rightarrow> coord \<Rightarrow> unit outcome" where
  "reset ep clock c =
     (if closed c then raise_closed c
      else fail ''reset forbidden; construct a new coordinator for a new epoch'' c)"

subsection \<open>Any sequence of calls\<close>

text \<open>One call of a public operation, by the owner or by the transport, in any order.\<close>

datatype call =
    BeginEpisode pyval pyval pyval
  | BeginDeliveryRearm pyval pyval pyval pyval
  | FinishEpisode pyval
  | Reserve pyval
  | Commit permit_ref pyval pyval transition_arg
  | Discard permit_ref pyval pyval "pyval option"
  | SetSpeed pyval pyval
  | RecordPeerProgress pyval pyval pyval
  | ReceiveEdge pyval pyval pyval pyval
  | AdvanceWatermark pyval pyval pyval
  | PopReadyEdges int
  | AcknowledgeDelivery pyval
  | Cancel
  | Close
  | Reset pyval pyval

fun after_call :: "call \<Rightarrow> coord \<Rightarrow> coord" where
  "after_call (BeginEpisode r b i) c = snd (begin_episode r b i c)"
| "after_call (BeginDeliveryRearm t r b i) c = snd (begin_delivery_rearm t r b i c)"
| "after_call (FinishEpisode r) c = snd (finish_episode r c)"
| "after_call (Reserve n) c = snd (reserve n c)"
| "after_call (Commit p k i tr) c = snd (commit p k i tr c)"
| "after_call (Discard p k i d) c = snd (discard_unconsumed_permit p k i d c)"
| "after_call (SetSpeed k d) c = snd (set_speed k d c)"
| "after_call (RecordPeerProgress e n h) c = snd (record_peer_progress e n h c)"
| "after_call (ReceiveEdge e n a p) c = snd (receive_edge e n a p c)"
| "after_call (AdvanceWatermark e n h) c = snd (advance_watermark e n h c)"
| "after_call (PopReadyEdges b) c = snd (pop_ready_edges b c)"
| "after_call (AcknowledgeDelivery b) c = snd (acknowledge_delivery b c)"
| "after_call Cancel c = snd (cancel c)"
| "after_call Close c = snd (close c)"
| "after_call (Reset e k) c = snd (reset e k c)"

inductive reachable :: "coord \<Rightarrow> bool" where
  created: "create ep clock r l d q en = Inr c \<Longrightarrow> reachable c"
| called: "reachable c \<Longrightarrow> reachable (after_call a c)"

end
