(* ===== verification/Time_Steps.thy ===== *)
theory Time_Steps
  imports Emulated_Time
begin

text \<open>
  An abstract account of the coordinator of \<open>Emulated_Time\<close>: the few ways in which any call can
  change its state, as a step relation, and the lemma that every call takes one of these steps. The
  safety theorems are proved over the relation, by cases on the step.
\<close>

subsection \<open>Stopping\<close>

text \<open>The state a raised exception leaves, starting from \<open>d\<close>: closed already, or closed by this failure.\<close>

definition halts :: "coord \<Rightarrow> coord \<Rightarrow> bool" where
  "halts d c' \<longleftrightarrow> (closed d \<and> c' = d) \<or> (\<exists>m ph s a l. c' = record_failure m ph s a l d)"

lemma record_failure_fields [simp]:
  "closed (record_failure m ph s a l c)"
  "cancelled (record_failure m ph s a l c) = cancelled c"
  "epoch (record_failure m ph s a l c) = epoch c"
  "raw (record_failure m ph s a l c) = raw c"
  "observed_raw (record_failure m ph s a l c) = observed_raw c"
  "rate (record_failure m ph s a l c) = rate c"
  "rearm (record_failure m ph s a l c) = rearm c"
  "quantum (record_failure m ph s a l c) = quantum c"
  "max_lateness (record_failure m ph s a l c) = max_lateness c"
  "enforce_completeness (record_failure m ph s a l c) = enforce_completeness c"
  "local (record_failure m ph s a l c) = local c"
  "peer (record_failure m ph s a l c) = peer c"
  "progress_sequence (record_failure m ph s a l c) = progress_sequence c"
  "pending (record_failure m ph s a l c) = pending c"
  "token (record_failure m ph s a l c) = token c"
  "episode_open (record_failure m ph s a l c) = episode_open c"
  "episode_end (record_failure m ph s a l c) = episode_end c"
  "instructions (record_failure m ph s a l c) = instructions c"
  "last_sequence (record_failure m ph s a l c) = last_sequence c"
  "edges (record_failure m ph s a l c) = edges c"
  "watermark (record_failure m ph s a l c) = watermark c"
  "watermark_sequence (record_failure m ph s a l c) = watermark_sequence c"
  "pending_delivery (record_failure m ph s a l c) = pending_delivery c"
  "held_delivery (record_failure m ph s a l c) = held_delivery c"
  "held_deadline (record_failure m ph s a l c) = held_deadline c"
  "delivery_episode (record_failure m ph s a l c) = delivery_episode c"
  "terminal_reason (record_failure m ph s a l c) \<noteq> None"
  by (simp_all add: record_failure_def)

lemma halts_fields:
  assumes "halts d c'"
  shows "closed c'" "cancelled c' = cancelled d" "raw c' = raw d" "observed_raw c' = observed_raw d" "rate c' = rate d" "rearm c' = rearm d"
    "quantum c' = quantum d" "max_lateness c' = max_lateness d" "enforce_completeness c' = enforce_completeness d"
    "local c' = local d" "peer c' = peer d" "progress_sequence c' = progress_sequence d" "pending c' = pending d"
    "token c' = token d" "episode_open c' = episode_open d" "episode_end c' = episode_end d"
    "instructions c' = instructions d" "last_sequence c' = last_sequence d" "edges c' = edges d"
    "watermark c' = watermark d" "watermark_sequence c' = watermark_sequence d"
    "pending_delivery c' = pending_delivery d" "held_delivery c' = held_delivery d"
    "held_deadline c' = held_deadline d" "delivery_episode c' = delivery_episode d"
  using assms by (auto simp: halts_def)

lemma halts_fail: "halts c (snd (fail m c))" "halts c (snd (fail_late m ph e v c))"
  unfolding halts_def fail_def fail_late_def snd_conv by blast+

lemma halts_closed: "closed c \<Longrightarrow> halts c (snd (raise_closed c))"
  by (simp add: halts_def raise_closed_def)

subsection \<open>The steps\<close>

text \<open>What a permit is bounded by when it is issued.\<close>

definition permit_fits :: "coord \<Rightarrow> permit \<Rightarrow> bool" where
  "permit_fits c p \<longleftrightarrow>
     0 < cpu_cycles p \<and> half_cycles p = cpu_cycles p * rate c
     \<and> local c + half_cycles p \<le> peer c + quantum c + (if episode_open c then rearm c else 0)
     \<and> (episode_open c \<longrightarrow> local c + half_cycles p \<le> episode_end c \<and> instruction_cap p = instructions c)
     \<and> (\<forall>d. held_deadline c = Some d \<longrightarrow> local c + half_cycles p \<le> d)
     \<and> (enforce_completeness c \<longrightarrow> local c + half_cycles p \<le> watermark c + max_lateness c)"

definition executed :: "int \<Rightarrow> int \<Rightarrow> int \<Rightarrow> int \<Rightarrow> coord \<Rightarrow> coord" where
  "executed elapsed clock rt left c =
     c\<lparr>observed_raw := clock, instructions := left, local := local c + elapsed, raw := clock, rate := rt, pending := None\<rparr>"

definition valid_rate :: "int \<Rightarrow> bool" where
  "valid_rate r \<longleftrightarrow> r = 1 \<or> r = 2"

inductive step :: "coord \<Rightarrow> coord \<Rightarrow> bool" where
  stay: "step c c"
| stop: "halts c c' \<Longrightarrow> step c c'"
| shut: "(cancelled c \<Longrightarrow> b) \<Longrightarrow> terminal_reason c \<noteq> None \<longrightarrow> r = terminal_reason c \<Longrightarrow> r \<noteq> None
    \<Longrightarrow> step c (c\<lparr>cancelled := b, closed := True, terminal_reason := r\<rparr>)"
| begin_ep: "\<not> closed c \<Longrightarrow> pending c = None \<Longrightarrow> debt c = 0 \<Longrightarrow> 0 < budget \<Longrightarrow> budget * 2 \<le> rearm c \<Longrightarrow> 0 < cap
    \<Longrightarrow> (de = delivery_episode c \<or> de = Some ep \<and> pending_delivery c \<noteq> None)
    \<Longrightarrow> step c (c\<lparr>episode := Some ep, episode_open := True, episode_end := local c + budget * 2,
                  instructions := cap, delivery_episode := de\<rparr>)"
| finish: "\<not> closed c \<Longrightarrow> pending c = None
    \<Longrightarrow> step c (c\<lparr>episode_open := False, episode_end := local c, instructions := 0\<rparr>)"
| granted: "\<not> closed c \<Longrightarrow> pending c = None \<Longrightarrow> permit_fits c p \<Longrightarrow> permit_token p = token c + 1
    \<Longrightarrow> step c (c\<lparr>token := token c + 1, pending := Some p\<rparr>)"
| execute: "\<not> closed c \<Longrightarrow> pending c = Some p \<Longrightarrow> raw c < clock \<Longrightarrow> 0 < elapsed \<Longrightarrow> elapsed \<le> half_cycles p
    \<Longrightarrow> valid_rate rt \<Longrightarrow> 0 \<le> left
    \<Longrightarrow> (\<forall>d. held_deadline c = Some d \<longrightarrow> local c + elapsed \<le> d)
    \<Longrightarrow> (edges c \<noteq> [] \<longrightarrow> local c + elapsed - edge_at (hd (edges c)) \<le> max_lateness c)
    \<Longrightarrow> step c (executed elapsed clock rt left c)"
| overrun: "pending c = Some p \<Longrightarrow> raw c < clock \<Longrightarrow> 0 < elapsed \<Longrightarrow> valid_rate rt \<Longrightarrow> 0 \<le> left
    \<Longrightarrow> halts (executed elapsed clock rt left c) c' \<Longrightarrow> step c c'"
| dropped: "pending c = Some p \<Longrightarrow> valid_rate rt \<Longrightarrow> halts (c\<lparr>observed_raw := ob, rate := rt, pending := None\<rparr>) c'
    \<Longrightarrow> step c c'"
| discarded: "\<not> closed c \<Longrightarrow> pending c = Some p \<Longrightarrow> step c (c\<lparr>observed_raw := ob, pending := None\<rparr>)"
| speed: "\<not> closed c \<Longrightarrow> pending c = None \<Longrightarrow> valid_rate rt \<Longrightarrow> step c (c\<lparr>rate := rt\<rparr>)"
| progress: "\<not> closed c \<Longrightarrow> n = progress_sequence c + 1 \<Longrightarrow> peer c \<le> h \<Longrightarrow> (progress_sequence c = 0 \<longrightarrow> h = 0)
    \<Longrightarrow> step c (c\<lparr>progress_sequence := n, peer := h\<rparr>)"
| received: "\<not> closed c \<Longrightarrow> edge_sequence e = last_sequence c + 1 \<Longrightarrow> watermark c < edge_at e
    \<Longrightarrow> local c - edge_at e \<le> max_lateness c \<Longrightarrow> length (edges c) < 1024 \<Longrightarrow> 0 \<le> edge_at e
    \<Longrightarrow> step c (c\<lparr>last_sequence := edge_sequence e, last_edge := Some e, edges := push_edge e (edges c)\<rparr>)"
| watermarked: "\<not> closed c \<Longrightarrow> watermark c \<le> w \<Longrightarrow> watermark_sequence c \<le> n \<Longrightarrow> n = last_sequence c
    \<Longrightarrow> step c (c\<lparr>watermark := w, watermark_sequence := n\<rparr>)"
| popped: "\<not> closed c \<Longrightarrow> pending c = None \<Longrightarrow> pending_delivery c = None \<Longrightarrow> ready \<noteq> []
    \<Longrightarrow> edges c = map dl_edge ready @ rest \<Longrightarrow> local c - edge_at (dl_edge (hd ready)) \<le> max_lateness c
    \<Longrightarrow> step c (c\<lparr>edges := rest, pending_delivery := Some batch, held_delivery := ready,
                  held_deadline := Some (edge_at (dl_edge (hd ready)) + max_lateness c)\<rparr>)"
| pop_late: "\<not> closed c \<Longrightarrow> edges c = gone @ e # rest \<Longrightarrow> max_lateness c < local c - edge_at e
    \<Longrightarrow> halts (c\<lparr>edges := rest\<rparr>) c' \<Longrightarrow> step c c'"
| acknowledged: "\<not> closed c \<Longrightarrow> pending c = None
    \<Longrightarrow> c1 = c \<or> c1 = c\<lparr>episode_open := False, episode_end := local c, instructions := 0\<rparr>
    \<Longrightarrow> step c (c1\<lparr>pending_delivery := None, held_delivery := [], held_deadline := None, delivery_episode := None\<rparr>)"

inductive_cases stepE: "step c c'"

lemma step_fail: "step c (snd (fail m c))" "step c (snd (fail_late m ph e v c))"
  by (rule step.stop, rule halts_fail)+

lemma step_raise_closed: "closed c \<Longrightarrow> step c (snd (raise_closed c))"
  by (rule step.stop, rule halts_closed)

lemmas step_ends = step.stay step_fail step_raise_closed

subsection \<open>Every call takes a step\<close>

text \<open>Rules that walk down the guards of an operation.\<close>

lemma step_if: "(b \<Longrightarrow> step c (snd x)) \<Longrightarrow> (\<not> b \<Longrightarrow> step c (snd y)) \<Longrightarrow> step c (snd (if b then x else y))"
  by simp

lemma step_Let: "(\<And>x. x = v \<Longrightarrow> step c (snd (f x))) \<Longrightarrow> step c (snd (Let v f))"
  by simp

lemma step_option:
  "(v = None \<Longrightarrow> step c (snd x)) \<Longrightarrow> (\<And>y. v = Some y \<Longrightarrow> step c (snd (f y)))
     \<Longrightarrow> step c (snd (case v of None \<Rightarrow> x | Some y \<Rightarrow> f y))"
  by (cases v) auto

lemma step_same: "step c (snd (r, c))"
  by (simp add: step.stay)

lemmas step_guards = step_if step_Let step_option
lemmas step_leaves = step.stay step_same step_fail step_raise_closed

lemma int_at_least_the_int: "int_at_least k v \<Longrightarrow> k \<le> the_int v"
  by (auto simp: int_at_least_def the_int_def split: pyval.splits)

lemma int_at_least_pos: "int_at_least 1 v \<Longrightarrow> 0 < the_int v"
  using int_at_least_the_int [of 1 v] by simp

lemma step_begin:
  assumes "\<not> closed c" "pending c = None" "debt c = 0" "int_at_least 1 b" "the_int b * 2 \<le> rearm c" "int_at_least 1 i"
  shows "step c (c\<lparr>episode := Some ep, episode_open := True, episode_end := local c + the_int b * 2,
                   instructions := the_int i\<rparr>)"
    and "pending_delivery c \<noteq> None \<Longrightarrow> step c (c\<lparr>episode := Some ep, episode_open := True,
            episode_end := local c + the_int b * 2, instructions := the_int i, delivery_episode := Some ep\<rparr>)"
  using step.begin_ep [OF assms(1-3), of "the_int b" "the_int i" _ ep] assms(4-6)
  by (fastforce dest: int_at_least_the_int)+

lemma begin_episode_step: "step c (snd (begin_episode r b i c))"
  unfolding begin_episode_def
  by (intro step_guards) (auto intro: step_leaves step_begin(1))

text \<open>A nested begin succeeds in one way only once its first guards are known to hold.\<close>

lemma begin_episode_ok:
  assumes "begin_episode r b i c = (Inr u, c')"
  shows "c' = c \<and> episode c = Some (the_str r, the_int b, the_int i)
    \<or> c' = c\<lparr>episode := Some (the_str r, the_int b, the_int i), episode_open := True,
            episode_end := local c + the_int b * 2, instructions := the_int i\<rparr>
      \<and> \<not> closed c \<and> pending c = None \<and> debt c = 0 \<and> int_at_least 1 b \<and> the_int b * 2 \<le> rearm c \<and> int_at_least 1 i"
  using assms unfolding begin_episode_def Let_def fail_def raise_closed_def
  by (simp split: if_split_asm)

lemma str_le_refl [simp]: "str_le s s"
  by (induction s) auto

lemma begin_delivery_rearm_step: "step c (snd (begin_delivery_rearm t r b i c))"
proof -
  have nested: "step c (snd (case begin_episode r b i c of (Inl e, c') \<Rightarrow> (Inl e, c')
      | (Inr _, c') \<Rightarrow> (Inr (), c'\<lparr>delivery_episode := episode c'\<rparr>)))"
    if d: "pending_delivery c = Some k" "\<not> (case episode c of None \<Rightarrow> False | Some (r', _, _) \<Rightarrow> str_le (the_str r) r')" for k
  proof (cases "begin_episode r b i c")
    case (Pair res c')
    show ?thesis
    proof (cases res)
      case (Inl e)
      with Pair begin_episode_step [of c r b i] show ?thesis by simp
    next
      case (Inr u)
      from begin_episode_ok [OF Pair [unfolded Inr]] d(2)
      have "c' = c\<lparr>episode := Some (the_str r, the_int b, the_int i), episode_open := True,
              episode_end := local c + the_int b * 2, instructions := the_int i\<rparr>"
        and "\<not> closed c" "pending c = None" "debt c = 0" "int_at_least 1 b" "the_int b * 2 \<le> rearm c" "int_at_least 1 i"
        by auto
      with step_begin(2) [OF this(2-7)] d(1) Pair Inr show ?thesis by simp
    qed
  qed
  show ?thesis
    unfolding begin_delivery_rearm_def
    by (intro step_if step_Let) (auto intro: step_leaves nested simp del: split_paired_All)
qed

lemma finish_episode_step: "step c (snd (finish_episode r c))"
  unfolding finish_episode_def
  by (intro step_guards) (auto intro: step_leaves step.finish)

lemma credit_ceiling_bound:
  "credit_ceiling c = Ceiling x \<Longrightarrow>
     x \<le> peer c + quantum c + (if episode_open c then rearm c else 0) \<and> (episode_open c \<longrightarrow> x \<le> episode_end c)"
  by (auto simp: credit_ceiling_def split: if_splits)

lemma held_ceiling_bound:
  "held_ceiling c y = Ceiling x \<Longrightarrow> x \<le> y \<and> (\<forall>d. held_deadline c = Some d \<longrightarrow> x \<le> d \<and> local c \<le> d)"
  by (auto simp: held_ceiling_def Let_def split: option.splits if_splits)

lemma edge_ceiling_bound:
  "edge_ceiling c y = Ceiling x \<Longrightarrow>
     x \<le> y \<and> (edges c \<noteq> [] \<longrightarrow> x \<le> edge_at (hd (edges c)) + max_lateness c \<and> local c < edge_at (hd (edges c)))"
  by (auto simp: edge_ceiling_def Let_def split: list.splits if_splits)

lemma complete_ceiling_bound:
  "complete_ceiling c y \<le> y \<and> (enforce_completeness c \<longrightarrow> complete_ceiling c y \<le> watermark c + max_lateness c)"
  by (simp add: complete_ceiling_def)

text \<open>What a grant is, in terms of the ceiling it was given.\<close>

lemma grant_cases:
  assumes "valid_rate (rate c)" "0 < n"
  shows "(grant n c ceiling = (Inr None, c)) \<or>
     (\<exists>p. grant n c ceiling = (Inr (Some p), c\<lparr>token := token c + 1, pending := Some p\<rparr>)
        \<and> permit_token p = token c + 1 \<and> 0 < cpu_cycles p \<and> cpu_cycles p \<le> n \<and> half_cycles p = cpu_cycles p * rate c
        \<and> local c + half_cycles p \<le> ceiling
        \<and> instruction_cap p = (if episode_open c then instructions c else cpu_cycles p))"
proof -
  let ?k = "min n (max 0 (ceiling - local c) div rate c)"
  have r: "0 < rate c" using assms(1) by (auto simp: valid_rate_def)
  have "0 \<le> ?k" using assms(2) r by (simp add: pos_imp_zdiv_nonneg_iff)
  show ?thesis
  proof (cases "?k = 0")
    case False
    with \<open>0 \<le> ?k\<close> have k: "0 < ?k" by linarith
    then have "0 < max 0 (ceiling - local c)" using r
      by (metis div_0 less_irrefl max.cobounded1 min_less_iff_conj order_le_less)
    moreover have "?k * rate c \<le> max 0 (ceiling - local c)"
    proof -
      have "?k * rate c \<le> (max 0 (ceiling - local c) div rate c) * rate c"
        using r by (intro mult_right_mono) auto
      also have "\<dots> \<le> max 0 (ceiling - local c)"
        using r by (metis div_mult_mod_eq le_add_same_cancel1 pos_mod_sign)
      finally show ?thesis .
    qed
    ultimately have "local c + ?k * rate c \<le> ceiling" by linarith
    with k False show ?thesis by (simp add: grant_def Let_def)
  qed (simp add: grant_def)
qed

text \<open>The whole chain of ceilings of a reservation.\<close>

lemma with_ceiling_Some:
  "with_ceiling s c k = (Inr (Some p), c') \<Longrightarrow> \<exists>x. s = Ceiling x \<and> k x = (Inr (Some p), c')"
  by (auto simp: with_ceiling_def fail_late_def split: ceiling_step.splits)

lemma reserve_core_Some:
  assumes "reserve_core n c = (Inr (Some p), c')" "valid_rate (rate c)" "0 < n"
  shows "\<not> reserve_blocked c \<and> c' = c\<lparr>token := token c + 1, pending := Some p\<rparr>
    \<and> permit_fits c p \<and> permit_token p = token c + 1 \<and> cpu_cycles p \<le> n
    \<and> (edges c \<noteq> [] \<longrightarrow> local c < edge_at (hd (edges c))
         \<and> local c + half_cycles p \<le> edge_at (hd (edges c)) + max_lateness c)"
proof -
  from assms(1) have nb: "\<not> reserve_blocked c" by (auto simp: reserve_core_def split: if_splits)
  with assms(1) obtain credit held room where
      1: "credit_ceiling c = Ceiling credit" and 2: "held_ceiling c credit = Ceiling held"
    and 3: "edge_ceiling c held = Ceiling room"
    and g: "grant n c (complete_ceiling c room) = (Inr (Some p), c')"
    by (auto simp: reserve_core_def dest!: with_ceiling_Some)
  note b = credit_ceiling_bound [OF 1] held_ceiling_bound [OF 2] edge_ceiling_bound [OF 3]
    complete_ceiling_bound [of c room]
  from grant_cases [OF assms(2,3), of "complete_ceiling c room"] g
  have p: "c' = c\<lparr>token := token c + 1, pending := Some p\<rparr>" "permit_token p = token c + 1" "0 < cpu_cycles p"
      "cpu_cycles p \<le> n" "half_cycles p = cpu_cycles p * rate c" "local c + half_cycles p \<le> complete_ceiling c room"
      "instruction_cap p = (if episode_open c then instructions c else cpu_cycles p)"
    by auto
  have "permit_fits c p"
    unfolding permit_fits_def using p b by (auto split: if_splits)
  with nb p b show ?thesis by auto
qed

definition reserve_outcome :: "coord \<Rightarrow> permit option outcome \<Rightarrow> bool" where
  "reserve_outcome c r \<longleftrightarrow> r = (Inr None, c) \<or> (\<exists>p c'. r = (Inr (Some p), c'))
     \<or> (\<exists>m ph e v. r = fail_late m ph e v c)"

lemma with_ceiling_outcome: "(\<And>x. reserve_outcome c (k x)) \<Longrightarrow> reserve_outcome c (with_ceiling s c k)"
  unfolding with_ceiling_def reserve_outcome_def by (cases s; simp only: ceiling_step.case; blast)

lemma grant_outcome: "reserve_outcome c (grant n c x)"
  by (auto simp: grant_def Let_def reserve_outcome_def)

lemma reserve_core_outcome: "reserve_outcome c (reserve_core n c)"
proof (cases "reserve_blocked c")
  case True
  then show ?thesis by (simp add: reserve_core_def reserve_outcome_def)
next
  case False
  then show ?thesis by (simp add: reserve_core_def with_ceiling_outcome grant_outcome)
qed

lemma reserve_core_step:
  assumes "valid_rate (rate c)" "0 < n" "\<not> closed c"
  shows "step c (snd (reserve_core n c))"
  using reserve_core_outcome [of c n] unfolding reserve_outcome_def
proof (elim disjE exE)
  fix p c' assume p: "reserve_core n c = (Inr (Some p), c')"
  from reserve_core_Some [OF p assms(1,2)] assms(3) p
  show ?thesis by (auto simp: reserve_blocked_def intro: step.granted)
qed (auto intro: step_leaves)

lemma reserve_step: "valid_rate (rate c) \<Longrightarrow> step c (snd (reserve n c))"
  unfolding reserve_def
  by (intro step_guards) (auto intro: step_leaves reserve_core_step int_at_least_pos)

subsection \<open>Commits and the remaining calls\<close>

lemma held_permit_Some: "held_permit ref c = Some p \<Longrightarrow> pending c = Some p \<and> ref = Issued (permit_token p)"
  by (auto simp: held_permit_def split: permit_ref.splits option.splits if_splits)

lemma transition_rate_valid:
  "valid_rate (rate c) \<Longrightarrow> valid_rate (transition_rate tr c)"
  by (auto simp: transition_rate_def valid_rate_def split: transition_arg.splits)

lemma elapsed_positive:
  assumes "valid_rate (rate c)" "transition_valid tr c clock" "raw c < clock"
  shows "0 < elapsed_halves tr c clock"
proof (cases tr)
  case (SpeedTransition at double)
  with assms(2) obtain n where n: "at = PyInt n" "raw c \<le> n" "n \<le> clock"
    by (auto simp: transition_valid_def split: pyval.splits)
  have r: "0 < rate c" "0 < transition_rate tr c"
    using assms(1) transition_rate_valid [OF assms(1), of tr] by (auto simp: valid_rate_def)
  have e: "elapsed_halves tr c clock = (n - raw c) * rate c + (clock - n) * transition_rate tr c"
    using SpeedTransition n by (simp add: elapsed_halves_def the_int_def)
  show ?thesis
  proof (cases "raw c < n")
    case True
    then have "0 < (n - raw c) * rate c" "0 \<le> (clock - n) * transition_rate tr c" using r n by simp_all
    then show ?thesis unfolding e by linarith
  next
    case False
    then have "0 < (clock - n) * transition_rate tr c" "0 \<le> (n - raw c) * rate c" using r n assms(3) by simp_all
    then show ?thesis unfolding e by linarith
  qed
next
  case NoTransition
  with assms show ?thesis by (auto simp: elapsed_halves_def valid_rate_def)
next
  case NotATransition
  with assms show ?thesis by (simp add: transition_valid_def)
qed

lemma settle_step:
  fixes d :: coord and c :: coord
  assumes p: "pending c = Some p" and clock: "raw c < clock" and el: "0 < elapsed" and rt: "valid_rate rt"
    and left: "0 \<le> left" and d: "d = executed elapsed clock rt left c"
  shows "step c (snd (settle p delta elapsed ex d))"
proof (cases "\<exists>r. settle p delta elapsed ex d = (Inr r, d)")
  case True
  then have "\<not> closed d" "elapsed \<le> half_cycles p"
      "\<forall>x. held_deadline d = Some x \<longrightarrow> local d \<le> x"
      "edges d \<noteq> [] \<longrightarrow> local d - edge_at (hd (edges d)) \<le> max_lateness d"
    unfolding settle_def fail_def fail_late_def raise_closed_def Let_def by (auto split: if_splits option.splits)
  then have "step c d"
    unfolding d by (intro step.execute [OF _ p clock el _ rt left]) (auto simp: executed_def)
  with True show ?thesis by auto
next
  case False
  then have "halts d (snd (settle p delta elapsed ex d))"
    unfolding settle_def Let_def by (auto simp: halts_fail halts_closed split: if_splits)
  then show ?thesis
    unfolding d by (rule step.overrun [OF p clock el rt left])
qed

lemma record_execution_executed:
  "record_execution tr clock ex (c\<lparr>observed_raw := clock\<rparr>) =
     executed (elapsed_halves tr (c\<lparr>observed_raw := clock\<rparr>) clock) clock (transition_rate tr c)
       (if episode_open c \<and> int_at_least 0 ex then max 0 (instructions c - the_int ex) else instructions c) c"
  by (simp add: record_execution_def executed_def transition_rate_def elapsed_halves_def split: transition_arg.splits)

lemma commit_step:
  assumes r: "valid_rate (rate c)" and i: "0 \<le> instructions c"
  shows "step c (snd (commit ref clock ex tr c))"
proof (cases "held_permit ref c")
  case None
  then show ?thesis unfolding commit_def option.case by (intro step_guards) (auto intro: step_leaves)
next
  case (Some p)
  then have p: "pending c = Some p" by (auto dest: held_permit_Some)
  let ?k = "the_int clock" and ?c1 = "c\<lparr>observed_raw := the_int clock\<rparr>"
  have r1: "valid_rate (rate ?c1)" "valid_rate (transition_rate tr ?c1)"
    using r transition_rate_valid [of ?c1 tr] by simp_all
  have bad1: "step c (snd (fail m (?c1\<lparr>pending := None\<rparr>)))" for m
    by (rule step.dropped [OF p r, of "the_int clock"]) (simp add: halts_fail(1) [of "?c1\<lparr>pending := None\<rparr>"])
  have bad2: "step c (snd (fail m (?c1\<lparr>rate := transition_rate tr ?c1, pending := None\<rparr>)))" for m
    by (rule step.dropped [OF p r1(2), of "the_int clock"])
       (simp add: halts_fail(1) [of "?c1\<lparr>rate := transition_rate tr ?c1, pending := None\<rparr>"])
  have good: "step c (snd (settle p (?k - raw c) (elapsed_halves tr ?c1 ?k) ex (record_execution tr ?k ex ?c1)))"
    if "transition_valid tr ?c1 ?k" "\<not> ?k - raw c \<le> 0"
    using that elapsed_positive [OF r1(1) that(1)] transition_rate_valid [OF r, of tr] i
    by (intro settle_step [OF p _ _ _ _ record_execution_executed]) auto
  show ?thesis
    unfolding commit_def Some option.case
    by (intro step_guards) (auto intro: step_leaves bad1 bad2 good)
qed

lemma discard_step:
  assumes r: "valid_rate (rate c)"
  shows "step c (snd (discard_unconsumed_permit ref clock ex double c))"
proof (cases "held_permit ref c")
  case None
  then show ?thesis unfolding discard_unconsumed_permit_def option.case by (intro step_guards) (auto intro: step_leaves)
next
  case (Some p)
  then have p: "pending c = Some p" by (auto dest: held_permit_Some)
  define c1 where "c1 = (if int_at_least 0 clock then c\<lparr>observed_raw := the_int clock\<rparr> else c)\<lparr>pending := None\<rparr>"
  have c1: "c1 = c\<lparr>observed_raw := (if int_at_least 0 clock then the_int clock else observed_raw c), rate := rate c, pending := None\<rparr>"
    by (simp add: c1_def)
  have halted: "step c c'" if "halts c1 c'" for c'
    by (rule step.dropped [OF p r that [unfolded c1]])
  have open_case: "step c c1" if "\<not> closed c"
    using step.discarded [OF that p, of "if int_at_least 0 clock then the_int clock else observed_raw c"] by (simp add: c1)
  have cl: "closed c1 = closed c" by (simp add: c1)
  show ?thesis
    unfolding discard_unconsumed_permit_def Some option.case c1_def [symmetric]
    by (intro step_guards) (auto simp: cl intro!: halted halts_fail halts_closed open_case)
qed

lemma set_speed_step: "step c (snd (set_speed k d c))"
  unfolding set_speed_def
  by (intro step_guards) (auto intro!: step.speed simp: valid_rate_def intro: step_leaves)

lemma record_peer_progress_step: "step c (snd (record_peer_progress ep n h c))"
  unfolding record_peer_progress_def
  by (intro step_guards) (auto intro: step_leaves step.progress)

lemma receive_edge_step: "step c (snd (receive_edge ep n a pl c))"
  unfolding receive_edge_def
proof (intro step_guards)
  fix e
  assume a: "\<not> closed c" "\<not> \<not> int_at_least 0 a" "\<not> the_int n \<noteq> last_sequence c + 1" "\<not> the_int a \<le> watermark c"
    "\<not> max_lateness c < local c - the_int a" "\<not> MAX_PENDING_EDGES \<le> length (edges c)"
    and e: "e = \<lparr>edge_epoch = the_str ep, edge_sequence = the_int n, edge_at = the_int a, edge_payload = the_bytes pl\<rparr>"
  have "step c (c\<lparr>last_sequence := edge_sequence e, last_edge := Some e, edges := push_edge e (edges c)\<rparr>)"
    using a int_at_least_the_int [of 0 a] by (intro step.received) (auto simp: e MAX_PENDING_EDGES_def)
  then show "step c (snd (Inr True, c\<lparr>last_sequence := the_int n, last_edge := Some e, edges := push_edge e (edges c)\<rparr>))"
    by (simp add: e)
qed (auto intro: step_leaves)

lemma advance_watermark_step: "step c (snd (advance_watermark ep n h c))"
  unfolding advance_watermark_def
  by (intro step_guards) (auto intro: step_leaves step.watermarked)

text \<open>The pop loop takes a prefix of the queue; it stops at the first edge beyond the bound or too late.\<close>

lemma pop_loop_spec:
  assumes "pop_loop through batch es ready c = (late, rest, ready')"
  shows "\<exists>taken. ready' = ready @ map (\<lambda>e. \<lparr>dl_edge = e, delivered_half_cycle = local c,
             lateness_half_cycles = local c - edge_at e, batch_token = batch\<rparr>) taken
    \<and> (\<forall>e \<in> set taken. edge_at e \<le> through \<and> local c - edge_at e \<le> max_lateness c)
    \<and> (case late of
         None \<Rightarrow> es = taken @ rest \<and> (rest \<noteq> [] \<longrightarrow> through < edge_at (hd rest))
       | Some e \<Rightarrow> es = taken @ e # rest \<and> max_lateness c < local c - edge_at e)"
  using assms
proof (induction es arbitrary: ready)
  case Nil
  then show ?case by auto
next
  case (Cons e es)
  show ?case
  proof (cases "edge_at e \<le> through")
    case False
    with Cons.prems show ?thesis by auto
  next
    case through: True
    show ?thesis
    proof (cases "local c - edge_at e > max_lateness c")
      case True
      with Cons.prems through show ?thesis by auto
    next
      case False
      let ?d = "\<lparr>dl_edge = e, delivered_half_cycle = local c, lateness_half_cycles = local c - edge_at e, batch_token = batch\<rparr>"
      have "pop_loop through batch es (ready @ [?d]) c = (late, rest, ready')"
        using Cons.prems through False by simp
      from Cons.IH [OF this] obtain taken where
        "ready' = (ready @ [?d]) @ map (\<lambda>e. \<lparr>dl_edge = e, delivered_half_cycle = local c,
             lateness_half_cycles = local c - edge_at e, batch_token = batch\<rparr>) taken"
        "\<forall>e \<in> set taken. edge_at e \<le> through \<and> local c - edge_at e \<le> max_lateness c"
        "case late of None \<Rightarrow> es = taken @ rest \<and> (rest \<noteq> [] \<longrightarrow> through < edge_at (hd rest))
         | Some e \<Rightarrow> es = taken @ e # rest \<and> max_lateness c < local c - edge_at e"
        by blast
      then show ?thesis
        using through False by (intro exI [of _ "e # taken"]) (auto split: option.splits)
    qed
  qed
qed

lemma pop_ready_edges_step: "step c (snd (pop_ready_edges b c))"
proof -
  obtain late rest ready where l: "pop_loop (min (local c) (watermark c)) b (edges c) [] c = (late, rest, ready)"
    by (metis prod_cases3)
  from pop_loop_spec [OF l] obtain taken where
    t: "ready = map (\<lambda>e. \<lparr>dl_edge = e, delivered_half_cycle = local c,
             lateness_half_cycles = local c - edge_at e, batch_token = b\<rparr>) taken"
    and b: "\<forall>e \<in> set taken. local c - edge_at e \<le> max_lateness c"
    and s: "case late of None \<Rightarrow> edges c = taken @ rest \<and> (rest \<noteq> [] \<longrightarrow> min (local c) (watermark c) < edge_at (hd rest))
         | Some e \<Rightarrow> edges c = taken @ e # rest \<and> max_lateness c < local c - edge_at e"
    by auto
  have late: "step c (snd (fail_late m ph e v (c\<lparr>edges := rest\<rparr>)))" if "late = Some e" "\<not> closed c" for m ph e v
    using s that by (intro step.pop_late [OF that(2), of taken e rest] halts_fail) auto
  have none: "step c (c\<lparr>edges := rest\<rparr>)" if "late = None" "ready = []"
  proof -
    from s t that have "rest = edges c" by simp
    then show ?thesis by (simp add: step.stay)
  qed
  have some: "step c (c\<lparr>edges := rest, pending_delivery := Some b, held_delivery := ready,
                  held_deadline := Some (edge_at (dl_edge (hd ready)) + max_lateness c)\<rparr>)"
    if "late = None" "ready \<noteq> []" "\<not> closed c" "pending c = None" "pending_delivery c = None"
  proof (rule step.popped [OF that(3-5,2)])
    show "edges c = map dl_edge ready @ rest" using s t that(1) by (simp add: comp_def)
    show "local c - edge_at (dl_edge (hd ready)) \<le> max_lateness c" using b t that(2) by (cases taken) auto
  qed
  show ?thesis
    unfolding pop_ready_edges_def l prod.case
    by (intro step_guards) (auto intro: step_leaves late none some)
qed

lemma acknowledge_delivery_step: "step c (snd (acknowledge_delivery b c))"
  unfolding acknowledge_delivery_def
  by (intro step_guards) (auto intro: step_leaves step.acknowledged)

lemma shut_steps: "step c (snd (cancel c))" "step c (snd (close c))"
proof -
  let ?r = "\<lambda>m. case terminal_reason c of None \<Rightarrow> Some m | Some r \<Rightarrow> Some r"
  have r: "terminal_reason c \<noteq> None \<longrightarrow> ?r m = terminal_reason c" "?r m \<noteq> None" for m
    by (auto split: option.splits)
  show "step c (snd (cancel c))"
    using step.shut [of c True, OF _ r] by (simp add: cancel_def)
  show "step c (snd (close c))"
    using step.shut [of c "cancelled c", OF _ r] by (simp add: close_def)
qed

lemma reset_step: "step c (snd (reset e k c))"
  unfolding reset_def by (intro step_guards) (auto intro: step_leaves)

theorem after_call_step:
  assumes "valid_rate (rate c)" "0 \<le> instructions c"
  shows "step c (after_call a c)"
  using assms
  by (cases a)
     (simp_all add: begin_episode_step begin_delivery_rearm_step finish_episode_step reserve_step commit_step
       discard_step set_speed_step record_peer_progress_step receive_edge_step advance_watermark_step
       pop_ready_edges_step acknowledge_delivery_step shut_steps reset_step)

end
