(* ===== verification/Time_Safety.thy ===== *)
theory Time_Safety
  imports Time_Steps
begin

text \<open>
  Safety of the emulated-time coordinator: the invariants every reachable instance satisfies, proved
  by cases on the steps of \<open>Time_Steps\<close>, and the guarantees of the single calls that follow.
\<close>

subsection \<open>Well-formed accounting\<close>

definition wf_coord :: "coord \<Rightarrow> bool" where
  "wf_coord c \<longleftrightarrow>
     valid_rate (rate c) \<and> 0 < quantum c \<and> 0 \<le> rearm c \<and> 0 \<le> max_lateness c \<and> 0 \<le> local c \<and> 0 \<le> peer c
     \<and> 0 \<le> progress_sequence c \<and> 0 \<le> last_sequence c \<and> 0 \<le> instructions c \<and> 0 \<le> token c
     \<and> (closed c \<longleftrightarrow> terminal_reason c \<noteq> None) \<and> sorted_wrt edge_before (edges c) \<and> length (edges c) \<le> 1024"

text \<open>The outstanding permit still fits the credit, and an open coordinator is within all its bounds.\<close>

definition permit_inv :: "coord \<Rightarrow> bool" where
  "permit_inv c \<longleftrightarrow> (\<forall>p. pending c = Some p \<longrightarrow>
     0 < half_cycles p \<and> permit_token p = token c
     \<and> local c + half_cycles p \<le> peer c + quantum c + (if episode_open c then rearm c else 0)
     \<and> (episode_open c \<longrightarrow> local c + half_cycles p \<le> episode_end c)
     \<and> (\<forall>d. held_deadline c = Some d \<longrightarrow> local c + half_cycles p \<le> d)
     \<and> (enforce_completeness c \<longrightarrow> local c + half_cycles p \<le> watermark c + max_lateness c))"

definition open_inv :: "coord \<Rightarrow> bool" where
  "open_inv c \<longleftrightarrow> (\<not> closed c \<longrightarrow>
     local c \<le> peer c + quantum c + rearm c
     \<and> (episode_open c \<longrightarrow> local c \<le> episode_end c)
     \<and> (\<forall>e \<in> set (edges c). local c - edge_at e \<le> max_lateness c)
     \<and> (\<forall>d. held_deadline c = Some d \<longrightarrow> local c \<le> d)
     \<and> (enforce_completeness c \<longrightarrow> local c = 0 \<or> local c \<le> watermark c + max_lateness c))"

lemma create_inv: "create ep k r l d q en = Inr c \<Longrightarrow> wf_coord c \<and> permit_inv c \<and> open_inv c"
  by (auto simp: create_def wf_coord_def permit_inv_def open_inv_def valid_rate_def int_at_least_def the_int_def
      split: if_splits pyval.splits)

lemma wf_halts: "halts d c' \<Longrightarrow> valid_rate (rate d) \<Longrightarrow> 0 \<le> local d \<Longrightarrow> 0 \<le> instructions d \<Longrightarrow>
    sorted_wrt edge_before (edges d) \<Longrightarrow> length (edges d) \<le> 1024 \<Longrightarrow>
    0 < quantum d \<Longrightarrow> 0 \<le> rearm d \<Longrightarrow> 0 \<le> max_lateness d \<Longrightarrow> 0 \<le> peer d \<Longrightarrow> 0 \<le> progress_sequence d \<Longrightarrow>
    0 \<le> last_sequence d \<Longrightarrow> 0 \<le> token d \<Longrightarrow> (closed d \<Longrightarrow> terminal_reason d \<noteq> None) \<Longrightarrow> wf_coord c'"
  unfolding wf_coord_def halts_def by (auto simp: record_failure_def)

lemma step_wf:
  assumes "step c c'" "wf_coord c"
  shows "wf_coord c'"
  using assms(1)
proof cases
  case stop
  with assms(2) show ?thesis by (intro wf_halts [OF stop]) (auto simp: wf_coord_def)
next
  case (overrun p clock elapsed rt left)
  with assms(2) show ?thesis
    by (intro wf_halts [OF overrun(6)]) (auto simp: wf_coord_def executed_def)
next
  case (dropped p rt ob)
  with assms(2) show ?thesis by (intro wf_halts [OF dropped(3)]) (auto simp: wf_coord_def)
next
  case (pop_late gone e rest)
  with assms(2) show ?thesis
    by (intro wf_halts [OF pop_late(4)]) (auto simp: wf_coord_def sorted_wrt_append)
next
  case (received e)
  with assms(2) edge_heap.push_sorted [of "edges c" e] edge_heap.push_length [of e "edges c"]
  show ?thesis by (auto simp: wf_coord_def)
next
  case (popped ready rest batch)
  with assms(2) show ?thesis by (auto simp: wf_coord_def sorted_wrt_append)
next
  case (acknowledged c1)
  with assms(2) show ?thesis by (auto simp: wf_coord_def)
qed (use assms(2) in \<open>auto simp: wf_coord_def executed_def\<close>)

lemma step_permit_inv:
  assumes "step c c'" "wf_coord c" "permit_inv c"
  shows "permit_inv c'"
  using assms(1)
proof cases
  case stop
  with assms(3) show ?thesis by (auto simp: permit_inv_def halts_fields)
next
  case (overrun p clock elapsed rt left)
  then show ?thesis by (auto simp: permit_inv_def halts_fields executed_def)
next
  case (dropped p rt ob)
  then show ?thesis by (auto simp: permit_inv_def halts_fields)
next
  case (pop_late gone e rest)
  with assms(3) show ?thesis by (auto simp: permit_inv_def halts_fields)
next
  case (granted p)
  with assms(2) show ?thesis
    by (auto simp: permit_inv_def permit_fits_def wf_coord_def valid_rate_def)
next
  case (progress n h)
  with assms(3) show ?thesis by (fastforce simp: permit_inv_def)
next
  case (watermarked w n)
  with assms(3) show ?thesis by (fastforce simp: permit_inv_def)
next
  case (acknowledged c1)
  then show ?thesis by (auto simp: permit_inv_def)
qed (use assms(3) in \<open>auto simp: permit_inv_def executed_def\<close>)

lemma step_open_inv:
  assumes "step c c'" "wf_coord c" "permit_inv c" "open_inv c"
  shows "open_inv c'"
  using assms(1)
proof cases
  case (execute p clock elapsed rt left)
  have pi: "local c + half_cycles p \<le> peer c + quantum c + (if episode_open c then rearm c else 0)"
    "episode_open c \<longrightarrow> local c + half_cycles p \<le> episode_end c"
    "enforce_completeness c \<longrightarrow> local c + half_cycles p \<le> watermark c + max_lateness c"
    using assms(3) execute(3) by (auto simp: permit_inv_def)
  have "0 \<le> rearm c" "sorted_wrt edge_before (edges c)" using assms(2) by (auto simp: wf_coord_def)
  have "\<forall>e \<in> set (edges c). local c + elapsed - edge_at e \<le> max_lateness c"
  proof (cases "edges c = []")
    case False
    with execute(10) have "local c + elapsed - edge_at (hd (edges c)) \<le> max_lateness c" by blast
    then show ?thesis
      by (intro edge_heap.front_bounds_all [OF \<open>sorted_wrt edge_before (edges c)\<close> _ False])
         (auto simp: edge_before_def)
  qed simp
  then show ?thesis
    unfolding open_inv_def execute(1) executed_def
    using execute(6,9) pi \<open>0 \<le> rearm c\<close> by (auto split: if_splits)
next
  case (begin_ep budget cap de ep)
  with assms(4) show ?thesis by (auto simp: open_inv_def)
next
  case (received e)
  with assms(4) show ?thesis by (auto simp: open_inv_def set_push_edge)
next
  case (popped ready rest batch)
  then have "local c \<le> edge_at (dl_edge (hd ready)) + max_lateness c" by linarith
  with popped assms(4) show ?thesis by (simp add: open_inv_def)
next
  case (acknowledged c1)
  with assms(4) show ?thesis by (auto simp: open_inv_def)
next
  case (progress n h)
  with assms(4) show ?thesis by (auto simp: open_inv_def)
next
  case (watermarked w n)
  with assms(4) show ?thesis by (auto simp: open_inv_def)
next
  case (finish)
  with assms(4) show ?thesis by (auto simp: open_inv_def)
qed (use assms(4) in \<open>auto simp: open_inv_def halts_fields executed_def\<close>)

theorem reachable_inv: "reachable c \<Longrightarrow> wf_coord c \<and> permit_inv c \<and> open_inv c"
proof (induction rule: reachable.induct)
  case (created ep clock r l d q en c)
  then show ?case by (rule create_inv)
next
  case (called c a)
  then have "step c (after_call a c)" by (intro after_call_step) (auto simp: wf_coord_def)
  with called.IH show ?case using step_wf step_permit_inv step_open_inv by blast
qed

lemmas reachable_wf = reachable_inv [THEN conjunct1]
lemmas reachable_open = reachable_inv [THEN conjunct2, THEN conjunct2]

lemmas reachable_permit = reachable_inv [THEN conjunct2, THEN conjunct1]

lemma reachable_step: "reachable c \<Longrightarrow> step c (after_call a c)"
  using reachable_wf by (intro after_call_step) (auto simp: wf_coord_def)

text \<open>The edges of a sorted queue are no earlier than its front.\<close>

lemma front_least:
  assumes "sorted_wrt edge_before (edges c)" "e \<in> set (edges c)"
  shows "edge_at (hd (edges c)) \<le> edge_at e"
proof -
  have "edges c \<noteq> []" using assms(2) by auto
  then have "\<forall>x \<in> set (edges c). - edge_at x \<le> - edge_at (hd (edges c))"
    by (intro edge_heap.front_bounds_all [OF assms(1)]) (auto simp: edge_before_def)
  with assms(2) show ?thesis by fastforce
qed

subsection \<open>Time stays within credit\<close>

text \<open>
  C1. In every reachable state of an open coordinator, whatever the sequence of calls, local time is at
  most one quantum and the rearm allowance ahead of committed peer progress, an open episode has
  not been overdrawn, no queued edge is later than the lateness bound, a held delivery is within
  its deadline, and the queue never exceeds its limit.
\<close>

theorem reachable_time_bounds:
  assumes "reachable c" and "\<not> closed c"
  shows "0 \<le> local c \<and> local c \<le> peer c + quantum c + rearm c \<and> debt c \<le> rearm c
    \<and> (episode_open c \<longrightarrow> local c \<le> episode_end c)
    \<and> (\<forall>e \<in> set (edges c). local c - edge_at e \<le> max_lateness c)
    \<and> (\<forall>d. held_deadline c = Some d \<longrightarrow> local c \<le> d)
    \<and> length (edges c) \<le> 1024"
  using reachable_wf [OF assms(1)] reachable_open [OF assms(1)] assms(2)
  by (auto simp: wf_coord_def open_inv_def debt_def)

text \<open>A coordinator that has just been anchored, and the same one with a permit issued.\<close>

definition sample_new :: coord where
  "sample_new = projr (create (PyStr ''epoch'') (PyInt 1000) (PyInt 64) (PyInt 16) (PyBool False) (PyInt 128) (PyBool False))"

definition sample_anchored :: coord where
  "sample_anchored = after_call (RecordPeerProgress (PyStr ''epoch'') (PyInt 1) (PyInt 0)) sample_new"

definition sample_running :: coord where
  "sample_running = after_call (Reserve (PyInt 100)) sample_anchored"

lemma sample_reachable: "reachable sample_new" "reachable sample_anchored" "reachable sample_running"
proof -
  have "create (PyStr ''epoch'') (PyInt 1000) (PyInt 64) (PyInt 16) (PyBool False) (PyInt 128) (PyBool False) = Inr sample_new"
    by code_simp
  then show n: "reachable sample_new" by (rule reachable.created)
  show a: "reachable sample_anchored" unfolding sample_anchored_def by (rule reachable.called [OF n])
  show "reachable sample_running" unfolding sample_running_def by (rule reachable.called [OF a])
qed

theorem reachable_time_bounds_witness:
  "local sample_running \<le> peer sample_running + quantum sample_running + rearm sample_running"
proof -
  have "\<not> closed sample_running" by code_simp
  with reachable_time_bounds [OF sample_reachable(3)] show ?thesis by simp
qed

text \<open>
  C2. A permit is only ever issued within every bound at once. It is at most what was asked for, it is
  counted at the current rate, it ends within the credit of the peer (plus the allowance of an open
  episode and never beyond that episode), within the deadline of a held delivery, and within the
  lateness bound of every queued edge, and beyond the watermark by at most that bound when
  completeness is enforced. No permit is issued while another is outstanding, before the peer has
  anchored the epoch, or over an unacknowledged delivery outside its own rearm episode.
\<close>

theorem reserve_grant_safe:
  assumes "reachable c" and "reserve n c = (Inr (Some p), c')"
  shows "\<not> closed c \<and> pending c = None \<and> progress_sequence c \<noteq> 0
    \<and> 0 < cpu_cycles p \<and> cpu_cycles p \<le> the_int n \<and> half_cycles p = cpu_cycles p * rate c
    \<and> local c + half_cycles p \<le> peer c + quantum c + (if episode_open c then rearm c else 0)
    \<and> (episode_open c \<longrightarrow> local c + half_cycles p \<le> episode_end c)
    \<and> (\<forall>d. held_deadline c = Some d \<longrightarrow> local c + half_cycles p \<le> d)
    \<and> (\<forall>e \<in> set (edges c). local c + half_cycles p \<le> edge_at e + max_lateness c)
    \<and> (enforce_completeness c \<longrightarrow> local c + half_cycles p \<le> watermark c + max_lateness c)
    \<and> (pending_delivery c \<noteq> None \<longrightarrow> delivery_episode c \<noteq> None \<and> episode c = delivery_episode c \<and> active_episode c)"
proof -
  have op: "\<not> closed c" and n: "int_at_least 1 n" and r: "reserve_core (the_int n) c = (Inr (Some p), c')"
    using assms(2) by (auto simp: reserve_def fail_def raise_closed_def split: if_splits)
  note wf = reachable_wf [OF assms(1)]
  have "valid_rate (rate c)" using wf by (simp add: wf_coord_def)
  note g = reserve_core_Some [OF r this int_at_least_pos [OF n]]
  have "local c + half_cycles p \<le> edge_at e + max_lateness c" if "e \<in> set (edges c)" for e
    using g front_least [OF _ that] wf that by (force simp: wf_coord_def)
  with op g show ?thesis unfolding permit_fits_def reserve_blocked_def by blast
qed

theorem reserve_grant_safe_witness:
  "case reserve (PyInt 100) sample_anchored of
     (Inr (Some p), _) \<Rightarrow> cpu_cycles p \<le> 100 \<and> local sample_anchored + half_cycles p \<le> peer sample_anchored + 256
   | _ \<Rightarrow> False"
proof -
  have "case reserve (PyInt 100) sample_anchored of (Inr (Some p), _) \<Rightarrow> True | _ \<Rightarrow> False"
    by code_simp
  then obtain p c' where p: "reserve (PyInt 100) sample_anchored = (Inr (Some p), c')"
    by (cases "reserve (PyInt 100) sample_anchored") (auto split: sum.splits option.splits)
  have "quantum sample_anchored = 256" "episode_open sample_anchored = False" by code_simp+
  with reserve_grant_safe [OF sample_reachable(2) p] p show ?thesis by (simp add: the_int_def)
qed

subsection \<open>Deliveries\<close>

text \<open>
  C3. Releasing edges never fails and never loses, repeats, reorders or delays one. In every reachable
  state of an open coordinator without permit and without unacknowledged batch, the call returns
  exactly the queued edges whose time has come and which the watermark covers, as the front part of
  the ordered queue, each with its true lateness between zero and the bound; the rest stay queued.
\<close>

theorem pop_ready_exact:
  assumes "reachable c" and op: "\<not> closed c" "pending c = None" "pending_delivery c = None"
  shows "\<exists>ready c'. pop_ready_edges b c = (Inr ready, c')
    \<and> edges c = map dl_edge ready @ edges c'
    \<and> set (map dl_edge ready) = {e \<in> set (edges c). edge_at e \<le> min (local c) (watermark c)}
    \<and> (\<forall>d \<in> set ready. lateness_half_cycles d = local c - edge_at (dl_edge d)
         \<and> 0 \<le> lateness_half_cycles d \<and> lateness_half_cycles d \<le> max_lateness c)
    \<and> pending_delivery c' = (if ready = [] then None else Some b)"
proof -
  let ?through = "min (local c) (watermark c)"
  obtain late rest ready where l: "pop_loop ?through b (edges c) [] c = (late, rest, ready)"
    by (metis prod_cases3)
  from pop_loop_spec [OF l] obtain taken where
    t: "ready = map (\<lambda>e. \<lparr>dl_edge = e, delivered_half_cycle = local c,
             lateness_half_cycles = local c - edge_at e, batch_token = b\<rparr>) taken"
    and b: "\<forall>e \<in> set taken. edge_at e \<le> ?through \<and> local c - edge_at e \<le> max_lateness c"
    and s: "case late of None \<Rightarrow> edges c = taken @ rest \<and> (rest \<noteq> [] \<longrightarrow> ?through < edge_at (hd rest))
         | Some e \<Rightarrow> edges c = taken @ e # rest \<and> max_lateness c < local c - edge_at e"
    by auto
  have "\<forall>e \<in> set (edges c). local c - edge_at e \<le> max_lateness c"
    using reachable_open [OF assms(1)] op(1) by (simp add: open_inv_def)
  with s have n: "late = None" and e: "edges c = taken @ rest" and stop: "rest \<noteq> [] \<longrightarrow> ?through < edge_at (hd rest)"
    by (auto split: option.splits)
  have "sorted_wrt edge_before rest"
    using reachable_wf [OF assms(1)] e by (simp add: wf_coord_def sorted_wrt_append)
  then have later: "?through < edge_at x" if "x \<in> set rest" for x
    using front_least [of "c\<lparr>edges := rest\<rparr>" x] stop that by auto
  have "set taken = {e \<in> set (edges c). edge_at e \<le> ?through}"
    using b later e by (auto simp: not_less [symmetric])
  moreover have "map dl_edge ready = taken" by (simp add: t comp_def)
  moreover have "\<forall>d \<in> set ready. lateness_half_cycles d = local c - edge_at (dl_edge d)
         \<and> 0 \<le> lateness_half_cycles d \<and> lateness_half_cycles d \<le> max_lateness c"
    using b by (auto simp: t)
  moreover define c' where "c' = (if ready = [] then c\<lparr>edges := rest\<rparr>
      else c\<lparr>edges := rest, pending_delivery := Some b, held_delivery := ready,
             held_deadline := Some (edge_at (dl_edge (hd ready)) + max_lateness c)\<rparr>)"
  moreover have "pop_ready_edges b c = (Inr ready, c')"
    using op by (simp add: pop_ready_edges_def l n c'_def)
  moreover have "edges c' = rest" "pending_delivery c' = (if ready = [] then None else Some b)"
    using op by (simp_all add: c'_def)
  ultimately show ?thesis
    by (intro exI [of _ ready] exI [of _ c']) (simp only: e)
qed

definition sample_delivering :: coord where
  "sample_delivering =
     foldl (\<lambda>c a. after_call a c) sample_running
       [ReceiveEdge (PyStr ''epoch'') (PyInt 1) (PyInt 190) (PyBytes [7]),
        Commit (Issued 1) (PyInt 1100) (PyInt 50) NoTransition,
        AdvanceWatermark (PyStr ''epoch'') (PyInt 1) (PyInt 300)]"

lemma reachable_foldl: "reachable c \<Longrightarrow> reachable (foldl (\<lambda>c a. after_call a c) c as)"
  by (induction "as" arbitrary: c) (auto intro: reachable.called)

theorem pop_ready_exact_witness:
  "\<exists>ready c'. pop_ready_edges 5 sample_delivering = (Inr ready, c') \<and> map edge_at (map dl_edge ready) = [190]"
proof -
  have r: "reachable sample_delivering"
    unfolding sample_delivering_def by (rule reachable_foldl [OF sample_reachable(3)])
  have "\<not> closed sample_delivering" "pending sample_delivering = None" "pending_delivery sample_delivering = None"
    by code_simp+
  from pop_ready_exact [OF r this, of 5] obtain ready c' where
    p: "pop_ready_edges 5 sample_delivering = (Inr ready, c')" "edges sample_delivering = map dl_edge ready @ edges c'"
       "set (map dl_edge ready) = {e \<in> set (edges sample_delivering). edge_at e \<le> min (local sample_delivering) (watermark sample_delivering)}"
    by blast
  have q: "map edge_at (edges sample_delivering) = [190]" "min (local sample_delivering) (watermark sample_delivering) = 200"
    by code_simp+
  then obtain e where e: "edges sample_delivering = [e]" "edge_at e = 190" by (cases "edges sample_delivering") auto
  with p(3) q(2) have "set (map dl_edge ready) = {e}" by auto
  with p(2) e have "map dl_edge ready = [e]" by (cases ready) auto
  with p(1) e(2) show ?thesis by auto
qed

text \<open>
  C4. Completeness bounds unseen edges, as the class promises: with completeness enforced, in every
  reachable open state, a new edge that keeps to the attested watermark (it lies after it), in
  sequence and within the size and backlog limits, is always accepted - execution has never run so
  far that it would be too late.
\<close>

theorem complete_edges_never_late:
  assumes "reachable c" and "\<not> closed c" and "enforce_completeness c"
    and "epoch_problem ep c = None" and "is_payload payload" and "length (edges c) < 1024"
    and "watermark c < a" and "0 \<le> a"
  shows "fst (receive_edge ep (PyInt (last_sequence c + 1)) (PyInt a) payload c) = Inr True"
proof -
  have "local c - a \<le> max_lateness c"
    using reachable_open [OF assms(1)] reachable_wf [OF assms(1)] assms(2,3,7,8)
    by (auto simp: open_inv_def wf_coord_def)
  moreover have "1 \<le> last_sequence c + 1" using reachable_wf [OF assms(1)] by (simp add: wf_coord_def)
  ultimately show ?thesis
    using assms(2-) by (simp add: receive_edge_def int_at_least_def the_int_def MAX_PENDING_EDGES_def Let_def)
qed

definition sample_enforced :: coord where
  "sample_enforced = after_call (AdvanceWatermark (PyStr ''epoch'') (PyInt 0) (PyInt 40))
     (projr (create (PyStr ''epoch'') (PyInt 0) (PyInt 64) (PyInt 16) (PyBool False) (PyInt 128) (PyBool True)))"

theorem complete_edges_never_late_witness:
  "fst (receive_edge (PyStr ''epoch'') (PyInt 1) (PyInt 41) (PyBytes []) sample_enforced) = Inr True"
proof -
  let ?new = "projr (create (PyStr ''epoch'') (PyInt 0) (PyInt 64) (PyInt 16) (PyBool False) (PyInt 128) (PyBool True))"
  have "create (PyStr ''epoch'') (PyInt 0) (PyInt 64) (PyInt 16) (PyBool False) (PyInt 128) (PyBool True) = Inr ?new"
    by code_simp
  then have r: "reachable sample_enforced"
    unfolding sample_enforced_def by (intro reachable.called reachable.created)
  have q: "\<not> closed sample_enforced" "enforce_completeness sample_enforced"
    "epoch_problem (PyStr ''epoch'') sample_enforced = None" "is_payload (PyBytes [])"
    "length (edges sample_enforced) < 1024" "watermark sample_enforced < 41" "last_sequence sample_enforced = 0"
    by code_simp+
  from complete_edges_never_late [OF r q(1-6)] q(7) show ?thesis by simp
qed

subsection \<open>Failing and closing\<close>

lemma record_failure_terminal:
  "terminal_reason c = Some r \<Longrightarrow> terminal_reason (record_failure m ph s a l c) = Some r
     \<and> failure (record_failure m ph s a l c) = failure c"
  by (simp add: record_failure_def)

lemma halts_terminal:
  "halts d c' \<Longrightarrow> terminal_reason d = Some r \<Longrightarrow> terminal_reason c' = Some r \<and> failure c' = failure d"
  by (auto simp: halts_def record_failure_terminal)

lemma step_terminal:
  assumes "step c c'" "wf_coord c" "terminal_reason c = Some r"
  shows "terminal_reason c' = Some r \<and> failure c' = failure c \<and> closed c'"
  using assms(1)
proof cases
  case stop
  with halts_terminal [OF stop assms(3)] show ?thesis by (simp add: halts_fields)
next
  case (overrun p clock elapsed rt left)
  with halts_terminal [OF overrun(6), of r] assms(3) show ?thesis by (simp add: halts_fields executed_def)
next
  case (dropped p rt ob)
  with halts_terminal [OF dropped(3), of r] assms(3) show ?thesis by (simp add: halts_fields)
next
  case (pop_late gone e rest)
  with halts_terminal [OF pop_late(4), of r] assms(3) show ?thesis by (simp add: halts_fields)
qed (use assms(2,3) in \<open>auto simp: wf_coord_def\<close>)

text \<open>
  Only the first terminal event counts. Once an instance has a terminal reason - a contract failure
  with its snapshot, a cancellation or a closure - it stays closed through every further sequence of
  calls, and neither the reason nor the failure snapshot ever changes; an earlier cancellation or
  closure leaves the failure absent for good.
\<close>

theorem first_failure_kept:
  assumes "reachable c" and "terminal_reason c = Some r"
  shows "terminal_reason (foldl (\<lambda>c a. after_call a c) c as) = Some r
    \<and> failure (foldl (\<lambda>c a. after_call a c) c as) = failure c
    \<and> closed (foldl (\<lambda>c a. after_call a c) c as)"
  using assms
proof (induction "as" arbitrary: c)
  case Nil
  then show ?case using reachable_wf by (auto simp: wf_coord_def)
next
  case (Cons a "as")
  from step_terminal [OF reachable_step [OF Cons.prems(1)] reachable_wf [OF Cons.prems(1)] Cons.prems(2)]
  show ?case using Cons.IH [OF reachable.called [OF Cons.prems(1)]] by auto
qed

theorem first_failure_kept_witness:
  "terminal_reason (foldl (\<lambda>c a. after_call a c) (after_call Cancel sample_running)
     [Commit (Issued 1) (PyInt 5000) (PyInt 1) NoTransition, Close, Reserve (PyInt 1)]) = Some ''coordinator cancelled''"
proof -
  have "terminal_reason (after_call Cancel sample_running) = Some ''coordinator cancelled''"
    by code_simp
  from first_failure_kept [OF reachable.called [OF sample_reachable(3)] this] show ?thesis by blast
qed

text \<open>
  A closed instance is inert. With no permit outstanding, every call except cancelling and closing
  leaves it exactly as it is; an outstanding permit can still be settled, and that is all - peer
  progress, the received edges, the watermark and the deliveries never change again.
\<close>

theorem closed_is_inert:
  assumes "closed c"
  shows "(pending c = None \<and> a \<noteq> Cancel \<and> a \<noteq> Close \<longrightarrow> after_call a c = c)
    \<and> peer (after_call a c) = peer c \<and> edges (after_call a c) = edges c
    \<and> watermark (after_call a c) = watermark c \<and> pending_delivery (after_call a c) = pending_delivery c"
proof -
  have commit: "peer (snd (commit ref k i tr c)) = peer c \<and> edges (snd (commit ref k i tr c)) = edges c
      \<and> watermark (snd (commit ref k i tr c)) = watermark c
      \<and> pending_delivery (snd (commit ref k i tr c)) = pending_delivery c
      \<and> (pending c = None \<longrightarrow> snd (commit ref k i tr c) = c)" for ref k i tr
    using assms
    by (auto simp: commit_def held_permit_def settle_def record_execution_def fail_def raise_closed_def Let_def
        split: option.splits permit_ref.splits)
  have discard: "peer (snd (discard_unconsumed_permit ref k i d c)) = peer c
      \<and> edges (snd (discard_unconsumed_permit ref k i d c)) = edges c
      \<and> watermark (snd (discard_unconsumed_permit ref k i d c)) = watermark c
      \<and> pending_delivery (snd (discard_unconsumed_permit ref k i d c)) = pending_delivery c
      \<and> (pending c = None \<longrightarrow> snd (discard_unconsumed_permit ref k i d c) = c)" for ref k i d
    using assms
    by (auto simp: discard_unconsumed_permit_def held_permit_def fail_def raise_closed_def Let_def
        split: option.splits permit_ref.splits)
  show ?thesis
    using assms
    by (cases a)
       (simp_all add: commit discard begin_episode_def begin_delivery_rearm_def finish_episode_def reserve_def
         set_speed_def record_peer_progress_def receive_edge_def advance_watermark_def pop_ready_edges_def
         acknowledge_delivery_def cancel_def close_def reset_def raise_closed_def)
qed

theorem closed_is_inert_witness:
  "after_call (ReceiveEdge (PyStr ''epoch'') (PyInt 1) (PyInt 500) (PyBytes [])) (after_call Close sample_anchored)
     = after_call Close sample_anchored"
proof -
  have "closed (after_call Close sample_anchored)" "pending (after_call Close sample_anchored) = None"
    by code_simp+
  with closed_is_inert [OF this(1), of "ReceiveEdge (PyStr ''epoch'') (PyInt 1) (PyInt 500) (PyBytes [])"]
  show ?thesis by simp
qed

subsection \<open>Monotone clocks and sequences\<close>

text \<open>
  Nothing is ever rolled back: through any single call in any reachable state, failing or not, local
  time, committed peer progress, the raw clock, the watermark and all sequence numbers never decrease.
\<close>

theorem call_monotone:
  assumes "reachable c"
  shows "local c \<le> local (after_call a c) \<and> peer c \<le> peer (after_call a c) \<and> raw c \<le> raw (after_call a c)
    \<and> watermark c \<le> watermark (after_call a c) \<and> watermark_sequence c \<le> watermark_sequence (after_call a c)
    \<and> progress_sequence c \<le> progress_sequence (after_call a c)
    \<and> last_sequence c \<le> last_sequence (after_call a c) \<and> token c \<le> token (after_call a c)"
  using reachable_step [OF assms, of a]
proof cases
  case stop
  then show ?thesis by (simp add: halts_fields)
next
  case (overrun p clock elapsed rt left)
  then show ?thesis by (simp add: halts_fields executed_def)
next
  case (dropped p rt ob)
  then show ?thesis by (simp add: halts_fields)
next
  case (pop_late gone e rest)
  then show ?thesis by (simp add: halts_fields)
qed (auto simp: executed_def)

theorem call_monotone_witness:
  "local sample_running \<le> local (after_call (Commit (Issued 1) (PyInt 1100) (PyInt 50) NoTransition) sample_running)"
  using call_monotone [OF sample_reachable(3)] by blast

subsection \<open>Replays\<close>

lemma epoch_problem_same [simp]:
  "epoch_problem ep (c\<lparr>progress_sequence := n, peer := h\<rparr>) = epoch_problem ep c"
  "epoch_problem ep (c\<lparr>last_sequence := n, last_edge := e, edges := es\<rparr>) = epoch_problem ep c"
  by (simp_all add: epoch_problem_def)

lemma record_peer_progress_True:
  assumes "record_peer_progress ep n h c = (Inr True, c')"
  shows "\<not> closed c \<and> epoch_problem ep c = None \<and> int_at_least 1 n \<and> int_at_least 0 h
    \<and> c' = c\<lparr>progress_sequence := the_int n, peer := the_int h\<rparr>"
  using assms unfolding record_peer_progress_def fail_def raise_closed_def
  by (simp split: if_split_asm option.split_asm)

lemma receive_edge_True:
  assumes "receive_edge ep n a pl c = (Inr True, c')"
  shows "\<not> closed c \<and> epoch_problem ep c = None \<and> int_at_least 1 n \<and> int_at_least 0 a \<and> is_payload pl
    \<and> (let e = \<lparr>edge_epoch = the_str ep, edge_sequence = the_int n, edge_at = the_int a, edge_payload = the_bytes pl\<rparr>
       in c' = c\<lparr>last_sequence := the_int n, last_edge := Some e, edges := push_edge e (edges c)\<rparr>)"
  using assms unfolding receive_edge_def fail_def fail_late_def raise_closed_def Let_def
  by (simp split: if_split_asm option.split_asm)

lemma begin_episode_replay:
  assumes "begin_episode r b i c = (Inr (), c')"
  shows "\<not> closed c' \<and> is_name r \<and> int_at_least 1 b \<and> int_at_least 1 i \<and> the_int b * 2 \<le> rearm c'
    \<and> episode c' = Some (the_str r, the_int b, the_int i)"
  using assms unfolding begin_episode_def fail_def raise_closed_def Let_def
  by (simp split: if_split_asm) auto

text \<open>
  Retrying is harmless: repeating the latest progress report, the latest edge receipt or the current
  episode request right after it succeeded changes nothing, and the first two answer false for a replay.
\<close>

theorem replays_change_nothing:
  "(record_peer_progress ep n h c = (Inr True, c') \<longrightarrow> record_peer_progress ep n h c' = (Inr False, c'))
   \<and> (receive_edge ep n a pl c = (Inr True, c') \<longrightarrow> receive_edge ep n a pl c' = (Inr False, c'))
   \<and> (begin_episode r b i c = (Inr (), c') \<longrightarrow> begin_episode r b i c' = (Inr (), c'))"
proof (intro conjI impI)
  assume "record_peer_progress ep n h c = (Inr True, c')"
  from record_peer_progress_True [OF this] show "record_peer_progress ep n h c' = (Inr False, c')"
    by (auto simp: record_peer_progress_def)
next
  assume "receive_edge ep n a pl c = (Inr True, c')"
  from receive_edge_True [OF this] show "receive_edge ep n a pl c' = (Inr False, c')"
    by (auto simp: receive_edge_def Let_def)
next
  assume "begin_episode r b i c = (Inr (), c')"
  from begin_episode_replay [OF this] show "begin_episode r b i c' = (Inr (), c')"
    by (auto simp: begin_episode_def)
qed

theorem replays_change_nothing_witness:
  "record_peer_progress (PyStr ''epoch'') (PyInt 1) (PyInt 0) sample_anchored = (Inr False, sample_anchored)"
proof -
  have "fst (record_peer_progress (PyStr ''epoch'') (PyInt 1) (PyInt 0) sample_new) = Inr True"
    by code_simp
  then have "record_peer_progress (PyStr ''epoch'') (PyInt 1) (PyInt 0) sample_new = (Inr True, sample_anchored)"
    by (simp add: sample_anchored_def prod_eq_iff)
  then show ?thesis by (rule replays_change_nothing [THEN conjunct1, THEN mp])
qed

subsection \<open>Commits\<close>

lemma settle_ends: "snd (settle p dl e ex d) = d \<or> halts d (snd (settle p dl e ex d))"
  unfolding settle_def Let_def by (auto simp: halts_fail halts_closed)

text \<open>
  Execution that happened is recorded before it is judged: whenever the outstanding permit is
  committed with a forward clock and well-formed transition data, the local time grows by exactly the
  elapsed half cycles at the rates in force, the raw clock becomes the reported one and the permit is
  used up - on success, on every failed check and on an instance that was closed meanwhile.
\<close>

theorem commit_records_execution:
  assumes "pending c = Some p" and "raw c < k" and "0 \<le> k" and "transition_valid tr c k"
  shows "case snd (commit (Issued (permit_token p)) (PyInt k) ex tr c) of c' \<Rightarrow>
    local c' = local c + elapsed_halves tr c k \<and> raw c' = k \<and> observed_raw c' = k \<and> pending c' = None
    \<and> rate c' = transition_rate tr c \<and> (closed c \<longrightarrow> closed c')"
proof -
  let ?c1 = "c\<lparr>observed_raw := k\<rparr>"
  let ?d = "record_execution tr k ex ?c1"
  have el: "elapsed_halves tr ?c1 k = elapsed_halves tr c k" "transition_rate tr ?c1 = transition_rate tr c"
      "transition_valid tr ?c1 k"
    using assms(4)
    by (auto simp: elapsed_halves_def transition_rate_def transition_valid_def split: transition_arg.splits pyval.splits)
  have c: "commit (Issued (permit_token p)) (PyInt k) ex tr c = settle p (k - raw c) (elapsed_halves tr ?c1 k) ex ?d"
    using assms el by (simp add: commit_def held_permit_def int_at_least_def the_int_def Let_def)
  have d: "local ?d = local c + elapsed_halves tr c k" "raw ?d = k" "observed_raw ?d = k" "pending ?d = None"
      "rate ?d = transition_rate tr c" "closed ?d = closed c"
    using el by (simp_all add: record_execution_def)
  from settle_ends [of p "k - raw c" "elapsed_halves tr ?c1 k" ex ?d] show ?thesis
    unfolding c using d by (auto simp: halts_fields)
qed

theorem commit_records_execution_witness:
  "local (snd (commit (Issued 1) (PyInt 1007) (PyInt 99999) (SpeedTransition (PyInt 1002) (PyBool True)) sample_running)) = 9"
proof -
  have "map_option permit_token (pending sample_running) = Some 1" by code_simp
  then obtain p where p: "pending sample_running = Some p" "permit_token p = 1" by auto
  have "raw sample_running < 1007" "(0::int) \<le> 1007"
    "transition_valid (SpeedTransition (PyInt 1002) (PyBool True)) sample_running 1007"
    "local sample_running + elapsed_halves (SpeedTransition (PyInt 1002) (PyBool True)) sample_running 1007 = 9"
    by code_simp+
  with commit_records_execution [OF p(1) this(1-3), of "PyInt 99999"] p(2) show ?thesis by simp
qed

lemma commit_within_permit:
  assumes "reachable c" and "\<not> closed c" and "pending c = Some p" and "raw c < k" and "0 \<le> k"
    and "transition_valid tr c k" and "k - raw c \<le> cpu_cycles p" and "elapsed_halves tr c k \<le> half_cycles p"
    and "0 \<le> i" and "i \<le> instruction_cap p"
    and "\<forall>e \<in> set (edges c). local c + elapsed_halves tr c k \<le> edge_at e + max_lateness c"
  shows "commit (Issued (permit_token p)) (PyInt k) (PyInt i) tr c =
      (Inr (snapshot (record_execution tr k (PyInt i) (c\<lparr>observed_raw := k\<rparr>))), record_execution tr k (PyInt i) (c\<lparr>observed_raw := k\<rparr>))
    \<and> elapsed_halves tr (c\<lparr>observed_raw := k\<rparr>) k = elapsed_halves tr c k"
proof -
  let ?c1 = "c\<lparr>observed_raw := k\<rparr>"
  let ?d = "record_execution tr k (PyInt i) ?c1"
  have el: "elapsed_halves tr ?c1 k = elapsed_halves tr c k" "transition_valid tr ?c1 k"
    using assms(6)
    by (auto simp: elapsed_halves_def transition_rate_def transition_valid_def split: transition_arg.splits pyval.splits)
  have c: "commit (Issued (permit_token p)) (PyInt k) (PyInt i) tr c
      = settle p (k - raw c) (elapsed_halves tr c k) (PyInt i) ?d"
    using assms el by (simp add: commit_def held_permit_def int_at_least_def the_int_def Let_def)
  have d: "closed ?d = closed c" "local ?d = local c + elapsed_halves tr c k" "edges ?d = edges c"
      "held_deadline ?d = held_deadline c" "max_lateness ?d = max_lateness c"
    using el by (simp_all add: record_execution_def)
  have "\<forall>x. held_deadline c = Some x \<longrightarrow> local c + elapsed_halves tr c k \<le> x"
    using reachable_permit [OF assms(1)] assms(3,8) by (fastforce simp: permit_inv_def)
  moreover have "edges c \<noteq> [] \<longrightarrow> local c + elapsed_halves tr c k - edge_at (hd (edges c)) \<le> max_lateness c"
    using assms(11) by (cases "edges c") auto
  ultimately have "settle p (k - raw c) (elapsed_halves tr c k) (PyInt i) ?d = (Inr (snapshot ?d), ?d)"
    using assms(2,7-10)
    by (cases "held_deadline c"; cases "edges c = []") (simp_all add: settle_def d int_at_least_def the_int_def)
  with c el(1) show ?thesis by simp
qed

text \<open>
  A truthful commit within its permit succeeds: in every reachable open state, executing at most the
  permitted cycles, half cycles and instructions, with no queued edge left too late by it, returns the
  new snapshot and keeps the coordinator open. The deadline of a held delivery needs no check of the
  caller: the permit already respects it.
\<close>

theorem commit_within_permit_succeeds:
  assumes "reachable c" and "\<not> closed c" and "pending c = Some p" and "raw c < k" and "0 \<le> k"
    and "transition_valid tr c k" and "k - raw c \<le> cpu_cycles p" and "elapsed_halves tr c k \<le> half_cycles p"
    and "0 \<le> i" and "i \<le> instruction_cap p"
    and "\<forall>e \<in> set (edges c). local c + elapsed_halves tr c k \<le> edge_at e + max_lateness c"
  shows "\<exists>c'. commit (Issued (permit_token p)) (PyInt k) (PyInt i) tr c = (Inr (snapshot c'), c')
    \<and> \<not> closed c' \<and> local c' = local c + elapsed_halves tr c k"
  using commit_within_permit [OF assms] assms(2)
  by (intro exI [of _ "record_execution tr k (PyInt i) (c\<lparr>observed_raw := k\<rparr>)"]) (simp add: record_execution_def)

theorem commit_within_permit_succeeds_witness:
  "\<exists>c'. commit (Issued 1) (PyInt 1100) (PyInt 40) NoTransition sample_running = (Inr (snapshot c'), c') \<and> local c' = 200"
proof -
  have q: "map_option (\<lambda>p. (permit_token p, cpu_cycles p, half_cycles p, instruction_cap p)) (pending sample_running)
      = Some (1, 100, 200, 100)" by code_simp
  then obtain p where p: "pending sample_running = Some p" "permit_token p = 1" "cpu_cycles p = 100"
      "half_cycles p = 200" "instruction_cap p = 100" by auto
  have o: "\<not> closed sample_running" "raw sample_running = 1000" "local sample_running = 0" "edges sample_running = []"
    "transition_valid NoTransition sample_running 1100" "elapsed_halves NoTransition sample_running 1100 = 200"
    by code_simp+
  from commit_within_permit_succeeds [OF sample_reachable(3) o(1) p(1), of 1100 NoTransition 40] p o
  show ?thesis by auto
qed

end
