(* ===== verification/Wire_Codec.thy ===== *)
theory Wire_Codec
  imports Prelude
begin

text \<open>
  The frame codec of the timed wire (\<open>link/timed_wire.py\<close>, lines 1 to 197): eight message types in a
  32-byte big-endian header and a body of fixed width. The encoder takes what Python gives it, the
  decoder gives back integers, so a message is a datatype over the type of its fields.
\<close>

datatype wire_error =
    ProtocolError string
  | ChannelClosed string
  | DeadlineExceeded string
  | Cancelled string

datatype 'v message =
    Hello 'v
  | Progress 'v
  | EdgeRequest 'v 'v 'v 'v
  | EmissionComplete 'v 'v
  | EdgeResponse 'v 'v 'v
  | Sync 'v
  | Fence 'v 'v
  | FenceAck 'v 'v

record frame =
  fr_epoch :: "byte list"
  fr_sequence :: int
  fr_message :: "int message"
  fr_revision :: int

text \<open>What a caller may pass as a message and as a frame.\<close>

datatype py_message = IsMessage "pyval message" | NotAMessage
datatype py_frame = PyFrame pyval pyval py_message pyval | NotAFrame

subsection \<open>Layouts\<close>

definition MAGIC :: "byte list" where "MAGIC = [0x50, 0x4B, 0x54, 0x57]"
definition HEADER_SIZE :: nat where "HEADER_SIZE = 32"
definition MAX_BODY :: int where "MAX_BODY = 25"

fun message_tag :: "'v message \<Rightarrow> int" where
  "message_tag (Hello _) = 1"
| "message_tag (Progress _) = 2"
| "message_tag (EdgeRequest _ _ _ _) = 3"
| "message_tag (EmissionComplete _ _) = 4"
| "message_tag (EdgeResponse _ _ _) = 5"
| "message_tag (Sync _) = 6"
| "message_tag (Fence _ _) = 7"
| "message_tag (FenceAck _ _) = 8"

text \<open>The dataclass fields in their order, and the constructor applied to unpacked values.\<close>

fun message_values :: "'v message \<Rightarrow> 'v list" where
  "message_values (Hello a) = [a]"
| "message_values (Progress a) = [a]"
| "message_values (EdgeRequest a b c d) = [a, b, c, d]"
| "message_values (EmissionComplete a b) = [a, b]"
| "message_values (EdgeResponse a b c) = [a, b, c]"
| "message_values (Sync a) = [a]"
| "message_values (Fence a b) = [a, b]"
| "message_values (FenceAck a b) = [a, b]"

text \<open>The byte widths of the struct formats; there is none for an unknown tag.\<close>

definition layout :: "int \<Rightarrow> nat list option" where
  "layout tag =
     (if tag = 1 then Some [4] else if tag = 2 then Some [8] else if tag = 3 then Some [8, 8, 8, 1]
      else if tag = 4 then Some [8, 8] else if tag = 5 then Some [8, 8, 1] else if tag = 6 then Some [1]
      else if tag = 7 then Some [8, 8] else if tag = 8 then Some [8, 8] else None)"

definition make_message :: "int \<Rightarrow> int list \<Rightarrow> int message option" where
  "make_message tag vs =
     (case vs of
        [a] \<Rightarrow> if tag = 1 then Some (Hello a) else if tag = 2 then Some (Progress a)
               else if tag = 6 then Some (Sync a) else None
      | [a, b] \<Rightarrow> if tag = 4 then Some (EmissionComplete a b) else if tag = 7 then Some (Fence a b)
                  else if tag = 8 then Some (FenceAck a b) else None
      | [a, b, c] \<Rightarrow> if tag = 5 then Some (EdgeResponse a b c) else None
      | [a, b, c, d] \<Rightarrow> if tag = 3 then Some (EdgeRequest a b c d) else None
      | _ \<Rightarrow> None)"

fun pack :: "nat list \<Rightarrow> int list \<Rightarrow> byte list" where
  "pack (w # ws) (v # vs) = be_bytes w v @ pack ws vs"
| "pack _ _ = []"

fun unpack :: "nat list \<Rightarrow> byte list \<Rightarrow> int list" where
  "unpack [] bs = []"
| "unpack (w # ws) bs = be_int (take w bs) # unpack ws (drop w bs)"

subsection \<open>Validation\<close>

definition uint_message :: "nat \<Rightarrow> string" where
  "uint_message bits =
     ''expected uint'' @ (if bits = 64 then ''64'' else if bits = 32 then ''32'' else if bits = 8 then ''8'' else ''1'')"

definition check_uint :: "nat \<Rightarrow> pyval \<Rightarrow> wire_error + int" where
  "check_uint bits v =
     (case v of
        PyInt n \<Rightarrow> if 0 \<le> n \<and> n < 2 ^ bits then Inr n else Inl (ProtocolError (uint_message bits))
      | _ \<Rightarrow> Inl (ProtocolError (uint_message bits)))"

definition check_epoch :: "pyval \<Rightarrow> wire_error + byte list" where
  "check_epoch v =
     (case v of
        PyBytes bs \<Rightarrow> if length bs = 16 then Inr bs else Inl (ProtocolError ''epoch must be exactly 16 bytes'')
      | _ \<Rightarrow> Inl (ProtocolError ''epoch must be exactly 16 bytes''))"

definition check_revision :: "pyval \<Rightarrow> wire_error + int" where
  "check_revision v =
     (case v of
        PyInt n \<Rightarrow> if n = 2 \<or> n = 3 then Inr n else Inl (ProtocolError ''revision must be 2 or 3'')
      | _ \<Rightarrow> Inl (ProtocolError ''revision must be 2 or 3''))"

text \<open>The width check of each field: by tag, and by position for the two messages that end in a bit.\<close>

definition field_bits :: "int \<Rightarrow> nat \<Rightarrow> nat \<Rightarrow> nat" where
  "field_bits tag len index =
     (if tag = 1 then 32 else if tag = 6 then 8
      else if (tag = 3 \<or> tag = 5) \<and> index = len - 1 then 1 else 64)"

definition check_values :: "int \<Rightarrow> pyval list \<Rightarrow> wire_error + int list" where
  "check_values tag vs =
     rmapM (\<lambda>(index, v). check_uint (field_bits tag (length vs) index) v) (zip [0..<length vs] vs)"

definition check_message :: "int \<Rightarrow> int message \<Rightarrow> wire_error + unit" where
  "check_message revision m =
     (case m of
        Hello c \<Rightarrow> if c \<noteq> (if revision = 3 then 1 else 0)
                   then Inl (ProtocolError ''Hello capabilities must be zero for v2 or one for v3'') else Inr ()
      | EdgeRequest _ scheduled observed _ \<Rightarrow>
          if scheduled > observed then Inl (ProtocolError ''scheduled edge exceeds observation'') else Inr ()
      | _ \<Rightarrow> Inr ())"

definition payload :: "py_message \<Rightarrow> pyval \<Rightarrow> wire_error + int \<times> byte list" where
  "payload message rv =
     rbind (check_revision rv) (\<lambda>revision.
     case message of
       NotAMessage \<Rightarrow> Inl (ProtocolError ''unknown message type'')
     | IsMessage m \<Rightarrow>
         let tag = message_tag m
         in if revision = 2 \<and> tag \<ge> 6 then Inl (ProtocolError ''control messages require revision 3'')
            else rbind (check_values tag (message_values m)) (\<lambda>vs.
                 case make_message tag vs of
                   None \<Rightarrow> Inl (ProtocolError ''unknown message type'')
                 | Some m' \<Rightarrow> rbind (check_message revision m') (\<lambda>_. Inr (tag, pack (the (layout tag)) vs))))"

definition encode_frame :: "py_frame \<Rightarrow> wire_error + byte list" where
  "encode_frame frame =
     (case frame of
        NotAFrame \<Rightarrow> Inl (ProtocolError ''expected Frame'')
      | PyFrame epoch sequence message revision \<Rightarrow>
          rbind (check_epoch epoch) (\<lambda>ep.
          rbind (check_uint 64 sequence) (\<lambda>n.
          if n = 0 then Inl (ProtocolError ''sequence starts at one'')
          else rbind (payload message revision) (\<lambda>(tag, body).
          rbind (check_revision revision) (\<lambda>rv.
            Inr (MAGIC @ be_bytes 1 rv @ be_bytes 1 tag @ be_bytes 2 (int (length body)) @ ep @ be_bytes 8 n @ body))))))"

subsection \<open>Decoding\<close>

text \<open>The header: the body layout and tag (the class), the epoch, the sequence and the version.\<close>

definition parse_header :: "byte list \<Rightarrow> wire_error + int \<times> nat list \<times> byte list \<times> int \<times> int" where
  "parse_header data =
     (let magic = take 4 data; version = be_int (take 1 (drop 4 data)); tag = be_int (take 1 (drop 5 data));
          len = be_int (take 2 (drop 6 data)); epoch = take 16 (drop 8 data); sequence = be_int (take 8 (drop 24 data))
      in if magic \<noteq> MAGIC \<or> \<not> (version = 2 \<or> version = 3) \<or> layout tag = None
         then Inl (ProtocolError ''invalid magic, version, or message type'')
         else if version = 2 \<and> tag \<ge> 6 then Inl (ProtocolError ''control messages require revision 3'')
         else let ws = the (layout tag)
              in if len > MAX_BODY \<or> len \<noteq> int (sum_list ws) \<or> sequence = 0
                 then Inl (ProtocolError ''invalid payload length or sequence'')
                 else Inr (tag, ws, epoch, sequence, version))"

definition decode_frame :: "pyval \<Rightarrow> wire_error + frame" where
  "decode_frame d =
     (case d of
        PyBytes data \<Rightarrow>
          if length data < HEADER_SIZE then Inl (ProtocolError ''expected complete frame bytes'')
          else rbind (parse_header (take HEADER_SIZE data)) (\<lambda>(tag, ws, epoch, sequence, revision).
            if length data \<noteq> HEADER_SIZE + sum_list ws then Inl (ProtocolError ''frame length mismatch'')
            else case make_message tag (unpack ws (drop HEADER_SIZE data)) of
                   None \<Rightarrow> Inl (ProtocolError ''unknown message type'')
                 | Some m \<Rightarrow>
                     rbind (payload (IsMessage (map_message PyInt m)) (PyInt revision)) (\<lambda>_.
                       Inr \<lparr>fr_epoch = epoch, fr_sequence = sequence, fr_message = m, fr_revision = revision\<rparr>))
      | _ \<Rightarrow> Inl (ProtocolError ''expected complete frame bytes''))"

text \<open>A decoded frame as the encoder's argument.\<close>

definition to_py :: "frame \<Rightarrow> py_frame" where
  "to_py f = PyFrame (PyBytes (fr_epoch f)) (PyInt (fr_sequence f))
     (IsMessage (map_message PyInt (fr_message f))) (PyInt (fr_revision f))"

subsection \<open>Which messages and frames are valid\<close>

definition u64 :: "int \<Rightarrow> bool" where
  "u64 n \<longleftrightarrow> 0 \<le> n \<and> n < 2 ^ 64"

fun valid_message :: "int \<Rightarrow> int message \<Rightarrow> bool" where
  "valid_message rv (Hello c) = (c = (if rv = 3 then 1 else 0))"
| "valid_message rv (Progress h) = u64 h"
| "valid_message rv (EdgeRequest i s ob b) = (u64 i \<and> u64 s \<and> u64 ob \<and> (b = 0 \<or> b = 1) \<and> s \<le> ob)"
| "valid_message rv (EmissionComplete h i) = (u64 h \<and> u64 i)"
| "valid_message rv (EdgeResponse i h b) = (u64 i \<and> u64 h \<and> (b = 0 \<or> b = 1))"
| "valid_message rv (Sync k) = (rv = 3 \<and> 0 \<le> k \<and> k < 256)"
| "valid_message rv (Fence i e) = (rv = 3 \<and> u64 i \<and> u64 e)"
| "valid_message rv (FenceAck i e) = (rv = 3 \<and> u64 i \<and> u64 e)"

definition valid_frame :: "frame \<Rightarrow> bool" where
  "valid_frame f \<longleftrightarrow> length (fr_epoch f) = 16 \<and> 0 < fr_sequence f \<and> fr_sequence f < 2 ^ 64
     \<and> (fr_revision f = 2 \<or> fr_revision f = 3) \<and> valid_message (fr_revision f) (fr_message f)"

definition body_of :: "int message \<Rightarrow> byte list" where
  "body_of m = pack (the (layout (message_tag m))) (message_values m)"

definition frame_bytes :: "frame \<Rightarrow> byte list" where
  "frame_bytes f = MAGIC @ be_bytes 1 (fr_revision f) @ be_bytes 1 (message_tag (fr_message f))
     @ be_bytes 2 (int (length (body_of (fr_message f)))) @ fr_epoch f @ be_bytes 8 (fr_sequence f) @ body_of (fr_message f)"

lemma check_uint_Inr: "check_uint bits v = Inr n \<longleftrightarrow> v = PyInt n \<and> 0 \<le> n \<and> n < 2 ^ bits"
  by (auto simp: check_uint_def split: pyval.splits)

lemma check_revision_Inr: "check_revision v = Inr n \<longleftrightarrow> v = PyInt n \<and> (n = 2 \<or> n = 3)"
  by (auto simp: check_revision_def split: pyval.splits)

lemma check_epoch_Inr: "check_epoch v = Inr bs \<longleftrightarrow> v = PyBytes bs \<and> length bs = 16"
  by (auto simp: check_epoch_def split: pyval.splits)

lemma make_message_values: "make_message (message_tag m) (message_values m) = Some m"
  by (cases m) (auto simp: make_message_def)

lemma bit_cases: "(0::int) \<le> b \<and> b < 2 \<longleftrightarrow> b = 0 \<or> b = 1"
  by auto

lemma check_values_Inr:
  "check_values tag pvs = Inr vs \<longleftrightarrow>
     pvs = map PyInt vs \<and> (\<forall>i < length vs. 0 \<le> vs ! i \<and> vs ! i < 2 ^ field_bits tag (length vs) i)"
proof -
  have "check_values tag pvs = Inr vs \<longleftrightarrow>
      length vs = length pvs \<and> (\<forall>i < length vs. pvs ! i = PyInt (vs ! i) \<and> 0 \<le> vs ! i
        \<and> vs ! i < 2 ^ field_bits tag (length pvs) i)"
    by (auto simp: check_values_def result_simps list_all2_conv_all_nth check_uint_Inr)
  also have "\<dots> \<longleftrightarrow> pvs = map PyInt vs \<and> (\<forall>i < length vs. 0 \<le> vs ! i \<and> vs ! i < 2 ^ field_bits tag (length vs) i)"
    by (auto simp: list_eq_iff_nth_eq)
  finally show ?thesis .
qed

lemma all_less_numerals:
  "(\<forall>i < Suc n. P i) \<longleftrightarrow> P 0 \<and> (\<forall>i < n. P (Suc i))"
  by (auto simp: less_Suc_eq_0_disj)

lemma check_values_message:
  "check_values (message_tag m) (map PyInt (message_values m)) = Inr (message_values m)
     \<and> \<not> (rv = 2 \<and> message_tag m \<ge> 6) \<and> check_message rv m = Inr () \<longleftrightarrow> valid_message rv m"
  if "rv = 2 \<or> rv = 3" for m :: "int message"
  using that
  by (cases m)
     (auto simp: check_values_Inr all_less_numerals field_bits_def u64_def check_message_def bit_cases)

lemma message_values_map: "message_values (map_message g m) = map g (message_values m)"
  by (cases m) auto

lemma message_tag_map [simp]: "message_tag (map_message g m) = message_tag m"
  by (cases m) auto

lemma message_from_values:
  "message_values pm = map PyInt vs \<Longrightarrow> \<exists>m. pm = map_message PyInt m \<and> vs = message_values m"
proof (cases pm)
  case (Hello a)
  moreover assume "message_values pm = map PyInt vs"
  ultimately show ?thesis by (intro exI [of _ "message.Hello (vs ! 0)"]) auto
next
  case (Progress a)
  moreover assume "message_values pm = map PyInt vs"
  ultimately show ?thesis by (intro exI [of _ "message.Progress (vs ! 0)"]) auto
next
  case (EdgeRequest a b c d)
  moreover assume "message_values pm = map PyInt vs"
  ultimately show ?thesis
    by (intro exI [of _ "message.EdgeRequest (vs ! 0) (vs ! 1) (vs ! 2) (vs ! 3)"]) auto
next
  case (EmissionComplete a b)
  moreover assume "message_values pm = map PyInt vs"
  ultimately show ?thesis by (intro exI [of _ "message.EmissionComplete (vs ! 0) (vs ! 1)"]) auto
next
  case (EdgeResponse a b c)
  moreover assume "message_values pm = map PyInt vs"
  ultimately show ?thesis by (intro exI [of _ "message.EdgeResponse (vs ! 0) (vs ! 1) (vs ! 2)"]) auto
next
  case (Sync a)
  moreover assume "message_values pm = map PyInt vs"
  ultimately show ?thesis by (intro exI [of _ "message.Sync (vs ! 0)"]) auto
next
  case (Fence a b)
  moreover assume "message_values pm = map PyInt vs"
  ultimately show ?thesis by (intro exI [of _ "message.Fence (vs ! 0) (vs ! 1)"]) auto
next
  case (FenceAck a b)
  moreover assume "message_values pm = map PyInt vs"
  ultimately show ?thesis by (intro exI [of _ "message.FenceAck (vs ! 0) (vs ! 1)"]) auto
qed

lemma payload_Inr:
  "payload pm rv = Inr (tag, body) \<longleftrightarrow>
     (\<exists>r m. rv = PyInt r \<and> (r = 2 \<or> r = 3) \<and> pm = IsMessage (map_message PyInt m) \<and> valid_message r m
        \<and> tag = message_tag m \<and> body = body_of m)"
proof
  assume p: "payload pm rv = Inr (tag, body)"
  obtain qm where pm: "pm = IsMessage qm"
    using p by (cases pm) (auto simp: payload_def result_simps)
  from p obtain r where r: "rv = PyInt r" "r = 2 \<or> r = 3"
    by (auto simp: payload_def result_simps check_revision_Inr)
  have cr: "check_revision rv = Inr r" using r by (simp add: check_revision_Inr)
  from p have v2: "\<not> (r = 2 \<and> message_tag qm \<ge> 6)"
    by (auto simp: payload_def pm cr Let_def)
  from p v2 obtain vs where v: "check_values (message_tag qm) (message_values qm) = Inr vs" "\<not> (r = 2 \<and> message_tag qm \<ge> 6)"
    and q: "(case make_message (message_tag qm) vs of None \<Rightarrow> Inl (ProtocolError ''unknown message type'')
         | Some m' \<Rightarrow> rbind (check_message r m') (\<lambda>_. Inr (message_tag qm, pack (the (layout (message_tag qm))) vs)))
       = Inr (tag, body)"
    unfolding payload_def pm cr rbind_Inr py_message.case Let_def if_not_P [OF v2] by (auto simp: rbind_eq_Inr_iff)
  from q obtain m where m: "make_message (message_tag qm) vs = Some m" "check_message r m = Inr ()"
    and out: "tag = message_tag qm" "body = pack (the (layout (message_tag qm))) vs"
    by (auto simp: rbind_eq_Inr_iff split: option.splits)
  from v(1) have "message_values qm = map PyInt vs" by (simp add: check_values_Inr)
  then obtain m' where m': "qm = map_message PyInt m'" "vs = message_values m'"
    using message_from_values by blast
  then have "m = m'" using m(1) make_message_values [of m'] by simp
  with m' v m(2) check_values_message [OF r(2), of m'] have "valid_message r m'"
    by (simp add: message_values_map)
  with r pm m' out show "\<exists>r m. rv = PyInt r \<and> (r = 2 \<or> r = 3) \<and> pm = IsMessage (map_message PyInt m) \<and> valid_message r m
        \<and> tag = message_tag m \<and> body = body_of m"
    by (auto simp: body_of_def)
next
  assume "\<exists>r m. rv = PyInt r \<and> (r = 2 \<or> r = 3) \<and> pm = IsMessage (map_message PyInt m) \<and> valid_message r m
        \<and> tag = message_tag m \<and> body = body_of m"
  then obtain r m where r: "rv = PyInt r" "r = 2 \<or> r = 3" and pm: "pm = IsMessage (map_message PyInt m)"
    and out: "tag = message_tag m" "body = body_of m" and v: "valid_message r m" by blast
  have "check_revision rv = Inr r" using r by (simp add: check_revision_Inr)
  moreover have "check_values (message_tag m) (map PyInt (message_values m)) = Inr (message_values m)"
    "\<not> (r = 2 \<and> message_tag m \<ge> 6)" "check_message r m = Inr ()"
    using check_values_message [OF r(2), of m] v by blast+
  ultimately show "payload pm rv = Inr (tag, body)"
    unfolding payload_def by (simp add: pm out message_values_map make_message_values body_of_def Let_def)
qed

lemma encode_frame_Inr:
  "encode_frame pf = Inr bs \<longleftrightarrow> (\<exists>f. pf = to_py f \<and> valid_frame f \<and> bs = frame_bytes f)"
proof
  assume "encode_frame pf = Inr bs"
  then obtain ep n r m where
    "pf = PyFrame (PyBytes ep) (PyInt n) (IsMessage (map_message PyInt m)) (PyInt r)" "length ep = 16"
    "0 \<le> n" "n < 2 ^ 64" "n \<noteq> 0" "r = 2 \<or> r = 3" "valid_message r m"
    "bs = MAGIC @ be_bytes 1 r @ be_bytes 1 (message_tag m) @ be_bytes 2 (int (length (body_of m))) @ ep @ be_bytes 8 n @ body_of m"
    by (auto simp: encode_frame_def result_simps check_epoch_Inr check_uint_Inr check_revision_Inr payload_Inr
        split: py_frame.splits if_splits simp del: be_bytes.simps)
  then show "\<exists>f. pf = to_py f \<and> valid_frame f \<and> bs = frame_bytes f"
    by (intro exI [of _ "\<lparr>fr_epoch = ep, fr_sequence = n, fr_message = m, fr_revision = r\<rparr>"])
       (auto simp: to_py_def valid_frame_def frame_bytes_def simp del: be_bytes.simps)
next
  assume "\<exists>f. pf = to_py f \<and> valid_frame f \<and> bs = frame_bytes f"
  then obtain f where f: "pf = to_py f" "valid_frame f" "bs = frame_bytes f" by blast
  then have "check_epoch (PyBytes (fr_epoch f)) = Inr (fr_epoch f)" "check_uint 64 (PyInt (fr_sequence f)) = Inr (fr_sequence f)"
    "fr_sequence f \<noteq> 0" "check_revision (PyInt (fr_revision f)) = Inr (fr_revision f)"
    "payload (IsMessage (map_message PyInt (fr_message f))) (PyInt (fr_revision f)) = Inr (message_tag (fr_message f), body_of (fr_message f))"
    by (auto simp: valid_frame_def check_epoch_Inr check_uint_Inr check_revision_Inr payload_Inr)
  with f show "encode_frame pf = Inr bs"
    by (simp add: encode_frame_def to_py_def frame_bytes_def del: be_bytes.simps)
qed

subsection \<open>Bytes and frames correspond one to one\<close>

lemma length_pack: "length vs = length ws \<Longrightarrow> length (pack ws vs) = sum_list ws"
  by (induction ws vs rule: pack.induct) auto

lemma unpack_pack:
  "list_all2 (\<lambda>w v. 0 \<le> v \<and> v < 256 ^ w) ws vs \<Longrightarrow> unpack ws (pack ws vs) = vs"
  by (induction ws vs rule: list_all2_induct) (auto simp: byte_simps)

lemma pack_unpack: "length bs = sum_list ws \<Longrightarrow> pack ws (unpack ws bs) = bs"
proof (induction ws arbitrary: bs)
  case (Cons w ws)
  then have "length (take w bs) = w" by simp
  then have "be_bytes w (be_int (take w bs)) = take w bs"
    using be_bytes_be_int [of "take w bs"] by (simp only:)
  with Cons show ?case by simp
qed simp

lemma length_unpack [simp]: "length (unpack ws bs) = length ws"
  by (induction ws arbitrary: bs) auto

lemma layout_message: "layout (message_tag m) = Some (the (layout (message_tag m)))"
  by (cases m) (auto simp: layout_def)

lemma message_widths: "length (message_values m) = length (the (layout (message_tag m)))"
  by (cases m) (auto simp: layout_def)

lemma valid_message_fits:
  "valid_message r m \<Longrightarrow> list_all2 (\<lambda>w v. 0 \<le> v \<and> v < 256 ^ w) (the (layout (message_tag m))) (message_values m)"
  by (cases m) (auto simp: layout_def u64_def split: if_splits)

lemma length_body: "length (body_of m) = sum_list (the (layout (message_tag m)))"
  by (simp add: body_of_def length_pack message_widths)

lemma body_small: "length (body_of m) \<le> 25"
  unfolding length_body by (cases m) (auto simp: layout_def)

lemma tag_range: "1 \<le> message_tag m \<and> message_tag m \<le> 8"
  by (cases m) auto

lemma make_message_tag: "make_message tag vs = Some m \<Longrightarrow> message_tag m = tag \<and> message_values m = vs"
  by (auto simp: make_message_def split: list.splits if_splits)

text \<open>The seven parts of a header and the body, by position.\<close>

lemma frame_parts:
  assumes "length ep = 16"
  shows "take 4 (MAGIC @ be_bytes 1 a @ be_bytes 1 b @ be_bytes 2 c @ ep @ be_bytes 8 d @ rest) = MAGIC"
    and "take 1 (drop 4 (MAGIC @ be_bytes 1 a @ be_bytes 1 b @ be_bytes 2 c @ ep @ be_bytes 8 d @ rest)) = be_bytes 1 a"
    and "take 1 (drop 5 (MAGIC @ be_bytes 1 a @ be_bytes 1 b @ be_bytes 2 c @ ep @ be_bytes 8 d @ rest)) = be_bytes 1 b"
    and "take 2 (drop 6 (MAGIC @ be_bytes 1 a @ be_bytes 1 b @ be_bytes 2 c @ ep @ be_bytes 8 d @ rest)) = be_bytes 2 c"
    and "take 16 (drop 8 (MAGIC @ be_bytes 1 a @ be_bytes 1 b @ be_bytes 2 c @ ep @ be_bytes 8 d @ rest)) = ep"
    and "take 8 (drop 24 (MAGIC @ be_bytes 1 a @ be_bytes 1 b @ be_bytes 2 c @ ep @ be_bytes 8 d @ rest)) = be_bytes 8 d"
    and "drop 32 (MAGIC @ be_bytes 1 a @ be_bytes 1 b @ be_bytes 2 c @ ep @ be_bytes 8 d @ rest) = rest"
    and "length (MAGIC @ be_bytes 1 a @ be_bytes 1 b @ be_bytes 2 c @ ep @ be_bytes 8 d @ rest) = 32 + length rest"
  using assms by (simp_all add: MAGIC_def del: be_bytes.simps)

lemma header_split:
  assumes "length h = 32"
  shows "h = take 4 h @ take 1 (drop 4 h) @ take 1 (drop 5 h) @ take 2 (drop 6 h) @ take 16 (drop 8 h) @ take 8 (drop 24 h)"
proof -
  have cut: "drop i h = take n (drop i h) @ drop (i + n) h" for i n
    by (metis append_take_drop_id drop_drop add.commute)
  have "h = take 4 h @ drop 4 h" by simp
  also have "drop 4 h = take 1 (drop 4 h) @ drop 5 h" using cut [of 4 1] by simp
  also have "drop 5 h = take 1 (drop 5 h) @ drop 6 h" using cut [of 5 1] by simp
  also have "drop 6 h = take 2 (drop 6 h) @ drop 8 h" using cut [of 6 2] by simp
  also have "drop 8 h = take 16 (drop 8 h) @ drop 24 h" using cut [of 8 16] by simp
  also have "drop 24 h = take 8 (drop 24 h)" using assms by simp
  finally show ?thesis by simp
qed

lemma parse_header_Inr:
  "parse_header h = Inr (tag, ws, ep, n, r) \<longleftrightarrow>
     take 4 h = MAGIC \<and> r = be_int (take 1 (drop 4 h)) \<and> (r = 2 \<or> r = 3) \<and> tag = be_int (take 1 (drop 5 h))
     \<and> layout tag = Some ws \<and> \<not> (r = 2 \<and> tag \<ge> 6) \<and> be_int (take 2 (drop 6 h)) = int (sum_list ws)
     \<and> int (sum_list ws) \<le> 25 \<and> ep = take 16 (drop 8 h) \<and> n = be_int (take 8 (drop 24 h)) \<and> n \<noteq> 0"
  by (auto simp: parse_header_def Let_def MAX_BODY_def split: if_splits)

lemma decode_frame_bytes:
  assumes "valid_frame f"
  shows "decode_frame (PyBytes (frame_bytes f)) = Inr f"
proof -
  let ?m = "fr_message f" and ?r = "fr_revision f"
  let ?body = "body_of ?m"
  have ep: "length (fr_epoch f) = 16" and n: "0 < fr_sequence f" "fr_sequence f < 2 ^ 64" and r: "?r = 2 \<or> ?r = 3"
    and v: "valid_message ?r ?m"
    using assms by (auto simp: valid_frame_def)
  note parts = frame_parts [OF ep, of ?r "message_tag ?m" "int (length ?body)" "fr_sequence f"]
  have n8: "fr_sequence f mod 256 ^ 8 = fr_sequence f" using n by simp
  have l2: "int (length ?body) mod 256 ^ 2 = int (length ?body)" using body_small [of ?m] by simp
  have t1: "message_tag ?m mod 256 ^ 1 = message_tag ?m" using tag_range [of ?m] by simp
  have r1: "?r mod 256 ^ 1 = ?r" using r by auto
  have h: "take HEADER_SIZE (frame_bytes f)
      = MAGIC @ be_bytes 1 ?r @ be_bytes 1 (message_tag ?m) @ be_bytes 2 (int (length ?body)) @ fr_epoch f @ be_bytes 8 (fr_sequence f) @ []"
    using ep by (simp add: frame_bytes_def HEADER_SIZE_def MAGIC_def del: be_bytes.simps)
  have "\<not> (?r = 2 \<and> message_tag ?m \<ge> 6)" using v by (cases ?m) auto
  then have "parse_header (take HEADER_SIZE (frame_bytes f))
      = Inr (message_tag ?m, the (layout (message_tag ?m)), fr_epoch f, fr_sequence f, ?r)"
    unfolding h parse_header_Inr parts be_int_be_bytes n8 l2 t1 r1
    using r n layout_message [of ?m] body_small [of ?m] by (simp add: length_body)
  moreover have "drop HEADER_SIZE (frame_bytes f) = ?body" "length (frame_bytes f) = HEADER_SIZE + length ?body"
    using parts(7,8) [of ?body] unfolding frame_bytes_def HEADER_SIZE_def by blast+
  moreover have "unpack (the (layout (message_tag ?m))) ?body = message_values ?m"
    unfolding body_of_def by (rule unpack_pack [OF valid_message_fits [OF v]])
  moreover have "payload (IsMessage (map_message PyInt ?m)) (PyInt ?r) = Inr (message_tag ?m, ?body)"
    using r v by (auto simp: payload_Inr)
  ultimately show ?thesis
    by (simp add: decode_frame_def length_body make_message_values)
qed

lemma frame_bytes_decode:
  assumes "decode_frame (PyBytes bs) = Inr f"
  shows "valid_frame f \<and> frame_bytes f = bs"
proof -
  let ?h = "take HEADER_SIZE bs"
  from assms obtain tag ws ep n r m where
    len: "HEADER_SIZE \<le> length bs" and ph: "parse_header ?h = Inr (tag, ws, ep, n, r)"
    and bl: "length bs = HEADER_SIZE + sum_list ws"
    and mk: "make_message tag (unpack ws (drop HEADER_SIZE bs)) = Some m"
    and pl: "\<exists>x. payload (IsMessage (map_message PyInt m)) (PyInt r) = Inr x"
    and f: "f = \<lparr>fr_epoch = ep, fr_sequence = n, fr_message = m, fr_revision = r\<rparr>"
    by (auto simp: decode_frame_def rbind_eq_Inr_iff split: if_splits option.splits)
  have m: "message_tag m = tag" "message_values m = unpack ws (drop HEADER_SIZE bs)"
    using make_message_tag [OF mk] by simp_all
  have hl: "length ?h = 32" using len by (simp add: HEADER_SIZE_def)
  note h = ph [unfolded parse_header_Inr]
  have eplen: "length ep = 16" using h hl by simp
  have n: "0 < n" "n < 2 ^ 64"
    using h be_int_nonneg [of "take 8 (drop 24 ?h)"] be_int_less [of "take 8 (drop 24 ?h)"] hl
    by (auto simp: order_le_less)
  from pl have "valid_message r m" "r = 2 \<or> r = 3"
    by (auto simp: payload_Inr inj_on_def dest!: injD [OF message.inj_map, rotated])
  have vf: "valid_frame f"
    using eplen n \<open>valid_message r m\<close> \<open>r = 2 \<or> r = 3\<close> by (simp add: valid_frame_def f)
  have body: "body_of m = drop HEADER_SIZE bs"
  proof -
    have "layout tag = Some ws" using h by blast
    with bl show ?thesis by (simp add: body_of_def m pack_unpack)
  qed
  have c: "be_bytes k (be_int xs) = xs" if "length xs = k" for k xs
    using be_bytes_be_int [of xs] that by simp
  have "frame_bytes f = MAGIC @ be_bytes 1 r @ be_bytes 1 tag @ be_bytes 2 (int (sum_list ws)) @ ep @ be_bytes 8 n @ drop HEADER_SIZE bs"
    using bl by (simp add: frame_bytes_def f body m(1) del: be_bytes.simps)
  also have "\<dots> = take 4 ?h @ take 1 (drop 4 ?h) @ take 1 (drop 5 ?h) @ take 2 (drop 6 ?h) @ take 16 (drop 8 ?h)
      @ take 8 (drop 24 ?h) @ drop HEADER_SIZE bs"
  proof -
    have l: "length (take 1 (drop 4 ?h)) = 1" "length (take 1 (drop 5 ?h)) = 1" "length (take 2 (drop 6 ?h)) = 2"
      "length (take 8 (drop 24 ?h)) = 8"
      using hl by (simp_all del: take_Suc)
    have e: "r = be_int (take 1 (drop 4 ?h))" "tag = be_int (take 1 (drop 5 ?h))"
      "int (sum_list ws) = be_int (take 2 (drop 6 ?h))" "n = be_int (take 8 (drop 24 ?h))" "MAGIC = take 4 ?h"
      "ep = take 16 (drop 8 ?h)"
      using h by simp_all
    show ?thesis
      unfolding e(1-4) c [OF l(1)] c [OF l(2)] c [OF l(3)] c [OF l(4)] unfolding e(5,6) by (rule refl)
  qed
  also have "\<dots> = ?h @ drop HEADER_SIZE bs"
    using header_split [OF hl] by (metis append_assoc)
  finally show ?thesis using vf by simp
qed

text \<open>
  C38. Encoding then decoding: whatever Python object the encoder accepts is a well-formed frame, and the
  decoder gives that very frame back from the bytes.
\<close>

theorem encode_then_decode:
  assumes "encode_frame pf = Inr bs"
  shows "\<exists>f. pf = to_py f \<and> decode_frame (PyBytes bs) = Inr f"
  using assms by (auto simp: encode_frame_Inr decode_frame_bytes)

definition sample_frame :: frame where
  "sample_frame = \<lparr>fr_epoch = replicate 16 7, fr_sequence = 258, fr_message = EdgeRequest 1 1000 70000 1, fr_revision = 3\<rparr>"

lemma sample_frame_valid: "valid_frame sample_frame"
  by (simp add: valid_frame_def sample_frame_def u64_def)

theorem encode_then_decode_witness:
  "\<exists>bs f. encode_frame (to_py sample_frame) = Inr bs \<and> to_py sample_frame = to_py f \<and> decode_frame (PyBytes bs) = Inr f"
proof -
  have "encode_frame (to_py sample_frame) = Inr (frame_bytes sample_frame)"
    using sample_frame_valid by (auto simp: encode_frame_Inr)
  with encode_then_decode [OF this] show ?thesis by blast
qed

text \<open>
  Decoding then encoding: every byte string the decoder accepts is the only encoding of the frame it
  yields - magic, version, reserved widths, lengths and value ranges leave no second spelling.
\<close>

theorem decode_then_encode:
  assumes "decode_frame (PyBytes bs) = Inr f"
  shows "encode_frame (to_py f) = Inr bs"
  using frame_bytes_decode [OF assms] by (auto simp: encode_frame_Inr)

theorem decode_then_encode_witness:
  "encode_frame (to_py sample_frame) = Inr (frame_bytes sample_frame) \<and> length (frame_bytes sample_frame) = 57"
proof -
  have "length (frame_bytes sample_frame) = 57" by code_simp
  with decode_then_encode [OF decode_frame_bytes [OF sample_frame_valid]] show ?thesis by blast
qed

end
