(* ===== verification/Wire_Channel.thy ===== *)
theory Wire_Channel
  imports Wire_Codec "HOL-Library.AList" "HOL-Library.Multiset"
begin

text \<open>
  The protocol state of the timed wire channel (\<open>link/timed_wire.py\<close>, from \<open>_Direction\<close> to the end):
  what an endpoint records of either direction, admission of outgoing frames, the reader's framing and
  acceptance of incoming bytes, and termination. Everything under the condition lock is one function on
  the state. What the environment decides is an argument: the bytes a \<open>recv\<close> returns, and whether a
  deadline, a cancellation or a socket call stops an operation (a \<open>wire_error option\<close>, \<open>None\<close> for not).
\<close>

record direction_state =
  d_sequence :: int
  d_hello :: bool
  d_last_edge_id :: int
  d_pending :: "int set"
  d_last_fence_id :: int
  d_pending_fences :: "(int \<times> int) list"
  d_settled :: int
  d_watermark :: "int option"

definition fresh_direction :: direction_state where
  "fresh_direction = \<lparr>d_sequence = 0, d_hello = False, d_last_edge_id = 0, d_pending = {},
     d_last_fence_id = 0, d_pending_fences = [], d_settled = 0, d_watermark = None\<rparr>"

text \<open>
  \<open>sending\<close> is the frame whose bytes are being written while the send lock is held. The last three
  fields are the reader thread's own: its buffer, the length it reads up to, and a decoded frame that
  it has not handed over yet.
\<close>

record channel =
  ch_epoch :: "byte list"
  ch_revision :: int
  ch_capacity :: int
  ch_error :: "wire_error option"
  incoming :: direction_state
  outgoing :: direction_state
  hello_sent :: bool
  inbound :: "frame list"
  sending :: "frame option"
  rd_buffer :: "byte list"
  rd_target :: nat
  rd_frame :: "frame option"

datatype setup_error = SetupWire wire_error | SetupValueError string

definition create_channel :: "pyval \<Rightarrow> pyval \<Rightarrow> pyval \<Rightarrow> setup_error + channel" where
  "create_channel epoch capacity revision =
     (case check_epoch epoch of Inl e \<Rightarrow> Inl (SetupWire e) | Inr ep \<Rightarrow>
      case check_revision revision of Inl e \<Rightarrow> Inl (SetupWire e) | Inr rv \<Rightarrow>
      case capacity of
        PyInt n \<Rightarrow>
          if n < 1 then Inl (SetupValueError ''inbound_capacity must be a positive integer'')
          else Inr \<lparr>ch_epoch = ep, ch_revision = rv, ch_capacity = n, ch_error = None,
                    incoming = fresh_direction, outgoing = fresh_direction, hello_sent = False,
                    inbound = [], sending = None, rd_buffer = [], rd_target = HEADER_SIZE, rd_frame = None\<rparr>
      | _ \<Rightarrow> Inl (SetupValueError ''inbound_capacity must be a positive integer''))"

definition check_open :: "channel \<Rightarrow> wire_error + unit" where
  "check_open ch = (case ch_error ch of Some e \<Rightarrow> Inl e | None \<Rightarrow> Inr ())"

definition clear_pending :: "direction_state \<Rightarrow> direction_state" where
  "clear_pending d = d\<lparr>d_pending := {}, d_pending_fences := []\<rparr>"

definition terminate :: "wire_error \<Rightarrow> channel \<Rightarrow> wire_error \<times> channel" where
  "terminate e ch =
     (case ch_error ch of
        Some e' \<Rightarrow> (e', ch)
      | None \<Rightarrow> (e, ch\<lparr>ch_error := Some e, inbound := [],
                       incoming := clear_pending (incoming ch), outgoing := clear_pending (outgoing ch)\<rparr>))"

definition close_channel :: "channel \<Rightarrow> channel" where
  "close_channel ch = snd (terminate (ChannelClosed ''channel closed'') ch)"

subsection \<open>Acceptance of a frame in one direction\<close>

fun is_hello :: "'v message \<Rightarrow> bool" where
  "is_hello (Hello _) = True"
| "is_hello _ = False"

definition before_watermark :: "int \<Rightarrow> direction_state \<Rightarrow> (int \<Rightarrow> int \<Rightarrow> bool) \<Rightarrow> bool" where
  "before_watermark h d cmp = (case d_watermark d of None \<Rightarrow> False | Some w \<Rightarrow> cmp h w)"

fun message_problem :: "int \<Rightarrow> int message \<Rightarrow> direction_state \<Rightarrow> direction_state \<Rightarrow> string option" where
  "message_problem cap (Progress h) d opp =
     (if h < d_settled d then Some ''settled progress regressed'' else None)"
| "message_problem cap (EdgeRequest i s ob b) d opp =
     (if i \<noteq> d_last_edge_id d + 1 then Some ''edge IDs must be contiguous from one''
      else if int (card (d_pending d)) \<ge> cap then Some ''outstanding edge capacity exceeded''
      else if before_watermark s d (\<le>) then Some ''edge falls within completed emission prefix''
      else None)"
| "message_problem cap (EmissionComplete h i) d opp =
     (if i \<noteq> d_last_edge_id d then Some ''completion must identify exact request prefix''
      else if before_watermark h d (<) then Some ''emission watermark regressed''
      else None)"
| "message_problem cap (EdgeResponse i h b) d opp =
     (if i \<notin> d_pending opp then Some ''response does not match an outstanding request'' else None)"
| "message_problem cap (Fence i e) d opp =
     (if i \<noteq> d_last_fence_id d + 1 then Some ''fence IDs must be contiguous from one''
      else if e \<noteq> d_last_edge_id d then Some ''fence must identify exact request prefix''
      else if int (length (d_pending_fences d)) \<ge> cap then Some ''outstanding fence capacity exceeded''
      else None)"
| "message_problem cap (FenceAck i e) d opp =
     (if map_of (d_pending_fences opp) i \<noteq> Some e
      then Some ''ack does not match an outstanding fence prefix'' else None)"
| "message_problem cap _ d opp = None"

definition accept_problem :: "channel \<Rightarrow> frame \<Rightarrow> direction_state \<Rightarrow> direction_state \<Rightarrow> string option" where
  "accept_problem ch f d opp =
     (if fr_revision f \<noteq> ch_revision ch then Some ''revision mismatch''
      else if fr_epoch f \<noteq> ch_epoch ch \<or> fr_sequence f \<noteq> d_sequence d + 1
        then Some ''epoch or sequence mismatch''
      else if is_hello (fr_message f)
        then if d_hello d \<or> fr_sequence f \<noteq> 1 then Some ''Hello must be first and unique'' else None
      else if \<not> d_hello d \<or> \<not> d_hello opp \<or> \<not> hello_sent ch then Some ''mutual Hello required''
      else message_problem (ch_capacity ch) (fr_message f) d opp)"

text \<open>The two directions after an accepted message.\<close>

fun record_message :: "int message \<Rightarrow> direction_state \<Rightarrow> direction_state \<Rightarrow> direction_state \<times> direction_state" where
  "record_message (Hello _) d opp = (d\<lparr>d_hello := True\<rparr>, opp)"
| "record_message (Progress h) d opp = (d\<lparr>d_settled := h\<rparr>, opp)"
| "record_message (EdgeRequest i s ob b) d opp =
     (d\<lparr>d_last_edge_id := i, d_pending := insert i (d_pending d)\<rparr>, opp)"
| "record_message (EmissionComplete h i) d opp = (d\<lparr>d_watermark := Some h\<rparr>, opp)"
| "record_message (EdgeResponse i h b) d opp = (d, opp\<lparr>d_pending := d_pending opp - {i}\<rparr>)"
| "record_message (Sync _) d opp = (d, opp)"
| "record_message (Fence i e) d opp =
     (d\<lparr>d_last_fence_id := i, d_pending_fences := AList.update i e (d_pending_fences d)\<rparr>, opp)"
| "record_message (FenceAck i e) d opp =
     (d, opp\<lparr>d_pending_fences := AList.delete i (d_pending_fences opp)\<rparr>)"

definition accept :: "channel \<Rightarrow> frame \<Rightarrow> direction_state \<Rightarrow> direction_state
    \<Rightarrow> wire_error + direction_state \<times> direction_state" where
  "accept ch f d opp =
     (case accept_problem ch f d opp of
        Some s \<Rightarrow> Inl (ProtocolError s)
      | None \<Rightarrow> Inr (record_message (fr_message f) (d\<lparr>d_sequence := fr_sequence f\<rparr>) opp))"

subsection \<open>Sending\<close>

text \<open>
  A send validates its arguments, takes the send lock, and admits its frames in one critical section;
  \<open>stopped\<close> is a deadline or cancellation noticed before admission, \<open>stopped_late\<close> the second look the
  pair takes before it publishes. A repeated handshake admits nothing.
\<close>

datatype admission = Repeated frame | Fresh "frame list" "byte list"

definition check_time :: "wire_error option \<Rightarrow> wire_error + unit" where
  "check_time stopped = (case stopped of Some e \<Rightarrow> Inl e | None \<Rightarrow> Inr ())"

definition py_int :: "pyval \<Rightarrow> int" where
  "py_int v = (case v of PyInt n \<Rightarrow> n | _ \<Rightarrow> 0)"

definition int_message :: "py_message \<Rightarrow> int message" where
  "int_message pm = (case pm of IsMessage m \<Rightarrow> map_message py_int m | NotAMessage \<Rightarrow> Hello 0)"

definition out_frame :: "channel \<Rightarrow> int \<Rightarrow> py_message \<Rightarrow> frame" where
  "out_frame ch k pm = \<lparr>fr_epoch = ch_epoch ch, fr_sequence = k, fr_message = int_message pm, fr_revision = ch_revision ch\<rparr>"

definition encode_out :: "channel \<Rightarrow> int \<Rightarrow> py_message \<Rightarrow> wire_error + byte list" where
  "encode_out ch k pm = encode_frame (PyFrame (PyBytes (ch_epoch ch)) (PyInt k) pm (PyInt (ch_revision ch)))"

definition admit_single :: "py_message \<Rightarrow> channel \<Rightarrow> wire_error + admission \<times> channel" where
  "admit_single pm ch =
     (let k = d_sequence (outgoing ch) + 1; f = out_frame ch k pm
      in rbind (encode_out ch k pm) (\<lambda>data.
         rbind (accept ch f (outgoing ch) (incoming ch)) (\<lambda>(d, opp).
           Inr (Fresh [f] data, ch\<lparr>outgoing := d, incoming := opp, sending := Some f\<rparr>))))"

definition admit_pair :: "py_message \<Rightarrow> py_message \<Rightarrow> wire_error option \<Rightarrow> channel \<Rightarrow> wire_error + admission \<times> channel" where
  "admit_pair complete pm stopped_late ch =
     (let k = d_sequence (outgoing ch); p = out_frame ch (k + 1) complete; f = out_frame ch (k + 2) pm
      in rbind (encode_out ch (k + 1) complete) (\<lambda>data1.
         rbind (encode_out ch (k + 2) pm) (\<lambda>data2.
         rbind (accept ch p (outgoing ch) (incoming ch)) (\<lambda>(d1, opp1).
         rbind (accept ch f d1 opp1) (\<lambda>(d2, opp2).
         rbind (check_time stopped_late) (\<lambda>_.
           Inr (Fresh [p, f] (data1 @ data2), ch\<lparr>outgoing := d2, incoming := opp2, sending := Some f\<rparr>)))))))"

definition admit :: "py_message \<Rightarrow> bool \<Rightarrow> py_message option \<Rightarrow> wire_error option \<Rightarrow> wire_error option \<Rightarrow> channel
    \<Rightarrow> wire_error + admission \<times> channel" where
  "admit pm hello_once complete stopped stopped_late ch =
     rbind (case complete of None \<Rightarrow> Inr () | Some c \<Rightarrow> rbind (payload c (PyInt (ch_revision ch))) (\<lambda>_. Inr ())) (\<lambda>_.
     rbind (payload pm (PyInt (ch_revision ch))) (\<lambda>_.
     rbind (check_open ch) (\<lambda>_.
     rbind (check_time stopped) (\<lambda>_.
     if hello_once \<and> d_hello (outgoing ch) then Inr (Repeated (out_frame ch 1 pm), ch)
     else case complete of
            None \<Rightarrow> admit_single pm ch
          | Some c \<Rightarrow> admit_pair c pm stopped_late ch))))"

text \<open>
  The writing of the admitted bytes ends well, or with the error of a socket call, deadline or
  cancellation, which closes the channel: its delivery is uncertain. A closure by another thread wins.
\<close>

definition finish_send :: "wire_error option \<Rightarrow> channel \<Rightarrow> (wire_error + frame) \<times> channel" where
  "finish_send outcome ch =
     (case sending ch of
        None \<Rightarrow> (Inl (ChannelClosed ''no send in progress''), ch)
      | Some f \<Rightarrow>
          (case rbind (check_time outcome) (\<lambda>_. check_open ch) of
             Inl e \<Rightarrow> let (e', ch') = terminate e ch in (Inl e', ch'\<lparr>sending := None\<rparr>)
           | Inr _ \<Rightarrow> (Inr f, ch\<lparr>sending := None, hello_sent := hello_sent ch \<or> is_hello (fr_message f)\<rparr>)))"

definition handshake_message :: "channel \<Rightarrow> py_message" where
  "handshake_message ch = IsMessage (Hello (PyInt (if ch_revision ch = 3 then 1 else 0)))"

definition handshake_done :: "channel \<Rightarrow> bool" where
  "handshake_done ch \<longleftrightarrow> d_hello (incoming ch) \<and> hello_sent ch"

text \<open>Python compares the two frontiers as numbers, before it checks that they are integers.\<close>

definition py_equal :: "pyval \<Rightarrow> pyval \<Rightarrow> bool" where
  "py_equal a b \<longleftrightarrow>
     (case (a, b) of
        (PyBool x, PyInt n) \<Rightarrow> n = of_bool x
      | (PyInt n, PyBool x) \<Rightarrow> n = of_bool x
      | _ \<Rightarrow> a = b)"

definition send_complete_progress :: "py_message \<Rightarrow> py_message \<Rightarrow> wire_error option \<Rightarrow> wire_error option \<Rightarrow> channel
    \<Rightarrow> wire_error + admission \<times> channel" where
  "send_complete_progress complete progress stopped stopped_late ch =
     (case (complete, progress) of
        (IsMessage (EmissionComplete h i), IsMessage (Progress s)) \<Rightarrow>
          if \<not> py_equal h s then Inl (ProtocolError ''completion and progress must publish the same frontier'')
          else admit progress False (Some complete) stopped stopped_late ch
      | _ \<Rightarrow> Inl (ProtocolError ''expected EmissionComplete then Progress''))"

subsection \<open>The reader\<close>

definition reader_room :: "channel \<Rightarrow> nat" where
  "reader_room ch = rd_target ch - length (rd_buffer ch)"

text \<open>One \<open>recv\<close>: no byte is the end of the stream, and there are never more than asked for.\<close>

definition read_header :: "byte list \<Rightarrow> channel \<Rightarrow> wire_error + channel" where
  "read_header buffer ch =
     rbind (parse_header buffer) (\<lambda>(tag, ws, epoch, sequence, revision).
       if revision \<noteq> ch_revision ch then Inl (ProtocolError ''revision mismatch'')
       else if epoch \<noteq> ch_epoch ch then Inl (ProtocolError ''epoch mismatch'')
       else Inr (ch\<lparr>rd_buffer := buffer, rd_target := rd_target ch + sum_list ws\<rparr>))"

definition read_frame :: "byte list \<Rightarrow> channel \<Rightarrow> wire_error + channel" where
  "read_frame buffer ch =
     rbind (decode_frame (PyBytes buffer)) (\<lambda>f. Inr (ch\<lparr>rd_buffer := buffer, rd_frame := Some f\<rparr>))"

definition reader_chunk :: "byte list \<Rightarrow> channel \<Rightarrow> wire_error + channel" where
  "reader_chunk chunk ch =
     (let buffer = rd_buffer ch @ chunk
      in if chunk = [] then Inl (ChannelClosed ''peer closed connection'')
         else if length buffer \<noteq> rd_target ch then Inr (ch\<lparr>rd_buffer := buffer\<rparr>)
         else if rd_target ch = HEADER_SIZE then read_header buffer ch
         else read_frame buffer ch)"

text \<open>A decoded frame waits while the endpoint's own Hello is admitted but not yet reported as sent.\<close>

definition reader_waits :: "frame \<Rightarrow> channel \<Rightarrow> bool" where
  "reader_waits f ch \<longleftrightarrow> \<not> is_hello (fr_message f) \<and> d_hello (outgoing ch) \<and> \<not> hello_sent ch"

definition deliver :: "frame \<Rightarrow> channel \<Rightarrow> wire_error + channel" where
  "deliver f ch =
     (if \<not> is_hello (fr_message f) \<and> int (length (inbound ch)) \<ge> ch_capacity ch
      then Inl (ProtocolError ''inbound queue capacity exceeded'')
      else rbind (accept ch f (incoming ch) (outgoing ch)) (\<lambda>(d, opp).
        Inr (ch\<lparr>incoming := d, outgoing := opp,
               inbound := (if is_hello (fr_message f) then inbound ch else inbound ch @ [f]),
               rd_buffer := [], rd_target := HEADER_SIZE, rd_frame := None\<rparr>)))"

text \<open>An error in the reader ends the channel, and a closed channel ends the reader.\<close>

definition reader_guard :: "channel \<Rightarrow> wire_error + channel \<Rightarrow> channel" where
  "reader_guard ch r = (case r of Inl e \<Rightarrow> snd (terminate e ch) | Inr ch' \<Rightarrow> ch')"

definition reader_recv :: "byte list \<Rightarrow> channel \<Rightarrow> channel" where
  "reader_recv chunk ch =
     (if ch_error ch \<noteq> None \<or> rd_frame ch \<noteq> None then ch else reader_guard ch (reader_chunk chunk ch))"

definition reader_deliver :: "channel \<Rightarrow> channel" where
  "reader_deliver ch =
     (case rd_frame ch of
        None \<Rightarrow> ch
      | Some f \<Rightarrow> if ch_error ch \<noteq> None \<or> reader_waits f ch then ch else reader_guard ch (deliver f ch))"

definition poll :: "channel \<Rightarrow> (wire_error + int message option) \<times> channel" where
  "poll ch =
     (case check_open ch of
        Inl e \<Rightarrow> (Inl e, ch)
      | Inr _ \<Rightarrow> (case inbound ch of
                   [] \<Rightarrow> (Inr None, ch)
                 | f # fs \<Rightarrow> (Inr (Some (fr_message f)), ch\<lparr>inbound := fs\<rparr>)))"

end
