(* ===== verification/Wire_Ledger.thy ===== *)
theory Wire_Ledger
  imports Prelude "HOL-Library.AList" "HOL-Library.Multiset"
begin

text \<open>
  Outstanding items of the timed wire: a request stays in a ledger of its sender and of its receiver
  until it is answered. The locale states what the channel relies on, for the set of edge requests
  (\<open>_Direction.pending\<close>) and the dictionary of fences (\<open>_Direction.pending_fences\<close>) alike, and proves
  once how the ledgers of the two ends follow each other across a pair of wires.
\<close>

locale ledger =
  fixes add :: "'x \<Rightarrow> 's \<Rightarrow> 's"
    and remove :: "'x \<Rightarrow> 's \<Rightarrow> 's"
    and content :: "'s \<Rightarrow> 'x multiset"
    and key :: "'x \<Rightarrow> int"
    and sound :: "'s \<Rightarrow> bool"
  assumes add_content: "sound s \<Longrightarrow> key x \<notin> key ` set_mset (content s) \<Longrightarrow> content (add x s) = add_mset x (content s)"
    and add_sound: "sound s \<Longrightarrow> key x \<notin> key ` set_mset (content s) \<Longrightarrow> sound (add x s)"
    and remove_content: "sound s \<Longrightarrow> x \<in># content s \<Longrightarrow> content (remove x s) = content s - {#x#}"
    and remove_sound: "sound s \<Longrightarrow> sound (remove x s)"
    and keys_once: "sound s \<Longrightarrow> count (image_mset key (content s)) k \<le> 1"
begin

text \<open>
  The sender's ledger holds what the receiver still owes, what is on its way out and what has been
  answered but whose answer is on its way back.
\<close>

definition agree :: "'s \<Rightarrow> 's \<Rightarrow> 'x list \<Rightarrow> 'x list \<Rightarrow> bool" where
  "agree sender receiver out back \<longleftrightarrow> content sender = content receiver + mset out + mset back"

lemma agree_request:
  assumes "agree s r out back" "sound s" "key x \<notin> key ` set_mset (content s)"
  shows "agree (add x s) r (out @ [x]) back"
  using assms by (simp add: agree_def add_content)

lemma arrive_fresh:
  assumes "agree s r (x # out) back" "sound s"
  shows "key x \<notin> key ` set_mset (content r)"
proof
  assume "key x \<in> key ` set_mset (content r)"
  then have "0 < count (image_mset key (content r)) (key x)"
    by (metis count_greater_zero_iff multiset.set_map)
  moreover have "count (image_mset key (content s)) (key x)
      \<ge> count (image_mset key (content r)) (key x) + 1"
    using assms(1) by (simp add: agree_def)
  ultimately show False using keys_once [OF assms(2), of "key x"] by linarith
qed

lemma agree_arrive:
  assumes "agree s r (x # out) back" "sound s" "sound r"
  shows "agree s (add x r) out back" "sound (add x r)"
  using assms arrive_fresh [OF assms(1,2)]
  by (simp_all add: agree_def add_content add_sound)

lemma arrive_room:
  assumes "agree s r (x # out) back"
  shows "size (content r) < size (content s)"
  using assms by (simp add: agree_def)

lemma agree_answer:
  assumes "agree s r out back" "sound r" "x \<in># content r"
  shows "agree s (remove x r) out (back @ [x])"
  using assms by (simp add: agree_def remove_content)

lemma settle_known:
  assumes "agree s r out (x # back)"
  shows "x \<in># content s"
  using assms by (simp add: agree_def)

lemma agree_settle:
  assumes "agree s r out (x # back)" "sound s"
  shows "agree (remove x s) r out back"
  using assms settle_known [OF assms(1)] by (simp add: agree_def remove_content)

end

subsection \<open>The two ledgers of the channel\<close>

definition fences_sound :: "(int \<times> int) list \<Rightarrow> bool" where
  "fences_sound xs \<longleftrightarrow> distinct (map fst xs)"

lemma alist_update_new: "k \<notin> fst ` set xs \<Longrightarrow> AList.update k v xs = xs @ [(k, v)]"
  by (induction xs) auto

lemma alist_delete_present:
  "distinct (map fst xs) \<Longrightarrow> (k, v) \<in> set xs \<Longrightarrow> mset (AList.delete k xs) = mset xs - {#(k, v)#}"
proof (induction xs)
  case (Cons x xs)
  show ?case
  proof (cases "x = (k, v)")
    case True
    with Cons.prems have "AList.delete k xs = xs"
      by (intro AList.delete_id) auto
    with True show ?thesis by simp
  next
    case False
    with Cons.prems have "(k, v) \<in> set xs" by auto
    moreover from this Cons.prems False have "fst x \<noteq> k" by (cases x) force
    ultimately show ?thesis using Cons False by (cases x) auto
  qed
qed simp

lemma distinct_delete_keys: "distinct (map fst xs) \<Longrightarrow> distinct (map fst (AList.delete k xs))"
  by (induction xs) (auto simp: AList.delete_eq)

interpretation edges_ledger: ledger insert "\<lambda>i s. s - {i}" "mset_set :: int set \<Rightarrow> int multiset" "\<lambda>i. i" finite
  by unfold_locales (auto simp: mset_set_Diff count_mset_set')

interpretation fences_ledger: ledger "\<lambda>(i, e). AList.update i e" "\<lambda>(i, e). AList.delete i"
    "mset :: (int \<times> int) list \<Rightarrow> (int \<times> int) multiset" fst fences_sound
proof unfold_locales
  fix s :: "(int \<times> int) list" and x k
  show "fences_sound s \<Longrightarrow> fst x \<notin> fst ` set_mset (mset s) \<Longrightarrow> mset ((case x of (i, e) \<Rightarrow> AList.update i e) s) = add_mset x (mset s)"
    by (cases x) (simp add: alist_update_new)
  show "fences_sound s \<Longrightarrow> fst x \<notin> fst ` set_mset (mset s) \<Longrightarrow> fences_sound ((case x of (i, e) \<Rightarrow> AList.update i e) s)"
    by (cases x) (simp add: alist_update_new fences_sound_def)
  show "fences_sound s \<Longrightarrow> x \<in># mset s \<Longrightarrow> mset ((case x of (i, e) \<Rightarrow> AList.delete i) s) = mset s - {#x#}"
    by (cases x) (simp add: alist_delete_present fences_sound_def)
  show "fences_sound s \<Longrightarrow> fences_sound ((case x of (i, e) \<Rightarrow> AList.delete i) s)"
    by (cases x) (simp add: distinct_delete_keys fences_sound_def)
  show "fences_sound s \<Longrightarrow> count (image_mset fst (mset s)) k \<le> 1"
    by (simp add: fences_sound_def count_mset distinct_count_atmost_1 flip: mset_map)
qed

end
