(* ===== verification/Wire_Invariant.thy ===== *)
theory Wire_Invariant
  imports Wire_Channel Wire_Ledger
begin

text \<open>
  The steps of one channel, whatever its peer does, and what holds in every state it can reach: bounds
  on everything it stores, the order of the frames of either direction, the first terminal error.
\<close>

subsection \<open>Steps\<close>

text \<open>The three ways to submit frames; the send lock is free.\<close>

inductive submits :: "channel \<Rightarrow> admission \<Rightarrow> channel \<Rightarrow> bool" where
  handshake: "submits ch a ch'"
    if "sending ch = None" "admit (handshake_message ch) True None stopped None ch = Inr (a, ch')"
| send: "submits ch a ch'"
    if "sending ch = None" "admit pm False None stopped None ch = Inr (a, ch')"
| send_pair: "submits ch a ch'"
    if "sending ch = None" "send_complete_progress c p stopped late ch = Inr (a, ch')"

inductive channel_step :: "channel \<Rightarrow> channel \<Rightarrow> bool" where
  submit: "channel_step ch ch'" if "submits ch a ch'"
| finish: "channel_step ch (snd (finish_send outcome ch))"
| recv: "channel_step ch (reader_recv chunk ch)" if "length chunk \<le> reader_room ch"
| hand_over: "channel_step ch (reader_deliver ch)"
| polled: "channel_step ch (snd (poll ch))"
| ended: "channel_step ch (snd (terminate e ch))"

inductive channel_reachable :: "channel \<Rightarrow> bool" where
  created: "channel_reachable ch" if "create_channel epoch capacity revision = Inr ch"
| stepped: "channel_reachable ch'" if "channel_reachable ch" "channel_step ch ch'"

subsection \<open>What acceptance checks and changes\<close>

text \<open>
  A direction without its outstanding items is what both ends must agree on; it depends on the frames
  alone. The rest of the checks concern the outstanding items and the handshake.
\<close>

definition next_scalars :: "frame \<Rightarrow> direction_state \<Rightarrow> direction_state" where
  "next_scalars f s = clear_pending (fst (record_message (fr_message f) (s\<lparr>d_sequence := fr_sequence f\<rparr>) fresh_direction))"

fun message_fits :: "int message \<Rightarrow> direction_state \<Rightarrow> bool" where
  "message_fits (Progress h) s \<longleftrightarrow> d_settled s \<le> h"
| "message_fits (EdgeRequest i t ob b) s \<longleftrightarrow> i = d_last_edge_id s + 1 \<and> \<not> before_watermark t s (\<le>)"
| "message_fits (EmissionComplete h i) s \<longleftrightarrow> i = d_last_edge_id s \<and> \<not> before_watermark h s (<)"
| "message_fits (Fence i e) s \<longleftrightarrow> i = d_last_fence_id s + 1 \<and> e = d_last_edge_id s"
| "message_fits _ s \<longleftrightarrow> True"

definition frame_fits :: "channel \<Rightarrow> frame \<Rightarrow> direction_state \<Rightarrow> bool" where
  "frame_fits ch f s \<longleftrightarrow> fr_revision f = ch_revision ch \<and> fr_epoch f = ch_epoch ch \<and> fr_sequence f = d_sequence s + 1
     \<and> (if is_hello (fr_message f) then \<not> d_hello s \<and> fr_sequence f = 1
        else d_hello s \<and> message_fits (fr_message f) s)"

fun outstanding_fits :: "int \<Rightarrow> int message \<Rightarrow> direction_state \<Rightarrow> direction_state \<Rightarrow> bool" where
  "outstanding_fits cap (EdgeRequest i t ob b) d opp \<longleftrightarrow> int (card (d_pending d)) < cap"
| "outstanding_fits cap (EdgeResponse i h b) d opp \<longleftrightarrow> i \<in> d_pending opp"
| "outstanding_fits cap (Fence i e) d opp \<longleftrightarrow> int (length (d_pending_fences d)) < cap"
| "outstanding_fits cap (FenceAck i e) d opp \<longleftrightarrow> map_of (d_pending_fences opp) i = Some e"
| "outstanding_fits cap _ d opp \<longleftrightarrow> True"

lemma clear_pending_simps [simp]:
  "d_sequence (clear_pending d) = d_sequence d" "d_hello (clear_pending d) = d_hello d"
  "d_last_edge_id (clear_pending d) = d_last_edge_id d" "d_last_fence_id (clear_pending d) = d_last_fence_id d"
  "d_settled (clear_pending d) = d_settled d" "d_watermark (clear_pending d) = d_watermark d"
  "d_pending (clear_pending d) = {}" "d_pending_fences (clear_pending d) = []"
  "clear_pending (clear_pending d) = clear_pending d"
  "before_watermark t (clear_pending d) cmp = before_watermark t d cmp"
  by (simp_all add: clear_pending_def before_watermark_def)

lemma clear_fresh [simp]: "clear_pending fresh_direction = fresh_direction"
  by (simp add: clear_pending_def fresh_direction_def)

lemma accept_problem_None:
  "accept_problem ch f d opp = None \<longleftrightarrow>
     frame_fits ch f (clear_pending d)
     \<and> (is_hello (fr_message f) \<or> d_hello opp \<and> hello_sent ch \<and> outstanding_fits (ch_capacity ch) (fr_message f) d opp)"
  by (cases "fr_message f")
     (auto simp: accept_problem_def frame_fits_def not_less not_le)

lemma accept_Inr:
  "accept ch f d opp = Inr (d', opp') \<longleftrightarrow>
     accept_problem ch f d opp = None
     \<and> (d', opp') = record_message (fr_message f) (d\<lparr>d_sequence := fr_sequence f\<rparr>) opp"
  by (auto simp: accept_def split: option.splits)

lemma record_scalars:
  assumes "(d', opp') = record_message (fr_message f) (d\<lparr>d_sequence := fr_sequence f\<rparr>) opp"
  shows "clear_pending d' = next_scalars f (clear_pending d)" "clear_pending opp' = clear_pending opp"
  using assms by (cases "fr_message f"; simp add: next_scalars_def clear_pending_def)+

lemma accept_scalars:
  assumes "accept ch f d opp = Inr (d', opp')"
  shows "clear_pending d' = next_scalars f (clear_pending d)" "clear_pending opp' = clear_pending opp"
    "frame_fits ch f (clear_pending d)"
  using assms record_scalars [of d' opp' f d opp] by (auto simp: accept_Inr accept_problem_None)

subsection \<open>Bounds\<close>

definition direction_ok :: "int \<Rightarrow> direction_state \<Rightarrow> bool" where
  "direction_ok cap d \<longleftrightarrow>
     finite (d_pending d) \<and> d_pending d \<subseteq> {1..d_last_edge_id d} \<and> int (card (d_pending d)) \<le> cap
     \<and> fences_sound (d_pending_fences d) \<and> int (length (d_pending_fences d)) \<le> cap
     \<and> (\<forall>(i, e) \<in> set (d_pending_fences d). i \<in> {1..d_last_fence_id d} \<and> e \<in> {0..d_last_edge_id d})
     \<and> 0 \<le> d_last_edge_id d \<and> 0 \<le> d_last_fence_id d \<and> 0 \<le> d_sequence d
     \<and> (d_hello d \<longleftrightarrow> 1 \<le> d_sequence d) \<and> (\<not> d_hello d \<longrightarrow> d = fresh_direction)"

definition channel_ok :: "channel \<Rightarrow> bool" where
  "channel_ok ch \<longleftrightarrow>
     1 \<le> ch_capacity ch \<and> direction_ok (ch_capacity ch) (incoming ch) \<and> direction_ok (ch_capacity ch) (outgoing ch)
     \<and> int (length (inbound ch)) \<le> ch_capacity ch
     \<and> (hello_sent ch \<longrightarrow> d_hello (outgoing ch)) \<and> (sending ch \<noteq> None \<longrightarrow> d_hello (outgoing ch))
     \<and> (ch_error ch \<noteq> None \<longrightarrow> inbound ch = [] \<and> d_pending (incoming ch) = {} \<and> d_pending (outgoing ch) = {}
          \<and> d_pending_fences (incoming ch) = [] \<and> d_pending_fences (outgoing ch) = [])"

lemma direction_ok_fresh: "0 \<le> cap \<Longrightarrow> direction_ok cap fresh_direction"
  by (simp add: direction_ok_def fresh_direction_def fences_sound_def)

lemma direction_ok_clear: "direction_ok cap d \<Longrightarrow> direction_ok cap (clear_pending d)"
  by (auto simp: direction_ok_def clear_pending_def fences_sound_def fresh_direction_def)

lemma new_edge: "direction_ok cap d \<Longrightarrow> d_last_edge_id d + 1 \<notin> d_pending d"
  by (auto simp: direction_ok_def)

lemma new_fence: "direction_ok cap d \<Longrightarrow> d_last_fence_id d + 1 \<notin> fst ` set (d_pending_fences d)"
  by (fastforce simp: direction_ok_def)

lemma direction_ok_edge:
  assumes "direction_ok cap d" "int (card (d_pending d)) < cap" "d_hello d"
  shows "direction_ok cap (d\<lparr>d_sequence := d_sequence d + 1, d_last_edge_id := d_last_edge_id d + 1,
           d_pending := insert (d_last_edge_id d + 1) (d_pending d)\<rparr>)"
  using assms new_edge [OF assms(1)]
  by (fastforce simp: direction_ok_def)

lemma direction_ok_fence:
  assumes "direction_ok cap d" "int (length (d_pending_fences d)) < cap" "d_hello d"
  shows "direction_ok cap (d\<lparr>d_sequence := d_sequence d + 1, d_last_fence_id := d_last_fence_id d + 1,
           d_pending_fences := AList.update (d_last_fence_id d + 1) (d_last_edge_id d) (d_pending_fences d)\<rparr>)"
  using assms new_fence [OF assms(1)] fences_ledger.add_sound [of "d_pending_fences d" "(d_last_fence_id d + 1, d_last_edge_id d)"]
  by (fastforce simp: direction_ok_def alist_update_new)

lemma direction_ok_unpend:
  assumes "direction_ok cap d" "d_hello d"
  shows "direction_ok cap (d\<lparr>d_pending := d_pending d - {i}\<rparr>)"
  using assms card_Diff1_le [of "d_pending d" i] by (auto simp: direction_ok_def)

lemma delete_subset: "set (AList.delete i xs) \<subseteq> set xs"
  by (auto simp: AList.delete_eq)

lemma direction_ok_ack:
  assumes "direction_ok cap d" "d_hello d"
  shows "direction_ok cap (d\<lparr>d_pending_fences := AList.delete i (d_pending_fences d)\<rparr>)"
  using assms AList.length_delete_le [of i "d_pending_fences d"] delete_subset [of i "d_pending_fences d"]
  by (fastforce simp: direction_ok_def fences_sound_def distinct_delete_keys)

lemma direction_ok_scalars:
  assumes "direction_ok cap d" "d_hello d"
  shows "direction_ok cap (d\<lparr>d_sequence := d_sequence d + 1\<rparr>)"
    "direction_ok cap (d\<lparr>d_sequence := d_sequence d + 1, d_settled := h\<rparr>)"
    "direction_ok cap (d\<lparr>d_sequence := d_sequence d + 1, d_watermark := w\<rparr>)"
  using assms by (auto simp: direction_ok_def)

lemma direction_ok_hello:
  assumes "direction_ok cap d" "\<not> d_hello d"
  shows "direction_ok cap (d\<lparr>d_sequence := 1, d_hello := True\<rparr>)"
  using assms by (auto simp: direction_ok_def fresh_direction_def)

lemma accept_ok:
  assumes "accept ch f d opp = Inr (d', opp')" "direction_ok (ch_capacity ch) d" "direction_ok (ch_capacity ch) opp"
  shows "direction_ok (ch_capacity ch) d'" "direction_ok (ch_capacity ch) opp'"
proof -
  have none: "accept_problem ch f d opp = None"
    and new: "(d', opp') = record_message (fr_message f) (d\<lparr>d_sequence := fr_sequence f\<rparr>) opp"
    using assms(1) by (simp_all add: accept_Inr)
  from none have seq: "fr_sequence f = d_sequence d + 1" by (simp add: accept_problem_None frame_fits_def)
  have "direction_ok (ch_capacity ch) d' \<and> direction_ok (ch_capacity ch) opp'"
  proof (cases "is_hello (fr_message f)")
    case True
    with none have "\<not> d_hello d" "fr_sequence f = 1" by (auto simp: accept_problem_None frame_fits_def)
    with True new assms(2,3) show ?thesis by (cases "fr_message f") (simp_all add: direction_ok_hello)
  next
    case False
    with none have h: "d_hello d" "d_hello opp" and fits: "message_fits (fr_message f) (clear_pending d)"
      "outstanding_fits (ch_capacity ch) (fr_message f) d opp"
      by (simp_all add: accept_problem_None frame_fits_def)
    from fits h new False assms(2,3) show ?thesis
      unfolding seq
      by (cases "fr_message f")
         (simp_all add: direction_ok_scalars direction_ok_edge direction_ok_fence direction_ok_unpend direction_ok_ack)
  qed
  then show "direction_ok (ch_capacity ch) d'" "direction_ok (ch_capacity ch) opp'" by simp_all
qed

subsection \<open>Admission\<close>

fun accept_all :: "channel \<Rightarrow> frame list \<Rightarrow> direction_state \<Rightarrow> direction_state
    \<Rightarrow> wire_error + direction_state \<times> direction_state" where
  "accept_all ch [] d opp = Inr (d, opp)"
| "accept_all ch (f # fs) d opp = rbind (accept ch f d opp) (\<lambda>(d', opp'). accept_all ch fs d' opp')"

fun admitted_frames :: "admission \<Rightarrow> frame list" where
  "admitted_frames (Repeated f) = []"
| "admitted_frames (Fresh fs data) = fs"

fun admitted_bytes :: "admission \<Rightarrow> byte list" where
  "admitted_bytes (Repeated f) = []"
| "admitted_bytes (Fresh fs data) = data"

definition admits :: "channel \<Rightarrow> admission \<Rightarrow> channel \<Rightarrow> bool" where
  "admits ch a ch' \<longleftrightarrow>
     ch_error ch = None \<and> admitted_bytes a = concat (map frame_bytes (admitted_frames a))
     \<and> (\<forall>f \<in> set (admitted_frames a). valid_frame f)
     \<and> (case a of
          Repeated f \<Rightarrow> ch' = ch
        | Fresh fs data \<Rightarrow> fs \<noteq> [] \<and> (\<exists>d opp. accept_all ch fs (outgoing ch) (incoming ch) = Inr (d, opp)
            \<and> ch' = ch\<lparr>outgoing := d, incoming := opp, sending := Some (last fs)\<rparr>))"

lemma int_message_py [simp]: "int_message (IsMessage (map_message PyInt m)) = m"
  by (cases m) (simp_all add: int_message_def py_int_def)

lemma encode_out_Inr:
  assumes "encode_out ch k pm = Inr data"
  shows "data = frame_bytes (out_frame ch k pm) \<and> valid_frame (out_frame ch k pm)"
proof -
  from assms obtain f where f: "PyFrame (PyBytes (ch_epoch ch)) (PyInt k) pm (PyInt (ch_revision ch)) = to_py f"
    and v: "valid_frame f" "data = frame_bytes f"
    by (auto simp: encode_out_def encode_frame_Inr)
  from f have "out_frame ch k pm = f"
    by (cases f) (auto simp: to_py_def out_frame_def)
  with v show ?thesis by simp
qed

lemma admit_single_admits: "admit_single pm ch = Inr (a, ch') \<Longrightarrow> ch_error ch = None \<Longrightarrow> admits ch a ch'"
  by (auto simp: admit_single_def admits_def Let_def result_simps dest!: encode_out_Inr)

lemma admit_pair_admits: "admit_pair c pm late ch = Inr (a, ch') \<Longrightarrow> ch_error ch = None \<Longrightarrow> admits ch a ch'"
  by (auto simp: admit_pair_def admits_def Let_def result_simps dest!: encode_out_Inr)

lemma admit_admits: "admit pm once c stopped late ch = Inr (a, ch') \<Longrightarrow> admits ch a ch'"
  by (auto simp: admit_def result_simps check_open_def admits_def
      split: if_split_asm option.split_asm dest!: admit_single_admits admit_pair_admits)

lemma send_complete_admits: "send_complete_progress c p stopped late ch = Inr (a, ch') \<Longrightarrow> admits ch a ch'"
  by (auto simp: send_complete_progress_def split: py_message.split_asm message.split_asm if_split_asm dest: admit_admits)

lemma submits_admits: "submits ch a ch' \<Longrightarrow> admits ch a ch'"
  by (induction rule: submits.induct) (blast intro: admit_admits send_complete_admits)+

subsection \<open>Order\<close>

text \<open>How a direction may change: its counters grow, and only a watermark that exists can be compared.\<close>

definition direction_le :: "direction_state \<Rightarrow> direction_state \<Rightarrow> bool" where
  "direction_le d d' \<longleftrightarrow>
     d_sequence d \<le> d_sequence d' \<and> (d_hello d \<longrightarrow> d_hello d')
     \<and> d_last_edge_id d \<le> d_last_edge_id d' \<and> d_last_fence_id d \<le> d_last_fence_id d' \<and> d_settled d \<le> d_settled d'
     \<and> (case d_watermark d of None \<Rightarrow> True | Some w \<Rightarrow> \<exists>w'. d_watermark d' = Some w' \<and> w \<le> w')"

lemma direction_le_refl [simp]: "direction_le d d"
  by (simp add: direction_le_def split: option.split)

lemma direction_le_clear [simp]: "direction_le d (clear_pending d')  \<longleftrightarrow> direction_le d d'"
  by (simp add: direction_le_def split: option.split)

lemma direction_le_trans: "direction_le a b \<Longrightarrow> direction_le b c \<Longrightarrow> direction_le a c"
  by (force simp: direction_le_def split: option.split_asm)

lemma direction_le_same: "clear_pending d = clear_pending d' \<Longrightarrow> direction_le d d'"
  by (metis direction_le_clear direction_le_refl)

lemma accept_le:
  assumes "accept ch f d opp = Inr (d', opp')"
  shows "direction_le d d'" "direction_le opp opp'" "d_hello d'"
proof -
  have fits: "frame_fits ch f (clear_pending d)"
    and new: "(d', opp') = record_message (fr_message f) (d\<lparr>d_sequence := fr_sequence f\<rparr>) opp"
    using assms by (simp_all add: accept_Inr accept_problem_None)
  from fits new show "direction_le d d'"
    by (cases "fr_message f"; cases "d_watermark d")
       (simp_all add: frame_fits_def direction_le_def before_watermark_def)
  show "direction_le opp opp'"
    by (rule direction_le_same) (simp add: accept_scalars(2) [OF assms])
  from fits new show "d_hello d'"
    by (cases "fr_message f") (simp_all add: frame_fits_def)
qed

lemma accept_all_le:
  "accept_all ch fs d opp = Inr (d', opp') \<Longrightarrow> direction_le d d' \<and> direction_le opp opp'"
proof (induction fs arbitrary: d opp)
  case (Cons f fs)
  then obtain d1 opp1 where s: "accept ch f d opp = Inr (d1, opp1)" "accept_all ch fs d1 opp1 = Inr (d', opp')"
    by (auto simp: result_simps)
  show ?case using accept_le [OF s(1)] Cons.IH [OF s(2)] by (blast intro: direction_le_trans)
qed simp

lemma accept_all_ok:
  assumes "accept_all ch fs d opp = Inr (d', opp')" "direction_ok (ch_capacity ch) d" "direction_ok (ch_capacity ch) opp"
  shows "direction_ok (ch_capacity ch) d' \<and> direction_ok (ch_capacity ch) opp'"
  using assms
proof (induction fs arbitrary: d opp)
  case (Cons f fs)
  then obtain d1 opp1 where s: "accept ch f d opp = Inr (d1, opp1)" "accept_all ch fs d1 opp1 = Inr (d', opp')"
    by (auto simp: result_simps)
  show ?case using Cons.IH [OF s(2)] accept_ok [OF s(1)] Cons.prems by blast
qed simp

lemma accept_all_hello:
  assumes "accept_all ch fs d opp = Inr (d', opp')" "fs \<noteq> []"
  shows "d_hello d'"
proof -
  from assms obtain f fs' d1 opp1 where s: "accept ch f d opp = Inr (d1, opp1)" "accept_all ch fs' d1 opp1 = Inr (d', opp')"
    by (cases fs) (auto simp: result_simps)
  from accept_le(3) [OF s(1)] accept_all_le [OF s(2)] show ?thesis by (auto simp: direction_le_def)
qed

text \<open>What every step keeps.\<close>

definition advances :: "channel \<Rightarrow> channel \<Rightarrow> bool" where
  "advances ch ch' \<longleftrightarrow>
     ch_epoch ch' = ch_epoch ch \<and> ch_revision ch' = ch_revision ch \<and> ch_capacity ch' = ch_capacity ch
     \<and> direction_le (incoming ch) (incoming ch') \<and> direction_le (outgoing ch) (outgoing ch')
     \<and> (hello_sent ch \<longrightarrow> hello_sent ch')
     \<and> (ch_error ch \<noteq> None \<longrightarrow> ch_error ch' = ch_error ch \<and> incoming ch' = incoming ch
          \<and> outgoing ch' = outgoing ch \<and> inbound ch' = inbound ch \<and> hello_sent ch' = hello_sent ch)"

definition steady :: "channel \<Rightarrow> channel \<Rightarrow> bool" where
  "steady ch ch' \<longleftrightarrow> advances ch ch' \<and> (channel_ok ch \<longrightarrow> channel_ok ch')"

lemma steady_refl [simp]: "steady ch ch"
  by (simp add: steady_def advances_def)

lemma steady_trans: "steady a b \<Longrightarrow> steady b c \<Longrightarrow> steady a c"
  by (auto simp: steady_def advances_def intro: direction_le_trans)

lemma steady_reader [simp]:
  "steady ch (ch\<lparr>rd_buffer := b\<rparr>)" "steady ch (ch\<lparr>rd_buffer := b, rd_target := k\<rparr>)"
  "steady ch (ch\<lparr>rd_buffer := b, rd_frame := x\<rparr>)" "steady ch (ch\<lparr>sending := None\<rparr>)"
  by (simp_all add: steady_def advances_def channel_ok_def)

lemma terminate_steady [simp]: "steady ch (snd (terminate e ch))"
  by (auto simp: terminate_def steady_def advances_def channel_ok_def direction_ok_clear direction_le_same split: option.split)

lemma admits_steady:
  assumes "admits ch a ch'"
  shows "steady ch ch'"
proof (cases a)
  case Repeated
  with assms show ?thesis by (simp add: admits_def)
next
  case (Fresh fs data)
  with assms obtain d opp where s: "ch_error ch = None" "fs \<noteq> []"
    "accept_all ch fs (outgoing ch) (incoming ch) = Inr (d, opp)"
    and new: "ch' = ch\<lparr>outgoing := d, incoming := opp, sending := Some (last fs)\<rparr>"
    by (auto simp: admits_def)
  note le = accept_all_le [OF s(3)]
  have "advances ch ch'" using le s(1) by (simp add: new advances_def)
  moreover have "channel_ok ch \<longrightarrow> channel_ok ch'"
    using accept_all_ok [OF s(3)] accept_all_hello [OF s(3,2)] s(1)
    by (simp add: new channel_ok_def)
  ultimately show ?thesis by (simp add: steady_def)
qed

lemma finish_send_steady: "steady ch (snd (finish_send outcome ch))"
proof (cases "sending ch")
  case None
  then show ?thesis by (simp add: finish_send_def)
next
  case (Some f)
  show ?thesis
  proof (cases "rbind (check_time outcome) (\<lambda>_. check_open ch)")
    case (Inl e)
    then have "snd (finish_send outcome ch) = (snd (terminate e ch))\<lparr>sending := None\<rparr>"
      by (simp add: finish_send_def Some split: prod.split)
    then show ?thesis using steady_trans [OF terminate_steady [of ch e] steady_reader(4)] by simp
  next
    case (Inr u)
    then have "ch_error ch = None" by (simp add: result_simps check_open_def split: option.split_asm)
    with Inr show ?thesis
      by (simp add: finish_send_def Some steady_def advances_def channel_ok_def)
  qed
qed

lemma deliver_steady:
  assumes "deliver f ch = Inr ch'" "ch_error ch = None"
  shows "steady ch ch'"
proof -
  from assms(1) obtain d opp where s: "accept ch f (incoming ch) (outgoing ch) = Inr (d, opp)"
    and room: "is_hello (fr_message f) \<or> int (length (inbound ch)) < ch_capacity ch"
    and new: "ch' = ch\<lparr>incoming := d, outgoing := opp,
               inbound := (if is_hello (fr_message f) then inbound ch else inbound ch @ [f]),
               rd_buffer := [], rd_target := HEADER_SIZE, rd_frame := None\<rparr>"
    by (auto simp: deliver_def result_simps not_le split: if_split_asm)
  note le = accept_le [OF s]
  have "advances ch ch'" using le assms(2) by (simp add: new advances_def)
  moreover have "channel_ok ch \<longrightarrow> channel_ok ch'"
    using accept_ok [OF s] le room assms(2)
    by (auto simp: new channel_ok_def direction_le_def)
  ultimately show ?thesis by (simp add: steady_def)
qed

lemma reader_chunk_steady: "reader_chunk chunk ch = Inr ch' \<Longrightarrow> steady ch ch'"
  by (auto simp: reader_chunk_def read_header_def read_frame_def Let_def result_simps split: if_split_asm)

lemma reader_recv_steady: "steady ch (reader_recv chunk ch)"
  by (auto simp: reader_recv_def reader_guard_def reader_chunk_steady split: sum.split)

lemma reader_deliver_steady: "steady ch (reader_deliver ch)"
  by (auto simp: reader_deliver_def reader_guard_def deliver_steady split: sum.split option.split)

lemma poll_steady: "steady ch (snd (poll ch))"
  by (auto simp: poll_def check_open_def steady_def advances_def channel_ok_def split: option.split list.split)

lemma channel_step_steady: "channel_step ch ch' \<Longrightarrow> steady ch ch'"
  by (induction rule: channel_step.induct)
     (blast intro: admits_steady submits_admits finish_send_steady reader_recv_steady
        reader_deliver_steady poll_steady terminate_steady)+

lemma created_ok:
  "create_channel epoch capacity revision = Inr ch \<Longrightarrow> channel_ok ch"
  by (auto simp: create_channel_def channel_ok_def direction_ok_fresh split: sum.split_asm pyval.split_asm if_split_asm)

lemma channel_reachable_ok: "channel_reachable ch \<Longrightarrow> channel_ok ch"
proof (induction rule: channel_reachable.induct)
  case (created epoch capacity revision ch)
  then show ?case by (rule created_ok)
next
  case (stepped ch ch')
  then show ?case using channel_step_steady by (auto simp: steady_def)
qed

end
