(* ===== verification/Wire_Peers.thy ===== *)
theory Wire_Peers
  imports Wire_Invariant
begin

text \<open>
  Two channels of one session joined by a byte stream in each direction. Nothing is assumed of what the
  owners send, when the reader wakes up, or how the stream is cut into pieces; the theorems show that
  two ends find no fault in each other's frames but a lack of room, and that frames arrive complete and in order.
\<close>

record peer =
  chan :: channel
  wire :: "byte list"
  sent :: "frame list"
  got :: "frame list"

text \<open>
  \<open>wire\<close> holds the bytes under way to this peer, in the order in which the other one's send lock let
  them pass. \<open>sent\<close> and \<open>got\<close> record, for the statements only, the frames admitted and accepted.
\<close>

inductive peer_step :: "peer \<times> peer \<Rightarrow> peer \<times> peer \<Rightarrow> bool" where
  submit: "peer_step (a, b)
      (a\<lparr>chan := ch', sent := sent a @ admitted_frames adm\<rparr>, b\<lparr>wire := wire b @ admitted_bytes adm\<rparr>)"
    if "submits (chan a) adm ch'"
| finish: "peer_step (a, b) (a\<lparr>chan := snd (finish_send outcome (chan a))\<rparr>, b)"
| receive: "peer_step (a, b) (a\<lparr>chan := reader_recv (take n (wire a)) (chan a), wire := drop n (wire a)\<rparr>, b)"
    if "0 < n" "n \<le> reader_room (chan a)" "n \<le> length (wire a)" "rd_frame (chan a) = None"
| hand_over: "peer_step (a, b)
      (a\<lparr>chan := reader_deliver (chan a),
         got := got a @ (if rd_frame (reader_deliver (chan a)) = None then [f] else [])\<rparr>, b)"
    if "rd_frame (chan a) = Some f"
| polled: "peer_step (a, b) (a\<lparr>chan := snd (poll (chan a))\<rparr>, b)"
| ended: "peer_step (a, b) (a\<lparr>chan := snd (terminate e (chan a))\<rparr>, b)"

inductive net_step :: "peer \<times> peer \<Rightarrow> peer \<times> peer \<Rightarrow> bool" where
  first: "net_step (a, b) (a', b')" if "peer_step (a, b) (a', b')"
| second: "net_step (a, b) (a', b')" if "peer_step (b, a) (b', a')"

definition start_peer :: "channel \<Rightarrow> peer" where
  "start_peer ch = \<lparr>chan = ch, wire = [], sent = [], got = []\<rparr>"

text \<open>
  The two ends are created for the same epoch and revision; each has the inbound capacity its own owner
  chose for it.
\<close>

inductive net_reachable :: "peer \<times> peer \<Rightarrow> bool" where
  start: "net_reachable (start_peer ch, start_peer ch')"
    if "create_channel epoch capacity revision = Inr ch" "create_channel epoch capacity' revision = Inr ch'"
| more: "net_reachable t" if "net_reachable s" "net_step s t"

subsection \<open>Outstanding items across the wires\<close>

fun opened_edges :: "int message \<Rightarrow> int list" where
  "opened_edges (EdgeRequest i t ob b) = [i]"
| "opened_edges _ = []"

fun answered_edges :: "int message \<Rightarrow> int list" where
  "answered_edges (EdgeResponse i h b) = [i]"
| "answered_edges _ = []"

fun opened_fences :: "int message \<Rightarrow> (int \<times> int) list" where
  "opened_fences (Fence i e) = [(i, e)]"
| "opened_fences _ = []"

fun answered_fences :: "int message \<Rightarrow> (int \<times> int) list" where
  "answered_fences (FenceAck i e) = [(i, e)]"
| "answered_fences _ = []"

definition along :: "(int message \<Rightarrow> 'x list) \<Rightarrow> frame list \<Rightarrow> 'x list" where
  "along g fs = concat (map (\<lambda>f. g (fr_message f)) fs)"

lemma along_simps [simp]:
  "along g [] = []" "along g (f # fs) = g (fr_message f) @ along g fs" "along g (fs @ gs) = along g fs @ along g gs"
  by (simp_all add: along_def)

text \<open>
  The sender's outgoing direction and the receiver's incoming one, with \<open>fl\<close> under way to the receiver
  and \<open>bk\<close> under way to the sender.
\<close>

definition linked :: "direction_state \<Rightarrow> direction_state \<Rightarrow> frame list \<Rightarrow> frame list \<Rightarrow> bool" where
  "linked d_out d_in fl bk \<longleftrightarrow>
     edges_ledger.agree (d_pending d_out) (d_pending d_in) (along opened_edges fl) (along answered_edges bk)
     \<and> fences_ledger.agree (d_pending_fences d_out) (d_pending_fences d_in) (along opened_fences fl) (along answered_fences bk)"

lemma accepted_cases:
  assumes "accept ch f d opp = Inr (d', opp')"
  shows "(d', opp') = record_message (fr_message f) (d\<lparr>d_sequence := d_sequence d + 1\<rparr>) opp"
    "is_hello (fr_message f) \<or> message_fits (fr_message f) (clear_pending d)
       \<and> outstanding_fits (ch_capacity ch) (fr_message f) d opp"
  using assms by (auto simp: accept_Inr accept_problem_None frame_fits_def split: if_split_asm)

lemma fence_listed: "map_of xs i = Some e \<Longrightarrow> (i, e) \<in># mset xs"
  by (simp add: map_of_SomeD)

lemma linked_send:
  assumes "accept ch f d opp = Inr (d', opp')" "direction_ok cap d" "linked d d_in fl bk"
  shows "linked d' d_in (fl @ [f]) bk"
proof -
  note c = accepted_cases [OF assms(1)]
  have fin: "finite (d_pending d)" and snd: "fences_sound (d_pending_fences d)"
    using assms(2) by (simp_all add: direction_ok_def)
  note e = edges_ledger.agree_request [OF _ fin, of _ _ _ "d_last_edge_id d + 1"]
  note g = fences_ledger.agree_request [OF _ snd, of _ _ _ "(d_last_fence_id d + 1, d_last_edge_id d)", simplified]
  show ?thesis
    using c assms(3) new_edge [OF assms(2)] new_fence [OF assms(2)] fin
    by (cases "fr_message f") (auto simp: linked_def intro: e g)
qed

lemma linked_answer:
  assumes "accept ch f d opp = Inr (d', opp')" "direction_ok cap opp" "linked d_out opp fl bk"
  shows "linked d_out opp' fl (bk @ [f])"
proof -
  note c = accepted_cases [OF assms(1)]
  have fin: "finite (d_pending opp)" and snd: "fences_sound (d_pending_fences opp)"
    using assms(2) by (simp_all add: direction_ok_def)
  show ?thesis
    using c assms(3) fin edges_ledger.agree_answer [OF _ fin] fences_ledger.agree_answer [OF _ snd, of _ _ _ "(_, _)"]
    by (cases "fr_message f") (auto simp: linked_def fence_listed simp del: set_mset_mset)
qed

lemma linked_arrive:
  assumes "accept ch f d opp = Inr (d', opp')" "direction_ok cap' d_out" "direction_ok cap d"
    and "linked d_out d (f # fl) bk"
  shows "linked d_out d' fl bk"
proof -
  note c = accepted_cases [OF assms(1)]
  have fin: "finite (d_pending d_out)" "finite (d_pending d)"
    and snd: "fences_sound (d_pending_fences d_out)" "fences_sound (d_pending_fences d)"
    using assms(2,3) by (simp_all add: direction_ok_def)
  show ?thesis
    using c assms(4) edges_ledger.agree_arrive(1) [OF _ fin] fences_ledger.agree_arrive(1) [OF _ snd, of "(_, _)"]
    by (cases "fr_message f") (auto simp: linked_def)
qed

lemma linked_settle:
  assumes "accept ch f d opp = Inr (d', opp')" "direction_ok cap opp" "linked opp d_in fl (f # bk)"
  shows "linked opp' d_in fl bk"
proof -
  note c = accepted_cases [OF assms(1)]
  have fin: "finite (d_pending opp)" and snd: "fences_sound (d_pending_fences opp)"
    using assms(2) by (simp_all add: direction_ok_def)
  show ?thesis
    using c assms(3) edges_ledger.agree_settle [OF _ fin] fences_ledger.agree_settle [OF _ snd, of _ _ "(_, _)"]
    by (cases "fr_message f") (auto simp: linked_def)
qed

text \<open>
  What the receiver finds acceptable, as far as the outstanding items go: all of it, when the sender's
  capacity \<open>cap'\<close> is within its own; otherwise only the room for a new item can be missing.
\<close>

definition opens_item :: "int message \<Rightarrow> bool" where
  "opens_item m \<longleftrightarrow> opened_edges m \<noteq> [] \<or> opened_fences m \<noteq> []"


lemma linked_acceptable:
  assumes "linked d_out d (f # fl) bk" "direction_ok cap' d_out"
    and "linked opp d_in fl' (f # bk')" "direction_ok cap'' opp" and small: "opens_item (fr_message f) \<Longrightarrow> cap' \<le> cap"
  shows "outstanding_fits cap (fr_message f) d opp"
proof -
  have bound: "int (card (d_pending d_out)) \<le> cap'" "int (length (d_pending_fences d_out)) \<le> cap'"
    and fin: "finite (d_pending opp)" and snd: "distinct (map fst (d_pending_fences opp))"
    using assms(2,4) by (simp_all add: direction_ok_def fences_sound_def)
  show ?thesis
  proof (cases "fr_message f")
    case (EdgeRequest i t ob b)
    with assms(1) have "edges_ledger.agree (d_pending d_out) (d_pending d) (i # along opened_edges fl) (along answered_edges bk)"
      by (simp add: linked_def)
    from edges_ledger.arrive_room [OF this] bound(1) small EdgeRequest show ?thesis by (simp add: opens_item_def)
  next
    case (EdgeResponse i h b)
    with assms(3) have "edges_ledger.agree (d_pending opp) (d_pending d_in) (along opened_edges fl') (i # along answered_edges bk')"
      by (simp add: linked_def)
    from edges_ledger.settle_known [OF this] fin EdgeResponse show ?thesis by simp
  next
    case (Fence i e)
    with assms(1) have "fences_ledger.agree (d_pending_fences d_out) (d_pending_fences d) ((i, e) # along opened_fences fl) (along answered_fences bk)"
      by (simp add: linked_def)
    from fences_ledger.arrive_room [OF this] bound(2) small Fence show ?thesis by (simp add: opens_item_def)
  next
    case (FenceAck i e)
    with assms(3) have "fences_ledger.agree (d_pending_fences opp) (d_pending_fences d_in) (along opened_fences fl') ((i, e) # along answered_fences bk')"
      by (simp add: linked_def)
    from fences_ledger.settle_known [OF this] snd FenceAck show ?thesis by simp
  qed simp_all
qed

subsection \<open>Bytes under way\<close>

text \<open>
  How far a reader has come with a list of frames: it holds a decoded one, or a proper prefix of the
  first one's bytes, with the length to read up to as the header's arrival determines it.
\<close>

definition on_wire :: "channel \<Rightarrow> byte list \<Rightarrow> frame list \<Rightarrow> bool" where
  "on_wire ch bs fs \<longleftrightarrow>
     (case rd_frame ch of
        Some f \<Rightarrow> \<exists>fs'. fs = f # fs' \<and> bs = concat (map frame_bytes fs')
      | None \<Rightarrow> rd_buffer ch @ bs = concat (map frame_bytes fs)
          \<and> (case fs of
               [] \<Rightarrow> rd_target ch = HEADER_SIZE
             | f # fs' \<Rightarrow> length (rd_buffer ch) < length (frame_bytes f)
                 \<and> rd_target ch = (if length (rd_buffer ch) < HEADER_SIZE then HEADER_SIZE else length (frame_bytes f))))"

definition matching :: "channel \<Rightarrow> frame \<Rightarrow> bool" where
  "matching ch f \<longleftrightarrow> valid_frame f \<and> fr_epoch f = ch_epoch ch \<and> fr_revision f = ch_revision ch"

lemma length_frame_bytes:
  "valid_frame f \<Longrightarrow> length (frame_bytes f) = HEADER_SIZE + length (body_of (fr_message f))"
  by (simp add: valid_frame_def frame_bytes_def HEADER_SIZE_def MAGIC_def del: be_bytes.simps)

lemma body_nonempty: "0 < length (body_of m)"
  unfolding length_body by (cases m) (auto simp: layout_def)

lemma parse_header_frame:
  assumes "valid_frame f"
  shows "parse_header (take HEADER_SIZE (frame_bytes f))
    = Inr (message_tag (fr_message f), the (layout (message_tag (fr_message f))), fr_epoch f, fr_sequence f, fr_revision f)"
proof -
  have "decode_frame (PyBytes (frame_bytes f)) = Inr f" using assms by (rule decode_frame_bytes)
  then obtain tag ws ep n r m where h: "parse_header (take HEADER_SIZE (frame_bytes f)) = Inr (tag, ws, ep, n, r)"
    and m: "make_message tag (unpack ws (drop HEADER_SIZE (frame_bytes f))) = Some m"
    and f: "f = \<lparr>fr_epoch = ep, fr_sequence = n, fr_message = m, fr_revision = r\<rparr>"
    by (auto simp: decode_frame_def result_simps split: if_split_asm option.split_asm)
  from m have "tag = message_tag (fr_message f)" by (auto simp: f dest: make_message_tag)
  with h f show ?thesis by (auto simp: parse_header_Inr)
qed

lemma on_wire_append:
  assumes "on_wire ch bs fs" "\<forall>g \<in> set gs. valid_frame g"
  shows "on_wire ch (bs @ concat (map frame_bytes gs)) (fs @ gs)"
  using assms by (cases fs; cases gs) (auto simp: on_wire_def length_frame_bytes HEADER_SIZE_def split: option.splits)

lemma on_wire_same: "rd_buffer ch' = rd_buffer ch \<Longrightarrow> rd_target ch' = rd_target ch \<Longrightarrow> rd_frame ch' = rd_frame ch
    \<Longrightarrow> on_wire ch' bs fs = on_wire ch bs fs"
  by (simp add: on_wire_def split: option.split list.split)

text \<open>Only the reader's own fields differ.\<close>

definition same_protocol :: "channel \<Rightarrow> channel \<Rightarrow> bool" where
  "same_protocol ch ch' \<longleftrightarrow> ch' = ch\<lparr>rd_buffer := rd_buffer ch', rd_target := rd_target ch', rd_frame := rd_frame ch'\<rparr>"

lemma same_protocol_fields:
  assumes "same_protocol ch ch'"
  shows "incoming ch' = incoming ch" "outgoing ch' = outgoing ch" "ch_error ch' = ch_error ch"
    "ch_epoch ch' = ch_epoch ch" "ch_revision ch' = ch_revision ch" "inbound ch' = inbound ch"
  using arg_cong [OF assms [unfolded same_protocol_def], of incoming] arg_cong [OF assms [unfolded same_protocol_def], of outgoing]
    arg_cong [OF assms [unfolded same_protocol_def], of ch_error] arg_cong [OF assms [unfolded same_protocol_def], of ch_epoch]
    arg_cong [OF assms [unfolded same_protocol_def], of ch_revision] arg_cong [OF assms [unfolded same_protocol_def], of inbound]
  by simp_all

lemma reader_chunk_on_wire:
  assumes "on_wire ch bs fs" "\<forall>f \<in> set fs. matching ch f" "rd_frame ch = None"
    and "0 < n" "n \<le> reader_room ch" "n \<le> length bs"
  shows "\<exists>ch'. reader_chunk (take n bs) ch = Inr ch' \<and> same_protocol ch ch' \<and> on_wire ch' (drop n bs) fs"
proof -
  obtain f fs' where fs: "fs = f # fs'"
    using assms by (cases fs) (auto simp: on_wire_def)
  have v: "valid_frame f" "fr_epoch f = ch_epoch ch" "fr_revision f = ch_revision ch"
    using assms(2) by (auto simp: fs matching_def)
  let ?F = "frame_bytes f" and ?buf = "rd_buffer ch @ take n bs" and ?T = "rd_target ch"
  have stream: "rd_buffer ch @ bs = ?F @ concat (map frame_bytes fs')"
    and short: "length (rd_buffer ch) < length ?F"
    and target: "?T = (if length (rd_buffer ch) < HEADER_SIZE then HEADER_SIZE else length ?F)"
    using assms(1,3) by (simp_all add: on_wire_def fs)
  note lF = length_frame_bytes [OF v(1)] body_nonempty [of "fr_message f"]
  have room: "length ?buf \<le> ?T" "length (rd_buffer ch) < ?T"
    using assms(4-6) by (auto simp: reader_room_def)
  have TF: "?T \<le> length ?F" using target lF by (auto split: if_splits)
  have buf: "?buf = take (length ?buf) ?F"
  proof -
    have "?buf = take (length ?buf) (rd_buffer ch @ bs)" using assms(6) by simp
    also have "\<dots> = take (length ?buf) ?F" using room TF by (simp add: stream)
    finally show ?thesis .
  qed
  have rest: "?buf @ drop n bs = concat (map frame_bytes fs)" using stream by (simp add: fs)
  have ne: "take n bs \<noteq> []" using assms(4,6) by auto
  consider (partial) "length ?buf < ?T" | (header) "length ?buf = ?T" "?T = HEADER_SIZE"
    | (full) "length ?buf = ?T" "?T = length ?F" "?T \<noteq> HEADER_SIZE"
    using room target lF by (cases "length ?buf = ?T") (auto split: if_splits)
  then show ?thesis
  proof cases
    case partial
    have "on_wire (ch\<lparr>rd_buffer := ?buf\<rparr>) (drop n bs) fs"
      using rest partial TF target room assms(3) by (auto simp: on_wire_def fs split: if_splits)
    with partial ne show ?thesis
      by (auto simp: reader_chunk_def same_protocol_def)
  next
    case header
    then have head: "?buf = take HEADER_SIZE ?F" using buf by simp
    let ?ch = "ch\<lparr>rd_buffer := ?buf, rd_target := ?T + sum_list (the (layout (message_tag (fr_message f))))\<rparr>"
    have "reader_chunk (take n bs) ch = read_header ?buf ch"
      using header ne by (simp add: reader_chunk_def)
    also have "\<dots> = Inr ?ch"
      unfolding head by (simp add: read_header_def parse_header_frame [OF v(1)] v(2,3))
    finally have r: "reader_chunk (take n bs) ch = Inr ?ch" .
    have tgt: "rd_target ?ch = length ?F" using header lF by (simp add: length_body)
    have "on_wire ?ch (drop n bs) fs"
      unfolding on_wire_def using rest header lF tgt assms(3) by (simp add: fs)
    with r show ?thesis by (auto simp: same_protocol_def)
  next
    case full
    then have whole: "?buf = ?F" using buf by simp
    let ?ch = "ch\<lparr>rd_buffer := ?buf, rd_frame := Some f\<rparr>"
    have "reader_chunk (take n bs) ch = read_frame ?buf ch"
      using full ne by (simp add: reader_chunk_def)
    also have "\<dots> = Inr ?ch"
      unfolding whole by (simp add: read_frame_def decode_frame_bytes [OF v(1)])
    finally have r: "reader_chunk (take n bs) ch = Inr ?ch" .
    have "on_wire ?ch (drop n bs) fs"
      using rest by (simp add: on_wire_def fs whole)
    with r show ?thesis by (auto simp: same_protocol_def)
  qed
qed

subsection \<open>What joins the two ends\<close>

fun follows :: "channel \<Rightarrow> direction_state \<Rightarrow> frame list \<Rightarrow> direction_state \<Rightarrow> bool" where
  "follows ch s [] s' \<longleftrightarrow> s' = s"
| "follows ch s (f # fs) s' \<longleftrightarrow> frame_fits ch f s \<and> follows ch (next_scalars f s) fs s'"

lemma follows_append: "follows ch s (fs @ gs) s' \<longleftrightarrow> (\<exists>m. follows ch s fs m \<and> follows ch m gs s')"
  by (induction fs arbitrary: s) auto

lemma follows_same:
  "ch_epoch ch' = ch_epoch ch \<Longrightarrow> ch_revision ch' = ch_revision ch \<Longrightarrow> follows ch' s fs s' = follows ch s fs s'"
  by (induction fs arbitrary: s) (auto simp: frame_fits_def)

lemma fits_hello_kept: "frame_fits ch f s \<Longrightarrow> d_hello (next_scalars f s)"
  by (cases "fr_message f") (simp_all add: frame_fits_def next_scalars_def)

lemma follows_hello: "follows ch s fs s' \<Longrightarrow> d_hello s \<Longrightarrow> d_hello s'"
  by (induction fs arbitrary: s) (auto dest: fits_hello_kept)

text \<open>
  One way of the link: \<open>fl\<close> is under way from \<open>a\<close> to \<open>b\<close>, \<open>bk\<close> from \<open>b\<close> to \<open>a\<close>. The receiver's view
  of the sender's direction is the sender's own, less the frames under way.
\<close>

definition half :: "peer \<Rightarrow> peer \<Rightarrow> frame list \<Rightarrow> frame list \<Rightarrow> bool" where
  "half a b fl bk \<longleftrightarrow>
     sent a = got b @ fl \<and> on_wire (chan b) (wire b) fl \<and> (\<forall>f \<in> set fl. matching (chan a) f)
     \<and> follows (chan a) (clear_pending (incoming (chan b))) fl (clear_pending (outgoing (chan a)))
     \<and> linked (outgoing (chan a)) (incoming (chan b)) fl bk
     \<and> (\<forall>f \<in> set fl. is_hello (fr_message f) \<or> d_hello (incoming (chan a)))"

definition same_session :: "channel \<Rightarrow> channel \<Rightarrow> bool" where
  "same_session ch ch' \<longleftrightarrow> ch_epoch ch = ch_epoch ch' \<and> ch_revision ch = ch_revision ch'"

definition both_open :: "peer \<Rightarrow> peer \<Rightarrow> bool" where
  "both_open a b \<longleftrightarrow> ch_error (chan a) = None \<and> ch_error (chan b) = None"

definition joined :: "peer \<Rightarrow> peer \<Rightarrow> bool" where
  "joined a b \<longleftrightarrow> channel_ok (chan a) \<and> channel_ok (chan b) \<and> same_session (chan a) (chan b)
     \<and> (both_open a b \<longrightarrow> (\<exists>fl bk. half a b fl bk \<and> half b a bk fl))"

lemma joined_swap: "joined a b \<Longrightarrow> joined b a"
  by (auto simp: joined_def same_session_def both_open_def)

lemma joined_start:
  "create_channel epoch capacity revision = Inr ch \<Longrightarrow> create_channel epoch capacity' revision = Inr ch'
     \<Longrightarrow> joined (start_peer ch) (start_peer ch')"
  using created_ok [of epoch capacity revision ch] created_ok [of epoch capacity' revision ch']
  by (auto simp: joined_def start_peer_def same_session_def half_def on_wire_def linked_def
      edges_ledger.agree_def fences_ledger.agree_def create_channel_def fresh_direction_def
      split: sum.split_asm pyval.split_asm if_split_asm)

lemma submit_all:
  assumes "accept_all ch fs d opp = Inr (d', opp')"
    and "direction_ok (ch_capacity ch) d" "direction_ok (ch_capacity ch) opp"
    and "linked d d_in fl bk" "linked d_out opp bk fl" "follows ch s fl (clear_pending d)"
  shows "linked d' d_in (fl @ fs) bk \<and> linked d_out opp' bk (fl @ fs) \<and> follows ch s (fl @ fs) (clear_pending d')
     \<and> clear_pending opp' = clear_pending opp
     \<and> (\<forall>f \<in> set fs. fr_epoch f = ch_epoch ch \<and> fr_revision f = ch_revision ch \<and> (is_hello (fr_message f) \<or> d_hello opp))"
  using assms
proof (induction fs arbitrary: d opp fl)
  case (Cons f fs)
  then obtain d1 opp1 where s: "accept ch f d opp = Inr (d1, opp1)" "accept_all ch fs d1 opp1 = Inr (d', opp')"
    by (auto simp: result_simps)
  note sc = accept_scalars [OF s(1)]
  have "follows ch s (fl @ [f]) (clear_pending d1)"
    unfolding follows_append using Cons.prems(6) sc by auto
  then have "linked d' d_in ((fl @ [f]) @ fs) bk \<and> linked d_out opp' bk ((fl @ [f]) @ fs)
     \<and> follows ch s ((fl @ [f]) @ fs) (clear_pending d') \<and> clear_pending opp' = clear_pending opp1
     \<and> (\<forall>f \<in> set fs. fr_epoch f = ch_epoch ch \<and> fr_revision f = ch_revision ch \<and> (is_hello (fr_message f) \<or> d_hello opp1))"
    using Cons.prems accept_ok [OF s(1)] linked_send [OF s(1)] linked_answer [OF s(1)]
    by (intro Cons.IH [OF s(2)]) auto
  moreover have "d_hello opp1 = d_hello opp" using arg_cong [OF sc(2), of d_hello] by simp
  moreover have "fr_epoch f = ch_epoch ch" "fr_revision f = ch_revision ch" "is_hello (fr_message f) \<or> d_hello opp"
    using s(1) by (auto simp: accept_Inr accept_problem_None frame_fits_def)
  ultimately show ?case using sc(2) by simp
qed simp

subsection \<open>Every step keeps the ends joined\<close>

text \<open>A step that touches neither direction nor reader leaves both ways as they are.\<close>

definition same_link :: "channel \<Rightarrow> channel \<Rightarrow> bool" where
  "same_link ch ch' \<longleftrightarrow> same_session ch ch' \<and> incoming ch' = incoming ch \<and> outgoing ch' = outgoing ch
     \<and> rd_buffer ch' = rd_buffer ch \<and> rd_target ch' = rd_target ch \<and> rd_frame ch' = rd_frame ch"

lemma half_same_link:
  assumes "same_link (chan a) ch'"
  shows "half (a\<lparr>chan := ch'\<rparr>) b fl bk = half a b fl bk" "half b (a\<lparr>chan := ch'\<rparr>) bk fl = half b a bk fl"
  using assms follows_same [of ch' "chan a"]
  by (simp_all add: half_def same_link_def same_session_def matching_def on_wire_same [of ch' "chan a"])

definition keeps :: "peer \<Rightarrow> peer \<Rightarrow> peer \<Rightarrow> peer \<Rightarrow> bool" where
  "keeps a b a' b' \<longleftrightarrow>
     (joined a b \<and> both_open a b \<and> both_open a' b' \<longrightarrow> (\<exists>fl bk. half a' b' fl bk \<and> half b' a' bk fl))"

lemma submit_keeps:
  assumes "submits (chan a) adm ch'"
  shows "keeps a b (a\<lparr>chan := ch', sent := sent a @ admitted_frames adm\<rparr>) (b\<lparr>wire := wire b @ admitted_bytes adm\<rparr>)"
  unfolding keeps_def
proof (intro impI, elim conjE)
  assume j: "joined a b" and o: "both_open a b"
  then obtain fl bk where h: "half a b fl bk" "half b a bk fl" by (auto simp: joined_def)
  have ad: "admits (chan a) adm ch'" using assms by (rule submits_admits)
  let ?a = "a\<lparr>chan := ch', sent := sent a @ admitted_frames adm\<rparr>"
    and ?b = "b\<lparr>wire := wire b @ admitted_bytes adm\<rparr>"
  show "\<exists>fl bk. half ?a ?b fl bk \<and> half ?b ?a bk fl"
  proof (cases adm)
    case (Repeated f)
    with ad h show ?thesis by (intro exI [of _ fl] exI [of _ bk]) (auto simp: admits_def half_def)
  next
    case (Fresh fs data)
    with ad obtain d opp where acc: "accept_all (chan a) fs (outgoing (chan a)) (incoming (chan a)) = Inr (d, opp)"
      and new: "ch' = (chan a)\<lparr>outgoing := d, incoming := opp, sending := Some (last fs)\<rparr>"
      and bytes: "data = concat (map frame_bytes fs)" and v: "\<forall>f \<in> set fs. valid_frame f"
      by (auto simp: admits_def)
    have ok: "direction_ok (ch_capacity (chan a)) (outgoing (chan a))" "direction_ok (ch_capacity (chan a)) (incoming (chan a))"
      using j by (auto simp: joined_def channel_ok_def)
    have s: "linked d (incoming (chan b)) (fl @ fs) bk \<and> linked (outgoing (chan b)) opp bk (fl @ fs)
        \<and> follows (chan a) (clear_pending (incoming (chan b))) (fl @ fs) (clear_pending d)
        \<and> clear_pending opp = clear_pending (incoming (chan a))
        \<and> (\<forall>f \<in> set fs. fr_epoch f = ch_epoch (chan a) \<and> fr_revision f = ch_revision (chan a)
              \<and> (is_hello (fr_message f) \<or> d_hello (incoming (chan a))))"
      using h by (intro submit_all [OF acc ok]) (auto simp: half_def)
    then have hello: "d_hello opp = d_hello (incoming (chan a))" by (metis clear_pending_simps(2))
    have "half ?a ?b (fl @ fs) bk"
      using h(1) s v on_wire_append [of "chan b" "wire b" fl fs] hello follows_same [of ch' "chan a"]
      by (auto simp: half_def Fresh new bytes matching_def)
    moreover have "half ?b ?a bk (fl @ fs)"
      using h(2) s on_wire_same [of ch' "chan a"] by (simp add: half_def new)
    ultimately show ?thesis by blast
  qed
qed

lemma same_link_keeps:
  assumes "ch_error ch' = None \<Longrightarrow> same_link (chan a) ch'"
  shows "keeps a b (a\<lparr>chan := ch'\<rparr>) b"
  using assms half_same_link [of a ch' b] by (auto simp: keeps_def joined_def both_open_def)

lemma finish_same_link: "ch_error (snd (finish_send outcome ch)) = None \<Longrightarrow> same_link ch (snd (finish_send outcome ch))"
  by (auto simp: finish_send_def terminate_def same_link_def same_session_def
      split: option.splits sum.splits prod.splits)

lemma poll_same_link: "same_link ch (snd (poll ch))"
  by (auto simp: poll_def same_link_def same_session_def split: sum.split list.split)

lemma terminate_error [simp]: "ch_error (snd (terminate e ch)) \<noteq> None"
  by (auto simp: terminate_def split: option.split)

lemma receive_keeps:
  assumes "0 < n" "n \<le> reader_room (chan a)" "n \<le> length (wire a)" "rd_frame (chan a) = None"
    and "joined a b" "both_open a b"
  shows "ch_error (reader_recv (take n (wire a)) (chan a)) = None"
    and "keeps a b (a\<lparr>chan := reader_recv (take n (wire a)) (chan a), wire := drop n (wire a)\<rparr>) b"
proof -
  obtain fl bk where h: "half a b fl bk" "half b a bk fl" using assms(5,6) by (auto simp: joined_def)
  have o: "ch_error (chan a) = None" using assms(6) by (simp add: both_open_def)
  have "\<forall>f \<in> set bk. matching (chan a) f"
    using h(2) assms(5) by (auto simp: half_def joined_def same_session_def matching_def)
  moreover have "on_wire (chan a) (wire a) bk" using h(2) by (simp add: half_def)
  ultimately obtain ch' where r: "reader_chunk (take n (wire a)) (chan a) = Inr ch'" "same_protocol (chan a) ch'"
      "on_wire ch' (drop n (wire a)) bk"
    using reader_chunk_on_wire [of "chan a" "wire a" bk n] assms(1-4) by blast
  have recv: "reader_recv (take n (wire a)) (chan a) = ch'"
    using assms(4) o r(1) by (simp add: reader_recv_def reader_guard_def)
  have f: "incoming ch' = incoming (chan a)" "outgoing ch' = outgoing (chan a)" "ch_error ch' = ch_error (chan a)"
    "ch_epoch ch' = ch_epoch (chan a)" "ch_revision ch' = ch_revision (chan a)"
    using same_protocol_fields [OF r(2)] by simp_all
  show "ch_error (reader_recv (take n (wire a)) (chan a)) = None" using f o recv by simp
  show "keeps a b (a\<lparr>chan := reader_recv (take n (wire a)) (chan a), wire := drop n (wire a)\<rparr>) b"
    unfolding recv keeps_def using h f r(3) follows_same [of ch' "chan a"]
    by (intro impI exI [of _ fl] exI [of _ bk]) (auto simp: half_def matching_def)
qed

text \<open>
  The heart of it: once the handshake gate is open, a frame that arrives has all it needs, except perhaps
  room for a new item in an end with a smaller capacity than its sender's.
\<close>

lemma arriving_fits:
  assumes "half a b fl bk" "half b a bk fl" "bk = f # bk'" "same_session (chan a) (chan b)" "\<not> reader_waits f (chan a)"
  shows "frame_fits (chan a) f (clear_pending (incoming (chan a)))"
    and "is_hello (fr_message f) \<or> d_hello (outgoing (chan a)) \<and> hello_sent (chan a)"
proof -
  show "frame_fits (chan a) f (clear_pending (incoming (chan a)))"
    using assms(2-4) by (auto simp: half_def frame_fits_def same_session_def)
  show "is_hello (fr_message f) \<or> d_hello (outgoing (chan a)) \<and> hello_sent (chan a)"
  proof (cases "is_hello (fr_message f)")
    case False
    then have "d_hello (incoming (chan b))" using assms(2,3) by (auto simp: half_def)
    moreover have "follows (chan a) (clear_pending (incoming (chan b))) fl (clear_pending (outgoing (chan a)))"
      using assms(1) by (simp add: half_def)
    ultimately have "d_hello (outgoing (chan a))" using follows_hello by fastforce
    with False assms(5) show ?thesis by (simp add: reader_waits_def)
  qed simp
qed

lemma arriving_acceptable:
  assumes "half a b fl bk" "half b a bk fl" "bk = f # bk'" "channel_ok (chan a)" "channel_ok (chan b)"
    and "same_session (chan a) (chan b)" "\<not> reader_waits f (chan a)"
    and small: "opens_item (fr_message f) \<Longrightarrow> ch_capacity (chan b) \<le> ch_capacity (chan a)"
  shows "accept_problem (chan a) f (incoming (chan a)) (outgoing (chan a)) = None"
proof -
  note fits = arriving_fits [OF assms(1-3,6,7)]
  have link: "linked (outgoing (chan b)) (incoming (chan a)) (f # bk') fl"
    "linked (outgoing (chan a)) (incoming (chan b)) fl (f # bk')"
    using assms(1-3) by (simp_all add: half_def)
  have ok: "direction_ok (ch_capacity (chan b)) (outgoing (chan b))" "direction_ok (ch_capacity (chan a)) (outgoing (chan a))"
    using assms(4,5) by (simp_all add: channel_ok_def)
  have "outstanding_fits (ch_capacity (chan a)) (fr_message f) (incoming (chan a)) (outgoing (chan a))"
    by (rule linked_acceptable [OF link(1) ok(1) link(2) ok(2) small])
  with fits show ?thesis by (simp add: accept_problem_None)
qed

text \<open>The two answers of an end whose room for new items is used up.\<close>

definition no_room :: "string option \<Rightarrow> bool" where
  "no_room p \<longleftrightarrow> p = Some ''outstanding edge capacity exceeded'' \<or> p = Some ''outstanding fence capacity exceeded''"

lemma arriving_problem:
  assumes "frame_fits ch f (clear_pending d)" "d_hello opp \<and> hello_sent ch" "opens_item (fr_message f)"
  shows "accept_problem ch f d opp = None \<or> no_room (accept_problem ch f d opp)"
  using assms by (cases "fr_message f") (auto simp: opens_item_def accept_problem_def frame_fits_def no_room_def not_less not_le)

lemma hand_over_open:
  assumes "half a b fl bk" "half b a bk fl" "rd_frame (chan a) = Some f" "ch_error (chan a) = None"
    and "ch_error (reader_deliver (chan a)) = None" "\<not> reader_waits f (chan a)"
  shows "\<exists>d opp bk'. bk = f # bk' \<and> wire a = concat (map frame_bytes bk')
    \<and> accept (chan a) f (incoming (chan a)) (outgoing (chan a)) = Inr (d, opp)
    \<and> reader_deliver (chan a) = (chan a)\<lparr>incoming := d, outgoing := opp,
        inbound := (if is_hello (fr_message f) then inbound (chan a) else inbound (chan a) @ [f]),
        rd_buffer := [], rd_target := HEADER_SIZE, rd_frame := None\<rparr>"
proof -
  have "deliver f (chan a) = Inr (reader_deliver (chan a))"
    using assms(3-6)
    by (auto simp: reader_deliver_def reader_guard_def split: sum.split_asm)
  then obtain d opp where "accept (chan a) f (incoming (chan a)) (outgoing (chan a)) = Inr (d, opp)"
    "reader_deliver (chan a) = (chan a)\<lparr>incoming := d, outgoing := opp,
        inbound := (if is_hello (fr_message f) then inbound (chan a) else inbound (chan a) @ [f]),
        rd_buffer := [], rd_target := HEADER_SIZE, rd_frame := None\<rparr>"
    by (auto simp: deliver_def result_simps split: if_split_asm)
  moreover have "\<exists>bk'. bk = f # bk' \<and> wire a = concat (map frame_bytes bk')"
    using assms(2,3) by (simp add: half_def on_wire_def)
  ultimately show ?thesis by blast
qed

lemma on_wire_idle:
  assumes "\<forall>f \<in> set fs. valid_frame f" "rd_buffer ch = []" "rd_target ch = HEADER_SIZE" "rd_frame ch = None"
  shows "on_wire ch (concat (map frame_bytes fs)) fs"
  using assms by (cases fs) (auto simp: on_wire_def length_frame_bytes HEADER_SIZE_def)

lemma hand_over_keeps:
  assumes "rd_frame (chan a) = Some f"
  shows "keeps a b (a\<lparr>chan := reader_deliver (chan a),
         got := got a @ (if rd_frame (reader_deliver (chan a)) = None then [f] else [])\<rparr>) b"
  unfolding keeps_def
proof (intro impI, elim conjE)
  let ?ch = "reader_deliver (chan a)"
  let ?a = "a\<lparr>chan := ?ch, got := got a @ (if rd_frame ?ch = None then [f] else [])\<rparr>"
  assume j: "joined a b" and o: "both_open a b" and o': "both_open ?a b"
  from j o obtain fl bk where h: "half a b fl bk" "half b a bk fl" by (auto simp: joined_def)
  show "\<exists>fl bk. half ?a b fl bk \<and> half b ?a bk fl"
  proof (cases "reader_waits f (chan a)")
    case True
    then have "?ch = chan a" using assms by (simp add: reader_deliver_def)
    with assms h show ?thesis by auto
  next
    case False
    have e: "ch_error (chan a) = None" "ch_error ?ch = None" using o o' by (simp_all add: both_open_def)
    obtain d opp bk' where bk: "bk = f # bk'" "wire a = concat (map frame_bytes bk')"
      and acc: "accept (chan a) f (incoming (chan a)) (outgoing (chan a)) = Inr (d, opp)"
      and new: "?ch = (chan a)\<lparr>incoming := d, outgoing := opp,
          inbound := (if is_hello (fr_message f) then inbound (chan a) else inbound (chan a) @ [f]),
          rd_buffer := [], rd_target := HEADER_SIZE, rd_frame := None\<rparr>"
      using hand_over_open [OF h assms e False] by blast
    have ok: "direction_ok (ch_capacity (chan b)) (outgoing (chan b))" "direction_ok (ch_capacity (chan a)) (incoming (chan a))"
      "direction_ok (ch_capacity (chan a)) (outgoing (chan a))"
      using j by (auto simp: joined_def channel_ok_def same_session_def)
    note sc = accept_scalars [OF acc] and le = accept_le [OF acc]
    have sess: "ch_epoch (chan b) = ch_epoch (chan a)" "ch_revision (chan b) = ch_revision (chan a)"
      using j by (auto simp: joined_def same_session_def)
    have "half b ?a bk' fl"
    proof -
      have "linked (outgoing (chan b)) d bk' fl"
        using linked_arrive [OF acc ok(1,2), of bk' fl] h(2) by (simp add: half_def bk)
      moreover have "on_wire ?ch (wire a) bk'"
        using h(2) unfolding bk(2) by (intro on_wire_idle) (auto simp: half_def bk(1) matching_def new)
      moreover have "follows (chan b) (clear_pending d) bk' (clear_pending (outgoing (chan b)))"
        using h(2) sc(1) by (simp add: half_def bk)
      ultimately show ?thesis using h(2) by (auto simp: half_def bk(1) new)
    qed
    moreover have "half ?a b fl bk'"
    proof -
      have "linked opp (incoming (chan b)) fl bk'"
        using linked_settle [OF acc ok(3), of "incoming (chan b)" fl bk'] h(1) by (simp add: half_def bk)
      moreover have "d_hello (incoming (chan a)) \<longrightarrow> d_hello d" using le(1) by (simp add: direction_le_def)
      ultimately show ?thesis
        using h(1) sc(2) follows_same [of ?ch "chan a"] by (auto simp: half_def new matching_def)
    qed
    ultimately show ?thesis by blast
  qed
qed

lemma peer_step_keeps:
  assumes "peer_step (a, b) (a', b')"
  shows "keeps a b a' b'"
  using assms
proof (cases rule: peer_step.cases)
  case (submit ch' adm)
  then show ?thesis by (simp add: submit_keeps)
next
  case (finish outcome)
  then show ?thesis by (simp add: same_link_keeps finish_same_link)
next
  case (receive n)
  then show ?thesis using receive_keeps(2) [of n a b] by (cases "joined a b \<and> both_open a b") (auto simp: keeps_def)
next
  case (hand_over f)
  then show ?thesis using hand_over_keeps [of a f b] by simp
next
  case polled
  then show ?thesis by (simp add: same_link_keeps poll_same_link)
next
  case (ended e)
  then show ?thesis using same_link_keeps [of "snd (terminate e (chan a))" a b] by auto
qed

lemma peer_step_steady:
  assumes "peer_step (a, b) (a', b')"
  shows "steady (chan a) (chan a')" "chan b' = chan b"
  using assms
  by (cases rule: peer_step.cases;
      auto intro: admits_steady submits_admits finish_send_steady reader_recv_steady reader_deliver_steady poll_steady)+

lemma peer_step_joined:
  assumes "peer_step (a, b) (a', b')" "joined a b"
  shows "joined a' b'"
proof -
  have s: "steady (chan a) (chan a')" "chan b' = chan b" using peer_step_steady [OF assms(1)] by simp_all
  then have "both_open a' b' \<longrightarrow> both_open a b"
    by (auto simp: both_open_def steady_def advances_def)
  with s assms(2) peer_step_keeps [OF assms(1)] show ?thesis
    by (auto simp: joined_def keeps_def steady_def advances_def same_session_def)
qed

lemma net_reachable_joined: "net_reachable s \<Longrightarrow> joined (fst s) (snd s)"
proof (induction rule: net_reachable.induct)
  case (start epoch capacity revision ch capacity' ch')
  then show ?case by (simp add: joined_start)
next
  case (more s t)
  from more(2) show ?case
  proof (cases rule: net_step.cases)
    case (first a b a' b')
    with more.IH show ?thesis by (simp add: peer_step_joined)
  next
    case (second b a b' a')
    with more.IH have "joined b' a'" by (intro peer_step_joined [OF second(3) joined_swap]) simp
    with second show ?thesis by (simp add: joined_swap)
  qed
qed

subsection \<open>No end faults the other\<close>

lemma net_open:
  assumes "net_reachable (a, b)" "ch_error (chan a) = None" "ch_error (chan b) = None"
  shows "joined a b" "both_open a b"
  using net_reachable_joined [OF assms(1)] assms(2,3) by (simp_all add: both_open_def)

lemma net_read_open:
  assumes "net_reachable (a, b)" "ch_error (chan a) = None" "ch_error (chan b) = None"
  shows "rd_frame (chan a) = None \<and> 0 < n \<and> n \<le> reader_room (chan a) \<and> n \<le> length (wire a)
      \<longrightarrow> ch_error (reader_recv (take n (wire a)) (chan a)) = None"
  using receive_keeps(1) [of n a b] net_open [OF assms] by blast

lemma net_deliver_open:
  assumes "net_reachable (a, b)" "ch_error (chan a) = None" "ch_error (chan b) = None" and f: "rd_frame (chan a) = Some f"
  shows "if reader_waits f (chan a) then reader_deliver (chan a) = chan a
     else if \<not> is_hello (fr_message f) \<and> int (length (inbound (chan a))) = ch_capacity (chan a)
     then ch_error (reader_deliver (chan a)) = Some (ProtocolError ''inbound queue capacity exceeded'')
     else ch_error (reader_deliver (chan a)) = None \<and> rd_frame (reader_deliver (chan a)) = None
       \<or> opens_item (fr_message f) \<and> ch_capacity (chan a) < ch_capacity (chan b)
         \<and> (\<exists>p. no_room (Some p) \<and> ch_error (reader_deliver (chan a)) = Some (ProtocolError p))"
proof -
  note j = net_open [OF assms(1-3)]
  then obtain fl bk where h: "half a b fl bk" "half b a bk fl" by (auto simp: joined_def)
  have ok: "channel_ok (chan a)" "channel_ok (chan b)" "same_session (chan a) (chan b)"
    using j by (simp_all add: joined_def)
  then have room: "int (length (inbound (chan a))) \<le> ch_capacity (chan a)" by (simp add: channel_ok_def)
  from f obtain bk' where bk: "bk = f # bk'" using h(2) by (auto simp: half_def on_wire_def)
  let ?p = "accept_problem (chan a) f (incoming (chan a)) (outgoing (chan a))"
  have acc: "?p = None \<or> opens_item (fr_message f) \<and> ch_capacity (chan a) < ch_capacity (chan b) \<and> no_room ?p"
    if "\<not> reader_waits f (chan a)"
  proof (cases "opens_item (fr_message f) \<and> ch_capacity (chan a) < ch_capacity (chan b)")
    case True
    then have "\<not> is_hello (fr_message f)" by (cases "fr_message f") (auto simp: opens_item_def)
    with arriving_fits [OF h bk ok(3) that] arriving_problem True show ?thesis by blast
  next
    case False
    with arriving_acceptable [OF h bk ok that] show ?thesis by fastforce
  qed
  show ?thesis
    using f acc room assms(2)
    by (auto simp: reader_deliver_def reader_guard_def deliver_def accept_def terminate_def split: prod.split option.split)
qed

text \<open>
  C5. Agreement of the two ends: whatever the owners send, however the bytes are cut, and whenever the
  readers run, as long as neither end was closed no frame of one end is found faulty by the other when the
  sender's capacity is not greater than the receiver's. Reading any piece of the stream keeps the channel
  open; a complete frame is then accepted, except that it waits while the own handshake is being sent, and
  that an owner who does not empty a full inbound queue ends the session for that reason. The capacities
  are each end's own: when the sender's is the greater one, a new edge request or fence, and no other
  frame, can also find the receiver's room for outstanding items used up, and the session ends for that
  reason and no other.
\<close>

theorem peers_never_fault:
  assumes "net_reachable (a, b)" "ch_error (chan a) = None" "ch_error (chan b) = None"
  shows "(rd_frame (chan a) = None \<and> 0 < n \<and> n \<le> reader_room (chan a) \<and> n \<le> length (wire a)
      \<longrightarrow> ch_error (reader_recv (take n (wire a)) (chan a)) = None)
    \<and> (rd_frame (chan a) = Some f \<longrightarrow>
      (if reader_waits f (chan a) then reader_deliver (chan a) = chan a
       else if \<not> is_hello (fr_message f) \<and> int (length (inbound (chan a))) = ch_capacity (chan a)
       then ch_error (reader_deliver (chan a)) = Some (ProtocolError ''inbound queue capacity exceeded'')
       else ch_error (reader_deliver (chan a)) = None \<and> rd_frame (reader_deliver (chan a)) = None
         \<or> opens_item (fr_message f) \<and> ch_capacity (chan a) < ch_capacity (chan b)
           \<and> (\<exists>p. no_room (Some p) \<and> ch_error (reader_deliver (chan a)) = Some (ProtocolError p))))"
  by (intro conjI impI net_deliver_open [OF assms]) (use net_read_open [OF assms] in blast)+

definition sample_end :: "int \<Rightarrow> channel" where
  "sample_end capacity =
     (case create_channel (PyBytes (replicate 16 7)) (PyInt capacity) (PyInt 3) of Inl e \<Rightarrow> undefined | Inr ch \<Rightarrow> ch)"

definition sample_link :: channel where "sample_link = sample_end 2"

definition greeting :: "admission \<times> channel" where
  "greeting = (case admit (handshake_message sample_link) True None None None sample_link of Inl e \<Rightarrow> undefined | Inr r \<Rightarrow> r)"

definition greeted :: "peer \<times> peer" where
  "greeted = ((start_peer (sample_end 5))\<lparr>wire := admitted_bytes (fst greeting)\<rparr>,
     (start_peer sample_link)\<lparr>chan := snd greeting, sent := admitted_frames (fst greeting)\<rparr>)"

text \<open>The end of capacity two has sent its greeting and the one of capacity five has read the header, then the body.\<close>

definition reads :: "nat \<Rightarrow> peer \<Rightarrow> peer" where
  "reads n p = p\<lparr>chan := reader_recv (take n (wire p)) (chan p), wire := drop n (wire p)\<rparr>"

lemma sample_end_created: "0 < n \<Longrightarrow> create_channel (PyBytes (replicate 16 7)) (PyInt n) (PyInt 3) = Inr (sample_end n)"
  by (simp add: sample_end_def create_channel_def check_epoch_def check_revision_def)

lemma greeting_submits: "submits sample_link (fst greeting) (snd greeting)"
proof (rule submits.handshake)
  show "sending sample_link = None" by code_simp
  have "case admit (handshake_message sample_link) True None None None sample_link of Inl e \<Rightarrow> False | Inr r \<Rightarrow> True"
    by code_simp
  then show "admit (handshake_message sample_link) True None None None sample_link = Inr (fst greeting, snd greeting)"
    by (auto simp: greeting_def split: sum.splits)
qed

lemma greeted_reachable: "net_reachable greeted"
proof (rule net_reachable.more)
  show "net_reachable (start_peer (sample_end 5), start_peer sample_link)"
    unfolding sample_link_def by (rule net_reachable.start [OF sample_end_created sample_end_created]) simp_all
  have "peer_step (start_peer sample_link, start_peer (sample_end 5))
      ((start_peer sample_link)\<lparr>chan := snd greeting, sent := sent (start_peer sample_link) @ admitted_frames (fst greeting)\<rparr>,
       (start_peer (sample_end 5))\<lparr>wire := wire (start_peer (sample_end 5)) @ admitted_bytes (fst greeting)\<rparr>)"
    by (rule peer_step.submit) (simp add: start_peer_def greeting_submits)
  then show "net_step (start_peer (sample_end 5), start_peer sample_link) greeted"
    unfolding greeted_def by (intro net_step.second) (simp add: start_peer_def)
qed

lemma reads_reachable:
  assumes "net_reachable (a, b)" "0 < n \<and> n \<le> reader_room (chan a) \<and> n \<le> length (wire a) \<and> rd_frame (chan a) = None"
  shows "net_reachable (reads n a, b)"
  using assms net_reachable.more net_step.first peer_step.receive unfolding reads_def by blast

lemma greeting_read: "net_reachable (reads 4 (reads 32 (fst greeted)), snd greeted)"
proof (rule reads_reachable [OF reads_reachable])
  show "net_reachable (fst greeted, snd greeted)" using greeted_reachable by simp
qed (code_simp, code_simp)

theorem peers_never_fault_witness:
  "\<exists>f. rd_frame (chan (reads 4 (reads 32 (fst greeted)))) = Some f
     \<and> ch_capacity (chan (fst greeted)) = 5 \<and> ch_capacity (chan (snd greeted)) = 2
     \<and> ch_error (reader_deliver (chan (reads 4 (reads 32 (fst greeted))))) = None"
proof -
  let ?a = "reads 4 (reads 32 (fst greeted))" and ?b = "snd greeted"
  have e: "ch_error (chan ?a) = None" "ch_error (chan ?b) = None" by code_simp+
  have c: "ch_capacity (chan (fst greeted)) = 5" "ch_capacity (chan ?b) = 2" by code_simp+
  have "case rd_frame (chan ?a) of None \<Rightarrow> False | Some f \<Rightarrow> is_hello (fr_message f)" by code_simp
  then obtain f where f: "rd_frame (chan ?a) = Some f" "is_hello (fr_message f)" by (auto split: option.splits)
  then have "\<not> reader_waits f (chan ?a)" "\<not> opens_item (fr_message f)"
    by (simp add: reader_waits_def, cases "fr_message f") (simp_all add: opens_item_def)
  with f c peers_never_fault [OF greeting_read e, of 1 f] show ?thesis by auto
qed

text \<open>
  C6. Delivery in order: while neither end was closed, the frames an end has accepted are exactly the
  first ones the other has admitted, and the bytes it holds or that are still under way are the
  encodings of the remaining ones; nothing is lost, repeated, reordered or altered.
\<close>

theorem frames_arrive_in_order:
  assumes "net_reachable (a, b)" "ch_error (chan a) = None" "ch_error (chan b) = None"
  shows "\<exists>fs. sent b = got a @ fs
     \<and> (if rd_frame (chan a) = None
        then rd_buffer (chan a) @ wire a = concat (map frame_bytes fs)
        else \<exists>f fs'. rd_frame (chan a) = Some f \<and> fs = f # fs' \<and> wire a = concat (map frame_bytes fs'))"
proof -
  have "joined a b" "both_open a b" using net_reachable_joined [OF assms(1)] assms(2,3) by (simp_all add: both_open_def)
  then obtain fs where "sent b = got a @ fs" "on_wire (chan a) (wire a) fs"
    by (auto simp: joined_def half_def)
  then show ?thesis by (intro exI [of _ fs]) (auto simp: on_wire_def)
qed

theorem frames_arrive_in_order_witness:
  "\<exists>fs. sent (snd greeted) = got (reads 4 (reads 32 (fst greeted))) @ fs \<and> length fs = 1"
proof -
  let ?a = "reads 4 (reads 32 (fst greeted))" and ?b = "snd greeted"
  have e: "ch_error (chan ?a) = None" "ch_error (chan ?b) = None" by code_simp+
  have "length (sent ?b) = 1" "got ?a = []" by code_simp+
  with frames_arrive_in_order [OF greeting_read e] show ?thesis by auto
qed

end
