(* ===== verification/Wire_Safety.thy ===== *)
theory Wire_Safety
  imports Wire_Peers
begin

text \<open>Properties of one channel of the timed wire, whatever its peer sends.\<close>

text \<open>
  Bounded state: in every state a channel can reach, against any peer, the outstanding requests and
  fences of either direction and the inbound queue stay within the capacity, every outstanding number
  was handed out in its direction, a direction is open exactly when its first frame has passed, and a
  closed channel holds no message and no outstanding item.
\<close>

theorem channel_bounded:
  assumes "channel_reachable ch" "d \<in> {incoming ch, outgoing ch}"
  shows "int (card (d_pending d)) \<le> ch_capacity ch \<and> finite (d_pending d) \<and> d_pending d \<subseteq> {1..d_last_edge_id d}
     \<and> int (length (d_pending_fences d)) \<le> ch_capacity ch \<and> distinct (map fst (d_pending_fences d))
     \<and> set (d_pending_fences d) \<subseteq> {1..d_last_fence_id d} \<times> {0..d_last_edge_id d}
     \<and> int (length (inbound ch)) \<le> ch_capacity ch
     \<and> (d_hello d \<longleftrightarrow> 1 \<le> d_sequence d) \<and> (hello_sent ch \<longrightarrow> d_hello (outgoing ch))
     \<and> (ch_error ch \<noteq> None \<longrightarrow> inbound ch = [] \<and> d_pending d = {} \<and> d_pending_fences d = [])"
  using channel_reachable_ok [OF assms(1)] assms(2)
  by (auto simp: channel_ok_def direction_ok_def fences_sound_def)

theorem channel_bounded_witness:
  "channel_reachable (snd greeting) \<and> int (length (inbound (snd greeting))) \<le> 2 \<and> d_hello (outgoing (snd greeting))"
proof -
  have "channel_reachable sample_link"
    unfolding sample_link_def by (rule channel_reachable.created [OF sample_end_created]) simp
  then have r: "channel_reachable (snd greeting)"
    by (rule channel_reachable.stepped) (rule channel_step.submit [OF greeting_submits])
  have "ch_capacity (snd greeting) = 2" "1 \<le> d_sequence (outgoing (snd greeting))" by code_simp+
  with channel_bounded [OF r, of "outgoing (snd greeting)"] r show ?thesis by auto
qed

text \<open>
  No step of a channel goes back: sequence numbers, request and fence numbers, settled progress and
  the emission watermark never decrease in either direction, a passed handshake stays passed, the epoch,
  revision and capacity are fixed, and once the channel is closed its error is the first one for good
  and nothing of its protocol state changes again.
\<close>

theorem channel_step_ordered:
  assumes "channel_step ch ch'" "(d, d') = (incoming ch, incoming ch') \<or> (d, d') = (outgoing ch, outgoing ch')"
  shows "d_sequence d \<le> d_sequence d' \<and> (d_hello d \<longrightarrow> d_hello d')
     \<and> d_last_edge_id d \<le> d_last_edge_id d' \<and> d_last_fence_id d \<le> d_last_fence_id d' \<and> d_settled d \<le> d_settled d'
     \<and> (\<forall>w. d_watermark d = Some w \<longrightarrow> (\<exists>w' \<ge> w. d_watermark d' = Some w'))
     \<and> ch_epoch ch' = ch_epoch ch \<and> ch_revision ch' = ch_revision ch \<and> ch_capacity ch' = ch_capacity ch
     \<and> (ch_error ch \<noteq> None \<longrightarrow> ch_error ch' = ch_error ch \<and> d' = d \<and> inbound ch' = inbound ch)"
proof -
  have a: "advances ch ch'" using channel_step_steady [OF assms(1)] by (simp add: steady_def)
  then have "direction_le d d'" using assms(2) by (auto simp: advances_def)
  with a assms(2) show ?thesis by (auto simp: advances_def direction_le_def)
qed

theorem channel_step_ordered_witness:
  "channel_step sample_link (snd greeting) \<and> d_sequence (outgoing sample_link) \<le> d_sequence (outgoing (snd greeting))
     \<and> d_sequence (outgoing sample_link) \<noteq> d_sequence (outgoing (snd greeting))"
proof -
  have s: "channel_step sample_link (snd greeting)" by (rule channel_step.submit [OF greeting_submits])
  have "d_sequence (outgoing sample_link) \<noteq> d_sequence (outgoing (snd greeting))" by code_simp
  with channel_step_ordered [OF s, of "outgoing sample_link" "outgoing (snd greeting)"] s show ?thesis by simp
qed

text \<open>
  The completion pair is one admission: when it is admitted, both frames carry the same frontier and
  follow each other in sequence, the bytes are their encodings in that order, watermark and settled
  progress both become the frontier, which neither undercuts the earlier ones nor misstates the last
  request number, and nothing else of the protocol state changes.
\<close>

theorem pair_admitted_together:
  assumes "send_complete_progress c p stopped late ch = Inr (a, ch')"
  shows "\<exists>h i f g. c = IsMessage (EmissionComplete (PyInt h) (PyInt i)) \<and> p = IsMessage (Progress (PyInt h))
     \<and> a = Fresh [f, g] (frame_bytes f @ frame_bytes g)
     \<and> fr_message f = EmissionComplete h i \<and> fr_sequence f = d_sequence (outgoing ch) + 1
     \<and> fr_message g = Progress h \<and> fr_sequence g = d_sequence (outgoing ch) + 2
     \<and> i = d_last_edge_id (outgoing ch) \<and> d_settled (outgoing ch) \<le> h
     \<and> (\<forall>w. d_watermark (outgoing ch) = Some w \<longrightarrow> w \<le> h)
     \<and> ch' = ch\<lparr>outgoing := (outgoing ch)\<lparr>d_sequence := d_sequence (outgoing ch) + 2,
                    d_watermark := Some h, d_settled := h\<rparr>, sending := Some g\<rparr>
     \<and> ch_error ch = None \<and> stopped = None \<and> late = None"
proof -
  obtain h0 i0 s0 where cp: "c = IsMessage (EmissionComplete h0 i0)" "p = IsMessage (Progress s0)" "py_equal h0 s0"
    and ad: "admit p False (Some c) stopped late ch = Inr (a, ch')"
    using assms by (auto simp: send_complete_progress_def split: py_message.split_asm message.split_asm if_split_asm)
  from ad have pc: "\<exists>x. payload c (PyInt (ch_revision ch)) = Inr x" "\<exists>x. payload p (PyInt (ch_revision ch)) = Inr x"
    and open_: "ch_error ch = None" "stopped = None" and pair: "admit_pair c p late ch = Inr (a, ch')"
    by (auto simp: admit_def result_simps check_open_def check_time_def split: option.split_asm)
  from pc(1) obtain m where m: "EmissionComplete h0 i0 = map_message PyInt m" by (auto simp: cp payload_Inr)
  from pc(2) obtain m' where m': "Progress s0 = map_message PyInt m'" by (auto simp: cp payload_Inr)
  obtain h i s where vals: "h0 = PyInt h" "i0 = PyInt i" "s0 = PyInt s"
    using m m' by (cases m; cases m') auto
  with cp(3) have "s = h" by (simp add: py_equal_def)
  let ?k = "d_sequence (outgoing ch)"
  let ?f = "out_frame ch (?k + 1) c" and ?g = "out_frame ch (?k + 2) p"
  obtain d1 opp1 d2 opp2 where acc: "accept ch ?f (outgoing ch) (incoming ch) = Inr (d1, opp1)"
      "accept ch ?g d1 opp1 = Inr (d2, opp2)" "late = None"
    and a: "a = Fresh [?f, ?g] (frame_bytes ?f @ frame_bytes ?g)"
    and new: "ch' = ch\<lparr>outgoing := d2, incoming := opp2, sending := Some ?g\<rparr>"
    using pair by (auto simp: admit_pair_def Let_def result_simps check_time_def dest!: encode_out_Inr split: option.split_asm)
  have msg: "fr_message ?f = EmissionComplete h i" "fr_message ?g = Progress h"
    by (simp_all add: out_frame_def int_message_def py_int_def cp vals \<open>s = h\<close>)
  have sq: "fr_sequence ?f = ?k + 1" "fr_sequence ?g = ?k + 2" by (simp_all add: out_frame_def)
  note c1 = acc(1) [unfolded accept_Inr accept_problem_None] and c2 = acc(2) [unfolded accept_Inr accept_problem_None]
  have d1: "d1 = (outgoing ch)\<lparr>d_sequence := ?k + 1, d_watermark := Some h\<rparr>" "opp1 = incoming ch"
    using c1 by (simp_all add: msg sq)
  have d2: "d2 = (outgoing ch)\<lparr>d_sequence := ?k + 2, d_watermark := Some h, d_settled := h\<rparr>" "opp2 = incoming ch"
    using c2 by (simp_all add: msg sq d1)
  have "i = d_last_edge_id (outgoing ch)" "\<forall>w. d_watermark (outgoing ch) = Some w \<longrightarrow> w \<le> h"
    "d_settled (outgoing ch) \<le> h"
    using c1 c2 by (auto simp: msg sq d1 frame_fits_def before_watermark_def)
  with a new d2 msg sq cp vals \<open>s = h\<close> open_ acc(3) show ?thesis
    by (intro exI [of _ h] exI [of _ i] exI [of _ ?f] exI [of _ ?g]) simp
qed

text \<open>A channel after the handshake, with request 1 outstanding.\<close>

definition ready_link :: channel where
  "ready_link = sample_link\<lparr>hello_sent := True,
     incoming := fresh_direction\<lparr>d_sequence := 1, d_hello := True\<rparr>,
     outgoing := fresh_direction\<lparr>d_sequence := 2, d_hello := True, d_last_edge_id := 1, d_pending := {1}\<rparr>\<rparr>"

definition sample_pair :: "wire_error + admission \<times> channel" where
  "sample_pair = send_complete_progress (IsMessage (EmissionComplete (PyInt 500) (PyInt 1)))
     (IsMessage (Progress (PyInt 500))) None None ready_link"

theorem pair_admitted_together_witness:
  "\<exists>a ch'. sample_pair = Inr (a, ch') \<and> d_watermark (outgoing ch') = Some 500 \<and> d_settled (outgoing ch') = 500"
proof -
  have "case sample_pair of Inl e \<Rightarrow> False | Inr r \<Rightarrow> True" by code_simp
  then obtain a ch' where s: "sample_pair = Inr (a, ch')" by (auto split: sum.splits)
  from pair_admitted_together [OF this [unfolded sample_pair_def]]
  have "d_watermark (outgoing ch') = Some 500 \<and> d_settled (outgoing ch') = 500" by auto
  with s show ?thesis by blast
qed

end
