(* ===== verification/Serial_Core.thy ===== *)
theory Serial_Core
  imports Prelude
begin

text \<open>
  The serial shift register that the link drives (\<open>vendor/pyboy-src/pyboy/core/serial.py\<close>, class
  \<open>Serial\<close>): the two registers the game writes, the clocked shifting of a master, the externally driven
  edge of a slave, and the saved state. Registers are bytes; the cycle counters and the count of bits left are Python integers.
  The model is a core with no owner pump and no owner callbacks, as constructed, where the boundary
  hooks answer at once. The peer is reached through a backend: a function from the outgoing bit and the
  state of the rest of the world to the incoming bit (\<open>None\<close> for an exception) and a new world.
\<close>

unbundle bit_operations_syntax

definition MAX_CYCLES :: int where "MAX_CYCLES = 2 ^ 31"
definition CYCLES_PER_EDGE_DMG :: int where "CYCLES_PER_EDGE_DMG = 512"
definition CYCLES_PER_EDGE_CGB_FAST :: int where "CYCLES_PER_EDGE_CGB_FAST = 16"

record core =
  cgb_mode :: bool
  SB :: byte
  SC :: byte
  transfer_enabled :: bool
  internal_clock :: bool
  double_speed :: bool
  cycles_to_interrupt :: int
  last_cycles :: int
  clock :: int
  clock_target :: int
  shift_register :: byte
  bits_remaining :: int
  backend_failed :: bool
  transfer_generation :: int

definition new_core :: "bool \<Rightarrow> core" where
  "new_core cgb = \<lparr>cgb_mode = cgb, SB = 0xFF, SC = 0, transfer_enabled = False, internal_clock = False,
     double_speed = False, cycles_to_interrupt = MAX_CYCLES, last_cycles = 0, clock = 0,
     clock_target = MAX_CYCLES, shift_register = 0xFF, bits_remaining = 0, backend_failed = False,
     transfer_generation = 0\<rparr>"

text \<open>The cycles between two edges of the internal clock.\<close>

definition edge_period :: "core \<Rightarrow> int" where
  "edge_period c = (if double_speed c then CYCLES_PER_EDGE_CGB_FAST else CYCLES_PER_EDGE_DMG)"

text \<open>The derived countdown that the motherboard polls.\<close>

definition update_countdown :: "core \<Rightarrow> core" where
  "update_countdown c =
     c\<lparr>cycles_to_interrupt :=
         (if \<not> transfer_enabled c \<or> \<not> internal_clock c then MAX_CYCLES
          else if clock_target c > clock c then clock_target c - clock c else 0)\<rparr>"

subsection \<open>Register writes\<close>

definition set_SB :: "int \<Rightarrow> core \<Rightarrow> core" where
  "set_SB v c =
     (if backend_failed c then c
      else let c' = c\<lparr>SB := word_of_int v\<rparr>
           in if transfer_enabled c then c' else c'\<lparr>shift_register := SB c'\<rparr>)"

text \<open>Unused bits read as one.\<close>

definition unused_bits :: "core \<Rightarrow> byte" where
  "unused_bits c = (if cgb_mode c then 0x7C else 0x7E)"

definition write_control :: "int \<Rightarrow> core \<Rightarrow> core" where
  "write_control v c =
     (let sc = (word_of_int v :: byte) OR unused_bits c
      in c\<lparr>transfer_generation := transfer_generation c + 1, SC := sc, transfer_enabled := bit sc 7,
           internal_clock := bit sc 0, double_speed := cgb_mode c \<and> bit sc 1\<rparr>)"

definition arm :: "core \<Rightarrow> core" where
  "arm c = c\<lparr>shift_register := SB c, bits_remaining := 8,
             clock_target := (if internal_clock c then clock c + edge_period c else MAX_CYCLES)\<rparr>"

definition set_SC :: "int \<Rightarrow> core \<Rightarrow> core" where
  "set_SC v c =
     (if backend_failed c then c
      else let n = write_control v c;
               fresh = (\<not> transfer_enabled c \<or> \<not> transfer_enabled n
                        \<or> internal_clock c \<noteq> internal_clock n \<or> bits_remaining c = 0)
           in update_countdown
                (if \<not> transfer_enabled n then n\<lparr>bits_remaining := 0, clock_target := MAX_CYCLES\<rparr>
                 else if fresh then arm n
                 else if internal_clock n \<and> double_speed c \<noteq> double_speed n
                 then n\<lparr>clock_target := clock n + edge_period n\<rparr>
                 else n))"

subsection \<open>Shifting\<close>

definition peek_out_bit :: "core \<Rightarrow> bool" where
  "peek_out_bit c = bit (shift_register c) 7"

definition shift_in :: "byte \<Rightarrow> bool \<Rightarrow> byte" where
  "shift_in w b = push_bit 1 w OR of_bool b"

definition complete_transfer :: "core \<Rightarrow> core" where
  "complete_transfer c =
     c\<lparr>SB := shift_register c, SC := (SC c AND NOT 0x80) OR unused_bits c,
       transfer_enabled := False, clock_target := MAX_CYCLES\<rparr>"

text \<open>One edge driven by the peer's clock; the flag says whether the byte is complete.\<close>

definition advance_one_edge :: "bool \<Rightarrow> core \<Rightarrow> bool \<times> core" where
  "advance_one_edge peer_bit c =
     (let s = c\<lparr>shift_register := shift_in (shift_register c) peer_bit, bits_remaining := bits_remaining c - 1\<rparr>
      in if bits_remaining s = 0 then (True, (complete_transfer s)\<lparr>cycles_to_interrupt := MAX_CYCLES\<rparr>)
         else (False, s))"

definition apply_external_edge :: "bool \<Rightarrow> core \<Rightarrow> (bool \<times> core) option" where
  "apply_external_edge peer_bit c =
     (if backend_failed c \<or> \<not> transfer_enabled c \<or> internal_clock c then None
      else Some (advance_one_edge peer_bit c))"

text \<open>The edges of a master whose deadline has passed. The number of bits left bounds the loop.\<close>

type_synonym 'w backend = "bool \<Rightarrow> 'w \<Rightarrow> bool option \<times> 'w"

datatype edges_end = Ran bool | Failed

definition master_shift :: "bool \<Rightarrow> core \<Rightarrow> core" where
  "master_shift peer_bit c =
     (let s = c\<lparr>shift_register := shift_in (shift_register c) peer_bit, bits_remaining := bits_remaining c - 1\<rparr>
      in if bits_remaining s = 0 then complete_transfer s
         else s\<lparr>clock_target := clock_target c + edge_period c\<rparr>)"

function run_edges :: "'w backend \<Rightarrow> core \<Rightarrow> 'w \<Rightarrow> edges_end \<times> core \<times> 'w" where
  "run_edges on_edge c w =
     (if bits_remaining c > 0 \<and> clock c \<ge> clock_target c
      then case on_edge (peek_out_bit c) w of
             (None, w') \<Rightarrow> (Failed, c\<lparr>backend_failed := True\<rparr>, w')
           | (Some b, w') \<Rightarrow>
               if bits_remaining c = 1 then (Ran True, master_shift b c, w')
               else run_edges on_edge (master_shift b c) w'
      else (Ran False, c, w))"
  by pat_completeness auto
termination
  by (relation "measure (\<lambda>(_, c, _). nat (bits_remaining c))")
     (auto simp: master_shift_def complete_transfer_def Let_def)

declare run_edges.simps [simp del]

definition tick :: "'w backend \<Rightarrow> int \<Rightarrow> core \<Rightarrow> 'w \<Rightarrow> bool \<times> core \<times> 'w" where
  "tick on_edge cycles c w =
     (if backend_failed c then (False, c, w)
      else let c1 = (if transfer_enabled c \<and> internal_clock c then c else c\<lparr>cycles_to_interrupt := MAX_CYCLES\<rparr>);
               delta = cycles - last_cycles c
           in if delta = 0 then (False, c1, w)
              else let c2 = c1\<lparr>last_cycles := cycles, clock := clock c + delta\<rparr>
                   in if transfer_enabled c \<and> internal_clock c
                      then case run_edges on_edge c2 w of
                             (Failed, c3, w') \<Rightarrow> (False, c3, w')
                           | (Ran interrupt, c3, w') \<Rightarrow> (interrupt, update_countdown c3, w')
                      else (False, update_countdown c2, w))"

definition null_backend :: "'w backend" where
  "null_backend our_bit w = (Some True, w)"

subsection \<open>Saved state\<close>

text \<open>The stream of a save: bytes and little-endian 64-bit numbers. A read past the end raises.\<close>

fun le_bytes :: "nat \<Rightarrow> int \<Rightarrow> byte list" where
  "le_bytes 0 n = []"
| "le_bytes (Suc k) n = word_of_int n # le_bytes k (n div 256)"

fun le_int :: "byte list \<Rightarrow> int" where
  "le_int [] = 0"
| "le_int (b # bs) = uint b + 256 * le_int bs"

definition flag_byte :: "bool \<Rightarrow> byte" where
  "flag_byte b = of_bool b"

definition SERIAL_STATE_FORMAT_MAGIC :: byte where "SERIAL_STATE_FORMAT_MAGIC = 0xA5"
definition SERIAL_STATE_FORMAT_VERSION :: byte where "SERIAL_STATE_FORMAT_VERSION = 2"

definition save_state :: "core \<Rightarrow> (byte list) option" where
  "save_state c =
     (if backend_failed c then None
      else Some ([SB c, SC c, flag_byte (transfer_enabled c), flag_byte (internal_clock c)]
        @ le_bytes 8 (last_cycles c) @ le_bytes 8 (cycles_to_interrupt c) @ le_bytes 8 (clock c)
        @ le_bytes 8 (clock_target c)
        @ [shift_register c, word_of_int (bits_remaining c), SERIAL_STATE_FORMAT_MAGIC, SERIAL_STATE_FORMAT_VERSION]))"

definition read_byte :: "byte list \<Rightarrow> (byte \<times> byte list) option" where
  "read_byte bs = (case bs of [] \<Rightarrow> None | b # rest \<Rightarrow> Some (b, rest))"

definition read_64bit :: "byte list \<Rightarrow> (int \<times> byte list) option" where
  "read_64bit bs = (if length bs < 8 then None else Some (le_int (take 8 bs), drop 8 bs))"

datatype legacy_timing = NoTiming | Timing128 | Timing512 | OtherTiming

text \<open>Retarget an untagged transfer that was saved with the old period.\<close>

definition migrate_legacy_timing :: "nat \<Rightarrow> core \<Rightarrow> core" where
  "migrate_legacy_timing cpu_speed_shift c =
     (if \<not> (transfer_enabled c \<and> internal_clock c \<and> bits_remaining c > 0) then c
      else let old_period = (if cgb_mode c \<and> double_speed c then 4 else 128 * 2 ^ cpu_speed_shift);
               remaining = max 1 (clock_target c - clock c);
               new_remaining = (remaining * edge_period c + old_period - 1) div old_period;
               target = clock c + max 1 new_remaining
           in c\<lparr>clock_target := target, cycles_to_interrupt := target - clock c\<rparr>)"

text \<open>The fixed part of the layout, common to every format.\<close>

definition load_registers :: "byte list \<Rightarrow> core \<Rightarrow> (core \<times> byte list) option" where
  "load_registers f0 c =
     (case read_byte f0 of None \<Rightarrow> None | Some (sb, f1) \<Rightarrow>
      case read_byte f1 of None \<Rightarrow> None | Some (sc, f2) \<Rightarrow>
      case read_byte f2 of None \<Rightarrow> None | Some (te, f3) \<Rightarrow>
      case read_byte f3 of None \<Rightarrow> None | Some (ic, f4) \<Rightarrow>
      case read_64bit f4 of None \<Rightarrow> None | Some (seen, f5) \<Rightarrow>
      case read_64bit f5 of None \<Rightarrow> None | Some (wait, f6) \<Rightarrow>
      case read_64bit f6 of None \<Rightarrow> None | Some (now, f7) \<Rightarrow>
      case read_64bit f7 of None \<Rightarrow> None | Some (target, f8) \<Rightarrow>
        let running = (te \<noteq> 0 \<and> ic \<noteq> 0)
        in Some (c\<lparr>SB := sb, SC := sc, transfer_enabled := (te \<noteq> 0), internal_clock := (ic \<noteq> 0),
                   last_cycles := seen, cycles_to_interrupt := (if running then wait else MAX_CYCLES),
                   clock := now, clock_target := target, double_speed := cgb_mode c \<and> bit sc 1\<rparr>, f8))"

text \<open>Without the two extension bytes the transfer is taken to be over.\<close>

definition load_without_extension :: "core \<Rightarrow> core" where
  "load_without_extension c =
     c\<lparr>shift_register := SB c, bits_remaining := 0, transfer_enabled := False, SC := SC c AND NOT 0x80,
       clock_target := MAX_CYCLES, cycles_to_interrupt := MAX_CYCLES\<rparr>"

definition check_format :: "legacy_timing \<Rightarrow> nat \<Rightarrow> byte list \<Rightarrow> core \<Rightarrow> core option" where
  "check_format timing cpu_speed_shift f c =
     (case read_byte f of
        None \<Rightarrow> (case timing of OtherTiming \<Rightarrow> None | Timing128 \<Rightarrow> Some (migrate_legacy_timing cpu_speed_shift c) | _ \<Rightarrow> Some c)
      | Some (magic, f') \<Rightarrow>
          if magic \<noteq> SERIAL_STATE_FORMAT_MAGIC then None
          else case read_byte f' of
                 None \<Rightarrow> None
               | Some (version, _) \<Rightarrow> if version \<noteq> SERIAL_STATE_FORMAT_VERSION then None else Some c)"

definition load_state :: "byte list \<Rightarrow> legacy_timing \<Rightarrow> nat \<Rightarrow> core \<Rightarrow> core option" where
  "load_state f timing cpu_speed_shift c =
     (if backend_failed c then None
      else case load_registers f c of
        None \<Rightarrow> None
      | Some (c1, f1) \<Rightarrow>
          (case f1 of
             shift # bits # f2 \<Rightarrow>
               let c2 = c1\<lparr>shift_register := shift, bits_remaining := uint bits\<rparr>;
                   c3 = (if transfer_enabled c2 \<and> internal_clock c2 then c2
                         else c2\<lparr>clock_target := MAX_CYCLES, cycles_to_interrupt := MAX_CYCLES\<rparr>)
               in check_format timing cpu_speed_shift f2 c3
           | _ \<Rightarrow> Some (load_without_extension c1)))"

end
