(* ===== verification/Serial_Safety.thy ===== *)
theory Serial_Safety
  imports Serial_Core
begin

text \<open>What every operation of the serial core keeps, and how its clock and its bits behave.\<close>

subsection \<open>The invariant\<close>

definition core_ok :: "core \<Rightarrow> bool" where
  "core_ok c \<longleftrightarrow>
     transfer_enabled c = (bits_remaining c > 0) \<and> 0 \<le> bits_remaining c \<and> bits_remaining c \<le> 8
     \<and> transfer_enabled c = bit (SC c) 7 \<and> internal_clock c = bit (SC c) 0 \<and> double_speed c = (cgb_mode c \<and> bit (SC c) 1)
     \<and> (if transfer_enabled c \<and> internal_clock c
        then clock c < clock_target c \<and> clock_target c \<le> clock c + edge_period c \<and> cycles_to_interrupt c = clock_target c - clock c
        else clock_target c = MAX_CYCLES \<and> cycles_to_interrupt c = MAX_CYCLES)"

lemma period_pos: "0 < edge_period c"
  by (simp add: edge_period_def CYCLES_PER_EDGE_CGB_FAST_def CYCLES_PER_EDGE_DMG_def)

lemma edge_period_updates [simp]:
  "edge_period (c\<lparr>SB := x\<rparr>) = edge_period c" "edge_period (c\<lparr>shift_register := s\<rparr>) = edge_period c"
  "edge_period (c\<lparr>bits_remaining := n\<rparr>) = edge_period c" "edge_period (c\<lparr>clock := k\<rparr>) = edge_period c"
  "edge_period (c\<lparr>clock_target := k\<rparr>) = edge_period c" "edge_period (c\<lparr>cycles_to_interrupt := k\<rparr>) = edge_period c"
  "edge_period (c\<lparr>last_cycles := k\<rparr>) = edge_period c" "edge_period (c\<lparr>backend_failed := f\<rparr>) = edge_period c"
  "edge_period (c\<lparr>transfer_enabled := f\<rparr>) = edge_period c" "edge_period (c\<lparr>SC := x\<rparr>) = edge_period c"
  by (simp_all add: edge_period_def)

lemma unused_bits_updates [simp]:
  "unused_bits (c\<lparr>bits_remaining := n\<rparr>) = unused_bits c" "unused_bits (c\<lparr>shift_register := s\<rparr>) = unused_bits c"
  by (simp_all add: unused_bits_def)

lemma core_ok_registers:
  assumes "core_ok c"
  shows "transfer_enabled c = (bits_remaining c > 0)" "bits_remaining c \<le> 8" "transfer_enabled c = bit (SC c) 7"
    "internal_clock c = bit (SC c) 0" "double_speed c = (cgb_mode c \<and> bit (SC c) 1)" "0 \<le> bits_remaining c"
  using assms unfolding core_ok_def by blast+

lemma core_ok_running:
  assumes "core_ok c" "transfer_enabled c \<and> internal_clock c"
  shows "clock c < clock_target c" "clock_target c \<le> clock c + edge_period c"
    "cycles_to_interrupt c = clock_target c - clock c"
  using assms unfolding core_ok_def by presburger+

lemma core_ok_idle:
  assumes "core_ok c" "\<not> (transfer_enabled c \<and> internal_clock c)"
  shows "clock_target c = MAX_CYCLES" "cycles_to_interrupt c = MAX_CYCLES"
  using assms unfolding core_ok_def by presburger+

lemma core_okI_idle:
  assumes "transfer_enabled c = (bits_remaining c > 0)" "0 \<le> bits_remaining c" "bits_remaining c \<le> 8" "transfer_enabled c = bit (SC c) 7"
    "internal_clock c = bit (SC c) 0" "double_speed c = (cgb_mode c \<and> bit (SC c) 1)" "\<not> (transfer_enabled c \<and> internal_clock c)"
    "clock_target c = MAX_CYCLES" "cycles_to_interrupt c = MAX_CYCLES"
  shows "core_ok c"
  unfolding core_ok_def using assms by presburger

lemma new_core_ok: "core_ok (new_core cgb)"
  by (simp add: core_ok_def new_core_def)

lemma core_ok_updates [simp]:
  "core_ok (c\<lparr>SB := x\<rparr>) = core_ok c" "core_ok (c\<lparr>shift_register := s\<rparr>) = core_ok c"
  "core_ok (c\<lparr>last_cycles := k\<rparr>) = core_ok c" "core_ok (c\<lparr>backend_failed := f\<rparr>) = core_ok c"
  by (simp_all add: core_ok_def)

lemma set_SB_ok: "core_ok c \<Longrightarrow> core_ok (set_SB v c)"
  by (simp add: set_SB_def Let_def)

lemma control_bits:
  "bit ((w :: byte) OR unused_bits c) 7 = bit w 7" "bit (w OR unused_bits c) 0 = bit w 0"
  "cgb_mode c \<Longrightarrow> bit (w OR unused_bits c) 1 = bit w 1"
  by (simp_all add: unused_bits_def bit_simps)

lemma set_SC_ok:
  assumes "core_ok c"
  shows "core_ok (set_SC v c)"
proof (cases "backend_failed c")
  case True
  with assms show ?thesis by (simp add: set_SC_def)
next
  case False
  let ?n = "write_control v c"
  have n: "transfer_enabled ?n = bit (SC ?n) 7" "internal_clock ?n = bit (SC ?n) 0"
    "double_speed ?n = (cgb_mode ?n \<and> bit (SC ?n) 1)" "clock ?n = clock c" "clock_target ?n = clock_target c"
    "bits_remaining ?n = bits_remaining c" "cgb_mode ?n = cgb_mode c"
    by (simp_all add: write_control_def Let_def)
  have p: "0 < edge_period ?n" by (rule period_pos)
  have same: "double_speed ?n = double_speed c \<Longrightarrow> edge_period ?n = edge_period c"
    by (simp add: edge_period_def)
  have ok: "0 \<le> bits_remaining c" "bits_remaining c \<le> 8" "transfer_enabled c \<Longrightarrow> 0 < bits_remaining c"
    and run: "transfer_enabled c \<and> internal_clock c \<Longrightarrow> clock c < clock_target c \<and> clock_target c \<le> clock c + edge_period c"
    and idle: "\<not> (transfer_enabled c \<and> internal_clock c) \<Longrightarrow> clock_target c = MAX_CYCLES"
    using assms unfolding core_ok_def by (blast, blast, blast, metis, metis)
  consider (off) "\<not> transfer_enabled ?n"
    | (fresh) "transfer_enabled ?n" "\<not> transfer_enabled c \<or> internal_clock c \<noteq> internal_clock ?n \<or> bits_remaining c = 0"
    | (going) "transfer_enabled ?n" "transfer_enabled c" "internal_clock ?n = internal_clock c" "bits_remaining c \<noteq> 0"
    by blast
  then show ?thesis
  proof cases
    case off
    then have "set_SC v c = update_countdown (?n\<lparr>bits_remaining := 0, clock_target := MAX_CYCLES\<rparr>)"
      using False by (simp add: set_SC_def Let_def)
    with off n show ?thesis by (simp add: core_ok_def update_countdown_def)
  next
    case fresh
    then have "set_SC v c = update_countdown (arm ?n)"
      using False by (auto simp: set_SC_def Let_def)
    with fresh n p show ?thesis by (simp add: core_ok_def update_countdown_def arm_def)
  next
    case going
    then have s: "set_SC v c = update_countdown
        (if internal_clock ?n \<and> double_speed c \<noteq> double_speed ?n then ?n\<lparr>clock_target := clock ?n + edge_period ?n\<rparr> else ?n)"
      using False by (simp add: set_SC_def Let_def)
    show ?thesis
    proof (cases "internal_clock ?n")
      case True
      with going have r: "clock c < clock_target c" "clock_target c \<le> clock c + edge_period c" using run by simp_all
      with True going n p same ok show ?thesis
        by (cases "double_speed c = double_speed ?n") (simp_all add: s core_ok_def update_countdown_def)
    next
      case False
      with going n idle ok show ?thesis by (simp add: s core_ok_def update_countdown_def)
    qed
  qed
qed

text \<open>
  Between the edges of one tick the deadline may have passed; the loop ends with it ahead again, or
  with the byte complete, or with a failed core.
\<close>

definition mid_tick :: "core \<Rightarrow> bool" where
  "mid_tick c \<longleftrightarrow> transfer_enabled c \<and> internal_clock c \<and> 0 < bits_remaining c \<and> bits_remaining c \<le> 8
     \<and> bit (SC c) 7 \<and> bit (SC c) 0 \<and> double_speed c = (cgb_mode c \<and> bit (SC c) 1)
     \<and> clock_target c \<le> clock c + edge_period c"

lemma mid_tick_shift:
  assumes "mid_tick c" "bits_remaining c \<noteq> 1" "clock_target c \<le> clock c"
  shows "mid_tick (master_shift b c)"
  using assms period_pos [of c] by (auto simp: mid_tick_def master_shift_def Let_def)

lemma completed_bits:
  "\<not> bit ((w :: byte) AND NOT 0x80 OR unused_bits c) 7" "bit ((w :: byte) AND NOT 0x80 OR unused_bits c) 0 = bit w 0"
  "cgb_mode c \<Longrightarrow> bit ((w :: byte) AND NOT 0x80 OR unused_bits c) 1 = bit w 1"
  by (simp_all add: unused_bits_def bit_simps)

lemma mid_tick_complete:
  assumes "mid_tick c" "bits_remaining c = 1"
  shows "core_ok (update_countdown (master_shift b c))"
  using assms completed_bits [where w = "SC c" and c = c]
  by (auto simp: mid_tick_def master_shift_def complete_transfer_def Let_def core_ok_def update_countdown_def)

lemma run_edges_ok:
  assumes "mid_tick c" "run_edges on_edge c w = (r, c', w')"
  shows "(case r of Ran i \<Rightarrow> core_ok (update_countdown c') \<and> \<not> backend_failed c' = (\<not> backend_failed c)
            \<and> internal_clock c' \<and> transfer_enabled c' = (\<not> i) \<and> (i \<longrightarrow> SB c' = shift_register c')
       | Failed \<Rightarrow> backend_failed c')
     \<and> cgb_mode c' = cgb_mode c \<and> clock c' = clock c \<and> last_cycles c' = last_cycles c
     \<and> transfer_generation c' = transfer_generation c \<and> bits_remaining c' \<le> bits_remaining c"
  using assms
proof (induction on_edge c w arbitrary: r c' w' rule: run_edges.induct)
  case (1 on_edge c w)
  show ?case
  proof (cases "clock c \<ge> clock_target c")
    case False
    with 1(2,3) have "r = Ran False" "c' = c" by (simp_all add: run_edges.simps [of on_edge c w])
    moreover have "core_ok (update_countdown c)"
      using 1(2) False by (simp add: mid_tick_def core_ok_def update_countdown_def)
    ultimately show ?thesis using 1(2) by (simp add: mid_tick_def)
  next
    case due: True
    with 1(2) have go: "bits_remaining c > 0 \<and> clock c \<ge> clock_target c" by (simp add: mid_tick_def)
    obtain o' w1 where e: "on_edge (peek_out_bit c) w = (o', w1)" by fastforce
    show ?thesis
    proof (cases o')
      case None
      with 1(3) go e show ?thesis by (auto simp: run_edges.simps [of on_edge c w])
    next
      case (Some b)
      show ?thesis
      proof (cases "bits_remaining c = 1")
        case True
        with 1(3) go e Some have "r = Ran True" "c' = master_shift b c"
          by (simp_all add: run_edges.simps [of on_edge c w])
        with mid_tick_complete [OF 1(2) True, of b] True 1(2) show ?thesis
          by (simp add: mid_tick_def master_shift_def complete_transfer_def Let_def)
      next
        case False
        with 1(3) go e Some have r: "run_edges on_edge (master_shift b c) w1 = (r, c', w')"
          by (simp add: run_edges.simps [of on_edge c w])
        have m: "mid_tick (master_shift b c)" by (rule mid_tick_shift [OF 1(2) False due])
        from 1(1) [OF go e [symmetric] Some False m r] False go show ?thesis
          by (auto simp: master_shift_def Let_def split: edges_end.split)
      qed
    qed
  qed
qed

lemma mid_tick_later:
  assumes "core_ok c" "transfer_enabled c \<and> internal_clock c" "clock c \<le> k"
  shows "mid_tick (c\<lparr>last_cycles := l, clock := k\<rparr>)"
  using assms unfolding core_ok_def mid_tick_def by simp

lemma update_countdown_simps [simp]:
  "update_countdown (update_countdown c) = update_countdown c"
  "backend_failed (update_countdown c) = backend_failed c" "last_cycles (update_countdown c) = last_cycles c"
  "clock (update_countdown c) = clock c" "transfer_enabled (update_countdown c) = transfer_enabled c"
  "internal_clock (update_countdown c) = internal_clock c" "SB (update_countdown c) = SB c"
  "shift_register (update_countdown c) = shift_register c" "bits_remaining (update_countdown c) = bits_remaining c"
  "clock_target (update_countdown c) = clock_target c" "edge_period (update_countdown c) = edge_period c"
  by (simp_all add: update_countdown_def edge_period_def)

lemma core_ok_countdown: "core_ok c \<Longrightarrow> update_countdown c = c"
  unfolding core_ok_def update_countdown_def by (cases c) (auto split: if_splits)

lemma tick_ok:
  assumes "core_ok c" "\<not> backend_failed c" "last_cycles c \<le> cycles" "tick on_edge cycles c w = (i, c', w')"
  shows "core_ok c' \<or> backend_failed c'" "i \<Longrightarrow> \<not> transfer_enabled c' \<and> SB c' = shift_register c' \<and> \<not> backend_failed c'"
proof -
  let ?c2 = "c\<lparr>last_cycles := cycles, clock := clock c + (cycles - last_cycles c)\<rparr>"
  have "(core_ok c' \<or> backend_failed c') \<and> (i \<longrightarrow> \<not> transfer_enabled c' \<and> SB c' = shift_register c' \<and> \<not> backend_failed c')"
  proof (cases "transfer_enabled c \<and> internal_clock c")
    case True
    show ?thesis
    proof (cases "cycles = last_cycles c")
      case same: True
      with assms True show ?thesis by (simp add: tick_def)
    next
      case False
      have m: "mid_tick ?c2" using assms(3) by (intro mid_tick_later [OF assms(1) True]) simp
      obtain r c3 w3 where e: "run_edges on_edge ?c2 w = (r, c3, w3)" by (metis prod_cases3)
      from run_edges_ok [OF m e] assms(2) have "case r of Ran i \<Rightarrow> core_ok (update_countdown c3) \<and> \<not> backend_failed c3
          \<and> transfer_enabled c3 = (\<not> i) \<and> (i \<longrightarrow> SB c3 = shift_register c3) | Failed \<Rightarrow> backend_failed c3"
        by (auto split: edges_end.split)
      with assms(2,4) True False e show ?thesis
        by (auto simp: tick_def Let_def split: edges_end.splits)
    qed
  next
    case False
    then have "core_ok (c\<lparr>cycles_to_interrupt := MAX_CYCLES\<rparr>)" using assms(1) by (auto simp: core_ok_def)
    moreover have "core_ok (update_countdown (c\<lparr>cycles_to_interrupt := MAX_CYCLES, last_cycles := cycles, clock := k\<rparr>))" for k
      using assms(1) False by (auto simp: core_ok_def update_countdown_def)
    ultimately show ?thesis using assms(2,4) False by (auto simp: tick_def Let_def split: if_split_asm)
  qed
  then show "core_ok c' \<or> backend_failed c'" "i \<Longrightarrow> \<not> transfer_enabled c' \<and> SB c' = shift_register c' \<and> \<not> backend_failed c'"
    by blast+
qed

lemma external_edge_ok:
  assumes "core_ok c" "apply_external_edge b c = Some (fin, c')"
  shows "core_ok c'" "\<not> backend_failed c'" "fin \<longleftrightarrow> bits_remaining c = 1"
proof -
  from assms(2) have a: "\<not> backend_failed c" "transfer_enabled c" "\<not> internal_clock c" "advance_one_edge b c = (fin, c')"
    by (auto simp: apply_external_edge_def split: if_split_asm)
  have bits: "0 < bits_remaining c" using assms(1) a(2) by (auto simp: core_ok_def)
  show "core_ok c'"
    using assms(1) a bits completed_bits [where w = "SC c" and c = c]
    by (auto simp: advance_one_edge_def complete_transfer_def core_ok_def Let_def split: if_split_asm)
  show "\<not> backend_failed c'" "fin \<longleftrightarrow> bits_remaining c = 1"
    using a bits by (auto simp: advance_one_edge_def complete_transfer_def Let_def split: if_split_asm)
qed

subsection \<open>Every reachable core\<close>

text \<open>
  A tick sees of the world only the answers of the backend, so a script of answers (\<open>None\<close> where the
  backend raises) is the most general world.
\<close>

definition scripted :: "bool option list backend" where
  "scripted our_bit script = (case script of [] \<Rightarrow> (Some True, []) | x # xs \<Rightarrow> (x, xs))"

inductive core_reachable :: "core \<Rightarrow> bool" where
  created: "core_reachable (new_core cgb)"
| wrote_SB: "core_reachable (set_SB v c)" if "core_reachable c"
| wrote_SC: "core_reachable (set_SC v c)" if "core_reachable c"
| ticked: "core_reachable c'" if "core_reachable c" "last_cycles c \<le> cycles" "tick scripted cycles c w = (i, c', w')"
| driven: "core_reachable c'" if "core_reachable c" "apply_external_edge b c = Some (fin, c')"

lemma failed_inert:
  assumes "backend_failed c"
  shows "set_SB v c = c" "set_SC v c = c" "tick on_edge cycles c w = (False, c, w)" "apply_external_edge b c = None"
    "save_state c = None" "load_state f timing k c = None"
  using assms by (simp_all add: set_SB_def set_SC_def tick_def apply_external_edge_def save_state_def load_state_def)

lemma ok_or_failed:
  "core_ok c \<or> backend_failed c \<Longrightarrow> core_ok (set_SB v c) \<or> backend_failed (set_SB v c)"
  "core_ok c \<or> backend_failed c \<Longrightarrow> core_ok (set_SC v c) \<or> backend_failed (set_SC v c)"
  using set_SB_ok [of c v] set_SC_ok [of c v] failed_inert(1,2) [of c v] by metis+

lemma core_reachable_ok: "core_reachable c \<Longrightarrow> core_ok c \<or> backend_failed c"
proof (induction rule: core_reachable.induct)
  case (created cgb)
  show ?case by (simp add: new_core_ok)
next
  case (wrote_SB c v)
  show ?case by (rule ok_or_failed(1) [OF wrote_SB(2)])
next
  case (wrote_SC c v)
  show ?case by (rule ok_or_failed(2) [OF wrote_SC(2)])
next
  case (ticked c cycles w i c' w')
  show ?case
  proof (cases "backend_failed c")
    case True
    with ticked(3) show ?thesis by (simp add: failed_inert(3))
  next
    case False
    with ticked(4) have "core_ok c" by blast
    from tick_ok(1) [OF this False ticked(2,3)] show ?thesis .
  qed
next
  case (driven c b fin c')
  show ?case
  proof (cases "backend_failed c")
    case True
    with driven(2) show ?thesis by (simp add: failed_inert(4))
  next
    case False
    with driven(3) have "core_ok c" by blast
    from external_edge_ok(1) [OF this driven(2)] show ?thesis ..
  qed
qed

text \<open>
  C16. The core is always consistent. In every state reached by register writes, forward ticks against any
  backend and external edges, a core whose backend has not failed has a transfer in progress exactly when
  bits are left, at most eight, and exactly when bit 7 of the control register says so; its countdown is
  the exact distance to the next edge, positive and at most one period, while it is the master of a
  transfer, and the idle sentinel otherwise - so the motherboard never sleeps past an edge.
\<close>

theorem serial_core_consistent:
  assumes "core_reachable c" "\<not> backend_failed c"
  shows "(transfer_enabled c \<longleftrightarrow> 0 < bits_remaining c) \<and> 0 \<le> bits_remaining c \<and> bits_remaining c \<le> 8 \<and> (transfer_enabled c \<longleftrightarrow> bit (SC c) 7)
     \<and> (internal_clock c \<longleftrightarrow> bit (SC c) 0) \<and> (double_speed c \<longleftrightarrow> cgb_mode c \<and> bit (SC c) 1)
     \<and> (if transfer_enabled c \<and> internal_clock c
        then cycles_to_interrupt c = clock_target c - clock c \<and> 0 < cycles_to_interrupt c \<and> cycles_to_interrupt c \<le> edge_period c
        else cycles_to_interrupt c = MAX_CYCLES)"
proof -
  have ok: "core_ok c" using core_reachable_ok [OF assms(1)] assms(2) by blast
  show ?thesis
    using core_ok_registers [OF ok] core_ok_running [OF ok] core_ok_idle [OF ok] by auto
qed

definition armed_master :: core where
  "armed_master = set_SC 0x81 (set_SB 0xA5 (new_core False))"

lemma armed_master_reachable: "core_reachable armed_master"
  unfolding armed_master_def by (intro wrote_SC wrote_SB created)

lemma armed_control:
  "write_control 0x81 (set_SB 0xA5 (new_core False)) =
     (new_core False)\<lparr>SB := 0xA5, shift_register := 0xA5, SC := 0xFF, transfer_enabled := True, internal_clock := True,
       transfer_generation := 1\<rparr>"
  by (simp add: write_control_def set_SB_def new_core_def unused_bits_def Let_def)

lemma armed_master_state:
  "armed_master = (new_core False)\<lparr>SB := 0xA5, shift_register := 0xA5, SC := 0xFF, transfer_enabled := True,
     internal_clock := True, transfer_generation := 1, bits_remaining := 8, clock_target := 512, cycles_to_interrupt := 512\<rparr>"
  unfolding armed_master_def set_SC_def armed_control
  by (simp add: set_SB_def new_core_def arm_def update_countdown_def edge_period_def CYCLES_PER_EDGE_DMG_def)

theorem serial_core_consistent_witness:
  "core_reachable armed_master \<and> transfer_enabled armed_master \<and> cycles_to_interrupt armed_master = 512"
proof -
  have f: "\<not> backend_failed armed_master" "transfer_enabled armed_master" "cycles_to_interrupt armed_master = 512"
    by (simp_all add: armed_master_state new_core_def)
  from serial_core_consistent [OF armed_master_reachable f(1)] f armed_master_reachable show ?thesis by blast
qed

subsection \<open>Cutting time into ticks\<close>

definition moved :: "int \<Rightarrow> int \<Rightarrow> core \<Rightarrow> core" where
  "moved l k c = c\<lparr>last_cycles := l, clock := k\<rparr>"

lemma moved_simps [simp]:
  "bits_remaining (moved l k c) = bits_remaining c" "clock_target (moved l k c) = clock_target c" "clock (moved l k c) = k"
  "last_cycles (moved l k c) = l" "peek_out_bit (moved l k c) = peek_out_bit c" "transfer_enabled (moved l k c) = transfer_enabled c"
  "internal_clock (moved l k c) = internal_clock c" "backend_failed (moved l k c) = backend_failed c"
  "moved l k (moved l' k' c) = moved l k c" "(moved l k c)\<lparr>backend_failed := f\<rparr> = moved l k (c\<lparr>backend_failed := f\<rparr>)"
  "edge_period (moved l k c) = edge_period c"
  by (simp_all add: moved_def peek_out_bit_def edge_period_def)

lemma moved_shift [simp]: "master_shift b (moved l k c) = moved l k (master_shift b c)"
  by (simp add: master_shift_def moved_def Let_def complete_transfer_def unused_bits_def edge_period_def)

lemma run_edges_moved:
  assumes "run_edges on_edge c w = (r, c1, w1)" "clock c \<le> k"
  shows "run_edges on_edge (moved l k c) w =
     (case r of Ran False \<Rightarrow> run_edges on_edge (moved l k c1) w1 | _ \<Rightarrow> (r, moved l k c1, w1))"
  using assms
proof (induction on_edge c w arbitrary: r c1 w1 rule: run_edges.induct)
  case (1 on_edge c w)
  show ?case
  proof (cases "bits_remaining c > 0 \<and> clock c \<ge> clock_target c")
    case False
    with 1(2) have "r = Ran False" "c1 = c" "w1 = w" by (auto simp: run_edges.simps [of on_edge c w])
    then show ?thesis by simp
  next
    case go: True
    then have go': "bits_remaining (moved l k c) > 0 \<and> clock (moved l k c) \<ge> clock_target (moved l k c)"
      using 1(3) by simp
    obtain o' w' where e: "on_edge (peek_out_bit c) w = (o', w')" by fastforce
    show ?thesis
    proof (cases o')
      case None
      with 1(2) go e have "(r, c1, w1) = (Failed, c\<lparr>backend_failed := True\<rparr>, w')" by (simp add: run_edges.simps [of on_edge c w])
      with None e go' show ?thesis by (simp add: run_edges.simps [of on_edge "moved l k c" w])
    next
      case (Some b)
      show ?thesis
      proof (cases "bits_remaining c = 1")
        case True
        with 1(2) go e Some have "(r, c1, w1) = (Ran True, master_shift b c, w')" by (simp add: run_edges.simps [of on_edge c w])
        with True Some e go' show ?thesis by (simp add: run_edges.simps [of on_edge "moved l k c" w])
      next
        case False
        with 1(2) go e Some have r: "run_edges on_edge (master_shift b c) w' = (r, c1, w1)"
          by (simp add: run_edges.simps [of on_edge c w])
        have "clock (master_shift b c) \<le> k" using 1(3) False by (simp add: master_shift_def Let_def complete_transfer_def)
        from 1(1) [OF go e [symmetric] Some False r this] False Some e go' show ?thesis
          by (simp add: run_edges.simps [of on_edge "moved l k c" w])
      qed
    qed
  qed
qed

lemma run_edges_over: "bits_remaining c = 0 \<Longrightarrow> run_edges on_edge c w = (Ran False, c, w)"
  by (simp add: run_edges.simps [of on_edge c w])


lemma run_edges_countdown:
  "run_edges on_edge (c\<lparr>cycles_to_interrupt := x\<rparr>) w =
     (case run_edges on_edge c w of (r, d, v) \<Rightarrow> (r, d\<lparr>cycles_to_interrupt := x\<rparr>, v))"
proof (induction on_edge c w rule: run_edges.induct)
  case (1 on_edge c w)
  have u: "peek_out_bit (c\<lparr>cycles_to_interrupt := x\<rparr>) = peek_out_bit c"
    "master_shift b (c\<lparr>cycles_to_interrupt := x\<rparr>) = (master_shift b c)\<lparr>cycles_to_interrupt := x\<rparr>" for b
    by (simp_all add: peek_out_bit_def master_shift_def complete_transfer_def unused_bits_def Let_def)
  show ?case
  proof (cases "bits_remaining c > 0 \<and> clock c \<ge> clock_target c")
    case False
    then show ?thesis by (auto simp: run_edges.simps [of on_edge c w] run_edges.simps [of on_edge "c\<lparr>cycles_to_interrupt := x\<rparr>" w])
  next
    case go: True
    obtain o' w' where e: "on_edge (peek_out_bit c) w = (o', w')" by fastforce
    with go show ?thesis
      by (auto simp: u run_edges.simps [of on_edge c w] run_edges.simps [of on_edge "c\<lparr>cycles_to_interrupt := x\<rparr>" w] 1 [OF go e [symmetric]]
          split: option.split)
  qed
qed

lemma countdown_is_update: "update_countdown c = c\<lparr>cycles_to_interrupt := cycles_to_interrupt (update_countdown c)\<rparr>"
  by (simp add: update_countdown_def)

lemma moved_countdown:
  "moved l k (c\<lparr>cycles_to_interrupt := x\<rparr>) = (moved l k c)\<lparr>cycles_to_interrupt := x\<rparr>"
  "update_countdown (c\<lparr>cycles_to_interrupt := x\<rparr>) = update_countdown c"
  by (simp_all add: moved_def update_countdown_def)

lemma core_ok_moved_idle: "core_ok c \<Longrightarrow> \<not> (transfer_enabled c \<and> internal_clock c) \<Longrightarrow> core_ok (moved l k c)"
  by (auto simp: core_ok_def moved_def)

lemma tick_idle:
  assumes "core_ok d" "\<not> backend_failed d" "\<not> (transfer_enabled d \<and> internal_clock d)"
  shows "tick on_edge t d v = (False, moved t (clock d + (t - last_cycles d)) d, v)"
  using assms core_ok_idle [OF assms(1,3)] by (auto simp: tick_def update_countdown_def moved_def Let_def)

lemma tick_same:
  assumes "core_ok d" "\<not> backend_failed d"
  shows "tick on_edge (last_cycles d) d v = (False, d, v)"
  using assms core_ok_idle [OF assms(1)] by (auto simp: tick_def Let_def)

lemma tick_running:
  assumes "\<not> backend_failed d" "transfer_enabled d \<and> internal_clock d" "t \<noteq> last_cycles d"
  shows "tick on_edge t d v = (case run_edges on_edge (moved t (clock d + (t - last_cycles d)) d) v of
        (Failed, e, u) \<Rightarrow> (False, e, u) | (Ran i, e, u) \<Rightarrow> (i, update_countdown e, u))"
  using assms by (simp add: tick_def moved_def Let_def)

text \<open>
  C17. Cutting time does not matter. Ticking a consistent core to one time and then to a later one, without
  a failing backend, ends in the same core and the same world as ticking to the later time at once, and
  one of the two ticks raises the serial interrupt exactly when the single tick raises it.
\<close>

theorem tick_split:
  assumes "core_ok c" "last_cycles c \<le> t1" "t1 \<le> t2"
    and "tick on_edge t1 c w = (i1, c1, w1)" "tick on_edge t2 c1 w1 = (i2, c2, w2)" "\<not> backend_failed c2"
  shows "tick on_edge t2 c w = (i1 \<or> i2, c2, w2)"
proof -
  have good: "\<not> backend_failed c1" "\<not> backend_failed c"
    using assms(4-6) failed_inert(3) [of c1 on_edge t2 w1] failed_inert(3) [of c on_edge t1 w] by auto
  define k where "k t = clock c + (t - last_cycles c)" for t
  show ?thesis
  proof (cases "transfer_enabled c \<and> internal_clock c")
    case False
    have c1: "(i1, c1, w1) = (False, moved t1 (k t1) c, w)"
      using tick_idle [OF assms(1) good(2) False, of on_edge t1 w] assms(4) by (simp add: k_def)
    have "tick on_edge t2 (moved t1 (k t1) c) w = (False, moved t2 (k t2) c, w)"
      using tick_idle [OF core_ok_moved_idle [OF assms(1) False], of t1 "k t1" on_edge t2 w] good False by (simp add: k_def)
    with c1 assms(5) tick_idle [OF assms(1) good(2) False, of on_edge t2 w] show ?thesis by (simp add: k_def)
  next
    case running: True
    have t: "tick on_edge t c w = (case run_edges on_edge (moved t (k t) c) w of
        (Failed, e, u) \<Rightarrow> (False, e, u) | (Ran i, e, u) \<Rightarrow> (i, update_countdown e, u))" if "t \<noteq> last_cycles c" for t
      using tick_running [OF good(2) running that, of on_edge w] by (simp add: k_def)
    show ?thesis
    proof (cases "t1 = last_cycles c")
      case True
      with tick_same [OF assms(1) good(2), of on_edge w] assms(4,5) show ?thesis by simp
    next
      case False
      obtain r d v where e: "run_edges on_edge (moved t1 (k t1) c) w = (r, d, v)" by (metis prod_cases3)
      have m: "mid_tick (moved t1 (k t1) c)"
        unfolding moved_def by (rule mid_tick_later [OF assms(1) running]) (use assms(2) in \<open>simp add: k_def\<close>)
      note after = run_edges_ok [OF m e]
      obtain i where r: "r = Ran i" "i1 = i" "c1 = update_countdown d" "w1 = v"
      proof (cases r)
        case (Ran i)
        with t [OF False] e assms(4) have "i1 = i \<and> c1 = update_countdown d \<and> w1 = v" by simp
        with Ran that show ?thesis by blast
      next
        case Failed
        with t [OF False] e assms(4) have "c1 = d" by simp
        with after Failed good(1) show ?thesis by simp
      qed
      with after have d: "core_ok c1" "transfer_enabled c1 = (\<not> i)" "internal_clock c1" "last_cycles c1 = t1" "clock c1 = k t1"
        by auto
      have k2: "clock c1 + (t2 - last_cycles c1) = k t2" by (simp add: d k_def)
      have run: "run_edges on_edge (moved t2 (k t2) c) w =
          (if i then (Ran True, moved t2 (k t2) d, v) else run_edges on_edge (moved t2 (k t2) d) v)"
        using run_edges_moved [OF e, of "k t2" t2] assms(3) r(1) by (cases i) (simp_all add: k_def)
      have mc: "moved t2 (k t2) c1 = (moved t2 (k t2) d)\<lparr>cycles_to_interrupt := cycles_to_interrupt c1\<rparr>"
        unfolding r(3) by (subst countdown_is_update) (rule moved_countdown)
      show ?thesis
      proof (cases i)
        case True
        have "tick on_edge t2 c1 w1 = (False, moved t2 (k t2) c1, w1)"
          using tick_idle [OF d(1) good(1), of on_edge t2 w1] d True k2 by simp
        moreover have "update_countdown (moved t2 (k t2) d) = moved t2 (k t2) c1"
          unfolding mc using core_ok_idle [OF d(1)] d True r(3) by (simp add: update_countdown_def)
        ultimately show ?thesis using t [of t2] run True r assms(2,3,5) False by simp
      next
        case go: False
        show ?thesis
        proof (cases "t2 = t1")
          case True
          with tick_same [OF d(1) good(1), of on_edge w1] d(4) assms(4,5) go r show ?thesis by simp
        next
          case later: False
          have "tick on_edge t2 c1 w1 = (case run_edges on_edge (moved t2 (k t2) c1) w1 of
              (Failed, e, u) \<Rightarrow> (False, e, u) | (Ran i, e, u) \<Rightarrow> (i, update_countdown e, u))"
            using tick_running [OF good(1), of t2 on_edge w1] d go later k2 by simp
          moreover have "backend_failed e" if "run_edges on_edge (moved t2 (k t2) c) w = (Failed, e, u)" for e u
            using run_edges_ok [OF mid_tick_later [OF assms(1) running, of "k t2" t2], folded moved_def, OF _ that] assms(2,3)
            by (simp add: k_def)
          ultimately show ?thesis using assms(5,6) run t [of t2] go r(2,4) assms(2,3) False
            unfolding mc run_edges_countdown
            by (auto simp: moved_countdown split: prod.splits edges_end.splits)
        qed
      qed
    qed
  qed
qed

theorem tick_split_witness:
  "case tick null_backend 1000 armed_master () of (i1, c1, w1) \<Rightarrow> case tick null_backend 4096 c1 w1 of (i2, c2, w2) \<Rightarrow>
     \<not> i1 \<and> i2 \<and> SB c2 = 0xFF \<and> tick null_backend 4096 armed_master () = (True, c2, w2)"
proof -
  obtain i1 c1 w1 where a: "tick null_backend 1000 armed_master () = (i1, c1, w1)" by (metis prod_cases3)
  obtain i2 c2 w2 where b: "tick null_backend 4096 c1 w1 = (i2, c2, w2)" by (metis prod_cases3)
  have v: "case tick null_backend 1000 armed_master () of (i1, c1, w1) \<Rightarrow> case tick null_backend 4096 c1 w1 of (i2, c2, w2) \<Rightarrow>
     \<not> i1 \<and> i2 \<and> SB c2 = 0xFF \<and> \<not> backend_failed c2" by code_simp
  have "core_ok armed_master" "last_cycles armed_master = 0"
    using core_reachable_ok [OF armed_master_reachable] by (simp_all add: armed_master_state new_core_def)
  with tick_split [OF _ _ _ a b] a b v show ?thesis by simp
qed

subsection \<open>How long a byte takes\<close>

lemma run_edges_time:
  assumes "run_edges on_edge c w = (Ran i, c', w')" "0 < bits_remaining c"
  shows "i \<longleftrightarrow> clock_target c + (bits_remaining c - 1) * edge_period c \<le> clock c"
  using assms
proof (induction on_edge c w rule: run_edges.induct)
  case (1 on_edge c w)
  have p: "0 \<le> (bits_remaining c - 1) * edge_period c"
    using 1(3) period_pos [of c] by (intro mult_nonneg_nonneg) simp_all
  show ?case
  proof (cases "clock_target c \<le> clock c")
    case False
    with 1(2) p show ?thesis by (auto simp: run_edges.simps [of on_edge c w])
  next
    case go: True
    with 1(3) have g: "bits_remaining c > 0 \<and> clock_target c \<le> clock c" by simp
    obtain o' w1 where e: "on_edge (peek_out_bit c) w = (o', w1)" by fastforce
    with 1(2) g obtain b where b: "o' = Some b" by (cases o') (auto simp: run_edges.simps [of on_edge c w])
    show ?thesis
    proof (cases "bits_remaining c = 1")
      case True
      with 1(2) g e b show ?thesis by (simp add: run_edges.simps [of on_edge c w])
    next
      case False
      with 1(2) g e b have r: "run_edges on_edge (master_shift b c) w1 = (Ran i, c', w')"
        by (simp add: run_edges.simps [of on_edge c w])
      have s: "bits_remaining (master_shift b c) = bits_remaining c - 1" "clock (master_shift b c) = clock c"
        "clock_target (master_shift b c) = clock_target c + edge_period c" "edge_period (master_shift b c) = edge_period c"
        using False g by (simp_all add: master_shift_def Let_def)
      have "0 < bits_remaining (master_shift b c)" using False g s by simp
      from 1(1) [OF g e [symmetric] b False r this] False g show ?thesis
        by (simp add: s algebra_simps)
    qed
  qed
qed

text \<open>
  C18. A byte takes its time, and no more. A consistent master in the middle of a byte, ticked to a later
  time against a backend that answers, raises the serial interrupt exactly when the new clock has reached
  the next edge plus one period for each further bit; before that the transfer is still in progress.
\<close>

theorem byte_completes_on_time:
  assumes "core_ok c" "\<not> backend_failed c" "transfer_enabled c \<and> internal_clock c" "last_cycles c < t"
    and "tick on_edge t c w = (i, c', w')" "\<not> backend_failed c'"
  shows "(i \<longleftrightarrow> clock_target c + (bits_remaining c - 1) * edge_period c \<le> clock c + (t - last_cycles c))
     \<and> (transfer_enabled c' \<longleftrightarrow> \<not> i) \<and> clock c' = clock c + (t - last_cycles c) \<and> last_cycles c' = t"
proof -
  define k where "k = clock c + (t - last_cycles c)"
  obtain r d v where e: "run_edges on_edge (moved t k c) w = (r, d, v)" by (metis prod_cases3)
  have m: "mid_tick (moved t k c)"
    unfolding moved_def by (rule mid_tick_later [OF assms(1,3)]) (use assms(4) in \<open>simp add: k_def\<close>)
  note after = run_edges_ok [OF m e]
  have tk: "tick on_edge t c w = (case r of Failed \<Rightarrow> (False, d, v) | Ran i \<Rightarrow> (i, update_countdown d, v))"
    using tick_running [OF assms(2,3), of t on_edge w] assms(4) e by (simp add: k_def split: edges_end.split)
  show ?thesis
  proof (cases r)
    case Failed
    with tk after assms(5,6) show ?thesis by simp
  next
    case (Ran j)
    with tk assms(5) have c': "j = i" "c' = update_countdown d" by simp_all
    have "0 < bits_remaining c" using core_ok_registers(1) [OF assms(1)] assms(3) by simp
    with run_edges_time [OF e [unfolded Ran]] Ran after c' show ?thesis by (simp add: k_def)
  qed
qed

theorem byte_completes_on_time_witness:
  "fst (tick null_backend 4096 armed_master ()) \<and> \<not> fst (tick null_backend 4095 armed_master ())"
proof -
  have ok: "core_ok armed_master" "\<not> backend_failed armed_master" "transfer_enabled armed_master \<and> internal_clock armed_master"
    using core_reachable_ok [OF armed_master_reachable] by (simp_all add: armed_master_state new_core_def)
  have v: "clock armed_master = 0" "last_cycles armed_master = 0" "clock_target armed_master = 512" "bits_remaining armed_master = 8"
    "edge_period armed_master = 512"
    by (simp_all add: armed_master_state new_core_def edge_period_def CYCLES_PER_EDGE_DMG_def)
  obtain i c w where a: "tick null_backend 4096 armed_master () = (i, c, w)" by (metis prod_cases3)
  obtain j d u where b: "tick null_backend 4095 armed_master () = (j, d, u)" by (metis prod_cases3)
  have "\<not> backend_failed (fst (snd (tick null_backend 4096 armed_master ())))"
    "\<not> backend_failed (fst (snd (tick null_backend 4095 armed_master ())))" by code_simp+
  then have "\<not> backend_failed c" "\<not> backend_failed d" by (simp_all add: a b)
  with byte_completes_on_time [OF ok _ a] byte_completes_on_time [OF ok _ b] show ?thesis by (simp add: a b v)
qed

subsection \<open>Saved states\<close>

lemma le_bytes_length [simp]: "length (le_bytes k n) = k"
  by (induction k arbitrary: n) simp_all

lemma uint_byte: "uint (word_of_int n :: byte) = n mod 256"
  by (simp add: uint_word_of_int)

lemma le_int_bytes: "0 \<le> n \<Longrightarrow> n < 256 ^ k \<Longrightarrow> le_int (le_bytes k n) = n"
proof (induction k arbitrary: n)
  case 0
  then show ?case by simp
next
  case (Suc k)
  have "n div 256 < 256 ^ k" using Suc.prems by (simp add: div_less_iff_less_mult mult.commute)
  with Suc show ?case by (simp add: uint_byte)
qed

lemma read_back [simp]: "0 \<le> n \<Longrightarrow> n < 2 ^ 64 \<Longrightarrow> read_64bit (le_bytes 8 n @ rest) = Some (n, rest)"
  by (simp add: read_64bit_def le_int_bytes)

lemma flag_byte_nonzero [simp]: "(flag_byte b \<noteq> 0) = b" "(flag_byte b = 0) = (\<not> b)"
  by (simp_all add: flag_byte_def)

lemma count_byte: "0 \<le> n \<Longrightarrow> n \<le> 8 \<Longrightarrow> uint (word_of_int n :: byte) = n"
  by (simp add: uint_byte)

text \<open>
  C19. A saved core comes back whole. Saving a consistent core whose counters fit 64 bits writes forty bytes,
  and loading them into any healthy core of the same model gives back every register, counter and flag of
  the saved core, whatever the caller says of legacy timing; only the receiver's generation number stays
  its own.
\<close>

theorem save_load_roundtrip:
  assumes "core_ok c" "\<not> backend_failed c" "\<not> backend_failed d" "cgb_mode d = cgb_mode c"
    and "\<forall>n \<in> {last_cycles c, cycles_to_interrupt c, clock c, clock_target c}. 0 \<le> n \<and> n < 2 ^ 64"
  shows "\<exists>f. save_state c = Some f \<and> length f = 40
     \<and> load_state f timing shift d = Some (c\<lparr>transfer_generation := transfer_generation d\<rparr>)"
proof -
  define f where "f = [SB c, SC c, flag_byte (transfer_enabled c), flag_byte (internal_clock c)]
      @ le_bytes 8 (last_cycles c) @ le_bytes 8 (cycles_to_interrupt c) @ le_bytes 8 (clock c) @ le_bytes 8 (clock_target c)
      @ [shift_register c, word_of_int (bits_remaining c), SERIAL_STATE_FORMAT_MAGIC, SERIAL_STATE_FORMAT_VERSION]"
  have saved: "save_state c = Some f" using assms(2) by (simp add: save_state_def f_def)
  note regs = core_ok_registers [OF assms(1)]
  have idle: "\<not> (transfer_enabled c \<and> internal_clock c) \<Longrightarrow> cycles_to_interrupt c = MAX_CYCLES \<and> clock_target c = MAX_CYCLES"
    using core_ok_idle [OF assms(1)] by simp
  have loaded: "load_registers f d = Some (d\<lparr>SB := SB c, SC := SC c, transfer_enabled := transfer_enabled c,
      internal_clock := internal_clock c, last_cycles := last_cycles c, cycles_to_interrupt := cycles_to_interrupt c,
      clock := clock c, clock_target := clock_target c, double_speed := double_speed c\<rparr>,
      [shift_register c, word_of_int (bits_remaining c), SERIAL_STATE_FORMAT_MAGIC, SERIAL_STATE_FORMAT_VERSION])"
    using assms(4,5) idle regs(5) by (auto simp: load_registers_def f_def read_byte_def Let_def)
  have "load_state f timing shift d = Some (c\<lparr>transfer_generation := transfer_generation d\<rparr>)"
    unfolding load_state_def loaded
    using assms(2-4) idle count_byte [OF regs(6) regs(2)]
    by (cases c; cases d) (auto simp: Let_def check_format_def read_byte_def)
  with saved show ?thesis by (auto simp: f_def)
qed

theorem save_load_roundtrip_witness:
  "\<exists>f. save_state armed_master = Some f \<and> length f = 40
     \<and> load_state f NoTiming 0 (new_core False) = Some (armed_master\<lparr>transfer_generation := 0\<rparr>)"
proof -
  have "core_ok armed_master" "\<not> backend_failed armed_master"
    using core_reachable_ok [OF armed_master_reachable] by (simp_all add: armed_master_state new_core_def)
  from save_load_roundtrip [OF this, of "new_core False" NoTiming 0] show ?thesis
    by (simp add: armed_master_state new_core_def)
qed

end
