(* ===== verification/Serial_Coordinator.thy ===== *)
theory Serial_Coordinator
  imports Serial_Core
begin

text \<open>
  The lockstep coordinator (\<open>link/serial_coordinator.py\<close>): the backend that exchanges one bit with a
  same-process peer at every edge of the master, and the object that installs a pair of such backends and
  restores what was there before. The owner's callbacks - what runs when the peer completes a byte, and
  what lets an unarmed peer execute for a while - are arguments acting on an environment; each may raise.
  The model is sequential: the locks, and the count of completion callbacks in flight, only matter between
  threads, so whether a callback drained in time is an argument of \<open>detach\<close>.
\<close>

subsection \<open>The backend\<close>

record backend_state =
  active :: bool
  edge_count :: nat
  peer_unarmed_edges :: nat
  peer_master_edges :: nat
  peer_rearm_attempts :: nat
  peer_rearm_successes :: nat

definition new_backend :: "bool \<Rightarrow> backend_state" where
  "new_backend act = \<lparr>active = act, edge_count = 0, peer_unarmed_edges = 0, peer_master_edges = 0,
     peer_rearm_attempts = 0, peer_rearm_successes = 0\<rparr>"

record 'e wire =
  backend_of :: backend_state
  peer :: core
  env :: 'e

text \<open>A completion callback: whether it raised, and the environment after it. A re-arm callback: its answer, or \<open>None\<close> when it raised.\<close>

record 'e hooks =
  on_peer_transfer_complete :: "('e \<Rightarrow> bool \<times> 'e) option"
  on_peer_unarmed :: "(core \<Rightarrow> 'e \<Rightarrow> bool option \<times> core \<times> 'e) option"

definition count :: "(backend_state \<Rightarrow> backend_state) \<Rightarrow> 'e wire \<Rightarrow> 'e wire" where
  "count f w = w\<lparr>backend_of := f (backend_of w)\<rparr>"

text \<open>Up to that many chances for the peer to arm; the flag says that a chance raised.\<close>

fun rearm_loop :: "nat \<Rightarrow> (core \<Rightarrow> 'e \<Rightarrow> bool option \<times> core \<times> 'e) \<Rightarrow> 'e wire \<Rightarrow> bool \<times> 'e wire" where
  "rearm_loop 0 chance w = (False, w)"
| "rearm_loop (Suc n) chance w =
     (if transfer_enabled (peer w) then (False, w)
      else let w1 = count (\<lambda>b. b\<lparr>peer_rearm_attempts := peer_rearm_attempts b + 1\<rparr>) w
           in case chance (peer w) (env w) of
                (None, p, e) \<Rightarrow> (True, w1\<lparr>peer := p, env := e\<rparr>)
              | (Some again, p, e) \<Rightarrow>
                  if again then rearm_loop n chance (w1\<lparr>peer := p, env := e\<rparr>) else (False, w1\<lparr>peer := p, env := e\<rparr>))"

definition REARM_CHANCES :: nat where "REARM_CHANCES = 256"

definition prepare_peer_for_edge :: "'e hooks \<Rightarrow> 'e wire \<Rightarrow> bool option \<times> 'e wire" where
  "prepare_peer_for_edge h w =
     (if \<not> active (backend_of w) then (Some False, w)
      else if transfer_enabled (peer w) then (Some (\<not> internal_clock (peer w)), w)
      else case on_peer_unarmed h of
        None \<Rightarrow> (Some False, w)
      | Some chance \<Rightarrow>
          (case rearm_loop REARM_CHANCES chance w of
             (True, w') \<Rightarrow> (None, w')
           | (False, w') \<Rightarrow>
               if transfer_enabled (peer w') \<and> \<not> internal_clock (peer w')
               then (Some True, count (\<lambda>b. b\<lparr>peer_rearm_successes := peer_rearm_successes b + 1\<rparr>) w')
               else (Some False, w')))"

text \<open>One bit each way, or the pulled-up line.\<close>

definition exchange_bit :: "bool \<Rightarrow> 'e wire \<Rightarrow> (bool \<times> bool) option \<times> 'e wire" where
  "exchange_bit our_bit w =
     (if \<not> transfer_enabled (peer w)
      then (Some (True, False), count (\<lambda>b. b\<lparr>peer_unarmed_edges := peer_unarmed_edges b + 1\<rparr>) w)
      else if internal_clock (peer w)
      then (Some (True, False), count (\<lambda>b. b\<lparr>peer_master_edges := peer_master_edges b + 1\<rparr>) w)
      else case apply_external_edge our_bit (peer w) of
             None \<Rightarrow> (None, w)
           | Some (completed, p) \<Rightarrow> (Some (peek_out_bit (peer w), completed), w\<lparr>peer := p\<rparr>))"

definition on_edge_locked :: "'e hooks \<Rightarrow> bool \<Rightarrow> 'e wire \<Rightarrow> (bool \<times> bool) option \<times> 'e wire" where
  "on_edge_locked h our_bit w =
     (if \<not> active (backend_of w) then (Some (True, False), w)
      else let w1 = count (\<lambda>b. b\<lparr>edge_count := edge_count b + 1\<rparr>) w
           in if \<not> transfer_enabled (peer w1) \<and> on_peer_unarmed h \<noteq> None
              then case prepare_peer_for_edge h w1 of
                     (None, w2) \<Rightarrow> (None, w2)
                   | (Some _, w2) \<Rightarrow> exchange_bit our_bit w2
              else exchange_bit our_bit w1)"

definition invoke_completion :: "('e \<Rightarrow> bool \<times> 'e) option \<Rightarrow> 'e wire \<Rightarrow> bool \<times> 'e wire" where
  "invoke_completion callback w =
     (case callback of
        None \<Rightarrow> (False, w)
      | Some f \<Rightarrow> if \<not> active (backend_of w) then (False, w)
                  else case f (env w) of (raised, e) \<Rightarrow> (raised, w\<lparr>env := e\<rparr>))"

definition on_edge :: "'e hooks \<Rightarrow> 'e wire backend" where
  "on_edge h our_bit w =
     (case on_edge_locked h our_bit w of
        (None, w') \<Rightarrow> (None, w')
      | (Some (received, completed), w') \<Rightarrow>
          if completed
          then case invoke_completion (on_peer_transfer_complete h) w' of
                 (raised, w'') \<Rightarrow> (if raised then None else Some received, w'')
          else (Some received, w'))"

subsection \<open>The pair\<close>

text \<open>
  What the \<open>backend\<close> attribute of a core holds: the disconnected cable, a coordinated backend by its
  identity, or an object of another owner.
\<close>

datatype side = A | B

datatype slot = NullBackend | Coordinated nat | Foreign nat

fun other :: "side \<Rightarrow> side" where
  "other A = B"
| "other B = A"

record 'e pair =
  cores :: "side \<Rightarrow> core"
  slots :: "side \<Rightarrow> slot"
  previous :: "side \<Rightarrow> slot"
  handles :: "side \<Rightarrow> nat option"
  attached :: bool
  objects :: "nat \<Rightarrow> backend_state"
  next_object :: nat
  world :: 'e

definition set_slot :: "side \<Rightarrow> slot \<Rightarrow> 'e pair \<Rightarrow> 'e pair" where
  "set_slot x v s = s\<lparr>slots := (slots s)(x := v)\<rparr>"

definition set_active :: "bool \<Rightarrow> nat \<Rightarrow> 'e pair \<Rightarrow> 'e pair" where
  "set_active act i s = s\<lparr>objects := (objects s)(i := (objects s i)\<lparr>active := act\<rparr>)\<rparr>"

text \<open>Restore one side of a failed attach, if its assignment was made; the assignment may fail again.\<close>

definition roll_back :: "bool \<Rightarrow> side \<Rightarrow> nat \<Rightarrow> slot \<Rightarrow> 'e pair \<Rightarrow> 'e pair" where
  "roll_back raises x i prev s = (if slots s x = Coordinated i \<and> \<not> raises then set_slot x prev s else s)"

text \<open>
  Attach. \<open>assign x\<close> and \<open>undo x\<close> say whether assigning the backend of side \<open>x\<close> raises, the first time
  and in the roll-back. The flag of the result says that attach raised.
\<close>

definition attach :: "(side \<Rightarrow> bool) \<Rightarrow> (side \<Rightarrow> bool) \<Rightarrow> 'e pair \<Rightarrow> bool \<times> 'e pair" where
  "attach assign undo s =
     (if attached s then (False, s)
      else let i = next_object s; j = Suc i; prev = slots s;
               s1 = s\<lparr>objects := (objects s)(i := new_backend False, j := new_backend False), next_object := Suc j\<rparr>;
               rolled = (\<lambda>s. roll_back (undo B) B j (prev B) (roll_back (undo A) A i (prev A)
                          (set_active False j (set_active False i s))))
           in if assign A then (True, rolled s1)
              else let s2 = set_slot A (Coordinated i) s1
                   in if assign B then (True, rolled s2)
                      else let s3 = set_active True j (set_active True i (set_slot B (Coordinated j) s2))
                           in (False, s3\<lparr>previous := prev, handles := (\<lambda>x. Some (case x of A \<Rightarrow> i | B \<Rightarrow> j)), attached := True\<rparr>))"

definition deactivate_handle :: "side \<Rightarrow> 'e pair \<Rightarrow> 'e pair" where
  "deactivate_handle x s = (case handles s x of None \<Rightarrow> s | Some i \<Rightarrow> set_active False i s)"

text \<open>Only the coordinator's own object is taken out; an assignment that raises leaves it in place.\<close>

definition restore :: "(side \<Rightarrow> bool) \<Rightarrow> side \<Rightarrow> 'e pair \<Rightarrow> bool \<times> 'e pair" where
  "restore raises x s =
     (case handles s x of
        None \<Rightarrow> (False, s)
      | Some i \<Rightarrow> if slots s x \<noteq> Coordinated i then (False, s)
                  else if raises x then (True, s)
                  else (False, set_slot x (previous s x) s))"

definition detach :: "bool \<Rightarrow> (side \<Rightarrow> bool) \<Rightarrow> 'e pair \<Rightarrow> bool \<times> 'e pair" where
  "detach drained raises s =
     (if \<not> attached s then (False, s)
      else let s1 = deactivate_handle B (deactivate_handle A s)
           in if \<not> drained then (True, s1)
              else case restore raises A s1 of (ea, s2) \<Rightarrow>
                   case restore raises B s2 of (eb, s3) \<Rightarrow>
                     if ea \<or> eb then (True, s3)
                     else (False, s3\<lparr>handles := (\<lambda>_. None), attached := False\<rparr>))"

text \<open>Tick one core of the pair through whatever backend it holds.\<close>

definition pair_tick ::
    "(side \<Rightarrow> 'e hooks) \<Rightarrow> (nat \<Rightarrow> 'e backend) \<Rightarrow> side \<Rightarrow> int \<Rightarrow> 'e pair \<Rightarrow> bool \<times> 'e pair" where
  "pair_tick h foreign x cycles s =
     (case slots s x of
        NullBackend \<Rightarrow>
          (case tick null_backend cycles (cores s x) () of (i, c, _) \<Rightarrow> (i, s\<lparr>cores := (cores s)(x := c)\<rparr>))
      | Foreign n \<Rightarrow>
          (case tick (foreign n) cycles (cores s x) (world s) of
             (i, c, e) \<Rightarrow> (i, s\<lparr>cores := (cores s)(x := c), world := e\<rparr>))
      | Coordinated n \<Rightarrow>
          (case tick (on_edge (h x)) cycles (cores s x)
                  \<lparr>backend_of = objects s n, peer = cores s (other x), env = world s\<rparr> of
             (i, c, w) \<Rightarrow> (i, s\<lparr>cores := (cores s)(x := c, other x := peer w), world := env w,
                                objects := (objects s)(n := backend_of w)\<rparr>)))"

definition is_master :: "core \<Rightarrow> bool" where
  "is_master c \<longleftrightarrow> internal_clock c \<and> transfer_enabled c"

text \<open>\<open>None\<close> is the exception of the argument check.\<close>

definition advance_master ::
    "(side \<Rightarrow> 'e hooks) \<Rightarrow> (nat \<Rightarrow> 'e backend) \<Rightarrow> int \<Rightarrow> 'e pair \<Rightarrow> (bool \<times> 'e pair) option" where
  "advance_master h foreign cycles s =
     (if cycles \<le> 0 then None
      else case filter (\<lambda>x. is_master (cores s x)) [A, B] of
             [x] \<Rightarrow> Some (pair_tick h foreign x (last_cycles (cores s x) + cycles) s)
           | _ \<Rightarrow> Some (False, s))"

end
