(* ===== verification/Serial_Exchange.thy ===== *)
theory Serial_Exchange
  imports Serial_Safety Serial_Coordinator
begin

text \<open>
  What the coordinated backend promises: the byte exchange of an armed pair, the pulled-up line of every
  other situation, the accounting of its counters, and a teardown that restores what was there.
\<close>

subsection \<open>The bits of a shift\<close>

lemma shift_in_bit: "bit (shift_in w b) i \<longleftrightarrow> i < 8 \<and> (if i = 0 then b else bit w (i - 1))"
  unfolding shift_in_def bit_or_iff bit_push_bit_iff bit_of_bool_iff
  by (auto simp: possible_bit_word dest: bit_imp_le_length)

lemma shifted_register [simp]: "shift_register (master_shift b c) = shift_in (shift_register c) b"
  by (simp add: master_shift_def complete_transfer_def Let_def)

lemma byte_eqI:
  fixes x y :: byte
  assumes "\<And>i. i < 8 \<Longrightarrow> bit x i = bit y i"
  shows "x = y"
  by (rule bit_word_eqI) (simp add: assms)

lemma all_ones: "i < 8 \<Longrightarrow> bit (0xFF :: byte) i"
proof -
  assume i: "i < 8"
  have m: "(0xFF :: byte) = - 1" by simp
  from i show "bit (0xFF :: byte) i" unfolding m bit_minus_1_iff by (simp add: possible_bit_word)
qed

subsection \<open>The pulled-up line\<close>

text \<open>A line that answers one at every edge, as long as the world keeps a property that no edge breaks.\<close>

locale pulled_up =
  fixes line :: "'w backend" and idle :: "'w \<Rightarrow> bool"
  assumes reads_one: "idle w \<Longrightarrow> \<exists>w'. line b w = (Some True, w') \<and> idle w'"
begin

lemma run_reads_ones:
  assumes "idle w" "run_edges line c w = (r, c', w')"
    and "\<forall>i. int i < 8 - bits_remaining c \<longrightarrow> bit (shift_register c) i" "bits_remaining c \<le> 8"
  shows "(\<exists>i. r = Ran i \<and> (i \<longrightarrow> (\<forall>j < 8. bit (shift_register c') j))) \<and> idle w'"
  using assms
proof (induction "nat (bits_remaining c)" arbitrary: c w rule: less_induct)
  case (less c w)
  show ?case
  proof (cases "bits_remaining c > 0 \<and> clock_target c \<le> clock c")
    case False
    with less.prems(1,2) show ?thesis by (auto simp: run_edges.simps [of line c w])
  next
    case go: True
    obtain w1 where e: "line (peek_out_bit c) w = (Some True, w1)" "idle w1" using reads_one [OF less.prems(1)] by blast
    have sh: "\<forall>i. int i < 9 - bits_remaining c \<longrightarrow> bit (shift_register (master_shift True c)) i"
    proof (intro allI impI)
      fix i assume i: "int i < 9 - bits_remaining c"
      show "bit (shift_register (master_shift True c)) i"
        using less.prems(3) i go by (cases i) (auto simp: shift_in_bit)
    qed
    show ?thesis
    proof (cases "bits_remaining c = 1")
      case True
      with less.prems(2) go e have "r = Ran True" "c' = master_shift True c" "w' = w1" by (simp_all add: run_edges.simps [of line c w])
      with True sh e(2) show ?thesis by auto
    next
      case False
      with less.prems(2) go e have r: "run_edges line (master_shift True c) w1 = (r, c', w')"
        by (simp add: run_edges.simps [of line c w])
      have b: "bits_remaining (master_shift True c) = bits_remaining c - 1" using False go by (simp add: master_shift_def Let_def)
      have "nat (bits_remaining (master_shift True c)) < nat (bits_remaining c)" using b go by simp
      moreover have "8 - bits_remaining (master_shift True c) = 9 - bits_remaining c" using b go less.prems(4) by simp
      ultimately show ?thesis using less.hyps [OF _ e(2) r] sh b less.prems(4) by simp
    qed
  qed
qed


lemma tick_reads_ones:
  assumes "idle w" "core_ok c" "is_master c" "\<not> backend_failed c" "bits_remaining c = 8" "last_cycles c < t"
    and "clock_target c + 7 * edge_period c \<le> clock c + (t - last_cycles c)"
  shows "\<exists>c' w'. tick line t c w = (True, c', w') \<and> SB c' = 0xFF \<and> \<not> transfer_enabled c' \<and> \<not> backend_failed c' \<and> idle w'"
proof -
  let ?c = "moved t (clock c + (t - last_cycles c)) c"
  have run: "transfer_enabled c \<and> internal_clock c" using assms(3) by (simp add: is_master_def)
  obtain r c1 w1 where e: "run_edges line ?c w = (r, c1, w1)" by (metis prod_cases3)
  from run_reads_ones [OF assms(1) e] assms(5) obtain i
    where i: "r = Ran i" "i \<longrightarrow> (\<forall>j < 8. bit (shift_register c1) j)" "idle w1" by auto
  have m: "mid_tick ?c"
    unfolding moved_def by (rule mid_tick_later [OF assms(2) run]) (use assms(6) in simp)
  have i': i using run_edges_time [OF e [unfolded i(1)]] assms(5,7) by simp
  then have "shift_register c1 = 0xFF"
    using i(2) by (intro byte_eqI) (use all_ones in blast)
  with run_edges_ok [OF m e] i(1) i' assms(4)
  have "SB c1 = 0xFF" "\<not> transfer_enabled c1" "\<not> backend_failed c1" by simp_all
  with tick_running [OF assms(4) run, of t line w] assms(6) e i(1,3) i' show ?thesis by simp
qed

end

interpretation null_line: pulled_up null_backend "\<lambda>_. True"
  by unfold_locales (simp add: null_backend_def)

text \<open>Nobody will answer on the wire: the backend was taken down, or the peer drives the clock itself, or it is not armed and nothing can arm it.\<close>

definition line_dead :: "'e hooks \<Rightarrow> 'e wire \<Rightarrow> bool" where
  "line_dead h w \<longleftrightarrow> \<not> active (backend_of w) \<or> is_master (peer w)
     \<or> \<not> transfer_enabled (peer w) \<and> on_peer_unarmed h = None"

lemma count_simps [simp]: "peer (count f w) = peer w" "env (count f w) = env w" "backend_of (count f w) = f (backend_of w)"
  by (simp_all add: count_def)

interpretation dead_line: pulled_up "on_edge h" "line_dead h" for h
  by unfold_locales
     (auto simp: line_dead_def is_master_def on_edge_def on_edge_locked_def exchange_bit_def Let_def)

text \<open>
  A master alone reads all ones. A consistent master with a fresh byte, ticked long enough for eight
  edges through a coordinated backend that was taken down, or whose peer also drives the clock, or is not
  armed and cannot be, always completes with 0xFF received and no failure - and so does a core with no
  cable at all.
\<close>

theorem unanswered_master_reads_ones:
  assumes "core_ok c" "is_master c" "\<not> backend_failed c" "bits_remaining c = 8" "last_cycles c < t"
    and "clock_target c + 7 * edge_period c \<le> clock c + (t - last_cycles c)" "line_dead h w"
  shows "(\<exists>c' w'. tick (on_edge h) t c w = (True, c', w') \<and> SB c' = 0xFF \<and> \<not> transfer_enabled c' \<and> \<not> backend_failed c')
     \<and> (\<exists>c'. tick null_backend t c () = (True, c', ()) \<and> SB c' = 0xFF \<and> \<not> transfer_enabled c' \<and> \<not> backend_failed c')"
  using dead_line.tick_reads_ones [OF assms(7,1-6)] null_line.tick_reads_ones [OF TrueI assms(1-6), of "()"] by auto

theorem unanswered_master_reads_ones_witness:
  "\<exists>c' w'. tick (on_edge \<lparr>on_peer_transfer_complete = None, on_peer_unarmed = None\<rparr>) 4096 armed_master
       \<lparr>backend_of = new_backend True, peer = new_core False, env = ()\<rparr> = (True, c', w') \<and> SB c' = 0xFF"
proof -
  have m: "core_ok armed_master" "is_master armed_master" "\<not> backend_failed armed_master" "bits_remaining armed_master = 8"
    "last_cycles armed_master < 4096" "clock_target armed_master + 7 * edge_period armed_master \<le> clock armed_master + (4096 - last_cycles armed_master)"
    using core_reachable_ok [OF armed_master_reachable]
    by (simp_all add: armed_master_state new_core_def is_master_def edge_period_def CYCLES_PER_EDGE_DMG_def)
  have d: "line_dead \<lparr>on_peer_transfer_complete = None, on_peer_unarmed = None\<rparr>
      \<lparr>backend_of = new_backend True, peer = new_core False, env = ()\<rparr>"
    by (simp add: line_dead_def new_core_def)
  from unanswered_master_reads_ones [OF m d] show ?thesis by blast
qed

subsection \<open>The byte exchange\<close>

definition is_slave :: "core \<Rightarrow> bool" where
  "is_slave c \<longleftrightarrow> transfer_enabled c \<and> \<not> internal_clock c"

definition quiet :: "('e \<Rightarrow> bool \<times> 'e) option \<Rightarrow> bool" where
  "quiet callback \<longleftrightarrow> (case callback of None \<Rightarrow> True | Some f \<Rightarrow> \<forall>e. \<not> fst (f e))"

definition notified :: "('e \<Rightarrow> bool \<times> 'e) option \<Rightarrow> 'e \<Rightarrow> 'e" where
  "notified callback e = (case callback of None \<Rightarrow> e | Some f \<Rightarrow> snd (f e))"

text \<open>One edge into an armed slave.\<close>

definition edge_counted :: "core \<Rightarrow> 'e wire \<Rightarrow> 'e wire" where
  "edge_counted p w = w\<lparr>backend_of := (backend_of w)\<lparr>edge_count := edge_count (backend_of w) + 1\<rparr>, peer := p\<rparr>"

lemma quiet_completion:
  assumes "quiet callback" "active (backend_of w)"
  shows "invoke_completion callback w = (False, w\<lparr>env := notified callback (env w)\<rparr>)"
proof (cases callback)
  case (Some f)
  with assms(1) have "\<not> fst (f (env w))" by (simp add: quiet_def)
  with Some assms(2) show ?thesis by (simp add: invoke_completion_def notified_def split_beta)
qed (simp add: invoke_completion_def notified_def)

lemma edge_into_slave:
  assumes "active (backend_of w)" "is_slave (peer w)" "\<not> backend_failed (peer w)" "quiet (on_peer_transfer_complete h)"
    and "advance_one_edge b (peer w) = (completed, p)"
  shows "on_edge h b w = (Some (peek_out_bit (peer w)),
     (edge_counted p w)\<lparr>env := (if completed then notified (on_peer_transfer_complete h) (env w) else env w)\<rparr>)"
  using assms quiet_completion [OF assms(4), of "edge_counted p w"]
  by (cases completed) (simp_all add: on_edge_def on_edge_locked_def exchange_bit_def apply_external_edge_def is_slave_def
      Let_def count_def edge_counted_def)

lemma slave_edge:
  "advance_one_edge b p = (bits_remaining p - 1 = 0, snd (advance_one_edge b p))"
  "shift_register (snd (advance_one_edge b p)) = shift_in (shift_register p) b"
  "bits_remaining (snd (advance_one_edge b p)) = bits_remaining p - 1"
  "bits_remaining p - 1 \<noteq> 0 \<Longrightarrow> is_slave (snd (advance_one_edge b p)) = is_slave p"
  "backend_failed (snd (advance_one_edge b p)) = backend_failed p"
  "bits_remaining p - 1 = 0 \<Longrightarrow> \<not> transfer_enabled (snd (advance_one_edge b p)) \<and> SB (snd (advance_one_edge b p)) = shift_in (shift_register p) b"
  by (simp_all add: advance_one_edge_def complete_transfer_def is_slave_def Let_def)

text \<open>The register after \<open>n\<close> edges against a register \<open>y\<close>.\<close>

definition crossed :: "nat \<Rightarrow> byte \<Rightarrow> byte \<Rightarrow> byte \<Rightarrow> bool" where
  "crossed n x y z \<longleftrightarrow> (\<forall>i < 8. bit z i = (if i < n then bit y (8 - n + i) else bit x (i - n)))"

lemma crossed_step:
  assumes "crossed n (shift_in x (bit y 7)) (shift_in y b) z" "n < 8"
  shows "crossed (Suc n) x y z"
  unfolding crossed_def
proof (intro allI impI)
  fix i :: nat
  assume i: "i < 8"
  consider "i < n" | "i = n" | "i > n" by linarith
  then show "bit z i = (if i < Suc n then bit y (8 - Suc n + i) else bit x (i - Suc n))"
  proof cases
    case 1
    then have "8 + i - n < 8" using assms(2) by linarith
    with 1 assms i show ?thesis by (simp add: crossed_def shift_in_bit)
  next
    case 2
    with assms i show ?thesis by (simp add: crossed_def shift_in_bit)
  next
    case 3
    then have "i - n \<noteq> 0" "i - n - 1 = i - Suc n" "i - n < 8" using i by linarith+
    with 3 assms i show ?thesis by (simp add: crossed_def shift_in_bit)
  qed
qed

lemma crossed_one: "crossed 1 x y (shift_in x (bit y 7))"
  by (auto simp: crossed_def shift_in_bit)

lemma crossed_all: "crossed 8 x y z \<Longrightarrow> z = y"
  by (rule byte_eqI) (simp add: crossed_def)

lemma exchange_edges:
  assumes "bits_remaining m = int (Suc n)" "bits_remaining (peer w) = int (Suc n)" "n < 8" "active (backend_of w)" "is_slave (peer w)"
    "\<not> backend_failed (peer w)" "quiet (on_peer_transfer_complete h)" "clock_target m + int n * edge_period m \<le> clock m"
  shows "\<exists>m' p'. run_edges (on_edge h) m w = (Ran True, m',
        w\<lparr>peer := p', backend_of := (backend_of w)\<lparr>edge_count := edge_count (backend_of w) + Suc n\<rparr>,
          env := notified (on_peer_transfer_complete h) (env w)\<rparr>)
     \<and> crossed (Suc n) (shift_register m) (shift_register (peer w)) (SB m') \<and> \<not> transfer_enabled m'
     \<and> crossed (Suc n) (shift_register (peer w)) (shift_register m) (SB p') \<and> \<not> transfer_enabled p'
     \<and> backend_failed m' = backend_failed m \<and> \<not> backend_failed p'"
  using assms
proof (induction n arbitrary: m w)
  case 0
  let ?p = "snd (advance_one_edge (peek_out_bit m) (peer w))"
  have e: "on_edge h (peek_out_bit m) w = (Some (peek_out_bit (peer w)),
      (edge_counted ?p w)\<lparr>env := notified (on_peer_transfer_complete h) (env w)\<rparr>)"
    using edge_into_slave [OF 0(4-7), of "peek_out_bit m" True ?p] slave_edge(1) [of "peek_out_bit m" "peer w"] 0(2) by simp
  have "run_edges (on_edge h) m w = (Ran True, master_shift (peek_out_bit (peer w)) m,
      (edge_counted ?p w)\<lparr>env := notified (on_peer_transfer_complete h) (env w)\<rparr>)"
    using 0(1,8) by (simp add: run_edges.simps [of "on_edge h" m w] e)
  moreover have "SB (master_shift (peek_out_bit (peer w)) m) = shift_in (shift_register m) (bit (shift_register (peer w)) 7)"
    "\<not> transfer_enabled (master_shift (peek_out_bit (peer w)) m)"
    "backend_failed (master_shift (peek_out_bit (peer w)) m) = backend_failed m"
    using 0(1) by (simp_all add: master_shift_def complete_transfer_def peek_out_bit_def Let_def)
  moreover have "SB ?p = shift_in (shift_register (peer w)) (bit (shift_register m) 7)" "\<not> transfer_enabled ?p" "\<not> backend_failed ?p"
    using 0(2,6) slave_edge(6) [of "peer w" "peek_out_bit m"] by (simp_all add: peek_out_bit_def slave_edge(5))
  ultimately show ?case
    using crossed_one [of "shift_register m" "shift_register (peer w)"] crossed_one [of "shift_register (peer w)" "shift_register m"]
    by (auto simp: edge_counted_def intro!: exI [of _ "master_shift (peek_out_bit (peer w)) m"] exI [of _ ?p])
next
  case (Suc n)
  let ?p = "snd (advance_one_edge (peek_out_bit m) (peer w))"
  let ?m = "master_shift (peek_out_bit (peer w)) m"
  let ?w = "edge_counted ?p w"
  have e: "on_edge h (peek_out_bit m) w = (Some (peek_out_bit (peer w)), ?w)"
    using edge_into_slave [OF Suc.prems(4-7), of "peek_out_bit m" False ?p] slave_edge(1) [of "peek_out_bit m" "peer w"] Suc.prems(2)
    by (simp add: edge_counted_def)
  have p: "peer ?w = ?p" "env ?w = env w" "backend_of ?w = (backend_of w)\<lparr>edge_count := edge_count (backend_of w) + 1\<rparr>"
    by (simp_all add: edge_counted_def)
  have m: "bits_remaining ?m = int (Suc n)" "clock ?m = clock m" "clock_target ?m = clock_target m + edge_period m"
    "edge_period ?m = edge_period m" "backend_failed ?m = backend_failed m"
    using Suc.prems(1) by (simp_all add: master_shift_def complete_transfer_def Let_def)
  have s: "bits_remaining ?p = int (Suc n)" "is_slave ?p" "\<not> backend_failed ?p"
    using Suc.prems(2,5,6) slave_edge(4) [of "peer w"] by (simp_all add: slave_edge(3,5))
  have due: "clock_target m \<le> clock m"
  proof -
    have "0 \<le> int (Suc n) * edge_period m" using period_pos [of m] by (intro mult_nonneg_nonneg) simp_all
    with Suc.prems(8) show ?thesis by linarith
  qed
  have "clock_target ?m + int n * edge_period ?m \<le> clock ?m" using Suc.prems(8) by (simp add: m algebra_simps)
  then obtain m' p' where r: "run_edges (on_edge h) ?m ?w = (Ran True, m',
        ?w\<lparr>peer := p', backend_of := (backend_of ?w)\<lparr>edge_count := edge_count (backend_of ?w) + Suc n\<rparr>,
          env := notified (on_peer_transfer_complete h) (env ?w)\<rparr>)"
    and x: "crossed (Suc n) (shift_register ?m) (shift_register ?p) (SB m')" "\<not> transfer_enabled m'"
      "crossed (Suc n) (shift_register ?p) (shift_register ?m) (SB p')" "\<not> transfer_enabled p'"
      "backend_failed m' = backend_failed ?m" "\<not> backend_failed p'"
    using Suc.IH [of ?m ?w] m(1) s Suc.prems(3,4,7) unfolding p by auto
  have run: "run_edges (on_edge h) m w = run_edges (on_edge h) ?m ?w"
    using Suc.prems(1) due by (simp add: run_edges.simps [of "on_edge h" m w] e)
  have "crossed (Suc (Suc n)) (shift_register m) (shift_register (peer w)) (SB m')"
    "crossed (Suc (Suc n)) (shift_register (peer w)) (shift_register m) (SB p')"
    using x(1,3) Suc.prems(3)
      crossed_step [of "Suc n" "shift_register m" "shift_register (peer w)" "bit (shift_register m) 7" "SB m'"]
      crossed_step [of "Suc n" "shift_register (peer w)" "shift_register m" "bit (shift_register (peer w)) 7" "SB p'"]
    by (simp_all add: slave_edge(2) peek_out_bit_def)
  with run r x(2,4,5,6) m(5) show ?case
    by (auto simp: edge_counted_def intro!: exI [of _ m'] exI [of _ p'])
qed

lemma exchange_tick:
  assumes "core_ok m" "is_master m" "\<not> backend_failed m" "bits_remaining m = 8" "last_cycles m < t"
    and "clock_target m + 7 * edge_period m \<le> clock m + (t - last_cycles m)"
    and "active (backend_of w)" "is_slave (peer w)" "\<not> backend_failed (peer w)" "bits_remaining (peer w) = 8"
    and "quiet (on_peer_transfer_complete h)"
  shows "\<exists>m' p'. tick (on_edge h) t m w = (True, m',
        w\<lparr>peer := p', backend_of := (backend_of w)\<lparr>edge_count := edge_count (backend_of w) + 8\<rparr>,
          env := notified (on_peer_transfer_complete h) (env w)\<rparr>)
     \<and> SB m' = shift_register (peer w) \<and> SB p' = shift_register m \<and> \<not> transfer_enabled m' \<and> \<not> transfer_enabled p'
     \<and> \<not> backend_failed m' \<and> \<not> backend_failed p'"
proof -
  let ?m = "moved t (clock m + (t - last_cycles m)) m"
  have run: "transfer_enabled m \<and> internal_clock m" using assms(2) by (simp add: is_master_def)
  have b: "bits_remaining ?m = int (Suc 7)" "bits_remaining (peer w) = int (Suc 7)" "shift_register ?m = shift_register m"
    using assms(4,10) by (simp_all add: moved_def)
  have c: "clock_target ?m + int 7 * edge_period ?m \<le> clock ?m" using assms(6) by simp
  obtain m' p' where r: "run_edges (on_edge h) ?m w = (Ran True, m',
        w\<lparr>peer := p', backend_of := (backend_of w)\<lparr>edge_count := edge_count (backend_of w) + Suc 7\<rparr>,
          env := notified (on_peer_transfer_complete h) (env w)\<rparr>)"
    and x: "crossed (Suc 7) (shift_register ?m) (shift_register (peer w)) (SB m')" "\<not> transfer_enabled m'"
      "crossed (Suc 7) (shift_register (peer w)) (shift_register ?m) (SB p')" "\<not> transfer_enabled p'"
      "backend_failed m' = backend_failed ?m" "\<not> backend_failed p'"
    using exchange_edges [OF b(1,2) _ assms(7-9,11) c] by auto
  have "SB m' = shift_register (peer w)" "SB p' = shift_register m"
    using x(1,3) b(3) crossed_all by auto
  moreover have "tick (on_edge h) t m w = (True, update_countdown m',
        w\<lparr>peer := p', backend_of := (backend_of w)\<lparr>edge_count := edge_count (backend_of w) + 8\<rparr>,
          env := notified (on_peer_transfer_complete h) (env w)\<rparr>)"
    using tick_running [OF assms(3) run, of t "on_edge h" w] assms(5) r by simp
  ultimately show ?thesis using x(2,4,5,6) assms(3) by (auto intro!: exI [of _ "update_countdown m'"] exI [of _ p'])
qed

text \<open>
  C15. An armed pair exchanges its bytes. When one core of the pair is a consistent master and the other a
  slave, both with a fresh byte, and the master holds its active coordinated backend whose completion
  callback does not raise, advancing the master far enough for eight edges completes both transfers: each
  side latches exactly the byte the other had loaded, eight edges are counted and nothing else, and the
  completion callback has run exactly once.
\<close>

theorem pair_exchanges_bytes:
  assumes "slots s x = Coordinated n" "active (objects s n)" "core_ok (cores s x)" "is_master (cores s x)"
    and "is_slave (cores s (other x))" "\<not> backend_failed (cores s x)" "\<not> backend_failed (cores s (other x))"
    and "bits_remaining (cores s x) = 8" "bits_remaining (cores s (other x)) = 8" "quiet (on_peer_transfer_complete (h x))"
    and "0 < cycles" "clock_target (cores s x) + 7 * edge_period (cores s x) \<le> clock (cores s x) + cycles"
  shows "\<exists>s'. advance_master h foreign cycles s = Some (True, s')
     \<and> SB (cores s' x) = shift_register (cores s (other x)) \<and> SB (cores s' (other x)) = shift_register (cores s x)
     \<and> \<not> transfer_enabled (cores s' x) \<and> \<not> transfer_enabled (cores s' (other x))
     \<and> objects s' n = (objects s n)\<lparr>edge_count := edge_count (objects s n) + 8\<rparr>
     \<and> world s' = notified (on_peer_transfer_complete (h x)) (world s) \<and> slots s' = slots s"
proof -
  let ?m = "cores s x" and ?w = "\<lparr>backend_of = objects s n, peer = cores s (other x), env = world s\<rparr>"
  have lone: "filter (\<lambda>x. is_master (cores s x)) [A, B] = [x]"
    using assms(4,5) by (cases x) (simp_all add: is_master_def is_slave_def)
  have far: "clock_target ?m + 7 * edge_period ?m \<le> clock ?m + (last_cycles ?m + cycles - last_cycles ?m)"
    using assms(12) by simp
  have w: "active (backend_of ?w)" "is_slave (peer ?w)" "\<not> backend_failed (peer ?w)" "bits_remaining (peer ?w) = 8"
    using assms(2,5,7,9) by simp_all
  from exchange_tick [OF assms(3,4,6,8) _ far w assms(10)] assms(11) obtain m' p' where
    t: "tick (on_edge (h x)) (last_cycles ?m + cycles) ?m ?w = (True, m',
        ?w\<lparr>peer := p', backend_of := (backend_of ?w)\<lparr>edge_count := edge_count (backend_of ?w) + 8\<rparr>,
          env := notified (on_peer_transfer_complete (h x)) (env ?w)\<rparr>)"
    and r: "SB m' = shift_register (peer ?w)" "SB p' = shift_register ?m" "\<not> transfer_enabled m'" "\<not> transfer_enabled p'"
    by auto
  have d: "other x \<noteq> x" by (cases x) simp_all
  show ?thesis
    using assms(1,11) t r lone d by (simp add: advance_master_def pair_tick_def)
qed

text \<open>The pair of the documented usage: a master holding 0xAA, a slave holding 0x55, both freshly armed and attached.\<close>

definition fresh_pair :: "nat pair" where
  "fresh_pair = \<lparr>cores = (\<lambda>x. case x of A \<Rightarrow> set_SC 0x81 (set_SB 0xAA (new_core False)) | B \<Rightarrow> set_SC 0x80 (set_SB 0x55 (new_core False))),
     slots = (\<lambda>_. NullBackend), previous = (\<lambda>_. NullBackend), handles = (\<lambda>_. None), attached = False,
     objects = (\<lambda>_. new_backend False), next_object = 0, world = 0\<rparr>"

definition linked_pair :: "nat pair" where
  "linked_pair = snd (attach (\<lambda>_. False) (\<lambda>_. False) fresh_pair)"

definition counting_hooks :: "nat hooks" where
  "counting_hooks = \<lparr>on_peer_transfer_complete = Some (\<lambda>e. (False, e + 1)), on_peer_unarmed = None\<rparr>"

lemma loaded_control:
  "write_control 0x81 (set_SB 0xAA (new_core False)) = (new_core False)\<lparr>SB := 0xAA, shift_register := 0xAA, SC := 0xFF,
     transfer_enabled := True, internal_clock := True, transfer_generation := 1\<rparr>"
  "write_control 0x80 (set_SB 0x55 (new_core False)) = (new_core False)\<lparr>SB := 0x55, shift_register := 0x55, SC := 0xFE,
     transfer_enabled := True, transfer_generation := 1\<rparr>"
  by (simp_all add: write_control_def set_SB_def new_core_def unused_bits_def Let_def)

lemma loaded_cores:
  "cores fresh_pair A = (new_core False)\<lparr>SB := 0xAA, shift_register := 0xAA, SC := 0xFF, transfer_enabled := True,
     internal_clock := True, transfer_generation := 1, bits_remaining := 8, clock_target := 512, cycles_to_interrupt := 512\<rparr>"
  "cores fresh_pair B = (new_core False)\<lparr>SB := 0x55, shift_register := 0x55, SC := 0xFE, transfer_enabled := True,
     transfer_generation := 1, bits_remaining := 8\<rparr>"
  by (simp_all add: fresh_pair_def set_SC_def loaded_control)
     (simp_all add: set_SB_def new_core_def arm_def update_countdown_def edge_period_def CYCLES_PER_EDGE_DMG_def)

lemma loaded_ok: "core_reachable (cores fresh_pair x)"
  unfolding fresh_pair_def by (cases x) (simp_all add: wrote_SC wrote_SB created)

lemma linked_simps [simp]:
  "cores linked_pair = cores fresh_pair" "slots linked_pair A = Coordinated 0" "world linked_pair = 0"
  "active (objects linked_pair 0)" "edge_count (objects linked_pair 0) = 0"
  by (simp_all add: linked_pair_def attach_def fresh_pair_def set_slot_def set_active_def new_backend_def Let_def)

theorem pair_exchanges_bytes_witness:
  "\<exists>s'. advance_master (\<lambda>_. counting_hooks) (\<lambda>_. null_backend) 4096 linked_pair = Some (True, s')
     \<and> SB (cores s' A) = 0x55 \<and> SB (cores s' B) = 0xAA \<and> world s' = 1 \<and> edge_count (objects s' 0) = 8"
proof -
  have "core_ok (cores linked_pair A)"
    using core_reachable_ok [OF loaded_ok [of A]] by (simp add: loaded_cores new_core_def)
  moreover have "is_master (cores linked_pair A)" "is_slave (cores linked_pair B)" "bits_remaining (cores linked_pair A) = 8"
    "bits_remaining (cores linked_pair B) = 8" "\<not> backend_failed (cores linked_pair A)" "\<not> backend_failed (cores linked_pair B)"
    "shift_register (cores linked_pair A) = 0xAA" "shift_register (cores linked_pair B) = 0x55"
    "clock_target (cores linked_pair A) + 7 * edge_period (cores linked_pair A) \<le> clock (cores linked_pair A) + 4096"
    by (simp_all add: loaded_cores new_core_def is_master_def is_slave_def edge_period_def CYCLES_PER_EDGE_DMG_def)
  moreover have "quiet (on_peer_transfer_complete counting_hooks)" "notified (on_peer_transfer_complete counting_hooks) 0 = 1"
    by (simp_all add: quiet_def notified_def counting_hooks_def)
  ultimately show ?thesis
    using pair_exchanges_bytes [where s = linked_pair and x = A and n = 0 and h = "\<lambda>_. counting_hooks" and foreign = "\<lambda>_. null_backend" and cycles = 4096]
    by auto
qed

subsection \<open>The counters of an edge\<close>

lemma rearm_loop_attempts:
  "rearm_loop n chance w = (raised, w') \<Longrightarrow>
     \<exists>k \<le> n. backend_of w' = (backend_of w)\<lparr>peer_rearm_attempts := peer_rearm_attempts (backend_of w) + k\<rparr>"
proof (induction n chance w rule: rearm_loop.induct)
  case (1 chance w)
  then show ?case by simp
next
  case (2 n chance w)
  show ?case
  proof (cases "transfer_enabled (peer w)")
    case True
    with 2(2) show ?thesis by (auto intro!: exI [of _ 0])
  next
    case False
    obtain a p e where c: "chance (peer w) (env w) = (a, p, e)" by (metis prod_cases3)
    show ?thesis
    proof (cases "a = Some True")
      case True
      from 2(1) [OF False refl c [symmetric] True refl] 2(2) False c True obtain k where "k \<le> n"
        "backend_of w' = (backend_of w)\<lparr>peer_rearm_attempts := peer_rearm_attempts (backend_of w) + 1 + k\<rparr>"
        by (auto simp: Let_def)
      then show ?thesis by (auto intro!: exI [of _ "Suc k"])
    next
      case stop: False
      with 2(2) False c have "backend_of w' = (backend_of w)\<lparr>peer_rearm_attempts := peer_rearm_attempts (backend_of w) + 1\<rparr>"
        by (cases a) (auto simp: Let_def)
      then show ?thesis by (auto intro!: exI [of _ 1])
    qed
  qed
qed

text \<open>The counters after an edge: at most one of the two pull-up counters moves, by one, and then the bit read is one.\<close>

definition pulled_edges :: "backend_state \<Rightarrow> nat" where
  "pulled_edges b = peer_unarmed_edges b + peer_master_edges b"

lemma prepare_counters:
  assumes "prepare_peer_for_edge h w = (r, w')"
  shows "active (backend_of w') = active (backend_of w) \<and> edge_count (backend_of w') = edge_count (backend_of w)
     \<and> pulled_edges (backend_of w') = pulled_edges (backend_of w)
     \<and> peer_rearm_attempts (backend_of w) \<le> peer_rearm_attempts (backend_of w')
     \<and> peer_rearm_attempts (backend_of w') \<le> peer_rearm_attempts (backend_of w) + REARM_CHANCES
     \<and> (r = Some True \<longrightarrow> is_slave (peer w'))"
proof (cases "active (backend_of w) \<and> \<not> transfer_enabled (peer w) \<and> on_peer_unarmed h \<noteq> None")
  case False
  with assms show ?thesis
    by (auto simp: prepare_peer_for_edge_def is_slave_def split: if_split_asm)
next
  case True
  then obtain chance where ch: "on_peer_unarmed h = Some chance" by blast
  obtain raised v where l: "rearm_loop REARM_CHANCES chance w = (raised, v)" by fastforce
  from rearm_loop_attempts [OF l] obtain k where k: "k \<le> REARM_CHANCES"
    "backend_of v = (backend_of w)\<lparr>peer_rearm_attempts := peer_rearm_attempts (backend_of w) + k\<rparr>" by blast
  with assms True ch l show ?thesis
    by (auto simp: prepare_peer_for_edge_def pulled_edges_def is_slave_def split: if_split_asm bool.split_asm)
qed

lemma exchange_counters:
  assumes "exchange_bit b w = (r, w')"
  shows "(\<exists>u m. backend_of w' = (backend_of w)\<lparr>peer_unarmed_edges := peer_unarmed_edges (backend_of w) + u,
         peer_master_edges := peer_master_edges (backend_of w) + m\<rparr> \<and> u + m \<le> 1 \<and> (u + m = 1 \<longrightarrow> r = Some (True, False)))"
proof -
  consider "\<not> transfer_enabled (peer w)" | "transfer_enabled (peer w)" "internal_clock (peer w)"
    | "transfer_enabled (peer w)" "\<not> internal_clock (peer w)" by blast
  then show ?thesis
  proof cases
    case 1
    with assms show ?thesis by (intro exI [of _ 1] exI [of _ 0]) (auto simp: exchange_bit_def)
  next
    case 2
    with assms show ?thesis by (intro exI [of _ 0] exI [of _ 1]) (auto simp: exchange_bit_def)
  next
    case 3
    with assms have "backend_of w' = backend_of w" by (auto simp: exchange_bit_def split: option.splits)
    then show ?thesis by (auto intro!: exI [of _ 0])
  qed
qed

lemma completion_backend: "invoke_completion callback w = (x, w') \<Longrightarrow> backend_of w' = backend_of w"
  by (auto simp: invoke_completion_def split: option.splits if_split_asm prod.splits)

text \<open>
  Every edge is accounted for. An edge through an active backend counts exactly one edge, whether or not
  the peer could be driven or a callback raised; it counts at most one pulled-up edge, and then the bit it
  reads is one and nothing raised; it makes at most 256 attempts to arm the peer. An inactive backend reads
  one and touches nothing.
\<close>

theorem edge_accounting:
  assumes "on_edge h b w = (r, w')"
  shows "if active (backend_of w)
     then edge_count (backend_of w') = edge_count (backend_of w) + 1 \<and> active (backend_of w')
       \<and> pulled_edges (backend_of w) \<le> pulled_edges (backend_of w')
       \<and> pulled_edges (backend_of w') \<le> pulled_edges (backend_of w) + 1
       \<and> (pulled_edges (backend_of w') = pulled_edges (backend_of w) + 1 \<longrightarrow> r = Some True)
       \<and> peer_rearm_attempts (backend_of w) \<le> peer_rearm_attempts (backend_of w')
       \<and> peer_rearm_attempts (backend_of w') \<le> peer_rearm_attempts (backend_of w) + 256
     else r = Some True \<and> w' = w"
proof (cases "active (backend_of w)")
  case False
  with assms show ?thesis by (simp add: on_edge_def on_edge_locked_def)
next
  case True
  let ?w1 = "count (\<lambda>b. b\<lparr>edge_count := edge_count b + 1\<rparr>) w"
  obtain x v where l: "on_edge_locked h b w = (x, v)" by fastforce
  have same: "backend_of w' = backend_of v"
    using assms l completion_backend by (auto simp: on_edge_def split: option.splits if_split_asm prod.splits)
  have pulled: "r = Some True" if "x = Some (True, False)" using that assms l by (simp add: on_edge_def)
  have p1: "pulled_edges (backend_of ?w1) = pulled_edges (backend_of w)" "active (backend_of ?w1)"
    "edge_count (backend_of ?w1) = edge_count (backend_of w) + 1"
    "peer_rearm_attempts (backend_of ?w1) = peer_rearm_attempts (backend_of w)"
    using True by (simp_all add: pulled_edges_def)
  consider (failing) "prepare_peer_for_edge h ?w1 = (None, v)" "x = None"
    | (prepared) a w2 where "prepare_peer_for_edge h ?w1 = (Some a, w2)" "exchange_bit b w2 = (x, v)"
    | (direct) "exchange_bit b ?w1 = (x, v)"
    using l True by (auto simp: on_edge_locked_def Let_def split: if_split_asm option.splits prod.splits)
  then have "edge_count (backend_of v) = edge_count (backend_of w) + 1 \<and> active (backend_of v)
       \<and> pulled_edges (backend_of w) \<le> pulled_edges (backend_of v)
       \<and> pulled_edges (backend_of v) \<le> pulled_edges (backend_of w) + 1
       \<and> (pulled_edges (backend_of v) = pulled_edges (backend_of w) + 1 \<longrightarrow> x = Some (True, False))
       \<and> peer_rearm_attempts (backend_of w) \<le> peer_rearm_attempts (backend_of v)
       \<and> peer_rearm_attempts (backend_of v) \<le> peer_rearm_attempts (backend_of w) + 256"
  proof cases
    case failing
    from prepare_counters [OF failing(1)] p1 show ?thesis by (simp add: REARM_CHANCES_def)
  next
    case prepared
    from exchange_counters [OF prepared(2)] prepare_counters [OF prepared(1)] p1 show ?thesis
      by (auto simp: REARM_CHANCES_def pulled_edges_def)
  next
    case direct
    from exchange_counters [OF direct] p1 show ?thesis by (auto simp: pulled_edges_def)
  qed
  with True pulled show ?thesis unfolding same by auto
qed

theorem edge_accounting_witness:
  "case on_edge \<lparr>on_peer_transfer_complete = None, on_peer_unarmed = Some (\<lambda>p e. (Some True, p, e))\<rparr> True
       \<lparr>backend_of = new_backend True, peer = new_core False, env = (0 :: nat)\<rparr> of
     (r, w') \<Rightarrow> edge_count (backend_of w') = 1 \<and> peer_rearm_attempts (backend_of w') \<le> 256"
proof -
  obtain r w' where e: "on_edge \<lparr>on_peer_transfer_complete = None, on_peer_unarmed = Some (\<lambda>p e. (Some True, p, e))\<rparr> True
       \<lparr>backend_of = new_backend True, peer = new_core False, env = (0 :: nat)\<rparr> = (r, w')" by fastforce
  from edge_accounting [OF e] show ?thesis unfolding e by (simp add: new_backend_def)
qed

subsection \<open>Attach and detach\<close>

text \<open>No core holds an object that was not made yet, and an attached pair remembers its own two, made after what it replaced.\<close>

definition slot_before :: "nat \<Rightarrow> slot \<Rightarrow> bool" where
  "slot_before n v \<longleftrightarrow> (case v of Coordinated i \<Rightarrow> i < n | _ \<Rightarrow> True)"

definition pair_ok :: "'e pair \<Rightarrow> bool" where
  "pair_ok s \<longleftrightarrow> (\<forall>x. slot_before (next_object s) (slots s x))
     \<and> (attached s \<longrightarrow> (\<exists>i. handles s A = Some i \<and> handles s B = Some (Suc i) \<and> Suc i < next_object s \<and> (\<forall>x. slot_before i (previous s x))))"

lemma both_sides: "(\<forall>x. P x) \<longleftrightarrow> P A \<and> P B"
  by (metis side.exhaust)

lemma slot_before_mono: "slot_before m v \<Longrightarrow> m \<le> n \<Longrightarrow> slot_before n v"
  by (auto simp: slot_before_def split: slot.splits)

lemma slot_before_other: "slot_before i v \<Longrightarrow> i \<le> j \<Longrightarrow> v \<noteq> Coordinated j"
  by (auto simp: slot_before_def)

lemma attach_ok:
  assumes "pair_ok s" "attach assign undo s = (r, s')"
  shows "pair_ok s'"
proof (cases "attached s")
  case True
  with assms show ?thesis by (simp add: attach_def)
next
  case False
  have "slot_before (Suc (Suc (next_object s))) (slots s x)" for x
    using assms(1) slot_before_mono [of "next_object s"] by (simp add: pair_ok_def)
  moreover have "slot_before (Suc (Suc k)) (Coordinated k)" "slot_before (Suc (Suc k)) (Coordinated (Suc k))" for k
    by (simp_all add: slot_before_def)
  ultimately show ?thesis
    using assms False
    by (auto simp: attach_def pair_ok_def both_sides roll_back_def set_slot_def set_active_def Let_def split: if_split_asm)
qed

lemma detach_ok:
  assumes "pair_ok s" "detach drained raises s = (r, s')"
  shows "pair_ok s'"
proof (cases "attached s")
  case True
  with assms(1) obtain i where h: "handles s A = Some i" "handles s B = Some (Suc i)" "Suc i < next_object s"
    "\<forall>x. slot_before i (previous s x)" by (auto simp: pair_ok_def)
  then have "slot_before (next_object s) (previous s x)" for x
    using slot_before_mono [of i "previous s x" "next_object s"] by simp
  with assms True h show ?thesis
    by (auto simp: detach_def deactivate_handle_def restore_def pair_ok_def both_sides set_slot_def set_active_def Let_def
        split: if_split_asm)
next
  case False
  with assms show ?thesis by (simp add: detach_def)
qed

text \<open>
  Detaching undoes attaching. After an attach in which nothing raised, and whatever was done to the
  pair since that left the coordinator's own records alone, a detach puts back on each core exactly the
  backend it held before - unless another owner has replaced the coordinator's object meanwhile, which then
  stays - and both coordinated backends are inactive from then on.
\<close>

theorem detach_restores:
  assumes "pair_ok s" "\<not> attached s" "attach (\<lambda>_. False) undo s = (r1, s1)"
    and "attached s2 = attached s1" "handles s2 = handles s1" "previous s2 = previous s1"
    and "detach True (\<lambda>_. False) s2 = (r2, s3)"
  shows "\<not> r1 \<and> attached s1 \<and> \<not> r2 \<and> \<not> attached s3
     \<and> slots s3 x = (if slots s2 x = slots s1 x then slots s x else slots s2 x)
     \<and> (\<forall>n. slots s1 x = Coordinated n \<longrightarrow> \<not> active (objects s3 n) \<and> active (objects s1 n))"
proof -
  have a: "\<not> r1" "attached s1" "previous s1 = slots s" "handles s1 A = Some (next_object s)"
    "handles s1 B = Some (Suc (next_object s))" "slots s1 A = Coordinated (next_object s)"
    "slots s1 B = Coordinated (Suc (next_object s))" "active (objects s1 (next_object s))" "active (objects s1 (Suc (next_object s)))"
    using assms(2,3) by (auto simp: attach_def set_slot_def set_active_def Let_def)
  have d: "\<not> r2" "\<not> attached s3"
    "slots s3 A = (if slots s2 A = slots s1 A then slots s A else slots s2 A)"
    "slots s3 B = (if slots s2 B = slots s1 B then slots s B else slots s2 B)"
    "\<not> active (objects s3 (next_object s))" "\<not> active (objects s3 (Suc (next_object s)))"
    using assms(4-7) a
    by (auto simp: detach_def deactivate_handle_def restore_def set_slot_def set_active_def Let_def split: if_split_asm)
  show ?thesis using a d by (cases x) auto
qed

theorem detach_restores_witness:
  "case detach True (\<lambda>_. False) (set_slot B (Foreign 7) linked_pair) of
     (r, s3) \<Rightarrow> \<not> r \<and> slots s3 A = NullBackend \<and> slots s3 B = Foreign 7"
proof -
  have ok: "pair_ok fresh_pair" "\<not> attached fresh_pair" by (simp_all add: pair_ok_def fresh_pair_def slot_before_def)
  obtain r1 s1 where a: "attach (\<lambda>_. False) (\<lambda>_. False) fresh_pair = (r1, s1)" by fastforce
  then have s1: "linked_pair = s1" by (simp add: linked_pair_def)
  have b: "slots s1 B = Coordinated 1"
    using a by (auto simp: attach_def fresh_pair_def set_slot_def set_active_def Let_def)
  obtain r2 s3 where d: "detach True (\<lambda>_. False) (set_slot B (Foreign 7) linked_pair) = (r2, s3)" by fastforce
  have f: "slots fresh_pair A = NullBackend" by (simp add: fresh_pair_def)
  from detach_restores [OF ok a _ _ _ d, of A] detach_restores [OF ok a _ _ _ d, of B] b f show ?thesis
    unfolding d by (simp add: set_slot_def s1)
qed

text \<open>
  A failed attach leaves no half-made pair. When an assignment raises during attach and the roll-back
  does not, attach raises, both cores hold what they held before and the pair is not attached.
\<close>

theorem attach_rolls_back:
  assumes "pair_ok s" "\<not> attached s" "assign A \<or> assign B" "attach assign (\<lambda>_. False) s = (r, s1)"
  shows "r \<and> slots s1 = slots s \<and> \<not> attached s1 \<and> pair_ok s1"
proof -
  have "slots s A \<noteq> Coordinated (next_object s)" "slots s B \<noteq> Coordinated (next_object s)"
    "slots s B \<noteq> Coordinated (Suc (next_object s))"
    using assms(1) slot_before_other [of "next_object s"] by (auto simp: pair_ok_def)
  with assms(2-4) have "r \<and> slots s1 = slots s \<and> \<not> attached s1"
    by (auto simp: attach_def roll_back_def set_slot_def set_active_def Let_def fun_upd_idem split: if_split_asm)
  with attach_ok [OF assms(1,4)] show ?thesis by blast
qed

theorem attach_rolls_back_witness:
  "case attach (\<lambda>x. x = B) (\<lambda>_. False) fresh_pair of (r, s1) \<Rightarrow> r \<and> slots s1 = (\<lambda>_. NullBackend)"
proof -
  have ok: "pair_ok fresh_pair" "\<not> attached fresh_pair" by (simp_all add: pair_ok_def fresh_pair_def slot_before_def)
  obtain r s1 where a: "attach (\<lambda>x. x = B) (\<lambda>_. False) fresh_pair = (r, s1)" by fastforce
  from attach_rolls_back [OF ok _ a] show ?thesis unfolding a by (simp add: fresh_pair_def)
qed

text \<open>
  A failed detach can be retried. When a detach fails - a callback did not drain in time, or an
  assignment raised - the pair stays attached with both backends inactive, and a later clean detach ends in
  the same state as if it had been the first.
\<close>

theorem detach_retries:
  assumes "pair_ok s" "detach drained raises s = (True, s1)"
  shows "attached s1 \<and> (\<forall>x n. \<not> (handles s1 x = Some n \<and> active (objects s1 n)))
     \<and> detach True (\<lambda>_. False) s1 = detach True (\<lambda>_. False) s"
proof -
  have att: "attached s" using assms(2) by (auto simp: detach_def split: if_split_asm)
  with assms(1) obtain i where h: "handles s A = Some i" "handles s B = Some (Suc i)" "\<forall>x. slot_before i (previous s x)"
    by (auto simp: pair_ok_def)
  then have "previous s A \<noteq> Coordinated i" "previous s B \<noteq> Coordinated (Suc i)"
    using slot_before_other [of i] by auto
  with assms(2) att h show ?thesis
    by (auto simp: detach_def deactivate_handle_def restore_def set_slot_def set_active_def Let_def both_sides
        fun_upd_twist [where a = A and c = B] split: if_split_asm)
qed

theorem detach_retries_witness:
  "case detach True (\<lambda>x. x = A) linked_pair of (r, s1) \<Rightarrow> attached s1
     \<and> detach True (\<lambda>_. False) s1 = detach True (\<lambda>_. False) linked_pair"
proof -
  have "pair_ok fresh_pair" by (simp add: pair_ok_def fresh_pair_def slot_before_def)
  then have ok: "pair_ok linked_pair"
    using attach_ok [of fresh_pair "\<lambda>_. False" "\<lambda>_. False"] unfolding linked_pair_def by (metis prod.collapse)
  obtain r s1 where d: "detach True (\<lambda>x. x = A) linked_pair = (r, s1)" by fastforce
  have r
    using d by (auto simp: linked_pair_def attach_def fresh_pair_def detach_def deactivate_handle_def restore_def set_slot_def
        set_active_def Let_def)
  with d have d': "detach True (\<lambda>x. x = A) linked_pair = (True, s1)" by simp
  from detach_retries [OF ok d'] show ?thesis unfolding d' by simp
qed

end
