(* ===== verification/Link_Framing.thy ===== *)
theory Link_Framing
  imports Prelude
begin

text \<open>
  The wire format of the peer-to-peer serial link (\<open>link/_serial_link_support.py\<close>): errors, argument
  validation, length-prefixed strings and byte strings, and reading one frame off a socket. A Python
  string is the list of its code points; a message keeps the constant part of the text the code raises.
\<close>

type_synonym chars = "nat list"

datatype link_error =
    SerialLinkError string
  | SerialLinkClosed string
  | SerialLinkTimeout string
  | SerialLinkProtocolError string
  | LinkValueError string
  | LinkTypeError string

text \<open>An argument of the expected type, or of another one.\<close>

datatype 'a arg = Arg 'a | WrongType

definition MAX_FRAME_SIZE :: nat where "MAX_FRAME_SIZE = 2 ^ 20"
definition MAX_EXCHANGE_PAYLOAD_SIZE :: nat where "MAX_EXCHANGE_PAYLOAD_SIZE = 0xFFFF"
definition MAX_INBOUND_KINDS :: nat where "MAX_INBOUND_KINDS = 256"
definition MAX_INBOUND_FRAMES_PER_KIND :: nat where "MAX_INBOUND_FRAMES_PER_KIND = 32"
definition MAX_INBOUND_FRAMES :: nat where "MAX_INBOUND_FRAMES = 256"
definition MAX_INBOUND_BYTES :: nat where "MAX_INBOUND_BYTES = 4 * 1024 * 1024"

definition codes :: "string \<Rightarrow> chars" where
  "codes s = map of_char s"

subsection \<open>ROM versions and exchange kinds\<close>

text \<open>
  \<open>str.strip\<close> removes the code points for which \<open>str.isspace\<close> holds; \<open>str.lower\<close> matters here on ASCII
  only, since no other code point has a lower case made of the letters of a ROM version.
\<close>

definition is_space :: "nat \<Rightarrow> bool" where
  "is_space c \<longleftrightarrow> 9 \<le> c \<and> c \<le> 13 \<or> 28 \<le> c \<and> c \<le> 32 \<or> c \<in> set [0x85, 0xA0, 0x1680] \<or> 0x2000 \<le> c \<and> c \<le> 0x200A
     \<or> c \<in> set [0x2028, 0x2029, 0x202F, 0x205F, 0x3000]"

definition strip :: "chars \<Rightarrow> chars" where
  "strip s = rev (dropWhile is_space (rev (dropWhile is_space s)))"

definition lower :: "nat \<Rightarrow> nat" where
  "lower c = (if 65 \<le> c \<and> c \<le> 90 then c + 32 else c)"

definition SUPPORTED_ROM_VERSIONS :: "chars list" where
  "SUPPORTED_ROM_VERSIONS = map codes [''red'', ''blue'', ''yellow'']"

definition validate_rom_version :: "chars arg \<Rightarrow> link_error + chars" where
  "validate_rom_version version =
     (case version of
        WrongType \<Rightarrow> Inl (LinkTypeError ''ROM version must be a string'')
      | Arg s \<Rightarrow> let normalized = map lower (strip s)
                 in if normalized \<in> set SUPPORTED_ROM_VERSIONS then Inr normalized
                    else Inl (LinkValueError ''unsupported ROM version''))"

definition validate_exchange_kind :: "chars arg \<Rightarrow> link_error + chars" where
  "validate_exchange_kind kind =
     (case kind of
        WrongType \<Rightarrow> Inl (LinkTypeError ''exchange kind must be a string'')
      | Arg s \<Rightarrow> if s = [] then Inl (LinkValueError ''exchange kind must not be empty'')
                 else if \<not> list_all (\<lambda>c. c < 128) s then Inl (LinkValueError ''exchange kind must contain ASCII characters only'')
                 else if length s > 0xFF then Inl (LinkValueError ''exchange kind is too long for the wire protocol'')
                 else Inr s)"

definition coerce_exchange_payload :: "byte list arg \<Rightarrow> link_error + byte list" where
  "coerce_exchange_payload payload =
     (case payload of
        WrongType \<Rightarrow> Inl (LinkTypeError ''exchange payload must be bytes-like'')
      | Arg b \<Rightarrow> if length b > MAX_EXCHANGE_PAYLOAD_SIZE then Inl (LinkValueError ''exchange payload is too long for the wire protocol'')
                 else Inr b)"

definition validate_timeout_ms :: "int arg \<Rightarrow> link_error + int" where
  "validate_timeout_ms timeout_ms =
     (case timeout_ms of
        WrongType \<Rightarrow> Inl (LinkTypeError ''timeout_ms must be a positive integer'')
      | Arg n \<Rightarrow> if n \<le> 0 then Inl (LinkValueError ''timeout_ms must be a positive integer'') else Inr n)"

definition validate_port :: "bool \<Rightarrow> int arg \<Rightarrow> link_error + int" where
  "validate_port allow_zero port =
     (case port of
        WrongType \<Rightarrow> Inl (LinkTypeError ''port must be an integer'')
      | Arg n \<Rightarrow> if (if allow_zero then 0 else 1) \<le> n \<and> n \<le> 0xFFFF then Inr n
                 else Inl (LinkValueError (if allow_zero then ''port must be in the range 0..65535''
                                           else ''port must be in the range 1..65535'')))"

subsection \<open>UTF-8\<close>

definition surrogate :: "nat \<Rightarrow> bool" where
  "surrogate c \<longleftrightarrow> 0xD800 \<le> c \<and> c < 0xE000"

definition utf8_units :: "nat \<Rightarrow> nat list" where
  "utf8_units c =
     (if c < 0x80 then [c]
      else if c < 0x800 then [0xC0 + c div 64, 0x80 + c mod 64]
      else if c < 0x10000 then [0xE0 + c div 4096, 0x80 + c div 64 mod 64, 0x80 + c mod 64]
      else [0xF0 + c div 262144, 0x80 + c div 4096 mod 64, 0x80 + c div 64 mod 64, 0x80 + c mod 64])"

definition continues :: "nat \<Rightarrow> bool" where
  "continues b \<longleftrightarrow> 0x80 \<le> b \<and> b < 0xC0"

text \<open>The strict decoder: no overlong form, no surrogate, nothing above the last code point.\<close>

fun utf8_chars :: "nat list \<Rightarrow> chars option" where
  "utf8_chars [] = Some []"
| "utf8_chars (a # as) =
     (if a < 0x80 then map_option ((#) a) (utf8_chars as)
      else if 0xC2 \<le> a \<and> a < 0xE0
      then (case as of
              b # r \<Rightarrow> if continues b then map_option ((#) ((a - 0xC0) * 64 + (b - 0x80))) (utf8_chars r) else None
            | _ \<Rightarrow> None)
      else if 0xE0 \<le> a \<and> a < 0xF0
      then (case as of
              b # c # r \<Rightarrow>
                (let ch = (a - 0xE0) * 4096 + (b - 0x80) * 64 + (c - 0x80)
                 in if continues b \<and> continues c \<and> 0x800 \<le> ch \<and> \<not> surrogate ch
                    then map_option ((#) ch) (utf8_chars r) else None)
            | _ \<Rightarrow> None)
      else if 0xF0 \<le> a \<and> a < 0xF5
      then (case as of
              b # c # d # r \<Rightarrow>
                (let ch = (a - 0xF0) * 262144 + (b - 0x80) * 4096 + (c - 0x80) * 64 + (d - 0x80)
                 in if continues b \<and> continues c \<and> continues d \<and> 0x10000 \<le> ch \<and> ch < 0x110000
                    then map_option ((#) ch) (utf8_chars r) else None)
            | _ \<Rightarrow> None)
      else None)"

definition encodable :: "nat \<Rightarrow> bool" where
  "encodable c \<longleftrightarrow> c < 0x110000 \<and> \<not> surrogate c"

definition utf8_encode :: "chars \<Rightarrow> (byte list) option" where
  "utf8_encode s = (if list_all encodable s then Some (map word_of_nat (concat (map utf8_units s))) else None)"

definition utf8_decode :: "byte list \<Rightarrow> chars option" where
  "utf8_decode bs = utf8_chars (map unat bs)"

subsection \<open>Length prefixes\<close>

definition pack_lp_str :: "chars arg \<Rightarrow> link_error + byte list" where
  "pack_lp_str s =
     (case s of
        WrongType \<Rightarrow> Inl (LinkTypeError ''length-prefixed value must be a string'')
      | Arg cs \<Rightarrow> (case utf8_encode cs of
            None \<Rightarrow> Inl (LinkValueError ''surrogates not allowed'')
          | Some enc \<Rightarrow> if length enc > 0xFF then Inl (LinkValueError ''string too long for length-prefix'')
                        else Inr (word_of_nat (length enc) # enc)))"

definition pack_lp_bytes :: "byte list arg \<Rightarrow> link_error + byte list" where
  "pack_lp_bytes b =
     (case b of
        WrongType \<Rightarrow> Inl (LinkTypeError ''length-prefixed value must be bytes-like'')
      | Arg bs \<Rightarrow> if length bs > MAX_EXCHANGE_PAYLOAD_SIZE then Inl (LinkValueError ''blob too long for length-prefix'')
                  else Inr (be_bytes 2 (int (length bs)) @ bs))"

definition read_lp_str :: "byte list \<Rightarrow> nat \<Rightarrow> link_error + chars \<times> nat" where
  "read_lp_str data offset =
     (if offset \<ge> length data then Inl (SerialLinkProtocolError ''length-prefixed string is missing'')
      else let n = unat (data ! offset); start = offset + 1; stop = start + n
           in if stop > length data then Inl (SerialLinkProtocolError ''length-prefixed string is truncated'')
              else case utf8_decode (take n (drop start data)) of
                     None \<Rightarrow> Inl (SerialLinkProtocolError ''length-prefixed string is not UTF-8'')
                   | Some s \<Rightarrow> Inr (s, stop))"

definition read_lp_bytes :: "byte list \<Rightarrow> nat \<Rightarrow> link_error + byte list \<times> nat" where
  "read_lp_bytes data offset =
     (if offset + 2 > length data then Inl (SerialLinkProtocolError ''length-prefixed bytes are missing'')
      else let n = nat (be_int (take 2 (drop offset data))); start = offset + 2; stop = start + n
           in if stop > length data then Inl (SerialLinkProtocolError ''length-prefixed bytes are truncated'')
              else Inr (take n (drop start data), stop))"

subsection \<open>Reading a frame\<close>

text \<open>
  What a socket will deliver: bytes, and then the peer closes, the connection breaks, or nothing more comes.
  How the bytes are cut into chunks does not reach the caller of \<open>_read_exactly\<close>. A read that has a
  deadline gives up on silence, one that has none blocks.
\<close>

datatype silence = PeerCloses | Breaks | Silent

record stream =
  arriving :: "byte list"
  afterwards :: silence

datatype 'a read = Got 'a stream | Raises link_error | Blocks

definition read_exactly :: "nat \<Rightarrow> bool \<Rightarrow> bool \<Rightarrow> stream \<Rightarrow> byte list read" where
  "read_exactly n has_deadline allow_clean_eof s =
     (if n \<le> length (arriving s) then Got (take n (arriving s)) (s\<lparr>arriving := drop n (arriving s)\<rparr>)
      else case afterwards s of
             PeerCloses \<Rightarrow> if arriving s = [] \<and> allow_clean_eof then Raises (SerialLinkClosed ''peer closed socket'')
                           else Raises (SerialLinkProtocolError ''peer closed socket mid-frame'')
           | Breaks \<Rightarrow> Raises (SerialLinkClosed ''socket closed while reading'')
           | Silent \<Rightarrow> if has_deadline then Raises (SerialLinkProtocolError ''frame read deadline exceeded'') else Blocks)"

fun read_bind :: "'a read \<Rightarrow> ('a \<Rightarrow> stream \<Rightarrow> 'b read) \<Rightarrow> 'b read" where
  "read_bind (Got x s) f = f x s"
| "read_bind (Raises e) f = Raises e"
| "read_bind Blocks f = Blocks"

definition read_frame :: "stream \<Rightarrow> byte list read" where
  "read_frame s =
     read_bind (read_exactly 1 False True s) (\<lambda>first s1.
     read_bind (read_exactly 3 True False s1) (\<lambda>header s2.
       let size = nat (be_int (first @ header))
       in if size = 0 then Raises (SerialLinkProtocolError ''zero-length frame'')
          else if size > MAX_FRAME_SIZE then Raises (SerialLinkProtocolError ''frame too large'')
          else read_exactly size True False s2))"

text \<open>The bytes that go out for a payload.\<close>

definition frame_bytes :: "byte list \<Rightarrow> link_error + byte list" where
  "frame_bytes payload =
     (if payload = [] then Inl (LinkValueError ''frame payload must not be empty'')
      else if length payload > MAX_FRAME_SIZE then Inl (LinkValueError ''frame too large'')
      else Inr (be_bytes 4 (int (length payload)) @ payload))"

end
