(* ===== verification/Link_Store.thy ===== *)
theory Link_Store
  imports Link_Framing
begin

text \<open>
  The inbound side of a serial link (\<open>link/serial_link.py\<close>): one queue per exchange kind, made on
  first use, with the counts of all queued frames and bytes beside them. The TCP link and each direction
  of the in-process cable keep one; \<open>delivery_queue\<close> states what the exchanges need of it.
\<close>

record store =
  queues :: "(chars \<times> byte list list) list"
  frame_count :: nat
  byte_count :: nat

definition empty_store :: store where
  "empty_store = \<lparr>queues = [], frame_count = 0, byte_count = 0\<rparr>"

definition queue_of :: "store \<Rightarrow> chars \<Rightarrow> byte list list" where
  "queue_of s k = (case map_of (queues s) k of None \<Rightarrow> [] | Some q \<Rightarrow> q)"

definition set_queue :: "chars \<Rightarrow> byte list list \<Rightarrow> store \<Rightarrow> store" where
  "set_queue k q s = s\<lparr>queues := AList.update k q (queues s)\<rparr>"

text \<open>The queue of a kind exists afterwards; on the TCP link at most 256 kinds may.\<close>

definition open_queue :: "bool \<Rightarrow> chars \<Rightarrow> store \<Rightarrow> link_error + store" where
  "open_queue limited k s =
     (if k \<in> fst ` set (queues s) then Inr s
      else if limited \<and> length (queues s) \<ge> MAX_INBOUND_KINDS
      then Inl (SerialLinkProtocolError ''inbound EXCHANGE kind limit exceeded'')
      else Inr (set_queue k [] s))"

definition put_problem :: "chars \<Rightarrow> byte list \<Rightarrow> store \<Rightarrow> link_error option" where
  "put_problem k p s =
     (if frame_count s \<ge> MAX_INBOUND_FRAMES then Some (SerialLinkProtocolError ''inbound EXCHANGE frame limit exceeded'')
      else if byte_count s + length p > MAX_INBOUND_BYTES then Some (SerialLinkProtocolError ''inbound EXCHANGE byte limit exceeded'')
      else if length (queue_of s k) \<ge> MAX_INBOUND_FRAMES_PER_KIND then Some (SerialLinkProtocolError ''inbound EXCHANGE queue is full'')
      else None)"

definition put_frame :: "chars \<Rightarrow> byte list \<Rightarrow> store \<Rightarrow> link_error + store" where
  "put_frame k p s =
     (case put_problem k p s of
        Some e \<Rightarrow> Inl e
      | None \<Rightarrow> Inr ((set_queue k (queue_of s k @ [p]) s)\<lparr>frame_count := frame_count s + 1, byte_count := byte_count s + length p\<rparr>))"

definition get_frame :: "chars \<Rightarrow> store \<Rightarrow> (byte list \<times> store) option" where
  "get_frame k s =
     (case queue_of s k of
        [] \<Rightarrow> None
      | p # q \<Rightarrow> Some (p, (set_queue k q s)\<lparr>frame_count := frame_count s - 1, byte_count := byte_count s - length p\<rparr>))"

text \<open>The queues stay, empty; the counts start over.\<close>

definition drain :: "store \<Rightarrow> store" where
  "drain s = \<lparr>queues = map (\<lambda>(k, _). (k, [])) (queues s), frame_count = 0, byte_count = 0\<rparr>"

subsection \<open>The invariant\<close>

definition queued :: "store \<Rightarrow> byte list list" where
  "queued s = concat (map snd (queues s))"

definition store_ok :: "store \<Rightarrow> bool" where
  "store_ok s \<longleftrightarrow> distinct (map fst (queues s))
     \<and> frame_count s = length (queued s) \<and> byte_count s = sum_list (map length (queued s))
     \<and> frame_count s \<le> MAX_INBOUND_FRAMES \<and> byte_count s \<le> MAX_INBOUND_BYTES
     \<and> (\<forall>(k, q) \<in> set (queues s). length q \<le> MAX_INBOUND_FRAMES_PER_KIND)"

lemma update_measure:
  fixes f :: "byte list \<Rightarrow> nat"
  assumes "distinct (map fst qs)"
  shows "sum_list (map f (concat (map snd (AList.update k q qs)))) + sum_list (map f (case map_of qs k of None \<Rightarrow> [] | Some q0 \<Rightarrow> q0))
       = sum_list (map f (concat (map snd qs))) + sum_list (map f q)"
  using assms
proof (induction qs)
  case Nil
  show ?case by simp
next
  case (Cons kq qs)
  obtain k' q' where kq: "kq = (k', q')" by fastforce
  show ?case
  proof (cases "k' = k")
    case True
    with kq show ?thesis by simp
  next
    case False
    with Cons kq show ?thesis by simp
  qed
qed

lemma set_queue_simps [simp]:
  "queue_of (set_queue k q s) k' = (if k' = k then q else queue_of s k')"
  "frame_count (set_queue k q s) = frame_count s" "byte_count (set_queue k q s) = byte_count s"
  by (simp_all add: set_queue_def queue_of_def update_conv')

lemma queue_of_updates [simp]:
  "queue_of (s\<lparr>frame_count := n\<rparr>) k = queue_of s k" "queue_of (s\<lparr>byte_count := n\<rparr>) k = queue_of s k"
  by (simp_all add: queue_of_def)

lemma set_queue_measure:
  assumes "distinct (map fst (queues s))"
  shows "length (queued (set_queue k q s)) + length (queue_of s k) = length (queued s) + length q"
    "sum_list (map length (queued (set_queue k q s))) + sum_list (map length (queue_of s k))
       = sum_list (map length (queued s)) + sum_list (map length q)"
  using update_measure [OF assms, of "\<lambda>_. 1" k q] update_measure [OF assms, of length k q]
  by (simp_all add: queued_def set_queue_def queue_of_def sum_list_triv split: option.splits)

lemma set_queue_all:
  assumes "\<forall>(k, q) \<in> set (queues s). P q" "P q"
  shows "\<forall>(k, q) \<in> set (queues (set_queue k q s)). P q"
proof -
  have "\<forall>(k, q) \<in> set (AList.update k q qs). P q" if "\<forall>(k, q) \<in> set qs. P q" for qs
    using that assms(2) by (induction qs) auto
  with assms(1) show ?thesis by (simp add: set_queue_def)
qed

lemma set_queue_distinct: "distinct (map fst (queues s)) \<Longrightarrow> distinct (map fst (queues (set_queue k q s)))"
  by (simp add: set_queue_def distinct_update)

lemma queued_updates [simp]:
  "queued (s\<lparr>frame_count := n\<rparr>) = queued s" "queued (s\<lparr>byte_count := n\<rparr>) = queued s"
  by (simp_all add: queued_def)

lemma empty_store_ok [simp]: "store_ok empty_store"
  by (simp add: store_ok_def empty_store_def queued_def)

lemma queue_length:
  assumes "store_ok s"
  shows "length (queue_of s k) \<le> MAX_INBOUND_FRAMES_PER_KIND"
proof (cases "map_of (queues s) k")
  case (Some q)
  then have "(k, q) \<in> set (queues s)" by (rule map_of_SomeD)
  with assms Some show ?thesis by (auto simp: store_ok_def queue_of_def)
qed (simp add: queue_of_def)

lemma open_queue_ok:
  assumes "store_ok s" "open_queue limited k s = Inr s'"
  shows "store_ok s'" "queue_of s' = queue_of s" "frame_count s' = frame_count s" "byte_count s' = byte_count s"
    "length (queues s') \<le> max (length (queues s)) (if limited then MAX_INBOUND_KINDS else Suc (length (queues s)))"
    "k \<in> fst ` set (queues s')"
proof -
  have len: "length (AList.update k q qs) \<le> Suc (length qs)" for q and qs :: "(chars \<times> byte list list) list"
    by (induction qs) simp_all
  have none: "queue_of s k = []" if "k \<notin> fst ` set (queues s)"
  proof -
    from that have "map_of (queues s) k = None" by (simp add: map_of_eq_None_iff)
    then show ?thesis by (simp add: queue_of_def)
  qed
  have "store_ok s' \<and> queue_of s' = queue_of s \<and> frame_count s' = frame_count s \<and> byte_count s' = byte_count s
      \<and> length (queues s') \<le> max (length (queues s)) (if limited then MAX_INBOUND_KINDS else Suc (length (queues s)))
      \<and> k \<in> fst ` set (queues s')"
  proof (cases "k \<in> fst ` set (queues s)")
    case True
    with assms show ?thesis by (simp add: open_queue_def)
  next
    case False
    with assms(2) have s': "s' = set_queue k [] s" and l: "limited \<Longrightarrow> length (queues s) < MAX_INBOUND_KINDS"
      by (auto simp: open_queue_def split: if_split_asm)
    have "store_ok s'"
      using assms(1) none [OF False] set_queue_measure [of s k "[]"] set_queue_distinct [of s k "[]"]
        set_queue_all [of s "\<lambda>q. length q \<le> MAX_INBOUND_FRAMES_PER_KIND" "[]" k]
      by (simp add: store_ok_def s')
    moreover have "queue_of s' = queue_of s" using none [OF False] by (auto simp: s')
    moreover have "length (queues s') \<le> Suc (length (queues s))" using len by (simp add: s' set_queue_def)
    moreover have "k \<in> fst ` set (queues s')" by (simp add: s' set_queue_def dom_update)
    ultimately show ?thesis using l by (auto simp: s')
  qed
  then show "store_ok s'" "queue_of s' = queue_of s" "frame_count s' = frame_count s" "byte_count s' = byte_count s"
    "length (queues s') \<le> max (length (queues s)) (if limited then MAX_INBOUND_KINDS else Suc (length (queues s)))"
    "k \<in> fst ` set (queues s')" by blast+
qed

lemma put_frame_ok:
  assumes "store_ok s" "put_frame k p s = Inr s'"
  shows "store_ok s'" "queue_of s' = (queue_of s)(k := queue_of s k @ [p])"
    "frame_count s' = frame_count s + 1" "byte_count s' = byte_count s + length p"
proof -
  have n: "put_problem k p s = None" and s': "s' = (set_queue k (queue_of s k @ [p]) s)\<lparr>frame_count := frame_count s + 1, byte_count := byte_count s + length p\<rparr>"
    using assms(2) by (auto simp: put_frame_def split: option.splits)
  then have l: "frame_count s < MAX_INBOUND_FRAMES" "byte_count s + length p \<le> MAX_INBOUND_BYTES"
    "length (queue_of s k) < MAX_INBOUND_FRAMES_PER_KIND"
    by (auto simp: put_problem_def split: if_split_asm)
  have q: "queues s' = queues (set_queue k (queue_of s k @ [p]) s)" "queued s' = queued (set_queue k (queue_of s k @ [p]) s)"
    by (simp_all add: s' queued_def)
  show "store_ok s'"
    using assms(1) l set_queue_measure [of s k "queue_of s k @ [p]"] set_queue_distinct [of s k "queue_of s k @ [p]"]
      set_queue_all [of s "\<lambda>q. length q \<le> MAX_INBOUND_FRAMES_PER_KIND" "queue_of s k @ [p]" k]
    by (simp add: store_ok_def q) (simp add: s')
  show "queue_of s' = (queue_of s)(k := queue_of s k @ [p])" by (auto simp: s')
  show "frame_count s' = frame_count s + 1" "byte_count s' = byte_count s + length p" by (simp_all add: s')
qed

lemma get_frame_ok:
  assumes "store_ok s" "get_frame k s = Some (p, s')"
  shows "store_ok s'" "queue_of s k = p # queue_of s' k" "k' \<noteq> k \<Longrightarrow> queue_of s' k' = queue_of s k'"
    "frame_count s = frame_count s' + 1" "byte_count s = byte_count s' + length p"
proof -
  obtain q where h: "queue_of s k = p # q"
    and s': "s' = (set_queue k q s)\<lparr>frame_count := frame_count s - 1, byte_count := byte_count s - length p\<rparr>"
    using assms(2) by (auto simp: get_frame_def split: list.splits)
  have q: "queues s' = queues (set_queue k q s)" "queued s' = queued (set_queue k q s)"
    by (simp_all add: s' queued_def)
  note m = set_queue_measure [of s k q]
  have "length q \<le> MAX_INBOUND_FRAMES_PER_KIND" using queue_length [OF assms(1), of k] h by simp
  with assms(1) m set_queue_distinct [of s k q] h
    set_queue_all [of s "\<lambda>q. length q \<le> MAX_INBOUND_FRAMES_PER_KIND" q k]
  have "length (queued s') = length (queued s) - 1" "sum_list (map length (queued s')) = sum_list (map length (queued s)) - length p"
    "distinct (map fst (queues s'))" "\<forall>(k, q) \<in> set (queues s'). length q \<le> MAX_INBOUND_FRAMES_PER_KIND"
    by (simp_all add: store_ok_def q)
  moreover have "frame_count s' = frame_count s - 1" "byte_count s' = byte_count s - length p" by (simp_all add: s')
  ultimately show "store_ok s'" using assms(1) unfolding store_ok_def by auto
  show "queue_of s k = p # queue_of s' k" "k' \<noteq> k \<Longrightarrow> queue_of s' k' = queue_of s k'" by (simp_all add: h s')
  show "frame_count s = frame_count s' + 1" "byte_count s = byte_count s' + length p"
    using assms(1) m h by (simp_all add: store_ok_def s')
qed

lemma get_frame_none: "get_frame k s = None \<longleftrightarrow> queue_of s k = []"
  by (simp add: get_frame_def split: list.splits)

lemma drain_ok: "store_ok s \<Longrightarrow> store_ok (drain s)" "queue_of (drain s) k = []" "length (queues (drain s)) = length (queues s)"
proof -
  let ?e = "\<lambda>(k, _). (k, [])"
  have e: "map fst (map ?e qs) = map fst qs" "concat (map snd (map ?e qs)) = []" "\<forall>(k, q) \<in> set (map ?e qs). length q \<le> n"
    for qs :: "(chars \<times> byte list list) list" and n by (induction qs) auto
  have q: "queues (drain s) = map ?e (queues s)" by (simp add: drain_def)
  have "queued (drain s) = []" unfolding queued_def q by (rule e(2))
  moreover have "distinct (map fst (queues (drain s)))" if "store_ok s" using that unfolding q e(1) by (simp add: store_ok_def)
  moreover have "\<forall>(k, q) \<in> set (queues (drain s)). length q \<le> MAX_INBOUND_FRAMES_PER_KIND" unfolding q by (rule e(3))
  ultimately show "store_ok s \<Longrightarrow> store_ok (drain s)" by (simp add: store_ok_def drain_def)
  have "map_of (map (\<lambda>(k, _). (k, [] :: byte list list)) qs) k = map_option (\<lambda>_. []) (map_of qs k)" for qs :: "(chars \<times> byte list list) list"
    by (induction qs) auto
  then show "queue_of (drain s) k = []" by (simp add: queue_of_def drain_def split: option.splits)
  show "length (queues (drain s)) = length (queues s)" by (simp add: drain_def)
qed

subsection \<open>First in, first out\<close>

text \<open>
  What the exchanges need: frames of one kind come out in the order they went in, no other kind is touched,
  and when the queue is closed whatever it still held is dropped. An operation of the program is an
  arrival, which is taken or refused, a round of a wait under some circumstances, which yields a frame or
  nothing, or any other step; each of them leaves the state it leaves, closed or not.
\<close>

datatype ('k, 'v, 'q, 'o) queue_op = Put 'k 'v | Get 'k 'q | Other 'o

fun run_ops :: "('k \<Rightarrow> 'v \<Rightarrow> 's \<Rightarrow> bool \<times> 's) \<Rightarrow> ('k \<Rightarrow> 'q \<Rightarrow> 's \<Rightarrow> 'v option \<times> 's) \<Rightarrow> ('o \<Rightarrow> 's \<Rightarrow> 's)
    \<Rightarrow> ('k, 'v, 'q, 'o) queue_op list \<Rightarrow> 's \<Rightarrow> ('k \<times> 'v) list \<times> ('k \<times> 'v) list \<times> 's" where
  "run_ops put get other [] s = ([], [], s)"
| "run_ops put get other (Put k v # ops) s =
     (case put k v s of (taken, s') \<Rightarrow>
      case run_ops put get other ops s' of (ins, outs, t) \<Rightarrow> (if taken then (k, v) # ins else ins, outs, t))"
| "run_ops put get other (Get k q # ops) s =
     (case get k q s of (r, s') \<Rightarrow>
      case run_ops put get other ops s' of (ins, outs, t) \<Rightarrow> (ins, (case r of None \<Rightarrow> outs | Some v \<Rightarrow> (k, v) # outs), t))"
| "run_ops put get other (Other a # ops) s = run_ops put get other ops (other a s)"

text \<open>Everything that arrives, taken or not.\<close>

fun puts :: "('k, 'v, 'q, 'o) queue_op list \<Rightarrow> ('k \<times> 'v) list" where
  "puts [] = []"
| "puts (Put k v # ops) = (k, v) # puts ops"
| "puts (Get k q # ops) = puts ops"
| "puts (Other a # ops) = puts ops"

definition of_kind :: "'k \<Rightarrow> ('k \<times> 'v) list \<Rightarrow> 'v list" where
  "of_kind k kvs = map snd (filter (\<lambda>kv. fst kv = k) kvs)"

lemma of_kind_simps [simp]:
  "of_kind k [] = []" "of_kind k ((k', v) # kvs) = (if k' = k then v # of_kind k kvs else of_kind k kvs)"
  "of_kind k (xs @ ys) = of_kind k xs @ of_kind k ys"
  by (simp_all add: of_kind_def)

locale delivery_queue =
  fixes put :: "'k \<Rightarrow> 'v \<Rightarrow> 's \<Rightarrow> bool \<times> 's" and get :: "'k \<Rightarrow> 'q \<Rightarrow> 's \<Rightarrow> 'v option \<times> 's" and other :: "'o \<Rightarrow> 's \<Rightarrow> 's"
    and view :: "'s \<Rightarrow> 'k \<Rightarrow> 'v list" and ok :: "'s \<Rightarrow> bool" and closed :: "'s \<Rightarrow> bool"
  assumes closed_empty: "ok s \<Longrightarrow> closed s \<Longrightarrow> view s k = []"
    and put_taken: "ok s \<Longrightarrow> put k v s = (True, s') \<Longrightarrow> ok s' \<and> \<not> closed s \<and> view s' = (view s)(k := view s k @ [v])"
    and put_refused: "ok s \<Longrightarrow> put k v s = (False, s') \<Longrightarrow> ok s' \<and> (closed s' \<or> \<not> closed s \<and> view s' = view s)"
    and get_front: "ok s \<Longrightarrow> get k q s = (Some v, s') \<Longrightarrow> ok s' \<and> view s = (view s')(k := v # view s' k)"
    and get_nothing: "ok s \<Longrightarrow> get k q s = (None, s') \<Longrightarrow> ok s' \<and> (closed s' \<or> \<not> closed s \<and> view s' = view s)"
    and other_keeps: "ok s \<Longrightarrow> ok (other a s) \<and> (closed (other a s) \<or> \<not> closed s \<and> view (other a s) = view s)"
begin

lemma closed_run:
  assumes "ok s" "closed s" "run_ops put get other ops s = (ins, outs, t)"
  shows "ok t \<and> closed t \<and> ins = [] \<and> outs = []"
  using assms
proof (induction ops arbitrary: s ins outs)
  case Nil
  then show ?case by simp
next
  case (Cons a ops)
  show ?case
  proof (cases a)
    case (Put k v)
    obtain b s' where p: "put k v s = (b, s')" by fastforce
    obtain i o' where r: "run_ops put get other ops s' = (i, o', t)" "ins = (if b then (k, v) # i else i)" "outs = o'"
      using Cons.prems(3) Put p by (auto split: prod.splits)
    have "\<not> b" using put_taken [OF Cons.prems(1)] p Cons.prems(2) by (cases b) auto
    with put_refused [OF Cons.prems(1)] p Cons.prems(2) have "ok s'" "closed s'" by auto
    from Cons.IH [OF this r(1)] r \<open>\<not> b\<close> show ?thesis by simp
  next
    case (Get k q)
    obtain x s' where g: "get k q s = (x, s')" by fastforce
    obtain i o' where r: "run_ops put get other ops s' = (i, o', t)" "ins = i"
        "outs = (case x of None \<Rightarrow> o' | Some v \<Rightarrow> (k, v) # o')"
      using Cons.prems(3) Get g by (auto split: prod.splits)
    have "x = None"
    proof (cases x)
      case (Some v)
      with g get_front [OF Cons.prems(1), of k q v s'] have "view s k \<noteq> []" by (metis fun_upd_same list.distinct(1))
      with closed_empty [OF Cons.prems(1,2)] show ?thesis by simp
    qed
    with get_nothing [OF Cons.prems(1)] g Cons.prems(2) have "ok s'" "closed s'" by auto
    from Cons.IH [OF this r(1)] r \<open>x = None\<close> show ?thesis by simp
  next
    case (Other b)
    with Cons.prems(3) have r: "run_ops put get other ops (other b s) = (ins, outs, t)" by simp
    have "ok (other b s)" "closed (other b s)" using other_keeps [OF Cons.prems(1), of b] Cons.prems(2) by auto
    from Cons.IH [OF this r] show ?thesis .
  qed
qed

text \<open>A step that keeps the queues or closes them, followed by the rest of the run.\<close>

lemma fifo_keep:
  assumes "ok s'" "closed s' \<or> view s' = view s" "run_ops put get other ops s' = (ins, outs, t)"
    and "\<exists>dropped. view s' k @ of_kind k ins = of_kind k outs @ view t k @ dropped \<and> (\<not> closed t \<longrightarrow> dropped = [])"
  shows "\<exists>dropped. view s k @ of_kind k ins = of_kind k outs @ view t k @ dropped \<and> (\<not> closed t \<longrightarrow> dropped = [])"
proof (cases "closed s'")
  case True
  from closed_run [OF assms(1) True assms(3)] closed_empty show ?thesis by simp
next
  case False
  with assms(2,4) show ?thesis by simp
qed

lemma fifo:
  assumes "ok s" "run_ops put get other ops s = (ins, outs, t)"
  shows "ok t \<and> (\<exists>dropped. view s k @ of_kind k ins = of_kind k outs @ view t k @ dropped \<and> (\<not> closed t \<longrightarrow> dropped = []))"
  using assms
proof (induction ops arbitrary: s ins outs)
  case Nil
  then show ?case by simp
next
  case (Cons a ops)
  show ?case
  proof (cases a)
    case (Put k' v)
    obtain b s' where p: "put k' v s = (b, s')" by fastforce
    obtain i where r: "run_ops put get other ops s' = (i, outs, t)" "ins = (if b then (k', v) # i else i)"
      using Cons.prems(2) Put p by (auto split: prod.splits)
    show ?thesis
    proof (cases b)
      case True
      with put_taken [OF Cons.prems(1)] p have s': "ok s'" "view s' = (view s)(k' := view s k' @ [v])" by auto
      from Cons.IH [OF s'(1) r(1)] r(2) True s'(2) show ?thesis by (auto split: if_split_asm)
    next
      case False
      with put_refused [OF Cons.prems(1)] p have s': "ok s'" "closed s' \<or> view s' = view s" by auto
      from fifo_keep [OF s' r(1)] Cons.IH [OF s'(1) r(1)] r(2) False show ?thesis by simp
    qed
  next
    case (Get k' q)
    obtain x s' where g: "get k' q s = (x, s')" by fastforce
    obtain o' where r: "run_ops put get other ops s' = (ins, o', t)" "outs = (case x of None \<Rightarrow> o' | Some v \<Rightarrow> (k', v) # o')"
      using Cons.prems(2) Get g by (auto split: prod.splits)
    show ?thesis
    proof (cases x)
      case (Some v)
      with get_front [OF Cons.prems(1)] g have s': "ok s'" "view s = (view s')(k' := v # view s' k')" by auto
      from Cons.IH [OF s'(1) r(1)] r(2) Some s'(2) show ?thesis by auto
    next
      case None
      with get_nothing [OF Cons.prems(1)] g have s': "ok s'" "closed s' \<or> view s' = view s" by auto
      from fifo_keep [OF s' r(1)] Cons.IH [OF s'(1) r(1)] r(2) None show ?thesis by simp
    qed
  next
    case (Other b)
    with Cons.prems(2) have r: "run_ops put get other ops (other b s) = (ins, outs, t)" by simp
    have s': "ok (other b s)" "closed (other b s) \<or> view (other b s) = view s" using other_keeps [OF Cons.prems(1), of b] by auto
    from fifo_keep [OF s' r] Cons.IH [OF s'(1) r] show ?thesis by simp
  qed
qed

end

text \<open>Where a refused arrival closes the queue, an open one took everything that arrived, and a closed one all of it up to some point.\<close>

locale closing_queue = delivery_queue +
  assumes refusal_closes: "ok s \<Longrightarrow> put k v s = (False, s') \<Longrightarrow> closed s'"
begin

lemma taken_first:
  assumes "ok s" "run_ops put get other ops s = (ins, outs, t)"
  shows "\<exists>late. puts ops = ins @ late \<and> (\<not> closed t \<longrightarrow> late = [])"
  using assms
proof (induction ops arbitrary: s ins outs)
  case Nil
  then show ?case by simp
next
  case (Cons a ops)
  show ?case
  proof (cases a)
    case (Put k v)
    obtain b s' where p: "put k v s = (b, s')" by fastforce
    obtain i where r: "run_ops put get other ops s' = (i, outs, t)" "ins = (if b then (k, v) # i else i)"
      using Cons.prems(2) Put p by (auto split: prod.splits)
    show ?thesis
    proof (cases b)
      case True
      with put_taken [OF Cons.prems(1)] p have "ok s'" by auto
      from Cons.IH [OF this r(1)] r(2) True Put show ?thesis by simp
    next
      case False
      with put_refused [OF Cons.prems(1)] refusal_closes [OF Cons.prems(1)] p have "ok s'" "closed s'" by auto
      from closed_run [OF this r(1)] r(2) False show ?thesis by simp
    qed
  next
    case (Get k q)
    obtain x s' where g: "get k q s = (x, s')" by fastforce
    obtain o' where r: "run_ops put get other ops s' = (ins, o', t)"
      using Cons.prems(2) Get g by (auto split: prod.splits)
    have "ok s'" using get_front [OF Cons.prems(1)] get_nothing [OF Cons.prems(1)] g by (cases x) auto
    from Cons.IH [OF this r(1)] Get show ?thesis by simp
  next
    case (Other b)
    with Cons.prems(2) have r: "run_ops put get other ops (other b s) = (ins, outs, t)" by simp
    have "ok (other b s)" using other_keeps [OF Cons.prems(1), of b] by simp
    from Cons.IH [OF this r] Other show ?thesis by simp
  qed
qed

end

end
