(* ===== verification/Serial_Link.thy ===== *)
theory Serial_Link
  imports Link_Store
begin

text \<open>
  The serial link over one TCP connection (\<open>link/serial_link.py\<close>, class \<open>TcpSerialLink\<close>): the HELLO
  handshake, the frames its reader dispatches, the exchange of tagged payloads, and its terminal state. The
  outcome of a socket write, cancellation and the passing of a deadline are arguments of the operations; a
  wait that would go on is an operation that changes nothing.
\<close>

definition OP_HELLO :: byte where "OP_HELLO = 0x01"
definition OP_EXCHANGE :: byte where "OP_EXCHANGE = 0x10"
definition OP_BYE :: byte where "OP_BYE = 0xFE"

record link =
  local_rom :: chars
  peer_rom :: "chars option"
  link_closed :: bool
  hello_received :: bool
  inbound :: store
  exchange_locks :: "(chars \<times> bool) list"
  reader_exc :: "link_error option"

datatype write_outcome = SentAll | WriteCancelled | WriteTimesOut | WriteFails
datatype wait_outcome = TimesOut | IsCancelled
datatype situation = Running | CancelSet | DeadlinePassed

subsection \<open>Closing\<close>

definition mark_closed :: "link_error option \<Rightarrow> link \<Rightarrow> link" where
  "mark_closed err l =
     (if link_closed l
      then if err \<noteq> None \<and> reader_exc l = None then l\<lparr>reader_exc := err\<rparr> else l
      else l\<lparr>link_closed := True, hello_received := True, inbound := drain (inbound l),
             reader_exc := (if err \<noteq> None then err else reader_exc l)\<rparr>)"

definition reader_failed :: "link \<Rightarrow> link_error option" where
  "reader_failed l = map_option (\<lambda>_. SerialLinkError ''reader thread failed'') (reader_exc l)"

subsection \<open>Sending\<close>

definition send_frame :: "byte list \<Rightarrow> bool \<Rightarrow> write_outcome \<Rightarrow> link \<Rightarrow> (link_error + byte list) \<times> link" where
  "send_frame payload cancelled outcome l =
     (case frame_bytes payload of
        Inl e \<Rightarrow> (Inl e, l)
      | Inr bytes \<Rightarrow>
          if link_closed l then (Inl (SerialLinkClosed ''link is closed''), l)
          else if cancelled then (Inl (SerialLinkClosed ''exchange cancelled''), l)
          else case outcome of
                 SentAll \<Rightarrow> (Inr bytes, l)
               | WriteCancelled \<Rightarrow> (Inl (SerialLinkClosed ''exchange cancelled''), mark_closed None l)
               | WriteTimesOut \<Rightarrow> (Inl (SerialLinkTimeout ''socket write timed out''), mark_closed None l)
               | WriteFails \<Rightarrow> (Inl (SerialLinkClosed ''socket write failed''), mark_closed None l))"

definition hello_payload :: "chars \<Rightarrow> link_error + byte list" where
  "hello_payload rom = rbind (pack_lp_str (Arg rom)) (\<lambda>s. Inr (OP_HELLO # s))"

definition exchange_payload :: "chars \<Rightarrow> byte list \<Rightarrow> link_error + byte list" where
  "exchange_payload k p =
     rbind (pack_lp_str (Arg k)) (\<lambda>s. rbind (pack_lp_bytes (Arg p)) (\<lambda>d. Inr (OP_EXCHANGE # s @ d)))"

text \<open>A link on a connected socket: its own HELLO goes out first.\<close>

definition fresh_link :: "chars \<Rightarrow> link" where
  "fresh_link rom = \<lparr>local_rom = rom, peer_rom = None, link_closed = False, hello_received = False,
     inbound = empty_store, exchange_locks = [], reader_exc = None\<rparr>"

definition new_link :: "chars arg \<Rightarrow> write_outcome \<Rightarrow> link_error + byte list \<times> link" where
  "new_link version outcome =
     rbind (validate_rom_version version) (\<lambda>rom.
     rbind (hello_payload rom) (\<lambda>payload.
       case send_frame payload False outcome (fresh_link rom) of
         (Inl e, _) \<Rightarrow> Inl e
       | (Inr bytes, l) \<Rightarrow> Inr (bytes, l)))"

text \<open>A best-effort BYE, then the terminal state.\<close>

definition close_link :: "write_outcome \<Rightarrow> link \<Rightarrow> link" where
  "close_link outcome l = (if link_closed l then l else mark_closed None (snd (send_frame [OP_BYE] False outcome l)))"

subsection \<open>Dispatching\<close>

definition protocol_error :: "string \<Rightarrow> link \<Rightarrow> (link_error + unit) \<times> link" where
  "protocol_error message l = (Inl (SerialLinkProtocolError message), l)"

definition dispatch_hello :: "byte list \<Rightarrow> link \<Rightarrow> (link_error + unit) \<times> link" where
  "dispatch_hello body l =
     (case read_lp_str body 1 of
        Inl e \<Rightarrow> (Inl e, l)
      | Inr (version, offset) \<Rightarrow>
          if offset \<noteq> length body then protocol_error ''HELLO has trailing bytes'' l
          else case validate_rom_version (Arg version) of
                 Inl _ \<Rightarrow> protocol_error ''invalid HELLO rom_version'' l
               | Inr rom \<Rightarrow>
                   if peer_rom l \<noteq> None then protocol_error ''duplicate HELLO'' l
                   else (Inr (), l\<lparr>peer_rom := Some rom, hello_received := True\<rparr>))"

definition enqueue :: "chars \<Rightarrow> byte list \<Rightarrow> link \<Rightarrow> (link_error + unit) \<times> link" where
  "enqueue kind payload l =
     (if link_closed l then (Inl (SerialLinkClosed ''link is closed''), l)
      else case open_queue True kind (inbound l) of
             Inl e \<Rightarrow> (Inl e, l)
           | Inr s \<Rightarrow> (case put_frame kind payload s of
                 Inl e \<Rightarrow> (Inl e, l\<lparr>inbound := s\<rparr>)
               | Inr s' \<Rightarrow> (Inr (), l\<lparr>inbound := s'\<rparr>)))"

definition dispatch_exchange :: "byte list \<Rightarrow> link \<Rightarrow> (link_error + unit) \<times> link" where
  "dispatch_exchange body l =
     (case read_lp_str body 1 of
        Inl e \<Rightarrow> (Inl e, l)
      | Inr (kind, offset) \<Rightarrow>
          (case validate_exchange_kind (Arg kind) of
             Inl _ \<Rightarrow> protocol_error ''invalid EXCHANGE kind'' l
           | Inr _ \<Rightarrow>
               (case read_lp_bytes body offset of
                  Inl e \<Rightarrow> (Inl e, l)
                | Inr (payload, stop) \<Rightarrow>
                    if stop \<noteq> length body then protocol_error ''EXCHANGE has trailing bytes'' l
                    else enqueue kind payload l)))"

definition dispatch :: "byte list \<Rightarrow> link \<Rightarrow> (link_error + unit) \<times> link" where
  "dispatch body l =
     (case body of
        [] \<Rightarrow> protocol_error ''empty frame body'' l
      | opcode # _ \<Rightarrow>
          if opcode \<noteq> OP_HELLO \<and> peer_rom l = None then protocol_error ''HELLO must be the first frame received'' l
          else if opcode = OP_HELLO then dispatch_hello body l
          else if opcode = OP_EXCHANGE then dispatch_exchange body l
          else if opcode = OP_BYE
          then if length body \<noteq> 1 then protocol_error ''BYE has a payload'' l else (Inr (), mark_closed None l)
          else protocol_error ''unknown opcode'' l)"

text \<open>How an exception ends the reader: a closed link or peer is no failure.\<close>

definition reader_stops :: "link_error \<Rightarrow> link \<Rightarrow> link" where
  "reader_stops e l = mark_closed (case e of SerialLinkClosed _ \<Rightarrow> None | _ \<Rightarrow> Some e) l"

lemma read_exactly_Got:
  assumes "read_exactly n d c s = Got x s'"
  shows "x = take n (arriving s)" "arriving s = x @ arriving s'" "length x = n" "afterwards s' = afterwards s"
  using assms by (auto simp: read_exactly_def split: if_split_asm silence.split_asm)

lemma read_bind_Got: "read_bind r f = Got y s'' \<longleftrightarrow> (\<exists>x s'. r = Got x s' \<and> f x s' = Got y s'')"
  by (cases r) auto

lemma read_frame_shorter: "read_frame s = Got body s' \<Longrightarrow> length (arriving s') < length (arriving s)"
  by (fastforce simp: read_frame_def read_bind_Got Let_def split: if_split_asm dest: read_exactly_Got(2,3))

text \<open>The reader, over everything that arrives. Every frame takes at least five bytes off the stream, so it ends.\<close>

function reader_loop :: "stream \<Rightarrow> link \<Rightarrow> link" where
  "reader_loop s l =
     (if link_closed l then l\<lparr>hello_received := True\<rparr>
      else case read_frame s of
             Blocks \<Rightarrow> l
           | Raises e \<Rightarrow> (reader_stops e l)\<lparr>hello_received := True\<rparr>
           | Got body s' \<Rightarrow>
               (case dispatch body l of
                  (Inl e, l') \<Rightarrow> (reader_stops e l')\<lparr>hello_received := True\<rparr>
                | (Inr _, l') \<Rightarrow> reader_loop s' l'))"
  by pat_completeness auto
termination
  by (relation "measure (\<lambda>(s, _). length (arriving s))") (auto dest: read_frame_shorter)

declare reader_loop.simps [simp del]

subsection \<open>Exchanging\<close>

definition get_exchange_lock :: "chars \<Rightarrow> link \<Rightarrow> link_error + link" where
  "get_exchange_lock k l =
     (if k \<in> fst ` set (exchange_locks l) then Inr l
      else if length (exchange_locks l) \<ge> MAX_INBOUND_KINDS then Inl (SerialLinkProtocolError ''exchange kind limit exceeded'')
      else Inr (l\<lparr>exchange_locks := AList.update k False (exchange_locks l)\<rparr>))"

definition hold :: "chars \<Rightarrow> bool \<Rightarrow> link \<Rightarrow> link" where
  "hold k held l = l\<lparr>exchange_locks := AList.update k held (exchange_locks l)\<rparr>"

text \<open>The peer's ROM version, or the error of a wait that ends without it.\<close>

definition wait_for_hello :: "wait_outcome \<Rightarrow> link \<Rightarrow> (link_error + chars) \<times> link" where
  "wait_for_hello late l =
     (if \<not> hello_received l
      then case late of
             IsCancelled \<Rightarrow> (Inl (SerialLinkClosed ''exchange cancelled''), l)
           | TimesOut \<Rightarrow>
               (case reader_failed l of
                  Some e \<Rightarrow> (Inl e, l)
                | None \<Rightarrow> (let e = SerialLinkTimeout ''peer did not send HELLO before the deadline'' in (Inl e, mark_closed (Some e) l)))
      else case reader_failed l of
             Some e \<Rightarrow> (Inl e, l)
           | None \<Rightarrow>
               if link_closed l then (Inl (SerialLinkClosed ''link is closed before HELLO completed''), l)
               else case peer_rom l of
                      None \<Rightarrow> (Inl (SerialLinkProtocolError ''peer HELLO arrived without rom_version''), l)
                    | Some rom \<Rightarrow> (Inr rom, l))"

text \<open>The request, sent while the slot of its kind is held; every error after the slot was taken gives it back.\<close>

definition send_request :: "chars \<Rightarrow> byte list \<Rightarrow> bool \<Rightarrow> wait_outcome \<Rightarrow> write_outcome \<Rightarrow> link \<Rightarrow> (link_error + byte list) \<times> link" where
  "send_request k p cancelled late outcome l =
     (case wait_for_hello late l of
        (Inl e, l1) \<Rightarrow> (Inl e, l1)
      | (Inr _, l1) \<Rightarrow>
          (case exchange_payload k p of
             Inl e \<Rightarrow> (Inl e, l1)
           | Inr payload \<Rightarrow>
               (case open_queue True k (inbound l1) of
                  Inl e \<Rightarrow> (Inl e, l1)
                | Inr s \<Rightarrow> send_frame payload cancelled outcome (l1\<lparr>inbound := s\<rparr>))))"

definition exchange_start ::
    "chars arg \<Rightarrow> byte list arg \<Rightarrow> int arg \<Rightarrow> bool \<Rightarrow> wait_outcome \<Rightarrow> write_outcome \<Rightarrow> link \<Rightarrow> (link_error + byte list) \<times> link" where
  "exchange_start kind my_bytes timeout_ms cancelled late outcome l =
     (case rbind (validate_timeout_ms timeout_ms) (\<lambda>_. rbind (validate_exchange_kind kind) (\<lambda>k.
             rbind (coerce_exchange_payload my_bytes) (\<lambda>p. Inr (k, p)))) of
        Inl e \<Rightarrow> (Inl e, l)
      | Inr (k, p) \<Rightarrow>
          if link_closed l then (Inl (SerialLinkClosed ''link is closed''), l)
          else (case reader_failed l of
            Some e \<Rightarrow> (Inl e, l)
          | None \<Rightarrow>
              (case get_exchange_lock k l of
                 Inl e \<Rightarrow> (Inl e, l)
               | Inr l1 \<Rightarrow>
                   if cancelled then (Inl (SerialLinkClosed ''exchange cancelled''), l1)
                   else if map_of (exchange_locks l1) k = Some True
                   then (Inl (case late of TimesOut \<Rightarrow> SerialLinkTimeout ''exchange slot unavailable''
                                         | IsCancelled \<Rightarrow> SerialLinkClosed ''exchange cancelled''), l1)
                   else (case send_request k p cancelled late outcome (hold k True l1) of
                           (Inl e, l2) \<Rightarrow> (Inl e, hold k False l2)
                         | (Inr bytes, l2) \<Rightarrow> (Inr bytes, l2)))))"

datatype poll = Waits | Returns "byte list" | Fails link_error

text \<open>One round of the wait for the peer's payload.\<close>

definition exchange_round :: "chars \<Rightarrow> situation \<Rightarrow> link \<Rightarrow> poll \<times> link" where
  "exchange_round k now l =
     (if link_closed l
      then (Fails (case reader_failed l of Some e \<Rightarrow> e | None \<Rightarrow> SerialLinkClosed ''link is closed''), l)
      else case now of
             CancelSet \<Rightarrow> (let e = SerialLinkClosed ''exchange cancelled'' in (Fails e, mark_closed (Some e) l))
           | DeadlinePassed \<Rightarrow>
               (case reader_failed l of
                  Some e \<Rightarrow> (Fails e, l)
                | None \<Rightarrow> (let e = SerialLinkTimeout ''no peer EXCHANGE'' in (Fails e, mark_closed (Some e) l)))
           | Running \<Rightarrow>
               (case get_frame k (inbound l) of
                  None \<Rightarrow> (Waits, l)
                | Some (p, s) \<Rightarrow> (Returns p, l\<lparr>inbound := s\<rparr>)))"

definition exchange_poll :: "chars \<Rightarrow> situation \<Rightarrow> link \<Rightarrow> poll \<times> link" where
  "exchange_poll k now l =
     (case exchange_round k now l of (r, l') \<Rightarrow> (r, if r = Waits then l' else hold k False l'))"

end
