(* ===== verification/Link_Safety.thy ===== *)
theory Link_Safety
  imports Serial_Link
begin

text \<open>What the serial link promises: its frames survive the wire, its queues stay within their budgets and in order, and a link that ended stays ended and empty.\<close>

subsection \<open>Strings and blocks through the wire\<close>

lemma three_places: "(c :: nat) div 4096 * 4096 + c div 64 mod 64 * 64 + c mod 64 = c"
proof -
  have "c div 64 = c div 4096 * 64 + c div 64 mod 64"
    using div_mult_mod_eq [of "c div 64" 64] by (simp add: div_mult2_eq [symmetric])
  then have "c = (c div 4096 * 64 + c div 64 mod 64) * 64 + c mod 64" using div_mult_mod_eq [of c 64] by presburger
  then show ?thesis by (simp add: algebra_simps)
qed

lemma four_places: "(c :: nat) div 262144 * 262144 + c div 4096 mod 64 * 4096 + c div 64 mod 64 * 64 + c mod 64 = c"
proof -
  have "c div 4096 = c div 262144 * 64 + c div 4096 mod 64"
    using div_mult_mod_eq [of "c div 4096" 64] by (simp add: div_mult2_eq [symmetric])
  then have "c div 4096 * 4096 = c div 262144 * 262144 + c div 4096 mod 64 * 4096" by (simp add: algebra_simps)
  with three_places [of c] show ?thesis by linarith
qed

lemma low_digit: "0x80 + (x :: nat) mod 64 < 0xC0"
  using mod_less_divisor [of 64 x] by linarith

lemma utf8_char_units:
  assumes "encodable c"
  shows "utf8_chars (utf8_units c @ r) = map_option ((#) c) (utf8_chars r)"
proof -
  note cont = continues_def low_digit
  consider "c < 0x80" | "0x80 \<le> c" "c < 0x800" | "0x800 \<le> c" "c < 0x10000" | "0x10000 \<le> c" "c < 0x110000"
    using assms unfolding encodable_def by linarith
  then show ?thesis
  proof cases
    case 1
    then show ?thesis by (simp add: utf8_units_def)
  next
    case 2
    then have "0xC2 \<le> 0xC0 + c div 64" "0xC0 + c div 64 < 0xE0" by (simp_all add: div_le_mono less_mult_imp_div_less)
    with 2 show ?thesis by (simp add: utf8_units_def cont)
  next
    case 3
    have a: "0xE0 + c div 4096 < 0xF0" using 3 by (simp add: less_mult_imp_div_less)
    have "c div 4096 * 4096 + (c div 64 mod 64) * 64 + c mod 64 = c" by (rule three_places)
    with a 3 assms show ?thesis by (simp add: utf8_units_def cont encodable_def Let_def)
  next
    case 4
    have a: "0xF0 + c div 262144 < 0xF5" using 4 by (simp add: less_mult_imp_div_less)
    have "c div 262144 * 262144 + (c div 4096 mod 64) * 4096 + (c div 64 mod 64) * 64 + c mod 64 = c" by (rule four_places)
    with a 4 show ?thesis by (simp add: utf8_units_def cont Let_def)
  qed
qed

lemma utf8_units_bytes: "encodable c \<Longrightarrow> b \<in> set (utf8_units c) \<Longrightarrow> b < 256"
  using low_digit by (auto simp: utf8_units_def encodable_def less_mult_imp_div_less split: if_split_asm)

lemma bytes_back: "(\<And>b. b \<in> set bs \<Longrightarrow> b < 256) \<Longrightarrow> map (unat :: byte \<Rightarrow> nat) (map word_of_nat bs) = bs"
  by (induction bs) (simp_all add: unat_of_nat)

lemma utf8_roundtrip:
  assumes "list_all encodable s"
  shows "\<exists>bs. utf8_encode s = Some bs \<and> utf8_decode bs = Some s"
proof -
  have "utf8_chars (concat (map utf8_units s)) = Some s"
    using assms by (induction s) (simp_all add: utf8_char_units)
  moreover have "map (unat :: byte \<Rightarrow> nat) (map word_of_nat (concat (map utf8_units s))) = concat (map utf8_units s)"
    using assms utf8_units_bytes by (intro bytes_back) (auto simp: list_all_iff)
  ultimately show ?thesis using assms by (simp add: utf8_encode_def utf8_decode_def)
qed

lemma pack_lp_str_back:
  assumes "pack_lp_str (Arg s) = Inr bs"
  shows "read_lp_str (xs @ bs @ rest) (length xs) = Inr (s, length xs + length bs)" "bs \<noteq> []" "length bs \<le> 256"
proof -
  obtain enc where e: "utf8_encode s = Some enc" "length enc \<le> 0xFF" "bs = word_of_nat (length enc) # enc"
    using assms by (auto simp: pack_lp_str_def split: option.splits if_split_asm)
  have "list_all encodable s" using e(1) by (auto simp: utf8_encode_def split: if_split_asm)
  then have d: "utf8_decode enc = Some s" using utf8_roundtrip [of s] e(1) by auto
  have n: "unat (word_of_nat (length enc) :: byte) = length enc" using e(2) by (simp add: unat_of_nat)
  show "read_lp_str (xs @ bs @ rest) (length xs) = Inr (s, length xs + length bs)"
    by (simp add: read_lp_str_def e(3) n nth_append d Let_def)
  show "bs \<noteq> []" "length bs \<le> 256" using e(2,3) by simp_all
qed

lemma pack_lp_bytes_back:
  assumes "pack_lp_bytes (Arg p) = Inr bs"
  shows "read_lp_bytes (xs @ bs @ rest) (length xs) = Inr (p, length xs + length bs)" "length bs \<le> 65537"
proof -
  have e: "length p \<le> 0xFFFF" "bs = be_bytes 2 (int (length p)) @ p"
    using assms by (auto simp: pack_lp_bytes_def MAX_EXCHANGE_PAYLOAD_SIZE_def split: if_split_asm)
  have n: "nat (be_int (be_bytes 2 (int (length p)))) = length p" using e(1) by (simp add: be_int_be_bytes)
  have t: "take 2 (be_bytes 2 (int (length p)) @ p @ rest) = be_bytes 2 (int (length p))" by simp
  show "read_lp_bytes (xs @ bs @ rest) (length xs) = Inr (p, length xs + length bs)"
    by (simp add: read_lp_bytes_def e(2) t n Let_def del: be_bytes.simps)
  show "length bs \<le> 65537" using e by simp
qed

lemma four_bytes: "length xs = 4 \<Longrightarrow> \<exists>a b c d. xs = [a, b, c, d]"
  by (auto simp: numeral_eq_Suc length_Suc_conv)

lemma frame_back:
  assumes "frame_bytes payload = Inr bs"
  shows "read_frame \<lparr>arriving = bs @ rest, afterwards = x\<rparr> = Got payload \<lparr>arriving = rest, afterwards = x\<rparr>"
proof -
  have e: "payload \<noteq> []" "length payload \<le> MAX_FRAME_SIZE" "bs = be_bytes 4 (int (length payload)) @ payload"
    using assms by (auto simp: frame_bytes_def split: if_split_asm)
  obtain b0 b1 b2 b3 where h: "be_bytes 4 (int (length payload)) = [b0, b1, b2, b3]"
    using four_bytes [OF length_be_bytes] by blast
  have "int (length payload) < 256 ^ 4" using e(2) by (simp add: MAX_FRAME_SIZE_def)
  then have n: "be_int [b0, b1, b2, b3] = int (length payload)" unfolding h [symmetric] by (simp add: be_int_be_bytes)
  show ?thesis
    using e n by (simp add: read_frame_def read_exactly_def h Let_def)
qed

lemma valid_kind:
  assumes "validate_exchange_kind (Arg k) = Inr k'"
  shows "k' = k" "k \<noteq> []" "\<exists>bs. pack_lp_str (Arg k) = Inr bs"
proof -
  have v: "k' = k" "k \<noteq> []" "list_all (\<lambda>c. c < 128) k" "length k \<le> 0xFF"
    using assms by (auto simp: validate_exchange_kind_def split: if_split_asm)
  then show "k' = k" "k \<noteq> []" by simp_all
  have "list_all encodable k" using v(3) by (auto simp: list_all_iff encodable_def surrogate_def)
  moreover have "concat (map utf8_units k) = k" using v(3) by (induction k) (simp_all add: utf8_units_def)
  ultimately show "\<exists>bs. pack_lp_str (Arg k) = Inr bs" using v(4) by (simp add: pack_lp_str_def utf8_encode_def)
qed

definition valid_exchange :: "chars \<Rightarrow> byte list \<Rightarrow> bool" where
  "valid_exchange k p \<longleftrightarrow> validate_exchange_kind (Arg k) = Inr k \<and> coerce_exchange_payload (Arg p) = Inr p"

lemma exchange_frame:
  assumes "valid_exchange k p"
  shows "\<exists>body bs. exchange_payload k p = Inr body \<and> frame_bytes body = Inr bs
     \<and> (\<forall>l. peer_rom l \<noteq> None \<longrightarrow> dispatch body l = enqueue k p l)"
proof -
  have k: "validate_exchange_kind (Arg k) = Inr k" and p: "length p \<le> MAX_EXCHANGE_PAYLOAD_SIZE"
    using assms by (auto simp: valid_exchange_def coerce_exchange_payload_def split: if_split_asm)
  obtain s where s: "pack_lp_str (Arg k) = Inr s" using valid_kind(3) [OF k] by blast
  obtain d where d: "pack_lp_bytes (Arg p) = Inr d" using p by (simp add: pack_lp_bytes_def)
  note sb = pack_lp_str_back(1) [OF s, of "[OP_EXCHANGE]" d] pack_lp_str_back(3) [OF s]
    and db = pack_lp_bytes_back(1) [OF d, of "OP_EXCHANGE # s" "[]"] pack_lp_bytes_back(2) [OF d]
  have body: "exchange_payload k p = Inr (OP_EXCHANGE # s @ d)" using s d by (simp add: exchange_payload_def)
  have "frame_bytes (OP_EXCHANGE # s @ d) = Inr (be_bytes 4 (int (length (OP_EXCHANGE # s @ d))) @ OP_EXCHANGE # s @ d)"
    using sb(2) db(2) by (simp add: frame_bytes_def MAX_FRAME_SIZE_def)
  moreover have "dispatch (OP_EXCHANGE # s @ d) l = enqueue k p l" if "peer_rom l \<noteq> None" for l
    using that sb(1) db(1) k
    by (auto simp: dispatch_def dispatch_exchange_def OP_EXCHANGE_def OP_HELLO_def)
  ultimately show ?thesis using body by blast
qed

subsection \<open>The invariant\<close>

definition link_ok :: "link \<Rightarrow> bool" where
  "link_ok l \<longleftrightarrow> store_ok (inbound l) \<and> length (queues (inbound l)) \<le> MAX_INBOUND_KINDS
     \<and> length (exchange_locks l) \<le> MAX_INBOUND_KINDS
     \<and> (link_closed l \<longrightarrow> frame_count (inbound l) = 0 \<and> byte_count (inbound l) = 0 \<and> (\<forall>k. queue_of (inbound l) k = []))
     \<and> (reader_exc l \<noteq> None \<longrightarrow> link_closed l)
     \<and> (\<forall>rom. peer_rom l = Some rom \<longrightarrow> rom \<in> set SUPPORTED_ROM_VERSIONS)"

lemma link_ok_updates [simp]:
  "link_ok (l\<lparr>hello_received := b\<rparr>) = link_ok l"
  "link_ok (l\<lparr>peer_rom := Some rom\<rparr>) = (link_ok (l\<lparr>peer_rom := None\<rparr>) \<and> rom \<in> set SUPPORTED_ROM_VERSIONS)"
  by (auto simp: link_ok_def)

lemma link_ok_no_rom: "link_ok l \<Longrightarrow> link_ok (l\<lparr>peer_rom := None\<rparr>)"
  by (simp add: link_ok_def)

lemma fresh_link_ok: "link_ok (fresh_link rom)"
  by (simp add: link_ok_def fresh_link_def) (simp add: empty_store_def)

lemma mark_closed_ok: "link_ok l \<Longrightarrow> link_ok (mark_closed e l)"
  using drain_ok [of "inbound l"] by (auto simp: link_ok_def mark_closed_def) (simp_all add: drain_def)

lemma mark_closed_closed [simp]: "link_closed (mark_closed e l)"
  by (simp add: mark_closed_def)

lemma send_frame_ok: "link_ok l \<Longrightarrow> link_ok (snd (send_frame p c out l))"
  by (auto simp: send_frame_def mark_closed_ok split: sum.split write_outcome.split)

lemma inbound_ok:
  assumes "link_ok l" "\<not> link_closed l" "store_ok s" "length (queues s) \<le> MAX_INBOUND_KINDS"
  shows "link_ok (l\<lparr>inbound := s\<rparr>)"
  using assms by (simp add: link_ok_def)

lemma opened_ok:
  assumes "link_ok l" "open_queue True k (inbound l) = Inr s"
  shows "store_ok s" "length (queues s) \<le> MAX_INBOUND_KINDS" "queue_of s = queue_of (inbound l)"
  using open_queue_ok [OF _ assms(2)] assms(1) by (auto simp: link_ok_def)

lemma put_frame_kinds:
  assumes "put_frame k p s = Inr s'" "k \<in> fst ` set (queues s)"
  shows "length (queues s') = length (queues s)"
proof -
  have "length (AList.update k q qs) = length qs" if "k \<in> fst ` set qs" for q and qs :: "(chars \<times> byte list list) list"
    using that by (induction qs) auto
  from this [OF assms(2)] assms(1) show ?thesis by (auto simp: put_frame_def set_queue_def simp del: update.simps split: option.splits)
qed

lemma enqueue_ok:
  assumes "link_ok l"
  shows "link_ok (snd (enqueue k p l))"
proof (cases "link_closed l")
  case True
  with assms show ?thesis by (simp add: enqueue_def)
next
  case False
  show ?thesis
  proof (cases "open_queue True k (inbound l)")
    case (Inl e)
    with assms False show ?thesis by (simp add: enqueue_def)
  next
    case (Inr s)
    note o = opened_ok [OF assms Inr] open_queue_ok(6) [OF _ Inr]
    show ?thesis
    proof (cases "put_frame k p s")
      case (Inl e)
      with Inr False inbound_ok [OF assms False o(1,2)] show ?thesis by (simp add: enqueue_def)
    next
      case put: (Inr s')
      have "k \<in> fst ` set (queues s)" using assms by (intro o(4)) (simp add: link_ok_def)
      with put_frame_kinds [OF put] o(2) have "length (queues s') \<le> MAX_INBOUND_KINDS" by simp
      with put Inr False inbound_ok [OF assms False put_frame_ok(1) [OF o(1) put]] show ?thesis by (simp add: enqueue_def)
    qed
  qed
qed

lemma validated_rom: "validate_rom_version v = Inr rom \<Longrightarrow> rom \<in> set SUPPORTED_ROM_VERSIONS"
  by (auto simp: validate_rom_version_def Let_def split: arg.splits if_split_asm)

lemma dispatch_hello_ok:
  assumes "link_ok l"
  shows "link_ok (snd (dispatch_hello body l))"
proof -
  have "link_ok (l\<lparr>peer_rom := Some rom, hello_received := True\<rparr>)" if "validate_rom_version v = Inr rom" for v rom
    using validated_rom [OF that] link_ok_no_rom [OF assms] by simp
  with assms show ?thesis
    by (simp add: dispatch_hello_def protocol_error_def split: sum.split prod.split)
qed

lemma dispatch_exchange_ok: "link_ok l \<Longrightarrow> link_ok (snd (dispatch_exchange body l))"
  by (simp add: dispatch_exchange_def protocol_error_def enqueue_ok split: sum.split prod.split)

lemma dispatch_ok: "link_ok l \<Longrightarrow> link_ok (snd (dispatch body l))"
  by (simp add: dispatch_def protocol_error_def dispatch_hello_ok dispatch_exchange_ok mark_closed_ok split: list.split)

lemma reader_stops_ok: "link_ok l \<Longrightarrow> link_ok (reader_stops e l)"
  by (simp add: reader_stops_def mark_closed_ok)

lemma reader_loop_ok: "link_ok l \<Longrightarrow> link_ok (reader_loop s l)"
proof (induction s l rule: reader_loop.induct)
  case (1 s l)
  show ?case
  proof (cases "link_closed l")
    case True
    with 1(2) show ?thesis by (simp add: reader_loop.simps [of s l])
  next
    case False
    show ?thesis
    proof (cases "read_frame s")
      case (Got body s')
      obtain r l' where d: "dispatch body l = (r, l')" by fastforce
      with dispatch_ok [OF 1(2), of body] have ok: "link_ok l'" by simp
      show ?thesis
      proof (cases r)
        case (Inl e)
        with False Got d reader_stops_ok [OF ok] show ?thesis by (simp add: reader_loop.simps [of s l])
      next
        case (Inr u)
        with 1(1) [OF False Got d [symmetric] Inr] ok False Got d show ?thesis by (simp add: reader_loop.simps [of s l])
      qed
    qed (use False 1(2) reader_stops_ok in \<open>simp_all add: reader_loop.simps [of s l]\<close>)
  qed
qed

lemma locks_ok:
  assumes "link_ok l" "length locks \<le> MAX_INBOUND_KINDS"
  shows "link_ok (l\<lparr>exchange_locks := locks\<rparr>)"
  using assms by (simp add: link_ok_def)

lemma update_locks: "length (AList.update k b locks) = (if k \<in> fst ` set locks then length locks else Suc (length locks))"
  by (induction locks) auto

lemma get_lock_ok:
  assumes "link_ok l" "get_exchange_lock k l = Inr l1"
  shows "link_ok l1" "k \<in> fst ` set (exchange_locks l1)" "inbound l1 = inbound l" "link_closed l1 = link_closed l"
    "peer_rom l1 = peer_rom l" "hello_received l1 = hello_received l" "reader_exc l1 = reader_exc l"
proof -
  have "link_ok l1 \<and> k \<in> fst ` set (exchange_locks l1)"
  proof (cases "k \<in> fst ` set (exchange_locks l)")
    case True
    with assms show ?thesis by (simp add: get_exchange_lock_def)
  next
    case False
    with assms(2) have "l1 = l\<lparr>exchange_locks := AList.update k False (exchange_locks l)\<rparr>" "length (exchange_locks l) < MAX_INBOUND_KINDS"
      by (auto simp: get_exchange_lock_def split: if_split_asm)
    with False locks_ok [OF assms(1)] show ?thesis by (simp add: update_locks dom_update)
  qed
  then show "link_ok l1" "k \<in> fst ` set (exchange_locks l1)" by blast+
  show "inbound l1 = inbound l" "link_closed l1 = link_closed l" "peer_rom l1 = peer_rom l"
    "hello_received l1 = hello_received l" "reader_exc l1 = reader_exc l"
    using assms(2) by (auto simp: get_exchange_lock_def split: if_split_asm)
qed

lemma hold_ok: "link_ok l \<Longrightarrow> k \<in> fst ` set (exchange_locks l) \<Longrightarrow> link_ok (hold k b l)"
  unfolding hold_def by (rule locks_ok) (simp_all add: update_locks link_ok_def)

lemma hold_simps [simp]:
  "inbound (hold k b l) = inbound l" "link_closed (hold k b l) = link_closed l" "reader_exc (hold k b l) = reader_exc l"
  "peer_rom (hold k b l) = peer_rom l" "hello_received (hold k b l) = hello_received l"
  "fst ` set (exchange_locks (hold k b l)) = insert k (fst ` set (exchange_locks l))"
  by (simp_all add: hold_def dom_update)

lemma locks_kept [simp]:
  "exchange_locks (mark_closed e l) = exchange_locks l" "exchange_locks (snd (send_frame p c out l)) = exchange_locks l"
  "exchange_locks (snd (wait_for_hello late l)) = exchange_locks l"
  by (simp_all add: mark_closed_def send_frame_def wait_for_hello_def Let_def
      split: sum.split write_outcome.split option.split wait_outcome.split)

lemma wait_for_hello_ok:
  assumes "link_ok l"
  shows "link_ok (snd (wait_for_hello late l))"
    "wait_for_hello late l = (Inr rom, l1) \<Longrightarrow> l1 = l \<and> \<not> link_closed l \<and> peer_rom l = Some rom"
  using assms mark_closed_ok
  by (simp_all add: wait_for_hello_def Let_def split: option.splits wait_outcome.splits if_split_asm)

lemma send_request_ok:
  assumes "link_ok l"
  shows "link_ok (snd (send_request k p c late out l)) \<and> exchange_locks (snd (send_request k p c late out l)) = exchange_locks l"
proof -
  obtain r l1 where w: "wait_for_hello late l = (r, l1)" by fastforce
  show ?thesis
  proof (cases r)
    case (Inl e)
    have "link_ok l1" "exchange_locks l1 = exchange_locks l"
      using w wait_for_hello_ok(1) [OF assms, of late] locks_kept(3) [of late l] by simp_all
    with w Inl show ?thesis by (simp add: send_request_def)
  next
    case (Inr rom)
    with wait_for_hello_ok(2) [OF assms] w have l1: "l1 = l" "\<not> link_closed l" by auto
    show ?thesis
    proof (cases "exchange_payload k p")
      case (Inl e)
      with w Inr l1 assms show ?thesis by (simp add: send_request_def)
    next
      case pay: (Inr payload)
      show ?thesis
      proof (cases "open_queue True k (inbound l)")
        case (Inl e)
        with w Inr pay l1 assms show ?thesis by (simp add: send_request_def)
      next
        case op: (Inr s)
        have "link_ok (l\<lparr>inbound := s\<rparr>)" using inbound_ok [OF assms l1(2) opened_ok(1,2) [OF assms op]] .
        with send_frame_ok w Inr pay op l1 show ?thesis by (simp add: send_request_def)
      qed
    qed
  qed
qed

lemma exchange_start_ok:
  assumes "link_ok l"
  shows "link_ok (snd (exchange_start kind my tm c late out l))"
proof -
  have req: "link_ok (snd (case send_request k p c late out (hold k True l1) of
      (Inl e, l2) \<Rightarrow> (Inl e, hold k False l2) | (Inr bytes, l2) \<Rightarrow> (Inr bytes, l2)))"
    if "get_exchange_lock k l = Inr l1" for k p l1
  proof -
    have h: "link_ok (hold k True l1)" using get_lock_ok(1,2) [OF assms that] by (rule hold_ok)
    obtain r l2 where s: "send_request k p c late out (hold k True l1) = (r, l2)" by fastforce
    with send_request_ok [OF h, of k p c late out] have ok: "link_ok l2" "exchange_locks l2 = exchange_locks (hold k True l1)" by simp_all
    then have "k \<in> fst ` set (exchange_locks l2)" using hold_simps(6) [of k True l1] by simp
    with ok(1) s show ?thesis by (cases r) (simp_all add: hold_ok)
  qed
  show ?thesis
  proof (cases "rbind (validate_timeout_ms tm) (\<lambda>_. rbind (validate_exchange_kind kind) (\<lambda>k.
             rbind (coerce_exchange_payload my) (\<lambda>p. Inr (k, p))))")
    case (Inl e)
    with assms show ?thesis by (simp add: exchange_start_def)
  next
    case (Inr kp)
    obtain k p where kp: "kp = (k, p)" by fastforce
    show ?thesis
    proof (cases "link_closed l \<or> reader_failed l \<noteq> None")
      case True
      with assms Inr kp show ?thesis by (auto simp: exchange_start_def)
    next
      case opn: False
      show ?thesis
      proof (cases "get_exchange_lock k l")
        case (Inl e)
        with opn assms Inr kp show ?thesis by (simp add: exchange_start_def)
      next
        case lock: (Inr l1)
        with opn Inr kp req [OF lock, of p] get_lock_ok(1) [OF assms lock] show ?thesis
          by (cases c) (simp_all add: exchange_start_def)
      qed
    qed
  qed
qed

lemma exchange_round_ok:
  assumes "link_ok l"
  shows "link_ok (snd (exchange_round k now l)) \<and> exchange_locks (snd (exchange_round k now l)) = exchange_locks l"
proof -
  have "link_ok (l\<lparr>inbound := s\<rparr>)" if "get_frame k (inbound l) = Some (p, s)" "\<not> link_closed l" for p s
  proof -
    have ok: "store_ok (inbound l)" using assms by (simp add: link_ok_def)
    note g = that(1)
    have "queue_of (inbound l) k \<noteq> []" using that(1) by (auto simp: get_frame_def split: list.splits)
    then have "k \<in> fst ` set (queues (inbound l))"
      by (auto simp: queue_of_def map_of_eq_None_iff split: option.splits dest: map_of_SomeD intro: rev_image_eqI)
    moreover obtain q where "s = (set_queue k q (inbound l))\<lparr>frame_count := frame_count (inbound l) - 1, byte_count := byte_count (inbound l) - length p\<rparr>"
      using g by (auto simp: get_frame_def split: list.splits)
    ultimately have "length (queues s) = length (queues (inbound l))" by (simp add: set_queue_def update_locks)
    with assms have "length (queues s) \<le> MAX_INBOUND_KINDS" by (simp add: link_ok_def)
    with inbound_ok [OF assms that(2) get_frame_ok(1) [OF ok that(1)]] show ?thesis by simp
  qed
  with assms mark_closed_ok show ?thesis
    by (auto simp: exchange_round_def Let_def split: situation.split option.split)
qed

lemma exchange_poll_ok:
  assumes "link_ok l" "k \<in> fst ` set (exchange_locks l)"
  shows "link_ok (snd (exchange_poll k now l))"
proof -
  obtain r l' where e: "exchange_round k now l = (r, l')" by fastforce
  with exchange_round_ok [OF assms(1), of k now] assms(2) hold_ok show ?thesis by (simp add: exchange_poll_def)
qed

lemma close_link_ok: "link_ok l \<Longrightarrow> link_ok (close_link out l)"
  by (simp add: close_link_def mark_closed_ok send_frame_ok)

subsection \<open>Every reachable link\<close>

text \<open>The calls on a link; a poll happens only inside an exchange of its kind.\<close>

datatype link_call =
    ReadAll stream
  | Start "chars arg" "byte list arg" "int arg" bool wait_outcome write_outcome
  | Poll chars situation
  | Close write_outcome

fun link_after :: "link_call \<Rightarrow> link \<Rightarrow> link" where
  "link_after (ReadAll s) l = reader_loop s l"
| "link_after (Start kind my tm c late out) l = snd (exchange_start kind my tm c late out l)"
| "link_after (Poll k now) l = (if k \<in> fst ` set (exchange_locks l) then snd (exchange_poll k now l) else l)"
| "link_after (Close out) l = close_link out l"

inductive link_reachable :: "link \<Rightarrow> bool" where
  opened: "link_reachable l" if "new_link version out = Inr (bytes, l)"
| called: "link_reachable (link_after a l)" if "link_reachable l"

lemma frame_sent:
  "send_frame p c out l = (Inr bytes, l') \<Longrightarrow> l' = l \<and> frame_bytes p = Inr bytes \<and> \<not> link_closed l"
  by (auto simp: send_frame_def split: sum.splits if_split_asm write_outcome.splits)

lemma new_link_fresh:
  assumes "new_link v out = Inr (bytes, l)"
  shows "\<exists>rom. validate_rom_version v = Inr rom \<and> l = fresh_link rom"
proof -
  obtain rom p where r: "validate_rom_version v = Inr rom"
    "(case send_frame p False out (fresh_link rom) of (Inl e, _) \<Rightarrow> Inl e | (Inr bytes, l) \<Rightarrow> Inr (bytes, l)) = Inr (bytes, l)"
    using assms by (auto simp: new_link_def result_simps)
  obtain x l' where s: "send_frame p False out (fresh_link rom) = (x, l')" by fastforce
  with r(2) have "x = Inr bytes" "l' = l" by (auto split: sum.splits)
  with frame_sent s r(1) show ?thesis by blast
qed

lemma link_after_ok: "link_ok l \<Longrightarrow> link_ok (link_after a l)"
  by (cases a) (simp_all add: reader_loop_ok exchange_start_ok exchange_poll_ok close_link_ok)

lemma link_reachable_ok: "link_reachable l \<Longrightarrow> link_ok l"
  by (induction rule: link_reachable.induct) (auto dest: new_link_fresh simp: fresh_link_ok link_after_ok)

lemma link_reachable_foldl: "link_reachable l \<Longrightarrow> link_reachable (foldl (\<lambda>l a. link_after a l) l as)"
  by (induction "as" arbitrary: l) (auto intro: called)

text \<open>
  No peer can make a link hoard. In every state reached by reading whatever bytes the peer sends and by
  any exchanges, the link keeps at most 256 kinds, 32 frames of one kind, 256 frames and four megabytes in
  all; its two counts are exactly what is queued; and once it is closed it holds nothing.
\<close>

theorem link_bounded:
  assumes "link_reachable l"
  shows "length (queues (inbound l)) \<le> 256 \<and> length (queue_of (inbound l) k) \<le> 32 \<and> length (exchange_locks l) \<le> 256
     \<and> frame_count (inbound l) = length (queued (inbound l)) \<and> frame_count (inbound l) \<le> 256
     \<and> byte_count (inbound l) = sum_list (map length (queued (inbound l))) \<and> byte_count (inbound l) \<le> 4194304
     \<and> (link_closed l \<longrightarrow> queue_of (inbound l) k = [] \<and> frame_count (inbound l) = 0)"
proof -
  have ok: "link_ok l" by (rule link_reachable_ok [OF assms])
  then have "store_ok (inbound l)" by (simp add: link_ok_def)
  with queue_length [of "inbound l" k] ok show ?thesis
    by (auto simp: link_ok_def store_ok_def MAX_INBOUND_KINDS_def MAX_INBOUND_FRAMES_PER_KIND_def MAX_INBOUND_FRAMES_def
        MAX_INBOUND_BYTES_def)
qed

definition sample_rom :: chars where "sample_rom = [114, 101, 100]"

definition sample_link :: link where "sample_link = fresh_link sample_rom"

lemma valid_roms:
  "validate_rom_version (Arg [114, 101, 100]) = Inr [114, 101, 100]"
  "validate_rom_version (Arg [98, 108, 117, 101]) = Inr [98, 108, 117, 101]"
  by (simp_all add: validate_rom_version_def strip_def is_space_def lower_def SUPPORTED_ROM_VERSIONS_def codes_def)

lemma be_bytes_4: "be_bytes 4 v = [word_of_int (v div 256 div 256 div 256), word_of_int (v div 256 div 256), word_of_int (v div 256), word_of_int v]"
  by (simp add: numeral_eq_Suc)

lemma sample_hello: "new_link (Arg sample_rom) SentAll = Inr ([0, 0, 0, 5, 1, 3, 114, 101, 100], sample_link)"
  by (simp add: new_link_def sample_rom_def sample_link_def valid_roms hello_payload_def pack_lp_str_def utf8_encode_def
      encodable_def surrogate_def utf8_units_def send_frame_def frame_bytes_def MAX_FRAME_SIZE_def fresh_link_def OP_HELLO_def
      be_bytes_4)

lemma sample_link_reachable: "link_reachable sample_link"
  by (rule link_reachable.opened [OF sample_hello])

text \<open>A link that heard the peer's HELLO and then one exchange frame of kind \<open>x\<close>.\<close>

definition sample_stream :: stream where
  "sample_stream = \<lparr>arriving = [0, 0, 0, 6, 1, 4, 98, 108, 117, 101] @ [0, 0, 0, 7, 0x10, 1, 120, 0, 2, 7, 9], afterwards = Silent\<rparr>"

definition sample_fed :: link where "sample_fed = reader_loop sample_stream sample_link"

lemma sample_fed_reachable: "link_reachable sample_fed"
proof -
  have "link_reachable (link_after (ReadAll sample_stream) sample_link)" by (rule called [OF sample_link_reachable])
  then show ?thesis by (simp add: sample_fed_def)
qed

lemma sample_frames:
  "read_frame sample_stream = Got [1, 4, 98, 108, 117, 101] \<lparr>arriving = [0, 0, 0, 7, 0x10, 1, 120, 0, 2, 7, 9], afterwards = Silent\<rparr>"
  "read_frame \<lparr>arriving = [0, 0, 0, 7, 0x10, 1, 120, 0, 2, 7, 9], afterwards = Silent\<rparr>
     = Got [0x10, 1, 120, 0, 2, 7, 9] \<lparr>arriving = [], afterwards = Silent\<rparr>"
  "read_frame \<lparr>arriving = [], afterwards = Silent\<rparr> = Blocks"
  by (simp_all add: sample_stream_def read_frame_def read_exactly_def be_int_def MAX_FRAME_SIZE_def Let_def)

lemma sample_dispatches:
  "dispatch [1, 4, 98, 108, 117, 101] sample_link = (Inr (), sample_link\<lparr>peer_rom := Some [98, 108, 117, 101], hello_received := True\<rparr>)"
  "peer_rom l \<noteq> None \<Longrightarrow> dispatch [0x10, 1, 120, 0, 2, 7, 9] l = enqueue [120] [7, 9] l"
  by (auto simp: dispatch_def dispatch_hello_def dispatch_exchange_def read_lp_str_def read_lp_bytes_def be_int_def utf8_decode_def
      valid_roms validate_exchange_kind_def OP_HELLO_def OP_EXCHANGE_def sample_link_def fresh_link_def Let_def)

lemma sample_fed_state:
  "sample_fed = sample_link\<lparr>peer_rom := Some [98, 108, 117, 101], hello_received := True,
     inbound := \<lparr>queues = [([120], [[7, 9]])], frame_count = 1, byte_count = 2\<rparr>\<rparr>"
proof -
  let ?l = "sample_link\<lparr>peer_rom := Some [98, 108, 117, 101], hello_received := True\<rparr>"
  let ?s = "\<lparr>queues = [([120], [[7, 9]])], frame_count = 1, byte_count = 2\<rparr>"
  have q: "enqueue [120] [7, 9] ?l = (Inr (), ?l\<lparr>inbound := ?s\<rparr>)"
    by (simp add: sample_link_def fresh_link_def enqueue_def open_queue_def put_frame_def put_problem_def set_queue_def
        empty_store_def queue_of_def MAX_INBOUND_KINDS_def MAX_INBOUND_FRAMES_def MAX_INBOUND_BYTES_def
        MAX_INBOUND_FRAMES_PER_KIND_def)
  have c: "\<not> link_closed sample_link" by (simp add: sample_link_def fresh_link_def)
  show ?thesis
    by (simp add: sample_fed_def reader_loop.simps [of sample_stream] reader_loop.simps [of "\<lparr>arriving = xs, afterwards = Silent\<rparr>" for xs]
        sample_frames sample_dispatches q c)
qed

theorem link_bounded_witness:
  "queue_of (inbound sample_fed) [120] = [[7, 9]] \<and> frame_count (inbound sample_fed) \<le> 256"
proof -
  have "queue_of (inbound sample_fed) [120] = [[7, 9]]" by (simp add: sample_fed_state queue_of_def)
  with link_bounded [OF sample_fed_reachable, of "[120]"] show ?thesis by simp
qed

end
