(* ===== verification/Link_Exchange.thy ===== *)
theory Link_Exchange
  imports Link_Safety
begin

text \<open>Exchanges between two links: requests reach the peer's queue, answers come back in order, and a link that gave up never answers again.\<close>

subsection \<open>From one link to the other\<close>

lemma hello_before_request:
  assumes "wait_for_hello late l = (Inr rom, l1)"
  shows "l1 = l" "\<not> link_closed l" "peer_rom l = Some rom"
  using assms by (auto simp: wait_for_hello_def Let_def split: if_split_asm option.splits wait_outcome.splits)

lemma request_bytes:
  assumes "send_request k p c late out l = (Inr bytes, l')"
  shows "\<exists>body. exchange_payload k p = Inr body \<and> frame_bytes body = Inr bytes"
proof -
  obtain r l1 where w: "wait_for_hello late l = (r, l1)" by fastforce
  with assms obtain rom where r: "r = Inr rom" by (cases r) (auto simp: send_request_def)
  from assms w r obtain body s where "exchange_payload k p = Inr body" "send_frame body c out (l1\<lparr>inbound := s\<rparr>) = (Inr bytes, l')"
    by (auto simp: send_request_def split: sum.splits)
  with frame_sent show ?thesis by blast
qed

lemma start_bytes:
  assumes "exchange_start (Arg k) (Arg p) tm c late out l = (Inr bytes, l')"
  shows "valid_exchange k p \<and> (\<exists>body. exchange_payload k p = Inr body \<and> frame_bytes body = Inr bytes)"
proof -
  obtain v where v: "rbind (validate_timeout_ms tm) (\<lambda>_. rbind (validate_exchange_kind (Arg k)) (\<lambda>k.
             rbind (coerce_exchange_payload (Arg p)) (\<lambda>p. Inr (k, p)))) = v" by blast
  with assms obtain k' p' where kp: "v = Inr (k', p')" by (cases v) (auto simp: exchange_start_def)
  then have valid: "valid_exchange k p" "k' = k" "p' = p"
    using v valid_kind(1) [of k]
    by (auto simp: result_simps valid_exchange_def coerce_exchange_payload_def split: if_split_asm)
  from assms v kp obtain l1 where l1: "get_exchange_lock k l = Inr l1" "\<not> c"
      "(case send_request k p c late out (hold k True l1) of
           (Inl e, l2) \<Rightarrow> (Inl e, hold k False l2) | (Inr bytes, l2) \<Rightarrow> (Inr bytes, l2)) = (Inr bytes, l')"
    using valid by (auto simp: exchange_start_def split: if_split_asm option.splits sum.splits wait_outcome.splits)
  obtain r l2 where s: "send_request k p c late out (hold k True l1) = (r, l2)" by fastforce
  with l1(3) have "r = Inr bytes" by (cases r) auto
  with request_bytes s valid(1) show ?thesis by blast
qed

text \<open>
  C25. A request reaches the peer. The bytes that an exchange sends, arriving at a link that is open and has
  heard a HELLO, followed by whatever else, put exactly the payload at the end of the queue of its kind and
  leave every other queue alone, as long as the peer has room; the reader then goes on with the rest.
\<close>

theorem request_reaches_peer:
  assumes "exchange_start (Arg k) (Arg p) tm c late out a = (Inr bytes, a')"
    and "link_reachable b" "\<not> link_closed b" "peer_rom b \<noteq> None" "enqueue k p b = (Inr (), b')"
  shows "reader_loop \<lparr>arriving = bytes @ rest, afterwards = x\<rparr> b = reader_loop \<lparr>arriving = rest, afterwards = x\<rparr> b'
     \<and> queue_of (inbound b') = (queue_of (inbound b))(k := queue_of (inbound b) k @ [p])"
proof -
  obtain body where body: "valid_exchange k p" "exchange_payload k p = Inr body" "frame_bytes body = Inr bytes"
    using start_bytes [OF assms(1)] by blast
  with exchange_frame [OF body(1)] assms(4) have d: "dispatch body b = enqueue k p b" by auto
  have "reader_loop \<lparr>arriving = bytes @ rest, afterwards = x\<rparr> b = reader_loop \<lparr>arriving = rest, afterwards = x\<rparr> b'"
    using assms(3,5) d frame_back [OF body(3), of rest x]
    by (simp add: reader_loop.simps [of "\<lparr>arriving = bytes @ rest, afterwards = x\<rparr>"])
  moreover have "queue_of (inbound b') = (queue_of (inbound b))(k := queue_of (inbound b) k @ [p])"
  proof -
    have ok: "link_ok b" by (rule link_reachable_ok [OF assms(2)])
    obtain s s' where s: "open_queue True k (inbound b) = Inr s" "put_frame k p s = Inr s'" "b' = b\<lparr>inbound := s'\<rparr>"
      using assms(3,5) by (auto simp: enqueue_def split: sum.splits)
    from put_frame_ok(2) [OF opened_ok(1) [OF ok s(1)] s(2)] opened_ok(3) [OF ok s(1)] s(3) show ?thesis by simp
  qed
  ultimately show ?thesis by blast
qed

lemma be_bytes_2: "be_bytes 2 v = [word_of_int (v div 256), word_of_int v]"
  by (simp add: numeral_2_eq_2)

lemma fed_request:
  "exchange_start (Arg [120]) (Arg [5]) (Arg 100) False TimesOut SentAll sample_fed =
     (Inr [0, 0, 0, 6, 0x10, 1, 120, 0, 1, 5], hold [120] True (sample_fed\<lparr>exchange_locks := [([120], False)]\<rparr>))"
  by (simp add: sample_fed_state sample_link_def fresh_link_def exchange_start_def validate_timeout_ms_def validate_exchange_kind_def
      coerce_exchange_payload_def MAX_EXCHANGE_PAYLOAD_SIZE_def reader_failed_def get_exchange_lock_def MAX_INBOUND_KINDS_def
      send_request_def hold_def wait_for_hello_def exchange_payload_def pack_lp_str_def utf8_encode_def encodable_def surrogate_def
      utf8_units_def pack_lp_bytes_def open_queue_def send_frame_def frame_bytes_def MAX_FRAME_SIZE_def OP_EXCHANGE_def be_bytes_4 be_bytes_2)

theorem request_reaches_peer_witness:
  "\<exists>b'. reader_loop \<lparr>arriving = [0, 0, 0, 6, 0x10, 1, 120, 0, 1, 5] @ [], afterwards = Silent\<rparr> sample_fed
       = reader_loop \<lparr>arriving = [], afterwards = Silent\<rparr> b' \<and> queue_of (inbound b') [120] = [[7, 9], [5]]"
proof -
  have q: "enqueue [120] [5] sample_fed = (Inr (), sample_fed\<lparr>inbound := \<lparr>queues = [([120], [[7, 9], [5]])], frame_count = 2, byte_count = 3\<rparr>\<rparr>)"
    by (simp add: sample_fed_state sample_link_def fresh_link_def enqueue_def open_queue_def put_frame_def put_problem_def set_queue_def
        queue_of_def MAX_INBOUND_KINDS_def MAX_INBOUND_FRAMES_def MAX_INBOUND_BYTES_def MAX_INBOUND_FRAMES_PER_KIND_def)
  have "\<not> link_closed sample_fed" "peer_rom sample_fed \<noteq> None" "queue_of (inbound sample_fed) [120] = [[7, 9]]"
    by (simp_all add: sample_fed_state sample_link_def fresh_link_def queue_of_def)
  with request_reaches_peer [OF fed_request sample_fed_reachable _ _ q, of "[]" Silent] show ?thesis by auto
qed

subsection \<open>Order\<close>

text \<open>
  The link itself as a delivery queue. An exchange frame arrives as the reader handles it: it is taken, or
  the reader stops, which closes the link and drains every queue. A round of a waiting exchange, inside an
  exchange of its kind, yields a payload, or nothing, or closes the link. The other steps are the starts of
  exchanges, the end of the reader for any reason (a broken stream, a malformed frame, a BYE) and the
  owner's close.
\<close>

definition link_put :: "chars \<Rightarrow> byte list \<Rightarrow> link \<Rightarrow> bool \<times> link" where
  "link_put k p l =
     (case (if peer_rom l = None then protocol_error ''HELLO must be the first frame received'' l else enqueue k p l) of
        (Inl e, l') \<Rightarrow> (False, (if link_closed l then l else reader_stops e l')\<lparr>hello_received := True\<rparr>)
      | (Inr _, l') \<Rightarrow> (True, l'))"

definition link_get :: "chars \<Rightarrow> situation \<Rightarrow> link \<Rightarrow> byte list option \<times> link" where
  "link_get k now l =
     (if k \<notin> fst ` set (exchange_locks l) then (None, l)
      else case exchange_poll k now l of (r, l') \<Rightarrow> (case r of Returns p \<Rightarrow> Some p | _ \<Rightarrow> None, l'))"

datatype link_event =
    Begins "chars arg" "byte list arg" "int arg" bool wait_outcome write_outcome
  | ReaderEnds link_error
  | Closes write_outcome

fun link_other :: "link_event \<Rightarrow> link \<Rightarrow> link" where
  "link_other (Begins kind my tm c late out) l = snd (exchange_start kind my tm c late out l)"
| "link_other (ReaderEnds e) l = (reader_stops e l)\<lparr>hello_received := True\<rparr>"
| "link_other (Closes out) l = close_link out l"

text \<open>The arrival of a frame's bytes is what the reader does with them, then with the rest of the stream.\<close>

lemma arrival_is_reader:
  assumes "valid_exchange k p" "exchange_payload k p = Inr body" "frame_bytes body = Inr bytes"
  shows "reader_loop \<lparr>arriving = bytes @ rest, afterwards = x\<rparr> l =
     (case link_put k p l of (taken, l') \<Rightarrow> if taken then reader_loop \<lparr>arriving = rest, afterwards = x\<rparr> l' else l')"
proof (cases "link_closed l")
  case True
  then show ?thesis
    by (simp add: reader_loop.simps [of "\<lparr>arriving = bytes @ rest, afterwards = x\<rparr>"] link_put_def enqueue_def protocol_error_def)
next
  case False
  have d: "peer_rom l \<noteq> None \<Longrightarrow> dispatch body l = enqueue k p l" using exchange_frame [OF assms(1)] assms(2) by auto
  have early: "peer_rom l = None \<Longrightarrow> dispatch body l = protocol_error ''HELLO must be the first frame received'' l"
    using assms(2) by (auto simp: exchange_payload_def dispatch_def OP_EXCHANGE_def OP_HELLO_def result_simps)
  show ?thesis
    using False d early frame_back [OF assms(3), of rest x]
    by (cases "peer_rom l = None")
      (auto simp: reader_loop.simps [of "\<lparr>arriving = bytes @ rest, afterwards = x\<rparr>"] link_put_def split: prod.split sum.split)
qed

text \<open>A start either closes the link or leaves the queues as they are.\<close>

definition untouched :: "link \<Rightarrow> link \<Rightarrow> bool" where
  "untouched l l' \<longleftrightarrow> link_closed l' \<or> \<not> link_closed l \<and> queue_of (inbound l') = queue_of (inbound l)"

lemma untouched_refl [simp]: "untouched l l"
  by (simp add: untouched_def)

lemma untouched_closed: "link_closed l' \<Longrightarrow> untouched l l'"
  by (simp add: untouched_def)

lemma untouched_hold [simp]: "untouched l (hold k b l') = untouched l l'" "untouched (hold k b l) l' = untouched l l'"
  by (simp_all add: untouched_def hold_def)

lemma wait_untouched: "untouched l (snd (wait_for_hello late l))"
  by (auto simp: wait_for_hello_def Let_def untouched_closed split: wait_outcome.split option.split)

lemma send_request_untouched:
  assumes "link_ok l"
  shows "untouched l (snd (send_request k p c late out l))"
proof -
  obtain r l1 where w: "wait_for_hello late l = (r, l1)" by fastforce
  show ?thesis
  proof (cases r)
    case (Inl e)
    with w wait_untouched [of l late] show ?thesis by (simp add: send_request_def)
  next
    case (Inr rom)
    with w hello_before_request have l: "l1 = l" "\<not> link_closed l" by blast+
    have "untouched l (snd (send_frame body c out (l\<lparr>inbound := s\<rparr>)))" if "open_queue True k (inbound l) = Inr s" for s body
      using opened_ok(3) [OF assms that] l(2)
      by (auto simp: send_frame_def untouched_def split: sum.split write_outcome.split)
    with w Inr l(1) show ?thesis by (simp add: send_request_def split: sum.split)
  qed
qed

lemma start_untouched:
  assumes "link_ok l"
  shows "untouched l (snd (exchange_start kind my tm c late out l))"
proof -
  have lock: "link_ok (hold k True l1) \<and> untouched l l1 \<and> (\<forall>x. untouched l1 x \<longrightarrow> untouched l x)" if "get_exchange_lock k l = Inr l1" for k l1
    using hold_ok [OF get_lock_ok(1,2) [OF assms that]] that by (auto simp: get_exchange_lock_def untouched_def split: if_split_asm)
  have req: "untouched l l2" if "get_exchange_lock k l = Inr l1" "send_request k p c late out (hold k True l1) = (r, l2)" for k p c l1 r l2
    using send_request_untouched [of "hold k True l1" k p c late out] lock [OF that(1)] that(2) by auto
  show ?thesis
    using lock by (auto dest: req simp: exchange_start_def split: sum.split option.split wait_outcome.split prod.split)
qed

lemma poll_untouched:
  assumes "link_ok l" "k \<in> fst ` set (exchange_locks l)" "exchange_poll k now l = (r, l')"
  shows "case r of
      Returns p \<Rightarrow> queue_of (inbound l) = (queue_of (inbound l'))(k := p # queue_of (inbound l') k)
    | _ \<Rightarrow> untouched l l'"
proof -
  have ok: "store_ok (inbound l)" using assms(1) by (simp add: link_ok_def)
  obtain l1 where r: "exchange_round k now l = (r, l1)" "l' = (if r = Waits then l1 else hold k False l1)"
    using assms(3) by (auto simp: exchange_poll_def split: prod.splits)
  have "case r of
      Returns p \<Rightarrow> queue_of (inbound l) = (queue_of (inbound l1))(k := p # queue_of (inbound l1) k)
    | _ \<Rightarrow> untouched l l1"
    using r(1) get_frame_ok(2,3) [OF ok]
    by (auto simp: exchange_round_def Let_def untouched_closed fun_eq_iff
        split: if_split_asm situation.splits option.splits poll.splits prod.splits)
  then show ?thesis unfolding r(2) by (cases r) simp_all
qed

interpretation tcp: closing_queue link_put link_get link_other "\<lambda>l. queue_of (inbound l)" link_ok link_closed
proof unfold_locales
  show "queue_of (inbound l) k = []" if "link_ok l" "link_closed l" for l k
    using that by (simp add: link_ok_def)
next
  fix k p l l'
  assume ok: "link_ok l" and put: "link_put k p l = (True, l')"
  have e: "enqueue k p l = (Inr (), l')"
    using put by (auto simp: link_put_def protocol_error_def split: if_split_asm sum.splits prod.splits)
  then obtain s s' where s: "\<not> link_closed l" "open_queue True k (inbound l) = Inr s" "put_frame k p s = Inr s'" "l' = l\<lparr>inbound := s'\<rparr>"
    by (auto simp: enqueue_def split: sum.splits if_split_asm)
  from enqueue_ok [OF ok, of k p] e put_frame_ok(2) [OF opened_ok(1) [OF ok s(2)] s(3)] opened_ok(3) [OF ok s(2)] s(1,4)
  show "link_ok l' \<and> \<not> link_closed l \<and> queue_of (inbound l') = (queue_of (inbound l))(k := queue_of (inbound l) k @ [p])" by simp
next
  fix k p l l'
  assume ok: "link_ok l" and put: "link_put k p l = (False, l')"
  obtain r l1 where r: "(if peer_rom l = None then protocol_error ''HELLO must be the first frame received'' l else enqueue k p l) = (r, l1)"
    by fastforce
  have "link_ok l1" using r ok enqueue_ok [OF ok, of k p] by (auto simp: protocol_error_def split: if_split_asm)
  moreover obtain e where "l' = (if link_closed l then l else reader_stops e l1)\<lparr>hello_received := True\<rparr>"
    using put r by (cases r) (auto simp: link_put_def)
  ultimately show "link_ok l' \<and> (link_closed l' \<or> \<not> link_closed l \<and> queue_of (inbound l') = queue_of (inbound l))" "link_closed l'"
    using ok reader_stops_ok by (auto simp: reader_stops_def)
next
  fix k now p l l'
  assume ok: "link_ok l" and got: "link_get k now l = (Some p, l')"
  then have "k \<in> fst ` set (exchange_locks l)" "exchange_poll k now l = (Returns p, l')"
    by (auto simp: link_get_def split: if_split_asm poll.splits prod.splits)
  from poll_untouched [OF ok this] exchange_poll_ok [OF ok this(1), of now] this(2)
  show "link_ok l' \<and> queue_of (inbound l) = (queue_of (inbound l'))(k := p # queue_of (inbound l') k)" by simp
next
  fix k now l l'
  assume ok: "link_ok l" and got: "link_get k now l = (None, l')"
  show "link_ok l' \<and> (link_closed l' \<or> \<not> link_closed l \<and> queue_of (inbound l') = queue_of (inbound l))"
  proof (cases "k \<in> fst ` set (exchange_locks l)")
    case True
    with got obtain r where r: "exchange_poll k now l = (r, l')" "\<forall>p. r \<noteq> Returns p"
      by (auto simp: link_get_def split: poll.splits prod.splits)
    from poll_untouched [OF ok True r(1)] exchange_poll_ok [OF ok True, of now] r show ?thesis
      by (cases r) (auto simp: untouched_def)
  next
    case False
    with got ok show ?thesis by (auto simp: link_get_def link_ok_def)
  qed
next
  fix a l
  assume ok: "link_ok l"
  show "link_ok (link_other a l) \<and> (link_closed (link_other a l) \<or> \<not> link_closed l \<and> queue_of (inbound (link_other a l)) = queue_of (inbound l))"
  proof (cases a)
    case (Begins kind my tm c late out)
    with start_untouched [OF ok] exchange_start_ok [OF ok] show ?thesis by (auto simp: untouched_def)
  next
    case (ReaderEnds e)
    with reader_stops_ok [OF ok, of e] show ?thesis by (simp add: reader_stops_def)
  next
    case (Closes out)
    with close_link_ok [OF ok, of out] show ?thesis by (auto simp: close_link_def)
  qed
qed

text \<open>
  C23. Exchanges of one kind pair up in order. Whatever the interleaving of arriving exchange frames, waiting
  exchanges of any kinds that go on, time out or are cancelled, starts of exchanges and ends of the link,
  what was queued for a kind and what then arrived for it is, in order, what its exchanges returned, then
  what is still queued, then what was dropped: no payload is repeated, reordered or handed to another kind.
  While the link is open every arrival was taken and none was dropped; the first one that does not fit
  closes the link, and then nothing more is taken and no frame or byte stays queued.
\<close>

theorem exchanges_pair_in_order:
  assumes "link_reachable l" "run_ops link_put link_get link_other ops l = (arrived, returned, l')"
  shows "(\<exists>dropped. queue_of (inbound l) k @ of_kind k arrived = of_kind k returned @ queue_of (inbound l') k @ dropped
       \<and> (\<not> link_closed l' \<longrightarrow> dropped = []))
     \<and> (\<exists>late. puts ops = arrived @ late \<and> (\<not> link_closed l' \<longrightarrow> late = []))
     \<and> (link_closed l' \<longrightarrow> queue_of (inbound l') k = [] \<and> frame_count (inbound l') = 0 \<and> byte_count (inbound l') = 0)"
proof -
  have ok: "link_ok l" by (rule link_reachable_ok [OF assms(1)])
  from tcp.fifo [OF ok assms(2), of k] tcp.taken_first [OF ok assms(2)] show ?thesis by (auto simp: link_ok_def)
qed

definition sample_traffic :: "(chars, byte list, situation, link_event) queue_op list" where
  "sample_traffic = [Other (Begins (Arg [120]) (Arg [5]) (Arg 100) False TimesOut SentAll), Put [121] [1],
     Get [120] Running, Put [120] [5], Get [120] DeadlinePassed, Put [120] [6]]"

theorem exchanges_pair_in_order_witness:
  "case run_ops link_put link_get link_other sample_traffic sample_fed of
     (arrived, returned, l') \<Rightarrow> returned = [([120], [7, 9])] \<and> link_closed l' \<and> frame_count (inbound l') = 0
       \<and> (\<exists>dropped. [[7, 9]] @ of_kind [120] arrived = of_kind [120] returned @ dropped)
       \<and> (\<exists>late. puts sample_traffic = arrived @ late)"
proof -
  obtain arrived returned l' where r: "run_ops link_put link_get link_other sample_traffic sample_fed = (arrived, returned, l')"
    by (metis prod_cases3)
  have "run_ops link_put link_get link_other sample_traffic sample_fed =
      run_ops link_put link_get link_other (tl sample_traffic) (hold [120] True (sample_fed\<lparr>exchange_locks := [([120], False)]\<rparr>))"
    by (simp add: sample_traffic_def fed_request)
  moreover have "case run_ops link_put link_get link_other (tl sample_traffic) (hold [120] True (sample_fed\<lparr>exchange_locks := [([120], False)]\<rparr>)) of
      (arrived, returned, l') \<Rightarrow> returned = [([120], [7, 9])] \<and> link_closed l'"
    by (simp add: sample_traffic_def sample_link_def fresh_link_def sample_fed_state link_put_def link_get_def enqueue_def
        open_queue_def exchange_poll_def exchange_round_def put_frame_def put_problem_def get_frame_def queue_of_def set_queue_def
        hold_def reader_failed_def mark_closed_def reader_stops_def Let_def drain_def MAX_INBOUND_KINDS_def MAX_INBOUND_FRAMES_def
        MAX_INBOUND_BYTES_def MAX_INBOUND_FRAMES_PER_KIND_def)
  ultimately have "case run_ops link_put link_get link_other sample_traffic sample_fed of
      (arrived, returned, l') \<Rightarrow> returned = [([120], [7, 9])] \<and> link_closed l'" by simp
  then have l': "returned = [([120], [7, 9])]" "link_closed l'" unfolding r by simp_all
  have q: "queue_of (inbound sample_fed) [120] = [[7, 9]]" by (simp add: sample_fed_state queue_of_def)
  show ?thesis
    unfolding r using exchanges_pair_in_order [OF sample_fed_reachable r, of "[120]"] l' unfolding q by auto
qed

subsection \<open>The end of a link\<close>

text \<open>
  The first frame decides. On an open link that heard no HELLO yet, a complete frame that is not a HELLO
  ends the link with a protocol error, nothing is queued, and no later byte is looked at.
\<close>

theorem hello_comes_first:
  assumes "link_reachable l" "\<not> link_closed l" "peer_rom l = None" "read_frame s = Got (opcode # args) s'" "opcode \<noteq> OP_HELLO"
  shows "link_closed (reader_loop s l) \<and> peer_rom (reader_loop s l) = None
     \<and> reader_exc (reader_loop s l) = Some (SerialLinkProtocolError ''HELLO must be the first frame received'')
     \<and> queue_of (inbound (reader_loop s l)) k = []"
proof -
  have d: "dispatch (opcode # args) l = (Inl (SerialLinkProtocolError ''HELLO must be the first frame received''), l)"
    using assms(3,5) by (simp add: dispatch_def protocol_error_def)
  have "reader_loop s l = (mark_closed (Some (SerialLinkProtocolError ''HELLO must be the first frame received'')) l)\<lparr>hello_received := True\<rparr>"
    using assms(2,4) d by (simp add: reader_loop.simps [of s l] reader_stops_def)
  then show ?thesis using assms(2,3) drain_ok(2) by (simp add: mark_closed_def)
qed

theorem hello_comes_first_witness:
  "reader_exc (reader_loop \<lparr>arriving = [0, 0, 0, 7, 0x10, 1, 120, 0, 2, 7, 9], afterwards = Silent\<rparr> sample_link)
     = Some (SerialLinkProtocolError ''HELLO must be the first frame received'')"
proof -
  have "\<not> link_closed sample_link" "peer_rom sample_link = None" "(0x10 :: byte) \<noteq> OP_HELLO"
    by (simp_all add: sample_link_def fresh_link_def OP_HELLO_def)
  from hello_comes_first [OF sample_link_reachable this(1,2) sample_frames(2) this(3)] show ?thesis by blast
qed

lemma closed_stays:
  assumes "link_closed l"
  shows "link_closed (link_after a l)" "reader_exc l = Some e \<Longrightarrow> reader_exc (link_after a l) = Some e"
proof -
  have start: "snd (exchange_start kind my tm c late out l) = l" for kind my tm c late out
    using assms by (auto simp: exchange_start_def split: sum.split prod.split)
  have poll: "inbound (snd (exchange_poll k now l)) = inbound l" "link_closed (snd (exchange_poll k now l))"
    "reader_exc (snd (exchange_poll k now l)) = reader_exc l" for k now
    using assms by (auto simp: exchange_poll_def exchange_round_def hold_def)
  show "link_closed (link_after a l)" "reader_exc l = Some e \<Longrightarrow> reader_exc (link_after a l) = Some e"
    using assms start poll by (cases a; simp add: reader_loop.simps close_link_def)+
qed

lemma closed_stays_foldl:
  "link_closed l \<Longrightarrow> link_closed (foldl (\<lambda>l a. link_after a l) l as)"
  "link_closed l \<Longrightarrow> reader_exc l = Some e \<Longrightarrow> reader_exc (foldl (\<lambda>l a. link_after a l) l as) = Some e"
  by (induction "as" arbitrary: l) (simp_all add: closed_stays)

text \<open>
  C24. A late answer is never used. When a waiting exchange of an open link times out or is cancelled, the
  link is closed for good: after any further sequence of calls, whatever bytes arrive, every exchange fails
  to start, every waiting one fails, and the first error stays the recorded one.
\<close>

theorem late_answer_never_used:
  assumes "link_reachable l" "\<not> link_closed l" "now \<noteq> Running" "exchange_poll k now l = (r, l')"
    and m: "m = foldl (\<lambda>l a. link_after a l) l' as"
  shows "link_closed m \<and> (\<exists>e. r = Fails e \<and> reader_exc m = Some e)
     \<and> (\<exists>e. fst (exchange_start kind my tm c late out m) = Inl e) \<and> (\<exists>e. fst (exchange_poll k' now' m) = Fails e)"
proof -
  have none: "reader_exc l = None" using link_reachable_ok [OF assms(1)] assms(2) by (auto simp: link_ok_def)
  obtain e where e: "r = Fails e" "link_closed l'" "reader_exc l' = Some e"
    using assms(2-4) none
    by (cases now) (auto simp: exchange_poll_def exchange_round_def reader_failed_def mark_closed_def Let_def)
  then have m: "link_closed m" "reader_exc m = Some e" unfolding m by (simp_all add: closed_stays_foldl)
  then have "\<exists>e. fst (exchange_start kind my tm c late out m) = Inl e"
    by (auto simp: exchange_start_def split: sum.split prod.split)
  moreover have "\<exists>e. fst (exchange_poll k' now' m) = Fails e" using m by (simp add: exchange_poll_def exchange_round_def)
  ultimately show ?thesis using e(1) m by blast
qed

theorem late_answer_never_used_witness:
  "\<exists>e. fst (exchange_start (Arg [120]) (Arg []) (Arg 1) False TimesOut SentAll
     (foldl (\<lambda>l a. link_after a l) (snd (exchange_poll [120] DeadlinePassed sample_fed)) [ReadAll sample_stream])) = Inl e"
proof -
  obtain r l' where p: "exchange_poll [120] DeadlinePassed sample_fed = (r, l')" by fastforce
  have "\<not> link_closed sample_fed" by (simp add: sample_fed_state sample_link_def fresh_link_def)
  from late_answer_never_used [OF sample_fed_reachable this _ p refl, where as = "[ReadAll sample_stream]" and kind = "Arg [120]"
      and my = "Arg []" and tm = "Arg 1" and c = False and late = TimesOut and out = SentAll] p
  show ?thesis by simp
qed

end
