(* ===== verification/Cable_Link.thy ===== *)
theory Cable_Link
  imports Serial_Link
begin

text \<open>
  The in-process serial link (\<open>link/serial_link.py\<close>, class \<open>InProcessSerialLink\<close>): two endpoints over
  shared queues with the same budgets as the TCP link, one shared closed flag, and one exchange of a kind at
  a time on each endpoint. An endpoint's inbox is what its peer sent and it has not returned yet.
\<close>

datatype endpoint = EndA | EndB

fun peer_end :: "endpoint \<Rightarrow> endpoint" where
  "peer_end EndA = EndB"
| "peer_end EndB = EndA"

record cable =
  inbox :: "endpoint \<Rightarrow> store"
  slot_locks :: "endpoint \<Rightarrow> (chars \<times> bool) list"
  cable_closed :: bool

definition new_cable :: "chars arg \<Rightarrow> chars arg \<Rightarrow> link_error + cable" where
  "new_cable a_rom b_rom =
     rbind (validate_rom_version a_rom) (\<lambda>_. rbind (validate_rom_version b_rom) (\<lambda>_.
       Inr \<lparr>inbox = (\<lambda>_. empty_store), slot_locks = (\<lambda>_. []), cable_closed = False\<rparr>))"

definition set_inbox :: "endpoint \<Rightarrow> store \<Rightarrow> cable \<Rightarrow> cable" where
  "set_inbox e s c = c\<lparr>inbox := (inbox c)(e := s)\<rparr>"

definition set_lock :: "endpoint \<Rightarrow> chars \<Rightarrow> bool \<Rightarrow> cable \<Rightarrow> cable" where
  "set_lock e k b c = c\<lparr>slot_locks := (slot_locks c)(e := AList.update k b (slot_locks c e))\<rparr>"

definition close_cable :: "cable \<Rightarrow> cable" where
  "close_cable c = c\<lparr>cable_closed := True, inbox := (\<lambda>e. drain (inbox c e))\<rparr>"

definition cable_lock :: "endpoint \<Rightarrow> chars \<Rightarrow> cable \<Rightarrow> link_error + cable" where
  "cable_lock e k c =
     (if k \<in> fst ` set (slot_locks c e) then Inr c
      else if length (slot_locks c e) \<ge> MAX_INBOUND_KINDS then Inl (SerialLinkProtocolError ''exchange kind limit exceeded'')
      else Inr (set_lock e k False c))"

text \<open>Hand the payload to the peer; a full inbox closes the cable for both.\<close>

definition cable_send :: "endpoint \<Rightarrow> chars \<Rightarrow> byte list \<Rightarrow> cable \<Rightarrow> (link_error + unit) \<times> cable" where
  "cable_send e k p c =
     (if cable_closed c then (Inl (SerialLinkClosed ''link is closed''), c)
      else case put_frame k p (inbox c (peer_end e)) of
             Inl err \<Rightarrow> (Inl err, close_cable c)
           | Inr s \<Rightarrow> (Inr (), set_inbox (peer_end e) s c))"

definition cable_start ::
    "endpoint \<Rightarrow> chars arg \<Rightarrow> byte list arg \<Rightarrow> int arg \<Rightarrow> bool \<Rightarrow> wait_outcome \<Rightarrow> cable \<Rightarrow> (link_error + unit) \<times> cable" where
  "cable_start e kind my_bytes timeout_ms cancelled late c =
     (case rbind (validate_timeout_ms timeout_ms) (\<lambda>_. rbind (validate_exchange_kind kind) (\<lambda>k.
             rbind (coerce_exchange_payload my_bytes) (\<lambda>p. Inr (k, p)))) of
        Inl err \<Rightarrow> (Inl err, c)
      | Inr (k, p) \<Rightarrow>
          if cable_closed c then (Inl (SerialLinkClosed ''link is closed''), c)
          else (case cable_lock e k c of
                  Inl err \<Rightarrow> (Inl err, c)
                | Inr c1 \<Rightarrow>
                    if cancelled then (Inl (SerialLinkClosed ''exchange cancelled''), c1)
                    else if map_of (slot_locks c1 e) k = Some True
                    then (Inl (case late of TimesOut \<Rightarrow> SerialLinkTimeout ''exchange slot unavailable''
                                          | IsCancelled \<Rightarrow> SerialLinkClosed ''exchange cancelled''), c1)
                    else (case cable_send e k p (set_lock e k True c1) of
                            (Inl err, c2) \<Rightarrow> (Inl err, set_lock e k False c2)
                          | (Inr _, c2) \<Rightarrow> (Inr (), c2))))"

definition cable_round :: "endpoint \<Rightarrow> chars \<Rightarrow> situation \<Rightarrow> cable \<Rightarrow> poll \<times> cable" where
  "cable_round e k now c =
     (if cable_closed c then (Fails (SerialLinkClosed ''link is closed''), c)
      else case now of
             CancelSet \<Rightarrow> (Fails (SerialLinkClosed ''exchange cancelled''), close_cable c)
           | DeadlinePassed \<Rightarrow> (Fails (SerialLinkTimeout ''no peer EXCHANGE''), close_cable c)
           | Running \<Rightarrow>
               (case get_frame k (inbox c e) of
                  None \<Rightarrow> (Waits, c)
                | Some (p, s) \<Rightarrow> (Returns p, set_inbox e s c)))"

definition cable_poll :: "endpoint \<Rightarrow> chars \<Rightarrow> situation \<Rightarrow> cable \<Rightarrow> poll \<times> cable" where
  "cable_poll e k now c =
     (case cable_round e k now c of (r, c') \<Rightarrow> (r, if r = Waits then c' else set_lock e k False c'))"

subsection \<open>The invariant\<close>

definition cable_ok :: "cable \<Rightarrow> bool" where
  "cable_ok c \<longleftrightarrow> (\<forall>e. store_ok (inbox c e)) \<and> (\<forall>e. length (slot_locks c e) \<le> MAX_INBOUND_KINDS)
     \<and> (cable_closed c \<longrightarrow> (\<forall>e k. queue_of (inbox c e) k = []))"

lemma set_lock_simps [simp]:
  "inbox (set_lock e k b c) = inbox c" "cable_closed (set_lock e k b c) = cable_closed c"
  "k \<in> fst ` set (slot_locks (set_lock e k b c) e)"
  by (simp_all add: set_lock_def dom_update)

lemma lock_length: "length (AList.update k b locks) = (if k \<in> fst ` set locks then length locks else Suc (length locks))"
  by (induction locks) auto

lemma set_lock_ok:
  assumes "cable_ok c" "k \<in> fst ` set (slot_locks c e) \<or> length (slot_locks c e) < MAX_INBOUND_KINDS"
  shows "cable_ok (set_lock e k b c)"
  using assms by (auto simp: cable_ok_def set_lock_def lock_length)

lemma close_cable_ok: "cable_ok c \<Longrightarrow> cable_ok (close_cable c)"
  by (simp add: cable_ok_def close_cable_def drain_ok)

lemma close_cable_locks [simp]: "slot_locks (close_cable c) = slot_locks c"
  by (simp add: close_cable_def)

lemma cable_lock_ok:
  assumes "cable_ok c" "cable_lock e k c = Inr c1"
  shows "cable_ok c1" "k \<in> fst ` set (slot_locks c1 e)" "inbox c1 = inbox c" "cable_closed c1 = cable_closed c"
  using assms by (auto simp: cable_lock_def set_lock_ok split: if_split_asm)

lemma set_inbox_ok: "cable_ok c \<Longrightarrow> \<not> cable_closed c \<Longrightarrow> store_ok s \<Longrightarrow> cable_ok (set_inbox x s c)"
  by (simp add: cable_ok_def set_inbox_def)

lemma cable_send_ok:
  assumes "cable_ok c"
  shows "cable_ok (snd (cable_send e k p c))" "slot_locks (snd (cable_send e k p c)) = slot_locks c"
proof -
  show "cable_ok (snd (cable_send e k p c))"
  proof (cases "cable_closed c")
    case True
    with assms show ?thesis by (simp add: cable_send_def)
  next
    case False
    show ?thesis
    proof (cases "put_frame k p (inbox c (peer_end e))")
      case (Inl err)
      with False close_cable_ok [OF assms] show ?thesis by (simp add: cable_send_def)
    next
      case (Inr s)
      have "store_ok s" using assms put_frame_ok(1) [OF _ Inr] by (simp add: cable_ok_def)
      with False Inr set_inbox_ok [OF assms False] show ?thesis by (simp add: cable_send_def)
    qed
  qed
  show "slot_locks (snd (cable_send e k p c)) = slot_locks c"
    by (simp add: cable_send_def set_inbox_def split: sum.split)
qed

lemma cable_start_ok:
  assumes "cable_ok c"
  shows "cable_ok (snd (cable_start e kind my tm cancelled late c))"
proof (cases "rbind (validate_timeout_ms tm) (\<lambda>_. rbind (validate_exchange_kind kind) (\<lambda>k.
             rbind (coerce_exchange_payload my) (\<lambda>p. Inr (k, p))))")
  case (Inl err)
  with assms show ?thesis by (simp add: cable_start_def)
next
  case (Inr kp)
  obtain k p where kp: "kp = (k, p)" by fastforce
  show ?thesis
  proof (cases "cable_closed c")
    case True
    with assms Inr kp show ?thesis by (simp add: cable_start_def)
  next
    case opn: False
    show ?thesis
    proof (cases "cable_lock e k c")
      case (Inl err)
      with opn assms Inr kp show ?thesis by (simp add: cable_start_def)
    next
      case lock: (Inr c1)
      note l = cable_lock_ok [OF assms lock]
      obtain r c2 where s: "cable_send e k p (set_lock e k True c1) = (r, c2)" by fastforce
      have "cable_ok (set_lock e k True c1)" using l(1,2) by (simp add: set_lock_ok)
      with cable_send_ok [of "set_lock e k True c1" e k p] s have ok: "cable_ok c2" "slot_locks c2 = slot_locks (set_lock e k True c1)"
        by simp_all
      then have "cable_ok (set_lock e k False c2)" using set_lock_simps(3) [of k e True c1] by (simp add: set_lock_ok)
      with opn Inr kp lock l(1) ok(1) s show ?thesis
        by (cases cancelled; cases r) (simp_all add: cable_start_def)
    qed
  qed
qed

lemma cable_round_ok:
  assumes "cable_ok c"
  shows "cable_ok (snd (cable_round e k now c))" "slot_locks (snd (cable_round e k now c)) = slot_locks c"
proof -
  have "cable_ok (set_inbox e s c)" if "\<not> cable_closed c" "get_frame k (inbox c e) = Some (p, s)" for p s
  proof -
    have "store_ok (inbox c e)" using assms by (simp add: cable_ok_def)
    from set_inbox_ok [OF assms that(1) get_frame_ok(1) [OF this that(2)]] show ?thesis .
  qed
  with assms close_cable_ok [OF assms] show "cable_ok (snd (cable_round e k now c))"
    by (simp add: cable_round_def split: situation.split option.split prod.split)
  show "slot_locks (snd (cable_round e k now c)) = slot_locks c"
    by (simp add: cable_round_def set_inbox_def split: situation.split option.split)
qed

lemma cable_poll_ok:
  assumes "cable_ok c" "k \<in> fst ` set (slot_locks c e)"
  shows "cable_ok (snd (cable_poll e k now c))"
proof -
  obtain r c' where r: "cable_round e k now c = (r, c')" by fastforce
  with cable_round_ok [OF assms(1), of e k now] assms(2) have "cable_ok c'" "k \<in> fst ` set (slot_locks c' e)" by simp_all
  with r set_lock_ok show ?thesis by (auto simp: cable_poll_def)
qed

subsection \<open>Order and agreement\<close>

text \<open>
  One direction and kind of the cable as a delivery queue: sending from the peer, which closes the cable for
  both ends when the inbox is full; a round of the wait, which yields a payload, or nothing, or closes the
  cable; and the close by either end.
\<close>

definition cable_put :: "endpoint \<times> chars \<Rightarrow> byte list \<Rightarrow> cable \<Rightarrow> bool \<times> cable" where
  "cable_put ek p c =
     (case cable_send (peer_end (fst ek)) (snd ek) p c of (Inl err, c') \<Rightarrow> (False, c') | (Inr _, c') \<Rightarrow> (True, c'))"

definition cable_get :: "endpoint \<times> chars \<Rightarrow> situation \<Rightarrow> cable \<Rightarrow> byte list option \<times> cable" where
  "cable_get ek now c =
     (case cable_poll (fst ek) (snd ek) now c of (r, c') \<Rightarrow> (case r of Returns p \<Rightarrow> Some p | _ \<Rightarrow> None, c'))"

definition cable_view :: "cable \<Rightarrow> endpoint \<times> chars \<Rightarrow> byte list list" where
  "cable_view c ek = queue_of (inbox c (fst ek)) (snd ek)"

definition inboxes_ok :: "cable \<Rightarrow> bool" where
  "inboxes_ok c \<longleftrightarrow> (\<forall>e. store_ok (inbox c e)) \<and> (cable_closed c \<longrightarrow> (\<forall>e k. queue_of (inbox c e) k = []))"

lemma inboxes_closed: "inboxes_ok c \<Longrightarrow> inboxes_ok (close_cable c)"
  by (simp add: inboxes_ok_def close_cable_def drain_ok)

lemma inboxes_lock [simp]: "inboxes_ok (set_lock e k b c) = inboxes_ok c"
  by (simp add: inboxes_ok_def)

lemma close_cable_closed [simp]: "cable_closed (close_cable c)"
  by (simp add: close_cable_def)

lemma peer_peer [simp]: "peer_end (peer_end e) = e"
  by (cases e) simp_all

lemma cable_round_cases:
  assumes "inboxes_ok c" "cable_round e k now c = (r, c')"
  shows "inboxes_ok c' \<and> (case r of
      Returns p \<Rightarrow> cable_view c = (cable_view c')((e, k) := p # cable_view c' (e, k))
    | _ \<Rightarrow> cable_closed c' \<or> \<not> cable_closed c \<and> c' = c)"
proof (cases "r")
  case (Returns p)
  then obtain s where s: "get_frame k (inbox c e) = Some (p, s)" "c' = set_inbox e s c" "\<not> cable_closed c"
    using assms(2) by (auto simp: cable_round_def split: if_split_asm situation.splits option.splits)
  from get_frame_ok(1-3) [OF _ s(1)] assms(1) s(2,3) Returns show ?thesis
    by (auto simp: inboxes_ok_def set_inbox_def cable_view_def fun_eq_iff)
next
  case Waits
  with assms show ?thesis by (auto simp: cable_round_def split: if_split_asm situation.splits option.splits)
next
  case (Fails err)
  with assms inboxes_closed [OF assms(1)] show ?thesis
    by (auto simp: cable_round_def split: if_split_asm situation.splits option.splits)
qed

lemma cable_poll_cases:
  assumes "inboxes_ok c" "cable_poll e k now c = (r, c')"
  shows "inboxes_ok c' \<and> (case r of
      Returns p \<Rightarrow> cable_view c = (cable_view c')((e, k) := p # cable_view c' (e, k))
    | _ \<Rightarrow> cable_closed c' \<or> \<not> cable_closed c \<and> cable_view c' = cable_view c)"
proof -
  obtain c1 where r: "cable_round e k now c = (r, c1)" "c' = (if r = Waits then c1 else set_lock e k False c1)"
    using assms(2) by (auto simp: cable_poll_def split: prod.splits)
  have "cable_view (set_lock e k b c1) = cable_view c1" for b by (simp add: cable_view_def [abs_def])
  with cable_round_cases [OF assms(1) r(1)] show ?thesis unfolding r(2) by (cases r) auto
qed

interpretation cable: closing_queue cable_put cable_get "\<lambda>(_ :: unit). close_cable" cable_view inboxes_ok cable_closed
proof unfold_locales
  show "cable_view c ek = []" if "inboxes_ok c" "cable_closed c" for c ek
    using that by (simp add: inboxes_ok_def cable_view_def)
next
  fix ek p c c'
  assume ok: "inboxes_ok c" and put: "cable_put ek p c = (True, c')"
  obtain s where s: "put_frame (snd ek) p (inbox c (fst ek)) = Inr s" "c' = set_inbox (fst ek) s c" "\<not> cable_closed c"
    using put by (auto simp: cable_put_def cable_send_def split: if_split_asm sum.splits)
  with put_frame_ok(1,2) [OF _ s(1)] ok
  show "inboxes_ok c' \<and> \<not> cable_closed c \<and> cable_view c' = (cable_view c)(ek := cable_view c ek @ [p])"
    by (cases ek) (auto simp: inboxes_ok_def set_inbox_def cable_view_def fun_eq_iff)
next
  fix ek p c c'
  assume ok: "inboxes_ok c" and put: "cable_put ek p c = (False, c')"
  then have "c' = (if cable_closed c then c else close_cable c)"
    by (auto simp: cable_put_def cable_send_def split: if_split_asm sum.splits)
  with ok inboxes_closed [OF ok]
  show "inboxes_ok c' \<and> (cable_closed c' \<or> \<not> cable_closed c \<and> cable_view c' = cable_view c)" "cable_closed c'" by simp_all
next
  fix ek now p c c'
  assume ok: "inboxes_ok c" and got: "cable_get ek now c = (Some p, c')"
  then have "cable_poll (fst ek) (snd ek) now c = (Returns p, c')"
    by (auto simp: cable_get_def split: poll.splits prod.splits)
  from cable_poll_cases [OF ok this]
  show "inboxes_ok c' \<and> cable_view c = (cable_view c')(ek := p # cable_view c' ek)" by simp
next
  fix ek now c c'
  assume ok: "inboxes_ok c" and got: "cable_get ek now c = (None, c')"
  then obtain r where r: "cable_poll (fst ek) (snd ek) now c = (r, c')" "\<forall>p. r \<noteq> Returns p"
    by (auto simp: cable_get_def split: poll.splits prod.splits)
  from cable_poll_cases [OF ok r(1)] r(2)
  show "inboxes_ok c' \<and> (cable_closed c' \<or> \<not> cable_closed c \<and> cable_view c' = cable_view c)" by (cases r) auto
next
  show "inboxes_ok (close_cable c) \<and> (cable_closed (close_cable c) \<or> \<not> cable_closed c \<and> cable_view (close_cable c) = cable_view c)"
    if "inboxes_ok c" for c :: cable
    using inboxes_closed [OF that] by simp
qed

datatype cable_call =
    CableStart endpoint "chars arg" "byte list arg" "int arg" bool wait_outcome
  | CablePoll endpoint chars situation
  | CableClose

fun cable_after :: "cable_call \<Rightarrow> cable \<Rightarrow> cable" where
  "cable_after (CableStart e kind my tm cancelled late) c = snd (cable_start e kind my tm cancelled late c)"
| "cable_after (CablePoll e k now) c = (if k \<in> fst ` set (slot_locks c e) then snd (cable_poll e k now c) else c)"
| "cable_after CableClose c = close_cable c"

inductive cable_reachable :: "cable \<Rightarrow> bool" where
  paired: "cable_reachable c" if "new_cable a_rom b_rom = Inr c"
| called: "cable_reachable (cable_after a c)" if "cable_reachable c"

lemma cable_reachable_ok: "cable_reachable c \<Longrightarrow> cable_ok c"
proof (induction rule: cable_reachable.induct)
  case (paired a_rom b_rom c)
  then have "c = \<lparr>inbox = (\<lambda>_. empty_store), slot_locks = (\<lambda>_. []), cable_closed = False\<rparr>"
    by (auto simp: new_cable_def result_simps)
  then show ?case by (simp add: cable_ok_def)
next
  case (called c a)
  then show ?case by (cases a) (simp_all add: cable_start_ok cable_poll_ok close_cable_ok)
qed

text \<open>
  C26. The two ends of a cable agree. In every reachable state, whatever the interleaving of sends and waits at
  both ends, waits that time out or are cancelled and closes included, each end returns for a kind, in
  order, what was already queued for it and then what the other end sent of that kind; the rest is still
  queued while the cable is open, and was dropped when it closed. While the cable is open every payload
  sent was taken; the first one that does not fit the other end's budget closes both ends, and then
  nothing more is taken and nothing stays queued at either.
\<close>

theorem cable_pairs_in_order:
  assumes "cable_reachable c" "run_ops cable_put cable_get (\<lambda>_ :: unit. close_cable) ops c = (sent, returned, c')"
  shows "(\<exists>dropped. queue_of (inbox c e) k @ of_kind (e, k) sent = of_kind (e, k) returned @ queue_of (inbox c' e) k @ dropped
       \<and> (\<not> cable_closed c' \<longrightarrow> dropped = []))
     \<and> (\<exists>late. puts ops = sent @ late \<and> (\<not> cable_closed c' \<longrightarrow> late = []))
     \<and> (cable_closed c' \<longrightarrow> queue_of (inbox c' e) k = [])"
proof -
  have ok: "inboxes_ok c" using cable_reachable_ok [OF assms(1)] by (simp add: cable_ok_def inboxes_ok_def)
  from cable.fifo [OF ok assms(2), of "(e, k)"] cable.taken_first [OF ok assms(2)] show ?thesis
    by (auto simp: cable_view_def inboxes_ok_def)
qed

definition sample_cable :: cable where
  "sample_cable = \<lparr>inbox = (\<lambda>_. empty_store), slot_locks = (\<lambda>_. []), cable_closed = False\<rparr>"

lemma sample_cable_reachable: "cable_reachable sample_cable"
proof (rule cable_reachable.paired)
  show "new_cable (Arg [114, 101, 100]) (Arg [114, 101, 100]) = Inr sample_cable"
    by (simp add: new_cable_def validate_rom_version_def strip_def is_space_def lower_def SUPPORTED_ROM_VERSIONS_def codes_def
        sample_cable_def)
qed

definition cable_traffic :: "(endpoint \<times> chars, byte list, situation, unit) queue_op list" where
  "cable_traffic = [Put (EndA, [120]) [1], Put (EndA, [120]) [2], Get (EndA, [120]) Running, Get (EndB, [120]) DeadlinePassed,
     Put (EndA, [120]) [3]]"

theorem cable_pairs_in_order_witness:
  "case run_ops cable_put cable_get (\<lambda>_. close_cable) cable_traffic sample_cable of
     (sent, returned, c') \<Rightarrow> returned = [((EndA, [120]), [1])] \<and> cable_closed c' \<and> queue_of (inbox c' EndA) [120] = []
       \<and> (\<exists>dropped. of_kind (EndA, [120]) sent = [1] # dropped) \<and> (\<exists>late. puts cable_traffic = sent @ late)"
proof -
  obtain sent returned c' where r: "run_ops cable_put cable_get (\<lambda>_. close_cable) cable_traffic sample_cable = (sent, returned, c')"
    by (metis prod_cases3)
  have "case run_ops cable_put cable_get (\<lambda>_. close_cable) cable_traffic sample_cable of
      (sent, returned, c') \<Rightarrow> returned = [((EndA, [120]), [1])] \<and> cable_closed c'"
    by (simp add: cable_traffic_def sample_cable_def empty_store_def cable_put_def cable_get_def cable_send_def cable_poll_def
        cable_round_def put_frame_def put_problem_def get_frame_def queue_of_def set_queue_def set_inbox_def set_lock_def
        close_cable_def MAX_INBOUND_FRAMES_def MAX_INBOUND_BYTES_def MAX_INBOUND_FRAMES_PER_KIND_def)
  then have c': "returned = [((EndA, [120]), [1])]" "cable_closed c'" unfolding r by simp_all
  have q: "queue_of (inbox sample_cable EndA) [120] = []" by (simp add: sample_cable_def empty_store_def queue_of_def)
  show ?thesis
    unfolding r using cable_pairs_in_order [OF sample_cable_reachable r, of EndA "[120]"] c' unfolding q by auto
qed

lemma cable_closed_stays: "cable_closed c \<Longrightarrow> cable_closed (cable_after a c)"
proof (cases a)
  case (CableStart e kind my tm cancelled late)
  moreover assume "cable_closed c"
  ultimately show ?thesis by (auto simp: cable_start_def split: sum.split prod.split)
next
  case (CablePoll e k now)
  moreover assume "cable_closed c"
  ultimately show ?thesis by (simp add: cable_poll_def cable_round_def)
qed (simp add: close_cable_def)

text \<open>
  One failure ends the cable for both. When a waiting exchange of either end times out or is cancelled,
  or a payload does not fit the other end's budget, both ends are closed and empty, and stay so after any
  further calls.
\<close>

theorem cable_failure_is_shared:
  assumes "cable_reachable c" "\<not> cable_closed c"
    and "now \<noteq> Running \<and> c' = snd (cable_poll e k now c) \<or> put_problem k p (inbox c (peer_end e)) \<noteq> None \<and> c' = snd (cable_send e k p c)"
  shows "cable_closed (foldl (\<lambda>c a. cable_after a c) c' as) \<and> queue_of (inbox c' x) kind = []"
proof -
  have "cable_closed c' \<and> inbox c' = (\<lambda>e. drain (inbox c e))"
    using assms(2,3) by (cases now) (auto simp: cable_poll_def cable_round_def cable_send_def put_frame_def close_cable_def)
  then have c': "cable_closed c'" "inbox c' = (\<lambda>e. drain (inbox c e))" by blast+
  have "cable_closed (foldl (\<lambda>c a. cable_after a c) c' as)"
    using c'(1) by (induction "as" arbitrary: c') (simp_all add: cable_closed_stays)
  with c'(2) show ?thesis by (simp add: drain_ok(2))
qed

theorem cable_failure_is_shared_witness:
  "cable_closed (foldl (\<lambda>c a. cable_after a c) (snd (cable_poll EndA [120] DeadlinePassed sample_cable))
     [CableStart EndB (Arg [120]) (Arg [1]) (Arg 1) False TimesOut])"
proof -
  have "\<not> cable_closed sample_cable" by (simp add: sample_cable_def)
  from cable_failure_is_shared [OF sample_cable_reachable this, of DeadlinePassed
      "snd (cable_poll EndA [120] DeadlinePassed sample_cable)" EndA "[120]" "[]" "[CableStart EndB (Arg [120]) (Arg [1]) (Arg 1) False TimesOut]"]
  show ?thesis by simp
qed

end
