(* ===== verification/Link_Transport.thy ===== *)
theory Link_Transport
  imports Link_Store Symbols
begin

text \<open>
  The single-process side of the link: the byte transport between two paired emulators
  (\<open>link/transport.py\<close>), two queues of which each is a delivery queue, and the registry of the labels the
  bridge hooks (\<open>link/symbols.py\<close>) with its resolution against a symbol table.
\<close>

subsection \<open>The byte queues\<close>

record transport =
  a_to_b :: "int list"
  b_to_a :: "int list"

definition new_transport :: transport where
  "new_transport = \<lparr>a_to_b = [], b_to_a = []\<rparr>"

definition validate_byte :: "pyval \<Rightarrow> int result" where
  "validate_byte v = (case v of PyInt n \<Rightarrow> if n < 0 \<or> n > 0xFF then Inl ValueError else Inr n | _ \<Rightarrow> Inl ValueError)"

definition push_a_to_b :: "pyval \<Rightarrow> transport \<Rightarrow> transport result" where
  "push_a_to_b v t = rbind (validate_byte v) (\<lambda>n. Inr (t\<lparr>a_to_b := a_to_b t @ [n]\<rparr>))"

definition push_b_to_a :: "pyval \<Rightarrow> transport \<Rightarrow> transport result" where
  "push_b_to_a v t = rbind (validate_byte v) (\<lambda>n. Inr (t\<lparr>b_to_a := b_to_a t @ [n]\<rparr>))"

definition pull_for_a :: "pyval \<Rightarrow> transport \<Rightarrow> (int \<times> transport) result" where
  "pull_for_a dflt t =
     rbind (validate_byte dflt) (\<lambda>d. case b_to_a t of [] \<Rightarrow> Inr (d, t) | n # ns \<Rightarrow> Inr (n, t\<lparr>b_to_a := ns\<rparr>))"

definition pull_for_b :: "pyval \<Rightarrow> transport \<Rightarrow> (int \<times> transport) result" where
  "pull_for_b dflt t =
     rbind (validate_byte dflt) (\<lambda>d. case a_to_b t of [] \<Rightarrow> Inr (d, t) | n # ns \<Rightarrow> Inr (n, t\<lparr>a_to_b := ns\<rparr>))"

text \<open>
  A raise in the middle leaves what was pushed before it: the transport is part of the outcome on every
  branch.
\<close>

definition exchange :: "pyval \<Rightarrow> pyval \<Rightarrow> transport \<Rightarrow> (int \<times> int) result \<times> transport" where
  "exchange from_a from_b t =
     (case push_a_to_b from_a t of
        Inl e \<Rightarrow> (Inl e, t)
      | Inr t1 \<Rightarrow>
          (case push_b_to_a from_b t1 of
             Inl e \<Rightarrow> (Inl e, t1)
           | Inr t2 \<Rightarrow>
               (case pull_for_a (PyInt 0) t2 of
                  Inl e \<Rightarrow> (Inl e, t2)
                | Inr (to_a, t3) \<Rightarrow>
                    (case pull_for_b (PyInt 0) t3 of
                       Inl e \<Rightarrow> (Inl e, t3)
                     | Inr (to_b, t4) \<Rightarrow> (Inr (to_a, to_b), t4)))))"

definition reset :: "transport \<Rightarrow> transport" where
  "reset t = t\<lparr>a_to_b := [], b_to_a := []\<rparr>"

definition pending_a_to_b :: "transport \<Rightarrow> nat" where
  "pending_a_to_b t = length (a_to_b t)"

definition pending_b_to_a :: "transport \<Rightarrow> nat" where
  "pending_b_to_a t = length (b_to_a t)"

definition snapshot :: "transport \<Rightarrow> (string \<times> int list) list" where
  "snapshot t = [(''a_to_b'', a_to_b t), (''b_to_a'', b_to_a t)]"

text \<open>The transport as a delivery queue that is never closed: pushes, which may be refused, and pulls from a queue that is not empty.\<close>

datatype direction = AToB | BToA

definition transport_put :: "direction \<Rightarrow> int \<Rightarrow> transport \<Rightarrow> bool \<times> transport" where
  "transport_put d n t =
     (case (case d of AToB \<Rightarrow> push_a_to_b (PyInt n) t | BToA \<Rightarrow> push_b_to_a (PyInt n) t) of
        Inl _ \<Rightarrow> (False, t)
      | Inr t' \<Rightarrow> (True, t'))"

definition transport_queue :: "transport \<Rightarrow> direction \<Rightarrow> int list" where
  "transport_queue t d = (case d of AToB \<Rightarrow> a_to_b t | BToA \<Rightarrow> b_to_a t)"

definition transport_get :: "direction \<Rightarrow> unit \<Rightarrow> transport \<Rightarrow> int option \<times> transport" where
  "transport_get d _ t =
     (if transport_queue t d = [] then (None, t)
      else case (case d of AToB \<Rightarrow> pull_for_b (PyInt 0) t | BToA \<Rightarrow> pull_for_a (PyInt 0) t) of
             Inl _ \<Rightarrow> (None, t)
           | Inr (n, t') \<Rightarrow> (Some n, t'))"

lemma validate_byte_Inr [simp]: "validate_byte v = Inr n \<longleftrightarrow> v = PyInt n \<and> 0 \<le> n \<and> n \<le> 0xFF"
  by (auto simp: validate_byte_def split: pyval.splits)

lemma validate_byte_zero: "validate_byte (PyInt 0) = Inr 0"
  by simp

interpretation wires: delivery_queue transport_put transport_get "\<lambda>(_ :: unit) t. t" transport_queue "\<lambda>_. True" "\<lambda>_. False"
proof unfold_locales
  show "True \<and> \<not> False \<and> transport_queue t' = (transport_queue t)(d := transport_queue t d @ [n])"
    if "transport_put d n t = (True, t')" for t d n t'
    using that by (cases d) (auto simp: transport_put_def transport_queue_def push_a_to_b_def push_b_to_a_def result_simps fun_eq_iff
        split: direction.splits sum.splits)
  show "True \<and> (False \<or> \<not> False \<and> transport_queue t' = transport_queue t)" if "transport_put d n t = (False, t')" for t d n t'
    using that by (auto simp: transport_put_def split: sum.splits)
  show "True \<and> transport_queue t = (transport_queue t')(d := n # transport_queue t' d)"
    if "transport_get d u t = (Some n, t')" for t d u n t'
    using that by (cases d) (auto simp: transport_get_def transport_queue_def pull_for_a_def pull_for_b_def validate_byte_zero fun_eq_iff
        split: direction.splits if_split_asm sum.splits list.splits)
  show "True \<and> (False \<or> \<not> False \<and> transport_queue t' = transport_queue t)" if "transport_get d u t = (None, t')" for t d u t'
    using that by (auto simp: transport_get_def split: if_split_asm sum.splits)
qed simp_all

subsection \<open>Exchanges over the transport\<close>

fun exchanges :: "(pyval \<times> pyval) list \<Rightarrow> transport \<Rightarrow> ((int \<times> int) result) list \<times> transport" where
  "exchanges [] t = ([], t)"
| "exchanges ((a, b) # ps) t =
     (case exchange a b t of (r, t') \<Rightarrow> (case exchanges ps t' of (rs, u) \<Rightarrow> (r # rs, u)))"

lemma exchange_bytes:
  assumes "0 \<le> a" "a \<le> 0xFF" "0 \<le> b" "b \<le> 0xFF"
  shows "exchange (PyInt a) (PyInt b) t =
    (Inr (hd (b_to_a t @ [b]), hd (a_to_b t @ [a])), \<lparr>a_to_b = tl (a_to_b t @ [a]), b_to_a = tl (b_to_a t @ [b])\<rparr>)"
proof -
  have v: "validate_byte (PyInt a) = Inr a" "validate_byte (PyInt b) = Inr b" "validate_byte (PyInt 0) = Inr 0" using assms by simp_all
  show ?thesis
    by (cases "a_to_b t"; cases "b_to_a t"; cases t)
      (simp_all add: exchange_def push_a_to_b_def push_b_to_a_def pull_for_a_def pull_for_b_def v)
qed

text \<open>
  Exchanging is symmetric delivery in order. Over any number of exchanges of bytes, the n-th result
  gives each side the n-th byte of what was queued for it followed by what the other side sent, so on an
  empty transport each exchange swaps its two bytes; and the queues keep their lengths.
\<close>

theorem exchanges_deliver_in_order:
  assumes "\<forall>(a, b) \<in> set ps. 0 \<le> a \<and> a \<le> 0xFF \<and> 0 \<le> b \<and> b \<le> 0xFF"
  shows "exchanges (map (map_prod PyInt PyInt) ps) t =
    (map Inr (zip (take (length ps) (b_to_a t @ map snd ps)) (take (length ps) (a_to_b t @ map fst ps))),
     \<lparr>a_to_b = drop (length ps) (a_to_b t @ map fst ps), b_to_a = drop (length ps) (b_to_a t @ map snd ps)\<rparr>)"
  using assms
proof (induction ps arbitrary: t)
  case Nil
  show ?case by simp
next
  case (Cons ab ps)
  obtain a b where ab: "ab = (a, b)" by fastforce
  with Cons.prems have "0 \<le> a" "a \<le> 0xFF" "0 \<le> b" "b \<le> 0xFF" by auto
  note e = exchange_bytes [OF this]
  have "\<forall>(a, b) \<in> set ps. 0 \<le> a \<and> a \<le> 0xFF \<and> 0 \<le> b \<and> b \<le> 0xFF" using Cons.prems by simp
  from Cons.IH [OF this] show ?case
    by (cases "a_to_b t"; cases "b_to_a t") (simp_all add: ab e del: take_append drop_append)
qed

theorem exchanges_deliver_in_order_witness:
  "fst (exchanges [(PyInt 1, PyInt 2), (PyInt 3, PyInt 4)] \<lparr>a_to_b = [], b_to_a = [9]\<rparr>) = [Inr (9, 1), Inr (2, 3)]"
  using exchanges_deliver_in_order [of "[(1, 2), (3, 4)]" "\<lparr>a_to_b = [], b_to_a = [9]\<rparr>"] by (simp add: map_prod_def)

subsection \<open>The link symbols\<close>

datatype link_role = BRIDGE | HANDSHAKE | PROGRESS | BATTLE

record link_symbol =
  ls_key :: string
  ls_role :: link_role
  event_name :: "string option"
  per_version :: "(string \<times> string) list"
  required :: bool

definition VERSIONS :: "string list" where
  "VERSIONS = [''red'', ''blue'', ''yellow'']"

definition same :: "string \<Rightarrow> (string \<times> string) list" where
  "same label = map (\<lambda>v. (v, label)) VERSIONS"

definition LINK_SYMBOLS :: "link_symbol list" where
  "LINK_SYMBOLS =
    [\<lparr>ls_key = ''exchange_bytes'', ls_role = BRIDGE, event_name = None, per_version = same ''Serial_ExchangeBytes'', required = True\<rparr>,
     \<lparr>ls_key = ''send_zero_byte'', ls_role = BRIDGE, event_name = None, per_version = same ''Serial_SendZeroByte'', required = False\<rparr>,
     \<lparr>ls_key = ''exchange_nybble'', ls_role = BRIDGE, event_name = None, per_version = same ''Serial_SyncAndExchangeNybble'', required = False\<rparr>,
     \<lparr>ls_key = ''handshake'', ls_role = HANDSHAKE, event_name = None,
      per_version = same ''Serial_TryEstablishingExternallyClockedConnection'', required = True\<rparr>,
     \<lparr>ls_key = ''cable_club_return'', ls_role = HANDSHAKE, event_name = None, per_version = same ''CableClub_DoBattleOrTradeAgain'', required = False\<rparr>,
     \<lparr>ls_key = ''trade_select_mon'', ls_role = PROGRESS, event_name = Some ''link.trade.select_mon'',
      per_version = same ''TradeCenter_SelectMon'', required = False\<rparr>,
     \<lparr>ls_key = ''trade_show_player_mon'', ls_role = PROGRESS, event_name = Some ''link.trade.show_player_mon'',
      per_version = same ''Trade_ShowPlayerMon'', required = False\<rparr>,
     \<lparr>ls_key = ''trade_show_enemy_mon'', ls_role = PROGRESS, event_name = Some ''link.trade.show_enemy_mon'',
      per_version = same ''Trade_ShowEnemyMon'', required = False\<rparr>,
     \<lparr>ls_key = ''link_battle_versus'', ls_role = BATTLE, event_name = None, per_version = same ''DisplayLinkBattleVersusTextBox'', required = False\<rparr>]"

text \<open>The loop over the registry: what resolved so far and which required labels are missing.\<close>

fun resolve_loop ::
    "symbol_table \<Rightarrow> string \<Rightarrow> link_symbol list \<Rightarrow> (string \<times> int \<times> int) list \<Rightarrow> string list \<Rightarrow> (string \<times> int \<times> int) list \<times> string list" where
  "resolve_loop symbols version [] resolved missing = (resolved, missing)"
| "resolve_loop symbols version (ls # rest) resolved missing =
     (case map_of (per_version ls) version of
        None \<Rightarrow> resolve_loop symbols version rest resolved (if required ls then missing @ [ls_key ls] else missing)
      | Some label \<Rightarrow>
          (case get_symbol symbols label of
             None \<Rightarrow> resolve_loop symbols version rest resolved (if required ls then missing @ [ls_key ls] else missing)
           | Some s \<Rightarrow> resolve_loop symbols version rest (AList.update (ls_key ls) (sym_bank s, sym_addr s) resolved) missing))"

definition resolve_link_symbols :: "symbol_table \<Rightarrow> string \<Rightarrow> (string \<times> int \<times> int) list result" where
  "resolve_link_symbols symbols version =
     (if version \<notin> set VERSIONS then Inl ValueError
      else case resolve_loop symbols version LINK_SYMBOLS [] [] of
             (resolved, missing) \<Rightarrow> if missing \<noteq> [] then Inl LookupError else Inr resolved)"

definition symbols_for_role :: "link_role \<Rightarrow> link_symbol list" where
  "symbols_for_role role = filter (\<lambda>s. ls_role s = role) LINK_SYMBOLS"

subsection \<open>What resolves\<close>

text \<open>The specification: the label of an entry, if the table has it.\<close>

definition label_symbol :: "symbol_table \<Rightarrow> string \<Rightarrow> link_symbol \<Rightarrow> symbol option" where
  "label_symbol symbols version ls = Option.bind (map_of (per_version ls) version) (get_symbol symbols)"

lemma resolve_loop_step:
  "resolve_loop symbols version (ls # rest) resolved missing =
    (case label_symbol symbols version ls of
       None \<Rightarrow> resolve_loop symbols version rest resolved (if required ls then missing @ [ls_key ls] else missing)
     | Some s \<Rightarrow> resolve_loop symbols version rest (AList.update (ls_key ls) (sym_bank s, sym_addr s) resolved) missing)"
  by (simp add: label_symbol_def split: option.splits)

declare resolve_loop.simps(2) [simp del]

lemma resolve_loop_missing:
  "snd (resolve_loop symbols version lss resolved missing) =
     missing @ map ls_key (filter (\<lambda>ls. required ls \<and> label_symbol symbols version ls = None) lss)"
  by (induction lss arbitrary: resolved missing) (simp_all add: resolve_loop_step split: option.splits)

lemma resolve_loop_other:
  "k \<notin> ls_key ` set lss \<Longrightarrow> map_of (fst (resolve_loop symbols version lss resolved missing)) k = map_of resolved k"
  by (induction lss arbitrary: resolved missing) (auto simp: resolve_loop_step update_conv' split: option.splits)

lemma resolve_loop_key:
  assumes "distinct (map ls_key lss)" "ls \<in> set lss" "map_of resolved (ls_key ls) = None"
  shows "map_of (fst (resolve_loop symbols version lss resolved missing)) (ls_key ls) =
    map_option (\<lambda>s. (sym_bank s, sym_addr s)) (label_symbol symbols version ls)"
  using assms
proof (induction lss arbitrary: resolved missing)
  case Nil
  then show ?case by simp
next
  case (Cons l lss)
  show ?case
  proof (cases "l = ls")
    case True
    with Cons.prems have "ls_key ls \<notin> ls_key ` set lss" by auto
    from resolve_loop_other [OF this] Cons.prems(3) True show ?thesis
      by (simp add: resolve_loop_step update_conv' split: option.splits)
  next
    case False
    with Cons.prems have "ls \<in> set lss" "ls_key l \<noteq> ls_key ls" by (auto simp: image_iff)
    with Cons show ?thesis by (simp add: resolve_loop_step update_conv' split: option.splits)
  qed
qed

lemma registry_keys: "distinct (map ls_key LINK_SYMBOLS)"
  by (simp add: LINK_SYMBOLS_def)

text \<open>
  The registry resolves exactly. For a known version, resolving fails exactly when a required label is
  missing from the table; otherwise every key of the registry is bound to the bank and address the table
  has for its label, and a key is left out exactly when the table has no such label.
\<close>

theorem resolve_link_symbols_exact:
  assumes "version \<in> set VERSIONS"
  shows "case resolve_link_symbols symbols version of
      Inl e \<Rightarrow> e = LookupError \<and> (\<exists>ls \<in> set LINK_SYMBOLS. required ls \<and> label_symbol symbols version ls = None)
    | Inr resolved \<Rightarrow>
        (\<forall>ls \<in> set LINK_SYMBOLS. map_of resolved (ls_key ls) = map_option (\<lambda>s. (sym_bank s, sym_addr s)) (label_symbol symbols version ls))
        \<and> (\<forall>ls \<in> set LINK_SYMBOLS. required ls \<longrightarrow> label_symbol symbols version ls \<noteq> None)"
proof -
  obtain resolved missing where r: "resolve_loop symbols version LINK_SYMBOLS [] [] = (resolved, missing)" by fastforce
  have m: "missing = map ls_key (filter (\<lambda>ls. required ls \<and> label_symbol symbols version ls = None) LINK_SYMBOLS)"
    using resolve_loop_missing [of symbols version LINK_SYMBOLS "[]" "[]"] r by simp
  have k: "\<forall>ls \<in> set LINK_SYMBOLS. map_of resolved (ls_key ls) = map_option (\<lambda>s. (sym_bank s, sym_addr s)) (label_symbol symbols version ls)"
    using resolve_loop_key [OF registry_keys, of _ "[]" symbols version "[]"] r by simp
  show ?thesis
  proof (cases "missing = []")
    case True
    with m have "\<forall>ls \<in> set LINK_SYMBOLS. required ls \<longrightarrow> label_symbol symbols version ls \<noteq> None"
      by (simp add: filter_empty_conv)
    with True k assms show ?thesis by (simp add: resolve_link_symbols_def r)
  next
    case False
    with m have "\<exists>ls \<in> set LINK_SYMBOLS. required ls \<and> label_symbol symbols version ls = None"
      by (auto simp: filter_empty_conv)
    with False assms show ?thesis by (simp add: resolve_link_symbols_def r)
  qed
qed

definition sample_table :: symbol_table where
  "sample_table = symbol_table_of [\<lparr>sym_name = ''Serial_ExchangeBytes'', sym_bank = 5, sym_addr = 0x22d7\<rparr>,
     \<lparr>sym_name = ''Serial_TryEstablishingExternallyClockedConnection'', sym_bank = 0, sym_addr = 0x22fa\<rparr>]"

theorem resolve_link_symbols_exact_witness:
  "case resolve_link_symbols sample_table ''yellow'' of
     Inl _ \<Rightarrow> False | Inr resolved \<Rightarrow> map_of resolved ''handshake'' = Some (0, 0x22fa) \<and> map_of resolved ''send_zero_byte'' = None"
proof -
  have g: "get_symbol sample_table n =
      (if n = ''Serial_TryEstablishingExternallyClockedConnection'' then Some \<lparr>sym_name = n, sym_bank = 0, sym_addr = 0x22fa\<rparr>
       else if n = ''Serial_ExchangeBytes'' then Some \<lparr>sym_name = n, sym_bank = 5, sym_addr = 0x22d7\<rparr> else None)" for n
    by (simp add: sample_table_def symbol_table_of_def get_symbol_add) (simp add: get_symbol_def)
  have s: "map_of (same label) ''yellow'' = Some label" for label by (simp add: same_def VERSIONS_def)
  have l: "map_option (\<lambda>s. (sym_bank s, sym_addr s)) (label_symbol sample_table ''yellow'' ls) =
      (if ls_key ls = ''handshake'' then Some (0, 0x22fa) else if ls_key ls = ''exchange_bytes'' then Some (5, 0x22d7) else None)"
    if "ls \<in> set LINK_SYMBOLS" for ls
    using that unfolding LINK_SYMBOLS_def label_symbol_def by (simp only: list.set insert_iff empty_iff) (elim disjE FalseE; simp add: g s)
  let ?h = "LINK_SYMBOLS ! 3" and ?z = "LINK_SYMBOLS ! 1"
  have h: "?h \<in> set LINK_SYMBOLS" "ls_key ?h = ''handshake''" and z: "?z \<in> set LINK_SYMBOLS" "ls_key ?z = ''send_zero_byte''"
    by (simp_all add: LINK_SYMBOLS_def)
  have req: "ls_key ls = ''exchange_bytes'' \<or> ls_key ls = ''handshake''" if "ls \<in> set LINK_SYMBOLS" "required ls" for ls
    using that by (auto simp: LINK_SYMBOLS_def)
  have yes: "label_symbol sample_table ''yellow'' ls \<noteq> None" if "ls \<in> set LINK_SYMBOLS" "required ls" for ls
    using req [OF that] l [OF that(1)] by (auto split: if_split_asm)
  have "''yellow'' \<in> set VERSIONS" by (simp add: VERSIONS_def)
  from resolve_link_symbols_exact [OF this, of sample_table] show ?thesis
  proof (cases "resolve_link_symbols sample_table ''yellow''")
    case (Inl e)
    with resolve_link_symbols_exact [OF \<open>''yellow'' \<in> set VERSIONS\<close>, of sample_table] yes show ?thesis by fastforce
  next
    case (Inr resolved)
    with resolve_link_symbols_exact [OF \<open>''yellow'' \<in> set VERSIONS\<close>, of sample_table]
    have "map_of resolved (ls_key ls) = map_option (\<lambda>s. (sym_bank s, sym_addr s)) (label_symbol sample_table ''yellow'' ls)"
      if "ls \<in> set LINK_SYMBOLS" for ls using that by simp
    from this [OF h(1)] this [OF z(1)] h(2) z(2) l [OF h(1)] l [OF z(1)] Inr show ?thesis by simp
  qed
qed

end
