(* ===== verification/Event_Bus.thy ===== *)
theory Event_Bus
  imports Symbols
begin

text \<open>
  The event bus (\<open>events/hooks.py\<close>): the bounded log of semantic events with its counts and latest
  entries, the registrations that share one dispatcher per address, the dispatch itself, and the helpers
  that compare and clean the emulator's own hook table. Objects (emulators, callbacks, contexts) are their
  identities. The emulator is a parameter: what its hook functions do to its state, and whether its table
  can be inspected.
\<close>

subsection \<open>The log\<close>

record 'v game_event =
  ev_tick :: int
  ev_name :: string
  ev_bank :: int
  ev_addr :: int
  ev_payload :: "string \<rightharpoonup> 'v"

definition DEFAULT_EVENT_LOG_CAPACITY :: nat where "DEFAULT_EVENT_LOG_CAPACITY = 4096"

type_synonym hook_key = "int \<times> int"

text \<open>A registration lives at an emulator, bank and address; callbacks and contexts are identities.\<close>

record registration =
  r_key :: "nat \<times> hook_key"
  r_callback :: nat
  r_context :: "nat option"
  r_symbol :: "string option"
  r_active :: bool

text \<open>The slot of an address: its dispatcher and its registrations, by their identities.\<close>

record hook_slot =
  dispatcher :: nat
  members :: "nat list"

record 'v bus =
  capacity :: nat
  log :: "'v game_event list"
  counts :: "string \<rightharpoonup> nat"
  latest :: "string \<rightharpoonup> 'v game_event"
  registered_symbols :: "string set"
  hook_slots :: "nat \<times> hook_key \<rightharpoonup> hook_slot"
  registrations :: "registration list"
  dispatchers :: nat

definition new_bus :: "int \<Rightarrow> 'v bus result" where
  "new_bus cap =
     (if cap \<le> 0 then Inl ValueError
      else Inr \<lparr>capacity = nat cap, log = [], counts = Map.empty, latest = Map.empty, registered_symbols = {},
                hook_slots = Map.empty, registrations = [], dispatchers = 0\<rparr>)"

text \<open>A \<open>deque\<close> with a maximal length drops from the left.\<close>

definition deque_append :: "nat \<Rightarrow> 'a list \<Rightarrow> 'a \<Rightarrow> 'a list" where
  "deque_append cap xs x = (let ys = xs @ [x] in drop (length ys - cap) ys)"

definition emit :: "int \<Rightarrow> string \<Rightarrow> int \<Rightarrow> int \<Rightarrow> (string \<rightharpoonup> 'v) option \<Rightarrow> 'v bus \<Rightarrow> 'v game_event \<times> 'v bus" where
  "emit tick name bank addr payload b =
     (let e = \<lparr>ev_tick = tick, ev_name = name, ev_bank = bank, ev_addr = addr,
               ev_payload = (case payload of None \<Rightarrow> Map.empty | Some p \<Rightarrow> p)\<rparr>
      in (e, b\<lparr>log := deque_append (capacity b) (log b) e,
               counts := (counts b)(name \<mapsto> (case counts b name of None \<Rightarrow> 0 | Some n \<Rightarrow> n) + 1),
               latest := (latest b)(name \<mapsto> e)\<rparr>))"

definition bus_length :: "'v bus \<Rightarrow> nat" where
  "bus_length b = length (log b)"

definition event_count :: "string \<Rightarrow> 'v bus \<Rightarrow> nat" where
  "event_count name b = (case counts b name of None \<Rightarrow> 0 | Some n \<Rightarrow> n)"

definition latest_of :: "string \<Rightarrow> 'v bus \<Rightarrow> 'v game_event option" where
  "latest_of name b = latest b name"

definition events_since :: "int \<Rightarrow> 'v bus \<Rightarrow> 'v game_event list" where
  "events_since tick b = filter (\<lambda>e. ev_tick e > tick) (log b)"

definition clear :: "'v bus \<Rightarrow> 'v bus" where
  "clear b = b\<lparr>log := [], counts := Map.empty, latest := Map.empty\<rparr>"

subsection \<open>The emulator's hook table\<close>

text \<open>
  A callback in the emulator is a slot's dispatcher or any other callable, with its context. The raw key is
  a pair of integers, one packed integer or something else; the raw value one entry, a list of entries or
  something else.
\<close>

datatype callable = Dispatcher nat | Callback nat

type_synonym hook_entry = "callable \<times> nat option"

datatype raw_key = PairKey int int | PackedKey int | OtherKey
datatype raw_value = OneEntry hook_entry | EntryList "hook_entry option list" | OtherValue

definition decode_hook_key :: "raw_key \<Rightarrow> hook_key option" where
  "decode_hook_key raw =
     (case raw of
        PairKey bank addr \<Rightarrow> Some (bank, addr)
      | PackedKey n \<Rightarrow> Some (drop_bit 24 n AND 0xFF, drop_bit 8 n AND 0xFFFF)
      | OtherKey \<Rightarrow> None)"

text \<open>An element of the list that is no entry is \<open>None\<close>.\<close>

definition decode_hook_value :: "raw_value \<Rightarrow> hook_entry list option" where
  "decode_hook_value raw =
     (case raw of
        OneEntry e \<Rightarrow> Some [e]
      | EntryList es \<Rightarrow> if None \<in> set es then None else Some (map the es)
      | OtherValue \<Rightarrow> None)"

text \<open>The table keyed by address, in order of first appearance.\<close>

definition entries_at :: "(hook_key \<times> hook_entry list) list \<Rightarrow> hook_key \<Rightarrow> hook_entry list" where
  "entries_at t k = (case map_of t k of None \<Rightarrow> [] | Some es \<Rightarrow> es)"

fun snapshot_from :: "(raw_key \<times> raw_value) list \<Rightarrow> (hook_key \<times> hook_entry list) list \<Rightarrow> (hook_key \<times> hook_entry list) list option" where
  "snapshot_from [] t = Some t"
| "snapshot_from ((rk, rv) # raw) t =
     (case (decode_hook_key rk, decode_hook_value rv) of
        (Some k, Some es) \<Rightarrow> snapshot_from raw (AList.update k (entries_at t k @ es) t)
      | _ \<Rightarrow> None)"

definition snapshot_hooks :: "((raw_key \<times> raw_value) list) option \<Rightarrow> ((hook_key \<times> hook_entry list) list) option" where
  "snapshot_hooks raw = (case raw of None \<Rightarrow> None | Some hooks \<Rightarrow> snapshot_from hooks [])"

text \<open>Entries of one address that were not there before: each old entry excuses one new one.\<close>

fun added_at :: "hook_key \<Rightarrow> hook_entry list \<Rightarrow> hook_entry list \<Rightarrow> (hook_key \<times> hook_entry) list" where
  "added_at k prior [] = []"
| "added_at k prior (e # es) = (if e \<in> set prior then added_at k (remove1 e prior) es else (k, e) # added_at k prior es)"

definition hooks_added_since ::
    "((hook_key \<times> hook_entry list) list) option \<Rightarrow> ((hook_key \<times> hook_entry list) list) option \<Rightarrow> (hook_key \<times> hook_entry) list" where
  "hooks_added_since before after =
     (case (before, after) of
        (Some old, Some new) \<Rightarrow> concat (map (\<lambda>(k, es). added_at k (entries_at old k) es) new)
      | _ \<Rightarrow> [])"

subsection \<open>Registration\<close>

text \<open>
  The emulator's side of a registration: whether registering raises, what deregistering an address does
  (\<open>None\<close> when there is no such function), and the raw table if it can be read and changed in place.
\<close>

datatype dereg = Done | NotPresent | Broken

record 'm emulator =
  em_register :: "hook_key \<Rightarrow> hook_entry \<Rightarrow> 'm \<Rightarrow> 'm option"
  em_deregister :: "(hook_key \<Rightarrow> 'm \<Rightarrow> dereg \<times> 'm) option"
  em_hooks :: "'m \<Rightarrow> ((raw_key \<times> raw_value) list) option"
  em_set_hooks :: "(raw_key \<times> raw_value) list \<Rightarrow> 'm \<Rightarrow> 'm"

text \<open>What closing a physical hook answers; \<open>Raised\<close> is an exception other than the absent hook.\<close>

datatype removal = Removed bool | Raised

fun re_register :: "'m emulator \<Rightarrow> hook_key \<Rightarrow> hook_entry list \<Rightarrow> 'm \<Rightarrow> removal \<times> 'm" where
  "re_register em k [] m = (Removed True, m)"
| "re_register em k (e # es) m = (case em_register em k e m of None \<Rightarrow> (Raised, m) | Some m' \<Rightarrow> re_register em k es m')"

definition deregister_address_preserving :: "'m emulator \<Rightarrow> hook_key \<Rightarrow> hook_entry list \<Rightarrow> nat \<Rightarrow> 'm \<Rightarrow> removal \<times> 'm" where
  "deregister_address_preserving em k entries owned m =
     (case em_deregister em of
        None \<Rightarrow> (Removed False, m)
      | Some dereg \<Rightarrow>
          (case dereg k m of
             (NotPresent, m') \<Rightarrow> (Removed False, m')
           | (Broken, m') \<Rightarrow> (Raised, m')
           | (Done, m') \<Rightarrow> re_register em k (take owned entries @ drop (Suc owned) entries) m'))"

fun index_of :: "'a \<Rightarrow> 'a list \<Rightarrow> nat option" where
  "index_of x [] = None"
| "index_of x (y # ys) = (if x = y then Some 0 else map_option Suc (index_of x ys))"

text \<open>The raw list under the pair key without the first such entry, and without the key when it becomes empty.\<close>

fun pop_entry :: "hook_key \<Rightarrow> hook_entry \<Rightarrow> (raw_key \<times> raw_value) list \<Rightarrow> ((raw_key \<times> raw_value) list) option" where
  "pop_entry k e [] = None"
| "pop_entry k e ((rk, rv) # raw) =
     (if rk = PairKey (fst k) (snd k)
      then case rv of
             EntryList es \<Rightarrow>
               if Some e \<in> set es
               then let rest = remove1 (Some e) es in Some (if rest = [] then raw else (rk, EntryList rest) # raw)
               else None
           | _ \<Rightarrow> None
      else map_option ((#) (rk, rv)) (pop_entry k e raw))"

definition remove_physical_callback :: "'m emulator \<Rightarrow> hook_key \<Rightarrow> hook_entry \<Rightarrow> 'm \<Rightarrow> removal \<times> 'm" where
  "remove_physical_callback em k e m =
     (case snapshot_hooks (em_hooks em m) of
        Some current \<Rightarrow>
          (case index_of e (entries_at current k) of
             None \<Rightarrow> (Removed False, m)
           | Some owned \<Rightarrow>
               (case pop_entry k e (the (em_hooks em m)) of
                  Some raw \<Rightarrow> (Removed True, em_set_hooks em raw m)
                | None \<Rightarrow> deregister_address_preserving em k (entries_at current k) owned m))
      | None \<Rightarrow>
          (case em_deregister em of
             None \<Rightarrow> (Removed False, m)
           | Some dereg \<Rightarrow>
               (case dereg k m of (NotPresent, m') \<Rightarrow> (Removed False, m') | (Broken, m') \<Rightarrow> (Raised, m') | (Done, m') \<Rightarrow> (Removed True, m'))))"

text \<open>Removing whatever hook is at an address; only the absent hook is excused.\<close>

definition deregister_physical :: "'m emulator \<Rightarrow> hook_key \<Rightarrow> 'm \<Rightarrow> bool \<times> 'm" where
  "deregister_physical em k m =
     (case em_deregister em of
        None \<Rightarrow> (True, m)
      | Some dereg \<Rightarrow> (case dereg k m of (Broken, m') \<Rightarrow> (False, m') | (_, m') \<Rightarrow> (True, m')))"

text \<open>Register: a new address gets its dispatcher first. The identity of a registration is its position.\<close>

definition add_registration :: "nat \<times> hook_key \<Rightarrow> nat \<Rightarrow> nat option \<Rightarrow> string option \<Rightarrow> hook_slot \<Rightarrow> 'v bus \<Rightarrow> nat \<times> 'v bus" where
  "add_registration key callback context symbol_name slot b =
     (let i = length (registrations b)
      in (i, b\<lparr>registrations := registrations b @ [\<lparr>r_key = key, r_callback = callback, r_context = context,
                                                   r_symbol = symbol_name, r_active = True\<rparr>],
               hook_slots := (hook_slots b)(key \<mapsto> slot\<lparr>members := members slot @ [i]\<rparr>),
               registered_symbols := (case symbol_name of None \<Rightarrow> registered_symbols b | Some s \<Rightarrow> insert s (registered_symbols b))\<rparr>))"

definition register_at ::
    "'m emulator \<Rightarrow> nat \<times> hook_key \<Rightarrow> nat \<Rightarrow> nat option \<Rightarrow> string option \<Rightarrow> bool \<Rightarrow> 'v bus \<Rightarrow> 'm \<Rightarrow> nat option \<times> 'v bus \<times> 'm" where
  "register_at em key callback context symbol_name replace_existing b m =
     (case hook_slots b key of
        Some slot \<Rightarrow> (case add_registration key callback context symbol_name slot b of (i, b') \<Rightarrow> (Some i, b', m))
      | None \<Rightarrow>
          (case (if replace_existing then deregister_physical em (snd key) m else (True, m)) of
             (False, m1) \<Rightarrow> (None, b, m1)
           | (True, m1) \<Rightarrow>
               (case em_register em (snd key) (Dispatcher (dispatchers b), None) m1 of
                  None \<Rightarrow> (None, b, m1)
                | Some m2 \<Rightarrow>
                    (case add_registration key callback context symbol_name \<lparr>dispatcher = dispatchers b, members = []\<rparr>
                            (b\<lparr>dispatchers := Suc (dispatchers b)\<rparr>) of
                       (i, b') \<Rightarrow> (Some i, b', m2)))))"

text \<open>Registration by label; an unknown label raises before anything happens.\<close>

definition register ::
    "'m emulator \<Rightarrow> nat \<Rightarrow> symbol_table \<Rightarrow> string \<Rightarrow> nat \<Rightarrow> 'v bus \<Rightarrow> 'm \<Rightarrow> (nat option \<times> 'v bus \<times> 'm) result" where
  "register em pyboy symbols symbol_name callback b m =
     rbind (bank_addr symbols symbol_name) (\<lambda>k. Inr (register_at em (pyboy, k) callback None (Some symbol_name) False b m))"

definition set_inactive :: "nat \<Rightarrow> registration list \<Rightarrow> registration list" where
  "set_inactive i rs = rs[i := (rs ! i)\<lparr>r_active := False\<rparr>]"

text \<open>The empty slot goes with its physical hook, and stays while the dispatcher may still be installed.\<close>

definition release_slot :: "'m emulator \<Rightarrow> nat \<times> hook_key \<Rightarrow> nat \<Rightarrow> 'v bus \<Rightarrow> 'm \<Rightarrow> 'v bus \<times> 'm" where
  "release_slot em key d b m =
     (case remove_physical_callback em (snd key) (Dispatcher d, None) m of
        (Raised, m') \<Rightarrow> (b, m')
      | (Removed removed, m') \<Rightarrow>
          if \<not> removed \<and> (case snapshot_hooks (em_hooks em m') of
                             None \<Rightarrow> True
                           | Some current \<Rightarrow> (Dispatcher d, None) \<in> set (entries_at current (snd key)))
          then (b, m') else (b\<lparr>hook_slots := (hook_slots b)(key := None)\<rparr>, m'))"

definition unregister :: "'m emulator \<Rightarrow> nat \<Rightarrow> 'v bus \<Rightarrow> 'm \<Rightarrow> 'v bus \<times> 'm" where
  "unregister em i b m =
     (if \<not> r_active (registrations b ! i) then (b, m)
      else let key = r_key (registrations b ! i);
               b1 = b\<lparr>registrations := set_inactive i (registrations b)\<rparr>
           in case hook_slots b key of
                None \<Rightarrow> (b1, m)
              | Some slot \<Rightarrow>
                  if i \<notin> set (members slot) then (b1, m)
                  else let b2 = b1\<lparr>hook_slots := (hook_slots b)(key \<mapsto> slot\<lparr>members := remove1 i (members slot)\<rparr>)\<rparr>
                       in if remove1 i (members slot) \<noteq> [] then (b2, m) else release_slot em key (dispatcher slot) b2 m)"

text \<open>The flag says that no exception came out of the emulator.\<close>

definition deactivate_at :: "'m emulator \<Rightarrow> nat \<times> hook_key \<Rightarrow> 'v bus \<Rightarrow> 'm \<Rightarrow> bool \<times> 'v bus \<times> 'm" where
  "deactivate_at em key b m =
     (let b' = (case hook_slots b key of
                  None \<Rightarrow> b
                | Some slot \<Rightarrow> b\<lparr>hook_slots := (hook_slots b)(key := None),
                                 registrations := fold set_inactive (members slot) (registrations b)\<rparr>)
      in case deregister_physical em (snd key) m of (ok, m') \<Rightarrow> (ok, b', m'))"

subsection \<open>Dispatch\<close>

text \<open>
  What a callback does is arbitrary: a function of the identity of its registration on the bus and the
  emulator. The dispatcher goes through the registrations its slot held when it started and runs those that
  are still active.
\<close>

fun dispatch_list :: "(nat \<Rightarrow> 'v bus \<Rightarrow> 'm \<Rightarrow> 'v bus \<times> 'm) \<Rightarrow> nat list \<Rightarrow> 'v bus \<Rightarrow> 'm \<Rightarrow> nat list \<times> 'v bus \<times> 'm" where
  "dispatch_list act [] b m = ([], b, m)"
| "dispatch_list act (i # rest) b m =
     (if r_active (registrations b ! i)
      then case act i b m of (b', m') \<Rightarrow> case dispatch_list act rest b' m' of (called, r) \<Rightarrow> (i # called, r)
      else dispatch_list act rest b m)"

definition dispatch :: "(nat \<Rightarrow> 'v bus \<Rightarrow> 'm \<Rightarrow> 'v bus \<times> 'm) \<Rightarrow> nat \<times> hook_key \<Rightarrow> 'v bus \<Rightarrow> 'm \<Rightarrow> nat list \<times> 'v bus \<times> 'm" where
  "dispatch act key b m = dispatch_list act (case hook_slots b key of None \<Rightarrow> [] | Some slot \<Rightarrow> members slot) b m"

text \<open>The callback that \<open>register\<close> installs emits its event.\<close>

definition event_callback :: "int \<Rightarrow> string \<Rightarrow> hook_key \<Rightarrow> 'v bus \<Rightarrow> 'v bus" where
  "event_callback now event_name k b = snd (emit now event_name (fst k) (snd k) None b)"

end
