(* ===== verification/Event_Safety.thy ===== *)
theory Event_Safety
  imports Event_Bus "HOL-Library.Multiset" "HOL-Library.Sublist"
begin

text \<open>What the event bus keeps: its log against the full history of events, its slots against the active registrations, and the difference of two hook tables.\<close>

subsection \<open>The log against the history\<close>

datatype 'v log_call = Emit int string int int "(string \<rightharpoonup> 'v) option" | Clear

fun log_after :: "'v log_call \<Rightarrow> 'v bus \<Rightarrow> 'v bus" where
  "log_after (Emit tick name bank addr payload) b = snd (emit tick name bank addr payload b)"
| "log_after Clear b = clear b"

text \<open>The specification: every event since the last clear.\<close>

fun history_after :: "'v log_call \<Rightarrow> 'v game_event list \<Rightarrow> 'v game_event list" where
  "history_after (Emit tick name bank addr payload) h =
     h @ [\<lparr>ev_tick = tick, ev_name = name, ev_bank = bank, ev_addr = addr,
            ev_payload = (case payload of None \<Rightarrow> Map.empty | Some p \<Rightarrow> p)\<rparr>]"
| "history_after Clear h = []"

definition named :: "string \<Rightarrow> 'v game_event list \<Rightarrow> 'v game_event list" where
  "named n h = filter (\<lambda>e. ev_name e = n) h"

definition log_of :: "'v bus \<Rightarrow> 'v game_event list \<Rightarrow> bool" where
  "log_of b h \<longleftrightarrow> log b = drop (length h - capacity b) h \<and> (\<forall>n. event_count n b = length (named n h))
     \<and> (\<forall>n. latest_of n b = (if named n h = [] then None else Some (last (named n h))))"

lemma named_snoc: "named n (h @ [e]) = (if ev_name e = n then named n h @ [e] else named n h)"
  by (simp add: named_def)

lemma deque_append_suffix: "deque_append k (drop (length h - k) h) x = drop (length (h @ [x]) - k) (h @ [x])"
proof (cases "length h < k")
  case True
  then show ?thesis by (simp add: deque_append_def Let_def)
next
  case False
  then have "length h - (length h - k) = k" "Suc (length h) - k = Suc (length h - k)" "Suc (length h - k) - length h = Suc 0 - k"
    by (simp_all add: Suc_diff_le)
  then show ?thesis by (cases k) (simp_all add: deque_append_def Let_def)
qed

lemma log_of_after:
  assumes "log_of b h"
  shows "log_of (log_after a b) (history_after a h) \<and> capacity (log_after a b) = capacity b"
proof (cases a)
  case (Emit tick name bank addr payload)
  let ?e = "\<lparr>ev_tick = tick, ev_name = name, ev_bank = bank, ev_addr = addr,
            ev_payload = (case payload of None \<Rightarrow> Map.empty | Some p \<Rightarrow> p)\<rparr>"
  have "log (log_after a b) = drop (length (h @ [?e]) - capacity b) (h @ [?e])"
    using assms deque_append_suffix [where h = h and k = "capacity b"] by (simp add: Emit emit_def log_of_def Let_def)
  moreover have "event_count n (log_after a b) = length (named n (h @ [?e]))" for n
    using assms by (auto simp: Emit emit_def log_of_def event_count_def named_snoc Let_def split: option.splits)
  moreover have "latest_of n (log_after a b) = (if named n (h @ [?e]) = [] then None else Some (last (named n (h @ [?e]))))" for n
    using assms by (simp add: Emit emit_def log_of_def latest_of_def named_snoc Let_def)
  moreover have "capacity (log_after a b) = capacity b" by (simp add: Emit emit_def Let_def)
  ultimately show ?thesis by (simp add: log_of_def Emit)
next
  case Clear
  with assms show ?thesis by (simp add: log_of_def clear_def event_count_def latest_of_def named_def)
qed

lemma log_of_calls:
  assumes "log_of b h"
  shows "log_of (foldl (\<lambda>b a. log_after a b) b calls) (foldl (\<lambda>h a. history_after a h) h calls)
     \<and> capacity (foldl (\<lambda>b a. log_after a b) b calls) = capacity b"
  using assms
proof (induction calls arbitrary: b h)
  case Nil
  then show ?case by simp
next
  case (Cons a calls)
  from log_of_after [OF Cons.prems, of a] Cons.IH [of "log_after a b" "history_after a h"] show ?case by simp
qed

text \<open>
  C27. The bounded log refines the full history. After any sequence of emissions and clears on a new bus,
  the log is the last \<open>capacity\<close> events since the last clear, in order; the count of a name is the number
  of all its events since then, dropped ones included; its latest event is the last of them; and what
  \<open>events_since\<close> answers for a tick is, in order, every event of the log that happened strictly after it.
\<close>

theorem log_refines_history:
  assumes "new_bus cap = Inr b"
  shows "log (foldl (\<lambda>b a. log_after a b) b calls) =
       (let h = foldl (\<lambda>h a. history_after a h) [] calls in drop (length h - nat cap) h)
     \<and> event_count n (foldl (\<lambda>b a. log_after a b) b calls) = length (named n (foldl (\<lambda>h a. history_after a h) [] calls))
     \<and> latest_of n (foldl (\<lambda>b a. log_after a b) b calls) =
         (let es = named n (foldl (\<lambda>h a. history_after a h) [] calls) in if es = [] then None else Some (last es))
     \<and> events_since t (foldl (\<lambda>b a. log_after a b) b calls) =
         (let h = foldl (\<lambda>h a. history_after a h) [] calls in filter (\<lambda>e. t < ev_tick e) (drop (length h - nat cap) h))
     \<and> int (bus_length (foldl (\<lambda>b a. log_after a b) b calls)) \<le> cap"
proof -
  have c: "capacity b = nat cap" "0 < cap" and start: "log_of b []"
    using assms by (auto simp: new_bus_def log_of_def event_count_def latest_of_def named_def split: if_split_asm)
  from log_of_calls [OF start] c show ?thesis by (simp add: log_of_def bus_length_def events_since_def Let_def)
qed

theorem log_refines_history_witness:
  "\<exists>b :: nat bus. new_bus 2 = Inr b
     \<and> event_count ''x'' (foldl (\<lambda>b a. log_after a b) b [Emit 1 ''x'' 0 0 None, Emit 2 ''x'' 0 0 None, Emit 3 ''x'' 0 0 None]) = 3
     \<and> map ev_tick (events_since 2 (foldl (\<lambda>b a. log_after a b) b [Emit 1 ''x'' 0 0 None, Emit 2 ''x'' 0 0 None, Emit 3 ''x'' 0 0 None])) = [3]
     \<and> int (bus_length (foldl (\<lambda>b a. log_after a b) b [Emit 1 ''x'' 0 0 None, Emit 2 ''x'' 0 0 None, Emit 3 ''x'' 0 0 None])) \<le> 2"
proof -
  obtain b :: "nat bus" where b: "new_bus 2 = Inr b" by (simp add: new_bus_def)
  show ?thesis
    using log_refines_history [OF b, of "[Emit 1 ''x'' 0 0 None, Emit 2 ''x'' 0 0 None, Emit 3 ''x'' 0 0 None]" "''x''" 2] b
    by (intro exI [of _ b]) (simp add: named_def)
qed

subsection \<open>The slots and the active registrations\<close>

definition members_at :: "'v bus \<Rightarrow> nat \<times> hook_key \<Rightarrow> nat list" where
  "members_at b key = (case hook_slots b key of None \<Rightarrow> [] | Some slot \<Rightarrow> members slot)"

definition active_at :: "'v bus \<Rightarrow> nat \<times> hook_key \<Rightarrow> nat list" where
  "active_at b key =
     filter (\<lambda>i. r_active (registrations b ! i) \<and> r_key (registrations b ! i) = key) [0..<length (registrations b)]"

definition slots_ok :: "'v bus \<Rightarrow> bool" where
  "slots_ok b \<longleftrightarrow> members_at b = active_at b"

lemma active_at_mem: "i \<in> set (active_at b key) \<longleftrightarrow>
    i < length (registrations b) \<and> r_active (registrations b ! i) \<and> r_key (registrations b ! i) = key"
  by (auto simp: active_at_def)

lemma active_at_distinct: "distinct (active_at b key)"
  by (simp add: active_at_def)

lemma active_at_cong: "registrations b = registrations b' \<Longrightarrow> active_at b key = active_at b' key"
  by (simp add: active_at_def)

lemma active_at_append:
  "registrations b' = registrations b @ [r] \<Longrightarrow> r_active r \<Longrightarrow>
     active_at b' key = active_at b key @ (if r_key r = key then [length (registrations b)] else [])"
  by (auto simp: active_at_def nth_append intro!: filter_cong)

lemma add_registration_slots:
  assumes "slots_ok b" "members slot = members_at b key" "add_registration key cb cx label slot b = (i, b')"
  shows "slots_ok b'"
proof -
  have r: "registrations b' = registrations b @ [\<lparr>r_key = key, r_callback = cb, r_context = cx, r_symbol = label, r_active = True\<rparr>]"
    "hook_slots b' = (hook_slots b)(key \<mapsto> slot\<lparr>members := members slot @ [length (registrations b)]\<rparr>)"
    using assms(3) by (auto simp: add_registration_def Let_def)
  have "members_at b' k = (if k = key then members_at b k @ [length (registrations b)] else members_at b k)" for k
    using assms(2) by (simp add: members_at_def r(2))
  with assms(1) active_at_append [OF r(1)] show ?thesis unfolding slots_ok_def by (intro ext) simp
qed

lemma slots_ok_dispatchers: "slots_ok (b\<lparr>dispatchers := n\<rparr>) = slots_ok b" "members_at (b\<lparr>dispatchers := n\<rparr>) = members_at b"
  by (simp_all add: slots_ok_def members_at_def [abs_def] active_at_def [abs_def])

lemma register_at_slots:
  assumes "slots_ok b" "register_at em key cb cx label rep b m = (i, b', m')"
  shows "slots_ok b'"
proof (cases "hook_slots b key")
  case (Some slot)
  obtain i0 b0 where a: "add_registration key cb cx label slot b = (i0, b0)" by fastforce
  with Some assms(2) have "b' = b0" by (simp add: register_at_def)
  with a Some assms(1) show ?thesis by (simp add: add_registration_slots [of b slot key] members_at_def)
next
  case None
  let ?b = "b\<lparr>dispatchers := Suc (dispatchers b)\<rparr>" and ?s = "\<lparr>dispatcher = dispatchers b, members = []\<rparr>"
  obtain i0 b0 where a: "add_registration key cb cx label ?s ?b = (i0, b0)" by fastforce
  obtain ok m1 where d: "(if rep then deregister_physical em (snd key) m else (True, m)) = (ok, m1)" by fastforce
  have "b' = b \<or> b' = b0"
    using assms(2) None a d by (cases ok) (auto simp: register_at_def split: option.splits)
  moreover have "slots_ok b0"
    using add_registration_slots [OF _ _ a] None assms(1) by (simp add: slots_ok_dispatchers) (simp add: members_at_def)
  ultimately show ?thesis using assms(1) by blast
qed

lemma active_at_inactive:
  assumes "i < length (registrations b)" "registrations b' = set_inactive i (registrations b)"
  shows "active_at b' key = (if r_key (registrations b ! i) = key then remove1 i (active_at b key) else active_at b key)"
proof -
  have "active_at b' key = filter (\<lambda>j. j \<noteq> i) (active_at b key)"
    unfolding active_at_def filter_filter assms(2) set_inactive_def
    by (rule filter_cong) (use assms(1) in \<open>auto simp: nth_list_update\<close>)
  also have "\<dots> = remove1 i (active_at b key)"
    by (simp add: active_at_distinct distinct_remove1_removeAll removeAll_filter_not_eq) (rule filter_cong, auto)
  finally have r: "active_at b' key = remove1 i (active_at b key)" .
  show ?thesis
  proof (cases "r_key (registrations b ! i) = key")
    case False
    then have "i \<notin> set (active_at b key)" by (simp add: active_at_mem)
    with r False show ?thesis by (simp add: remove1_idem)
  qed (simp add: r)
qed

lemma release_slot_members:
  assumes "release_slot em key d b m = (b', m')" "members_at b key = []"
  shows "registrations b' = registrations b" "members_at b' = members_at b"
  using assms by (auto simp: release_slot_def members_at_def fun_eq_iff split: prod.splits removal.splits if_split_asm)



lemma unregister_slots:
  assumes "slots_ok b" "i < length (registrations b)" "unregister em i b m = (b', m')"
  shows "slots_ok b' \<and> \<not> r_active (registrations b' ! i)"
proof (cases "r_active (registrations b ! i)")
  case False
  with assms show ?thesis by (simp add: unregister_def)
next
  case True
  define key where "key = r_key (registrations b ! i)"
  have "i \<in> set (members_at b key)" using assms(1,2) True by (simp add: slots_ok_def active_at_mem key_def)
  then obtain slot where slot: "hook_slots b key = Some slot" "i \<in> set (members slot)"
    by (cases "hook_slots b key") (simp_all add: members_at_def)
  define b2 where "b2 = b\<lparr>registrations := set_inactive i (registrations b), hook_slots := (hook_slots b)(key \<mapsto> slot\<lparr>members := remove1 i (members slot)\<rparr>)\<rparr>"
  have m2: "members_at b2 k = (if k = key then remove1 i (members_at b k) else members_at b k)" for k
    using slot(1) by (simp add: b2_def members_at_def)
  have "active_at b2 k = (if k = key then remove1 i (active_at b k) else active_at b k)" for k
    using active_at_inactive [OF assms(2), of b2 k] by (auto simp: b2_def key_def)
  with m2 assms(1) have ok2: "slots_ok b2" unfolding slots_ok_def by (intro ext) simp
  have off: "\<not> r_active (registrations b2 ! i)" using assms(2) by (simp add: b2_def set_inactive_def)
  show ?thesis
  proof (cases "remove1 i (members slot) = []")
    case False
    with assms(3) True slot have "b' = b2" by (simp add: unregister_def b2_def key_def Let_def)
    with ok2 off show ?thesis by simp
  next
    case empty: True
    with assms(3) True slot have r: "release_slot em key (dispatcher slot) b2 m = (b', m')"
      by (simp add: unregister_def b2_def key_def Let_def)
    have "members_at b key = members slot" using slot(1) by (simp add: members_at_def)
    with empty have "members_at b2 key = []" by (simp add: m2)
    from release_slot_members [OF r this] ok2 off show ?thesis by (simp add: slots_ok_def active_at_def [abs_def])
  qed
qed

lemma inactive_fold:
  "\<forall>i \<in> set is. i < length rs \<Longrightarrow>
     length (fold set_inactive is rs) = length rs
     \<and> (\<forall>j < length rs. fold set_inactive is rs ! j = (if j \<in> set is then (rs ! j)\<lparr>r_active := False\<rparr> else rs ! j))"
proof (induction "is" arbitrary: rs)
  case Nil
  then show ?case by simp
next
  case (Cons i "is")
  have l: "length (set_inactive i rs) = length rs" by (simp add: set_inactive_def)
  have n: "set_inactive i rs ! j = (if j = i then (rs ! j)\<lparr>r_active := False\<rparr> else rs ! j)" if "j < length rs" for j
    using that by (simp add: set_inactive_def)
  from Cons.IH [of "set_inactive i rs"] Cons.prems l n show ?case by auto
qed

lemma deactivate_at_slots:
  assumes "slots_ok b" "deactivate_at em key b m = (ok, b', m')"
  shows "slots_ok b' \<and> members_at b' key = []"
proof (cases "hook_slots b key")
  case None
  with assms show ?thesis by (simp add: deactivate_at_def members_at_def split: prod.splits)
next
  case (Some slot)
  have "members_at b key = members slot" using Some by (simp add: members_at_def)
  then have mem: "members slot = active_at b key" using assms(1) by (simp add: slots_ok_def)
  from Some assms(2) have r: "registrations b' = fold set_inactive (members slot) (registrations b)" "hook_slots b' = (hook_slots b)(key := None)"
    by (auto simp: deactivate_at_def Let_def split: prod.splits)
  have bounds: "\<forall>i \<in> set (members slot). i < length (registrations b)" by (simp add: mem active_at_mem)
  note f = inactive_fold [OF bounds]
  have same: "(r_active (registrations b' ! j) \<and> r_key (registrations b' ! j) = k)
      = (k \<noteq> key \<and> r_active (registrations b ! j) \<and> r_key (registrations b ! j) = k)" if "j < length (registrations b)" for j k
    using f that by (cases "j \<in> set (members slot)") (auto simp: r(1) mem active_at_mem)
  have len: "length (registrations b') = length (registrations b)" using f by (simp add: r(1))
  have "active_at b' k = (if k = key then [] else active_at b k)" for k
  proof (cases "k = key")
    case True
    then show ?thesis using same [of _ k] by (simp add: active_at_def len filter_empty_conv)
  next
    case False
    have "active_at b' k = active_at b k"
      unfolding active_at_def len by (rule filter_cong) (use same [of _ k] False in auto)
    with False show ?thesis by simp
  qed
  moreover have "members_at b' k = (if k = key then [] else members_at b k)" for k
    by (simp add: members_at_def r(2))
  ultimately show ?thesis using assms(1) by (simp add: slots_ok_def) (intro ext, simp)
qed

text \<open>The calls on the registrations, against an emulator that does whatever it likes.\<close>

datatype hook_call =
    RegisterAt "nat \<times> hook_key" nat "nat option" "string option" bool
  | Unregister nat
  | DeactivateAt "nat \<times> hook_key"

fun hook_after :: "'m emulator \<Rightarrow> hook_call \<Rightarrow> 'v bus \<times> 'm \<Rightarrow> 'v bus \<times> 'm" where
  "hook_after em (RegisterAt key cb cx label rep) (b, m) = snd (register_at em key cb cx label rep b m)"
| "hook_after em (Unregister i) (b, m) = (if i < length (registrations b) then unregister em i b m else (b, m))"
| "hook_after em (DeactivateAt key) (b, m) = snd (deactivate_at em key b m)"

lemma hook_after_slots:
  assumes "slots_ok b"
  shows "slots_ok (fst (hook_after em a (b, m)))"
proof (cases a)
  case (RegisterAt key cb cx label rep)
  obtain i b' m' where r: "register_at em key cb cx label rep b m = (i, b', m')" by (metis prod_cases3)
  with register_at_slots [OF assms r] RegisterAt show ?thesis by simp
next
  case (Unregister i)
  obtain b' m' where r: "unregister em i b m = (b', m')" by fastforce
  with unregister_slots [OF assms _ r] Unregister assms show ?thesis by simp
next
  case (DeactivateAt key)
  obtain ok b' m' where r: "deactivate_at em key b m = (ok, b', m')" by (metis prod_cases3)
  with deactivate_at_slots [OF assms r] DeactivateAt show ?thesis by simp
qed







lemma hook_calls_slots:
  "slots_ok b \<Longrightarrow> slots_ok (fst (foldl (\<lambda>s a. hook_after em a s) (b, m) calls))"
proof (induction calls arbitrary: b m)
  case Nil
  then show ?case by simp
next
  case (Cons a calls)
  obtain b' m' where s: "hook_after em a (b, m) = (b', m')" by fastforce
  with hook_after_slots [OF Cons.prems, of em a m] Cons.IH [of b' m'] show ?case by simp
qed


text \<open>An emulator without deregistration and without a readable table, whose registrations are counted.\<close>

definition bare_emulator :: "nat emulator" where
  "bare_emulator = \<lparr>em_register = (\<lambda>_ _ m. Some (m + 1)), em_deregister = None, em_hooks = (\<lambda>_. None), em_set_hooks = (\<lambda>_ m. m)\<rparr>"


subsection \<open>Dispatch\<close>

lemma dispatch_list_subseq: "subseq (fst (dispatch_list act is b m)) is"
proof (induction "is" arbitrary: b m)
  case Nil
  show ?case by simp
next
  case (Cons i "is")
  then show ?case by (auto split: prod.split) (metis fst_conv subseq_Cons2 | metis fst_conv list_emb_Cons)+
qed

lemma dispatch_list_all:
  assumes "\<And>i b m. registrations (fst (act i b m)) = registrations b"
  shows "fst (dispatch_list act is b m) = filter (\<lambda>i. r_active (registrations b ! i)) is"
proof (induction "is" arbitrary: b m)
  case Nil
  show ?case by simp
next
  case (Cons i "is")
  obtain b' m' where s: "act i b m = (b', m')" by fastforce
  with assms [of i b m] Cons.IH [of b' m'] Cons.IH [of b m] show ?case by (auto split: prod.split)
qed

subsection \<open>Comparing two tables\<close>

lemma added_at_mset: "mset (map snd (added_at k prior es)) = mset es - mset prior"
proof (induction k prior es rule: added_at.induct)
  case (1 k prior)
  show ?case by simp
next
  case (2 k prior e es)
  show ?case
  proof (cases "e \<in> set prior")
    case True
    then obtain P where "mset prior = add_mset e P" by (metis insert_DiffM set_mset_mset)
    with 2(1) [OF True] True show ?thesis by simp
  next
    case False
    with 2(2) [OF False] show ?thesis by simp
  qed
qed

lemma added_at_key: "x \<in> set (added_at k prior es) \<Longrightarrow> fst x = k"
  by (induction k prior es rule: added_at.induct) (auto split: if_split_asm)

lemma added_at_filter: "filter (\<lambda>x. fst x = k) (added_at k' prior es) = (if k' = k then added_at k' prior es else [])"
  by (simp add: filter_empty_conv filter_id_conv) (use added_at_key in metis)

lemma added_others:
  "k \<notin> fst ` set new \<Longrightarrow> filter (\<lambda>x. fst x = k) (hooks_added_since (Some old) (Some new)) = []"
proof (induction new)
  case Nil
  show ?case by (simp add: hooks_added_since_def)
next
  case (Cons x new)
  obtain k' es where x: "x = (k', es)" by fastforce
  from Cons x have "k' \<noteq> k" "filter (\<lambda>x. fst x = k) (hooks_added_since (Some old) (Some new)) = []" by auto
  then show ?case by (simp add: x hooks_added_since_def added_at_filter)
qed

text \<open>
  The new hooks are the difference of the tables. For two inspectable tables, the records reported as
  added at an address are, counted with multiplicity, the entries of the later table at that address minus
  those of the earlier one: an old entry excuses exactly one equal entry, and no other address matters.
\<close>

theorem hooks_added_is_difference:
  assumes "distinct (map fst new)"
  shows "mset (map snd (filter (\<lambda>x. fst x = k) (hooks_added_since (Some old) (Some new)))) = mset (entries_at new k) - mset (entries_at old k)"
  using assms
proof (induction new)
  case Nil
  show ?case by (simp add: hooks_added_since_def entries_at_def)
next
  case (Cons x new)
  obtain k' es where x: "x = (k', es)" by fastforce
  have h: "hooks_added_since (Some old) (Some (x # new)) = added_at k' (entries_at old k') es @ hooks_added_since (Some old) (Some new)"
    by (simp add: hooks_added_since_def x)
  let ?of = "\<lambda>xs. mset (map snd (filter (\<lambda>x. fst x = k) xs))"
  have split: "?of (hooks_added_since (Some old) (Some (x # new))) =
      (if k' = k then mset es - mset (entries_at old k) else {#}) + ?of (hooks_added_since (Some old) (Some new))"
    unfolding h filter_append map_append mset_append added_at_filter using added_at_mset [of k "entries_at old k" es] by simp
  show ?case
  proof (cases "k' = k")
    case True
    with Cons.prems x have "k \<notin> fst ` set new" by simp
    from added_others [OF this, of old] True show ?thesis unfolding split by (simp add: x entries_at_def)
  next
    case False
    with Cons.prems Cons.IH show ?thesis unfolding split by (simp add: x entries_at_def)
  qed
qed

theorem hooks_added_is_difference_witness:
  "mset (map snd (filter (\<lambda>x. fst x = (1, 0x40)) (hooks_added_since (Some [((1, 0x40), [(Callback 5, None)])])
     (Some [((1, 0x40), [(Callback 5, None), (Callback 5, None), (Callback 6, None)])])))) = {#(Callback 5, None), (Callback 6, None)#}"
  by (subst hooks_added_is_difference) (simp_all add: entries_at_def)

text \<open>
  A dispatcher runs its active registrations once each. Right after any calls on a new bus, dispatching
  an address runs, in the order of registration, registrations that are active there - all of them when the
  callbacks themselves leave the registrations alone, a part of them when a callback closes others.
\<close>

theorem dispatch_runs_active:
  assumes "new_bus cap = Inr b" "foldl (\<lambda>s a. hook_after em a s) (b, m) calls = (b', m')"
  shows "subseq (fst (dispatch act key b' m')) (active_at b' key)
     \<and> ((\<forall>i b m. registrations (fst (act i b m)) = registrations b) \<longrightarrow> fst (dispatch act key b' m') = active_at b' key)"
proof -
  have "slots_ok b" using assms(1) by (auto simp: new_bus_def slots_ok_def members_at_def active_at_def split: if_split_asm)
  from hook_calls_slots [OF this, of em m calls] assms(2) have "members_at b' key = active_at b' key" by (simp add: slots_ok_def)
  then have d: "dispatch act key b' m' = dispatch_list act (active_at b' key) b' m'"
    by (simp add: dispatch_def members_at_def)
  have "filter (\<lambda>i. r_active (registrations b' ! i)) (active_at b' key) = active_at b' key"
    by (simp add: filter_id_conv active_at_mem)
  with dispatch_list_subseq [of act "active_at b' key" b' m'] dispatch_list_all [of act "active_at b' key" b' m'] show ?thesis
    unfolding d by auto
qed

theorem dispatch_runs_active_witness:
  "\<exists>b :: nat bus. new_bus 8 = Inr b \<and>
     (case foldl (\<lambda>s a. hook_after bare_emulator a s) (b, 0) [RegisterAt (1, 3, 0x4000) 10 None None False] of
       (b', m') \<Rightarrow> fst (dispatch (\<lambda>_ b m. (b, m + 1)) (1, 3, 0x4000) b' m') = [0])"
proof -
  obtain b :: "nat bus" where b: "new_bus 8 = Inr b" by (simp add: new_bus_def)
  obtain b' m' where f: "foldl (\<lambda>s a. hook_after bare_emulator a s) (b, 0) [RegisterAt (1, 3, 0x4000) 10 None None False] = (b', m')"
    by fastforce
  then have "registrations b' = [\<lparr>r_key = (1, 3, 0x4000), r_callback = 10, r_context = None, r_symbol = None, r_active = True\<rparr>]"
    using b by (auto simp: new_bus_def bare_emulator_def register_at_def add_registration_def Let_def)
  then have "active_at b' (1, 3, 0x4000) = [0]" by (simp add: active_at_def)
  with dispatch_runs_active [OF b f, of "\<lambda>_ b m. (b, m + 1)" "(1, 3, 0x4000)"] b f show ?thesis by (intro exI [of _ b]) simp
qed

end
