(* ===== verification/Ownership.thy ===== *)
theory Ownership
  imports Prelude
begin

text \<open>
  Emulator ownership (\<open>ownership.py\<close>): one owner per emulator with a re-entrant lock, the order in which
  a thread may take several of them, the scopes a thread has entered, and the claims of a session and of a
  provider on an owner. Threads are numbers; an owner is its \<open>order\<close>, the identity of its emulator. The
  context managers of the code are scopes: entering may be refused, may go through or may have to wait;
  leaving restores what the scope saved. The locks are those the owner makes itself, which can wait with a
  deadline.
\<close>

subsection \<open>Locks and scopes\<close>

text \<open>A scope remembers the depth and the owners of its thread before it.\<close>

record scope =
  of_owner :: nat
  saved_depth :: nat
  saved_held :: "nat list"

record ownership =
  rlock :: "nat \<Rightarrow> (nat \<times> nat) option"
  depth :: "nat \<Rightarrow> nat \<Rightarrow> nat"
  held :: "nat \<Rightarrow> nat list"
  scopes :: "nat \<Rightarrow> scope list"
  wanted :: "nat \<Rightarrow> nat option"

definition no_scopes :: ownership where
  "no_scopes = \<lparr>rlock = (\<lambda>_. None), depth = (\<lambda>_ _. 0), held = (\<lambda>_. []), scopes = (\<lambda>_. []), wanted = (\<lambda>_. None)\<rparr>"

definition assert_no_emulator_scope :: "nat \<Rightarrow> ownership \<Rightarrow> bool" where
  "assert_no_emulator_scope t s \<longleftrightarrow> held s t = []"

definition assert_lock_order :: "nat \<Rightarrow> nat \<Rightarrow> ownership \<Rightarrow> bool" where
  "assert_lock_order t x s \<longleftrightarrow> depth s t x \<noteq> 0 \<or> (\<forall>y \<in> set (held s t). \<not> y > x)"

text \<open>The re-entrant lock: its thread and how often it was taken.\<close>

definition acquire :: "nat \<Rightarrow> nat \<Rightarrow> ownership \<Rightarrow> ownership option" where
  "acquire t x s =
     (case rlock s x of
        None \<Rightarrow> Some (s\<lparr>rlock := (rlock s)(x \<mapsto> (t, 1))\<rparr>)
      | Some (t', n) \<Rightarrow> if t' = t then Some (s\<lparr>rlock := (rlock s)(x \<mapsto> (t, n + 1))\<rparr>) else None)"

definition release :: "nat \<Rightarrow> ownership \<Rightarrow> ownership" where
  "release x s =
     (case rlock s x of
        None \<Rightarrow> s
      | Some (t, n) \<Rightarrow> s\<lparr>rlock := (rlock s)(x := (if n \<le> 1 then None else Some (t, n - 1)))\<rparr>)"

definition mark_scope :: "nat \<Rightarrow> nat \<Rightarrow> ownership \<Rightarrow> ownership" where
  "mark_scope t x s =
     s\<lparr>depth := (depth s)(t := (depth s t)(x := depth s t x + 1)),
       held := (held s)(t := (if depth s t x = 0 then held s t @ [x] else held s t)),
       scopes := (scopes s)(t := \<lparr>of_owner = x, saved_depth = depth s t x, saved_held = held s t\<rparr> # scopes s t)\<rparr>"

definition unmark_scope :: "nat \<Rightarrow> ownership \<Rightarrow> ownership" where
  "unmark_scope t s =
     (case scopes s t of
        [] \<Rightarrow> s
      | f # fs \<Rightarrow> s\<lparr>depth := (depth s)(t := (depth s t)(of_owner f := saved_depth f)),
                    held := (held s)(t := (if saved_depth f = 0 then saved_held f else held s t)),
                    scopes := (scopes s)(t := fs)\<rparr>)"

datatype entering = Entered | Refused | Waiting | TimedOut

text \<open>Taking the lock: at once, or waiting for it. A wait goes on in \<open>acquire_or_wait\<close> and may end in \<open>give_up\<close>.\<close>

definition acquire_or_wait :: "nat \<Rightarrow> nat \<Rightarrow> ownership \<Rightarrow> entering \<times> ownership" where
  "acquire_or_wait t x s =
     (case acquire t x s of
        Some s' \<Rightarrow> (Entered, mark_scope t x (s'\<lparr>wanted := (wanted s')(t := None)\<rparr>))
      | None \<Rightarrow> (Waiting, s\<lparr>wanted := (wanted s)(t := Some x)\<rparr>))"

definition access :: "nat \<Rightarrow> nat \<Rightarrow> ownership \<Rightarrow> entering \<times> ownership" where
  "access t x s = (if \<not> assert_lock_order t x s then (Refused, s) else acquire_or_wait t x s)"

definition give_up :: "nat \<Rightarrow> ownership \<Rightarrow> entering \<times> ownership" where
  "give_up t s = (TimedOut, s\<lparr>wanted := (wanted s)(t := None)\<rparr>)"

definition leave :: "nat \<Rightarrow> ownership \<Rightarrow> ownership" where
  "leave t s = (case scopes s t of [] \<Rightarrow> s | f # _ \<Rightarrow> release (of_owner f) (unmark_scope t s))"

subsection \<open>Groups\<close>

text \<open>The owners of a group, each once, in the canonical order.\<close>

definition canonical :: "nat list \<Rightarrow> nat list" where
  "canonical owners = sort (remdups owners)"

fun leave_all :: "nat \<Rightarrow> nat \<Rightarrow> ownership \<Rightarrow> ownership" where
  "leave_all 0 t s = s"
| "leave_all (Suc n) t s = leave_all n t (leave t s)"

text \<open>
  Entering a group that has to wait stops at the waiting owner, with the number of owners entered before
  it; an error leaves them again.
\<close>

fun enter_each :: "nat \<Rightarrow> nat list \<Rightarrow> nat \<Rightarrow> ownership \<Rightarrow> entering \<times> nat \<times> ownership" where
  "enter_each t [] n s = (Entered, n, s)"
| "enter_each t (x # xs) n s =
     (case access t x s of
        (Entered, s') \<Rightarrow> enter_each t xs (Suc n) s'
      | (Waiting, s') \<Rightarrow> (Waiting, n, s')
      | (r, s') \<Rightarrow> (r, 0, leave_all n t s'))"

definition owner_group :: "nat \<Rightarrow> nat list \<Rightarrow> bool \<Rightarrow> (nat \<Rightarrow> bool) \<Rightarrow> ownership \<Rightarrow> (exn + entering) \<times> ownership" where
  "owner_group t owners allow_closed is_open s =
     (case enter_each t (canonical owners) 0 s of
        (Entered, n, s') \<Rightarrow>
          if allow_closed \<or> list_all is_open (canonical owners) then (Inr Entered, s')
          else (Inl OtherException, leave_all n t s')
      | (r, _, s') \<Rightarrow> (Inr r, s'))"

subsection \<open>Claims\<close>

text \<open>Sessions and providers are identities behind weak references; \<open>alive\<close> says which of them still exist.\<close>

record 'e owner =
  pyboy :: nat
  owner_closed :: bool
  closed_error :: 'e
  session_ref :: "nat option"
  provider_ref :: "nat option"

datatype 'e claim_error = OwnershipError string | SessionClosed 'e

definition new_owner :: "'e \<Rightarrow> nat \<Rightarrow> 'e owner" where
  "new_owner ownership_error emulator =
     \<lparr>pyboy = emulator, owner_closed = False, closed_error = ownership_error, session_ref = None, provider_ref = None\<rparr>"

definition referent :: "(nat \<Rightarrow> bool) \<Rightarrow> nat option \<Rightarrow> nat option" where
  "referent alive r = (case r of Some x \<Rightarrow> if alive x then Some x else None | None \<Rightarrow> None)"

definition ensure_open :: "bool \<Rightarrow> 'e owner \<Rightarrow> 'e claim_error + unit" where
  "ensure_open stopped own = (if owner_closed own \<or> stopped then Inl (SessionClosed (closed_error own)) else Inr ())"

text \<open>The outcome of entering the owner's own scope is an argument; refusal and a running scope both raise.\<close>

definition bind_session ::
    "(nat \<Rightarrow> bool) \<Rightarrow> bool \<Rightarrow> bool \<Rightarrow> bool \<Rightarrow> nat \<Rightarrow> 'e \<Rightarrow> 'e owner \<Rightarrow> 'e claim_error + 'e owner" where
  "bind_session alive stopped executing refused session error own =
     (if executing then Inl (OwnershipError ''cannot create a Session during emulator execution'')
      else if refused then Inl (OwnershipError ''emulator locks must be acquired in canonical order'')
      else if referent alive (session_ref own) \<noteq> None then Inl (OwnershipError ''emulator already has a live Session owner'')
      else rbind (ensure_open stopped own) (\<lambda>_. Inr (own\<lparr>session_ref := Some session, closed_error := error\<rparr>)))"

definition claim_provider :: "(nat \<Rightarrow> bool) \<Rightarrow> nat \<Rightarrow> 'e owner \<Rightarrow> 'e claim_error + 'e owner" where
  "claim_provider alive provider own =
     (case referent alive (provider_ref own) of
        Some current \<Rightarrow>
          if current \<noteq> provider then Inl (OwnershipError ''emulator is already attached to another provider'')
          else Inr (own\<lparr>provider_ref := Some provider\<rparr>)
      | None \<Rightarrow> Inr (own\<lparr>provider_ref := Some provider\<rparr>))"

definition release_provider :: "(nat \<Rightarrow> bool) \<Rightarrow> nat \<Rightarrow> 'e owner \<Rightarrow> 'e owner" where
  "release_provider alive provider own =
     (if referent alive (provider_ref own) = Some provider then own\<lparr>provider_ref := None\<rparr> else own)"

text \<open>
  The registry of live owners by emulator identity. An emulator is its identity number and the object
  behind it; a dead owner has left the map.
\<close>

definition owner_for :: "'e \<Rightarrow> nat \<times> nat \<Rightarrow> (nat \<rightharpoonup> 'e owner) \<Rightarrow> 'e claim_error + 'e owner \<times> (nat \<rightharpoonup> 'e owner)" where
  "owner_for ownership_error emulator owners =
     (case owners (fst emulator) of
        None \<Rightarrow> (let own = new_owner ownership_error (snd emulator) in Inr (own, owners(fst emulator \<mapsto> own)))
      | Some own \<Rightarrow>
          if pyboy own \<noteq> snd emulator then Inl (OwnershipError ''emulator ownership identity mismatch'')
          else Inr (own, owners))"

end
