(* ===== verification/Ownership_Safety.thy ===== *)
theory Ownership_Safety
  imports Ownership
begin

text \<open>
  Why emulator threads do not deadlock: a thread only ever waits for an owner above all those it holds.
  \<open>ordered_waiting\<close> draws the conclusion from that law, and the scopes of \<open>Ownership\<close> provide it.
\<close>

subsection \<open>Waiting upwards\<close>

locale ordered_waiting =
  fixes ok :: "'s \<Rightarrow> bool" and holds :: "'s \<Rightarrow> 't \<Rightarrow> 'r::linorder \<Rightarrow> bool" and waits :: "'s \<Rightarrow> 't \<Rightarrow> 'r option"
  assumes waits_above: "ok s \<Longrightarrow> waits s t = Some x \<Longrightarrow> holds s t y \<Longrightarrow> y < x"
begin

lemma someone_can_go_on:
  assumes "ok s" "finite T" "T \<noteq> {}" "\<forall>t \<in> T. waits s t \<noteq> None"
  shows "\<exists>t \<in> T. \<forall>t' \<in> T. \<not> holds s t' (the (waits s t))"
proof -
  let ?want = "\<lambda>t. the (waits s t)"
  have "Max (?want ` T) \<in> ?want ` T" using assms(2,3) by (intro Max_in) simp_all
  then obtain t where t: "t \<in> T" "Max (?want ` T) = ?want t" by blast
  have top: "?want t' \<le> ?want t" if "t' \<in> T" for t'
    using that assms(2) by (simp flip: t(2))
  have "\<not> holds s t' (?want t)" if "t' \<in> T" for t'
  proof -
    obtain x where "waits s t' = Some x" using assms(4) \<open>t' \<in> T\<close> by auto
    with waits_above [OF assms(1) this, of "?want t"] top [OF that] show ?thesis by auto
  qed
  with t(1) show ?thesis by blast
qed

end

subsection \<open>The scopes of a thread\<close>

fun held_by :: "scope list \<Rightarrow> nat list" where
  "held_by [] = []"
| "held_by (f # fs) = (if of_owner f \<in> of_owner ` set fs then held_by fs else held_by fs @ [of_owner f])"

definition entered :: "nat \<Rightarrow> scope list \<Rightarrow> nat" where
  "entered x fs = length (filter (\<lambda>f. of_owner f = x) fs)"

fun nested :: "scope list \<Rightarrow> bool" where
  "nested [] \<longleftrightarrow> True"
| "nested (f # fs) \<longleftrightarrow> saved_depth f = entered (of_owner f) fs \<and> saved_held f = held_by fs \<and> nested fs
     \<and> sorted_wrt (<) (held_by (f # fs))"

lemma entered_simps [simp]:
  "entered x [] = 0" "entered x (f # fs) = (if of_owner f = x then Suc (entered x fs) else entered x fs)"
  by (simp_all add: entered_def)

lemma entered_pos: "0 < entered x fs \<longleftrightarrow> x \<in> of_owner ` set fs"
  by (induction fs) auto

lemma entered_zero: "entered x fs = 0 \<longleftrightarrow> x \<notin> of_owner ` set fs"
  using entered_pos [of x fs] by auto

lemma held_by_set: "set (held_by fs) = of_owner ` set fs"
  by (induction fs) auto

lemma nested_sorted: "nested fs \<Longrightarrow> sorted_wrt (<) (held_by fs)"
  by (cases fs) auto

subsection \<open>The invariant\<close>

definition lock_ok :: "ownership \<Rightarrow> nat \<Rightarrow> bool" where
  "lock_ok s x \<longleftrightarrow> (case rlock s x of
      None \<Rightarrow> \<forall>t. entered x (scopes s t) = 0
    | Some (t, n) \<Rightarrow> 0 < n \<and> entered x (scopes s t) = n \<and> (\<forall>t'. t' \<noteq> t \<longrightarrow> entered x (scopes s t') = 0))"

definition own_ok :: "ownership \<Rightarrow> bool" where
  "own_ok s \<longleftrightarrow> (\<forall>t. nested (scopes s t)) \<and> (\<forall>t. depth s t = (\<lambda>x. entered x (scopes s t)))
     \<and> (\<forall>t. held s t = held_by (scopes s t)) \<and> (\<forall>x. lock_ok s x)
     \<and> (\<forall>t x. wanted s t = Some x \<longrightarrow> (\<forall>y \<in> set (held s t). y < x))"

lemma own_okD:
  assumes "own_ok s"
  shows "nested (scopes s t)" "depth s t = (\<lambda>x. entered x (scopes s t))" "held s t = held_by (scopes s t)" "lock_ok s x"
    "wanted s t = Some x \<Longrightarrow> y \<in> set (held s t) \<Longrightarrow> y < x"
  using assms unfolding own_ok_def by blast+

lemma lock_ok_cong:
  "rlock s' x = rlock s x \<Longrightarrow> (\<And>t. entered x (scopes s' t) = entered x (scopes s t)) \<Longrightarrow> lock_ok s' x = lock_ok s x"
  unfolding lock_ok_def by (cases "rlock s x") auto

lemma holder:
  assumes "own_ok s" "x \<in> set (held s t)"
  shows "\<exists>n. rlock s x = Some (t, n)"
proof -
  have e: "0 < entered x (scopes s t)" using assms(2) own_okD(3) [OF assms(1), of t] by (simp add: held_by_set entered_pos)
  with own_okD(4) [OF assms(1), of x] show ?thesis
    by (cases "rlock s x") (auto simp: lock_ok_def split: prod.splits, metis not_less_zero)
qed

text \<open>
  What a thread can do: ask for an owner, go on or give up while it waits, and leave its innermost scope.
\<close>

inductive own_step :: "ownership \<Rightarrow> ownership \<Rightarrow> bool" where
  ask: "wanted s t = None \<Longrightarrow> own_step s (snd (access t x s))"
| resume: "wanted s t = Some x \<Longrightarrow> own_step s (snd (acquire_or_wait t x s))"
| expire: "wanted s t = Some x \<Longrightarrow> own_step s (snd (give_up t s))"
| finish: "wanted s t = None \<Longrightarrow> own_step s (leave t s)"

inductive own_reachable :: "ownership \<Rightarrow> bool" where
  start: "own_reachable no_scopes"
| step: "own_reachable s \<Longrightarrow> own_step s s' \<Longrightarrow> own_reachable s'"

inductive_cases own_stepE: "own_step s s'"

lemma no_scopes_ok: "own_ok no_scopes"
  by (simp add: own_ok_def no_scopes_def lock_ok_def)

lemma acquire_or_wait_ok:
  assumes ok: "own_ok s" and order: "x \<in> set (held s t) \<or> (\<forall>y \<in> set (held s t). y < x)"
  shows "own_ok (snd (acquire_or_wait t x s))"
proof (cases "acquire t x s")
  case None
  then obtain t' n where l: "rlock s x = Some (t', n)" "t' \<noteq> t"
    by (auto simp: acquire_def split: option.splits if_split_asm)
  with holder [OF ok, of x t] have "x \<notin> set (held s t)" by auto
  with order have "\<forall>y \<in> set (held s t). y < x" by blast
  moreover have "lock_ok (s\<lparr>wanted := (wanted s)(t \<mapsto> x)\<rparr>) y" for y
    using own_okD(4) [OF ok, of y] lock_ok_cong [of "s\<lparr>wanted := (wanted s)(t \<mapsto> x)\<rparr>" y s] by simp
  ultimately show ?thesis using ok by (simp add: None acquire_or_wait_def own_ok_def)
next
  case (Some s1)
  define n where "n = (case rlock s x of None \<Rightarrow> 0 | Some (_, n) \<Rightarrow> n)"
  have lx: "lock_ok s x" using ok by (simp add: own_ok_def)
  from Some have s1: "s1 = s\<lparr>rlock := (rlock s)(x \<mapsto> (t, n + 1))\<rparr>" and mine: "rlock s x = None \<or> rlock s x = Some (t, n)"
    by (auto simp: acquire_def n_def split: option.splits if_split_asm)
  then have e: "entered x (scopes s t) = n" "\<And>t'. t' \<noteq> t \<Longrightarrow> entered x (scopes s t') = 0"
    using lx unfolding lock_ok_def n_def by (cases "rlock s x"; fastforce)+
  let ?f = "\<lparr>of_owner = x, saved_depth = n, saved_held = held s t\<rparr>"
  let ?s = "snd (acquire_or_wait t x s)"
  have d: "depth s t x = n" using ok e by (simp add: own_ok_def)
  have s: "?s = s\<lparr>rlock := (rlock s)(x \<mapsto> (t, n + 1)), wanted := (wanted s)(t := None), depth := (depth s)(t := (depth s t)(x := n + 1)),
      held := (held s)(t := (if n = 0 then held s t @ [x] else held s t)), scopes := (scopes s)(t := ?f # scopes s t)\<rparr>"
    by (simp add: acquire_or_wait_def Some s1 mark_scope_def d)
  have h: "held s t = held_by (scopes s t)" "nested (scopes s t)" using ok by (simp_all add: own_ok_def)
  have zero: "n = 0 \<longleftrightarrow> x \<notin> set (held s t)" using e(1) by (auto simp: h(1) held_by_set entered_zero)
  have "sorted_wrt (<) (held_by (?f # scopes s t))"
    using nested_sorted [OF h(2)] order zero by (auto simp: h(1) held_by_set sorted_wrt_append)
  then have "nested (?f # scopes s t)" using h e(1) by simp
  moreover have "held ?s t = held_by (?f # scopes s t)" using zero h(1) by (simp add: s held_by_set)
  moreover have "lock_ok ?s y" for y
  proof (cases "y = x")
    case True
    with e show ?thesis by (simp add: s lock_ok_def)
  next
    case False
    with own_okD(4) [OF ok, of y] lock_ok_cong [of ?s y s] show ?thesis by (simp add: s)
  qed
  ultimately show ?thesis using ok by (auto simp: own_ok_def s fun_eq_iff)
qed

lemma access_ok:
  assumes "own_ok s"
  shows "own_ok (snd (access t x s))"
proof (cases "assert_lock_order t x s")
  case True
  have "x \<in> set (held s t) \<or> (\<forall>y \<in> set (held s t). y < x)"
    using True own_okD(2,3) [OF assms, of t]
    by (auto simp: assert_lock_order_def held_by_set entered_pos not_less order_le_less)
  with acquire_or_wait_ok [OF assms this] True show ?thesis by (simp add: access_def)
qed (simp add: access_def assms)

lemma leave_ok:
  assumes ok: "own_ok s" and "wanted s t = None"
  shows "own_ok (leave t s)"
proof (cases "scopes s t")
  case Nil
  with ok show ?thesis by (simp add: leave_def)
next
  case (Cons f fs)
  let ?x = "of_owner f"
  have n: "nested (f # fs)" "depth s t = (\<lambda>x. entered x (f # fs))" "held s t = held_by (f # fs)" "lock_ok s ?x"
    using ok Cons unfolding own_ok_def by metis+
  have l: "rlock s ?x = Some (t, Suc (entered ?x fs))"
    using n(4) Cons by (auto simp: lock_ok_def split: option.splits prod.splits dest: spec [of _ t])
  have others: "entered ?x (scopes s t') = 0" if "t' \<noteq> t" for t'
    using n(4) l that by (simp add: lock_ok_def)
  have zero: "saved_depth f = 0 \<longleftrightarrow> ?x \<notin> of_owner ` set fs" using n(1) by (simp add: entered_zero)
  have s: "leave t s = s\<lparr>depth := (depth s)(t := (\<lambda>x. entered x fs)), held := (held s)(t := held_by fs),
      scopes := (scopes s)(t := fs), rlock := (rlock s)(?x := (if entered ?x fs = 0 then None else Some (t, entered ?x fs)))\<rparr>"
    using n zero l by (auto simp: leave_def Cons unmark_scope_def release_def fun_eq_iff)
  have "lock_ok (leave t s) y" for y
  proof (cases "y = ?x")
    case True
    with others show ?thesis by (simp add: s lock_ok_def)
  next
    case False
    with own_okD(4) [OF ok, of y] Cons lock_ok_cong [of "leave t s" y s] show ?thesis by (simp add: s)
  qed
  then show ?thesis using own_okD(1,2,3,5) [OF ok] n(1) assms(2) by (simp add: own_ok_def s)
qed

lemma own_step_ok: "own_step s s' \<Longrightarrow> own_ok s \<Longrightarrow> own_ok s'"
proof (induction rule: own_step.induct)
  case (ask s t x)
  then show ?case by (simp add: access_ok)
next
  case (resume s t x)
  from own_okD(5) [OF resume(2,1)] resume(2) show ?case by (intro acquire_or_wait_ok) auto
next
  case (expire s t x)
  have "lock_ok (s\<lparr>wanted := (wanted s)(t := None)\<rparr>) y" for y
    using own_okD(4) [OF expire(2), of y] lock_ok_cong [of "s\<lparr>wanted := (wanted s)(t := None)\<rparr>" y s] by simp
  with expire show ?case by (simp add: give_up_def own_ok_def)
next
  case (finish s t)
  then show ?case by (simp add: leave_ok)
qed

lemma own_reachable_ok: "own_reachable s \<Longrightarrow> own_ok s"
  by (induction rule: own_reachable.induct) (simp_all add: no_scopes_ok own_step_ok)

interpretation emulators: ordered_waiting own_ok "\<lambda>s t x. x \<in> set (held s t)" wanted
  by unfold_locales (rule own_okD(5))

text \<open>
  C20. No deadlock among emulator locks. In every state that any number of threads can reach by entering,
  waiting for, giving up and leaving ownership scopes in any interleaving, no set of threads waits for
  itself: of any finite set of waiting threads, one waits for an owner that none of them holds.
\<close>

theorem no_lock_deadlock:
  assumes "own_reachable s" "finite T" "T \<noteq> {}" "\<forall>t \<in> T. wanted s t \<noteq> None"
  shows "\<exists>t \<in> T. \<forall>t' \<in> T. the (wanted s t) \<notin> set (held s t')"
  using emulators.someone_can_go_on [OF own_reachable_ok [OF assms(1)] assms(2-4)] .

text \<open>Thread 1 holds owner 10, thread 2 holds owner 20, and thread 1 waits for 20; thread 2 may not ask for 10.\<close>

definition entangled :: ownership where
  "entangled = snd (access 1 20 (snd (access 2 20 (snd (access 1 10 no_scopes)))))"

lemma entangled_reachable: "own_reachable entangled"
  unfolding entangled_def
  by (intro own_reachable.step [OF _ ask] own_reachable.start)
    (simp_all add: no_scopes_def access_def acquire_or_wait_def assert_lock_order_def acquire_def mark_scope_def)

lemma entangled_state:
  "wanted entangled 1 = Some 20" "held entangled 1 = [10]" "held entangled 2 = [20]" "fst (access 2 10 entangled) = Refused"
  by (simp_all add: entangled_def no_scopes_def access_def acquire_or_wait_def assert_lock_order_def acquire_def mark_scope_def)

theorem no_lock_deadlock_witness:
  "wanted entangled 1 = Some 20 \<and> (\<exists>t \<in> {1}. \<forall>t' \<in> {1}. the (wanted entangled t) \<notin> set (held entangled t'))"
  using no_lock_deadlock [OF entangled_reachable, of "{1}"] by (simp add: entangled_state [simplified])

lemma leave_entered:
  assumes "own_ok s" "wanted s t = None" "access t x s = (Entered, s')"
  shows "leave t s' = s"
proof -
  from assms(3) obtain s1 where a: "acquire t x s = Some s1" and s': "s' = mark_scope t x (s1\<lparr>wanted := (wanted s1)(t := None)\<rparr>)"
    by (auto simp: access_def acquire_or_wait_def split: if_split_asm option.splits)
  have pos: "rlock s x = Some (t, n) \<Longrightarrow> 0 < n" for n using own_okD(4) [OF assms(1), of x] by (simp add: lock_ok_def)
  show ?thesis
    using a pos assms(2) by (auto simp: s' acquire_def leave_def mark_scope_def unmark_scope_def release_def fun_upd_idem
        split: option.splits if_split_asm)
qed

text \<open>
  C21. An emulator belongs to one thread at a time, and a scope that is left gives back exactly what it
  took. In every reachable state an owner is held by at most one thread and its lock is that thread's;
  and a thread that enters a scope and leaves it at once is back where it was.
\<close>

theorem owner_is_exclusive:
  assumes "own_reachable s"
  shows "(x \<in> set (held s t) \<longrightarrow> x \<in> set (held s t') \<longrightarrow> t = t')
     \<and> (x \<in> set (held s t) \<longleftrightarrow> (\<exists>n. rlock s x = Some (t, n)))
     \<and> (wanted s t = None \<longrightarrow> fst (access t x s) = Entered \<longrightarrow> leave t (snd (access t x s)) = s)"
proof -
  note ok = own_reachable_ok [OF assms]
  have "rlock s x = Some (t, n) \<Longrightarrow> x \<in> set (held s t)" for n
    using own_okD(4) [OF ok, of x] own_okD(3) [OF ok, of t] by (simp add: lock_ok_def held_by_set flip: entered_pos)
  with holder [OF ok, of x t] holder [OF ok, of x t'] leave_entered [OF ok, of t x] show ?thesis
    by (cases "access t x s") auto
qed

theorem owner_is_exclusive_witness:
  "held entangled 2 = [20] \<and> (\<exists>n. rlock entangled 20 = Some (2, n)) \<and> 20 \<notin> set (held entangled 1)"
  using owner_is_exclusive [OF entangled_reachable, of 20 2 1] by (simp add: entangled_state [simplified])

subsection \<open>Groups\<close>

lemma leave_all_last: "leave_all (Suc n) t s = leave t (leave_all n t s)"
  by (induction n arbitrary: s) simp_all

lemma access_result:
  assumes "own_ok s" "wanted s t = None" "\<forall>y \<in> set (held s t). y \<le> x" "access t x s = (r, s')"
  shows "own_ok s'"
    "r = Entered \<and> wanted s' t = None \<and> set (held s' t) = insert x (set (held s t)) \<and> leave t s' = s
     \<or> r = Waiting \<and> wanted s' t = Some x \<and> (\<exists>t' n. t' \<noteq> t \<and> rlock s x = Some (t', n))"
proof -
  show "own_ok s'" using access_ok [OF assms(1), of t x] assms(4) by simp
  have "assert_lock_order t x s" using assms(3) by (auto simp: assert_lock_order_def not_less)
  then have a: "acquire_or_wait t x s = (r, s')" using assms(4) by (simp add: access_def)
  have h: "depth s t x = 0 \<longleftrightarrow> x \<notin> set (held s t)" using own_okD(2,3) [OF assms(1), of t] by (simp add: held_by_set entered_zero)
  show "r = Entered \<and> wanted s' t = None \<and> set (held s' t) = insert x (set (held s t)) \<and> leave t s' = s
     \<or> r = Waiting \<and> wanted s' t = Some x \<and> (\<exists>t' n. t' \<noteq> t \<and> rlock s x = Some (t', n))"
  proof (cases "acquire t x s")
    case None
    then show ?thesis using a by (auto simp: acquire_or_wait_def acquire_def split: option.splits if_split_asm)
  next
    case (Some s1)
    then have r: "r = Entered" and s': "s' = mark_scope t x (s1\<lparr>wanted := (wanted s1)(t := None)\<rparr>)" using a by (auto simp: acquire_or_wait_def)
    have same: "held s1 = held s" "depth s1 = depth s" using Some by (auto simp: acquire_def split: option.splits if_split_asm)
    from leave_entered [OF assms(1,2)] assms(4) r have "leave t s' = s" by blast
    moreover have "set (held s' t) = insert x (set (held s t))" using h by (auto simp: s' mark_scope_def same)
    ultimately show ?thesis by (simp add: r s' mark_scope_def)
  qed
qed

lemma access_other_locks: "z \<noteq> x \<Longrightarrow> rlock (snd (access t x s)) z = rlock s z"
  by (auto simp: access_def acquire_or_wait_def acquire_def mark_scope_def split: option.splits)

lemma enter_each_result:
  assumes "own_ok s" "wanted s t = None" "sorted_wrt (<) xs" "\<forall>y \<in> set (held s t). \<forall>x \<in> set xs. y \<le> x"
    "enter_each t xs k s = (r, n, s')"
  shows "r = Entered \<and> set (held s' t) = set (held s t) \<union> set xs \<and> k \<le> n \<and> leave_all (n - k) t s' = s
     \<or> r = Waiting \<and> (\<exists>x \<in> set xs. wanted s' t = Some x \<and> (\<exists>t' n. t' \<noteq> t \<and> rlock s x = Some (t', n)))"
  using assms
proof (induction xs arbitrary: s k)
  case Nil
  then show ?case by simp
next
  case (Cons x xs)
  obtain r1 s1 where a: "access t x s = (r1, s1)" by fastforce
  have "\<forall>y \<in> set (held s t). y \<le> x" using Cons.prems(4) by simp
  from access_result [OF Cons.prems(1,2) this a] show ?case
  proof (elim disjE conjE, goal_cases)
    case 1
    have up: "\<forall>y \<in> set (held s1 t). \<forall>z \<in> set xs. y \<le> z" using 1 Cons.prems(3,4) by fastforce
    have e: "enter_each t xs (Suc k) s1 = (r, n, s')" using Cons.prems(5) a 1 by simp
    have locks: "rlock s1 z = rlock s z" if "z \<in> set xs" for z
      using access_other_locks [of z x t s] that Cons.prems(3) a by auto
    have "sorted_wrt (<) xs" using Cons.prems(3) by simp
    from Cons.IH [OF 1(1,3) this up e] show ?case
    proof (elim disjE conjE, goal_cases)
      case fin: 1
      then have "leave_all (n - k) t s' = leave t (leave_all (n - Suc k) t s')"
        using leave_all_last [of "n - Suc k" t s'] by (simp add: Suc_diff_Suc Suc_le_lessD del: leave_all.simps)
      with fin \<open>leave t s1 = s\<close> 1(4) show ?case by (auto simp del: leave_all.simps)
    next
      case 2
      with locks show ?case by auto
    qed
  next
    case 2
    with Cons.prems(5) a show ?case by auto
  qed
qed

text \<open>
  C22. Entering a group is all or nothing, and never refused. A thread that holds no owner above the group's
  and enters the group in the canonical order either holds all of its owners then, whatever the order and
  the repetitions it named them in, or waits at one that another thread holds, or finds a closed emulator
  among them and is back exactly where it was.
\<close>

theorem group_all_or_nothing:
  assumes "own_reachable s" "wanted s t = None" "\<forall>y \<in> set (held s t). \<forall>x \<in> set owners. y \<le> x"
  shows "case owner_group t owners allow_closed is_open s of
       (Inl _, s') \<Rightarrow> s' = s \<and> (\<exists>x \<in> set owners. \<not> is_open x)
     | (Inr Entered, s') \<Rightarrow> set (held s' t) = set (held s t) \<union> set owners
     | (Inr Waiting, s') \<Rightarrow> \<exists>x \<in> set owners. wanted s' t = Some x \<and> (\<exists>t'. t' \<noteq> t \<and> x \<in> set (held s t'))
     | _ \<Rightarrow> False"
proof -
  note ok = own_reachable_ok [OF assms(1)]
  have c: "sorted_wrt (<) (canonical owners)" "set (canonical owners) = set owners"
    by (simp_all add: canonical_def strict_sorted_iff)
  obtain r n s' where e: "enter_each t (canonical owners) 0 s = (r, n, s')" by (metis prod_cases3)
  have mine: "x \<in> set (held s t')" if "rlock s x = Some (t', m)" for x t' m
    using own_okD(4) [OF ok, of x] own_okD(3) [OF ok, of t'] that by (simp add: lock_ok_def held_by_set flip: entered_pos)
  have "\<forall>y \<in> set (held s t). \<forall>x \<in> set (canonical owners). y \<le> x" using assms(3) c(2) by simp
  from enter_each_result [OF ok assms(2) c(1) this e] show ?thesis
  proof (elim disjE conjE, goal_cases)
    case 1
    then show ?thesis by (auto simp: owner_group_def e c(2) list_all_iff)
  next
    case 2
    then obtain x t' m where "x \<in> set owners" "wanted s' t = Some x" "t' \<noteq> t" "rlock s x = Some (t', m)" using c(2) by blast
    with mine 2(1) show ?thesis by (auto simp: owner_group_def e)
  qed
qed

theorem group_all_or_nothing_witness:
  "case owner_group 2 [40, 20, 30, 40] False (\<lambda>_. True) entangled of
     (Inr Entered, s') \<Rightarrow> set (held s' 2) = {20, 30, 40} | _ \<Rightarrow> False"
proof -
  have "fst (owner_group 2 [40, 20, 30, 40] False (\<lambda>_. True) entangled) = Inr Entered"
    by (simp add: owner_group_def canonical_def entangled_def no_scopes_def access_def acquire_or_wait_def assert_lock_order_def
        acquire_def mark_scope_def)
  moreover have "wanted entangled 2 = None"
    by (simp add: entangled_def no_scopes_def access_def acquire_or_wait_def assert_lock_order_def acquire_def mark_scope_def)
  ultimately show ?thesis
    using group_all_or_nothing [OF entangled_reachable, where t = 2 and owners = "[40, 20, 30, 40]" and allow_closed = False and is_open = "\<lambda>_. True"]
    by (auto simp: entangled_state split: prod.splits sum.splits)
qed

subsection \<open>Claims\<close>

lemma one_live_session:
  "bind_session alive stopped e r session err own = Inr own' \<Longrightarrow> alive session \<Longrightarrow>
     \<exists>m. bind_session alive stopped' e' r' session' err' own' = Inl (OwnershipError m)"
  by (auto simp: bind_session_def referent_def result_simps split: if_split_asm)

lemma one_live_provider:
  assumes "claim_provider alive p own = Inr own'" "alive p" "q \<noteq> p"
  shows "claim_provider alive q own' = Inl (OwnershipError ''emulator is already attached to another provider'')
     \<and> release_provider alive q own' = own' \<and> (\<exists>own''. claim_provider alive q (release_provider alive p own') = Inr own'')"
  using assms by (auto simp: claim_provider_def release_provider_def referent_def split: option.splits if_split_asm)

end
