(* ===== verification/Agent_Sync.thy ===== *)
theory Agent_Sync
  imports Cable_Link Link_Safety
begin

text \<open>
  Rendezvous of two agents over a serial link (\<open>link/agent_sync.py\<close>): a label becomes an exchange kind of
  its own namespace, and the rendezvous is the exchange of that kind. The link is the in-process cable of
  \<open>Cable_Link\<close>; \<open>cable_swap\<close> is the meeting of two exchanges of one kind on it, which the remote endpoints
  use as well.
\<close>

subsection \<open>Two exchanges that meet\<close>

text \<open>Both ends start an exchange of one kind, then both wait for it once.\<close>

definition meet :: "chars arg \<Rightarrow> byte list arg \<Rightarrow> byte list arg \<Rightarrow> int arg \<Rightarrow> cable \<Rightarrow> poll \<times> poll \<times> cable" where
  "meet kind a b timeout_ms c =
     (let k = (case kind of Arg k \<Rightarrow> k | WrongType \<Rightarrow> []);
          c1 = snd (cable_start EndA kind a timeout_ms False TimesOut c);
          c2 = snd (cable_start EndB kind b timeout_ms False TimesOut c1)
      in case cable_poll EndA k Running c2 of (ra, c3) \<Rightarrow> (case cable_poll EndB k Running c3 of (rb, c4) \<Rightarrow> (ra, rb, c4)))"

text \<open>A kind is idle when neither end is in an exchange of it and nothing of it is queued.\<close>

definition idle_kind :: "chars \<Rightarrow> cable \<Rightarrow> bool" where
  "idle_kind k c \<longleftrightarrow> (\<forall>e. queue_of (inbox c e) k = [] \<and> map_of (slot_locks c e) k \<noteq> Some True
     \<and> (k \<in> fst ` set (slot_locks c e) \<or> length (slot_locks c e) < MAX_INBOUND_KINDS))"

lemma start_sends:
  assumes "validate_timeout_ms tm = Inr t" "validate_exchange_kind (Arg k) = Inr k" "coerce_exchange_payload (Arg p) = Inr p"
    and "\<not> cable_closed c" "map_of (slot_locks c e) k \<noteq> Some True"
    and "k \<in> fst ` set (slot_locks c e) \<or> length (slot_locks c e) < MAX_INBOUND_KINDS"
    and "put_frame k p (inbox c (peer_end e)) = Inr s"
  obtains locks where "cable_start e (Arg k) (Arg p) tm False late c =
    (Inr (), c\<lparr>inbox := (inbox c)(peer_end e := s), slot_locks := (slot_locks c)(e := locks)\<rparr>)"
proof -
  obtain c1 where l: "cable_lock e k c = Inr c1"
    using assms(6) by (cases "k \<in> fst ` set (slot_locks c e)") (simp_all add: cable_lock_def)
  then have c1: "inbox c1 = inbox c" "cable_closed c1 = cable_closed c" "map_of (slot_locks c1 e) k \<noteq> Some True"
    "\<exists>locks. c1 = c\<lparr>slot_locks := (slot_locks c)(e := locks)\<rparr>"
    using assms(5) by (auto simp: cable_lock_def set_lock_def update_conv' split: if_split_asm intro: exI [of _ "slot_locks c e"])
  then obtain locks where e: "c1 = c\<lparr>slot_locks := (slot_locks c)(e := locks)\<rparr>" by blast
  show ?thesis
    by (rule that [of "AList.update k True locks"])
      (use assms l c1 in \<open>simp add: cable_start_def cable_send_def set_inbox_def set_lock_def e\<close>)
qed

lemma cable_swap:
  assumes "validate_timeout_ms tm = Inr t" "validate_exchange_kind (Arg k) = Inr k"
    and "length p \<le> MAX_EXCHANGE_PAYLOAD_SIZE" "length q \<le> MAX_EXCHANGE_PAYLOAD_SIZE"
    and "\<not> cable_closed c" "idle_kind k c" "put_problem k p (inbox c EndB) = None" "put_problem k q (inbox c EndA) = None"
  obtains c' where "meet (Arg k) (Arg p) (Arg q) tm c = (Returns q, Returns p, c')" "\<not> cable_closed c'" "\<forall>e. queue_of (inbox c' e) k = []"
proof -
  have pay: "coerce_exchange_payload (Arg p) = Inr p" "coerce_exchange_payload (Arg q) = Inr q"
    using assms(3,4) by (simp_all add: coerce_exchange_payload_def)
  obtain sb sa where put: "put_frame k p (inbox c EndB) = Inr sb" "put_frame k q (inbox c EndA) = Inr sa"
    using assms(7,8) by (simp add: put_frame_def)
  have queues: "queue_of sb k = [p]" "queue_of sa k = [q]"
    using put assms(6) by (auto simp: put_frame_def idle_kind_def split: option.splits)
  have idle: "map_of (slot_locks c e) k \<noteq> Some True" "k \<in> fst ` set (slot_locks c e) \<or> length (slot_locks c e) < MAX_INBOUND_KINDS" for e
    using assms(6) by (simp_all add: idle_kind_def)
  obtain la where a: "cable_start EndA (Arg k) (Arg p) tm False TimesOut c =
      (Inr (), c\<lparr>inbox := (inbox c)(EndB := sb), slot_locks := (slot_locks c)(EndA := la)\<rparr>)"
    using start_sends [OF assms(1,2) pay(1) assms(5) idle(1,2), of EndA sb TimesOut] put by auto
  let ?c1 = "c\<lparr>inbox := (inbox c)(EndB := sb), slot_locks := (slot_locks c)(EndA := la)\<rparr>"
  have c1: "\<not> cable_closed ?c1" "map_of (slot_locks ?c1 EndB) k \<noteq> Some True"
    "k \<in> fst ` set (slot_locks ?c1 EndB) \<or> length (slot_locks ?c1 EndB) < MAX_INBOUND_KINDS"
    "put_frame k q (inbox ?c1 (peer_end EndB)) = Inr sa"
    using assms(5) idle put by simp_all
  obtain lb where b: "cable_start EndB (Arg k) (Arg q) tm False TimesOut ?c1 =
      (Inr (), ?c1\<lparr>inbox := (inbox ?c1)(EndA := sa), slot_locks := (slot_locks ?c1)(EndB := lb)\<rparr>)"
    using start_sends [OF assms(1,2) pay(2) c1, of TimesOut] by auto
  obtain sa' sb' where got: "get_frame k sa = Some (q, sa')" "get_frame k sb = Some (p, sb')" "queue_of sa' k = []" "queue_of sb' k = []"
    using queues by (auto simp: get_frame_def)
  have ends: "(\<forall>e. P e) \<longleftrightarrow> P EndA \<and> P EndB" for P by (metis endpoint.exhaust)
  show ?thesis
    by (rule that [of "snd (snd (meet (Arg k) (Arg p) (Arg q) tm c))"])
      (use got assms(5) in \<open>simp_all add: meet_def a b cable_poll_def cable_round_def set_inbox_def set_lock_def ends\<close>)
qed

subsection \<open>Rendezvous\<close>

definition KIND_PREFIX :: chars where
  "KIND_PREFIX = codes ''agent_sync/''"

text \<open>The checks of \<open>rendezvous\<close> in their order; 47 is the slash. A label outside ASCII fails to encode.\<close>

definition rendezvous_kind :: "chars arg \<Rightarrow> byte list arg \<Rightarrow> link_error + chars \<times> byte list" where
  "rendezvous_kind label payload =
     (case label of
        WrongType \<Rightarrow> Inl (LinkTypeError ''label must be a string'')
      | Arg l \<Rightarrow>
          if l = [] then Inl (LinkValueError ''label must not be empty'')
          else if 47 \<in> set l then Inl (LinkValueError ''label must not contain a slash'')
          else (case payload of
                  WrongType \<Rightarrow> Inl (LinkTypeError ''payload must be bytes-like'')
                | Arg p \<Rightarrow>
                    if \<not> list_all (\<lambda>ch. ch < 128) (KIND_PREFIX @ l) then Inl (LinkValueError ''label is not ASCII'')
                    else if length (KIND_PREFIX @ l) > 0xFF then Inl (LinkValueError ''label is too long for the agent-sync wire kind'')
                    else Inr (KIND_PREFIX @ l, p)))"

text \<open>The exchange of a rendezvous at one end of the cable; it has no cancellation event.\<close>

definition rendezvous :: "endpoint \<Rightarrow> chars arg \<Rightarrow> byte list arg \<Rightarrow> int arg \<Rightarrow> wait_outcome \<Rightarrow> cable \<Rightarrow> (link_error + unit) \<times> cable" where
  "rendezvous e label payload timeout_ms late c =
     (case rendezvous_kind label payload of
        Inl err \<Rightarrow> (Inl err, c)
      | Inr (k, p) \<Rightarrow> cable_start e (Arg k) (Arg p) timeout_ms False late c)"

text \<open>The kinds of the game's own exchanges begin with these.\<close>

definition game_prefixes :: "chars list" where
  "game_prefixes = map codes [''exchange_bytes/'', ''exchange_nybble/'', ''menu_selection/'']"

lemma rendezvous_kind_Inr:
  "rendezvous_kind (Arg l) (Arg p) = Inr (k, p') \<longleftrightarrow>
     l \<noteq> [] \<and> 47 \<notin> set l \<and> list_all (\<lambda>ch. ch < 128) l \<and> length l \<le> 244 \<and> k = KIND_PREFIX @ l \<and> p' = p"
  by (auto simp: rendezvous_kind_def KIND_PREFIX_def codes_def)

lemma rendezvous_kind_valid:
  assumes "rendezvous_kind label payload = Inr (k, p)"
  shows "validate_exchange_kind (Arg k) = Inr k"
proof -
  obtain l where "k = KIND_PREFIX @ l" "list_all (\<lambda>ch. ch < 128) k" "length k \<le> 255"
    using assms by (auto simp: rendezvous_kind_def split: arg.splits if_split_asm)
  then show ?thesis by (simp add: validate_exchange_kind_def KIND_PREFIX_def codes_def)
qed

text \<open>
  C31. A rendezvous label makes a kind of its own. Every kind a rendezvous exchanges is one the link accepts
  and can frame; it determines the label; and it is never a kind of the game's own exchanges, so an agent
  cannot take a payload that was meant for the game.
\<close>

theorem rendezvous_kind_typed:
  assumes "rendezvous_kind label payload = Inr (k, p)"
  shows "validate_exchange_kind (Arg k) = Inr k \<and> (\<exists>enc. pack_lp_str (Arg k) = Inr enc) \<and> payload = Arg p
     \<and> (\<forall>label' payload' p'. rendezvous_kind label' payload' = Inr (k, p') \<longrightarrow> label' = label)
     \<and> (\<forall>g \<in> set game_prefixes. take (length g) k \<noteq> g)"
proof -
  obtain l where l: "label = Arg l" "payload = Arg p" and k: "k = KIND_PREFIX @ l" "list_all (\<lambda>ch. ch < 128) l" "length l \<le> 244" "l \<noteq> []"
    using assms by (cases label; cases payload) (auto simp: rendezvous_kind_Inr, auto simp: rendezvous_kind_def split: if_split_asm)
  have v: "validate_exchange_kind (Arg k) = Inr k" by (rule rendezvous_kind_valid [OF assms])
  have enc: "\<exists>enc. pack_lp_str (Arg k) = Inr enc" by (rule valid_kind(3) [OF v])
  have inj: "label' = label" if "rendezvous_kind label' payload' = Inr (k, p')" for label' payload' p'
    using that by (cases label'; cases payload') (auto simp: rendezvous_kind_Inr l k(1), auto simp: rendezvous_kind_def split: if_split_asm)
  have "\<forall>g \<in> set game_prefixes. take (length g) k \<noteq> g"
    by (simp add: game_prefixes_def k(1) KIND_PREFIX_def codes_def)
  with v enc inj l show ?thesis by blast
qed

definition sample_label :: chars where
  "sample_label = [118, 111, 116, 101]"

lemma sample_rendezvous: "rendezvous_kind (Arg sample_label) (Arg p) = Inr (KIND_PREFIX @ sample_label, p)"
  by (simp add: rendezvous_kind_Inr sample_label_def)

theorem rendezvous_kind_typed_witness:
  "validate_exchange_kind (Arg (KIND_PREFIX @ sample_label)) = Inr (KIND_PREFIX @ sample_label)
     \<and> (\<exists>enc. pack_lp_str (Arg (KIND_PREFIX @ sample_label)) = Inr enc)"
  using rendezvous_kind_typed [OF sample_rendezvous, of "[]"] by blast

text \<open>
  Two agents that rendezvous swap their payloads. When both ends call for the same label on an open cable
  that is idle for it and has room for both payloads, each one's wait returns the payload the other gave,
  and the cable is open and idle for the label again.
\<close>

theorem rendezvous_swaps:
  assumes "rendezvous_kind label (Arg p) = Inr (k, p)" "rendezvous_kind label (Arg q) = Inr (k, q)"
    and "length p \<le> MAX_EXCHANGE_PAYLOAD_SIZE" "length q \<le> MAX_EXCHANGE_PAYLOAD_SIZE" "0 < timeout_ms"
    and "\<not> cable_closed c" "idle_kind k c" "put_problem k p (inbox c EndB) = None" "put_problem k q (inbox c EndA) = None"
  shows "\<exists>c'. (let c1 = snd (rendezvous EndA label (Arg p) (Arg timeout_ms) TimesOut c);
               c2 = snd (rendezvous EndB label (Arg q) (Arg timeout_ms) TimesOut c1);
               (ra, c3) = cable_poll EndA k Running c2;
               (rb, c4) = cable_poll EndB k Running c3
           in (ra, rb, c4)) = (Returns q, Returns p, c') \<and> \<not> cable_closed c' \<and> (\<forall>e. queue_of (inbox c' e) k = [])"
proof -
  have k: "validate_exchange_kind (Arg k) = Inr k" using rendezvous_kind_valid [OF assms(1)] .
  have tm: "validate_timeout_ms (Arg timeout_ms) = Inr timeout_ms" using assms(5) by (simp add: validate_timeout_ms_def)
  obtain c' where "meet (Arg k) (Arg p) (Arg q) (Arg timeout_ms) c = (Returns q, Returns p, c')" "\<not> cable_closed c'" "\<forall>e. queue_of (inbox c' e) k = []"
    by (rule cable_swap [OF tm k assms(3,4,6-9)])
  then show ?thesis by (intro exI [of _ c']) (simp add: meet_def rendezvous_def assms(1,2) Let_def)
qed

theorem rendezvous_swaps_witness:
  "\<exists>c'. (let c1 = snd (rendezvous EndA (Arg sample_label) (Arg [1, 2]) (Arg 30000) TimesOut sample_cable);
           c2 = snd (rendezvous EndB (Arg sample_label) (Arg []) (Arg 30000) TimesOut c1);
           (ra, c3) = cable_poll EndA (KIND_PREFIX @ sample_label) Running c2;
           (rb, c4) = cable_poll EndB (KIND_PREFIX @ sample_label) Running c3
       in (ra, rb, c4)) = (Returns [], Returns [1, 2], c')"
proof -
  have "idle_kind k sample_cable" "put_problem k x (inbox sample_cable e) = None" if "length x < 3" for k x e
    using that by (simp_all add: idle_kind_def sample_cable_def empty_store_def queue_of_def put_problem_def MAX_INBOUND_FRAMES_def
        MAX_INBOUND_BYTES_def MAX_INBOUND_FRAMES_PER_KIND_def MAX_INBOUND_KINDS_def)
  from rendezvous_swaps [OF sample_rendezvous sample_rendezvous _ _ _ _ this(1) this(2) this(2), of "[1, 2]" "[]" 30000 "[]"]
  show ?thesis by (auto simp: MAX_EXCHANGE_PAYLOAD_SIZE_def sample_cable_def)
qed

end
