(* ===== verification/Serial_Bridge.thy ===== *)
theory Serial_Bridge
  imports Link_Transport Event_Bus
begin

text \<open>
  The bridge between two sessions (\<open>link/serial_bridge.py\<close>): it hooks the serial routines of both games,
  exchanges the bytes they are about to send through the transport and writes them into the other side's
  receive cell, with opposite clock roles. Installation is a transaction over both sessions' hooks. The
  memory is a plain store of the hooked cells; the emulator's hook functions are those of \<open>Event_Bus\<close>.
\<close>

subsection \<open>Endpoints\<close>

type_synonym cells = "int \<Rightarrow> int"

definition HRAM_SERIAL_SEND :: string where "HRAM_SERIAL_SEND = ''hSerialSendData''"
definition HRAM_SERIAL_RECEIVE :: string where "HRAM_SERIAL_RECEIVE = ''hSerialReceiveData''"
definition HRAM_SERIAL_STATUS :: string where "HRAM_SERIAL_STATUS = ''hSerialConnectionStatus''"
definition STATUS_PRIMARY_EXTERNAL :: int where "STATUS_PRIMARY_EXTERNAL = 0x01"
definition STATUS_PEER_INTERNAL :: int where "STATUS_PEER_INTERNAL = 0x02"

record bridge_endpoint =
  send_addr :: int
  receive_addr :: int
  status_addr :: int

definition require_hram :: "symbol_table \<Rightarrow> string \<Rightarrow> int result" where
  "require_hram symbols label = (case get_symbol symbols label of None \<Rightarrow> Inl LookupError | Some s \<Rightarrow> Inr (sym_addr s))"

definition endpoint_of :: "symbol_table \<Rightarrow> bridge_endpoint result" where
  "endpoint_of symbols =
     rbind (require_hram symbols HRAM_SERIAL_SEND) (\<lambda>s.
     rbind (require_hram symbols HRAM_SERIAL_RECEIVE) (\<lambda>r.
     rbind (require_hram symbols HRAM_SERIAL_STATUS) (\<lambda>t.
     Inr \<lparr>send_addr = s, receive_addr = r, status_addr = t\<rparr>)))"

text \<open>The label of an entry that the session has: of the given version, or of the first version that has one.\<close>

definition label_on :: "symbol_table \<Rightarrow> link_symbol \<Rightarrow> string option \<Rightarrow> string option" where
  "label_on symbols ls version =
     (case version of
        Some v \<Rightarrow> (case map_of (per_version ls) v of
            None \<Rightarrow> None
          | Some label \<Rightarrow> if get_symbol symbols label = None then None else Some label)
      | None \<Rightarrow> find (\<lambda>label. get_symbol symbols label \<noteq> None) (map snd (per_version ls)))"

definition rom_version :: "string \<Rightarrow> string result" where
  "rom_version v = (case validate_rom_version (Arg (codes v)) of Inl _ \<Rightarrow> Inl ValueError | Inr cs \<Rightarrow> Inr (map char_of cs))"

text \<open>The parts of a bridge: both endpoints, both resolved registries and both versions.\<close>

record bridge_parts =
  side_a :: bridge_endpoint
  side_b :: bridge_endpoint
  resolved_a :: "(string \<times> int \<times> int) list"
  resolved_b :: "(string \<times> int \<times> int) list"
  version_a :: "string option"
  version_b :: "string option"

definition from_sessions :: "symbol_table \<Rightarrow> symbol_table \<Rightarrow> string \<Rightarrow> string \<Rightarrow> bridge_parts result" where
  "from_sessions symbols_a symbols_b a b =
     rbind (rom_version a) (\<lambda>va. rbind (rom_version b) (\<lambda>vb.
     rbind (resolve_link_symbols symbols_a va) (\<lambda>ra. rbind (resolve_link_symbols symbols_b vb) (\<lambda>rb.
     rbind (endpoint_of symbols_a) (\<lambda>ea. rbind (endpoint_of symbols_b) (\<lambda>eb.
     Inr \<lparr>side_a = ea, side_b = eb, resolved_a = ra, resolved_b = rb, version_a = Some va, version_b = Some vb\<rparr>))))))"

subsection \<open>The callbacks\<close>

text \<open>A callback sees the memory of its own side, that of the peer and the transport.\<close>

definition side_status :: "bool \<Rightarrow> int" where
  "side_status is_a = (if is_a then STATUS_PRIMARY_EXTERNAL else STATUS_PEER_INTERNAL)"

definition bridge_cb ::
    "bool \<Rightarrow> bridge_endpoint \<Rightarrow> bridge_endpoint \<Rightarrow> cells \<times> cells \<times> transport \<Rightarrow> exn option \<times> cells \<times> cells \<times> transport" where
  "bridge_cb is_a side peer w =
     (case w of (side_mem, peer_mem, t) \<Rightarrow>
        let this_send = side_mem (send_addr side) AND 0xFF;
            peer_send = peer_mem (send_addr peer) AND 0xFF;
            (from_a, from_b) = (if is_a then (this_send, peer_send) else (peer_send, this_send))
        in case exchange (PyInt from_a) (PyInt from_b) t of
             (Inl e, t') \<Rightarrow> (Some e, side_mem, peer_mem, t')
           | (Inr (to_a, to_b), t') \<Rightarrow>
               (None, side_mem(receive_addr side := (if is_a then to_a else to_b), status_addr side := side_status is_a),
                peer_mem(receive_addr peer := (if is_a then to_b else to_a), status_addr peer := side_status (\<not> is_a)), t'))"

definition handshake_cb :: "bool \<Rightarrow> bridge_endpoint \<Rightarrow> bridge_endpoint \<Rightarrow> cells \<times> cells \<times> transport \<Rightarrow> exn option \<times> cells \<times> cells \<times> transport" where
  "handshake_cb is_a side peer w =
     (case w of (side_mem, peer_mem, t) \<Rightarrow>
        (None, side_mem(status_addr side := side_status is_a), peer_mem(status_addr peer := side_status (\<not> is_a)), t))"

subsection \<open>Installing\<close>

text \<open>
  The sessions as far as hooks go: the raw hook records of each (the identity of the guard's state and its
  label), which states are active, and each side's emulator. \<open>True\<close> is side A.
\<close>

record 'm sessions =
  symbols_of :: "bool \<Rightarrow> symbol_table"
  serial_hooks :: "bool \<Rightarrow> (nat \<times> string) list"
  state_active :: "nat \<Rightarrow> bool"
  states :: nat
  emulator_of :: "bool \<Rightarrow> 'm"

text \<open>\<open>Session.serial_hook\<close>: the guard gets a new state, to which nothing refers when the emulator raises.\<close>

definition serial_hook :: "'m emulator \<Rightarrow> bool \<Rightarrow> string \<Rightarrow> 'm sessions \<Rightarrow> exn option \<times> 'm sessions" where
  "serial_hook em side label w =
     (case bank_addr (symbols_of w side) label of
        Inl e \<Rightarrow> (Some e, w)
      | Inr k \<Rightarrow>
          let i = states w
          in case em_register em k (Callback i, None) (emulator_of w side) of
               None \<Rightarrow> (Some OtherException, w)
             | Some m \<Rightarrow> (None, w\<lparr>states := Suc i, state_active := (state_active w)(i := True),
                                  emulator_of := (emulator_of w)(side := m),
                                  serial_hooks := (serial_hooks w)(side := serial_hooks w side @ [(i, label)])\<rparr>))"

fun install_side ::
    "'m emulator \<Rightarrow> bool \<Rightarrow> (string \<times> int \<times> int) list \<Rightarrow> string option \<Rightarrow> link_symbol list \<Rightarrow> 'm sessions \<Rightarrow> exn option \<times> 'm sessions" where
  "install_side em side resolved version [] w = (None, w)"
| "install_side em side resolved version (ls # rest) w =
     (if map_of resolved (ls_key ls) = None \<or> ls_role ls \<noteq> BRIDGE \<and> ls_role ls \<noteq> HANDSHAKE
      then install_side em side resolved version rest w
      else case label_on (symbols_of w side) ls version of
             None \<Rightarrow> (Some LookupError, w)
           | Some label \<Rightarrow>
               (case serial_hook em side label w of
                  (Some e, w') \<Rightarrow> (Some e, w')
                | (None, w') \<Rightarrow> install_side em side resolved version rest w'))"

text \<open>What the bridge owns: guard states with their side, and physical hooks.\<close>

record bridge =
  parts :: bridge_parts
  bridge_transport :: transport
  installed :: bool
  owned_serial :: "(bool \<times> nat) list"
  owned_raw :: "(bool \<times> hook_key \<times> hook_entry) list"

definition new_bridge :: "bridge_parts \<Rightarrow> transport \<Rightarrow> bridge" where
  "new_bridge p t = \<lparr>parts = p, bridge_transport = t, installed = False, owned_serial = [], owned_raw = []\<rparr>"

text \<open>Appending what is not there yet.\<close>

definition add_missing :: "'a list \<Rightarrow> 'a list \<Rightarrow> 'a list" where
  "add_missing new owned = foldl (\<lambda>acc x. if x \<in> set acc then acc else acc @ [x]) owned new"

text \<open>
  The records beyond the earlier length of each list, and the physical hooks added since the earlier
  snapshot of each emulator's table. \<open>w0\<close> is the state the baselines were taken in.
\<close>

definition capture_owned :: "'m emulator \<Rightarrow> 'm sessions \<Rightarrow> 'm sessions \<Rightarrow> bridge \<Rightarrow> bridge" where
  "capture_owned em w0 w b =
     b\<lparr>owned_serial := add_missing (concat (map (\<lambda>s. map (\<lambda>r. (s, fst r)) (drop (length (serial_hooks w0 s)) (serial_hooks w s))) [True, False]))
           (owned_serial b),
       owned_raw := add_missing (concat (map (\<lambda>s. map (\<lambda>x. (s, x))
             (hooks_added_since (snapshot_hooks (em_hooks em (emulator_of w0 s))) (snapshot_hooks (em_hooks em (emulator_of w s))))) [True, False]))
           (owned_raw b)\<rparr>"

definition deactivate_serial :: "(bool \<times> nat) list \<Rightarrow> 'm sessions \<Rightarrow> 'm sessions" where
  "deactivate_serial owned w =
     w\<lparr>state_active := (\<lambda>i. state_active w i \<and> i \<notin> snd ` set owned),
       serial_hooks := (\<lambda>s. filter (\<lambda>r. (s, fst r) \<notin> set owned) (serial_hooks w s))\<rparr>"

text \<open>Closing the physical hooks, last one first; those that raised are kept.\<close>

fun close_raw ::
    "'m emulator \<Rightarrow> (bool \<times> hook_key \<times> hook_entry) list \<Rightarrow> 'm sessions \<Rightarrow> (bool \<times> hook_key \<times> hook_entry) list \<times> 'm sessions" where
  "close_raw em [] w = ([], w)"
| "close_raw em ((s, k, e) # hooks) w =
     (case remove_physical_callback em k e (emulator_of w s) of
        (Raised, m) \<Rightarrow> (case close_raw em hooks (w\<lparr>emulator_of := (emulator_of w)(s := m)\<rparr>) of (failed, w') \<Rightarrow> ((s, k, e) # failed, w'))
      | (Removed _, m) \<Rightarrow> close_raw em hooks (w\<lparr>emulator_of := (emulator_of w)(s := m)\<rparr>))"

text \<open>The number of errors beside the new state.\<close>

definition uninstall_locked :: "'m emulator \<Rightarrow> bridge \<Rightarrow> 'm sessions \<Rightarrow> nat \<times> bridge \<times> 'm sessions" where
  "uninstall_locked em b w =
     (case close_raw em (rev (owned_raw b)) (deactivate_serial (owned_serial b) w) of
        (failed, w') \<Rightarrow> (length failed, b\<lparr>owned_serial := [], owned_raw := rev failed, installed := False,
                                        bridge_transport := reset (bridge_transport b)\<rparr>, w'))"

definition uninstall :: "'m emulator \<Rightarrow> bridge \<Rightarrow> 'm sessions \<Rightarrow> exn option \<times> bridge \<times> 'm sessions" where
  "uninstall em b w = (case uninstall_locked em b w of (n, b', w') \<Rightarrow> (if n = 0 then None else Some OtherException, b', w'))"

definition install :: "'m emulator \<Rightarrow> bridge \<Rightarrow> 'm sessions \<Rightarrow> exn option \<times> bridge \<times> 'm sessions" where
  "install em b w =
     (if installed b then (Some OtherException, b, w)
      else if owned_serial b \<noteq> [] \<or> owned_raw b \<noteq> [] then (Some OtherException, b, w)
      else let p = parts b;
               (r, w1) = (case install_side em True (resolved_a p) (version_a p) LINK_SYMBOLS w of
                   (Some e, w') \<Rightarrow> (Some e, w')
                 | (None, w') \<Rightarrow> install_side em False (resolved_b p) (version_b p) LINK_SYMBOLS w');
               b1 = capture_owned em w w1 b
           in case r of
                None \<Rightarrow> (None, b1\<lparr>installed := True\<rparr>, w1)
              | Some e \<Rightarrow> (case uninstall_locked em b1 w1 of (_, b2, w2) \<Rightarrow> (Some e, b2, w2)))"

end
