(* ===== verification/Bridge_Safety.thy ===== *)
theory Bridge_Safety
  imports Serial_Bridge
begin

text \<open>What the bridge promises: each side receives the other's byte whichever side's game arrives first, and installing is a transaction over both sessions.\<close>

subsection \<open>The exchange of a callback\<close>

lemma masked_byte: "0 \<le> (x::int) AND 255" "(x::int) AND 255 \<le> 255"
  by simp_all

definition cells_apart :: "bridge_endpoint \<Rightarrow> bool" where
  "cells_apart e \<longleftrightarrow> receive_addr e \<noteq> status_addr e \<and> send_addr e \<noteq> receive_addr e \<and> send_addr e \<noteq> status_addr e"

text \<open>
  C29. The bridge swaps the two bytes, whichever side fires. On an empty transport the callback of either
  side leaves the same two memories: each receive cell holds the low byte of the other side's send cell,
  the status cells hold opposite clock roles, nothing else changed, and the transport is empty again.
\<close>

theorem bridge_swaps_bytes:
  assumes "a_to_b t = []" "b_to_a t = []" "cells_apart a" "cells_apart b"
  shows "\<exists>ma' mb' t'. bridge_cb True a b (ma, mb, t) = (None, ma', mb', t') \<and> bridge_cb False b a (mb, ma, t) = (None, mb', ma', t')
     \<and> ma' = ma(receive_addr a := mb (send_addr b) AND 0xFF, status_addr a := 1)
     \<and> mb' = mb(receive_addr b := ma (send_addr a) AND 0xFF, status_addr b := 2)
     \<and> ma' (receive_addr a) = mb (send_addr b) AND 0xFF \<and> mb' (receive_addr b) = ma (send_addr a) AND 0xFF
     \<and> ma' (send_addr a) = ma (send_addr a) \<and> mb' (send_addr b) = mb (send_addr b)
     \<and> pending_a_to_b t' = 0 \<and> pending_b_to_a t' = 0"
proof -
  note e = exchange_bytes [OF masked_byte masked_byte, of "ma (send_addr a)" "mb (send_addr b)" t]
  have r: "exchange (PyInt (ma (send_addr a) AND 255)) (PyInt (mb (send_addr b) AND 255)) t =
      (Inr (mb (send_addr b) AND 255, ma (send_addr a) AND 255), \<lparr>a_to_b = [], b_to_a = []\<rparr>)"
    using e assms(1,2) by simp
  show ?thesis
    using assms(3,4)
    by (simp add: bridge_cb_def r side_status_def STATUS_PRIMARY_EXTERNAL_def STATUS_PEER_INTERNAL_def pending_a_to_b_def pending_b_to_a_def
        cells_apart_def Let_def del: and_255)
qed

definition sample_endpoint :: bridge_endpoint where
  "sample_endpoint = \<lparr>send_addr = 0xFFAC, receive_addr = 0xFFAD, status_addr = 0xFFAA\<rparr>"

theorem bridge_swaps_bytes_witness:
  "\<exists>ma' mb' t'. bridge_cb False sample_endpoint sample_endpoint (\<lambda>_. 0x142, \<lambda>_. 7, new_transport) = (None, mb', ma', t')
     \<and> ma' 0xFFAD = 0x42 \<and> mb' 0xFFAD = 7"
proof -
  have "cells_apart sample_endpoint" by (simp add: cells_apart_def sample_endpoint_def)
  from bridge_swaps_bytes [OF _ _ this this, of new_transport "\<lambda>_. 7" "\<lambda>_. 0x142"] show ?thesis
    by (auto simp: new_transport_def sample_endpoint_def)
qed

subsection \<open>Installing\<close>

text \<open>Guards are numbered as they are made, and only recorded guards can be active.\<close>

definition sessions_ok :: "'m sessions \<Rightarrow> bool" where
  "sessions_ok w \<longleftrightarrow> (\<forall>s. \<forall>r \<in> set (serial_hooks w s). fst r < states w) \<and> (\<forall>i. state_active w i \<longrightarrow> i < states w)"

text \<open>\<open>w1\<close> only added the hooks \<open>new\<close> to \<open>w\<close>, with new guards, and recorded every one of them.\<close>

definition grew :: "(bool \<Rightarrow> (nat \<times> string) list) \<Rightarrow> 'm sessions \<Rightarrow> 'm sessions \<Rightarrow> bool" where
  "grew new w w1 \<longleftrightarrow> states w \<le> states w1 \<and> serial_hooks w1 = (\<lambda>s. serial_hooks w s @ new s)
     \<and> (\<forall>s. \<forall>i \<in> fst ` set (new s). states w \<le> i \<and> i < states w1)
     \<and> (\<forall>i. state_active w1 i \<longrightarrow> state_active w i \<or> (\<exists>s. i \<in> fst ` set (new s)))"

lemma sessions_okI:
  "(\<And>s i. i \<in> fst ` set (serial_hooks w s) \<Longrightarrow> i < states w) \<Longrightarrow> (\<And>i. state_active w i \<Longrightarrow> i < states w) \<Longrightarrow> sessions_ok w"
  by (auto simp: sessions_ok_def)

lemma sessions_okD:
  assumes "sessions_ok w"
  shows "i \<in> fst ` set (serial_hooks w s) \<Longrightarrow> i < states w" "state_active w i \<Longrightarrow> i < states w"
  using assms by (auto simp: sessions_ok_def)

lemma grew_ok:
  assumes "grew new w w1" "sessions_ok w"
  shows "sessions_ok w1"
proof (rule sessions_okI)
  show "i < states w1" if "i \<in> fst ` set (serial_hooks w1 s)" for s i
  proof -
    from that assms(1) have "i \<in> fst ` set (serial_hooks w s) \<or> i \<in> fst ` set (new s)" by (simp add: grew_def image_Un)
    with assms(1) sessions_okD(1) [OF assms(2), of i s] show ?thesis unfolding grew_def by (meson less_le_trans)
  qed
  show "i < states w1" if "state_active w1 i" for i
    using that assms(1) sessions_okD(2) [OF assms(2), of i] unfolding grew_def by (meson less_le_trans)
qed

lemma grew_refl: "grew (\<lambda>_. []) w w"
  by (simp add: grew_def)

lemma grew_trans:
  assumes "grew n1 w w1" "grew n2 w1 w2"
  shows "grew (\<lambda>s. n1 s @ n2 s) w w2"
proof -
  note g = assms [unfolded grew_def]
  have "states w \<le> states w2" using g by linarith
  moreover have "serial_hooks w2 = (\<lambda>s. serial_hooks w s @ n1 s @ n2 s)" using g by simp
  moreover have "states w \<le> i \<and> i < states w2" if "i \<in> fst ` set (n1 s @ n2 s)" for s i
  proof -
    from that have "i \<in> fst ` set (n1 s) \<or> i \<in> fst ` set (n2 s)" by (simp add: image_Un)
    with g show ?thesis by (meson le_trans less_le_trans)
  qed
  moreover have "state_active w i \<or> (\<exists>s. i \<in> fst ` set (n1 s @ n2 s))" if "state_active w2 i" for i
  proof -
    from that g have "state_active w i \<or> (\<exists>s. i \<in> fst ` set (n1 s)) \<or> (\<exists>s. i \<in> fst ` set (n2 s))" by meson
    then show ?thesis unfolding set_append image_Un by blast
  qed
  ultimately show ?thesis unfolding grew_def by blast
qed

lemma serial_hook_grew:
  assumes "serial_hook em side label w = (r, w')"
  shows "\<exists>new. grew new w w'"
proof -
  have "w' = w \<or> (\<exists>m. w' = w\<lparr>states := Suc (states w), state_active := (state_active w)(states w := True),
      emulator_of := (emulator_of w)(side := m), serial_hooks := (serial_hooks w)(side := serial_hooks w side @ [(states w, label)])\<rparr>)"
    using assms by (auto simp: serial_hook_def Let_def split: sum.splits option.splits)
  then show ?thesis
  proof (elim disjE exE)
    fix m
    assume w': "w' = w\<lparr>states := Suc (states w), state_active := (state_active w)(states w := True),
      emulator_of := (emulator_of w)(side := m), serial_hooks := (serial_hooks w)(side := serial_hooks w side @ [(states w, label)])\<rparr>"
    show ?thesis by (rule exI [of _ "\<lambda>s. if s = side then [(states w, label)] else []"]) (auto simp: grew_def w')
  qed (auto intro: grew_refl)
qed

lemma install_side_grew: "install_side em side resolved version lss w = (r, w') \<Longrightarrow> \<exists>new. grew new w w'"
proof (induction lss arbitrary: w)
  case Nil
  then show ?case by (auto intro: grew_refl)
next
  case (Cons ls lss)
  show ?case
  proof (cases "(map_of resolved (ls_key ls) = None \<or> ls_role ls \<noteq> BRIDGE \<and> ls_role ls \<noteq> HANDSHAKE)
      \<or> label_on (symbols_of w side) ls version = None")
    case True
    with Cons show ?thesis by (auto split: if_split_asm option.splits intro: grew_refl)
  next
    case False
    then obtain label where l: "label_on (symbols_of w side) ls version = Some label" by blast
    obtain r1 w1 where h: "serial_hook em side label w = (r1, w1)" by fastforce
    obtain n1 where g: "grew n1 w w1" using serial_hook_grew [OF h] by blast
    from False l h Cons.prems have s: "(r, w') = (case r1 of Some e \<Rightarrow> (Some e, w1) | None \<Rightarrow> install_side em side resolved version lss w1)"
      by (simp split: if_split_asm option.splits)
    show ?thesis
    proof (cases r1)
      case None
      with s have "install_side em side resolved version lss w1 = (r, w')" by simp
      with Cons.IH grew_trans [OF g] show ?thesis by blast
    qed (use s g in auto)
  qed
qed

lemma add_missing_set: "set (add_missing new owned) = set new \<union> set owned"
  unfolding add_missing_def by (induction new arbitrary: owned) auto

lemma deactivated:
  assumes "sessions_ok w" "grew new w w1" "set owned = {(s, i). i \<in> fst ` set (new s)}"
  shows "serial_hooks (deactivate_serial owned w1) = serial_hooks w" "state_active (deactivate_serial owned w1) i \<Longrightarrow> state_active w i"
proof -
  note g = assms(2) [unfolded grew_def]
  have "filter (\<lambda>r. (s, fst r) \<notin> set owned) (serial_hooks w1 s) = serial_hooks w s" for s
  proof -
    have "(s, fst r) \<notin> set owned" if "r \<in> set (serial_hooks w s)" for r
    proof -
      have "fst r < states w" using sessions_okD(1) [OF assms(1), of "fst r" s] that by simp
      moreover have "states w \<le> fst r" if "fst r \<in> fst ` set (new s)" using g that by blast
      ultimately have "fst r \<notin> fst ` set (new s)" by linarith
      then show ?thesis by (simp only: assms(3) mem_Collect_eq case_prod_conv not_False_eq_True)
    qed
    moreover have "(s, fst r) \<in> set owned" if "r \<in> set (new s)" for r
      using that by (simp only: assms(3) mem_Collect_eq case_prod_conv imageI)
    moreover have "serial_hooks w1 s = serial_hooks w s @ new s" using g by simp
    ultimately show ?thesis by (simp add: filter_id_conv filter_empty_conv)
  qed
  then show "serial_hooks (deactivate_serial owned w1) = serial_hooks w" by (auto simp: deactivate_serial_def)
  show "state_active w i" if a: "state_active (deactivate_serial owned w1) i"
  proof -
    from a have act: "state_active w1 i" and no: "i \<notin> snd ` set owned" by (simp_all add: deactivate_serial_def)
    have "i \<notin> fst ` set (new s)" for s
    proof
      assume "i \<in> fst ` set (new s)"
      then have "(s, i) \<in> set owned" by (simp only: assms(3) mem_Collect_eq case_prod_conv)
      then have "i \<in> snd ` set owned" by (rule rev_image_eqI) simp
      with no show False ..
    qed
    with g act show ?thesis by blast
  qed
qed

lemma close_raw_hooks: "serial_hooks (snd (close_raw em hooks w)) = serial_hooks w \<and> state_active (snd (close_raw em hooks w)) = state_active w"
proof (induction hooks arbitrary: w)
  case Nil
  show ?case by simp
next
  case (Cons h hooks)
  obtain s k e where h: "h = (s, k, e)" by (metis prod_cases3)
  obtain rem m where r: "remove_physical_callback em k e (emulator_of w s) = (rem, m)" by fastforce
  from Cons.IH [of "w\<lparr>emulator_of := (emulator_of w)(s := m)\<rparr>"] show ?case
    by (cases rem) (auto simp: h r split: prod.split)
qed

lemma captured:
  assumes "grew new w w1" "owned_serial b = []"
  shows "set (owned_serial (capture_owned em w w1 b)) = {(s, i). i \<in> fst ` set (new s)}"
proof -
  have "set (owned_serial (capture_owned em w w1 b)) = (\<Union>s \<in> {True, False}. (\<lambda>r. (s, fst r)) ` set (new s))"
    using assms by (simp add: capture_owned_def add_missing_set grew_def)
  also have "\<dots> = {(s, i). i \<in> fst ` set (new s)}"
  proof (intro set_eqI)
    fix x :: "bool \<times> nat"
    obtain s i where x: "x = (s, i)" by fastforce
    show "x \<in> (\<Union>s \<in> {True, False}. (\<lambda>r. (s, fst r)) ` set (new s)) \<longleftrightarrow> x \<in> {(s, i). i \<in> fst ` set (new s)}"
      unfolding x by (cases s) auto
  qed
  finally show ?thesis .
qed

text \<open>
  C30. Installing the bridge is a transaction. If installing on two sessions fails anywhere, the sessions'
  hook records are what they were, no guard the bridge made is active, and the bridge is not installed; if
  it succeeds, uninstalling it brings the records back in the same way, whatever the emulator's own hook
  functions raise.
\<close>

theorem install_is_transaction:
  assumes "sessions_ok w" "owned_serial b = []" "install em b w = (r, b', w')" "\<not> installed b" "owned_raw b = []"
  shows "if r = None
     then installed b' \<and> (case uninstall em b' w' of (_, b2, w2) \<Rightarrow>
       serial_hooks w2 = serial_hooks w \<and> (\<forall>i. state_active w2 i \<longrightarrow> state_active w i) \<and> \<not> installed b2 \<and> owned_serial b2 = [])
     else serial_hooks w' = serial_hooks w \<and> (\<forall>i. state_active w' i \<longrightarrow> state_active w i) \<and> \<not> installed b' \<and> owned_serial b' = []"
proof -
  let ?p = "parts b"
  define both where "both = (case install_side em True (resolved_a ?p) (version_a ?p) LINK_SYMBOLS w of
      (Some e, w') \<Rightarrow> (Some e, w') | (None, w') \<Rightarrow> install_side em False (resolved_b ?p) (version_b ?p) LINK_SYMBOLS w')"
  obtain r1 w1 where both: "both = (r1, w1)" by fastforce
  obtain ra wa where a: "install_side em True (resolved_a ?p) (version_a ?p) LINK_SYMBOLS w = (ra, wa)" by fastforce
  obtain na where ga: "grew na w wa" using install_side_grew [OF a] by blast
  obtain new where g: "grew new w w1"
  proof (cases ra)
    case None
    with a both have "install_side em False (resolved_b ?p) (version_b ?p) LINK_SYMBOLS wa = (r1, w1)" by (simp add: both_def)
    from install_side_grew [OF this] grew_trans [OF ga] that show ?thesis by blast
  next
    case (Some e)
    with a both ga that show ?thesis by (auto simp: both_def)
  qed
  define b1 where "b1 = capture_owned em w w1 b"
  have gone: "serial_hooks w2 = serial_hooks w \<and> (\<forall>i. state_active w2 i \<longrightarrow> state_active w i) \<and> \<not> installed b2 \<and> owned_serial b2 = []"
    if u: "uninstall_locked em b0 w1 = (n, b2, w2)" and o: "owned_serial b0 = owned_serial b1" for b0 n b2 w2
  proof -
    obtain failed w3 where c: "close_raw em (rev (owned_raw b0)) (deactivate_serial (owned_serial b0) w1) = (failed, w3)" by fastforce
    have "set (owned_serial b0) = {(s, i). i \<in> fst ` set (new s)}" using captured [OF g assms(2)] o by (simp add: b1_def)
    from deactivated [OF assms(1) g this] close_raw_hooks [of em "rev (owned_raw b0)" "deactivate_serial (owned_serial b0) w1"] u c
    show ?thesis by (auto simp: uninstall_locked_def)
  qed
  have i: "install em b w = (case r1 of None \<Rightarrow> (None, b1\<lparr>installed := True\<rparr>, w1)
      | Some e \<Rightarrow> (case uninstall_locked em b1 w1 of (_, b2, w2) \<Rightarrow> (Some e, b2, w2)))"
    using assms(2,4,5) both unfolding b1_def by (simp add: install_def both_def [symmetric] Let_def)
  show ?thesis
  proof (cases r1)
    case None
    with i assms(3) have e: "r = None" "b' = b1\<lparr>installed := True\<rparr>" "w' = w1" by simp_all
    obtain n b2 w2 where u: "uninstall_locked em b' w' = (n, b2, w2)" by (metis prod_cases3)
    have "owned_serial b' = owned_serial b1" by (simp add: e)
    from gone [OF _ this] u e show ?thesis by (simp add: uninstall_def)
  next
    case (Some e)
    obtain n b2 w2 where u: "uninstall_locked em b1 w1 = (n, b2, w2)" by (metis prod_cases3)
    with i Some assms(3) have "r = Some e" "b' = b2" "w' = w2" by simp_all
    with gone [OF u] show ?thesis by simp
  qed
qed

text \<open>Two sessions without any hook, on emulators that take a single registration each.\<close>

definition one_hook :: "nat emulator" where
  "one_hook = \<lparr>em_register = (\<lambda>_ _ m. if m = 0 then Some 1 else None), em_deregister = None, em_hooks = (\<lambda>_. None), em_set_hooks = (\<lambda>_ m. m)\<rparr>"

definition bare_sessions :: "nat sessions" where
  "bare_sessions = \<lparr>symbols_of = (\<lambda>_. sample_table), serial_hooks = (\<lambda>_. []), state_active = (\<lambda>_. False), states = 0, emulator_of = (\<lambda>_. 0)\<rparr>"

definition sample_bridge :: bridge where
  "sample_bridge = new_bridge \<lparr>side_a = sample_endpoint, side_b = sample_endpoint,
     resolved_a = [(''exchange_bytes'', 5, 0x22d7), (''handshake'', 0, 0x22fa)], resolved_b = [], version_a = None, version_b = None\<rparr> new_transport"

lemma sample_symbols:
  "get_symbol sample_table ''Serial_ExchangeBytes'' = Some \<lparr>sym_name = ''Serial_ExchangeBytes'', sym_bank = 5, sym_addr = 0x22d7\<rparr>"
  "get_symbol sample_table ''Serial_TryEstablishingExternallyClockedConnection''
     = Some \<lparr>sym_name = ''Serial_TryEstablishingExternallyClockedConnection'', sym_bank = 0, sym_addr = 0x22fa\<rparr>"
  by (simp_all add: sample_table_def symbol_table_of_def get_symbol_add)

lemma sample_labels:
  "map snd (same label) = [label, label, label]" "get_symbol t n = Some s \<Longrightarrow> bank_addr t n = Inr (sym_bank s, sym_addr s)"
  by (simp_all add: same_def VERSIONS_def bank_addr_def result_simps flip: getitem_Inr_iff)

lemma sample_install_fails: "fst (install one_hook sample_bridge bare_sessions) = Some OtherException"
proof -
  have "fst (install_side one_hook True (resolved_a (parts sample_bridge)) (version_a (parts sample_bridge)) LINK_SYMBOLS bare_sessions)
      = Some OtherException"
    by (simp add: LINK_SYMBOLS_def sample_bridge_def new_bridge_def label_on_def bare_sessions_def sample_labels sample_symbols
        serial_hook_def one_hook_def Let_def)
  then obtain w1 where "install_side one_hook True (resolved_a (parts sample_bridge)) (version_a (parts sample_bridge)) LINK_SYMBOLS bare_sessions
      = (Some OtherException, w1)" by (metis prod.collapse)
  moreover have "\<not> installed sample_bridge" "owned_serial sample_bridge = []" "owned_raw sample_bridge = []"
    by (simp_all add: sample_bridge_def new_bridge_def)
  ultimately show ?thesis by (simp add: install_def Let_def split: prod.split)
qed

theorem install_is_transaction_witness:
  "case install one_hook sample_bridge bare_sessions of (r, b', w') \<Rightarrow>
     r = Some OtherException \<and> serial_hooks w' = (\<lambda>_. []) \<and> (\<forall>i. \<not> state_active w' i) \<and> \<not> installed b'"
proof -
  obtain r b' w' where i: "install one_hook sample_bridge bare_sessions = (r, b', w')" by (metis prod_cases3)
  have "r = Some OtherException" using sample_install_fails by (simp add: i)
  have ok: "sessions_ok bare_sessions" "owned_serial sample_bridge = []" "\<not> installed sample_bridge" "owned_raw sample_bridge = []"
    "serial_hooks bare_sessions = (\<lambda>_. [])" "\<not> state_active bare_sessions i" for i
    by (simp_all add: sessions_ok_def bare_sessions_def sample_bridge_def new_bridge_def)
  from install_is_transaction [OF ok(1,2) i ok(3,4)] \<open>r = Some OtherException\<close> ok(5,6) show ?thesis by (simp add: i)
qed

end
