(* ===== verification/Path_Search.thy ===== *)
theory Path_Search
  imports Prelude "HOL-Library.Product_Lexorder"
begin

text \<open>
  The route finder over the walkability grid of a map (\<open>scripts/path_from_tiles.py\<close>, \<open>astar\<close>): one press
  of a direction as a partial function on cells, with elevation barriers and ledge hops, and the best-first
  search with its queue, scores and parents. Rows of a grid have equal length, as the code builds them. The
  queue is the sorted list of its entries: \<open>heapq\<close> pops the least tuple.
\<close>

subsection \<open>One press\<close>

type_synonym cell = "int \<times> int"

definition DIRS :: "(char \<times> int \<times> int) list" where
  "DIRS = [(CHR ''u'', 0, -1), (CHR ''d'', 0, 1), (CHR ''l'', -1, 0), (CHR ''r'', 1, 0)]"

record terrain =
  passable :: "bool list list"
  tile_grid :: "int list list option"
  pair_collisions :: "(int \<times> int) list"

definition grid_width :: "'a list list \<Rightarrow> int" where
  "grid_width g = (case g of [] \<Rightarrow> 0 | row # _ \<Rightarrow> int (length row))"

definition grid_height :: "'a list list \<Rightarrow> int" where
  "grid_height g = int (length g)"

definition in_grid :: "'a list list \<Rightarrow> cell \<Rightarrow> bool" where
  "in_grid g c \<longleftrightarrow> (case c of (x, y) \<Rightarrow> 0 \<le> x \<and> x < grid_width g \<and> 0 \<le> y \<and> y < grid_height g)"

definition at_cell :: "'a list list \<Rightarrow> cell \<Rightarrow> 'a" where
  "at_cell g c = (case c of (x, y) \<Rightarrow> g ! nat y ! nat x)"

definition ledge_tiles :: "char \<Rightarrow> int list" where
  "ledge_tiles ch = (if ch = CHR ''d'' then [0x36, 0x37] else if ch = CHR ''l'' then [0x27] else if ch = CHR ''r'' then [0x0D, 0x1D] else [])"

text \<open>The tile under the player's feet in a step cell.\<close>

definition cell_feet_tile :: "terrain \<Rightarrow> cell \<Rightarrow> int option" where
  "cell_feet_tile t c =
     (case tile_grid t of
        None \<Rightarrow> None
      | Some tiles \<Rightarrow> let d = (fst c * 2, snd c * 2 + 1) in if in_grid tiles d then Some (at_cell tiles d) else None)"

definition pair_blocked :: "terrain \<Rightarrow> cell \<Rightarrow> cell \<Rightarrow> bool" where
  "pair_blocked t c n \<longleftrightarrow>
     (case (cell_feet_tile t c, cell_feet_tile t n) of
        (Some a, Some b) \<Rightarrow> list_ex (\<lambda>(p, q). a = p \<and> b = q \<or> a = q \<and> b = p) (pair_collisions t)
      | _ \<Rightarrow> False)"

text \<open>Where a press leads: the neighbour, or over a ledge tile of that direction to the cell beyond.\<close>

definition press_to :: "terrain \<Rightarrow> cell \<Rightarrow> char \<times> int \<times> int \<Rightarrow> cell option" where
  "press_to t c d =
     (case d of (ch, dx, dy) \<Rightarrow>
        let n = (fst c + dx, snd c + dy); j = (fst c + 2 * dx, snd c + 2 * dy)
        in if \<not> in_grid (passable t) n then None
           else if at_cell (passable t) n then (if pair_blocked t c n then None else Some n)
           else (case cell_feet_tile t n of
                   None \<Rightarrow> None
                 | Some feet \<Rightarrow>
                     if feet \<in> set (ledge_tiles ch) \<and> in_grid (passable t) j \<and> at_cell (passable t) j then Some j else None))"

subsection \<open>The search\<close>

record search =
  pq :: "(int \<times> nat \<times> int \<times> int) list"
  came_from :: "cell \<Rightarrow> (cell \<times> char) option"
  best_g :: "cell \<Rightarrow> nat option"

definition heur :: "cell \<Rightarrow> cell \<Rightarrow> int" where
  "heur goal c = \<bar>fst c - fst goal\<bar> + \<bar>snd c - snd goal\<bar>"

definition FAR :: nat where "FAR = nat (2 ^ 30)"

definition best :: "search \<Rightarrow> cell \<Rightarrow> nat" where
  "best s c = (case best_g s c of None \<Rightarrow> FAR | Some n \<Rightarrow> n)"

definition improves :: "nat \<Rightarrow> nat option \<Rightarrow> bool" where
  "improves n b \<longleftrightarrow> (case b of None \<Rightarrow> int n < 2 ^ 30 | Some m \<Rightarrow> n < m)"

lemma improves_best: "improves n (best_g s c) \<longleftrightarrow> n < best s c"
  by (auto simp: improves_def best_def FAR_def split: option.splits)

definition entry :: "cell \<Rightarrow> nat \<Rightarrow> cell \<Rightarrow> int \<times> nat \<times> int \<times> int" where
  "entry goal g c = (int g + heur goal c, g, c)"

definition relax :: "terrain \<Rightarrow> cell \<Rightarrow> cell \<Rightarrow> nat \<Rightarrow> char \<times> int \<times> int \<Rightarrow> search \<Rightarrow> search" where
  "relax t goal c g d s =
     (case press_to t c d of
        None \<Rightarrow> s
      | Some key \<Rightarrow>
          if improves (g + 1) (best_g s key)
          then s\<lparr>best_g := (best_g s)(key \<mapsto> g + 1), came_from := (came_from s)(key \<mapsto> (c, fst d)),
                 pq := insort (entry goal (g + 1) key) (pq s)\<rparr>
          else s)"

definition expand :: "terrain \<Rightarrow> cell \<Rightarrow> cell \<Rightarrow> nat \<Rightarrow> search \<Rightarrow> search" where
  "expand t goal c g s = fold (relax t goal c g) DIRS s"

text \<open>
  Following the parents back to the start. The fuel is the score of the cell; \<open>None\<close> is a missing parent
  or a walk that is longer than the score.
\<close>

fun walk_back :: "nat \<Rightarrow> (cell \<Rightarrow> (cell \<times> char) option) \<Rightarrow> cell \<Rightarrow> cell \<Rightarrow> string option" where
  "walk_back n parents start cur =
     (if cur = start then Some []
      else case n of
        0 \<Rightarrow> None
      | Suc m \<Rightarrow> (case parents cur of
            None \<Rightarrow> None
          | Some (parent, ch) \<Rightarrow> map_option (\<lambda>p. p @ [ch]) (walk_back m parents start parent)))"

declare walk_back.simps [simp del]

datatype route = NoRoute | Route string | Broken

definition cells :: "terrain \<Rightarrow> cell set" where
  "cells t = {0..<grid_width (passable t)} \<times> {0..<grid_height (passable t)}"

lemma in_cells: "c \<in> cells t \<longleftrightarrow> in_grid (passable t) c"
  by (cases c) (auto simp: cells_def in_grid_def)

lemma finite_cells: "finite (cells t)"
  by (simp add: cells_def)

lemma press_in_grid: "press_to t c d = Some n \<Longrightarrow> in_grid (passable t) n \<and> at_cell (passable t) n"
  by (auto simp: press_to_def Let_def split: prod.splits if_splits option.splits)

definition effort :: "terrain \<Rightarrow> search \<Rightarrow> nat" where
  "effort t s = (\<Sum>c \<in> cells t. best s c) + length (pq s)"

lemma relax_effort: "effort t (relax t goal c g d s) \<le> effort t s"
proof (cases "press_to t c d")
  case (Some key)
  then have key: "key \<in> cells t" by (auto simp: in_cells dest: press_in_grid)
  let ?s = "s\<lparr>best_g := (best_g s)(key \<mapsto> g + 1), came_from := (came_from s)(key \<mapsto> (c, fst d)), pq := insort (entry goal (g + 1) key) (pq s)\<rparr>"
  show ?thesis
  proof (cases "g + 1 < best s key")
    case True
    have rest: "(\<Sum>c \<in> cells t - {key}. best ?s c) = (\<Sum>c \<in> cells t - {key}. best s c)"
      by (rule sum.cong) (auto simp: best_def)
    have new: "best ?s key = g + 1" by (simp add: best_def)
    have "(\<Sum>c \<in> cells t. best ?s c) < (\<Sum>c \<in> cells t. best s c)"
      using True new rest by (simp add: sum.remove [OF finite_cells key])
    then show ?thesis using Some True by (simp add: relax_def improves_best effort_def)
  qed (simp add: relax_def improves_best Some)
qed (simp add: relax_def)

lemma expand_effort: "effort t (expand t goal c g s) \<le> effort t s"
proof -
  have "effort t (fold (relax t goal c g) ds s) \<le> effort t s" for ds
    by (induction ds arbitrary: s) (auto intro: order_trans relax_effort)
  then show ?thesis by (simp add: expand_def)
qed

lemma pop_effort: "pq s = e # rest \<Longrightarrow> effort t (s\<lparr>pq := rest\<rparr>) < effort t s"
  by (simp add: effort_def best_def)

lemma pop_expand_effort: "pq s = e # rest \<Longrightarrow> effort t (expand t goal c g (s\<lparr>pq := rest\<rparr>)) < effort t s"
  using pop_effort expand_effort by (metis le_less_trans)

function search_loop :: "terrain \<Rightarrow> cell \<Rightarrow> cell \<Rightarrow> search \<Rightarrow> route" where
  "search_loop t start goal s =
     (case pq s of
        [] \<Rightarrow> NoRoute
      | (_, g, x, y) # rest \<Rightarrow>
          if (x, y) = goal
          then (case walk_back g (came_from s) start goal of None \<Rightarrow> Broken | Some p \<Rightarrow> Route p)
          else if (case best_g s (x, y) of None \<Rightarrow> False | Some b \<Rightarrow> g > b) then search_loop t start goal (s\<lparr>pq := rest\<rparr>)
          else search_loop t start goal (expand t goal (x, y) g (s\<lparr>pq := rest\<rparr>)))"
  by pat_completeness auto
termination
  by (relation "measure (\<lambda>(t, start, goal, s). effort t s)") (auto intro: pop_effort pop_expand_effort)

declare search_loop.simps [simp del]

definition new_search :: "cell \<Rightarrow> cell \<Rightarrow> search" where
  "new_search start goal = \<lparr>pq = [entry goal 0 start], came_from = Map.empty, best_g = [start \<mapsto> 0]\<rparr>"

definition astar :: "terrain \<Rightarrow> cell \<Rightarrow> cell \<Rightarrow> route" where
  "astar t start goal =
     (if \<not> (in_grid (passable t) start \<and> in_grid (passable t) goal) then NoRoute
      else if \<not> at_cell (passable t) goal then NoRoute
      else search_loop t start goal (new_search start goal))"

end
