(* ===== verification/Path_Safety.thy ===== *)
theory Path_Safety
  imports Path_Search
begin

text \<open>
  What the route finder finds: the presses it returns lead from the start to the goal, it gives up only when
  nothing does, and its route is shortest when there are no ledges and at most twice as long as the shortest
  one when there are - the hop over a ledge crosses two cells with one press, which the heuristic ignores.
\<close>

subsection \<open>Playing a route\<close>

fun play :: "terrain \<Rightarrow> cell \<Rightarrow> string \<Rightarrow> cell option" where
  "play t c [] = Some c"
| "play t c (ch # p) =
     (case find (\<lambda>d. fst d = ch) DIRS of
        None \<Rightarrow> None
      | Some d \<Rightarrow> (case press_to t c d of None \<Rightarrow> None | Some n \<Rightarrow> play t n p))"

lemma play_append: "play t c (p @ q) = (case play t c p of None \<Rightarrow> None | Some m \<Rightarrow> play t m q)"
  by (induction p arbitrary: c) (auto split: option.splits)

lemma find_DIRS: "d \<in> set DIRS \<Longrightarrow> find (\<lambda>x. fst x = fst d) DIRS = Some d"
  by (auto simp: DIRS_def)

lemma find_in_DIRS: "find P DIRS = Some d \<Longrightarrow> d \<in> set DIRS"
  by (auto simp: find_Some_iff)

lemma play_one: "d \<in> set DIRS \<Longrightarrow> press_to t c d = Some n \<Longrightarrow> play t c [fst d] = Some n"
  by (simp add: find_DIRS)

text \<open>A press crosses at most two cells, and only one where the map has no tiles to hop over.\<close>

definition reach_of :: "terrain \<Rightarrow> int" where
  "reach_of t = (if tile_grid t = None then 1 else 2)"

lemma press_distance: "d \<in> set DIRS \<Longrightarrow> press_to t c d = Some n \<Longrightarrow> heur goal c \<le> reach_of t + heur goal n"
  by (auto simp: press_to_def Let_def DIRS_def heur_def reach_of_def cell_feet_tile_def split: if_splits option.splits)

lemma play_distance: "play t c q = Some goal \<Longrightarrow> heur goal c \<le> reach_of t * int (length q)"
proof (induction q arbitrary: c)
  case (Cons ch q)
  then obtain d n where d: "find (\<lambda>d. fst d = ch) DIRS = Some d" "press_to t c d = Some n" "play t n q = Some goal"
    by (auto split: option.splits)
  from press_distance [OF find_in_DIRS [OF d(1)] d(2), of goal] Cons.IH [OF d(3)]
  show ?case by (simp add: distrib_left)
qed (simp add: heur_def)

subsection \<open>The invariant\<close>

definition parents_ok :: "terrain \<Rightarrow> cell \<Rightarrow> search \<Rightarrow> bool" where
  "parents_ok t start s \<longleftrightarrow> best_g s start = Some 0 \<and>
     (\<forall>c n. best_g s c = Some n \<and> c \<noteq> start \<longrightarrow>
        (\<exists>p d m. came_from s c = Some (p, fst d) \<and> d \<in> set DIRS \<and> press_to t p d = Some c \<and> best_g s p = Some m \<and> m + 1 \<le> n))"

definition queue_ok :: "cell \<Rightarrow> search \<Rightarrow> bool" where
  "queue_ok goal s \<longleftrightarrow> sorted (pq s) \<and> (\<forall>e \<in> set (pq s). \<exists>g c b. e = entry goal g c \<and> best_g s c = Some b \<and> b \<le> g)"

text \<open>A cell with a score is still queued with it, or its neighbours among the given directions are settled.\<close>

definition settled :: "terrain \<Rightarrow> search \<Rightarrow> cell \<Rightarrow> nat \<Rightarrow> (char \<times> int \<times> int) set \<Rightarrow> bool" where
  "settled t s c n D \<longleftrightarrow> (\<forall>d \<in> D. \<forall>k. press_to t c d = Some k \<longrightarrow> best s k \<le> n + 1)"

definition frontier_ok :: "terrain \<Rightarrow> cell \<Rightarrow> cell option \<Rightarrow> search \<Rightarrow> bool" where
  "frontier_ok t goal except s \<longleftrightarrow> (\<forall>c n. best_g s c = Some n \<longrightarrow>
     Some c = except \<or> entry goal n c \<in> set (pq s) \<or> c \<noteq> goal \<and> settled t s c n (set DIRS))"

definition search_ok :: "terrain \<Rightarrow> cell \<Rightarrow> cell \<Rightarrow> search \<Rightarrow> bool" where
  "search_ok t start goal s \<longleftrightarrow> parents_ok t start s \<and> queue_ok goal s \<and> frontier_ok t goal None s"

lemma new_search_ok: "search_ok t start goal (new_search start goal)"
  unfolding search_ok_def
proof (intro conjI)
  show "queue_ok goal (new_search start goal)"
    unfolding queue_ok_def new_search_def by (simp, rule exI [of _ 0], rule exI [of _ "fst start"], rule exI [of _ "snd start"]) simp
qed (auto simp: parents_ok_def frontier_ok_def new_search_def)

subsection \<open>Expansion keeps it\<close>

lemma relax_best: "best (relax t goal c g d s) k \<le> best s k"
  by (auto simp: relax_def improves_best best_def split: option.splits)

lemma relax_settles: "press_to t c d = Some k \<Longrightarrow> best (relax t goal c g d s) k \<le> g + 1"
  by (auto simp: relax_def improves_best best_def split: option.splits)

lemma settled_relax: "settled t s c n D \<Longrightarrow> settled t (relax t goal c' g d s) c n D"
  unfolding settled_def using relax_best le_trans by blast

lemma relax_keeps_own: "best_g s c = Some g \<Longrightarrow> best_g (relax t goal c g d s) c = Some g"
  by (auto simp: relax_def improves_best best_def split: option.splits)

lemma relax_parents:
  assumes "parents_ok t start s" "best_g s c = Some g" "d \<in> set DIRS"
  shows "parents_ok t start (relax t goal c g d s)"
proof (cases "\<exists>key. press_to t c d = Some key \<and> g + 1 < best s key")
  case False
  then have "relax t goal c g d s = s" by (auto simp: relax_def improves_best split: option.splits)
  with assms(1) show ?thesis by simp
next
  case True
  then obtain key where key: "press_to t c d = Some key" "g + 1 < best s key" by blast
  let ?s = "relax t goal c g d s"
  have s: "best_g ?s = (best_g s)(key \<mapsto> g + 1)" "came_from ?s = (came_from s)(key \<mapsto> (c, fst d))"
    using key by (simp_all add: relax_def improves_best)
  have start: "key \<noteq> start" using key(2) assms(1) by (auto simp: parents_ok_def best_def)
  have own: "key \<noteq> c" using key(2) assms(2) by (auto simp: best_def)
  show ?thesis
    unfolding parents_ok_def
  proof (intro conjI allI impI)
    show "best_g ?s start = Some 0" using assms(1) start by (simp add: s parents_ok_def)
    fix x n assume x: "best_g ?s x = Some n \<and> x \<noteq> start"
    show "\<exists>p d m. came_from ?s x = Some (p, fst d) \<and> d \<in> set DIRS \<and> press_to t p d = Some x \<and> best_g ?s p = Some m \<and> m + 1 \<le> n"
    proof (cases "x = key")
      case True
      with x assms(2,3) key(1) own show ?thesis by (intro exI [of _ c] exI [of _ d] exI [of _ g]) (simp add: s)
    next
      case False
      with x assms(1) obtain p d' m where p: "came_from s x = Some (p, fst d')" "d' \<in> set DIRS" "press_to t p d' = Some x"
          "best_g s p = Some m" "m + 1 \<le> n"
        unfolding parents_ok_def s by (metis fun_upd_other)
      have "best_g ?s p = Some (if p = key then g + 1 else m) \<and> (if p = key then g + 1 else m) + 1 \<le> n"
        using p(4,5) key(2) by (auto simp: s best_def)
      with p(1-3) False show ?thesis
        by (intro exI [of _ p] exI [of _ d'] exI [of _ "if p = key then g + 1 else m"]) (simp add: s)
    qed
  qed
qed

lemma relax_queue:
  assumes "queue_ok goal s"
  shows "queue_ok goal (relax t goal c g d s)"
proof (cases "\<exists>key. press_to t c d = Some key \<and> g + 1 < best s key")
  case False
  then have "relax t goal c g d s = s" by (auto simp: relax_def improves_best split: option.splits)
  with assms(1) show ?thesis by simp
next
  case True
  then obtain key where key: "press_to t c d = Some key" "g + 1 < best s key" by blast
  let ?s = "relax t goal c g d s"
  have s: "best_g ?s = (best_g s)(key \<mapsto> g + 1)" "pq ?s = insort (entry goal (g + 1) key) (pq s)"
    using key by (simp_all add: relax_def improves_best)
  have "\<exists>g' c' b. e = entry goal g' c' \<and> best_g ?s c' = Some b \<and> b \<le> g'" if "e \<in> set (pq ?s)" for e
  proof (cases "e = entry goal (g + 1) key")
    case False
    with that assms obtain g' c' b where e: "e = entry goal g' c'" "best_g s c' = Some b" "b \<le> g'"
      by (auto simp: s set_insort_key queue_ok_def)
    show ?thesis
    proof (cases "c' = key")
      case True
      with key(2) e show ?thesis by (intro exI [of _ g'] exI [of _ c'] exI [of _ "g + 1"]) (simp add: s best_def)
    next
      case False
      with e show ?thesis by (intro exI [of _ g'] exI [of _ c'] exI [of _ b]) (simp add: s)
    qed
  next
    case True
    then show ?thesis by (intro exI [of _ "g + 1"] exI [of _ key]) (simp add: s)
  qed
  with assms show ?thesis by (simp add: queue_ok_def s sorted_insort)
qed

lemma relax_frontier:
  assumes "frontier_ok t goal (Some c) s"
  shows "frontier_ok t goal (Some c) (relax t goal c g d s)"
  unfolding frontier_ok_def
proof (intro allI impI)
  fix x n assume x: "best_g (relax t goal c g d s) x = Some n"
  show "Some x = Some c \<or> entry goal n x \<in> set (pq (relax t goal c g d s)) \<or> x \<noteq> goal \<and> settled t (relax t goal c g d s) x n (set DIRS)"
  proof (cases "best_g s x = Some n")
    case True
    have "e \<in> set (pq s) \<Longrightarrow> e \<in> set (pq (relax t goal c g d s))" for e
      by (auto simp: relax_def improves_best set_insort_key split: option.splits)
    with True assms show ?thesis unfolding frontier_ok_def using settled_relax by blast
  next
    case False
    with x have "press_to t c d = Some x" "n = g + 1" "g + 1 < best s x"
      by (auto simp: relax_def improves_best split: option.splits if_splits)
    then show ?thesis by (simp add: relax_def improves_best set_insort_key)
  qed
qed

lemma expand_ok:
  assumes "parents_ok t start s" "queue_ok goal s" "frontier_ok t goal (Some c) s" "best_g s c = Some g" "c \<noteq> goal"
  shows "search_ok t start goal (expand t goal c g s)"
proof -
  have steps: "parents_ok t start s' \<and> queue_ok goal s' \<and> frontier_ok t goal (Some c) s' \<and> best_g s' c = Some g \<and> settled t s' c g (D \<union> set ds)"
    if "set ds \<subseteq> set DIRS" "s' = fold (relax t goal c g) ds s" "settled t s c g D" "parents_ok t start s" "queue_ok goal s"
      "frontier_ok t goal (Some c) s" "best_g s c = Some g" for ds s s' D
    using that
  proof (induction ds arbitrary: s D)
    case (Cons d ds)
    let ?s = "relax t goal c g d s"
    have "settled t ?s c g (insert d D)"
      using settled_relax [OF Cons.prems(3), of goal c g d] relax_settles by (auto simp: settled_def)
    from Cons.IH [OF _ _ this] Cons.prems show ?case
      by (simp add: relax_parents relax_queue relax_frontier relax_keeps_own)
  qed simp
  have "settled t s c g {}" by (simp add: settled_def)
  from steps [OF _ refl this assms(1-4), of DIRS]
  have e: "parents_ok t start (expand t goal c g s)" "queue_ok goal (expand t goal c g s)" "frontier_ok t goal (Some c) (expand t goal c g s)"
    "best_g (expand t goal c g s) c = Some g" "settled t (expand t goal c g s) c g (set DIRS)"
    by (simp_all add: expand_def)
  have "frontier_ok t goal None (expand t goal c g s)"
    unfolding frontier_ok_def
  proof (intro allI impI)
    fix x n assume x: "best_g (expand t goal c g s) x = Some n"
    show "Some x = None \<or> entry goal n x \<in> set (pq (expand t goal c g s)) \<or> x \<noteq> goal \<and> settled t (expand t goal c g s) x n (set DIRS)"
    proof (cases "x = c")
      case True
      with x e(4,5) assms(5) show ?thesis by simp
    next
      case False
      with e(3) x show ?thesis unfolding frontier_ok_def by blast
    qed
  qed
  with e(1,2) show ?thesis by (simp add: search_ok_def)
qed

subsection \<open>What the loop returns\<close>

lemma walk_back_plays:
  assumes "parents_ok t start s"
  shows "best_g s c = Some n \<Longrightarrow> n \<le> m \<Longrightarrow>
    \<exists>p. walk_back m (came_from s) start c = Some p \<and> play t start p = Some c \<and> length p \<le> n"
proof (induction m arbitrary: c n)
  case 0
  have "c = start"
  proof (rule ccontr)
    assume "c \<noteq> start"
    with assms 0 obtain k :: nat where "k + 1 \<le> n" unfolding parents_ok_def by blast
    with 0 show False by simp
  qed
  then show ?case by (subst walk_back.simps) simp
next
  case (Suc m)
  show ?case
  proof (cases "c = start")
    case True
    then show ?thesis by (subst walk_back.simps) simp
  next
    case False
    with assms Suc.prems(1) obtain q d k where q: "came_from s c = Some (q, fst d)" "d \<in> set DIRS" "press_to t q d = Some c"
        "best_g s q = Some k" "k + 1 \<le> n" unfolding parents_ok_def by meson
    with Suc.prems(2) Suc.IH [OF q(4)] obtain p where p: "walk_back m (came_from s) start q = Some p" "play t start p = Some q" "length p \<le> k"
      by fastforce
    have "play t start (p @ [fst d]) = Some c" using p(2) play_one [OF q(2,3)] by (simp only: play_append option.case)
    then show ?thesis using False p(1,3) q(1,5) by (subst walk_back.simps) simp
  qed
qed

text \<open>Along any route from a scored cell, some cell is still queued, unless the goal is scored well.\<close>

lemma route_on_frontier:
  assumes "frontier_ok t goal None s"
  shows "play t c q = Some goal \<Longrightarrow> best s c \<le> i \<Longrightarrow> i + length q < FAR \<Longrightarrow>
    \<exists>x n. best_g s x = Some n \<and> entry goal n x \<in> set (pq s) \<and> int n + heur goal x \<le> int i + reach_of t * int (length q)"
proof (induction q arbitrary: c i)
  case Nil
  then have c: "c = goal" "best_g s c = Some (best s c)" by (auto simp: best_def split: option.splits)
  with assms have "entry goal (best s c) c \<in> set (pq s)" unfolding frontier_ok_def by blast
  with c Nil(2) show ?case by (intro exI [of _ c] exI [of _ "best s c"]) (simp add: heur_def)
next
  case (Cons ch q)
  have c: "best_g s c = Some (best s c)" using Cons.prems(2,3) by (auto simp: best_def split: option.splits)
  show ?case
  proof (cases "entry goal (best s c) c \<in> set (pq s)")
    case True
    with c Cons.prems(2) play_distance [OF Cons.prems(1)] show ?thesis by (intro exI [of _ c] exI [of _ "best s c"]) simp
  next
    case False
    with c assms have st: "settled t s c (best s c) (set DIRS)" unfolding frontier_ok_def by blast
    from Cons.prems(1) obtain d k where d: "find (\<lambda>d. fst d = ch) DIRS = Some d" "press_to t c d = Some k" "play t k q = Some goal"
      by (auto split: option.splits)
    from st find_in_DIRS [OF d(1)] d(2) have "best s k \<le> best s c + 1" unfolding settled_def by blast
    then have "best s k \<le> Suc i" using Cons.prems(2) by simp
    from Cons.IH [OF d(3) this] Cons.prems(3) obtain x n where x: "best_g s x = Some n" "entry goal n x \<in> set (pq s)"
      "int n + heur goal x \<le> int (Suc i) + reach_of t * int (length q)" by auto
    moreover have "int (Suc i) + reach_of t * int (length q) \<le> int i + reach_of t * int (length (ch # q))"
      by (simp add: reach_of_def)
    ultimately show ?thesis by (metis order_trans)
  qed
qed

definition good_route :: "terrain \<Rightarrow> cell \<Rightarrow> cell \<Rightarrow> route \<Rightarrow> bool" where
  "good_route t start goal r \<longleftrightarrow>
     (case r of
        Route p \<Rightarrow> play t start p = Some goal
          \<and> (\<forall>q. play t start q = Some goal \<and> length q < FAR \<longrightarrow> int (length p) \<le> reach_of t * int (length q))
      | NoRoute \<Rightarrow> \<not> (\<exists>q. play t start q = Some goal \<and> length q < FAR)
      | Broken \<Rightarrow> False)"

lemma start_best: "search_ok t start goal s \<Longrightarrow> best s start \<le> 0"
  by (simp add: search_ok_def parents_ok_def best_def)

lemma pop_stale:
  assumes "search_ok t start goal s" "pq s = (f, g, c) # rest" "best_g s c = Some b" "b < g"
  shows "search_ok t start goal (s\<lparr>pq := rest\<rparr>)"
proof -
  have left: "entry goal n x \<in> set rest" if "best_g s x = Some n" "entry goal n x \<in> set (pq s)" for x n
    using that assms(2-4) by (auto simp: entry_def)
  have "frontier_ok t goal None (s\<lparr>pq := rest\<rparr>)"
    unfolding frontier_ok_def
  proof (intro allI impI)
    fix x n assume "best_g (s\<lparr>pq := rest\<rparr>) x = Some n"
    then have x: "best_g s x = Some n" by simp
    with assms(1) have "entry goal n x \<in> set (pq s) \<or> x \<noteq> goal \<and> settled t s x n (set DIRS)"
      unfolding search_ok_def frontier_ok_def by blast
    with left [OF x] show "Some x = None \<or> entry goal n x \<in> set (pq (s\<lparr>pq := rest\<rparr>)) \<or> x \<noteq> goal \<and> settled t (s\<lparr>pq := rest\<rparr>) x n (set DIRS)"
      unfolding settled_def best_def by auto
  qed
  moreover have "parents_ok t start (s\<lparr>pq := rest\<rparr>)" "queue_ok goal (s\<lparr>pq := rest\<rparr>)"
    using assms(1,2) by (auto simp: search_ok_def parents_ok_def queue_ok_def)
  ultimately show ?thesis by (simp add: search_ok_def)
qed

lemma pop_expand:
  assumes ok: "search_ok t start goal s" and q: "pq s = (f, g, c) # rest" and c: "c \<noteq> goal" and b: "best_g s c = Some b" "\<not> b < g"
  shows "search_ok t start goal (expand t goal c g (s\<lparr>pq := rest\<rparr>))"
proof -
  let ?s = "s\<lparr>pq := rest\<rparr>"
  obtain g' c' b' where e: "(f, g, c) = entry goal g' c'" "best_g s c' = Some b'" "b' \<le> g'"
    using ok q unfolding search_ok_def queue_ok_def by (metis list.set_intros(1))
  then have g: "best_g s c = Some g" using b by (simp add: entry_def)
  have left: "entry goal n x \<in> set rest" if "entry goal n x \<in> set (pq s)" "x \<noteq> c" for x n
    using that q by (auto simp: entry_def)
  have "frontier_ok t goal (Some c) ?s"
    unfolding frontier_ok_def
  proof (intro allI impI)
    fix x n assume "best_g ?s x = Some n"
    then have "best_g s x = Some n" by simp
    with ok have "entry goal n x \<in> set (pq s) \<or> x \<noteq> goal \<and> settled t s x n (set DIRS)"
      unfolding search_ok_def frontier_ok_def by blast
    with left [of n x] show "Some x = Some c \<or> entry goal n x \<in> set (pq ?s) \<or> x \<noteq> goal \<and> settled t ?s x n (set DIRS)"
      unfolding settled_def best_def by auto
  qed
  moreover have "parents_ok t start ?s" "queue_ok goal ?s"
    using ok q by (auto simp: search_ok_def parents_ok_def queue_ok_def)
  ultimately show ?thesis using g c by (intro expand_ok) simp_all
qed

lemma loop_good: "search_ok t start goal s \<Longrightarrow> good_route t start goal (search_loop t start goal s)"
proof (induction t start goal s rule: search_loop.induct)
  case (1 t start goal s)
  note ok = 1(3)
  have frontier: "\<exists>x n. best_g s x = Some n \<and> entry goal n x \<in> set (pq s) \<and> int n + heur goal x \<le> reach_of t * int (length q)"
    if "play t start q = Some goal" "length q < FAR" for q
    using route_on_frontier [of t goal s start q 0] ok that start_best [OF ok] by (simp add: search_ok_def)
  show ?case
  proof (cases "pq s")
    case Nil
    with frontier show ?thesis by (subst search_loop.simps) (auto simp: good_route_def)
  next
    case (Cons e rest)
    obtain f g x y where e: "e = (f, g, x, y)" by (metis prod_cases4)
    have "e \<in> set (pq s)" using Cons by simp
    then obtain g' c' b where q: "e = entry goal g' c'" "best_g s c' = Some b" "b \<le> g'"
      using ok unfolding search_ok_def queue_ok_def by blast
    then have c: "c' = (x, y)" "g' = g" "f = int g + heur goal (x, y)" using e by (auto simp: entry_def)
    show ?thesis
    proof (cases "(x, y) = goal")
      case True
      from walk_back_plays [OF _ q(2) q(3), of t start] ok obtain p where
        p: "walk_back g (came_from s) start goal = Some p" "play t start p = Some goal" "length p \<le> b"
        unfolding c True by (auto simp: search_ok_def)
      have "int (length p) \<le> reach_of t * int (length q')" if r: "play t start q' = Some goal" "length q' < FAR" for q'
      proof -
        from frontier [OF r] obtain z n where z: "entry goal n z \<in> set (pq s)" "int n + heur goal z \<le> reach_of t * int (length q')" by blast
        have "e \<le> entry goal n z" using ok z(1) Cons by (auto simp: search_ok_def queue_ok_def)
        then have "f \<le> int n + heur goal z" by (auto simp: e entry_def less_eq_prod_def)
        moreover have "int (length p) \<le> f" using p(3) q(3) c by (simp add: heur_def)
        ultimately show ?thesis using z(2) by linarith
      qed
      with p True Cons e show ?thesis by (subst search_loop.simps) (simp add: good_route_def)
    next
      case False
      show ?thesis
      proof (cases "b < g")
        case True
        have "search_ok t start goal (s\<lparr>pq := rest\<rparr>)" by (rule pop_stale [OF ok _ _ True]) (use Cons e q(2) c in simp_all)
        with 1(1) [OF Cons _ _ _ False] e True q(2) c have "good_route t start goal (search_loop t start goal (s\<lparr>pq := rest\<rparr>))" by fastforce
        with Cons e True False q(2) c show ?thesis by (subst search_loop.simps) simp
      next
        case fresh: False
        have "search_ok t start goal (expand t goal (x, y) g (s\<lparr>pq := rest\<rparr>))"
          by (rule pop_expand [OF ok _ False _ fresh]) (use Cons e q(2) c in simp_all)
        with 1(2) [OF Cons _ _ _ False] e fresh q(2) c
        have "good_route t start goal (search_loop t start goal (expand t goal (x, y) g (s\<lparr>pq := rest\<rparr>)))" by fastforce
        with Cons e fresh False q(2) c show ?thesis by (subst search_loop.simps) simp
      qed
    qed
  qed
qed

subsection \<open>Routes\<close>

lemma astar_good:
  assumes "in_grid (passable t) start" "in_grid (passable t) goal" "at_cell (passable t) goal"
  shows "good_route t start goal (astar t start goal)"
  using assms loop_good [OF new_search_ok] by (simp add: astar_def)

lemma play_ends_passable: "play t c q = Some n \<Longrightarrow> q \<noteq> [] \<Longrightarrow> in_grid (passable t) n \<and> at_cell (passable t) n"
proof (induction q arbitrary: c)
  case (Cons ch q)
  then show ?case by (cases q) (auto split: option.splits dest: press_in_grid)
qed simp

text \<open>
  C32. The route finder is sound and complete. A route it returns, pressed direction by direction from the
  start - over ledges, never through a wall or across an elevation barrier - ends at the goal; it finds one
  whenever some sequence of fewer than 2 to the 30 presses reaches a passable goal inside the grid; and its
  walk back along the parents never misses one and always ends.
\<close>

theorem astar_finds_routes:
  "(\<forall>p. astar t start goal = Route p \<longrightarrow> play t start p = Some goal)
   \<and> (in_grid (passable t) start \<and> in_grid (passable t) goal \<and> at_cell (passable t) goal
        \<and> (\<exists>q. play t start q = Some goal \<and> length q < FAR) \<longrightarrow> (\<exists>p. astar t start goal = Route p))
   \<and> astar t start goal \<noteq> Broken"
proof (cases "in_grid (passable t) start \<and> in_grid (passable t) goal \<and> at_cell (passable t) goal")
  case True
  then have "good_route t start goal (astar t start goal)" using astar_good by blast
  then show ?thesis by (cases "astar t start goal") (auto simp: good_route_def)
qed (auto simp: astar_def)

text \<open>A street of two lanes: the left one is plain, the right one has a ledge in every second cell.\<close>

definition ledge_street :: terrain where
  "ledge_street = \<lparr>passable = map (\<lambda>y. [True, even y]) [0..<7],
     tile_grid = Some (concat (map (\<lambda>y. [[0, 0, 0, 0], [0, 0, if even y then 0 else 0x37, 0]]) [0..<7])), pair_collisions = []\<rparr>"

lemma street_eval: "astar ledge_street (0, 0) (0, 6) = Route ''dddddd''" "play ledge_street (0, 0) ''rdddl'' = Some (0, 6)"
  by code_simp+

theorem astar_finds_routes_witness:
  "\<exists>p. astar ledge_street (0, 0) (0, 6) = Route p \<and> play ledge_street (0, 0) p = Some (0, 6)"
proof -
  have "in_grid (passable ledge_street) (0, 0)" "in_grid (passable ledge_street) (0, 6)" "at_cell (passable ledge_street) (0, 6)"
    by code_simp+
  moreover have "\<exists>q. play ledge_street (0, 0) q = Some (0, 6) \<and> length q < FAR"
    using street_eval(2) by (intro exI [of _ "''rdddl''"]) (simp add: FAR_def)
  ultimately show ?thesis using astar_finds_routes [of ledge_street "(0, 0)" "(0, 6)"] by blast
qed

text \<open>
  C33. How long a route is. On a map without tile data, where nothing can be hopped over, the route found is
  as short as any that reaches the goal; with ledges it is at most twice as long as any.
\<close>

theorem astar_route_bound:
  assumes "astar t start goal = Route p" "play t start q = Some goal" "length q < FAR"
  shows "length p \<le> (if tile_grid t = None then length q else 2 * length q)"
proof -
  have "in_grid (passable t) start" "in_grid (passable t) goal" "at_cell (passable t) goal"
    using assms(1) by (auto simp: astar_def split: if_split_asm)
  from astar_good [OF this] assms have "int (length p) \<le> reach_of t * int (length q)" by (auto simp: good_route_def)
  then show ?thesis by (auto simp: reach_of_def split: if_split_asm)
qed

theorem astar_route_bound_witness: "length ''dddddd'' \<le> 2 * length ''rdddl''"
  using astar_route_bound [OF street_eval] by (simp add: FAR_def ledge_street_def)

end
