(* ===== verification/Path_Grid.thy ===== *)
theory Path_Grid
  imports Symbols Path_Safety
begin

text \<open>
  The walkability grid of the current map (\<open>scripts/path_from_tiles.py\<close>): the sprites that block cells, the
  passable tiles of the tileset, the block map and its expansion into tiles, the passability of step cells and
  the planning of a route, as \<open>main\<close> composes them. The blockset file is an argument: a list of patterns of
  16 tiles. Printing and the parsing of the command line are left out.
\<close>

subsection \<open>Reading the map\<close>

definition MAP_BORDER :: int where "MAP_BORDER = 3"
definition BLOCK_WIDTH :: nat where "BLOCK_WIDTH = 4"
definition BLOCK_HEIGHT :: nat where "BLOCK_HEIGHT = 4"
definition PIKACHU_FOLLOW_IMAGE :: int where "PIKACHU_FOLLOW_IMAGE = 0x49"

definition tileset_blockset :: "int \<Rightarrow> string option" where
  "tileset_blockset i = map_of (zip [0..23]
     [''overworld.bst'', ''reds_house.bst'', ''pokecenter.bst'', ''forest.bst'', ''reds_house.bst'', ''gym.bst'', ''pokecenter.bst'',
      ''gym.bst'', ''house.bst'', ''gate.bst'', ''gate.bst'', ''underground.bst'', ''gate.bst'', ''ship.bst'', ''ship_port.bst'',
      ''cemetery.bst'', ''interior.bst'', ''cavern.bst'', ''lobby.bst'', ''mansion.bst'', ''lab.bst'', ''club.bst'', ''facility.bst'',
      ''plateau.bst'']) i"

fun chunks16 :: "nat \<Rightarrow> 'a list \<Rightarrow> 'a list list" where
  "chunks16 0 xs = []"
| "chunks16 (Suc n) xs = take 16 xs # chunks16 n (drop 16 xs)"

text \<open>\<open>read_file\<close> gives the bytes of a file of the block sets.\<close>

definition load_blockset :: "(string \<Rightarrow> exn + int list) \<Rightarrow> int \<Rightarrow> exn + int list list" where
  "load_blockset read_file tileset_id =
     (case tileset_blockset tileset_id of
        None \<Rightarrow> Inl ValueError
      | Some fname \<Rightarrow> rbind (read_file fname) (\<lambda>dat.
          if length dat mod 16 \<noteq> 0 then Inl ValueError else Inr (chunks16 (length dat div 16) dat)))"

definition byte_at :: "memory \<Rightarrow> int \<Rightarrow> exn + int" where
  "byte_at m a = rbind (mem_at m a) (\<lambda>v. Inr (v AND 0xFF))"

text \<open>The cells one sprite slot blocks.\<close>

definition sprite_cells :: "memory \<Rightarrow> int \<Rightarrow> int \<Rightarrow> bool \<Rightarrow> int \<Rightarrow> exn + cell list" where
  "sprite_cells m data1 data2 expand_neighbors i =
     (let base2 = data2 + i * 0x10; base1 = data1 + i * 0x10
      in rbind (byte_at m (base2 + 4)) (\<lambda>my. rbind (byte_at m (base2 + 5)) (\<lambda>mx.
         if mx = 0 \<and> my = 0 then Inr []
         else rbind (byte_at m base1) (\<lambda>pic.
           if pic = PIKACHU_FOLLOW_IMAGE then Inr []
           else rbind (byte_at m (base1 + 2)) (\<lambda>vis.
             if vis = 0xFF then Inr []
             else let sx = mx - 4; sy = my - 4
               in if \<not> expand_neighbors then Inr [(sx, sy)]
                  else rbind (byte_at m (base1 + 0)) (\<lambda>picture.
                    if picture = 0 then Inr [(sx, sy)]
                    else Inr [(sx, sy), (sx, sy + 1), (sx, sy - 1), (sx + 1, sy), (sx - 1, sy)]))))))"

definition read_sprite_blockers :: "memory \<Rightarrow> symbol_table \<Rightarrow> bool \<Rightarrow> exn + cell list" where
  "read_sprite_blockers m symbols expand_neighbors =
     rbind (addr_of symbols ''wSpriteStateData2'') (\<lambda>data2. rbind (addr_of symbols ''wSpriteStateData1'') (\<lambda>data1.
     rbind (rmapM (sprite_cells m data1 data2 expand_neighbors) [1..15]) (\<lambda>cs. Inr (concat cs))))"

text \<open>The collision list up to its terminator, of which the first 128 bytes are searched.\<close>

fun collision_list :: "memory \<Rightarrow> int \<Rightarrow> nat \<Rightarrow> exn + int list" where
  "collision_list m a 0 = Inl OtherException"
| "collision_list m a (Suc n) = rbind (byte_at m a) (\<lambda>b.
     if b = 0xFF then Inr [] else rbind (collision_list m (a + 1) n) (\<lambda>bs. Inr (b # bs)))"

definition read_passable_tiles :: "memory \<Rightarrow> symbol_table \<Rightarrow> exn + int list" where
  "read_passable_tiles m symbols =
     rbind (addr_of symbols ''wTilesetCollisionPtr'') (\<lambda>p. rbind (byte_at m p) (\<lambda>lo. rbind (byte_at m (p + 1)) (\<lambda>hi.
     collision_list m (lo OR push_bit 8 hi) 128)))"

definition read_overworld_map :: "memory \<Rightarrow> symbol_table \<Rightarrow> nat \<Rightarrow> nat \<Rightarrow> exn + int list list" where
  "read_overworld_map m symbols width_blocks height_blocks =
     rbind (addr_of symbols ''wOverworldMap'') (\<lambda>base.
       let stride = int width_blocks + MAP_BORDER * 2
       in rmapM (\<lambda>y. rmapM (\<lambda>x. byte_at m (base + (MAP_BORDER + int y) * stride + MAP_BORDER + int x)) [0..<width_blocks]) [0..<height_blocks])"

subsection \<open>Tiles\<close>

definition set_tile :: "nat \<Rightarrow> nat \<Rightarrow> 'a \<Rightarrow> 'a list list \<Rightarrow> 'a list list" where
  "set_tile y x v g = g[y := (g ! y)[x := v]]"

definition block_pattern :: "int list list \<Rightarrow> int \<Rightarrow> int list" where
  "block_pattern blockset block_id = (if block_id \<ge> int (length blockset) then replicate 16 0xFF else blockset ! nat block_id)"

definition expand_to_tile_grid :: "int list list \<Rightarrow> int list list \<Rightarrow> int list list" where
  "expand_to_tile_grid blocks blockset =
     (let h = length blocks; w = (case blocks of [] \<Rightarrow> 0 | row # _ \<Rightarrow> length row)
      in fold (\<lambda>by. fold (\<lambda>bx. let pattern = block_pattern blockset (blocks ! by ! bx) in
           fold (\<lambda>ty. fold (\<lambda>tx. set_tile (by * BLOCK_HEIGHT + ty) (bx * BLOCK_WIDTH + tx) (pattern ! (ty * BLOCK_WIDTH + tx)))
             [0..<BLOCK_WIDTH]) [0..<BLOCK_HEIGHT]) [0..<w]) [0..<h]
         (replicate (h * BLOCK_HEIGHT) (replicate (w * BLOCK_WIDTH) 0)))"

definition PAIR_COLLISIONS :: "int \<Rightarrow> (int \<times> int) list" where
  "PAIR_COLLISIONS tileset_id =
     (if tileset_id = 17 then [(0x20, 0x05), (0x41, 0x05), (0x2A, 0x05), (0x05, 0x21)]
      else if tileset_id = 3 then [(0x30, 0x2E), (0x52, 0x2E), (0x55, 0x2E), (0x56, 0x2E), (0x20, 0x2E), (0x5E, 0x2E), (0x5F, 0x2E)]
      else [])"

subsection \<open>Planning\<close>

record map_view =
  mv_tiles :: "int list list"
  mv_width :: nat
  mv_height :: nat
  mv_tileset :: int
  mv_passable :: "int list"
  mv_blockers :: "cell list"
  mv_model :: string

definition CAVE_TILESETS :: "int list" where "CAVE_TILESETS = [3, 14, 16, 17, 21, 22]"

definition tile_passable :: "map_view \<Rightarrow> cell \<Rightarrow> bool" where
  "tile_passable v c \<longleftrightarrow> in_grid (mv_tiles v) c \<and> at_cell (mv_tiles v) c \<in> set (mv_passable v)"

definition step_passable :: "map_view \<Rightarrow> cell \<Rightarrow> bool" where
  "step_passable v c \<longleftrightarrow>
     (case c of (sx, sy) \<Rightarrow>
        if c \<in> set (mv_blockers v) then False
        else if mv_model v = ''top_left'' then tile_passable v (sx * 2, sy * 2)
        else if mv_model v = ''and_both'' \<and> mv_tileset v \<in> set CAVE_TILESETS
        then tile_passable v (sx * 2, sy * 2 + 1) \<and> tile_passable v (sx * 2 + 1, sy * 2 + 1)
        else tile_passable v (sx * 2, sy * 2 + 1))"

definition passable_grid :: "map_view \<Rightarrow> bool list list" where
  "passable_grid v = map (\<lambda>y. map (\<lambda>x. step_passable v (int x, int y)) [0..<mv_width v * 2]) [0..<mv_height v * 2]"

definition force_cell :: "cell \<Rightarrow> bool list list \<Rightarrow> bool list list" where
  "force_cell c g = (if in_grid g c then set_tile (nat (snd c)) (nat (fst c)) True g else g)"

definition plan_terrain :: "map_view \<Rightarrow> cell \<Rightarrow> cell \<Rightarrow> terrain" where
  "plan_terrain v player goal =
     \<lparr>passable = force_cell goal (force_cell player (passable_grid v)), tile_grid = Some (mv_tiles v),
      pair_collisions = PAIR_COLLISIONS (mv_tileset v)\<rparr>"

definition plan_route :: "map_view \<Rightarrow> cell \<Rightarrow> cell \<Rightarrow> exn + route" where
  "plan_route v player goal =
     (if mv_tiles v = [] then Inl IndexError else Inr (astar (plan_terrain v player goal) player goal))"

definition view_map :: "memory \<Rightarrow> symbol_table \<Rightarrow> (string \<Rightarrow> exn + int list) \<Rightarrow> bool \<Rightarrow> cell list \<Rightarrow> string \<Rightarrow> exn + map_view" where
  "view_map m symbols read_file expand_neighbors extra model =
     rbind (rbind (addr_of symbols ''wCurMapWidth'') (byte_at m)) (\<lambda>w.
     rbind (rbind (addr_of symbols ''wCurMapHeight'') (byte_at m)) (\<lambda>h.
     rbind (rbind (addr_of symbols ''wCurMapTileset'') (byte_at m)) (\<lambda>tileset.
     rbind (read_passable_tiles m symbols) (\<lambda>tiles.
     rbind (read_sprite_blockers m symbols expand_neighbors) (\<lambda>blockers.
     rbind (load_blockset read_file tileset) (\<lambda>blockset.
     rbind (read_overworld_map m symbols (nat w) (nat h)) (\<lambda>blocks.
     Inr \<lparr>mv_tiles = expand_to_tile_grid blocks blockset, mv_width = nat w, mv_height = nat h, mv_tileset = tileset,
          mv_passable = tiles, mv_blockers = blockers @ extra, mv_model = model\<rparr>)))))))"

end
