(* ===== verification/Path_Plan.thy ===== *)
theory Path_Plan
  imports Path_Grid
begin

text \<open>
  The grid the route is planned on: block expansion puts every tile where the block map says, the collision
  list is read exactly up to its terminator, and a planned route only enters cells that are free of sprites
  and whose tile can be walked on.
\<close>

subsection \<open>Painting a grid\<close>

definition shaped :: "nat \<Rightarrow> nat \<Rightarrow> 'a list list \<Rightarrow> bool" where
  "shaped H W g \<longleftrightarrow> length g = H \<and> (\<forall>y < H. length (g ! y) = W)"

definition paints :: "nat \<Rightarrow> nat \<Rightarrow> (nat \<Rightarrow> nat \<Rightarrow> 'a) \<Rightarrow> ('a list list \<Rightarrow> 'a list list) \<Rightarrow> (nat \<times> nat) set \<Rightarrow> bool" where
  "paints H W F f S \<longleftrightarrow> (\<forall>g. shaped H W g \<longrightarrow> shaped H W (f g)
     \<and> (\<forall>y < H. \<forall>x < W. f g ! y ! x = (if (y, x) \<in> S then F y x else g ! y ! x)))"

lemma set_tile_paints:
  assumes "y < H" "x < W" "v = F y x"
  shows "paints H W F (set_tile y x v) {(y, x)}"
  using assms by (auto simp: paints_def shaped_def set_tile_def nth_list_update)

lemma fold_paints:
  fixes f :: "'i \<Rightarrow> 'a list list \<Rightarrow> 'a list list"
  assumes "\<And>i. i \<in> set is \<Longrightarrow> paints H W F (f i) (S i)"
  shows "paints H W F (fold f is) (\<Union>i \<in> set is. S i)"
  using assms
proof (induction "is")
  case (Cons i "is")
  have a: "paints H W F (f i) (S i)" and b: "paints H W F (fold f is) (\<Union>i \<in> set is. S i)" using Cons by auto
  show ?case
    unfolding paints_def
  proof (intro allI impI conjI)
    fix g :: "'a list list" assume g: "shaped H W g"
    with a have s: "shaped H W (f i g)" by (simp add: paints_def)
    with b show "shaped H W (fold f (i # is) g)" by (simp add: paints_def)
    fix y x assume yx: "y < H" "x < W"
    show "fold f (i # is) g ! y ! x = (if (y, x) \<in> (\<Union>i \<in> set (i # is). S i) then F y x else g ! y ! x)"
      using a b g s yx unfolding paints_def by auto
  qed
qed (simp add: paints_def)

lemma replicate_shaped: "shaped H W (replicate H (replicate W v))"
  by (simp add: shaped_def)

text \<open>
  Block expansion is exact. For a rectangular block map and patterns of sixteen tiles, the tile grid has
  four rows and four columns for every block, and the tile at any position is the one that position has in
  the pattern of the block it lies in - a wall tile throughout when the block id is outside the block set.
\<close>

theorem expand_to_tile_grid_exact:
  assumes "shaped h w blocks" "0 < h" "y < 4 * h" "x < 4 * w"
  shows "shaped (4 * h) (4 * w) (expand_to_tile_grid blocks blockset)
    \<and> expand_to_tile_grid blocks blockset ! y ! x
      = block_pattern blockset (blocks ! (y div 4) ! (x div 4)) ! (4 * (y mod 4) + x mod 4)"
proof -
  let ?F = "\<lambda>y x. block_pattern blockset (blocks ! (y div 4) ! (x div 4)) ! (4 * (y mod 4) + x mod 4)"
  let ?H = "4 * h" and ?W = "4 * w"
  have hw: "length blocks = h" "(case blocks of [] \<Rightarrow> 0 | row # _ \<Rightarrow> length row) = w"
    using assms(1,2) by (auto simp: shaped_def split: list.splits)
  have tile: "paints ?H ?W ?F (set_tile (by * BLOCK_HEIGHT + ty) (bx * BLOCK_WIDTH + tx)
      (block_pattern blockset (blocks ! by ! bx) ! (ty * BLOCK_WIDTH + tx))) {(4 * by + ty, 4 * bx + tx)}"
    if "by < h" "bx < w" "ty < 4" "tx < 4" for "by" bx ty tx
  proof -
    have a: "by * BLOCK_HEIGHT + ty = 4 * by + ty" "bx * BLOCK_WIDTH + tx = 4 * bx + tx" "ty * BLOCK_WIDTH + tx = 4 * ty + tx"
      by (simp_all add: BLOCK_HEIGHT_def BLOCK_WIDTH_def)
    show ?thesis unfolding a by (rule set_tile_paints) (use that in auto)
  qed
  let ?S = "\<Union>by \<in> set [0..<h]. \<Union>bx \<in> set [0..<w]. \<Union>ty \<in> set [0..<4]. \<Union>tx \<in> set [0..<4]. {(4 * by + ty, 4 * bx + tx)}"
  have p: "paints ?H ?W ?F (fold (\<lambda>by. fold (\<lambda>bx. fold (\<lambda>ty. fold (\<lambda>tx. set_tile (by * BLOCK_HEIGHT + ty) (bx * BLOCK_WIDTH + tx)
      (block_pattern blockset (blocks ! by ! bx) ! (ty * BLOCK_WIDTH + tx))) [0..<4]) [0..<4]) [0..<w]) [0..<h]) ?S"
    by (intro fold_paints tile) auto
  have "(y, x) \<in> ?S"
    by (rule UN_I [of "y div 4"], use assms(3) in simp, rule UN_I [of "x div 4"], use assms(4) in simp,
        rule UN_I [of "y mod 4"], simp, rule UN_I [of "x mod 4"]) simp_all
  with p assms(3,4) replicate_shaped [of ?H ?W "0 :: int"]
  show ?thesis
    unfolding expand_to_tile_grid_def hw Let_def paints_def by (simp add: BLOCK_HEIGHT_def BLOCK_WIDTH_def mult.commute)
qed

theorem expand_to_tile_grid_exact_witness:
  "expand_to_tile_grid [[0, 1]] [map int [0..<16]] ! 2 ! 1 = 9 \<and> expand_to_tile_grid [[0, 1]] [map int [0..<16]] ! 3 ! 6 = 255"
  using expand_to_tile_grid_exact [of 1 2 "[[0, 1]]" 2 1 "[map int [0..<16]]"] expand_to_tile_grid_exact [of 1 2 "[[0, 1]]" 3 6 "[map int [0..<16]]"]
  by (simp add: shaped_def block_pattern_def)

subsection \<open>The collision list\<close>

text \<open>
  The passable tiles are exactly the bytes before the first terminator. When the bytes of a table of at most
  127 entries are all readable and a terminator follows them, the reader returns the table, and it raises
  when none of the 128 bytes it may read is a terminator.
\<close>

lemma collision_list_table:
  assumes "\<And>i. i < length bs \<Longrightarrow> byte_at m (a + int i) = Inr (bs ! i)" "255 \<notin> set bs" "byte_at m (a + int (length bs)) = Inr 255" "length bs < n"
  shows "collision_list m a n = Inr bs"
  using assms
proof (induction bs arbitrary: a n)
  case Nil
  then show ?case by (cases n) simp_all
next
  case (Cons b bs)
  from Cons.prems(4) obtain k where n: "n = Suc k" "length bs < k" by (cases n) auto
  have "byte_at m a = Inr b" using Cons.prems(1) [of 0] by simp
  moreover have "collision_list m (a + 1) k = Inr bs"
  proof (rule Cons.IH)
    show "byte_at m (a + 1 + int i) = Inr (bs ! i)" if "i < length bs" for i
      using Cons.prems(1) [of "Suc i"] that by (simp add: add.assoc)
    show "byte_at m (a + 1 + int (length bs)) = Inr 255" using Cons.prems(3) by (simp add: add.assoc)
  qed (use Cons.prems(2) n in auto)
  ultimately show ?case using Cons.prems(2) n by auto
qed

lemma collision_list_unterminated:
  "(\<And>i. i < n \<Longrightarrow> \<exists>b. byte_at m (a + int i) = Inr b \<and> b \<noteq> 255) \<Longrightarrow> collision_list m a n = Inl OtherException"
proof (induction n arbitrary: a)
  case (Suc n)
  from Suc.prems [of 0] obtain b where "byte_at m a = Inr b" "b \<noteq> 255" by auto
  moreover have "collision_list m (a + 1) n = Inl OtherException"
    by (rule Suc.IH) (use Suc.prems in \<open>force simp: add.assoc dest: spec [of _ "Suc _"]\<close>)
  ultimately show ?case by simp
qed simp

subsection \<open>The planned route\<close>

text \<open>The cells a route enters, one per press.\<close>

fun entered :: "terrain \<Rightarrow> cell \<Rightarrow> string \<Rightarrow> cell list" where
  "entered t c [] = []"
| "entered t c (ch # p) =
     (case find (\<lambda>d. fst d = ch) DIRS of
        None \<Rightarrow> []
      | Some d \<Rightarrow> (case press_to t c d of None \<Rightarrow> [] | Some n \<Rightarrow> n # entered t n p))"

lemma entered_passable: "n \<in> set (entered t c p) \<Longrightarrow> in_grid (passable t) n \<and> at_cell (passable t) n"
  by (induction p arbitrary: c) (auto split: option.splits dest!: press_in_grid [OF sym])

lemma force_cell_grid:
  assumes "shaped h w g" "in_grid g n" "at_cell (force_cell c g) n" "n \<noteq> c"
  shows "at_cell g n"
proof (cases "in_grid g c")
  case True
  obtain x y a b where xy: "n = (x, y)" "c = (a, b)" by (metis surj_pair)
  have n: "0 \<le> x" "0 \<le> y" "y < int (length g)" "0 \<le> a" "0 \<le> b" "b < int (length g)"
    using assms(2) True by (auto simp: in_grid_def grid_height_def xy)
  then have "nat y \<noteq> nat b \<or> nat x \<noteq> nat a" using assms(4) xy by auto
  with assms(3) True n show ?thesis
    by (auto simp: force_cell_def set_tile_def at_cell_def xy nth_list_update split: if_split_asm)
qed (use assms in \<open>simp add: force_cell_def\<close>)

lemma shaped_in_grid: "shaped h w g \<Longrightarrow> in_grid g (x, y) \<longleftrightarrow> 0 \<le> x \<and> x < int w \<and> 0 \<le> y \<and> y < int h"
proof (cases g)
  case (Cons row rows)
  assume s: "shaped h w g"
  then have "length row = w" using Cons unfolding shaped_def by (metis length_greater_0_conv list.distinct(1) nth_Cons_0)
  then show ?thesis using s Cons by (auto simp: shaped_def in_grid_def grid_width_def grid_height_def)
qed (auto simp: shaped_def in_grid_def grid_width_def grid_height_def)

lemma shaped_same_cells: "shaped h w g \<Longrightarrow> shaped h w g' \<Longrightarrow> in_grid g c \<longleftrightarrow> in_grid g' c"
  by (cases c) (simp add: shaped_in_grid)

lemma force_cell_shape:
  assumes "shaped h w g"
  shows "shaped h w (force_cell c g)"
proof -
  have "length (g[y := (g ! y)[x := v]] ! z) = w" if "z < h" for y x v z
    using assms that by (cases "z = y") (auto simp: shaped_def)
  then show ?thesis using assms by (auto simp: shaped_def force_cell_def set_tile_def)
qed

lemma passable_grid_shape: "shaped (mv_height v * 2) (mv_width v * 2) (passable_grid v)"
  by (simp add: shaped_def passable_grid_def)

lemma passable_grid_cell:
  assumes "in_grid (passable_grid v) c"
  shows "at_cell (passable_grid v) c \<longleftrightarrow> step_passable v c"
proof -
  obtain x y where c: "c = (x, y)" by (metis surj_pair)
  have "0 \<le> x" "x < int (mv_width v * 2)" "0 \<le> y" "y < int (mv_height v * 2)"
    using assms unfolding c shaped_in_grid [OF passable_grid_shape] by simp_all
  then show ?thesis unfolding c at_cell_def passable_grid_def by (simp add: nat_less_iff)
qed

text \<open>
  C34. A planned route is walkable. When planning returns a route, pressing it from the player's cell ends at
  the goal, and every cell it enters on the way, other than the player's own and the goal, which are forced
  walkable, is free of sprites and has a passable tile under the feet.
\<close>

theorem planned_route_walkable:
  assumes "plan_route v player goal = Inr (Route p)"
  shows "play (plan_terrain v player goal) player p = Some goal
    \<and> (\<forall>c \<in> set (entered (plan_terrain v player goal) player p). c = player \<or> c = goal
         \<or> c \<notin> set (mv_blockers v) \<and> step_passable v c)"
proof -
  let ?t = "plan_terrain v player goal"
  have r: "astar ?t player goal = Route p" using assms by (simp add: plan_route_def split: if_split_asm)
  have "c \<notin> set (mv_blockers v) \<and> step_passable v c" if c: "c \<in> set (entered ?t player p)" "c \<noteq> player" "c \<noteq> goal" for c
  proof -
    have s: "shaped (mv_height v * 2) (mv_width v * 2) (force_cell player (passable_grid v))"
      by (rule force_cell_shape [OF passable_grid_shape])
    have e: "in_grid (passable ?t) c" "at_cell (passable ?t) c" using entered_passable [OF c(1)] by auto
    then have g: "in_grid (force_cell player (passable_grid v)) c" "in_grid (passable_grid v) c"
      using shaped_same_cells [OF force_cell_shape [OF s] s] shaped_same_cells [OF s passable_grid_shape] by (auto simp: plan_terrain_def)
    have "at_cell (force_cell player (passable_grid v)) c"
      using force_cell_grid [OF s g(1) _ c(3)] e(2) by (simp add: plan_terrain_def)
    then have "step_passable v c"
      using force_cell_grid [OF passable_grid_shape g(2) _ c(2)] passable_grid_cell [OF g(2)] by blast
    then show ?thesis by (auto simp: step_passable_def split: prod.splits if_splits)
  qed
  moreover have "play ?t player p = Some goal"
  proof -
    have "in_grid (passable ?t) player" "in_grid (passable ?t) goal" "at_cell (passable ?t) goal"
      using r by (auto simp: astar_def split: if_split_asm)
    from astar_good [OF this] r show ?thesis by (simp add: good_route_def)
  qed
  ultimately show ?thesis by blast
qed

definition sample_view :: map_view where
  "sample_view = \<lparr>mv_tiles = replicate 4 (replicate 8 0x10), mv_width = 2, mv_height = 1, mv_tileset = 0, mv_passable = [0x10],
     mv_blockers = [(1, 0)], mv_model = ''single''\<rparr>"

theorem planned_route_walkable_witness:
  "\<exists>p. plan_route sample_view (0, 0) (2, 0) = Inr (Route p) \<and> (1, 0) \<notin> set (entered (plan_terrain sample_view (0, 0) (2, 0)) (0, 0) p)"
proof -
  have "case plan_route sample_view (0, 0) (2, 0) of Inr (Route p) \<Rightarrow> True | _ \<Rightarrow> False" by code_simp
  then obtain p where p: "plan_route sample_view (0, 0) (2, 0) = Inr (Route p)" by (auto split: sum.splits route.splits)
  from planned_route_walkable [OF p] have "(1, 0) \<notin> set (entered (plan_terrain sample_view (0, 0) (2, 0)) (0, 0) p)"
    by (auto simp: sample_view_def)
  with p show ?thesis by blast
qed

end
