(* ===== verification/Net_Wire.thy ===== *)
theory Net_Wire
  imports Prelude
begin

text \<open>
  The wire of the TCP backend (\<open>link/_network_backend_support.py\<close>, \<open>_recv_exactly\<close> and \<open>_send_frame\<close> of
  \<open>link/_network_backend_io_mixin.py\<close>): opcodes, frames, and the two loops that read and write them on a
  non-blocking socket. The socket is a script of what its polls and calls answer, so that every chunking,
  every short write and every failure of the socket is one script. The frame codec is shown to be
  independent of the script.
\<close>

section \<open>Constants and frames\<close>

definition OP_EDGE_REQ :: byte where "OP_EDGE_REQ = 0x10"
definition OP_EDGE_RESP :: byte where "OP_EDGE_RESP = 0x11"
definition OP_EDGE_REQ_ID :: byte where "OP_EDGE_REQ_ID = 0x12"
definition OP_EDGE_RESP_ID :: byte where "OP_EDGE_RESP_ID = 0x13"
definition OP_SYNC :: byte where "OP_SYNC = 0x20"
definition OP_NET_EXCHANGE :: byte where "OP_NET_EXCHANGE = 0x30"
definition OP_FRAME_TICK :: byte where "OP_FRAME_TICK = 0x40"
definition OP_FRAME_ACK :: byte where "OP_FRAME_ACK = 0x41"
definition OP_FRAME_DONE :: byte where "OP_FRAME_DONE = 0x42"
definition OP_NET_HELLO :: byte where "OP_NET_HELLO = 0x01"

lemmas opcode_defs = OP_EDGE_REQ_def OP_EDGE_RESP_def OP_EDGE_REQ_ID_def OP_EDGE_RESP_ID_def OP_SYNC_def
  OP_NET_EXCHANGE_def OP_FRAME_TICK_def OP_FRAME_ACK_def OP_FRAME_DONE_def OP_NET_HELLO_def

definition PROTOCOL_VERSION :: nat where "PROTOCOL_VERSION = 2"
definition EDGE_ID_MAX :: int where "EDGE_ID_MAX = 0xFFFFFFFF"
definition EDGE_RESPONSE_HISTORY_MAX :: nat where "EDGE_RESPONSE_HISTORY_MAX = 256"
definition CONTROL_QUEUE_MAXSIZE :: nat where "CONTROL_QUEUE_MAXSIZE = 256"
definition MAX_SERIAL_TRANSCRIPT_ENTRIES :: nat where "MAX_SERIAL_TRANSCRIPT_ENTRIES = 4096"

datatype rom = Red | Blue | Yellow

definition rom_code :: "rom \<Rightarrow> nat" where
  "rom_code r = (case r of Red \<Rightarrow> 1 | Blue \<Rightarrow> 2 | Yellow \<Rightarrow> 3)"

definition rom_of_code :: "nat \<Rightarrow> rom option" where
  "rom_of_code n = (if n = 1 then Some Red else if n = 2 then Some Blue else if n = 3 then Some Yellow else None)"

text \<open>What the backend raises: its own errors by their cause, errors of the operating system, and errors of arguments and callbacks.\<close>

datatype net_error =
    PeerClosed | ClosedMidFrame | FrameTimeout | PollFailed | SocketExceptional | SocketError
  | BackendClosed | SendTimeout | ZeroWrite | Cancelled
  | ZeroEdgeId | InvalidEdgeId int | DuplicateEdgeId nat | StaleEdgeId nat | EdgeIdsExhausted
  | UnsupportedProtocol nat | UnsupportedRomCode nat | DuplicateHello
  | InvalidRequestBit nat | InvalidResponseBit nat | RequestQueueFull | ResponseQueueFull | CoreDetached
  | NoLocalCore
  | UnsolicitedResponse | WrongResponseId "nat option" "nat option" | DuplicateResponse
  | InvalidPayload byte | DuplicateFrame byte | UnsolicitedAck
  | DuplicateSync nat | ControlQueueFull byte nat | UnknownOpcode nat
  | ConcurrentEdge | StaleResponse | NoResponse | NoFrame byte | PreviousTickInFlight | InvalidOwnerBit
  | ActiveExchange | CoreChanged | OwnerEdgeFailed net_error | CallbackFailed
  | HelloTimeout | HelloMismatch rom | NoHello | HeldResponse | FrameAborted | WireBusy
  | BadArgument exn

text \<open>A frame as the reader sees it: opcode, payload byte, the identifier of identified edges, the block of an exchange.\<close>

record net_frame =
  f_opcode :: byte
  f_payload :: byte
  f_id :: "nat option"
  f_data :: "byte list"

definition identified :: "byte \<Rightarrow> bool" where
  "identified opcode \<longleftrightarrow> opcode = OP_EDGE_REQ_ID \<or> opcode = OP_EDGE_RESP_ID"

definition plain :: "byte \<Rightarrow> nat \<Rightarrow> net_frame" where
  "plain opcode payload = \<lparr>f_opcode = opcode, f_payload = of_nat payload, f_id = None, f_data = []\<rparr>"

definition edge_request :: "nat \<Rightarrow> nat option \<Rightarrow> net_frame" where
  "edge_request b i = (plain (if i = None then OP_EDGE_REQ else OP_EDGE_REQ_ID) b)\<lparr>f_id := i\<rparr>"

definition edge_response :: "nat \<Rightarrow> nat option \<Rightarrow> net_frame" where
  "edge_response b i = (plain (if i = None then OP_EDGE_RESP else OP_EDGE_RESP_ID) b)\<lparr>f_id := i\<rparr>"

text \<open>The bytes of a frame: \<open>>BB\<close>, then \<open>>I\<close> for an identified edge, \<open>>H\<close> and the block for an exchange.\<close>

definition pack_frame :: "net_frame \<Rightarrow> byte list" where
  "pack_frame f = [f_opcode f, f_payload f]
     @ (case f_id f of None \<Rightarrow> [] | Some i \<Rightarrow> be_bytes 4 (int i))
     @ (if f_opcode f = OP_NET_EXCHANGE then be_bytes 2 (int (length (f_data f))) @ f_data f else [])"

text \<open>The frames that can be packed: an identifier exactly on identified edges, four bytes and not zero; a block only on an exchange, two bytes long in its length.\<close>

definition packable :: "net_frame \<Rightarrow> bool" where
  "packable f \<longleftrightarrow>
     (case f_id f of None \<Rightarrow> \<not> identified (f_opcode f) | Some i \<Rightarrow> identified (f_opcode f) \<and> 0 < i \<and> int i \<le> EDGE_ID_MAX)
     \<and> (if f_opcode f = OP_NET_EXCHANGE then length (f_data f) \<le> 0xFFFF else f_data f = [])"

section \<open>Reading\<close>

text \<open>
  What the socket answers to one round of the reading loop: data (no data is the end of the stream), nothing yet
  (an idle poll, an interrupted call, a spurious wake-up), a failed or exceptional poll, a failed \<open>recv\<close>, or the
  passing of the deadline of a started frame. A script that has run out is a socket that is still silent.
\<close>

datatype recv_answer = Readable "byte list" | Idle | Expired | Exceptional | PollError | RecvError

datatype 'a recv = Received 'a "recv_answer list" | Raised net_error "recv_answer list" | Waiting

function recv_loop :: "nat \<Rightarrow> byte list \<Rightarrow> recv_answer list \<Rightarrow> (byte list) recv" where
  "recv_loop n buf script =
     (if n \<le> length buf then Received buf script
      else case script of
        [] \<Rightarrow> Waiting
      | Idle # rest \<Rightarrow> recv_loop n buf rest
      | Expired # rest \<Rightarrow> if buf = [] then recv_loop n buf rest else Raised FrameTimeout rest
      | Exceptional # rest \<Rightarrow> Raised SocketExceptional rest
      | PollError # rest \<Rightarrow> Raised PollFailed rest
      | RecvError # rest \<Rightarrow> Raised SocketError rest
      | Readable bytes # rest \<Rightarrow>
          if bytes = [] then Raised (if buf = [] then PeerClosed else ClosedMidFrame) rest
          else let room = n - length buf
               in recv_loop n (buf @ take room bytes) (if length bytes \<le> room then rest else Readable (drop room bytes) # rest))"
  by pat_completeness auto
termination
  by (relation "measure (\<lambda>(n, buf, script). (n - length buf) + length script)") auto

declare recv_loop.simps [simp del]

definition recv_exactly :: "nat \<Rightarrow> recv_answer list \<Rightarrow> (byte list) recv" where
  "recv_exactly n script = recv_loop n [] script"

definition recv_bind :: "'a recv \<Rightarrow> ('a \<Rightarrow> recv_answer list \<Rightarrow> 'b recv) \<Rightarrow> 'b recv" where
  "recv_bind r f = (case r of Received x s \<Rightarrow> f x s | Raised e s \<Rightarrow> Raised e s | Waiting \<Rightarrow> Waiting)"

lemma recv_bind_simps [simp]:
  "recv_bind (Received x s) f = f x s" "recv_bind (Raised e s) f = Raised e s" "recv_bind Waiting f = Waiting"
  by (simp_all add: recv_bind_def)

text \<open>The reads of one round of the reader loop: the header, the identifier of an identified edge, the block of an exchange.\<close>

definition recv_edge_id :: "byte \<Rightarrow> recv_answer list \<Rightarrow> (nat option) recv" where
  "recv_edge_id opcode script =
     (if \<not> identified opcode then Received None script
      else recv_bind (recv_exactly 4 script) (\<lambda>raw script.
        let i = nat (be_int raw) in if i = 0 then Raised ZeroEdgeId script else Received (Some i) script))"

definition recv_block :: "byte \<Rightarrow> recv_answer list \<Rightarrow> (byte list) recv" where
  "recv_block opcode script =
     (if opcode \<noteq> OP_NET_EXCHANGE then Received [] script
      else recv_bind (recv_exactly 2 script) (\<lambda>raw script. recv_exactly (nat (be_int raw)) script))"

definition recv_frame :: "recv_answer list \<Rightarrow> net_frame recv" where
  "recv_frame script =
     recv_bind (recv_exactly 2 script) (\<lambda>header script.
     recv_bind (recv_edge_id (header ! 0) script) (\<lambda>i script.
     recv_bind (recv_block (header ! 0) script) (\<lambda>data script.
       Received \<lparr>f_opcode = header ! 0, f_payload = header ! 1, f_id = i, f_data = data\<rparr> script)))"

section \<open>Writing\<close>

text \<open>
  What the socket answers to one round of the writing loop: it takes some bytes, it would block and the poll that
  follows is uneventful, exceptional or fails, the call is interrupted, or it fails. A script that has run out is
  the end of the deadline, a cancellation or the close of the backend.
\<close>

datatype send_answer = Wrote nat | WouldBlock | WouldBlockExceptional | WouldBlockError | Interrupted | SendError

fun send_loop :: "byte list \<Rightarrow> send_answer list \<Rightarrow> (net_error + unit) \<times> byte list \<times> send_answer list" where
  "send_loop [] script = (Inr (), [], script)"
| "send_loop (b # bytes) [] = (Inl SendTimeout, [], [])"
| "send_loop (b # bytes) (a # script) =
     (case a of
        Wrote n \<Rightarrow>
          if n = 0 then (Inl ZeroWrite, [], script)
          else (case send_loop (drop n (b # bytes)) script of (r, out, rest) \<Rightarrow> (r, take n (b # bytes) @ out, rest))
      | WouldBlock \<Rightarrow> send_loop (b # bytes) script
      | Interrupted \<Rightarrow> send_loop (b # bytes) script
      | WouldBlockExceptional \<Rightarrow> (Inl SocketExceptional, [], script)
      | WouldBlockError \<Rightarrow> (Inl PollFailed, [], script)
      | SendError \<Rightarrow> (Inl SocketError, [], script))"

text \<open>A write puts a prefix of the frame on the wire, and the whole frame when it succeeds.\<close>

lemma send_loop_prefix:
  "send_loop bytes script = (r, out, rest) \<Longrightarrow> \<exists>after. bytes = out @ after \<and> (r = Inr () \<longrightarrow> after = [])"
proof (induction bytes script arbitrary: r out rest rule: send_loop.induct)
  case (3 b bytes a script)
  show ?case
  proof (cases "\<exists>n. a = Wrote n \<and> n \<noteq> 0")
    case True
    then obtain n where n: "a = Wrote n" "n \<noteq> 0" by blast
    obtain r' out' rest' where s: "send_loop (drop n (b # bytes)) script = (r', out', rest')" by (metis prod_cases3)
    from 3(1) [OF n s] obtain after where "drop n (b # bytes) = out' @ after" "r' = Inr () \<longrightarrow> after = []" by blast
    moreover have "r = r'" "out = take n (b # bytes) @ out'" using 3(4) n s by simp_all
    ultimately show ?thesis by (metis append.assoc append_take_drop_id)
  qed (use 3 in \<open>auto split: send_answer.splits if_splits\<close>)
qed auto


section \<open>Frames survive any chunking\<close>

text \<open>A socket that delivers data: any cutting of a byte sequence into nonempty pieces, with idle rounds in between.\<close>

definition live :: "recv_answer list \<Rightarrow> bool" where
  "live script \<longleftrightarrow> (\<forall>a \<in> set script. a = Idle \<or> (\<exists>bytes. a = Readable bytes \<and> bytes \<noteq> []))"

definition script_bytes :: "recv_answer list \<Rightarrow> byte list" where
  "script_bytes script = concat (map (\<lambda>a. case a of Readable bytes \<Rightarrow> bytes | _ \<Rightarrow> []) script)"

lemma script_bytes_simps [simp]:
  "script_bytes [] = []" "script_bytes (Idle # script) = script_bytes script"
  "script_bytes (Readable bytes # script) = bytes @ script_bytes script"
  by (simp_all add: script_bytes_def)

lemma live_simps [simp]:
  "live []" "live (Idle # script) = live script"
  "live (Readable bytes # script) \<longleftrightarrow> bytes \<noteq> [] \<and> live script"
  by (auto simp: live_def)

lemma live_cases:
  assumes "live script"
  obtains "script = []" | rest where "script = Idle # rest" "live rest"
  | bytes rest where "script = Readable bytes # rest" "bytes \<noteq> []" "live rest"
  using assms by (cases script) (auto simp: live_def)

lemma recv_loop_live:
  assumes "live script" "length buf \<le> n"
  shows "if n \<le> length buf + length (script_bytes script)
         then \<exists>rest. recv_loop n buf script = Received (buf @ take (n - length buf) (script_bytes script)) rest
              \<and> live rest \<and> script_bytes rest = drop (n - length buf) (script_bytes script)
         else recv_loop n buf script = Waiting"
  using assms
proof (induction n buf script rule: recv_loop.induct)
  case (1 n buf script)
  show ?case
  proof (cases "n \<le> length buf")
    case True
    then have "recv_loop n buf script = Received buf script" by (simp add: recv_loop.simps [of n buf script])
    with True 1(4,5) show ?thesis by simp
  next
    case False
    from 1(4) show ?thesis
    proof (cases rule: live_cases)
      case 1
      with False show ?thesis by (simp add: recv_loop.simps [of n buf "[]"])
    next
      case (2 rest)
      with False 1(2) [OF False 2(1) refl 2(2)] 1(5) show ?thesis by (simp add: recv_loop.simps [of n buf "Idle # rest"])
    next
      case (3 bytes rest)
      define room where "room = n - length buf"
      let ?rest = "if length bytes \<le> room then rest else Readable (drop room bytes) # rest"
      have r: "recv_loop n buf script = recv_loop n (buf @ take room bytes) ?rest"
        using False 3 by (subst recv_loop.simps) (simp add: room_def Let_def)
      have room: "room + length buf = n" using False by (simp add: room_def)
      have l: "live ?rest" using 3 by auto
      have "length (buf @ take room bytes) \<le> n" using room by simp
      from 1(1) [OF False 3(1) refl 3(2) room_def l this]
      show ?thesis unfolding r using room 3(1) by (auto simp: take_append split: if_splits)
    qed
  qed
qed

lemma recv_exactly_live:
  assumes "live script" "script_bytes script = bytes @ after" "n = length bytes"
  obtains rest where "recv_exactly n script = Received bytes rest" "live rest" "script_bytes rest = after"
  using recv_loop_live [OF assms(1), of "[]" n] assms(2,3) by (auto simp: recv_exactly_def)

lemma recv_frame_live:
  assumes "live script" "script_bytes script = pack_frame f @ after" "packable f"
  obtains rest where "recv_frame script = Received f rest" "live rest" "script_bytes rest = after"
proof -
  let ?id = "case f_id f of None \<Rightarrow> [] | Some i \<Rightarrow> be_bytes 4 (int i)"
  let ?n = "be_bytes 2 (int (length (f_data f)))"
  let ?block = "if f_opcode f = OP_NET_EXCHANGE then ?n @ f_data f else []"
  obtain s1 where s1: "recv_exactly 2 script = Received [f_opcode f, f_payload f] s1" "live s1" "script_bytes s1 = ?id @ ?block @ after"
  proof -
    have "script_bytes script = [f_opcode f, f_payload f] @ ?id @ ?block @ after"
      using assms(2) by (simp add: pack_frame_def)
    from recv_exactly_live [OF assms(1) this, of 2] that show ?thesis by auto
  qed
  obtain s2 where s2: "recv_edge_id (f_opcode f) s1 = Received (f_id f) s2" "live s2" "script_bytes s2 = ?block @ after"
  proof (cases "f_id f")
    case None
    with assms(3) s1 that show ?thesis by (simp add: recv_edge_id_def packable_def)
  next
    case (Some i)
    with assms(3) have i: "identified (f_opcode f)" "0 < i" "int i < 256 ^ 4" by (simp_all add: packable_def EDGE_ID_MAX_def)
    from Some s1(3) have "script_bytes s1 = be_bytes 4 (int i) @ ?block @ after" by simp
    from recv_exactly_live [OF s1(2) this, of 4] obtain s where
      s: "recv_exactly 4 s1 = Received (be_bytes 4 (int i)) s" "live s" "script_bytes s = ?block @ after" by auto
    have "nat (be_int (be_bytes 4 (int i))) = i" using i(3) by (simp add: byte_simps)
    with s i Some have "recv_edge_id (f_opcode f) s1 = Received (f_id f) s" by (simp add: recv_edge_id_def)
    from that [OF this s(2,3)] show ?thesis .
  qed
  obtain s3 where s3: "recv_block (f_opcode f) s2 = Received (f_data f) s3" "live s3" "script_bytes s3 = after"
  proof (cases "f_opcode f = OP_NET_EXCHANGE")
    case True
    with s2(3) have "script_bytes s2 = ?n @ f_data f @ after" by simp
    from recv_exactly_live [OF s2(2) this, of 2] obtain s where
      s: "recv_exactly 2 s2 = Received ?n s" "live s" "script_bytes s = f_data f @ after" by auto
    from recv_exactly_live [OF s(2,3) refl] obtain s' where
      s': "recv_exactly (length (f_data f)) s = Received (f_data f) s'" "live s'" "script_bytes s' = after" by auto
    have "int (length (f_data f)) < 256 ^ 2" using True assms(3) by (simp add: packable_def)
    then have "nat (be_int ?n) = length (f_data f)" by (simp add: byte_simps)
    with s s' True that show ?thesis by (simp add: recv_block_def)
  next
    case False
    with assms(3) s2 that show ?thesis by (simp add: recv_block_def packable_def)
  qed
  have "recv_frame script = Received f s3"
    using s1 s2 s3 by (simp add: recv_frame_def)
  from that [OF this s3(2,3)] show ?thesis .
qed

fun recv_frames :: "nat \<Rightarrow> recv_answer list \<Rightarrow> net_frame list \<times> recv_answer list" where
  "recv_frames 0 script = ([], script)"
| "recv_frames (Suc n) script =
     (case recv_frame script of
        Received f rest \<Rightarrow> (case recv_frames n rest of (fs, rest') \<Rightarrow> (f # fs, rest'))
      | _ \<Rightarrow> ([], script))"

text \<open>
  C10. However the socket cuts a sequence of well-formed frames into chunks, and however often it is idle in
  between, the reader recovers exactly those frames in order and leaves exactly the bytes that follow them.
\<close>

theorem frames_survive_chunking:
  assumes "live script" "list_all packable fs" "script_bytes script = concat (map pack_frame fs) @ after"
  shows "\<exists>rest. recv_frames (length fs) script = (fs, rest) \<and> live rest \<and> script_bytes rest = after"
  using assms
proof (induction fs arbitrary: script)
  case Nil
  then show ?case by simp
next
  case (Cons f fs)
  from Cons.prems obtain s where s: "recv_frame script = Received f s" "live s" "script_bytes s = concat (map pack_frame fs) @ after"
    by (auto elim: recv_frame_live [of script f "concat (map pack_frame fs) @ after"])
  from Cons.IH [OF s(2) _ s(3)] Cons.prems(2) s(1) show ?case by auto
qed

theorem frames_survive_chunking_witness:
  "\<exists>rest. recv_frames 2 [Readable [0x12], Idle, Readable [1, 0, 0], Readable [0, 7, 0x30, 9, 0], Readable [2, 65, 66, 0x20]]
     = ([edge_request 1 (Some 7), (plain OP_NET_EXCHANGE 9)\<lparr>f_data := [65, 66]\<rparr>], rest) \<and> script_bytes rest = [0x20]"
proof -
  let ?script = "[Readable [0x12], Idle, Readable [1, 0, 0], Readable [0, 7, 0x30, 9, 0], Readable [2, 65, 66, 0x20]]"
  let ?frames = "[edge_request 1 (Some 7), (plain OP_NET_EXCHANGE 9)\<lparr>f_data := [65, 66]\<rparr>]"
  have "live ?script" by simp
  moreover have "list_all packable ?frames"
    by (simp add: packable_def edge_request_def plain_def identified_def opcode_defs EDGE_ID_MAX_def)
  moreover have "be_bytes 4 7 = [0, 0, 0, 7]" "be_bytes 2 2 = [0, 2]" by (simp_all add: eval_nat_numeral)
  then have "script_bytes ?script = concat (map pack_frame ?frames) @ [0x20]"
    by (simp add: pack_frame_def edge_request_def plain_def opcode_defs)
  ultimately show ?thesis using frames_survive_chunking [of ?script ?frames "[0x20]"] by (simp add: numeral_2_eq_2) blast
qed

end
