(* ===== verification/Actions.thy ===== *)
theory Actions
  imports Prelude
begin

text \<open>
  Stateful code that may raise, as functions from a state to a result and a state, and their weakest
  preconditions. A raise keeps the changes made before it, as in the code; \<open>act_catch\<close> is an except clause
  and \<open>act_finally\<close> a finally clause.
\<close>

named_theorems wp_simps "weakest preconditions of actions"

type_synonym ('s, 'e, 'a) act = "'s \<Rightarrow> ('e + 'a) \<times> 's"

definition act_return :: "'a \<Rightarrow> ('s, 'e, 'a) act" where
  "act_return x s = (Inr x, s)"

definition act_raise :: "'e \<Rightarrow> ('s, 'e, 'a) act" where
  "act_raise e s = (Inl e, s)"

definition act_bind :: "('s, 'e, 'a) act \<Rightarrow> ('a \<Rightarrow> ('s, 'e, 'b) act) \<Rightarrow> ('s, 'e, 'b) act" where
  "act_bind m f s = (case m s of (Inl e, s') \<Rightarrow> (Inl e, s') | (Inr x, s') \<Rightarrow> f x s')"

definition act_then :: "('s, 'e, 'a) act \<Rightarrow> ('s, 'e, 'b) act \<Rightarrow> ('s, 'e, 'b) act" where
  "act_then m n = act_bind m (\<lambda>_. n)"

definition act_get :: "('s \<Rightarrow> 'a) \<Rightarrow> ('s, 'e, 'a) act" where
  "act_get f s = (Inr (f s), s)"

definition act_modify :: "('s \<Rightarrow> 's) \<Rightarrow> ('s, 'e, unit) act" where
  "act_modify f s = (Inr (), f s)"

definition act_unless :: "bool \<Rightarrow> ('s, 'e, unit) act \<Rightarrow> ('s, 'e, unit) act" where
  "act_unless b m = (if b then act_return () else m)"

definition act_catch :: "('s, 'e, 'a) act \<Rightarrow> ('e \<Rightarrow> ('s, 'e, 'a) act) \<Rightarrow> ('s, 'e, 'a) act" where
  "act_catch m h s = (case m s of (Inl e, s') \<Rightarrow> h e s' | (Inr x, s') \<Rightarrow> (Inr x, s'))"

text \<open>The final clause only changes the state; it does not raise.\<close>

definition act_finally :: "('s, 'e, 'a) act \<Rightarrow> ('s \<Rightarrow> 's) \<Rightarrow> ('s, 'e, 'a) act" where
  "act_finally m f s = (case m s of (r, s') \<Rightarrow> (r, f s'))"

text \<open>A cleanup whose own exceptions are swallowed.\<close>

definition act_try :: "('s, 'e, 'a) act \<Rightarrow> ('s, 'e, unit) act" where
  "act_try m = act_catch (act_then m (act_return ())) (\<lambda>_. act_return ())"

subsection \<open>Weakest preconditions\<close>

definition wp :: "('s, 'e, 'a) act \<Rightarrow> ('a \<Rightarrow> 's \<Rightarrow> bool) \<Rightarrow> ('e \<Rightarrow> 's \<Rightarrow> bool) \<Rightarrow> 's \<Rightarrow> bool" where
  "wp m Q E s \<longleftrightarrow> (case m s of (Inl e, s') \<Rightarrow> E e s' | (Inr x, s') \<Rightarrow> Q x s')"

lemma wp_return [wp_simps]: "wp (act_return x) Q E = Q x"
  by (simp add: fun_eq_iff wp_def act_return_def)

lemma wp_raise [wp_simps]: "wp (act_raise e) Q E = E e"
  by (simp add: fun_eq_iff wp_def act_raise_def)

lemma wp_bind [wp_simps]: "wp (act_bind m f) Q E = wp m (\<lambda>x. wp (f x) Q E) E"
  by (auto simp: fun_eq_iff wp_def act_bind_def split: prod.splits sum.splits)

lemma wp_then [wp_simps]: "wp (act_then m n) Q E = wp m (\<lambda>_. wp n Q E) E"
  by (simp add: act_then_def wp_bind)

lemma wp_get [wp_simps]: "wp (act_get f) Q E = (\<lambda>s. Q (f s) s)"
  by (simp add: fun_eq_iff wp_def act_get_def)

lemma wp_modify [wp_simps]: "wp (act_modify f) Q E = (\<lambda>s. Q () (f s))"
  by (simp add: fun_eq_iff wp_def act_modify_def)

lemma wp_unless [wp_simps]: "wp (act_unless b m) Q E = (if b then Q () else wp m Q E)"
  by (simp add: act_unless_def wp_return)

lemma wp_if [wp_simps]: "wp (if b then m else n) Q E = (if b then wp m Q E else wp n Q E)"
  by simp

lemma wp_catch [wp_simps]: "wp (act_catch m h) Q E = wp m Q (\<lambda>e. wp (h e) Q E)"
  by (auto simp: fun_eq_iff wp_def act_catch_def split: prod.splits sum.splits)

lemma wp_finally [wp_simps]: "wp (act_finally m f) Q E = wp m (\<lambda>x s'. Q x (f s')) (\<lambda>e s'. E e (f s'))"
  by (auto simp: fun_eq_iff wp_def act_finally_def split: prod.splits sum.splits)

lemma wp_try [wp_simps]: "wp (act_try m) Q E = wp m (\<lambda>_. Q ()) (\<lambda>_. Q ())"
  by (simp add: act_try_def wp_simps)

lemma wp_mono:
  "wp m Q E s \<Longrightarrow> (\<And>x s'. Q x s' \<Longrightarrow> Q' x s') \<Longrightarrow> (\<And>e s'. E e s' \<Longrightarrow> E' e s') \<Longrightarrow> wp m Q' E' s"
  by (auto simp: wp_def split: prod.splits sum.splits)

lemma wp_conj:
  "wp m Q E s \<Longrightarrow> wp m Q' E' s \<Longrightarrow> wp m (\<lambda>x s'. Q x s' \<and> Q' x s') (\<lambda>e s'. E e s' \<and> E' e s') s"
  by (auto simp: wp_def split: prod.splits sum.splits)

lemma wp_resultD: "wp m Q E s \<Longrightarrow> m s = (Inr x, s') \<Longrightarrow> Q x s'"
  by (simp add: wp_def)

lemma wp_errorD: "wp m Q E s \<Longrightarrow> m s = (Inl e, s') \<Longrightarrow> E e s'"
  by (simp add: wp_def)

lemma wpI: "(\<And>x s'. m s = (Inr x, s') \<Longrightarrow> Q x s') \<Longrightarrow> (\<And>e s'. m s = (Inl e, s') \<Longrightarrow> E e s') \<Longrightarrow> wp m Q E s"
  by (auto simp: wp_def split: prod.splits sum.splits)

subsection \<open>Relations an action keeps\<close>

text \<open>\<open>keeps R m\<close>: whatever the outcome, the new state is related to the old one by the preorder \<open>R\<close>.\<close>

definition keeps :: "('s \<Rightarrow> 's \<Rightarrow> bool) \<Rightarrow> ('s, 'e, 'a) act \<Rightarrow> bool" where
  "keeps R m \<longleftrightarrow> (\<forall>s. R s (snd (m s)))"

lemma keepsD: "keeps R m \<Longrightarrow> m s = (r, s') \<Longrightarrow> R s s'"
  by (metis keeps_def snd_conv)

lemma keeps_wp: "keeps R m \<Longrightarrow> wp m (\<lambda>_. R s) (\<lambda>_. R s) s"
  by (intro wpI) (auto dest: keepsD)

lemma keepsI: "(\<And>s r s'. m s = (r, s') \<Longrightarrow> R s s') \<Longrightarrow> keeps R m"
  by (auto simp: keeps_def) (metis prod.collapse)

named_theorems keeps_intros "actions that keep a preorder on states"

lemma keeps_return [keeps_intros]: "reflp R \<Longrightarrow> keeps R (act_return x)"
  by (simp add: keeps_def act_return_def reflp_def)

lemma keeps_raise [keeps_intros]: "reflp R \<Longrightarrow> keeps R (act_raise e)"
  by (simp add: keeps_def act_raise_def reflp_def)

lemma keeps_get [keeps_intros]: "reflp R \<Longrightarrow> keeps R (act_get f)"
  by (simp add: keeps_def act_get_def reflp_def)

lemma keeps_modify [keeps_intros]: "(\<And>s. R s (f s)) \<Longrightarrow> keeps R (act_modify f)"
  by (simp add: keeps_def act_modify_def)

lemma keeps_bind [keeps_intros]: "transp R \<Longrightarrow> keeps R m \<Longrightarrow> (\<And>x. keeps R (f x)) \<Longrightarrow> keeps R (act_bind m f)"
  unfolding keeps_def act_bind_def by (auto split: prod.splits sum.splits) (metis snd_conv transpE)+

lemma keeps_then [keeps_intros]: "transp R \<Longrightarrow> keeps R m \<Longrightarrow> keeps R n \<Longrightarrow> keeps R (act_then m n)"
  by (simp add: act_then_def keeps_bind)

lemma keeps_catch [keeps_intros]: "transp R \<Longrightarrow> keeps R m \<Longrightarrow> (\<And>e. keeps R (h e)) \<Longrightarrow> keeps R (act_catch m h)"
  unfolding keeps_def act_catch_def by (auto split: prod.splits sum.splits) (metis snd_conv transpE)+

lemma keeps_finally [keeps_intros]: "transp R \<Longrightarrow> keeps R m \<Longrightarrow> (\<And>s. R s (f s)) \<Longrightarrow> keeps R (act_finally m f)"
  unfolding keeps_def act_finally_def by (auto split: prod.splits) (metis snd_conv transpE)

lemma keeps_try [keeps_intros]: "reflp R \<Longrightarrow> transp R \<Longrightarrow> keeps R m \<Longrightarrow> keeps R (act_try m)"
  unfolding act_try_def by (intro keeps_intros)

lemma keeps_unless [keeps_intros]: "reflp R \<Longrightarrow> keeps R m \<Longrightarrow> keeps R (act_unless b m)"
  by (simp add: act_unless_def keeps_return)

lemma keeps_if [keeps_intros]: "keeps R m \<Longrightarrow> keeps R n \<Longrightarrow> keeps R (if b then m else n)"
  by simp

lemma keeps_option [keeps_intros]:
  "(v = None \<Longrightarrow> keeps R m) \<Longrightarrow> (\<And>x. v = Some x \<Longrightarrow> keeps R (f x)) \<Longrightarrow> keeps R (case v of None \<Rightarrow> m | Some x \<Rightarrow> f x)"
  by (cases v) auto

lemma keeps_pair [keeps_intros]: "(\<And>x y. keeps R (f x y)) \<Longrightarrow> keeps R (case z of (x, y) \<Rightarrow> f x y)"
  by (cases z) simp

subsection \<open>Invariants with a weaker form on exceptions\<close>

text \<open>\<open>stays I X m\<close>: from \<open>I\<close>, a result leaves \<open>I\<close> and an exception leaves \<open>X\<close>.\<close>

definition stays :: "('s \<Rightarrow> bool) \<Rightarrow> ('s \<Rightarrow> bool) \<Rightarrow> ('s, 'e, 'a) act \<Rightarrow> bool" where
  "stays I X m \<longleftrightarrow> (\<forall>s. I s \<longrightarrow> wp m (\<lambda>_. I) (\<lambda>_. X) s)"

named_theorems stays_intros "actions that keep an invariant"

lemma staysI: "(\<And>s. I s \<Longrightarrow> wp m (\<lambda>_. I) (\<lambda>_. X) s) \<Longrightarrow> stays I X m"
  by (simp add: stays_def)

lemma staysD: "stays I X m \<Longrightarrow> I s \<Longrightarrow> wp m (\<lambda>_. I) (\<lambda>_. X) s"
  by (simp add: stays_def)

lemma stays_return [stays_intros]: "stays I X (act_return x)"
  by (simp add: stays_def wp_simps)

lemma stays_raise [stays_intros]: "(\<And>s. I s \<Longrightarrow> X s) \<Longrightarrow> stays I X (act_raise e)"
  by (simp add: stays_def wp_simps)

lemma stays_get [stays_intros]: "stays I X (act_get f)"
  by (simp add: stays_def wp_simps)

lemma stays_modify [stays_intros]: "(\<And>s. I s \<Longrightarrow> I (f s)) \<Longrightarrow> stays I X (act_modify f)"
  by (simp add: stays_def wp_simps)

lemma stays_bind [stays_intros]: "stays I X m \<Longrightarrow> (\<And>x. stays I X (f x)) \<Longrightarrow> stays I X (act_bind m f)"
  by (auto simp: stays_def wp_simps elim!: wp_mono)

lemma stays_then [stays_intros]: "stays I X m \<Longrightarrow> stays I X n \<Longrightarrow> stays I X (act_then m n)"
  by (simp add: act_then_def stays_bind)

lemma stays_if [stays_intros]: "stays I X m \<Longrightarrow> stays I X n \<Longrightarrow> stays I X (if b then m else n)"
  by simp

lemma stays_unless [stays_intros]: "stays I X m \<Longrightarrow> stays I X (act_unless b m)"
  by (simp add: act_unless_def stays_return)

lemma stays_option [stays_intros]:
  "(v = None \<Longrightarrow> stays I X m) \<Longrightarrow> (\<And>x. v = Some x \<Longrightarrow> stays I X (f x)) \<Longrightarrow> stays I X (case v of None \<Rightarrow> m | Some x \<Rightarrow> f x)"
  by (cases v) auto

lemma stays_finally [stays_intros]:
  "stays I X m \<Longrightarrow> (\<And>s. I s \<Longrightarrow> I (f s)) \<Longrightarrow> (\<And>s. X s \<Longrightarrow> X (f s)) \<Longrightarrow> stays I X (act_finally m f)"
  by (auto simp: stays_def wp_simps elim!: wp_mono)

text \<open>What a handler does from the weaker form, with no result of its own.\<close>

lemma stays_catch:
  "stays I Y m \<Longrightarrow> (\<And>e s. Y s \<Longrightarrow> wp (h e) (\<lambda>_. I) (\<lambda>_. X) s) \<Longrightarrow> stays I X (act_catch m h)"
  by (auto simp: stays_def wp_simps elim!: wp_mono)

lemma stays_weaken: "stays I X m \<Longrightarrow> (\<And>s. X s \<Longrightarrow> X' s) \<Longrightarrow> stays I X' m"
  by (auto simp: stays_def elim!: wp_mono)

lemma keeps_stays:
  "keeps R m \<Longrightarrow> (\<And>s s'. I s \<Longrightarrow> R s s' \<Longrightarrow> I s') \<Longrightarrow> (\<And>s. I s \<Longrightarrow> X s) \<Longrightarrow> stays I X m"
  by (rule staysI, rule wp_mono [OF keeps_wp [of R]]) auto

end
