(* ===== verification/Net_Backend.thy ===== *)
theory Net_Backend
  imports Net_Wire Actions Serial_Core
begin

text \<open>
  The state of a TCP backend (\<open>link/network_backend.py\<close> and its mixins) and the operations every part of it
  shares: the diagnostic transcript, the edge identifiers, the close, the framed writes, the edge responses
  and the serial interrupt. The state is the object's attributes, grouped by the lock that guards them. Threads
  are steps over this state: a definition here is one critical section of the code. Locks, condition variables
  and thread handles are not attributes of the model. Times are the monotonic clock as integers.
\<close>

section \<open>State\<close>

text \<open>
  An inbound edge. The code compares held requests by object identity, so a request that is queued carries a
  reference of its own. \<open>ie_receipt\<close> says that a receipt event was attached to it.
\<close>

record inbound_edge =
  ie_ref :: nat
  ie_peer_bit :: nat
  ie_response_bit :: "nat option"
  ie_completed :: bool
  ie_deferred :: bool
  ie_error :: "net_error option"
  ie_id :: "nat option"
  ie_receipt :: bool

definition inbound :: "nat \<Rightarrow> nat \<Rightarrow> nat option \<Rightarrow> inbound_edge" where
  "inbound r b i = \<lparr>ie_ref = r, ie_peer_bit = b, ie_response_bit = None, ie_completed = False, ie_deferred = False,
     ie_error = None, ie_id = i, ie_receipt = False\<rparr>"

text \<open>Identifiers (\<open>_edge_id_lock\<close>): the next local one, and what is known of the peer's.\<close>

record edge_ids =
  next_edge_id :: nat
  highest_inbound :: nat
  ids_pending :: "nat set"
  id_responses :: "nat \<Rightarrow> nat option"
  id_order :: "nat list"

text \<open>The local master edge (\<open>_edge_response_lock\<close>).\<close>

record flight =
  edge_inflight :: bool
  inflight_id :: "nat option"
  response_seen :: bool
  recip_bit :: "nat option"
  recip_sent :: bool
  resp_queue :: "nat list"

text \<open>The frame barrier: three one-place queues and the leader's flag.\<close>

record turns =
  tick_queue :: nat
  done_queue :: nat
  ack_queue :: nat
  leader_inflight :: bool

record control =
  sync_queues :: "nat \<Rightarrow> (nat list) option"
  sync_pending :: "nat set"
  exchange_queues :: "nat \<Rightarrow> (byte list list) option"

text \<open>The transcript ring. Its records keep the event, the bits, identifiers and outcomes; not the time and the core's registers.\<close>

datatype ev_value = Num nat | Txt string | Null | Flag bool

record serial_event =
  ev_sequence :: nat
  ev_name :: string
  ev_fields :: "(string \<times> ev_value) list"

record ring =
  transcript :: "serial_event list option"
  ring_capacity :: nat
  ring_dropped :: nat
  ring_sequence :: nat

record pre_close =
  pc_held :: bool
  pc_pending :: nat
  pc_inflight :: bool
  pc_response_pending :: bool
  pc_error :: "net_error option"
  pc_stats :: "string \<Rightarrow> nat"

text \<open>
  Where the caller of \<open>on_edge\<close> stands: between two lock sections of the call, which other threads may fill. \<open>b\<close> is the
  bit it was called with, \<open>i\<close> the identifier of its edge, a request is a crossing one it has taken from the queue and owes
  an answer, and the last phases carry the answer or the failure of the edge.
\<close>

datatype edge_phase =
    EdgeIdle
  | Called nat
  | Releasing nat
  | Draining nat
  | Entering nat
  | StaleFound
  | InFlight nat
  | Counted nat "nat option"
  | Reserved nat "nat option" "inbound_edge option"
  | Written "nat option" inbound_edge
  | Answering "nat option" inbound_edge
  | Awaiting "nat option"
  | Looking "nat option"
  | Taken "nat option" nat
  | Consumed "nat option" nat
  | Failing net_error "inbound_edge option"
  | Unwinding net_error "inbound_edge option"
  | Clearing "net_error + nat option \<times> nat"

text \<open>
  \<open>master\<close> is that place; the code has it in the program counter and the local variables of the call.
  \<open>irq_callback\<close> is the owner's callback: whether its \<open>n\<close>-th call raises. \<open>incoming\<close> and \<open>outgoing\<close> are what the
  socket will answer to reads and writes, \<open>wire_out\<close> the bytes it has accepted.
\<close>

record net =
  local_rom :: "rom option"
  peer_rom :: "rom option"
  hello_received :: bool
  receiver_started :: bool
  dispatch_to_owner :: bool
  defer_bytes :: bool
  local_core :: "core option"
  core_detached :: bool
  irq_callback :: "(nat \<Rightarrow> bool) option"
  irq_calls :: nat
  clock_now :: int
  active_until :: int
  post_byte_until :: int
  consecutive_armed :: nat
  keepalive_idx :: nat
  edge_queue :: "inbound_edge option list"
  completed_queue :: "inbound_edge option list"
  held_response :: "inbound_edge option"
  owner_pending :: nat
  edge_pending :: nat
  generation :: nat
  next_ref :: nat
  ids :: edge_ids
  flight :: flight
  master :: edge_phase
  turns :: turns
  control :: control
  ring :: ring
  net_closed :: bool
  reader_exc :: "net_error option"
  pre_close_snapshot :: "pre_close option"
  stats :: "string \<Rightarrow> nat"
  incoming :: "recv_answer list"
  outgoing :: "send_answer list"
  wire_out :: "byte list"

type_synonym 'a net_act = "(net, net_error, 'a) act"

definition EDGE_QUEUE_MAXSIZE :: nat where "EDGE_QUEUE_MAXSIZE = 256"

definition new_ids :: edge_ids where
  "new_ids = \<lparr>next_edge_id = 1, highest_inbound = 0, ids_pending = {}, id_responses = Map.empty, id_order = []\<rparr>"

definition no_flight :: flight where
  "no_flight = \<lparr>edge_inflight = False, inflight_id = None, response_seen = False, recip_bit = None, recip_sent = False, resp_queue = []\<rparr>"

definition no_ring :: ring where
  "no_ring = \<lparr>transcript = None, ring_capacity = 0, ring_dropped = 0, ring_sequence = 0\<rparr>"

definition blank_backend :: "rom option \<Rightarrow> recv_answer list \<Rightarrow> send_answer list \<Rightarrow> net" where
  "blank_backend rom script sends =
     \<lparr>local_rom = rom, peer_rom = None, hello_received = False, receiver_started = False, dispatch_to_owner = False,
      defer_bytes = False, local_core = None, core_detached = False, irq_callback = None, irq_calls = 0, clock_now = 0,
      active_until = 0, post_byte_until = 0, consecutive_armed = 0, keepalive_idx = 0, edge_queue = [],
      completed_queue = [], held_response = None, owner_pending = 0, edge_pending = 0, generation = 0, next_ref = 0,
      ids = new_ids, flight = no_flight, master = EdgeIdle,
      turns = \<lparr>tick_queue = 0, done_queue = 0, ack_queue = 0, leader_inflight = False\<rparr>,
      control = \<lparr>sync_queues = Map.empty, sync_pending = {}, exchange_queues = Map.empty\<rparr>,
      ring = no_ring, net_closed = False, reader_exc = None, pre_close_snapshot = None, stats = (\<lambda>_. 0),
      incoming = script, outgoing = sends, wire_out = []\<rparr>"

section \<open>Updates\<close>

definition set_net :: "(net \<Rightarrow> net) \<Rightarrow> unit net_act" where
  "set_net f = act_modify f"

definition set_ids :: "(edge_ids \<Rightarrow> edge_ids) \<Rightarrow> unit net_act" where
  "set_ids f = act_modify (\<lambda>s. s\<lparr>ids := f (ids s)\<rparr>)"

definition set_flight :: "(flight \<Rightarrow> flight) \<Rightarrow> unit net_act" where
  "set_flight f = act_modify (\<lambda>s. s\<lparr>flight := f (flight s)\<rparr>)"

definition set_turns :: "(turns \<Rightarrow> turns) \<Rightarrow> unit net_act" where
  "set_turns f = act_modify (\<lambda>s. s\<lparr>turns := f (turns s)\<rparr>)"

definition set_control :: "(control \<Rightarrow> control) \<Rightarrow> unit net_act" where
  "set_control f = act_modify (\<lambda>s. s\<lparr>control := f (control s)\<rparr>)"

text \<open>A counter of the statistics.\<close>

definition bump :: "string \<Rightarrow> unit net_act" where
  "bump k = act_modify (\<lambda>s. s\<lparr>stats := (stats s)(k := stats s k + 1)\<rparr>)"

definition bump_if :: "bool \<Rightarrow> string \<Rightarrow> unit net_act" where
  "bump_if b k = act_unless (\<not> b) (bump k)"

lemma wp_bump [wp_simps]: "wp (bump k) Q E = (\<lambda>s. Q () (s\<lparr>stats := (stats s)(k := stats s k + 1)\<rparr>))"
  by (simp add: bump_def wp_modify)

lemma wp_bump_if [wp_simps]: "wp (bump_if b k) Q E = (\<lambda>s. if b then wp (bump k) Q E s else Q () s)"
  by (simp add: bump_if_def wp_simps fun_eq_iff)

lemma wp_set_flight [wp_simps]: "wp (set_flight f) Q E = (\<lambda>s. Q () (s\<lparr>flight := f (flight s)\<rparr>))"
  by (simp add: set_flight_def wp_modify)

lemma wp_set_ids [wp_simps]: "wp (set_ids f) Q E = (\<lambda>s. Q () (s\<lparr>ids := f (ids s)\<rparr>))"
  by (simp add: set_ids_def wp_modify)

lemma wp_set_net [wp_simps]: "wp (set_net f) Q E = (\<lambda>s. Q () (f s))"
  by (simp add: set_net_def wp_modify)

section \<open>The transcript\<close>

definition log_event :: "string \<Rightarrow> (string \<times> ev_value) list \<Rightarrow> ring \<Rightarrow> ring" where
  "log_event name fs r =
     (case transcript r of
        None \<Rightarrow> r
      | Some rs \<Rightarrow>
          let full = (length rs = ring_capacity r);
              n = ring_sequence r + 1;
              kept = (if full then drop 1 rs else rs)
          in r\<lparr>transcript := Some (kept @ [\<lparr>ev_sequence = n, ev_name = name, ev_fields = fs\<rparr>]),
               ring_dropped := ring_dropped r + of_bool full, ring_sequence := n\<rparr>)"

definition record_event :: "string \<Rightarrow> (string \<times> ev_value) list \<Rightarrow> unit net_act" where
  "record_event name fs = act_modify (\<lambda>s. s\<lparr>ring := log_event name fs (ring s)\<rparr>)"

lemma wp_record [wp_simps]: "wp (record_event name fs) Q E = (\<lambda>s. Q () (s\<lparr>ring := log_event name fs (ring s)\<rparr>))"
  by (simp add: record_event_def wp_modify)

definition opt_num :: "nat option \<Rightarrow> ev_value" where
  "opt_num v = (case v of None \<Rightarrow> Null | Some n \<Rightarrow> Num n)"

definition enable_serial_transcript :: "nat \<Rightarrow> unit net_act" where
  "enable_serial_transcript max_entries =
     (if \<not> (1 \<le> max_entries \<and> max_entries \<le> MAX_SERIAL_TRANSCRIPT_ENTRIES) then act_raise (BadArgument ValueError)
      else set_net (\<lambda>s. s\<lparr>ring := \<lparr>transcript = Some [], ring_capacity = max_entries, ring_dropped = 0, ring_sequence = 0\<rparr>\<rparr>))"

definition disable_serial_transcript :: "unit net_act" where
  "disable_serial_transcript = set_net (\<lambda>s. s\<lparr>ring := no_ring\<rparr>)"

text \<open>The diagnostics a caller reads: whether the ring is live, its capacity, what it dropped, its records.\<close>

definition snapshot_stats :: "net \<Rightarrow> bool \<times> nat \<times> nat \<times> serial_event list" where
  "snapshot_stats s = (case transcript (ring s) of
      None \<Rightarrow> (False, 0, 0, []) | Some rs \<Rightarrow> (True, ring_capacity (ring s), ring_dropped (ring s), rs))"

section \<open>Edge identifiers\<close>

definition edge_ids_enabled :: "net \<Rightarrow> bool" where
  "edge_ids_enabled s \<longleftrightarrow> local_rom s \<noteq> None \<and> peer_rom s \<noteq> None"

definition allocate_edge_id :: "nat net_act" where
  "allocate_edge_id = act_bind (act_get (next_edge_id \<circ> ids)) (\<lambda>i.
     if int i > EDGE_ID_MAX then act_raise EdgeIdsExhausted
     else act_then (set_ids (\<lambda>d. d\<lparr>next_edge_id := i + 1\<rparr>)) (act_return i))"

text \<open>\<open>None\<close> for an identifier that is new, the remembered bit for a replay.\<close>

definition claim_inbound_edge_id :: "nat \<Rightarrow> (nat option) net_act" where
  "claim_inbound_edge_id i =
     (if \<not> (1 \<le> i \<and> int i \<le> EDGE_ID_MAX) then act_raise (InvalidEdgeId (int i))
      else act_bind (act_get ids) (\<lambda>d.
        case id_responses d i of
          Some b \<Rightarrow> act_return (Some b)
        | None \<Rightarrow>
            if i \<in> ids_pending d then act_raise (DuplicateEdgeId i)
            else if i \<le> highest_inbound d then act_raise (StaleEdgeId i)
            else act_then (set_ids (\<lambda>d. d\<lparr>highest_inbound := i, ids_pending := insert i (ids_pending d)\<rparr>)) (act_return None)))"

definition release_id :: "nat option \<Rightarrow> edge_ids \<Rightarrow> edge_ids" where
  "release_id i d = (case i of None \<Rightarrow> d | Some n \<Rightarrow> d\<lparr>ids_pending := ids_pending d - {n}\<rparr>)"

definition release_inbound_edge_id :: "nat option \<Rightarrow> unit net_act" where
  "release_inbound_edge_id i = set_ids (release_id i)"

text \<open>The replay window is trimmed from its old end.\<close>

function evict :: "edge_ids \<Rightarrow> edge_ids" where
  "evict d =
     (if length (id_order d) > EDGE_RESPONSE_HISTORY_MAX
      then evict (d\<lparr>id_order := tl (id_order d), id_responses := (id_responses d)(hd (id_order d) := None)\<rparr>)
      else d)"
  by pat_completeness auto
termination
  by (relation "measure (\<lambda>d. length (id_order d))") auto

declare evict.simps [simp del]

definition remember_id :: "nat option \<Rightarrow> nat \<Rightarrow> edge_ids \<Rightarrow> edge_ids" where
  "remember_id i b d =
     (case i of
        None \<Rightarrow> d
      | Some n \<Rightarrow>
          let d' = release_id i d
          in if id_responses d' n \<noteq> None then d'
             else evict (d'\<lparr>id_responses := (id_responses d')(n \<mapsto> b mod 2), id_order := id_order d' @ [n]\<rparr>))"

definition remember_inbound_edge_response :: "nat option \<Rightarrow> nat \<Rightarrow> unit net_act" where
  "remember_inbound_edge_response i b = set_ids (remember_id i b)"

section \<open>Pending work and the close\<close>

definition notify_change :: "net \<Rightarrow> net" where
  "notify_change s = s\<lparr>generation := generation s + 1\<rparr>"

definition decrement_pending :: "net \<Rightarrow> net" where
  "decrement_pending s = notify_change (s\<lparr>edge_pending := edge_pending s - 1\<rparr>)"

text \<open>A bounded queue; a deferred request goes back to its head.\<close>

definition put_edge :: "inbound_edge option \<Rightarrow> inbound_edge option list \<Rightarrow> (inbound_edge option list) option" where
  "put_edge e q =
     (if length q \<ge> EDGE_QUEUE_MAXSIZE then None
      else Some (case e of Some r \<Rightarrow> if ie_deferred r then e # q else q @ [e] | None \<Rightarrow> q @ [e]))"

definition put_completed :: "inbound_edge option \<Rightarrow> inbound_edge option list \<Rightarrow> (inbound_edge option list) option" where
  "put_completed e q = (if length q \<ge> EDGE_QUEUE_MAXSIZE then None else Some (q @ [e]))"

definition signal_worker_stop :: "net \<Rightarrow> net" where
  "signal_worker_stop s =
     (if dispatch_to_owner s
      then (case put_completed None (completed_queue s) of None \<Rightarrow> s | Some q \<Rightarrow> s\<lparr>completed_queue := q\<rparr>)
      else (case put_edge None (edge_queue s) of None \<Rightarrow> s | Some q \<Rightarrow> s\<lparr>edge_queue := q\<rparr>))"

definition snapshot_before_close :: "net \<Rightarrow> pre_close" where
  "snapshot_before_close s =
     \<lparr>pc_held = (held_response s \<noteq> None), pc_pending = edge_pending s, pc_inflight = edge_inflight (flight s),
      pc_response_pending = (resp_queue (flight s) \<noteq> []), pc_error = reader_exc s, pc_stats = stats s\<rparr>"

text \<open>Terminal state, published once; the socket is closed with it.\<close>

definition net_close :: "net_error option \<Rightarrow> net \<Rightarrow> net" where
  "net_close e s =
     (if net_closed s then s
      else let s1 = s\<lparr>reader_exc := (if e = None then reader_exc s else e), net_closed := True, hello_received := True\<rparr>;
               s2 = s1\<lparr>pre_close_snapshot := Some (snapshot_before_close s1), edge_pending := 0, held_response := None\<rparr>
           in signal_worker_stop (notify_change s2))"

definition close_with :: "net_error \<Rightarrow> unit net_act" where
  "close_with e = act_modify (net_close (Some e))"

text \<open>Close, then raise.\<close>

lemma wp_close_with [wp_simps]: "wp (close_with e) Q E = (\<lambda>s. Q () (net_close (Some e) s))"
  by (simp add: close_with_def wp_modify)

definition close_raise :: "net_error \<Rightarrow> 'a net_act" where
  "close_raise e = act_then (close_with e) (act_raise e)"

text \<open>Run an action whose failure is terminal for the transport.\<close>

definition fatal :: "'a net_act \<Rightarrow> 'a net_act" where
  "fatal m = act_catch m close_raise"

section \<open>Framed writes\<close>

definition send_net_frame :: "net_frame \<Rightarrow> unit net_act" where
  "send_net_frame f s =
     (if net_closed s then (Inl BackendClosed, s)
      else case send_loop (pack_frame f) (outgoing s) of
             (r, out, rest) \<Rightarrow> (r, s\<lparr>outgoing := rest, wire_out := wire_out s @ out\<rparr>))"

text \<open>The response of a finished inbound edge. It is remembered for replays before its bytes are written.\<close>

definition response_outcome :: "inbound_edge \<Rightarrow> string \<Rightarrow> unit net_act" where
  "response_outcome r outcome = record_event ''edge_resp_send''
     [(''edge_bit'', opt_num (ie_response_bit r)), (''byte_complete'', Flag (ie_completed r)), (''edge_id'', opt_num (ie_id r)),
      (''outcome'', Txt outcome)]"

definition transmit_response :: "inbound_edge \<Rightarrow> nat \<Rightarrow> unit net_act" where
  "transmit_response r b =
     act_bind (act_get net_closed) (\<lambda>c. if c then act_raise BackendClosed else
     act_then (remember_inbound_edge_response (ie_id r) b)
     (act_then (send_net_frame (edge_response b (ie_id r)))
     (act_then (bump ''edge_resp_sent'') (bump_if (ie_id r \<noteq> None) ''edge_id_resp_sent''))))"

definition send_edge_response :: "inbound_edge \<Rightarrow> unit net_act" where
  "send_edge_response r =
     (case ie_error r of
        Some e \<Rightarrow> act_raise (OwnerEdgeFailed e)
      | None \<Rightarrow>
          (case ie_response_bit r of
             Some b \<Rightarrow>
               if b > 1 then act_raise InvalidOwnerBit
               else act_then (act_catch (transmit_response r b) (\<lambda>e. act_then (response_outcome r ''error'') (act_raise e)))
                      (response_outcome r ''success'')
           | None \<Rightarrow> act_raise InvalidOwnerBit))"

section \<open>The serial interrupt\<close>

definition irq_event :: "string \<Rightarrow> unit net_act" where
  "irq_event outcome = record_event ''irq_callback'' [(''byte_complete'', Flag True), (''outcome'', Txt outcome)]"

definition notify_completed_slave_irq :: "bool \<Rightarrow> unit net_act" where
  "notify_completed_slave_irq isolate =
     act_bind (act_get (\<lambda>s. (irq_callback s, irq_calls s))) (\<lambda>(callback, n).
       case callback of
         None \<Rightarrow> irq_event ''not_configured''
       | Some raises \<Rightarrow>
           act_then (bump ''irq_callbacks'') (act_then (set_net (\<lambda>s. s\<lparr>irq_calls := n + 1\<rparr>))
             (if raises n
              then act_then (bump_if isolate ''irq_callback_errors'') (act_then (irq_event ''error'')
                     (if isolate then act_return () else act_raise CallbackFailed))
              else irq_event ''success'')))"

end
