(* ===== verification/Net_Reader.thy ===== *)
theory Net_Reader
  imports Net_Backend
begin

text \<open>
  The reader of a TCP backend (\<open>_reader_loop\<close> and \<open>_send_reciprocal_master_response\<close> of
  \<open>link/_network_backend_owner_mixin.py\<close>): one definition for each opcode, the dispatch over them, and the round of
  the loop with its close. A round with no complete frame yet is not a step.
\<close>

section \<open>Inbound requests\<close>

text \<open>Answer a request that crosses the local master edge from the sampled bit; the flag says whether it was answered.\<close>

definition answer_crossing :: "nat \<Rightarrow> nat option \<Rightarrow> nat \<Rightarrow> unit net_act" where
  "answer_crossing peer i b =
     act_then (bump ''edge_req_received'')
     (act_then (bump ''reciprocal_master_edges'')
     (act_then (record_event ''reciprocal_master_edge''
        [(''edge_bit'', Num peer), (''response_bit'', Num b), (''edge_id'', opt_num i)])
     (send_edge_response ((inbound 0 peer i)\<lparr>ie_response_bit := Some b\<rparr>))))"

definition send_reciprocal_master_response :: "nat \<Rightarrow> nat option \<Rightarrow> bool net_act" where
  "send_reciprocal_master_response peer i =
     act_bind (act_get flight) (\<lambda>fl.
       if \<not> edge_inflight fl \<or> response_seen fl \<or> (i \<noteq> None \<and> recip_sent fl) then act_return False
       else act_then (act_unless (i = None) (set_flight (\<lambda>fl. fl\<lparr>recip_sent := True\<rparr>)))
         (case recip_bit fl of
            None \<Rightarrow> act_return False
          | Some b \<Rightarrow> act_then (answer_crossing peer i b) (act_return True)))"

text \<open>Admission to the owner's queue; a full queue releases the identifier and fails.\<close>

definition enqueue_request :: "nat \<Rightarrow> nat option \<Rightarrow> unit net_act" where
  "enqueue_request b i =
     act_bind (act_get (\<lambda>s. (next_ref s, edge_queue s))) (\<lambda>(r, q).
       case put_edge (Some (inbound r b i)) q of
         Some q' \<Rightarrow> set_net (\<lambda>s. notify_change (s\<lparr>edge_queue := q', next_ref := r + 1\<rparr>))
       | None \<Rightarrow> act_then (set_net decrement_pending) (act_then (release_inbound_edge_id i) (act_raise RequestQueueFull)))"

definition admit_request :: "nat \<Rightarrow> nat option \<Rightarrow> unit net_act" where
  "admit_request b i =
     act_bind (act_get (\<lambda>s. (core_detached s, net_closed s))) (\<lambda>(detached, c).
       if detached then act_raise CoreDetached
       else if c then act_return ()
       else act_then (set_net (\<lambda>s. s\<lparr>edge_pending := edge_pending s + 1\<rparr>))
         (act_then (record_event ''edge_req_received'' [(''edge_bit'', Num b), (''edge_id'', opt_num i)])
           (enqueue_request b i)))"

definition take_request :: "nat \<Rightarrow> nat option \<Rightarrow> unit net_act" where
  "take_request b i =
     act_bind (send_reciprocal_master_response b i) (\<lambda>answered. if answered then act_return () else admit_request b i)"

definition replay_response :: "nat \<Rightarrow> nat \<Rightarrow> nat \<Rightarrow> unit net_act" where
  "replay_response b i v =
     act_then (bump ''edge_id_duplicates_replayed'')
     (act_then (record_event ''edge_req_duplicate_replayed''
        [(''edge_bit'', Num b), (''edge_id'', Num i), (''response_bit'', Num v)])
     (send_edge_response ((inbound 0 b (Some i))\<lparr>ie_response_bit := Some v\<rparr>)))"

definition read_edge_request :: "nat \<Rightarrow> nat option \<Rightarrow> unit net_act" where
  "read_edge_request payload i =
     (if payload > 1 then act_raise (InvalidRequestBit payload)
      else case i of
        None \<Rightarrow> take_request payload None
      | Some n \<Rightarrow> act_bind (claim_inbound_edge_id n) (\<lambda>replay. case replay of
          Some b \<Rightarrow> replay_response payload n b
        | None \<Rightarrow> act_then (bump ''edge_id_req_received'') (take_request payload i)))"

section \<open>Inbound responses and control frames\<close>

definition read_edge_response :: "nat \<Rightarrow> nat option \<Rightarrow> unit net_act" where
  "read_edge_response payload i =
     (if payload > 1 then act_raise (InvalidResponseBit payload)
      else act_bind (act_get flight) (\<lambda>fl.
        if \<not> edge_inflight fl then act_raise UnsolicitedResponse
        else if inflight_id fl \<noteq> i then act_raise (WrongResponseId i (inflight_id fl))
        else if resp_queue fl \<noteq> [] then act_raise DuplicateResponse
        else act_then (set_flight (\<lambda>fl. fl\<lparr>resp_queue := [payload], response_seen := True\<rparr>))
          (act_then (bump_if (i \<noteq> None) ''edge_id_resp_received'')
          (act_then (record_event ''edge_resp_received'' [(''edge_bit'', Num payload), (''edge_id'', opt_num i)])
            (set_net notify_change)))))"

definition read_hello :: "nat \<Rightarrow> unit net_act" where
  "read_hello payload =
     (let protocol = payload div 16; code = payload mod 16
      in if protocol \<noteq> PROTOCOL_VERSION then act_raise (UnsupportedProtocol protocol)
         else case rom_of_code code of
           None \<Rightarrow> act_raise (UnsupportedRomCode code)
         | Some version \<Rightarrow> act_bind (act_get peer_rom) (\<lambda>known.
             if known \<noteq> None then act_raise DuplicateHello
             else set_net (\<lambda>s. s\<lparr>peer_rom := Some version, hello_received := True\<rparr>)))"

text \<open>The three markers of the frame barrier go to queues of one place.\<close>

definition read_frame_tick :: "byte \<Rightarrow> unit net_act" where
  "read_frame_tick payload =
     (if payload \<noteq> 0 then act_raise (InvalidPayload OP_FRAME_TICK)
      else act_bind (act_get turns) (\<lambda>t. if tick_queue t \<ge> 1 then act_raise (DuplicateFrame OP_FRAME_TICK)
        else act_then (set_turns (\<lambda>t. t\<lparr>tick_queue := tick_queue t + 1\<rparr>))
          (act_then (bump ''frame_ticks_received'') (set_net notify_change))))"

definition read_frame_done :: "byte \<Rightarrow> unit net_act" where
  "read_frame_done payload =
     (if payload \<noteq> 0 then act_raise (InvalidPayload OP_FRAME_DONE)
      else act_bind (act_get turns) (\<lambda>t. if done_queue t \<ge> 1 then act_raise (DuplicateFrame OP_FRAME_DONE)
        else act_then (set_turns (\<lambda>t. t\<lparr>done_queue := done_queue t + 1\<rparr>))
          (act_then (bump ''frame_dones_received'') (set_net notify_change))))"

definition read_frame_ack :: "byte \<Rightarrow> unit net_act" where
  "read_frame_ack payload =
     (if payload \<noteq> 0 then act_raise (InvalidPayload OP_FRAME_ACK)
      else act_bind (act_get turns) (\<lambda>t.
        if \<not> leader_inflight t then act_raise UnsolicitedAck
        else if ack_queue t \<ge> 1 then act_raise (DuplicateFrame OP_FRAME_ACK)
        else act_then (set_turns (\<lambda>t. t\<lparr>ack_queue := ack_queue t + 1\<rparr>))
          (act_then (bump ''frame_acks_received'') (set_net notify_change))))"

text \<open>\<open>setdefault\<close> of a queue.\<close>

definition queue_for :: "nat \<Rightarrow> (nat \<Rightarrow> ('a list) option) \<Rightarrow> 'a list" where
  "queue_for k m = (case m k of None \<Rightarrow> [] | Some q \<Rightarrow> q)"

definition read_sync :: "nat \<Rightarrow> unit net_act" where
  "read_sync k =
     act_bind (act_get control) (\<lambda>c.
       if k \<in> sync_pending c then act_raise (DuplicateSync k)
       else if length (queue_for k (sync_queues c)) \<ge> CONTROL_QUEUE_MAXSIZE then act_raise (ControlQueueFull OP_SYNC k)
       else act_then (set_control (\<lambda>c. c\<lparr>sync_queues := (sync_queues c)(k \<mapsto> queue_for k (sync_queues c) @ [k]),
                                       sync_pending := insert k (sync_pending c)\<rparr>))
         (act_then (bump ''sync_received'') (set_net notify_change)))"

definition read_exchange :: "nat \<Rightarrow> byte list \<Rightarrow> unit net_act" where
  "read_exchange k data =
     act_then (bump ''exchange_received'')
     (act_bind (act_get (\<lambda>s. queue_for k (exchange_queues (control s)))) (\<lambda>q.
       if length q \<ge> CONTROL_QUEUE_MAXSIZE then act_raise (ControlQueueFull OP_NET_EXCHANGE k)
       else act_then (set_control (\<lambda>c. c\<lparr>exchange_queues := (exchange_queues c)(k \<mapsto> q @ [data])\<rparr>)) (set_net notify_change)))"

section \<open>The loop\<close>

definition dispatch_frame :: "net_frame \<Rightarrow> unit net_act" where
  "dispatch_frame f =
     (let opcode = f_opcode f; payload = unat (f_payload f)
      in if opcode = OP_NET_HELLO then read_hello payload
         else if opcode = OP_EDGE_REQ \<or> opcode = OP_EDGE_REQ_ID then read_edge_request payload (f_id f)
         else if opcode = OP_EDGE_RESP \<or> opcode = OP_EDGE_RESP_ID then read_edge_response payload (f_id f)
         else if opcode = OP_FRAME_TICK then read_frame_tick (f_payload f)
         else if opcode = OP_FRAME_DONE then read_frame_done (f_payload f)
         else if opcode = OP_FRAME_ACK then read_frame_ack (f_payload f)
         else if opcode = OP_SYNC then read_sync payload
         else if opcode = OP_NET_EXCHANGE then read_exchange payload (f_data f)
         else act_raise (UnknownOpcode (unat opcode)))"

text \<open>The end of the loop: the peer's orderly close carries no error, everything else does.\<close>

definition reader_closes :: "net_error \<Rightarrow> net \<Rightarrow> net" where
  "reader_closes e = net_close (if e = PeerClosed then None else Some e)"

text \<open>One round; no result while the loop is over or the socket has no complete frame.\<close>

definition reader_round :: "net \<Rightarrow> net option" where
  "reader_round s =
     (if net_closed s then None
      else case recv_frame (incoming s) of
        Waiting \<Rightarrow> None
      | Raised e rest \<Rightarrow> Some (reader_closes e (s\<lparr>incoming := rest\<rparr>))
      | Received f rest \<Rightarrow>
          (case dispatch_frame f (s\<lparr>incoming := rest\<rparr>) of
             (Inl e, s') \<Rightarrow> Some (reader_closes e s')
           | (Inr _, s') \<Rightarrow> Some s'))"

end
