(* ===== verification/Net_Owner.thy ===== *)
theory Net_Owner
  imports Net_Reader
begin

text \<open>
  The side of the emulator owner (\<open>link/_network_backend_owner_mixin.py\<close>): the queued requests of the peer are
  applied to the local core between two instructions of the emulator, and their responses are published to a
  worker that only writes. A completed byte can be held until the owner's frame is over.
\<close>

section \<open>Applying an edge\<close>

definition core_armed :: "core \<Rightarrow> bool" where
  "core_armed c \<longleftrightarrow> transfer_enabled c \<and> \<not> internal_clock c"

text \<open>The next bit of the keep-alive byte 0xFE, most significant bit first.\<close>

definition keepalive_bit :: "nat \<Rightarrow> nat" where
  "keepalive_bit k = (if k = 7 then 0 else 1)"

definition step_keepalive :: "nat net_act" where
  "step_keepalive =
     act_bind (act_get keepalive_idx) (\<lambda>k.
       act_then (bump_if (k = 0) ''keepalive_bytes_started'')
       (act_then (bump ''keepalive_bits_sent'')
       (act_then (set_net (\<lambda>s. s\<lparr>keepalive_idx := (k + 1) mod 8\<rparr>)) (act_return (keepalive_bit k)))))"

definition apply_owner_keepalive :: "inbound_edge \<Rightarrow> inbound_edge net_act" where
  "apply_owner_keepalive r =
     act_then (bump ''edge_req_received'')
     (act_bind (act_get (\<lambda>s. clock_now s < active_until s)) (\<lambda>active.
       if active then act_raise ActiveExchange
       else act_bind step_keepalive (\<lambda>b.
         act_then (record_event ''owner_keepalive_applied''
           [(''edge_bit'', Num (ie_peer_bit r mod 2)), (''response_bit'', Num b), (''byte_complete'', Flag False)])
         (act_return (r\<lparr>ie_response_bit := Some b, ie_completed := False\<rparr>)))))"

text \<open>One authentic edge; the eighth raises the serial interrupt after the registers are committed.\<close>

definition commit_edge :: "core \<Rightarrow> nat \<Rightarrow> (nat \<times> bool) net_act" where
  "commit_edge c peer =
     (case apply_external_edge (odd peer) c of
        None \<Rightarrow> act_raise CoreChanged
      | Some (completed, c') \<Rightarrow>
          act_then (set_net (\<lambda>s. s\<lparr>local_core := Some c', keepalive_idx := 0\<rparr>)) (act_return (of_bool (peek_out_bit c), completed)))"

definition apply_owner_edge :: "inbound_edge \<Rightarrow> core \<Rightarrow> inbound_edge net_act" where
  "apply_owner_edge r c =
     (if \<not> transfer_enabled c \<or> internal_clock c then act_raise CoreChanged
      else act_bind (commit_edge c (ie_peer_bit r mod 2)) (\<lambda>(b, completed).
        act_then (bump ''edge_req_received'') (act_then (bump ''slave_armed_edges'')
        (act_then (record_event ''owner_edge_applied''
           [(''edge_bit'', Num (ie_peer_bit r mod 2)), (''response_bit'', Num b), (''byte_complete'', Flag completed)])
        (act_then (act_unless (\<not> completed) (notify_completed_slave_irq False))
          (act_return (r\<lparr>ie_response_bit := Some b, ie_completed := completed\<rparr>)))))))"

text \<open>\<open>None\<close>: the core is not ready, the request waits.\<close>

definition apply_owner_edge_if_ready :: "inbound_edge \<Rightarrow> (inbound_edge option) net_act" where
  "apply_owner_edge_if_ready r =
     act_bind (act_get local_core) (\<lambda>core. case core of
       None \<Rightarrow> act_raise NoLocalCore
     | Some c \<Rightarrow>
         if internal_clock c then
           if transfer_enabled c then act_return None
           else act_bind (apply_owner_keepalive r) (\<lambda>r'. act_return (Some r'))
         else if \<not> transfer_enabled c then
           act_then (record_event ''owner_edge_deferred'' [(''edge_bit'', Num (ie_peer_bit r mod 2)), (''reason'', Txt ''local_core_unarmed'')])
             (act_return None)
         else act_bind (apply_owner_edge r c) (\<lambda>r'. act_return (Some r')))"

section \<open>Publishing a response\<close>

definition settle_owner_response :: "net \<Rightarrow> net" where
  "settle_owner_response s = s\<lparr>owner_pending := owner_pending s - 1\<rparr>"

definition settle_if :: "bool \<Rightarrow> unit net_act" where
  "settle_if b = act_unless (\<not> b) (set_net settle_owner_response)"

definition publish_owner_response :: "inbound_edge \<Rightarrow> unit net_act" where
  "publish_owner_response r =
     act_bind (act_get (\<lambda>s. (net_closed s, completed_queue s))) (\<lambda>(c, q).
       if c then act_then (set_net decrement_pending) (settle_if (ie_receipt r))
       else case put_completed (Some r) q of
         Some q' \<Rightarrow> set_net (\<lambda>s. s\<lparr>completed_queue := q'\<rparr>)
       | None \<Rightarrow> act_then (close_with ResponseQueueFull) (act_then (set_net decrement_pending) (act_raise ResponseQueueFull)))"

text \<open>The token is the held request itself when their references agree.\<close>

definition release_owner_byte_response :: "inbound_edge \<Rightarrow> unit net_act" where
  "release_owner_byte_response token =
     act_bind (act_get (\<lambda>s. (net_closed s, held_response s))) (\<lambda>(c, held). case held of
       None \<Rightarrow> act_return ()
     | Some r \<Rightarrow>
         if c \<or> ie_ref r \<noteq> ie_ref token then act_return ()
         else act_then (set_net (\<lambda>s. s\<lparr>held_response := None, owner_pending := owner_pending s + 1\<rparr>))
           (act_catch (publish_owner_response r) (\<lambda>e. act_then (set_net settle_owner_response) (act_raise e))))"

section \<open>Servicing the queue\<close>

text \<open>Access to the core, which a detached backend refuses.\<close>

definition with_local_core :: "'a net_act \<Rightarrow> 'a net_act" where
  "with_local_core m = act_bind (act_get (\<lambda>s. (core_detached s, local_core s))) (\<lambda>(detached, core).
     if detached then act_raise CoreDetached else if core = None then act_raise NoLocalCore else m)"

datatype serviced = Stops | Applied inbound_edge | AppliedLast inbound_edge

text \<open>A request the owner failed to apply: the core is latched, the transport closes.\<close>

definition owner_edge_failed :: "net_error \<Rightarrow> 'a net_act" where
  "owner_edge_failed e =
     act_then (bump ''owner_edge_errors'')
     (act_then (set_net (\<lambda>s. s\<lparr>local_core := map_option (\<lambda>c. c\<lparr>backend_failed := True\<rparr>) (local_core s)\<rparr>))
     (act_then (close_with (OwnerEdgeFailed e)) (act_then (set_net decrement_pending) (act_raise (OwnerEdgeFailed e)))))"

definition put_back :: "inbound_edge \<Rightarrow> unit net_act" where
  "put_back r =
     act_then (bump ''owner_edge_deferred'')
     (act_bind (act_get edge_queue) (\<lambda>q. case put_edge (Some (r\<lparr>ie_deferred := True\<rparr>)) q of
        Some q' \<Rightarrow> set_net (\<lambda>s. s\<lparr>edge_queue := q'\<rparr>)
      | None \<Rightarrow> act_then (close_with RequestQueueFull) (act_then (set_net decrement_pending) (act_raise RequestQueueFull))))"

definition finish_applied :: "inbound_edge \<Rightarrow> serviced net_act" where
  "finish_applied r =
     act_then (bump ''owner_edge_applied'')
     (act_bind (act_get defer_bytes) (\<lambda>defer.
       if ie_completed r \<and> defer
       then act_then (set_net (\<lambda>s. if net_closed s then s else s\<lparr>held_response := Some (r\<lparr>ie_receipt := True\<rparr>)\<rparr>))
              (act_return (AppliedLast r))
       else act_then (publish_owner_response r) (act_return (Applied r))))"

definition service_request :: "inbound_edge \<Rightarrow> serviced net_act" where
  "service_request r =
     act_bind (act_get net_closed) (\<lambda>c.
       if c then act_then (set_net decrement_pending) (act_return Stops)
       else act_bind (act_catch (apply_owner_edge_if_ready r) owner_edge_failed) (\<lambda>ready.
         act_bind (act_get net_closed) (\<lambda>c.
           if c then act_then (set_net decrement_pending) (act_return Stops)
           else case ready of
             None \<Rightarrow> act_then (put_back r) (act_return Stops)
           | Some r' \<Rightarrow> finish_applied r')))"

definition service_one :: "serviced net_act" where
  "service_one =
     act_bind (act_get (\<lambda>s. (held_response s, edge_queue s))) (\<lambda>(held, q).
       if held \<noteq> None then act_return Stops
       else case q of
         [] \<Rightarrow> act_return Stops
       | e # rest \<Rightarrow> act_then (set_net (\<lambda>s. s\<lparr>edge_queue := rest\<rparr>))
           (case e of None \<Rightarrow> act_return Stops | Some r \<Rightarrow> service_request r))"

text \<open>The loop takes a request in every round but its last, so the length of the queue bounds it.\<close>

fun service_rounds :: "nat \<Rightarrow> nat option \<Rightarrow> nat \<Rightarrow> nat net_act" where
  "service_rounds 0 limit applied = act_return applied"
| "service_rounds (Suc n) limit applied =
     (if limit \<noteq> None \<and> \<not> applied < the limit then act_return applied
      else act_bind service_one (\<lambda>r. case r of
        Stops \<Rightarrow> act_return applied
      | AppliedLast _ \<Rightarrow> act_return (applied + 1)
      | Applied _ \<Rightarrow> service_rounds n limit (applied + 1)))"

definition service_pending_edges_locked :: "nat option \<Rightarrow> nat net_act" where
  "service_pending_edges_locked limit =
     act_bind (act_get (\<lambda>s. length (edge_queue s))) (\<lambda>n. service_rounds (Suc n) limit 0)"

definition service_pending_edges :: "int option \<Rightarrow> nat net_act" where
  "service_pending_edges limit =
     act_bind (act_get dispatch_to_owner) (\<lambda>owner.
       if \<not> owner then act_raise (BadArgument OtherException)
       else if (case limit of None \<Rightarrow> False | Some n \<Rightarrow> n \<le> 0) then act_raise (BadArgument ValueError)
       else with_local_core (service_pending_edges_locked (map_option nat limit)))"

definition begin_owner_frame :: "(inbound_edge option) net_act" where
  "begin_owner_frame = with_local_core (act_get held_response)"

definition finish_owner_frame :: "inbound_edge option \<Rightarrow> unit net_act" where
  "finish_owner_frame token = (case token of None \<Rightarrow> act_return () | Some r \<Rightarrow> with_local_core (release_owner_byte_response r))"

section \<open>The response worker\<close>

text \<open>One round of the worker: write the response, count it off and retire its receipt, whatever happens.\<close>

definition retire_response :: "inbound_edge \<Rightarrow> net \<Rightarrow> net" where
  "retire_response r s =
     (let s' = decrement_pending s in if ie_receipt r then settle_owner_response s' else s')"

definition respond :: "inbound_edge \<Rightarrow> unit net_act" where
  "respond r =
     act_finally
       (act_bind (act_get net_closed) (\<lambda>c. if c then act_return () else act_catch (send_edge_response r) close_with))
       (retire_response r)"

definition response_worker_round :: "net \<Rightarrow> net option" where
  "response_worker_round s =
     (if net_closed s then None
      else case completed_queue s of
        Some r # rest \<Rightarrow> Some (snd (respond r (s\<lparr>completed_queue := rest\<rparr>)))
      | _ \<Rightarrow> None)"

end
