(* ===== verification/Net_Edge.thy ===== *)
theory Net_Edge
  imports Net_Owner
begin

text \<open>
  The calls of the emulator's side that put frames on the wire and wait for the peer's
  (\<open>link/_network_backend_io_mixin.py\<close>, \<open>link/_network_backend_protocol_mixin.py\<close>,
  \<open>link/_network_backend_lifecycle_mixin.py\<close>): the master edge, the frame barrier, the markers and blocks, the
  handshake, and the attaching and detaching of a core. The master edge is split into its lock
  sections. Another blocking call is split where it waits: the part that writes, and the last round of its wait, in
  which the awaited frame is there or the deadline has passed.
\<close>

section \<open>Waiting on a queue\<close>

text \<open>
  The last round of \<open>_queue_get\<close>: a closed backend is noticed before the queue is looked at, and a queue that is
  still empty is the end of the deadline, which is terminal.
\<close>

definition queue_wait :: "(net \<Rightarrow> 'a option) \<Rightarrow> net_error \<Rightarrow> 'a net_act" where
  "queue_wait next timeout =
     act_bind (act_get (\<lambda>s. (net_closed s, next s))) (\<lambda>(c, v).
       if c then act_raise BackendClosed
       else case v of None \<Rightarrow> close_raise timeout | Some x \<Rightarrow> act_return x)"

section \<open>The master edge\<close>

text \<open>
  \<open>on_edge\<close> is one definition for each of its lock sections, and one for what runs between two of them; the reader, the
  owner and the response worker act in between. \<open>becomes\<close> moves the caller on. A call that raises before its edge is
  admitted leaves no trace of it, and one that raises later first runs its handler.
\<close>

definition becomes :: "edge_phase \<Rightarrow> unit net_act" where
  "becomes ph = set_net (\<lambda>s. s\<lparr>master := ph\<rparr>)"

definition leaves :: "unit net_act \<Rightarrow> unit net_act" where
  "leaves m = act_catch m (\<lambda>e. act_then (becomes EdgeIdle) (act_raise e))"

text \<open>
  Before a new edge the byte held for the owner's frame is released, and every released response must be on the wire.
  The last section is the end of that wait: nothing is owed any more, or the deadline has passed.
\<close>

definition held_outstanding :: "nat \<Rightarrow> unit net_act" where
  "held_outstanding b =
     act_bind (act_get (\<lambda>s. (held_response s, owner_pending s))) (\<lambda>(held, n).
       becomes (if held = None \<and> n = 0 then Entering b else Releasing b))"

definition release_held :: "nat \<Rightarrow> unit net_act" where
  "release_held b =
     leaves (act_then (with_local_core (act_bind (act_get held_response) (\<lambda>held. case held of
               None \<Rightarrow> act_return () | Some r \<Rightarrow> release_owner_byte_response r)))
       (becomes (Draining b)))"

definition held_written :: "nat \<Rightarrow> unit net_act" where
  "held_written b =
     leaves (act_bind (act_get (\<lambda>s. (net_closed s, owner_pending s))) (\<lambda>(c, n).
       if c then act_raise BackendClosed else if n = 0 then becomes (Entering b) else close_raise HeldResponse))"

text \<open>
  Admission, under the response lock: an answer that is still there, left behind by an earlier edge, is only noticed
  here and refused when the lock is given up. The identifier is taken before anything of the flight is set.
\<close>

definition admit_edge :: "nat \<Rightarrow> unit net_act" where
  "admit_edge b =
     leaves (act_bind (act_get (\<lambda>s. (net_closed s, flight s, edge_ids_enabled s))) (\<lambda>(c, fl, versioned).
       if c then act_raise BackendClosed
       else if edge_inflight fl then act_raise ConcurrentEdge
       else if resp_queue fl \<noteq> [] then becomes StaleFound
       else act_bind (if versioned then act_bind allocate_edge_id (\<lambda>i. act_return (Some i)) else act_return None) (\<lambda>i.
         act_then (set_flight (\<lambda>fl. fl\<lparr>edge_inflight := True, inflight_id := i, response_seen := False,
                                       recip_bit := Some (b mod 2), recip_sent := False\<rparr>))
           (becomes (InFlight b)))))"

definition refuse_stale :: "unit net_act" where
  "refuse_stale = leaves (close_raise StaleResponse)"

definition count_request :: "nat \<Rightarrow> unit net_act" where
  "count_request b =
     act_bind (act_get (inflight_id \<circ> flight)) (\<lambda>i.
       act_then (bump ''edge_req_sent'') (act_then (bump_if (i \<noteq> None) ''edge_id_req_sent'')
       (act_then (record_event ''edge_req_sent'' [(''edge_bit'', Num (b mod 2)), (''edge_id'', opt_num i)])
         (becomes (Counted b i)))))"

text \<open>A request of the peer that was queued just before our own edge is answered from the sampled bit.\<close>

definition reserve_queued_master_collision :: "(inbound_edge option) net_act" where
  "reserve_queued_master_collision =
     act_bind (act_get (\<lambda>s. (dispatch_to_owner s, edge_queue s, flight s))) (\<lambda>(owner, q, fl).
       if \<not> owner then act_return None
       else case q of
         [] \<Rightarrow> act_return None
       | None # rest \<Rightarrow> act_then (set_net (\<lambda>s. s\<lparr>edge_queue := rest @ [None]\<rparr>)) (act_return None)
       | Some r # rest \<Rightarrow>
           if recip_sent fl
           then act_then (set_net (\<lambda>s. s\<lparr>edge_queue := Some (r\<lparr>ie_deferred := True\<rparr>) # rest\<rparr>)) (act_return None)
           else act_then (set_net (\<lambda>s. s\<lparr>edge_queue := rest\<rparr>)) (act_then (set_flight (\<lambda>fl. fl\<lparr>recip_sent := True\<rparr>))
                  (act_return (Some (r\<lparr>ie_response_bit := recip_bit fl\<rparr>)))))"

definition reserve_collision :: "nat \<Rightarrow> nat option \<Rightarrow> unit net_act" where
  "reserve_collision b i = act_bind reserve_queued_master_collision (\<lambda>c. becomes (Reserved b i c))"

text \<open>Our request is written first, the answer of the crossing one after it.\<close>

definition write_request :: "nat \<Rightarrow> nat option \<Rightarrow> inbound_edge option \<Rightarrow> unit net_act" where
  "write_request b i c =
     act_catch (act_then (send_net_frame (edge_request (b mod 2) i))
         (becomes (case c of None \<Rightarrow> Awaiting i | Some r \<Rightarrow> Written i r)))
       (\<lambda>e. becomes (Failing e c))"

definition count_collision :: "nat option \<Rightarrow> inbound_edge \<Rightarrow> unit net_act" where
  "count_collision i r =
     act_then (bump ''edge_req_received'')
     (act_then (bump ''reciprocal_master_edges'')
     (act_then (record_event ''reciprocal_master_edge''
        [(''edge_bit'', Num (ie_peer_bit r)), (''response_bit'', opt_num (ie_response_bit r)), (''edge_id'', opt_num (ie_id r))])
       (becomes (Answering i r))))"

text \<open>Under the completion lock: the answer goes out and the request is counted off, or the handler still has it.\<close>

definition answer_collision :: "nat option \<Rightarrow> inbound_edge \<Rightarrow> unit net_act" where
  "answer_collision i r =
     act_then (becomes (Awaiting i))
       (act_catch (act_then (send_edge_response r) (set_net decrement_pending)) (\<lambda>e. becomes (Failing e (Some r))))"

text \<open>
  A round of the wait: the close is noticed before the queue is looked at. The look finds the answer, finds nothing
  and starts over, or comes after the deadline, which is terminal.
\<close>

definition look_for_answer :: "nat option \<Rightarrow> unit net_act" where
  "look_for_answer i = act_bind (act_get net_closed) (\<lambda>c. becomes (if c then Failing BackendClosed None else Looking i))"

definition take_answer :: "nat option \<Rightarrow> unit net_act" where
  "take_answer i =
     act_bind (act_get (resp_queue \<circ> flight)) (\<lambda>q. case q of
       [] \<Rightarrow> becomes (Awaiting i)
     | b # q' \<Rightarrow> act_then (set_flight (\<lambda>fl. fl\<lparr>resp_queue := q'\<rparr>)) (becomes (Taken i b)))"

definition wait_expires :: "unit net_act" where
  "wait_expires = act_then (close_with NoResponse) (becomes (Failing NoResponse None))"

definition note_answer :: "nat option \<Rightarrow> nat \<Rightarrow> unit net_act" where
  "note_answer i b =
     act_then (bump ''edge_resp_received'') (act_then (set_flight (\<lambda>fl. fl\<lparr>response_seen := True\<rparr>)) (becomes (Consumed i b)))"

definition record_answer :: "nat option \<Rightarrow> nat \<Rightarrow> unit net_act" where
  "record_answer i b =
     act_then (record_event ''edge_resp_consumed'' [(''edge_bit'', Num b), (''edge_id'', opt_num i)]) (becomes (Clearing (Inr (i, b))))"

text \<open>A failed edge closes the transport; a request still owed is counted off, and the flight is cleared in any case.\<close>

definition fail_edge :: "net_error \<Rightarrow> inbound_edge option \<Rightarrow> unit net_act" where
  "fail_edge e c = act_then (close_with e) (becomes (Unwinding e c))"

definition unwind_edge :: "net_error \<Rightarrow> inbound_edge option \<Rightarrow> unit net_act" where
  "unwind_edge e c = act_then (act_unless (c = None) (set_net decrement_pending)) (becomes (Clearing (Inl e)))"

definition clear_flight :: "net \<Rightarrow> net" where
  "clear_flight s = notify_change (s\<lparr>flight := (flight s)\<lparr>edge_inflight := False, inflight_id := None, response_seen := False,
     recip_bit := None, recip_sent := False\<rparr>\<rparr>)"

definition clear_edge :: "net_error + nat option \<times> nat \<Rightarrow> unit net_act" where
  "clear_edge v =
     act_then (set_net clear_flight) (act_then (becomes EdgeIdle) (case v of Inl e \<Rightarrow> act_raise e | Inr _ \<Rightarrow> act_return ()))"

text \<open>What the caller does next, wherever it stands.\<close>

fun edge_section :: "edge_phase \<Rightarrow> unit net_act" where
  "edge_section EdgeIdle = act_return ()"
| "edge_section (Called b) = held_outstanding b"
| "edge_section (Releasing b) = release_held b"
| "edge_section (Draining b) = held_written b"
| "edge_section (Entering b) = admit_edge b"
| "edge_section StaleFound = refuse_stale"
| "edge_section (InFlight b) = count_request b"
| "edge_section (Counted b i) = reserve_collision b i"
| "edge_section (Reserved b i c) = write_request b i c"
| "edge_section (Written i r) = count_collision i r"
| "edge_section (Answering i r) = answer_collision i r"
| "edge_section (Awaiting i) = look_for_answer i"
| "edge_section (Looking i) = take_answer i"
| "edge_section (Taken i b) = note_answer i b"
| "edge_section (Consumed i b) = record_answer i b"
| "edge_section (Failing e c) = fail_edge e c"
| "edge_section (Unwinding e c) = unwind_edge e c"
| "edge_section (Clearing v) = clear_edge v"

section \<open>The frame barrier\<close>

definition clear_leader :: "unit net_act" where
  "clear_leader = set_turns (\<lambda>t. t\<lparr>leader_inflight := False\<rparr>)"

definition begin_leader_turn :: "unit net_act" where
  "begin_leader_turn =
     act_bind (act_get (leader_inflight \<circ> turns)) (\<lambda>busy.
       if busy then act_raise PreviousTickInFlight
       else act_then (set_turns (\<lambda>t. t\<lparr>leader_inflight := True\<rparr>))
         (act_catch (act_then (send_net_frame (plain OP_FRAME_TICK 0)) (bump ''frame_ticks_sent''))
            (\<lambda>e. act_then clear_leader (close_raise e))))"

definition begin_follower_turn :: "unit net_act" where
  "begin_follower_turn =
     act_then (queue_wait (\<lambda>s. if tick_queue (turns s) = 0 then None else Some ()) (NoFrame OP_FRAME_TICK))
       (set_turns (\<lambda>t. t\<lparr>tick_queue := tick_queue t - 1\<rparr>))"

definition finish_leader_send :: "unit net_act" where
  "finish_leader_send =
     act_catch (act_then (send_net_frame (plain OP_FRAME_DONE 0)) (bump ''frame_dones_sent''))
       (\<lambda>e. act_then (close_with e) (act_then clear_leader (act_raise e)))"

definition finish_leader_wait :: "unit net_act" where
  "finish_leader_wait =
     act_finally
       (act_then (queue_wait (\<lambda>s. if ack_queue (turns s) = 0 then None else Some ()) (NoFrame OP_FRAME_ACK))
          (set_turns (\<lambda>t. t\<lparr>ack_queue := ack_queue t - 1\<rparr>)))
       (\<lambda>s. s\<lparr>turns := (turns s)\<lparr>leader_inflight := False\<rparr>\<rparr>)"

text \<open>
  One round of the follower's wait for FRAME_DONE after its progress callback: whether the marker was seen before or is
  taken now, and whether the frame can be acknowledged because no edge is pending.
\<close>

definition follower_round :: "bool \<Rightarrow> (bool \<times> bool) net_act" where
  "follower_round seen =
     act_bind (act_get (\<lambda>s. (net_closed s, done_queue (turns s)))) (\<lambda>(c, n).
       if c then act_raise BackendClosed
       else act_then (act_unless (seen \<or> n = 0) (set_turns (\<lambda>t. t\<lparr>done_queue := done_queue t - 1\<rparr>)))
         (act_get (\<lambda>s. (seen \<or> n > 0, (seen \<or> n > 0) \<and> edge_pending s = 0))))"

definition finish_follower_send :: "unit net_act" where
  "finish_follower_send = fatal (act_then (send_net_frame (plain OP_FRAME_ACK 0)) (bump ''frame_acks_sent''))"

definition abort_frame_turn :: "bool \<Rightarrow> unit net_act" where
  "abort_frame_turn leader = act_then (act_unless (\<not> leader) clear_leader) (close_with FrameAborted)"

section \<open>Markers and blocks\<close>

definition validate_id :: "pyval \<Rightarrow> nat net_act" where
  "validate_id v = (case v of
      PyInt n \<Rightarrow> if 0 \<le> n \<and> n \<le> 0xFF then act_return (nat n) else act_raise (BadArgument ValueError)
    | _ \<Rightarrow> act_raise (BadArgument TypeError))"

definition sync_queue :: "pyval \<Rightarrow> nat net_act" where
  "sync_queue v = act_bind (validate_id v) (\<lambda>k.
     act_then (set_control (\<lambda>c. c\<lparr>sync_queues := (sync_queues c)(k \<mapsto> queue_for k (sync_queues c))\<rparr>)) (act_return k))"

definition exchange_queue :: "pyval \<Rightarrow> nat net_act" where
  "exchange_queue v = act_bind (validate_id v) (\<lambda>k.
     act_then (set_control (\<lambda>c. c\<lparr>exchange_queues := (exchange_queues c)(k \<mapsto> queue_for k (exchange_queues c))\<rparr>)) (act_return k))"

definition send_sync :: "nat \<Rightarrow> unit net_act" where
  "send_sync k = act_then (bump ''sync_sent'') (fatal (send_net_frame (plain OP_SYNC k)))"

definition announce_sync :: "pyval \<Rightarrow> unit net_act" where
  "announce_sync v = act_bind (sync_queue v) send_sync"

definition take_sync :: "nat \<Rightarrow> control \<Rightarrow> control" where
  "take_sync k c = c\<lparr>sync_queues := (sync_queues c)(k \<mapsto> tl (queue_for k (sync_queues c))), sync_pending := sync_pending c - {k}\<rparr>"

definition poll_peer_sync :: "pyval \<Rightarrow> bool net_act" where
  "poll_peer_sync v = act_bind (sync_queue v) (\<lambda>k.
     act_bind (act_get (\<lambda>s. queue_for k (sync_queues (control s)))) (\<lambda>q.
       if q = [] then act_return False
       else act_then (set_control (take_sync k)) (act_then (bump ''sync_poll_hits'') (act_return True))))"

definition head_of :: "'a list \<Rightarrow> 'a option" where
  "head_of q = (case q of [] \<Rightarrow> None | x # _ \<Rightarrow> Some x)"

text \<open>\<open>sync_with_peer\<close> is \<open>announce_sync\<close> and then this wait; a failed wait closes the transport.\<close>

definition sync_wait :: "nat \<Rightarrow> unit net_act" where
  "sync_wait k =
     act_then (queue_wait (\<lambda>s. head_of (queue_for k (sync_queues (control s)))) (NoFrame OP_SYNC)) (set_control (take_sync k))"

definition exchange_send :: "pyval \<Rightarrow> byte list \<Rightarrow> nat net_act" where
  "exchange_send v payload = act_bind (validate_id v) (\<lambda>k.
     if length payload > 0xFFFF then act_raise (BadArgument ValueError)
     else act_then (exchange_queue v) (act_then (bump ''exchange_sent'')
       (act_then (fatal (send_net_frame ((plain OP_NET_EXCHANGE k)\<lparr>f_data := payload\<rparr>))) (act_return k))))"

definition exchange_wait :: "nat \<Rightarrow> byte list net_act" where
  "exchange_wait k =
     act_bind (queue_wait (\<lambda>s. head_of (queue_for k (exchange_queues (control s)))) (NoFrame OP_NET_EXCHANGE)) (\<lambda>data.
       act_then (set_control (\<lambda>c. c\<lparr>exchange_queues := (exchange_queues c)(k \<mapsto> tl (queue_for k (exchange_queues c)))\<rparr>))
         (act_return data))"

text \<open>One observation of \<open>wait_for_wire_idle\<close>: the wire is idle, still busy, or the backend is closed.\<close>

datatype wire_state = WireIdle | WireClosed | WireBusyNow

definition observe_wire :: "bool \<Rightarrow> wire_state net_act" where
  "observe_wire allow_peer_close =
     act_bind (act_get (\<lambda>s. (edge_pending s = 0 \<and> \<not> edge_inflight (flight s) \<and> resp_queue (flight s) = [], net_closed s, reader_exc s)))
       (\<lambda>(idle, c, e).
         if c then (if idle \<and> allow_peer_close \<and> e = None then act_return WireClosed else act_raise BackendClosed)
         else act_return (if idle then WireIdle else WireBusyNow))"

section \<open>Handshake and lifecycle\<close>

definition send_hello :: "rom \<Rightarrow> unit net_act" where
  "send_hello r = fatal (send_net_frame (plain OP_NET_HELLO (PROTOCOL_VERSION * 16 + rom_code r)))"

definition new_backend :: "rom option \<Rightarrow> recv_answer list \<Rightarrow> send_answer list \<Rightarrow> (net_error + unit) \<times> net" where
  "new_backend rom script sends =
     (case rom of None \<Rightarrow> act_return () | Some r \<Rightarrow> send_hello r) (blank_backend rom script sends)"

text \<open>The last round of \<open>wait_for_hello\<close>: the handshake event is set, or the deadline has passed.\<close>

definition net_wait_for_hello :: "rom option \<Rightarrow> (rom option) net_act" where
  "net_wait_for_hello expected =
     act_bind (act_get (\<lambda>s. (local_rom s, hello_received s, net_closed s, peer_rom s))) (\<lambda>(own, arrived, c, peer).
       if own = None then (if expected \<noteq> None then act_raise NoHello else act_return None)
       else if \<not> arrived then close_raise HelloTimeout
       else case peer of
         None \<Rightarrow> act_raise (if c then BackendClosed else NoHello)
       | Some version \<Rightarrow>
           if expected \<noteq> None \<and> expected \<noteq> Some version then close_raise (HelloMismatch version)
           else act_return (Some version))"

definition start_receiver :: "core option \<Rightarrow> (nat \<Rightarrow> bool) option \<Rightarrow> bool \<Rightarrow> bool \<Rightarrow> bool \<Rightarrow> unit net_act" where
  "start_receiver core callback shared_gate owner defer =
     (if defer \<and> \<not> owner then act_raise (BadArgument ValueError)
      else act_bind (act_get id) (\<lambda>s.
        if net_closed s then act_raise BackendClosed
        else if receiver_started s then
          if \<not> core_detached s then act_raise (BadArgument OtherException)
          else if owner \<noteq> dispatch_to_owner s then act_raise (BadArgument ValueError)
          else if edge_pending s \<noteq> 0 \<or> edge_queue s \<noteq> [] \<or> (dispatch_to_owner s \<and> completed_queue s \<noteq> []) \<or> held_response s \<noteq> None
          then act_raise WireBusy
          else set_net (\<lambda>s. s\<lparr>local_core := core, irq_callback := callback, defer_bytes := defer, core_detached := False\<rparr>)
        else if owner \<and> \<not> shared_gate then act_raise (BadArgument ValueError)
        else if core_detached s then act_raise CoreDetached
        else set_net (\<lambda>s. s\<lparr>local_core := core, irq_callback := callback, dispatch_to_owner := owner, defer_bytes := defer,
                            receiver_started := True\<rparr>)))"

text \<open>Detaching, once no operation uses the core: a byte held for the owner's frame makes it terminal.\<close>

definition detach_local_core :: "unit net_act" where
  "detach_local_core =
     act_bind (act_get core_detached) (\<lambda>already.
       act_then (set_net (\<lambda>s. s\<lparr>local_core := None, irq_callback := None, defer_bytes := False, core_detached := True\<rparr>))
         (if already then act_return ()
          else act_bind (act_get held_response) (\<lambda>held. act_unless (held = None) (close_with HeldResponse))))"

definition net_stop :: "unit net_act" where
  "net_stop = act_modify (net_close None)"

end
