(* ===== verification/Net_Worker.thy ===== *)
theory Net_Worker
  imports Net_Owner
begin

text \<open>
  The compatibility worker of a TCP backend (\<open>_handle_edge_req_impl\<close> of \<open>link/_network_backend_io_mixin.py\<close> and
  \<open>_edge_worker_loop\<close>): it applies the peer's edges itself, waits for a slave that is not armed yet, and falls
  back to the keep-alive byte. Times are milliseconds. The wait is given by what it ends with: the clock and the
  core then. Within one critical section the clock is read once.
\<close>

definition REARM_WAIT :: int where "REARM_WAIT = 100"
definition POST_BYTE_REARM_GRACE :: int where "POST_BYTE_REARM_GRACE = 1500"
definition ACTIVE_EXCHANGE_GRACE :: int where "ACTIVE_EXCHANGE_GRACE = 1000"
definition ACTIVE_EXCHANGE_EDGE_THRESHOLD :: nat where "ACTIVE_EXCHANGE_EDGE_THRESHOLD = 64"
definition ACTIVE_EXCHANGE_REARM_WAIT :: int where "ACTIVE_EXCHANGE_REARM_WAIT = 5000"

definition slave_armed :: "net \<Rightarrow> bool" where
  "slave_armed s \<longleftrightarrow> (case local_core s of None \<Rightarrow> False | Some c \<Rightarrow> core_armed c)"

definition rearm_deadline :: "net \<Rightarrow> int" where
  "rearm_deadline s =
     (let d = clock_now s + REARM_WAIT;
          d1 = (if clock_now s < post_byte_until s then max d (post_byte_until s) else d)
      in if clock_now s < active_until s then max d1 (clock_now s + ACTIVE_EXCHANGE_REARM_WAIT) else d1)"

text \<open>The wait: it succeeds when the core is seen armed before the deadline.\<close>

definition wait_for_rearm :: "int \<Rightarrow> core option \<Rightarrow> unit net_act" where
  "wait_for_rearm t core =
     act_bind (act_get (\<lambda>s. (clock_now s < post_byte_until s, clock_now s < active_until s, rearm_deadline s))) (\<lambda>(post, active, deadline).
       act_then (bump ''slave_rearm_waits'')
       (act_then (bump_if post ''slave_post_byte_rearm_waits'')
       (act_then (bump (if active then ''slave_active_rearm_waits'' else ''slave_idle_rearm_waits''))
       (act_then (set_net (\<lambda>s. s\<lparr>clock_now := t, local_core := core\<rparr>))
       (act_bind (act_get (\<lambda>s. t < deadline \<and> slave_armed s)) (\<lambda>seen.
         act_unless (\<not> seen)
           (act_then (bump ''slave_rearm_successes'')
             (act_unless (\<not> post)
               (act_then (bump ''slave_post_byte_rearm_successes'') (set_net (\<lambda>s. s\<lparr>post_byte_until := 0\<rparr>)))))))))))"

definition count_armed_edge :: "net \<Rightarrow> net" where
  "count_armed_edge s =
     (let n = stats s ''slave_armed_edges'' + 1
      in s\<lparr>stats := (stats s)(''slave_armed_edges'' := n), consecutive_armed := consecutive_armed s + 1,
           active_until := (if n \<ge> ACTIVE_EXCHANGE_EDGE_THRESHOLD then clock_now s + ACTIVE_EXCHANGE_GRACE else active_until s)\<rparr>)"

definition worker_edge :: "nat \<Rightarrow> (nat \<times> bool) net_act" where
  "worker_edge peer =
     act_then (set_net count_armed_edge)
     (act_bind (act_get local_core) (\<lambda>core. case core of
       None \<Rightarrow> act_raise NoLocalCore
     | Some c \<Rightarrow>
         act_bind (commit_edge c peer) (\<lambda>(b, completed).
         act_then (act_unless (\<not> completed) (set_net (\<lambda>s. s\<lparr>post_byte_until := clock_now s + POST_BYTE_REARM_GRACE\<rparr>)))
         (act_then (record_event ''worker_edge_applied''
            [(''edge_bit'', Num peer), (''response_bit'', Num b), (''byte_complete'', Flag completed)])
          (act_return (b, completed))))))"

definition worker_keepalive :: "nat \<Rightarrow> bool \<Rightarrow> bool \<Rightarrow> (nat \<times> bool) net_act" where
  "worker_keepalive peer active post =
     (if active then act_raise ActiveExchange
      else act_then (set_net (\<lambda>s. s\<lparr>consecutive_armed := 0\<rparr>))
        (act_then (bump_if post ''keepalive_after_post_byte_waits'')
        (act_bind step_keepalive (\<lambda>b.
          act_then (record_event ''worker_keepalive_applied''
            [(''edge_bit'', Num peer), (''response_bit'', Num b), (''byte_complete'', Flag False)])
          (act_return (b, False))))))"

text \<open>The response. A failed write closes the transport without an error.\<close>

definition worker_response :: "nat \<Rightarrow> bool \<Rightarrow> nat option \<Rightarrow> unit net_act" where
  "worker_response b completed i =
     (let r = (inbound 0 0 i)\<lparr>ie_response_bit := Some b, ie_completed := completed\<rparr>
      in act_catch (act_then (transmit_response r b) (response_outcome r ''success''))
           (\<lambda>_. act_then (record_event ''edge_resp_send''
                    [(''edge_bit'', Num b), (''byte_complete'', Flag completed), (''outcome'', Txt ''error'')])
                  (act_modify (net_close None))))"

definition handle_edge_req :: "int \<Rightarrow> core option \<Rightarrow> inbound_edge \<Rightarrow> unit net_act" where
  "handle_edge_req t core r =
     act_bind (act_get core_detached) (\<lambda>detached. if detached then act_raise CoreDetached else
     act_then (bump ''edge_req_received'')
     (act_bind (act_get (\<lambda>s. (clock_now s < active_until s, clock_now s < post_byte_until s, slave_armed s))) (\<lambda>(active, post, ready).
       act_then (act_unless ready (wait_for_rearm t core))
       (act_bind (act_get slave_armed) (\<lambda>armed.
       act_bind (if armed then worker_edge (ie_peer_bit r) else worker_keepalive (ie_peer_bit r) active post) (\<lambda>(b, completed).
         act_then (act_unless (\<not> completed) (notify_completed_slave_irq True))
           (worker_response (b mod 2) completed (ie_id r))))))))"

definition edge_worker_round :: "int \<Rightarrow> core option \<Rightarrow> net \<Rightarrow> net option" where
  "edge_worker_round t core s =
     (if net_closed s then None
      else case edge_queue s of
        Some r # rest \<Rightarrow>
          Some (snd (act_finally (act_catch (handle_edge_req t core r) close_with) decrement_pending (s\<lparr>edge_queue := rest\<rparr>)))
      | _ \<Rightarrow> None)"

end
