(* ===== verification/Net_Steps.thy ===== *)
theory Net_Steps
  imports Net_Edge Net_Worker
begin

text \<open>
  A TCP backend at work in owner-dispatch mode: the steps its threads and its environment can take, in any order, with
  what each of them reads, applies or answers, and the histories they build. The environment delivers bytes,
  accepts writes, lets time pass and lets the emulator change the core.
\<close>

datatype label = Read net_frame | Performed inbound_edge | Begun "nat option" | Answered "nat option" nat | Silent

text \<open>The calls of the owner and of its frame and session code that neither apply an edge nor return an answer.\<close>

inductive net_call :: "unit net_act \<Rightarrow> bool" where
  "net_call (finish_owner_frame token)"
| "net_call begin_leader_turn"
| "net_call begin_follower_turn"
| "net_call finish_leader_send"
| "net_call finish_leader_wait"
| "net_call (act_then (follower_round seen) (act_return ()))"
| "net_call finish_follower_send"
| "net_call (abort_frame_turn leader)"
| "net_call (announce_sync v)"
| "net_call (act_then (poll_peer_sync v) (act_return ()))"
| "net_call (sync_wait k)"
| "net_call (act_then (exchange_send v payload) (act_return ()))"
| "net_call (act_then (exchange_wait k) (act_return ()))"
| "net_call (act_then (observe_wire allow) (act_return ()))"
| "net_call (act_then (net_wait_for_hello expected) (act_return ()))"
| "net_call (start_receiver core callback shared True defer)"
| "net_call detach_local_core"
| "net_call net_stop"
| "net_call (enable_serial_transcript n)"
| "net_call disable_serial_transcript"

text \<open>
  The master edge is one call at a time (\<open>_edge_call_lock\<close>); its sections are steps of their own. One admits the edge,
  with the identifier it will have, and the last returns the answer. The other two ends of a wait are the deadlines:
  of the answer, and of the admission, which leaves no trace.
\<close>

definition edge_label :: "edge_phase \<Rightarrow> net \<Rightarrow> label" where
  "edge_label ph s =
     (case ph of
        Entering b \<Rightarrow> (if master s = InFlight b then Begun (inflight_id (flight s)) else Silent)
      | Clearing (Inr (i, b)) \<Rightarrow> Answered i b
      | _ \<Rightarrow> Silent)"

inductive net_step :: "net \<Rightarrow> label \<Rightarrow> net \<Rightarrow> bool" where
  deliver: "net_step s Silent (s\<lparr>incoming := incoming s @ arriving\<rparr>)"
| accept: "net_step s Silent (s\<lparr>outgoing := outgoing s @ answers\<rparr>)"
| elapse: "clock_now s \<le> t \<Longrightarrow> net_step s Silent (s\<lparr>clock_now := t\<rparr>)"
| emulate: "local_core s \<noteq> None \<Longrightarrow> net_step s Silent (s\<lparr>local_core := Some c\<rparr>)"
| read: "recv_frame (incoming s) = Received f rest \<Longrightarrow> reader_round s = Some s' \<Longrightarrow> net_step s (Read f) s'"
| read_fails: "recv_frame (incoming s) = Raised e rest \<Longrightarrow> reader_round s = Some s' \<Longrightarrow> net_step s Silent s'"
| perform: "dispatch_to_owner s \<Longrightarrow> with_local_core service_one s = (Inr r, s') \<Longrightarrow> r = Applied e \<or> r = AppliedLast e
    \<Longrightarrow> net_step s (Performed e) s'"
| postpone: "dispatch_to_owner s \<Longrightarrow> with_local_core service_one s = (Inr Stops, s') \<Longrightarrow> net_step s Silent s'"
| perform_fails: "dispatch_to_owner s \<Longrightarrow> with_local_core service_one s = (Inl err, s') \<Longrightarrow> net_step s Silent s'"
| respond: "dispatch_to_owner s \<Longrightarrow> response_worker_round s = Some s' \<Longrightarrow> net_step s Silent s'"
| enter: "master s = EdgeIdle \<Longrightarrow> \<not> net_closed s \<Longrightarrow> net_step s Silent (s\<lparr>master := Called b\<rparr>)"
| advance: "master s \<noteq> EdgeIdle \<Longrightarrow> edge_section (master s) s = (r, s') \<Longrightarrow> net_step s (edge_label (master s) s') s'"
| expire: "master s = Looking i \<Longrightarrow> wait_expires s = (r, s') \<Longrightarrow> net_step s Silent s'"
| abandon: "master s = Entering b \<Longrightarrow> net_step s Silent (s\<lparr>master := EdgeIdle\<rparr>)"
| call: "net_call m \<Longrightarrow> m s = (r, s') \<Longrightarrow> net_step s Silent s'"

inductive net_run :: "net \<Rightarrow> label list \<Rightarrow> net \<Rightarrow> bool" where
  created: "new_backend rom script sends = (Inr (), s) \<Longrightarrow> net_run s [] s"
| stepped: "net_run s0 h s \<Longrightarrow> net_step s l s' \<Longrightarrow> net_run s0 (h @ [l]) s'"

text \<open>What a history says.\<close>

definition performed_ids :: "label list \<Rightarrow> nat list" where
  "performed_ids h = concat (map (\<lambda>l. case l of Performed e \<Rightarrow> (case ie_id e of None \<Rightarrow> [] | Some i \<Rightarrow> [i]) | _ \<Rightarrow> []) h)"

definition answered_ids :: "label list \<Rightarrow> nat list" where
  "answered_ids h = concat (map (\<lambda>l. case l of Answered (Some i) b \<Rightarrow> [i] | _ \<Rightarrow> []) h)"

definition asked :: "label list \<Rightarrow> nat \<Rightarrow> nat option \<Rightarrow> bool" where
  "asked h b i \<longleftrightarrow> (\<exists>f. Read f \<in> set h \<and> f_opcode f \<in> {OP_EDGE_REQ, OP_EDGE_REQ_ID} \<and> unat (f_payload f) = b \<and> f_id f = i)"

definition heard :: "label list \<Rightarrow> nat option \<Rightarrow> nat \<Rightarrow> bool" where
  "heard h i b \<longleftrightarrow> (\<exists>f. Read f \<in> set h \<and> f_opcode f \<in> {OP_EDGE_RESP, OP_EDGE_RESP_ID} \<and> unat (f_payload f) = b \<and> f_id f = i)"

lemma performed_ids_append [simp]:
  "performed_ids (h @ [Read f]) = performed_ids h" "performed_ids (h @ [Silent]) = performed_ids h"
  "performed_ids (h @ [Answered i b]) = performed_ids h" "performed_ids (h @ [Begun i]) = performed_ids h"
  "performed_ids (h @ [Performed e]) = performed_ids h @ (case ie_id e of None \<Rightarrow> [] | Some i \<Rightarrow> [i])"
  by (simp_all add: performed_ids_def)

lemma answered_ids_append [simp]:
  "answered_ids (h @ [Read f]) = answered_ids h" "answered_ids (h @ [Silent]) = answered_ids h"
  "answered_ids (h @ [Performed e]) = answered_ids h" "answered_ids (h @ [Begun i]) = answered_ids h"
  "answered_ids (h @ [Answered i b]) = answered_ids h @ (case i of None \<Rightarrow> [] | Some n \<Rightarrow> [n])"
  by (simp_all add: answered_ids_def split: option.splits)

text \<open>
  The last thing the master edge did was to begin, with this identifier; and since then this bit was read for it.
\<close>

definition is_edge :: "label \<Rightarrow> bool" where
  "is_edge l \<longleftrightarrow> (case l of Begun _ \<Rightarrow> True | Answered _ _ \<Rightarrow> True | _ \<Rightarrow> False)"

definition awaited :: "label list \<Rightarrow> nat option \<Rightarrow> bool" where
  "awaited h i \<longleftrightarrow> (\<exists>h0 hm. h = h0 @ Begun i # hm \<and> (\<forall>l \<in> set hm. \<not> is_edge l))"

definition fresh :: "label list \<Rightarrow> nat option \<Rightarrow> nat \<Rightarrow> bool" where
  "fresh h i b \<longleftrightarrow> (\<exists>h0 hm. h = h0 @ Begun i # hm \<and> (\<forall>l \<in> set hm. \<not> is_edge l) \<and> heard hm i b)"

lemma is_edge_simps [simp]:
  "\<not> is_edge (Read f)" "\<not> is_edge (Performed e)" "\<not> is_edge Silent" "is_edge (Begun i)" "is_edge (Answered i b)"
  by (simp_all add: is_edge_def)

lemma awaited_begun [simp]: "awaited (h @ [Begun i]) i"
  unfolding awaited_def by (intro exI [of _ h] exI [of _ "[]"]) simp

lemma awaited_mono: "awaited h i \<Longrightarrow> \<not> is_edge l \<Longrightarrow> awaited (h @ [l]) i"
  unfolding awaited_def by (elim exE conjE) (rule_tac x=h0 in exI, rule_tac x="hm @ [l]" in exI, auto)

lemma asked_mono: "asked h b i \<Longrightarrow> asked (h @ ls) b i"
  by (auto simp: asked_def)

lemma heard_mono: "heard h i b \<Longrightarrow> heard (h @ ls) i b"
  by (auto simp: heard_def)

lemma fresh_mono: "fresh h i b \<Longrightarrow> \<not> is_edge l \<Longrightarrow> fresh (h @ [l]) i b"
  unfolding fresh_def
  by (elim exE conjE) (rule_tac x=h0 in exI, rule_tac x="hm @ [l]" in exI, auto intro: heard_mono)

lemma fresh_read:
  assumes "awaited (h @ [Read f]) (f_id f)" "f_opcode f \<in> {OP_EDGE_RESP, OP_EDGE_RESP_ID}"
  shows "fresh (h @ [Read f]) (f_id f) (unat (f_payload f))"
proof -
  obtain h0 hm where h: "h @ [Read f] = h0 @ Begun (f_id f) # hm" "\<forall>l \<in> set hm. \<not> is_edge l"
    using assms(1) by (auto simp: awaited_def)
  then have "Read f \<in> set hm" by (cases hm rule: rev_cases) auto
  with h assms(2) show ?thesis unfolding fresh_def heard_def by blast
qed

end
