(* ===== verification/Net_Invariant.thy ===== *)
theory Net_Invariant
  imports Net_Steps
begin

text \<open>
  The invariant of a TCP backend: its identifiers, the requests it has admitted, the count of pending work and the
  edge in flight, against the history of what was read, applied and answered. The operations are shown to keep
  it piece by piece; while a request is in hand, out of every queue, the invariant names it.
\<close>

section \<open>Identifiers\<close>

definition ids_ok :: "edge_ids \<Rightarrow> bool" where
  "ids_ok d \<longleftrightarrow> distinct (id_order d) \<and> set (id_order d) = dom (id_responses d) \<and> length (id_order d) \<le> EDGE_RESPONSE_HISTORY_MAX
     \<and> ids_pending d \<inter> dom (id_responses d) = {} \<and> (\<forall>i \<in> ids_pending d \<union> dom (id_responses d). 1 \<le> i \<and> i \<le> highest_inbound d)"

lemma evict_ranges:
  "ids_pending (evict d) = ids_pending d \<and> highest_inbound (evict d) = highest_inbound d \<and> next_edge_id (evict d) = next_edge_id d"
proof (induction d rule: evict.induct)
  case (1 d)
  then show ?case by (simp add: evict.simps [of d])
qed

lemmas evict_keeps [simp] = evict_ranges [THEN conjunct1] evict_ranges [THEN conjunct2, THEN conjunct1] evict_ranges [THEN conjunct2, THEN conjunct2]

lemma evict_window:
  "distinct (id_order d) \<Longrightarrow> set (id_order d) = dom (id_responses d) \<Longrightarrow>
   distinct (id_order (evict d)) \<and> set (id_order (evict d)) = dom (id_responses (evict d))
   \<and> length (id_order (evict d)) \<le> EDGE_RESPONSE_HISTORY_MAX \<and> dom (id_responses (evict d)) \<subseteq> dom (id_responses d)"
proof (induction d rule: evict.induct)
  case (1 d)
  show ?case
  proof (cases "length (id_order d) > EDGE_RESPONSE_HISTORY_MAX")
    case True
    let ?d = "d\<lparr>id_order := tl (id_order d), id_responses := (id_responses d)(hd (id_order d) := None)\<rparr>"
    from True obtain i rest where i: "id_order d = i # rest" by (cases "id_order d") auto
    have "distinct (id_order ?d)" using 1(2) i by simp
    moreover have "set (id_order ?d) = dom (id_responses ?d)" using 1(2,3) i by (auto simp: dom_def)
    ultimately have "distinct (id_order (evict ?d)) \<and> set (id_order (evict ?d)) = dom (id_responses (evict ?d))
        \<and> length (id_order (evict ?d)) \<le> EDGE_RESPONSE_HISTORY_MAX \<and> dom (id_responses (evict ?d)) \<subseteq> dom (id_responses ?d)"
      by (rule 1(1) [OF True])
    moreover have "dom (id_responses ?d) \<subseteq> dom (id_responses d)" by (auto split: if_splits)
    ultimately show ?thesis using True unfolding evict.simps [of d] if_P [OF True] by blast
  qed (use 1 in \<open>simp add: evict.simps [of d]\<close>)
qed

lemma release_keeps [simp]:
  "highest_inbound (release_id i d) = highest_inbound d" "next_edge_id (release_id i d) = next_edge_id d"
  "id_responses (release_id i d) = id_responses d" "id_order (release_id i d) = id_order d"
  "ids_pending (release_id i d) = ids_pending d - set_option i"
  by (simp_all add: release_id_def split: option.split)

lemma remember_keeps [simp]:
  "highest_inbound (remember_id i b d) = highest_inbound d" "next_edge_id (remember_id i b d) = next_edge_id d"
  "ids_pending (remember_id i b d) = ids_pending d - set_option i"
  by (simp_all add: remember_id_def Let_def split: option.split)

lemma release_ok: "ids_ok d \<Longrightarrow> ids_ok (release_id i d)"
  by (auto simp: ids_ok_def)

lemma remember_ok:
  assumes "ids_ok d" "\<And>n. i = Some n \<Longrightarrow> n \<in> ids_pending d \<or> n \<in> dom (id_responses d)"
  shows "ids_ok (remember_id i b d)"
proof (cases i)
  case (Some n)
  show ?thesis
  proof (cases "id_responses d n")
    case None
    let ?d = "(release_id i d)\<lparr>id_responses := (id_responses d)(n \<mapsto> b mod 2), id_order := id_order d @ [n]\<rparr>"
    have n: "n \<in> ids_pending d" "n \<notin> set (id_order d)" using assms Some None by (auto simp: ids_ok_def)
    have w: "distinct (id_order ?d)" "set (id_order ?d) = dom (id_responses ?d)"
      using assms(1) n(2) by (auto simp: ids_ok_def)
    have "remember_id i b d = evict ?d" using Some None by (simp add: remember_id_def Let_def)
    moreover have "ids_ok (evict ?d)"
      using evict_window [OF w] assms(1) n(1) Some unfolding ids_ok_def by auto blast+
    ultimately show ?thesis by simp
  qed (use assms(1) Some release_ok [OF assms(1), of i] in \<open>simp add: remember_id_def Let_def\<close>)
qed (use assms in \<open>simp add: remember_id_def\<close>)

section \<open>The invariant\<close>

fun requests :: "inbound_edge option list \<Rightarrow> inbound_edge list" where
  "requests [] = []"
| "requests (None # q) = requests q"
| "requests (Some r # q) = r # requests q"

lemma requests_append [simp]: "requests (p @ q) = requests p @ requests q"
  by (induction p rule: requests.induct) simp_all

text \<open>
  The work of a backend: what is queued, held or waiting for the response worker, and the crossing request in the hand of
  the master edge. Its identifier is claimed until its answer was tried.
\<close>

definition owed :: "net \<Rightarrow> inbound_edge list" where
  "owed s = requests (edge_queue s) @ (case held_response s of None \<Rightarrow> [] | Some r \<Rightarrow> [r]) @ requests (completed_queue s)"

fun to_answer :: "edge_phase \<Rightarrow> inbound_edge list" where
  "to_answer (Reserved b i (Some r)) = [r]"
| "to_answer (Written i r) = [r]"
| "to_answer (Answering i r) = [r]"
| "to_answer _ = []"

fun crossing :: "edge_phase \<Rightarrow> inbound_edge list" where
  "crossing (Failing e (Some r)) = [r]"
| "crossing (Unwinding e (Some r)) = [r]"
| "crossing ph = to_answer ph"

definition work :: "net \<Rightarrow> inbound_edge list" where
  "work s = owed s @ crossing (master s)"

definition claims :: "net \<Rightarrow> inbound_edge list" where
  "claims s = owed s @ to_answer (master s)"

lemmas work_defs = work_def claims_def owed_def

fun id_list :: "inbound_edge list \<Rightarrow> nat list" where
  "id_list [] = []"
| "id_list (r # rs) = (case ie_id r of None \<Rightarrow> [] | Some i \<Rightarrow> [i]) @ id_list rs"

lemma id_list_append [simp]: "id_list (p @ q) = id_list p @ id_list q"
  by (induction p) simp_all

text \<open>A queued request was read as it is and not yet performed.\<close>

definition queued_ok :: "label list \<Rightarrow> inbound_edge \<Rightarrow> bool" where
  "queued_ok h r \<longleftrightarrow> asked h (ie_peer_bit r) (ie_id r) \<and> (\<forall>i. ie_id r = Some i \<longrightarrow> i \<notin> set (performed_ids h))"

text \<open>
  From the admission to the last section an edge is in flight. While it waits, an answer in the queue was read for it
  and since it began; so is the one it has taken.
\<close>

fun in_flight :: "edge_phase \<Rightarrow> bool" where
  "in_flight EdgeIdle = False" | "in_flight (Called b) = False" | "in_flight (Releasing b) = False"
| "in_flight (Draining b) = False" | "in_flight (Entering b) = False" | "in_flight StaleFound = False"
| "in_flight _ = True"

definition answer_ok :: "label list \<Rightarrow> nat option \<Rightarrow> nat list \<Rightarrow> bool" where
  "answer_ok h i q \<longleftrightarrow> q = [] \<or> (\<exists>b. q = [b] \<and> fresh h i b)"

fun phase_ok :: "label list \<Rightarrow> nat option \<Rightarrow> nat list \<Rightarrow> edge_phase \<Rightarrow> bool" where
  "phase_ok h j q (InFlight b) = answer_ok h j q"
| "phase_ok h j q (Counted b i) = (i = j \<and> answer_ok h j q)"
| "phase_ok h j q (Reserved b i c) = (i = j \<and> answer_ok h j q)"
| "phase_ok h j q (Written i r) = (i = j \<and> answer_ok h j q)"
| "phase_ok h j q (Answering i r) = (i = j \<and> answer_ok h j q)"
| "phase_ok h j q (Awaiting i) = (i = j \<and> answer_ok h j q)"
| "phase_ok h j q (Looking i) = (i = j \<and> answer_ok h j q)"
| "phase_ok h j q (Taken i b) = (i = j \<and> fresh h j b)"
| "phase_ok h j q (Consumed i b) = (i = j \<and> fresh h j b)"
| "phase_ok h j q (Clearing (Inr (i, b))) = (i = j \<and> fresh h j b)"
| "phase_ok h j q _ = True"

definition flight_ok :: "label list \<Rightarrow> net \<Rightarrow> bool" where
  "flight_ok h s \<longleftrightarrow>
     edge_inflight (flight s) = in_flight (master s)
     \<and> (in_flight (master s) \<longrightarrow> awaited h (inflight_id (flight s)))
     \<and> phase_ok h (inflight_id (flight s)) (resp_queue (flight s)) (master s)
     \<and> (\<forall>i. inflight_id (flight s) = Some i \<longrightarrow> i < next_edge_id (ids s) \<and> i \<notin> set (answered_ids h))
     \<and> distinct (answered_ids h) \<and> (\<forall>i \<in> set (answered_ids h). i < next_edge_id (ids s))"

definition net_ok :: "nat \<Rightarrow> nat list \<Rightarrow> label list \<Rightarrow> net \<Rightarrow> bool" where
  "net_ok n held h s \<longleftrightarrow>
     ids_ok (ids s) \<and> distinct (held @ id_list (claims s)) \<and> set (held @ id_list (claims s)) \<subseteq> ids_pending (ids s)
     \<and> (\<forall>r \<in> set (requests (edge_queue s)). queued_ok h r)
     \<and> distinct (performed_ids h) \<and> (\<forall>i \<in> set (performed_ids h). i \<le> highest_inbound (ids s))
     \<and> edge_pending s = (if net_closed s then 0 else length (work s) + n) \<and> flight_ok h s"

section \<open>What keeps it\<close>

definition stable :: "('s \<Rightarrow> bool) \<Rightarrow> 's \<Rightarrow> 's \<Rightarrow> bool" where
  "stable P s s' \<longleftrightarrow> (P s \<longrightarrow> P s')"

lemma stable_preorder [simp]: "reflp (stable P)" "transp (stable P)"
  by (auto simp: stable_def reflp_def transp_def)

definition net_view ::
  "net \<Rightarrow> edge_ids \<times> inbound_edge option list \<times> inbound_edge option list \<times> inbound_edge option \<times> nat \<times> flight \<times> edge_phase \<times> bool" where
  "net_view s = (ids s, edge_queue s, completed_queue s, held_response s, edge_pending s, flight s, master s, net_closed s)"

lemma net_ok_view: "net_view s' = net_view s \<Longrightarrow> net_ok n k h s' = net_ok n k h s"
proof -
  assume "net_view s' = net_view s"
  then have e: "ids s' = ids s" "edge_queue s' = edge_queue s" "completed_queue s' = completed_queue s"
    "held_response s' = held_response s" "edge_pending s' = edge_pending s" "flight s' = flight s" "master s' = master s" "net_closed s' = net_closed s"
    by (simp_all add: net_view_def)
  show ?thesis unfolding net_ok_def work_defs flight_ok_def e ..
qed

lemma net_ok_updates [simp]:
  "net_ok n k h (s\<lparr>stats := a\<rparr>) = net_ok n k h s" "net_ok n k h (s\<lparr>ring := b\<rparr>) = net_ok n k h s"
  "net_ok n k h (s\<lparr>local_core := c\<rparr>) = net_ok n k h s" "net_ok n k h (s\<lparr>keepalive_idx := d\<rparr>) = net_ok n k h s"
  "net_ok n k h (s\<lparr>irq_calls := d\<rparr>) = net_ok n k h s" "net_ok n k h (s\<lparr>turns := e\<rparr>) = net_ok n k h s"
  "net_ok n k h (s\<lparr>control := f\<rparr>) = net_ok n k h s" "net_ok n k h (s\<lparr>incoming := g\<rparr>) = net_ok n k h s"
  "net_ok n k h (s\<lparr>outgoing := i\<rparr>) = net_ok n k h s" "net_ok n k h (s\<lparr>wire_out := j\<rparr>) = net_ok n k h s"
  "net_ok n k h (s\<lparr>owner_pending := d\<rparr>) = net_ok n k h s" "net_ok n k h (s\<lparr>clock_now := l\<rparr>) = net_ok n k h s"
  "net_ok n k h (s\<lparr>generation := d\<rparr>) = net_ok n k h s"
  by (rule net_ok_view, simp add: net_view_def)+

lemma net_ok_notify [simp]: "net_ok n k h (notify_change s) = net_ok n k h s"
  by (simp add: notify_change_def)

text \<open>Actions that touch nothing the invariant is about, and actions that keep the invariant.\<close>

definition same_view :: "net \<Rightarrow> net \<Rightarrow> bool" where
  "same_view s s' \<longleftrightarrow> net_view s' = net_view s"

lemma same_view_preorder [simp]: "reflp same_view" "transp same_view"
  by (auto simp: same_view_def reflp_def transp_def)

lemma same_viewD:
  assumes "same_view s s'"
  shows "ids s' = ids s" "edge_queue s' = edge_queue s" "completed_queue s' = completed_queue s" "held_response s' = held_response s"
    "edge_pending s' = edge_pending s" "flight s' = flight s" "master s' = master s" "net_closed s' = net_closed s" "work s' = work s" "claims s' = claims s"
  using assms by (simp_all add: same_view_def net_view_def work_defs)

named_theorems view_keeps "actions that touch nothing the backend's invariant is about"
named_theorems net_keeps "actions that keep the backend's invariant"

lemma view_bump [view_keeps]: "keeps same_view (bump name)"
  unfolding bump_def by (rule keeps_modify) (simp add: same_view_def net_view_def)

lemma view_bump_if [view_keeps]: "keeps same_view (bump_if b name)"
  unfolding bump_if_def by (rule keeps_unless [OF same_view_preorder(1) view_bump])

lemma view_record [view_keeps]: "keeps same_view (record_event name fs)"
  unfolding record_event_def by (rule keeps_modify) (simp add: same_view_def net_view_def)

lemma view_send_frame [view_keeps]: "keeps same_view (send_net_frame f)"
  by (rule keepsI) (auto simp: same_view_def net_view_def send_net_frame_def split: if_splits prod.splits)

lemma view_turns [view_keeps]: "keeps same_view (set_turns f)"
  unfolding set_turns_def by (rule keeps_modify) (simp add: same_view_def net_view_def)

lemma view_control [view_keeps]: "keeps same_view (set_control f)"
  unfolding set_control_def by (rule keeps_modify) (simp add: same_view_def net_view_def)

lemma view_notify [view_keeps]: "keeps same_view (set_net notify_change)"
  unfolding set_net_def by (rule keeps_modify) (simp add: same_view_def net_view_def notify_change_def)

lemma same_view_ok: "same_view s s' \<Longrightarrow> net_ok n k h s' = net_ok n k h s"
  unfolding same_view_def by (rule net_ok_view)

lemma view_net: "keeps same_view m \<Longrightarrow> keeps (stable (net_ok n k h)) m"
  unfolding keeps_def stable_def using same_view_ok by blast

lemmas view_nets [net_keeps] = view_keeps [THEN view_net]

lemma wp_same:
  "keeps same_view m \<Longrightarrow> (\<And>x s'. same_view s s' \<Longrightarrow> Q x s') \<Longrightarrow> (\<And>e s'. same_view s s' \<Longrightarrow> E e s') \<Longrightarrow> wp m Q E s"
  by (rule wpI) (auto dest: keepsD)

lemma wp_stable:
  "keeps (stable P) m \<Longrightarrow> P s \<Longrightarrow> (\<And>x s'. P s' \<Longrightarrow> Q x s') \<Longrightarrow> (\<And>e s'. P s' \<Longrightarrow> E e s') \<Longrightarrow> wp m Q E s"
  by (rule wpI) (auto dest!: keepsD simp: stable_def)

lemma requests_put_end: "put_edge None q = Some q' \<Longrightarrow> requests q' = requests q"
  by (auto simp: put_edge_def split: if_splits)

lemma requests_put_completed: "put_completed None q = Some q' \<Longrightarrow> requests q' = requests q"
  by (auto simp: put_completed_def split: if_splits)

lemma signal_stop_work:
  "requests (edge_queue (signal_worker_stop s)) = requests (edge_queue s)"
  "requests (completed_queue (signal_worker_stop s)) = requests (completed_queue s)"
  "ids (signal_worker_stop s) = ids s" "held_response (signal_worker_stop s) = held_response s"
  "edge_pending (signal_worker_stop s) = edge_pending s" "flight (signal_worker_stop s) = flight s"
  "net_closed (signal_worker_stop s) = net_closed s" "master (signal_worker_stop s) = master s"
  by (auto simp: signal_worker_stop_def requests_put_end requests_put_completed split: option.splits)

lemma net_close_ok: "net_ok n k h s \<Longrightarrow> net_ok m k h (net_close e s)"
  by (auto simp: net_close_def net_ok_def work_defs signal_stop_work notify_change_def flight_ok_def Let_def split: option.splits)

lemma net_close_closed [simp]: "net_closed (net_close e s)"
  by (simp add: net_close_def Let_def signal_stop_work notify_change_def)

lemma keeps_close [net_keeps]: "keeps (stable (net_ok n k h)) (close_with e)" "keeps (stable (net_ok n k h)) (act_modify (net_close e'))"
  unfolding close_with_def by (intro keeps_modify; simp add: stable_def net_close_ok)+

lemma keeps_fatal [net_keeps]: "keeps (stable (net_ok n k h)) m \<Longrightarrow> keeps (stable (net_ok n k h)) (fatal m)"
  unfolding fatal_def close_raise_def by (intro keeps_intros net_keeps) simp_all

lemma decrement_ok: "net_ok (Suc n) k h s \<Longrightarrow> net_ok n k h (decrement_pending s)"
  by (auto simp: net_ok_def decrement_pending_def notify_change_def work_defs flight_ok_def)

lemma closed_ok: "net_ok n k h s \<Longrightarrow> net_closed s \<Longrightarrow> net_ok m k h s"
  by (simp add: net_ok_def)

lemma drop_held: "net_ok n (i @ k) h s \<Longrightarrow> net_ok n k h s"
  by (auto simp: net_ok_def)


section \<open>Identifiers in hand\<close>

definition opt_list :: "'a option \<Rightarrow> 'a list" where
  "opt_list v = (case v of None \<Rightarrow> [] | Some x \<Rightarrow> [x])"

lemma opt_list_simps [simp]: "opt_list None = []" "opt_list (Some x) = [x]" "set (opt_list v) = set_option v"
  by (cases v; simp add: opt_list_def)+

lemma id_list_Cons: "id_list (r # rs) = opt_list (ie_id r) @ id_list rs"
  by (simp add: opt_list_def)

lemma claim_ok:
  assumes "net_ok n k h s"
  shows "wp (claim_inbound_edge_id i)
     (\<lambda>v s'. case v of None \<Rightarrow> net_ok n (i # k) h s' \<and> i \<notin> set (performed_ids h)
                     | Some b \<Rightarrow> net_ok n k h s' \<and> id_responses (ids s') i = Some b)
     (\<lambda>_. net_ok n k h) s"
proof -
  let ?d = "ids s"
  have i: "ids_ok ?d" "set (k @ id_list (claims s)) \<subseteq> ids_pending ?d" "\<forall>i \<in> set (performed_ids h). i \<le> highest_inbound ?d"
    using assms by (simp_all add: net_ok_def)
  show ?thesis
  proof (cases "i \<le> highest_inbound ?d")
    case True
    with assms show ?thesis by (simp add: claim_inbound_edge_id_def wp_simps split: option.split)
  next
    case False
    let ?s = "s\<lparr>ids := ?d\<lparr>highest_inbound := i, ids_pending := insert i (ids_pending ?d)\<rparr>\<rparr>"
    have new: "id_responses ?d i = None" "i \<notin> ids_pending ?d" "i \<notin> set (performed_ids h)"
      using i(1,3) False by (auto simp: ids_ok_def dom_def)
    have "\<forall>j \<in> ids_pending ?d \<union> dom (id_responses ?d). 1 \<le> j \<and> j \<le> i"
      using i(1) False unfolding ids_ok_def by (meson le_trans nat_le_linear)
    then have "1 \<le> i \<Longrightarrow> ids_ok (ids ?s)"
      using i(1) new by (simp add: ids_ok_def domIff)
    moreover have "work ?s = work s" "claims ?s = claims s" by (simp_all add: work_defs)
    moreover have "\<forall>j \<in> set (performed_ids h). j \<le> i" using i(3) False by fastforce
    moreover have "flight_ok h ?s = flight_ok h s" by (simp add: flight_ok_def)
    ultimately have "1 \<le> i \<Longrightarrow> net_ok n (i # k) h ?s"
      using assms new i(2) by (auto simp: net_ok_def)
    with assms new show ?thesis
      by (simp add: claim_inbound_edge_id_def set_ids_def wp_simps)
  qed
qed

text \<open>A response may go out for an identifier that is in hand or was answered before.\<close>

definition may_answer :: "nat list \<Rightarrow> nat option \<Rightarrow> net \<Rightarrow> bool" where
  "may_answer k i s \<longleftrightarrow> (\<forall>n. i = Some n \<longrightarrow> n \<notin> set (k @ id_list (claims s)) \<and> n \<in> ids_pending (ids s) \<union> dom (id_responses (ids s)))"

lemma may_answer_in_hand: "net_ok n (opt_list i @ k) h s \<Longrightarrow> may_answer k i s"
  by (auto simp: may_answer_def net_ok_def)

lemma may_answer_replay: "net_ok n k h s \<Longrightarrow> id_responses (ids s) i = Some b \<Longrightarrow> may_answer k (Some i) s"
  by (auto simp: may_answer_def net_ok_def ids_ok_def)

lemma same_view_may_answer: "same_view s s' \<Longrightarrow> may_answer k i s' = may_answer k i s"
  by (simp add: may_answer_def same_viewD)

lemma remember_net_ok:
  assumes "net_ok n k h s" "may_answer k i s"
  shows "net_ok n k h (s\<lparr>ids := remember_id i b (ids s)\<rparr>)"
proof -
  have "ids_ok (remember_id i b (ids s))"
    using assms by (intro remember_ok) (auto simp: net_ok_def may_answer_def)
  moreover have "set (k @ id_list (claims s)) \<subseteq> ids_pending (ids s) - set_option i"
    using assms by (auto simp: net_ok_def may_answer_def)
  ultimately show ?thesis using assms(1) by (simp add: net_ok_def work_defs flight_ok_def)
qed

lemma transmit_ok:
  assumes "net_ok n k h s" "may_answer k (ie_id r) s"
  shows "wp (transmit_response r b) (\<lambda>_. net_ok n k h) (\<lambda>_. net_ok n k h) s"
  using assms(1) remember_net_ok [OF assms]
  by (auto simp: transmit_response_def remember_inbound_edge_response_def wp_simps intro!: wp_stable [OF view_net [OF view_send_frame], of n k h])

lemma keeps_outcome [net_keeps]: "keeps (stable (net_ok n k h)) (response_outcome r o')"
  unfolding response_outcome_def by (rule net_keeps)

lemma send_response_ok:
  assumes "net_ok n k h s" "may_answer k (ie_id r) s"
  shows "wp (send_edge_response r) (\<lambda>_. net_ok n k h) (\<lambda>_. net_ok n k h) s"
proof -
  have e: "wp (response_outcome r x) (\<lambda>_. net_ok n k h) (\<lambda>_. net_ok n k h) s'" if "net_ok n k h s'" for x s'
    using wp_stable [OF keeps_outcome that] by simp
  have "wp (act_then (act_catch (transmit_response r b) (\<lambda>e. act_then (response_outcome r x) (act_raise e))) (response_outcome r y))
      (\<lambda>_. net_ok n k h) (\<lambda>_. net_ok n k h) s" for b x y
    using transmit_ok [OF assms, of b]
    by (simp only: wp_then wp_catch) (erule wp_mono; rule wp_stable [OF keeps_outcome]; simp add: wp_raise e)
  with assms(1) show ?thesis
    by (simp add: send_edge_response_def wp_simps split: option.split)
qed

end
