(* ===== verification/Net_Reading.thy ===== *)
theory Net_Reading
  imports Net_Invariant
begin

text \<open>The reader keeps the backend's invariant, extended by the frame it reads.\<close>

lemma keeps_flight [net_keeps]:
  assumes "\<And>fl. resp_queue (f fl) = resp_queue fl \<and> edge_inflight (f fl) = edge_inflight fl \<and> inflight_id (f fl) = inflight_id fl"
  shows "keeps (stable (net_ok n k h)) (set_flight f)"
  unfolding set_flight_def
  by (rule keeps_modify) (auto simp: stable_def net_ok_def work_defs flight_ok_def assms)

lemma crossing_ok:
  assumes "net_ok n (opt_list i @ k) h s"
  shows "wp (send_reciprocal_master_response peer i)
     (\<lambda>a s'. net_ok n (if a then k else opt_list i @ k) h s') (\<lambda>_. net_ok n k h) s"
proof -
  have d: "net_ok n k h s'" if "net_ok n (opt_list i @ k) h s'" for s' using drop_held [OF that] .
  have pre: "keeps (stable (net_ok n (opt_list i @ k) h))
      (act_then (bump x) (act_then (bump y) (record_event z fs)))" for x y z fs
    by (intro keeps_intros net_keeps stable_preorder)
  have answer: "wp (answer_crossing peer i b) (\<lambda>_. net_ok n k h) (\<lambda>_. net_ok n k h) s'" if "net_ok n (opt_list i @ k) h s'" for b s'
  proof -
    have send: "wp (send_edge_response ((inbound 0 peer i)\<lparr>ie_response_bit := Some b\<rparr>)) (\<lambda>_. net_ok n k h) (\<lambda>_. net_ok n k h) t"
      if "net_ok n (opt_list i @ k) h t" for t
      using send_response_ok [OF d [OF that]] may_answer_in_hand [OF that] by (simp add: inbound_def)
    show ?thesis
      using wp_stable [OF pre that, of _ "\<lambda>_. net_ok n k h"] send d
      by (simp add: answer_crossing_def wp_then)
  qed
  have flag: "net_ok n (opt_list i @ k) h (s\<lparr>flight := (flight s)\<lparr>recip_sent := True\<rparr>\<rparr>)"
    using assms by (simp add: net_ok_def work_defs flight_ok_def)
  show ?thesis
    using assms answer [OF assms] answer [OF flag] flag
    by (cases i) (simp_all add: send_reciprocal_master_response_def set_flight_def wp_simps split: option.split)
qed

lemma release_net_ok:
  assumes "net_ok n (opt_list i @ k) h s"
  shows "net_ok n k h (s\<lparr>ids := release_id i (ids s)\<rparr>)"
proof -
  have "set (k @ id_list (claims s)) \<subseteq> ids_pending (ids s) - set_option i"
    using assms by (cases i) (auto simp: net_ok_def)
  then show ?thesis
    using assms release_ok [of "ids s" i] by (simp add: net_ok_def work_defs flight_ok_def)
qed

text \<open>A request in hand is placed somewhere among the work, or taken from it.\<close>

lemma placed_net_ok:
  assumes "net_ok (Suc n) (opt_list (ie_id r) @ k) h s" "\<not> net_closed s"
    and "owed s = p @ q" "owed s' = p @ r' # q" "ie_id r' = ie_id r" "\<forall>x \<in> set (requests (edge_queue s')). queued_ok h x"
    and "ids s' = ids s" "flight s' = flight s" "net_closed s' = net_closed s" "edge_pending s' = edge_pending s" "master s' = master s"
  shows "net_ok n k h s'"
proof -
  have d: "distinct (k @ id_list (claims s'))" "set (k @ id_list (claims s')) \<subseteq> ids_pending (ids s)"
    using assms(1) unfolding net_ok_def claims_def assms(3-5,11) by (cases "ie_id r"; auto simp: assms(5))+
  show ?thesis
    using assms(1,2,6) d unfolding net_ok_def flight_ok_def assms(7-11) by (simp add: work_def assms(3,4,11))
qed

lemma taken_net_ok:
  assumes "net_ok n k h s" "owed s = p @ r # q" "owed s' = p @ q" "set (requests (edge_queue s')) \<subseteq> set (requests (edge_queue s))"
    and "ids s' = ids s" "flight s' = flight s" "net_closed s' = net_closed s" "edge_pending s' = edge_pending s" "master s' = master s"
  shows "net_ok (Suc n) (opt_list (ie_id r) @ k) h s'"
proof -
  have d: "distinct ((opt_list (ie_id r) @ k) @ id_list (claims s'))" "set ((opt_list (ie_id r) @ k) @ id_list (claims s')) \<subseteq> ids_pending (ids s)"
    using assms(1) unfolding net_ok_def claims_def assms(2,3,9) by (cases "ie_id r"; auto)+
  show ?thesis
    using assms(1,4) d unfolding net_ok_def flight_ok_def assms(5-9) by (auto simp: work_def assms(2,3,9))
qed

lemma net_enqueue_ok:
  assumes "net_ok (Suc n) (opt_list i @ k) h s" "asked h b i" "\<And>j. i = Some j \<Longrightarrow> j \<notin> set (performed_ids h)" "\<not> net_closed s"
  shows "wp (enqueue_request b i) (\<lambda>_. net_ok n k h) (\<lambda>_. net_ok n k h) s"
proof (cases "put_edge (Some (inbound (next_ref s) b i)) (edge_queue s)")
  case None
  from release_net_ok [OF decrement_ok [OF assms(1)]] None show ?thesis
    by (simp add: enqueue_request_def release_inbound_edge_id_def set_ids_def set_net_def wp_simps)
next
  case (Some q)
  let ?r = "inbound (next_ref s) b i"
  have q: "q = edge_queue s @ [Some ?r]" using Some by (auto simp: put_edge_def inbound_def split: if_splits)
  have "queued_ok h ?r" using assms(2,3) by (simp add: queued_ok_def inbound_def)
  then have "net_ok n k h (notify_change (s\<lparr>edge_queue := q, next_ref := next_ref s + 1\<rparr>))"
    using assms(1,4)
    by (intro placed_net_ok [of n ?r k h s "requests (edge_queue s)" _ _ ?r]; (auto simp: q work_defs notify_change_def inbound_def net_ok_def)?)
  with Some show ?thesis by (simp add: enqueue_request_def set_net_def wp_simps)
qed

lemma admit_ok:
  assumes "net_ok n (opt_list i @ k) h s" "asked h b i" "\<And>j. i = Some j \<Longrightarrow> j \<notin> set (performed_ids h)"
  shows "wp (admit_request b i) (\<lambda>_. net_ok n k h) (\<lambda>_. net_ok n k h) s"
proof (cases "net_closed s \<or> core_detached s")
  case True
  with drop_held [OF assms(1)] show ?thesis by (auto simp: admit_request_def wp_simps)
next
  case False
  have "net_ok (Suc n) (opt_list i @ k) h (s\<lparr>edge_pending := edge_pending s + 1\<rparr>)"
    using assms(1) False by (simp add: net_ok_def work_defs flight_ok_def)
  with False assms(2,3) show ?thesis
    by (auto simp: admit_request_def wp_simps intro!: net_enqueue_ok)
qed

lemma take_request_ok:
  assumes "net_ok n (opt_list i @ k) h s" "asked h b i" "\<And>j. i = Some j \<Longrightarrow> j \<notin> set (performed_ids h)"
  shows "wp (take_request b i) (\<lambda>_. net_ok n k h) (\<lambda>_. net_ok n k h) s"
  unfolding take_request_def wp_bind
  by (rule wp_mono [OF crossing_ok [OF assms(1)]]) (use admit_ok assms(2,3) in \<open>auto simp: wp_simps\<close>)

lemma read_edge_request_ok:
  assumes "net_ok n k h s" "asked h b i"
  shows "wp (read_edge_request b i) (\<lambda>_. net_ok n k h) (\<lambda>_. net_ok n k h) s"
proof (cases i)
  case None
  with take_request_ok [of n None k h s b] assms show ?thesis by (simp add: read_edge_request_def wp_simps)
next
  case (Some j)
  have replay: "wp (replay_response b j v) (\<lambda>_. net_ok n k h) (\<lambda>_. net_ok n k h) t"
    if "net_ok n k h t" "id_responses (ids t) j = Some v'" for v v' t
  proof -
    have pre: "keeps same_view (act_then (bump x) (record_event y fs))" for x y fs
      by (intro keeps_intros view_keeps same_view_preorder)
    have "wp (send_edge_response ((inbound 0 b (Some j))\<lparr>ie_response_bit := Some v\<rparr>)) (\<lambda>_. net_ok n k h) (\<lambda>_. net_ok n k h) t'"
      if "same_view t t'" for t'
      using send_response_ok may_answer_replay \<open>net_ok n k h t\<close> \<open>id_responses (ids t) j = Some v'\<close> that
      by (simp add: inbound_def same_view_ok same_view_may_answer)
    then show ?thesis
      using wp_same [OF pre, of t _ "\<lambda>_. net_ok n k h"] that(1)
      by (simp add: replay_response_def wp_then same_view_ok)
  qed
  have fresh: "wp (take_request b i) (\<lambda>_. net_ok n k h) (\<lambda>_. net_ok n k h) (t\<lparr>stats := x\<rparr>)"
    if "net_ok n (j # k) h t" "j \<notin> set (performed_ids h)" for x t
    using that take_request_ok [of n i k h _ b] assms(2) Some by simp
  show ?thesis
    using assms(1) Some fresh replay
    by (simp add: read_edge_request_def wp_simps)
       (intro impI wp_mono [OF claim_ok [OF assms(1)]]; auto simp: wp_simps split: option.splits)
qed

lemma read_edge_response_ok:
  assumes "net_ok n k h s" "awaited h i \<Longrightarrow> fresh h i b"
  shows "wp (read_edge_response b i) (\<lambda>_. net_ok n k h) (\<lambda>_. net_ok n k h) s"
proof -
  have "net_ok n k h (s\<lparr>flight := (flight s)\<lparr>resp_queue := [b], response_seen := True\<rparr>\<rparr>)"
    if "edge_inflight (flight s)" "inflight_id (flight s) = i" "resp_queue (flight s) = []"
  proof -
    have f: "flight_ok h s" using assms(1) by (simp add: net_ok_def)
    then have "fresh h i b" using assms(2) that by (simp add: flight_ok_def)
    with f that have "phase_ok h i [b] (master s)"
      by (cases "(h, i, [b], master s)" rule: phase_ok.cases) (auto simp: flight_ok_def answer_ok_def)
    with f that have "flight_ok h (s\<lparr>flight := (flight s)\<lparr>resp_queue := [b], response_seen := True\<rparr>\<rparr>)"
      by (simp add: flight_ok_def)
    with assms(1) show ?thesis by (simp add: net_ok_def work_defs)
  qed
  with assms(1) show ?thesis
    by (simp add: read_edge_response_def wp_simps)
qed

lemma keeps_hello: "keeps (stable (net_ok n k h)) (read_hello payload)"
proof -
  have "keeps same_view (set_net (\<lambda>s. s\<lparr>peer_rom := v, hello_received := True\<rparr>))" for v
    unfolding set_net_def by (rule keeps_modify) (simp add: same_view_def net_view_def)
  from view_net [OF this] show ?thesis
    unfolding read_hello_def Let_def by (intro keeps_intros stable_preorder)
qed

lemma keeps_markers:
  "keeps (stable (net_ok n k h)) (read_frame_tick p)" "keeps (stable (net_ok n k h)) (read_frame_done p)"
  "keeps (stable (net_ok n k h)) (read_frame_ack p)" "keeps (stable (net_ok n k h)) (read_sync m)"
  "keeps (stable (net_ok n k h)) (read_exchange m data)"
  unfolding read_frame_tick_def read_frame_done_def read_frame_ack_def read_sync_def read_exchange_def
  by (intro keeps_intros net_keeps stable_preorder)+

lemma net_dispatch_ok:
  assumes "net_ok n k h s" "h = h' @ [Read f]"
  shows "wp (dispatch_frame f) (\<lambda>_. net_ok n k h) (\<lambda>_. net_ok n k h) s"
proof -
  have q: "f_opcode f = OP_EDGE_REQ \<or> f_opcode f = OP_EDGE_REQ_ID \<Longrightarrow> asked h (unat (f_payload f)) (f_id f)"
    using assms(2) by (auto simp: asked_def)
  have p: "f_opcode f = OP_EDGE_RESP \<or> f_opcode f = OP_EDGE_RESP_ID \<Longrightarrow> awaited h (f_id f) \<Longrightarrow> fresh h (f_id f) (unat (f_payload f))"
    using assms(2) fresh_read by auto
  have keep: "keeps (stable (net_ok n k h)) m \<Longrightarrow> wp m (\<lambda>_. net_ok n k h) (\<lambda>_. net_ok n k h) s" for m
    by (rule wp_stable) (use assms(1) in auto)
  show ?thesis
    unfolding dispatch_frame_def Let_def
    using read_edge_request_ok [OF assms(1) q] read_edge_response_ok [OF assms(1) p]
      keep [OF keeps_hello] keep [OF keeps_markers(1)] keep [OF keeps_markers(2)] keep [OF keeps_markers(3)]
      keep [OF keeps_markers(4)] keep [OF keeps_markers(5)] assms(1)
    by (simp add: wp_raise)
qed

lemma reader_round_ok:
  assumes "net_ok 0 [] h s" "reader_round s = Some s'"
    and "\<And>f rest. recv_frame (incoming s) = Received f rest \<Longrightarrow> \<exists>h'. h = h' @ [Read f]"
  shows "net_ok 0 [] h s'"
proof -
  have s: "net_ok 0 [] h (s\<lparr>incoming := rest\<rparr>)" for rest
    using assms(1) by (simp add: net_ok_def work_defs flight_ok_def)
  show ?thesis
  proof (cases "recv_frame (incoming s)")
    case (Received f rest)
    obtain r t where d: "dispatch_frame f (s\<lparr>incoming := rest\<rparr>) = (r, t)" by fastforce
    from assms(3) [OF Received] obtain h' where "h = h' @ [Read f]" by blast
    from net_dispatch_ok [OF s [of rest] this] have "net_ok 0 [] h t"
      by (cases r) (simp_all add: wp_def d)
    with Received assms(2) d show ?thesis
      by (auto simp: reader_round_def reader_closes_def intro: net_close_ok split: if_splits sum.splits)
  qed (use s assms(2) in \<open>auto simp: reader_round_def reader_closes_def intro: net_close_ok split: if_splits\<close>)
qed

end
