(* ===== verification/Net_Owning.thy ===== *)
theory Net_Owning
  imports Net_Reading
begin

text \<open>The owner's side and the response worker keep the backend's invariant.\<close>

section \<open>Applying an edge\<close>

lemma view_set_net: "(\<And>s. net_view (f s) = net_view s) \<Longrightarrow> keeps same_view (set_net f)"
  unfolding set_net_def by (rule keeps_modify) (simp add: same_view_def)

lemma view_irq: "keeps same_view (notify_completed_slave_irq isolate)"
proof -
  have "keeps same_view (set_net (\<lambda>s. s\<lparr>irq_calls := n\<rparr>))" for n by (rule view_set_net) (simp add: net_view_def)
  then show ?thesis
    unfolding notify_completed_slave_irq_def irq_event_def by (intro keeps_intros view_keeps same_view_preorder)
qed

lemma view_keepalive: "keeps same_view step_keepalive"
proof -
  have "keeps same_view (set_net (\<lambda>s. s\<lparr>keepalive_idx := n\<rparr>))" for n by (rule view_set_net) (simp add: net_view_def)
  then show ?thesis unfolding step_keepalive_def by (intro keeps_intros view_keeps same_view_preorder)
qed

lemma view_commit: "keeps same_view (commit_edge c b)"
proof -
  have "keeps same_view (set_net (\<lambda>s. s\<lparr>local_core := c', keepalive_idx := 0\<rparr>))" for c' by (rule view_set_net) (simp add: net_view_def)
  then show ?thesis unfolding commit_edge_def by (intro keeps_intros view_keeps same_view_preorder)
qed

lemma view_apply: "keeps same_view (apply_owner_edge_if_ready r)"
  unfolding apply_owner_edge_if_ready_def apply_owner_edge_def apply_owner_keepalive_def
  by (intro keeps_intros view_keeps view_irq view_keepalive view_commit same_view_preorder)

text \<open>What is applied is the request, with its answer.\<close>

definition same_request :: "inbound_edge \<Rightarrow> inbound_edge \<Rightarrow> bool" where
  "same_request r r' \<longleftrightarrow> ie_id r' = ie_id r \<and> ie_peer_bit r' = ie_peer_bit r"

lemma wp_true: "wp m (\<lambda>_ _. True) (\<lambda>_ _. True) s"
  by (rule wpI) simp_all

lemma wp_post: "(\<And>x s'. Q x s') \<Longrightarrow> (\<And>e s'. E e s') \<Longrightarrow> wp m Q E s"
  by (rule wpI) simp_all

lemma apply_same_request:
  "wp (apply_owner_edge_if_ready r) (\<lambda>v s'. same_view s s' \<and> (\<forall>r'. v = Some r' \<longrightarrow> same_request r r')) (\<lambda>_ s'. same_view s s') s"
proof -
  have edge: "wp (apply_owner_edge r c) (\<lambda>r' _. same_request r r') (\<lambda>_ _. True) t" for c t
    unfolding apply_owner_edge_def wp_if wp_bind split_def wp_then wp_bump wp_record wp_return wp_raise
    by (auto simp: same_request_def intro!: wp_post)
  have idle: "wp (apply_owner_keepalive r) (\<lambda>r' _. same_request r r') (\<lambda>_ _. True) t" for t
    unfolding apply_owner_keepalive_def wp_if wp_bind wp_then wp_bump wp_get wp_record wp_return wp_raise
    by (auto simp: same_request_def intro!: wp_post)
  have "wp (apply_owner_edge_if_ready r) (\<lambda>v _. \<forall>r'. v = Some r' \<longrightarrow> same_request r r') (\<lambda>_ _. True) s"
    unfolding apply_owner_edge_if_ready_def using edge idle by (cases "local_core s") (simp_all add: wp_simps)
  moreover have "wp (apply_owner_edge_if_ready r) (\<lambda>_ s'. same_view s s') (\<lambda>_ s'. same_view s s') s"
    by (rule wp_same [OF view_apply])
  ultimately show ?thesis by (rule wp_mono [OF wp_conj]) auto
qed

section \<open>A request in hand\<close>

text \<open>What is known of a request taken from the queue: it was read, it was not performed, nothing of its identifier is queued.\<close>

definition in_hand :: "label list \<Rightarrow> inbound_edge \<Rightarrow> net \<Rightarrow> bool" where
  "in_hand h r s \<longleftrightarrow> net_ok 1 (opt_list (ie_id r)) h s \<and> queued_ok h r"

definition performable :: "label list \<Rightarrow> inbound_edge \<Rightarrow> net \<Rightarrow> bool" where
  "performable h r s \<longleftrightarrow> net_ok 0 [] h s \<and> queued_ok h r
     \<and> (\<forall>i. ie_id r = Some i \<longrightarrow> i \<le> highest_inbound (ids s) \<and> i \<notin> set (id_list (requests (edge_queue s))))"

lemma in_hand_view: "same_view s s' \<Longrightarrow> in_hand h r s' = in_hand h r s"
  by (simp add: in_hand_def same_view_ok)

lemma in_hand_same: "same_request r r' \<Longrightarrow> in_hand h r' s = in_hand h r s"
  by (simp add: in_hand_def same_request_def queued_ok_def)

lemma hand_dropped:
  assumes "net_ok 1 (opt_list i) h s"
  shows "net_ok 0 [] h (decrement_pending s)" "net_ok 0 [] h (decrement_pending (net_close e s))"
proof -
  have "net_ok 1 [] h s" using drop_held [of 1 "opt_list i" "[]"] assms by simp
  then have "net_ok (Suc 0) [] h s" "net_ok (Suc 0) [] h (net_close e s)" using net_close_ok by simp_all
  then show "net_ok 0 [] h (decrement_pending s)" "net_ok 0 [] h (decrement_pending (net_close e s))"
    by (auto intro: decrement_ok)
qed

lemma in_hand_dropped: "in_hand h r s \<Longrightarrow> net_ok 0 [] h (decrement_pending s)"
  unfolding in_hand_def using hand_dropped by blast

lemma in_hand_closes: "in_hand h r s \<Longrightarrow> in_hand h r (net_close e s)"
  unfolding in_hand_def using net_close_ok by blast

lemma in_hand_updates [simp]:
  "in_hand h r (s\<lparr>stats := a\<rparr>) = in_hand h r s" "in_hand h r (s\<lparr>local_core := c\<rparr>) = in_hand h r s"
  by (simp_all add: in_hand_def)

lemma in_hand_performable:
  assumes "in_hand h r s" "net_ok 0 [] h s'" "requests (edge_queue s') = requests (edge_queue s)"
    and "highest_inbound (ids s') = highest_inbound (ids s)"
  shows "performable h r s'"
proof -
  have "ie_id r = Some i \<Longrightarrow> i \<in> ids_pending (ids s) \<and> i \<notin> set (id_list (requests (edge_queue s)))" for i
    using assms(1) by (auto simp: in_hand_def net_ok_def work_defs)
  moreover have "ids_ok (ids s)" using assms(1) by (simp add: in_hand_def net_ok_def)
  ultimately show ?thesis using assms by (simp add: performable_def in_hand_def ids_ok_def)
qed

lemma close_drop_ok: "in_hand h r s \<Longrightarrow> net_ok 0 [] h (decrement_pending (net_close e s))"
  unfolding in_hand_def using hand_dropped by blast

lemma failed_ok:
  assumes "in_hand h r s"
  shows "wp (owner_edge_failed e) (\<lambda>_. net_ok 0 [] h) (\<lambda>_. net_ok 0 [] h) s"
  unfolding owner_edge_failed_def wp_simps
  by (rule close_drop_ok) (use assms in simp)

lemma put_back_ok:
  assumes "in_hand h r s" "\<not> net_closed s"
  shows "wp (put_back r) (\<lambda>_. net_ok 0 [] h) (\<lambda>_. net_ok 0 [] h) s"
proof -
  let ?r = "r\<lparr>ie_deferred := True\<rparr>"
  have main: "wp (act_bind (act_get edge_queue) (\<lambda>q. case put_edge (Some ?r) q of
        Some q' \<Rightarrow> set_net (\<lambda>s. s\<lparr>edge_queue := q'\<rparr>)
      | None \<Rightarrow> act_then (close_with RequestQueueFull) (act_then (set_net decrement_pending) (act_raise RequestQueueFull))))
      (\<lambda>_. net_ok 0 [] h) (\<lambda>_. net_ok 0 [] h) t" if t: "in_hand h r t" "\<not> net_closed t" for t
  proof (cases "put_edge (Some ?r) (edge_queue t)")
    case None
    with close_drop_ok [OF t(1)] show ?thesis by (simp add: wp_simps)
  next
    case (Some q)
    then have q: "q = Some ?r # edge_queue t" by (auto simp: put_edge_def split: if_splits)
    have "net_ok 0 [] h (t\<lparr>edge_queue := q\<rparr>)"
      using t by (intro placed_net_ok [of 0 r "[]" h t "[]" _ _ ?r])
        (auto simp: in_hand_def q work_defs queued_ok_def net_ok_def)
    with Some show ?thesis by (simp add: wp_simps)
  qed
  show ?thesis
    unfolding put_back_def wp_then wp_bump by (rule main) (use assms in simp_all)
qed

section \<open>Publishing\<close>

lemma settle_ok [simp]: "net_ok n k h (settle_owner_response s) = net_ok n k h s"
  by (simp add: settle_owner_response_def)

lemma settle_if_wp [wp_simps]: "wp (settle_if b) Q E = (\<lambda>s. if b then Q () (settle_owner_response s) else Q () s)"
  by (simp add: settle_if_def wp_simps fun_eq_iff)

lemma publish_ok:
  assumes "net_ok 1 (opt_list (ie_id r)) h s"
  shows "wp (publish_owner_response r)
     (\<lambda>_ s'. net_ok 0 [] h s' \<and> requests (edge_queue s') = requests (edge_queue s) \<and> highest_inbound (ids s') = highest_inbound (ids s))
     (\<lambda>_. net_ok 0 [] h) s"
proof (cases "put_completed (Some r) (completed_queue s)")
  case None
  with hand_dropped [OF assms] show ?thesis
    by (simp add: publish_owner_response_def wp_simps) (simp add: settle_owner_response_def decrement_pending_def notify_change_def)
next
  case (Some q)
  then have q: "q = completed_queue s @ [Some r]" by (auto simp: put_completed_def split: if_splits)
  have "net_ok 0 [] h (s\<lparr>completed_queue := q\<rparr>)" if "\<not> net_closed s"
    using assms that by (intro placed_net_ok [of 0 r "[]" h s "owed s" "[]" _ r]) (auto simp: q work_defs net_ok_def)
  with Some hand_dropped [OF assms] show ?thesis
    by (simp add: publish_owner_response_def wp_simps) (simp add: settle_owner_response_def decrement_pending_def notify_change_def)
qed

lemma finish_ok:
  assumes "in_hand h r s" "\<not> net_closed s" "held_response s = None"
  shows "wp (finish_applied r)
     (\<lambda>v s'. case v of Stops \<Rightarrow> False | Applied e \<Rightarrow> e = r \<and> performable h r s' | AppliedLast e \<Rightarrow> e = r \<and> performable h r s')
     (\<lambda>_. net_ok 0 [] h) s"
proof -
  let ?s = "s\<lparr>stats := (stats s)(''owner_edge_applied'' := Suc (stats s ''owner_edge_applied''))\<rparr>"
  let ?h = "?s\<lparr>held_response := Some (r\<lparr>ie_receipt := True\<rparr>)\<rparr>"
  have s: "in_hand h r ?s" using assms(1) by simp
  have "net_ok 0 [] h ?h"
    using s assms(2,3)
    by (intro placed_net_ok [of 0 r "[]" h ?s "requests (edge_queue s)" "requests (completed_queue s)" ?h "r\<lparr>ie_receipt := True\<rparr>"])
      (auto simp: in_hand_def work_defs net_ok_def)
  then have held: "performable h r ?h" by (rule in_hand_performable [OF s]) simp_all
  have "wp (publish_owner_response r) (\<lambda>_. performable h r) (\<lambda>_. net_ok 0 [] h) ?s"
    by (rule wp_mono [OF publish_ok]) (use s in_hand_performable [OF s] in \<open>auto simp: in_hand_def\<close>)
  with held assms(2) show ?thesis by (simp add: finish_applied_def wp_simps)
qed

section \<open>Servicing\<close>

text \<open>What a round of the service leaves: the invariant, and for an applied request what makes it the first and only one.\<close>

definition serviced_ok :: "label list \<Rightarrow> serviced \<Rightarrow> net \<Rightarrow> bool" where
  "serviced_ok h v s \<longleftrightarrow> (case v of Stops \<Rightarrow> net_ok 0 [] h s | Applied e \<Rightarrow> performable h e s | AppliedLast e \<Rightarrow> performable h e s)"

lemma service_request_ok:
  assumes "in_hand h r s" "held_response s = None"
  shows "wp (service_request r) (serviced_ok h) (\<lambda>_. net_ok 0 [] h) s"
proof -
  let ?applied = "\<lambda>v s'. in_hand h r s' \<and> held_response s' = None \<and> (\<forall>r'. v = Some r' \<longrightarrow> same_request r r')"
  have applying: "wp (act_catch (apply_owner_edge_if_ready r) owner_edge_failed) ?applied (\<lambda>_. net_ok 0 [] h) s"
  proof -
    have failed: "wp (owner_edge_failed e) ?applied (\<lambda>_. net_ok 0 [] h) t" if "in_hand h r t" for e t
      unfolding owner_edge_failed_def wp_simps by (rule close_drop_ok) (use that in simp)
    show ?thesis
      unfolding wp_catch
      by (rule wp_mono [OF apply_same_request])
        (use assms failed in \<open>auto simp: in_hand_view same_viewD\<close>)
  qed
  have next_step: "wp (if net_closed t then act_then (set_net decrement_pending) (act_return Stops)
        else case v of None \<Rightarrow> act_then (put_back r) (act_return Stops) | Some r' \<Rightarrow> finish_applied r')
      (serviced_ok h) (\<lambda>_. net_ok 0 [] h) t" if t: "?applied v t" for v t
  proof (cases "net_closed t")
    case True
    from t in_hand_dropped [of h r t] True show ?thesis by (simp add: wp_simps serviced_ok_def)
  next
    case False
    show ?thesis
    proof (cases v)
      case None
      with False t put_back_ok [of h r t] show ?thesis by (simp add: wp_simps serviced_ok_def)
    next
      case (Some r')
      with t have r': "in_hand h r' t" using in_hand_same [of r r' h t] by simp
      show ?thesis using False Some
        by simp (rule wp_mono [OF finish_ok [OF r' False]]; use t in \<open>auto simp: serviced_ok_def split: serviced.splits\<close>)
    qed
  qed
  show ?thesis
  proof (cases "net_closed s")
    case True
    with in_hand_dropped [OF assms(1)] show ?thesis by (simp add: service_request_def wp_simps serviced_ok_def)
  next
    case False
    then show ?thesis
      unfolding service_request_def wp_bind wp_get if_not_P [OF False]
      by (intro wp_mono [OF applying]) (use next_step in auto)
  qed
qed

lemma service_one_ok:
  assumes "net_ok 0 [] h s"
  shows "wp service_one (serviced_ok h) (\<lambda>_. net_ok 0 [] h) s"
proof (cases "held_response s \<noteq> None \<or> edge_queue s = []")
  case True
  with assms show ?thesis by (auto simp: service_one_def wp_simps serviced_ok_def)
next
  case False
  then obtain e rest where q: "edge_queue s = e # rest" "held_response s = None" by (cases "edge_queue s") auto
  show ?thesis
  proof (cases e)
    case None
    have "net_ok 0 [] h (s\<lparr>edge_queue := rest\<rparr>)" using assms q None by (simp add: net_ok_def work_defs flight_ok_def)
    with q None show ?thesis by (simp add: service_one_def wp_simps serviced_ok_def)
  next
    case (Some r)
    let ?s = "s\<lparr>edge_queue := rest\<rparr>"
    have "net_ok 1 (opt_list (ie_id r)) h ?s"
      using taken_net_ok [OF assms, of "[]" r "requests rest @ requests (completed_queue s)" ?s] q Some
      by (auto simp: work_defs)
    moreover have "queued_ok h r" using assms q Some by (simp add: net_ok_def)
    ultimately have "in_hand h r ?s" by (simp add: in_hand_def)
    with service_request_ok [of h r ?s] q Some show ?thesis by (simp add: service_one_def wp_simps)
  qed
qed

section \<open>Responding\<close>

lemma retire_ok: "net_ok 1 [] h s \<Longrightarrow> net_ok 0 [] h (retire_response r s)"
  using decrement_ok [of 0 "[]" h s] by (simp add: retire_response_def Let_def)

lemma respond_ok:
  assumes "net_ok 1 (opt_list (ie_id r)) h s"
  shows "wp (respond r) (\<lambda>_. net_ok 0 [] h) (\<lambda>_. net_ok 0 [] h) s"
proof -
  have s: "net_ok 1 [] h s" "may_answer [] (ie_id r) s"
    using assms drop_held [of 1 "opt_list (ie_id r)" "[]"] may_answer_in_hand [of 1 "ie_id r" "[]"] by simp_all
  have "wp (act_catch (send_edge_response r) close_with) (\<lambda>_. net_ok 1 [] h) (\<lambda>_. net_ok 1 [] h) s"
    unfolding wp_catch by (rule wp_mono [OF send_response_ok [OF s]]) (auto simp: wp_simps intro: net_close_ok)
  with s(1) have "wp (act_bind (act_get net_closed) (\<lambda>c. if c then act_return () else act_catch (send_edge_response r) close_with))
      (\<lambda>_. net_ok 1 [] h) (\<lambda>_. net_ok 1 [] h) s" by (simp add: wp_bind wp_get wp_return)
  then show ?thesis unfolding respond_def wp_finally by (rule wp_mono) (auto intro: retire_ok)
qed

lemma wp_snd: "wp m (\<lambda>_. P) (\<lambda>_. P) s \<Longrightarrow> P (snd (m s))"
  by (cases "m s"; cases "fst (m s)") (auto simp: wp_def)

lemma wp_result: "wp m (\<lambda>_. P) (\<lambda>_. P) s \<Longrightarrow> m s = (r, s') \<Longrightarrow> P s'"
  using wp_snd [of m P s] by simp

lemma worker_round_ok:
  assumes "net_ok 0 [] h s" "response_worker_round s = Some s'"
  shows "net_ok 0 [] h s'"
proof -
  from assms(2) obtain r rest where q: "completed_queue s = Some r # rest" "s' = snd (respond r (s\<lparr>completed_queue := rest\<rparr>))"
    by (auto simp: response_worker_round_def split: if_splits list.splits option.splits)
  let ?s = "s\<lparr>completed_queue := rest\<rparr>"
  have "net_ok 1 (opt_list (ie_id r)) h ?s"
    using taken_net_ok [OF assms(1), of "requests (edge_queue s) @ (case held_response s of None \<Rightarrow> [] | Some r \<Rightarrow> [r])" r "requests rest" ?s] q
    by (simp add: work_defs)
  from wp_snd [OF respond_ok [OF this]] q(2) show ?thesis by simp
qed

lemma release_response_ok:
  assumes "net_ok 0 [] h s"
  shows "wp (release_owner_byte_response token) (\<lambda>_. net_ok 0 [] h) (\<lambda>_. net_ok 0 [] h) s"
proof (cases "held_response s")
  case None
  with assms show ?thesis by (simp add: release_owner_byte_response_def wp_simps)
next
  case (Some r)
  let ?s = "s\<lparr>held_response := None, owner_pending := Suc (owner_pending s)\<rparr>"
  have a: "net_ok 1 (opt_list (ie_id r)) h ?s"
    using taken_net_ok [OF assms, of "requests (edge_queue s)" r "requests (completed_queue s)" ?s] Some by (simp add: work_defs)
  have "wp (publish_owner_response r) (\<lambda>_. net_ok 0 [] h) (\<lambda>_. net_ok 0 [] h) ?s"
    by (rule wp_mono [OF publish_ok [OF a]]) auto
  with assms Some show ?thesis
    by (simp add: release_owner_byte_response_def wp_simps)
qed

end
