(* ===== verification/Net_Safety.thy ===== *)
theory Net_Safety
  imports Net_Owning
begin

text \<open>
  What a TCP backend guarantees in every history: no edge is applied twice and none is invented, an answer belongs to
  the edge that waits for it and was read since it began, and the pending count is the work that is left.
\<close>

section \<open>Calls\<close>

abbreviation keeps_ok :: "label list \<Rightarrow> 'a net_act \<Rightarrow> bool" where
  "keeps_ok h m \<equiv> keeps (stable (net_ok 0 [] h)) m"

lemma keeps_wpI: "(\<And>s. net_ok 0 [] h s \<Longrightarrow> wp m (\<lambda>_. net_ok 0 [] h) (\<lambda>_. net_ok 0 [] h) s) \<Longrightarrow> keeps_ok h m"
  by (rule keepsI) (auto simp: stable_def intro: wp_result)

lemma keeps_close_raise [net_keeps]: "keeps (stable (net_ok n k h)) (close_raise e)"
  unfolding close_raise_def by (intro keeps_intros net_keeps stable_preorder)

lemma keeps_queue_wait [net_keeps]: "keeps (stable (net_ok n k h)) (queue_wait pick timeout)"
  unfolding queue_wait_def by (intro keeps_intros net_keeps stable_preorder)

lemma keeps_local_core: "keeps (stable (net_ok n k h)) m \<Longrightarrow> keeps (stable (net_ok n k h)) (with_local_core m)"
  unfolding with_local_core_def by (intro keeps_intros stable_preorder; assumption)

lemma keeps_release: "keeps_ok h (release_owner_byte_response token)"
  by (rule keeps_wpI [OF release_response_ok])

lemma keeps_set_view: "(\<And>s. net_view (f s) = net_view s) \<Longrightarrow> keeps (stable (net_ok n k h)) (set_net f)"
  by (rule view_net [OF view_set_net])

lemma keeps_clear_leader [net_keeps]: "keeps (stable (net_ok n k h)) clear_leader"
  unfolding clear_leader_def by (rule net_keeps)

lemma keeps_sync_queue [net_keeps]: "keeps (stable (net_ok n k h)) (sync_queue v)" "keeps (stable (net_ok n k h)) (exchange_queue v)"
  unfolding sync_queue_def exchange_queue_def validate_id_def
  by (cases v; auto intro!: keeps_intros net_keeps)+

lemma keeps_send_sync [net_keeps]: "keeps (stable (net_ok n k h)) (send_sync m)"
  unfolding send_sync_def by (intro keeps_intros net_keeps stable_preorder)

lemma calls_keep:
  assumes "net_call m"
  shows "keeps_ok h m"
  using assms
proof cases
  case (1 token)
  then show ?thesis unfolding finish_owner_frame_def by (auto intro!: keeps_intros keeps_local_core keeps_release)
next
  case 13
  then show ?thesis unfolding exchange_wait_def by (auto intro!: keeps_intros net_keeps)
next
  case (16 c cb sh d)
  have "keeps_ok h (set_net (\<lambda>s. s\<lparr>local_core := c, irq_callback := cb, defer_bytes := d, core_detached := False\<rparr>))"
    "keeps_ok h (set_net (\<lambda>s. s\<lparr>local_core := c, irq_callback := cb, dispatch_to_owner := True, defer_bytes := d, receiver_started := True\<rparr>))"
    by (rule keeps_set_view; simp add: net_view_def)+
  with 16 show ?thesis unfolding start_receiver_def by (auto intro!: keeps_intros)
next
  case 17
  have "keeps_ok h (set_net (\<lambda>s. s\<lparr>local_core := None, irq_callback := None, defer_bytes := False, core_detached := True\<rparr>))"
    by (rule keeps_set_view) (simp add: net_view_def)
  with 17 show ?thesis unfolding detach_local_core_def by (auto intro!: keeps_intros net_keeps)
next
  case (19 n)
  have "keeps_ok h (set_net (\<lambda>s. s\<lparr>ring := r\<rparr>))" for r by (rule keeps_set_view) (simp add: net_view_def)
  with 19 show ?thesis unfolding enable_serial_transcript_def by (auto intro!: keeps_intros)
next
  case 20
  have "keeps_ok h (set_net (\<lambda>s. s\<lparr>ring := r\<rparr>))" for r by (rule keeps_set_view) (simp add: net_view_def)
  with 20 show ?thesis unfolding disable_serial_transcript_def by simp
next
  case 5
  then show ?thesis unfolding finish_leader_wait_def
    by (auto intro!: keeps_intros net_keeps simp: stable_def)
qed (auto simp: begin_leader_turn_def begin_follower_turn_def finish_leader_send_def follower_round_def finish_follower_send_def
    abort_frame_turn_def announce_sync_def poll_peer_sync_def sync_wait_def exchange_send_def observe_wire_def
    net_wait_for_hello_def net_stop_def validate_id_def split: pyval.split intro!: keeps_intros net_keeps)

section \<open>The master edge\<close>

text \<open>The caller moves on; a request it held may pass between its hand and the place it stands at.\<close>

lemma becomes_ok:
  assumes ok: "net_ok n k h s"
    and count: "length (crossing ph) + m = length (crossing (master s)) + n"
    and ids: "set (j @ id_list (to_answer ph)) \<subseteq> set (k @ id_list (to_answer (master s)))"
      "distinct (k @ id_list (to_answer (master s))) \<Longrightarrow> distinct (j @ id_list (to_answer ph))"
    and phase: "in_flight ph = in_flight (master s)" "phase_ok h (inflight_id (flight s)) (resp_queue (flight s)) ph"
  shows "net_ok m j h (s\<lparr>master := ph\<rparr>)"
proof -
  let ?s = "s\<lparr>master := ph\<rparr>"
  have d: "distinct (k @ id_list (claims s))" "set (k @ id_list (claims s)) \<subseteq> ids_pending (ids s)" using ok by (simp_all add: net_ok_def)
  then have "distinct (k @ id_list (to_answer (master s)))" by (auto simp: claims_def)
  then have "distinct (j @ id_list (to_answer ph))" by (rule ids(2))
  then have "distinct (j @ id_list (claims ?s))" "set (j @ id_list (claims ?s)) \<subseteq> ids_pending (ids s)"
    using d ids(1) by (auto simp: claims_def owed_def)
  moreover have "length (work ?s) + m = length (work s) + n" using count by (simp add: work_def owed_def)
  moreover have "flight_ok h ?s" using ok phase by (auto simp: net_ok_def flight_ok_def)
  ultimately show ?thesis using ok by (simp add: net_ok_def)
qed

lemma moves_ok:
  assumes "net_ok n k h s" "crossing ph = crossing (master s)" "to_answer ph = to_answer (master s)"
    "in_flight ph = in_flight (master s)" "phase_ok h (inflight_id (flight s)) (resp_queue (flight s)) ph"
  shows "net_ok n k h (s\<lparr>master := ph\<rparr>)"
  by (rule becomes_ok [OF assms(1)]) (simp_all add: assms)

lemma net_phase: "net_ok n k h s \<Longrightarrow> phase_ok h (inflight_id (flight s)) (resp_queue (flight s)) (master s)"
  by (simp add: net_ok_def flight_ok_def)

lemma wp_becomes [wp_simps]: "wp (becomes ph) Q E = (\<lambda>s. Q () (s\<lparr>master := ph\<rparr>))"
  by (simp add: becomes_def wp_simps)

lemma wp_leaves [wp_simps]: "wp (leaves m) Q E = wp m Q (\<lambda>e s. E e (s\<lparr>master := EdgeIdle\<rparr>))"
  by (simp add: leaves_def wp_simps)

lemma master_close [simp]: "master (net_close e s) = master s" "flight (net_close e s) = flight s"
  by (simp_all add: net_close_def Let_def signal_stop_work notify_change_def)

text \<open>The shared operations leave the caller where it stands.\<close>

definition same_master :: "net \<Rightarrow> net \<Rightarrow> bool" where
  "same_master s s' \<longleftrightarrow> master s' = master s \<and> flight s' = flight s"

lemma same_master_preorder [simp]: "reflp same_master" "transp same_master"
  by (auto simp: same_master_def reflp_def transp_def)

lemma view_master: "keeps same_view m \<Longrightarrow> keeps same_master m"
  by (simp add: keeps_def same_master_def same_viewD)

lemma master_response: "keeps same_master (send_edge_response r)"
proof -
  have "keeps same_master (remember_inbound_edge_response i b)" for i b
    unfolding remember_inbound_edge_response_def set_ids_def by (rule keeps_modify) (simp add: same_master_def)
  then show ?thesis
    unfolding send_edge_response_def transmit_response_def response_outcome_def
    by (intro keeps_intros same_master_preorder view_keeps [THEN view_master])
qed

lemma master_release: "keeps same_master (with_local_core (act_bind (act_get held_response) (\<lambda>held. case held of
    None \<Rightarrow> act_return () | Some r \<Rightarrow> release_owner_byte_response r)))"
proof -
  have "keeps same_master (publish_owner_response r)" for r
    unfolding publish_owner_response_def settle_if_def set_net_def close_with_def
    by (intro keeps_intros same_master_preorder)
      (simp_all add: same_master_def decrement_pending_def settle_owner_response_def notify_change_def)
  then show ?thesis
    unfolding with_local_core_def release_owner_byte_response_def set_net_def
    by (intro keeps_intros same_master_preorder) (simp_all add: same_master_def settle_owner_response_def)
qed

lemma wp_standing:
  "keeps same_master m \<Longrightarrow> wp m Q E s \<Longrightarrow>
   wp m (\<lambda>x s'. Q x s' \<and> master s' = master s \<and> flight s' = flight s) (\<lambda>e s'. E e s' \<and> master s' = master s \<and> flight s' = flight s) s"
  by (drule wp_conj [OF _ keeps_wp, rotated 1]) (auto simp: same_master_def elim: wp_mono)

subsection \<open>Up to the admission\<close>

abbreviation section_ok :: "label list \<Rightarrow> edge_phase \<Rightarrow> net \<Rightarrow> bool" where
  "section_ok h ph s \<equiv> wp (edge_section ph) (\<lambda>_. net_ok 0 [] h) (\<lambda>_. net_ok 0 [] h) s"

lemma held_sections_ok:
  assumes "net_ok 0 [] h s"
  shows "master s = Called b \<Longrightarrow> section_ok h (Called b) s" "master s = Releasing b \<Longrightarrow> section_ok h (Releasing b) s"
    "master s = Draining b \<Longrightarrow> section_ok h (Draining b) s" "master s = StaleFound \<Longrightarrow> section_ok h StaleFound s"
proof -
  assume "master s = Called b"
  with assms show "section_ok h (Called b) s" by (simp add: held_outstanding_def wp_simps moves_ok)
next
  assume m: "master s = Releasing b"
  have "wp (with_local_core (act_bind (act_get held_response) (\<lambda>held. case held of None \<Rightarrow> act_return () | Some r \<Rightarrow> release_owner_byte_response r)))
      (\<lambda>_. net_ok 0 [] h) (\<lambda>_. net_ok 0 [] h) s"
    by (rule wp_stable [OF keeps_local_core assms]) (auto intro!: keeps_intros keeps_release)
  from wp_standing [OF master_release this] m show "section_ok h (Releasing b) s"
    unfolding edge_section.simps release_held_def wp_leaves wp_then
    by (elim wp_mono) (auto simp: wp_simps intro: moves_ok)
next
  assume "master s = Draining b"
  with assms show "section_ok h (Draining b) s"
    by (simp add: held_written_def close_raise_def wp_simps moves_ok net_close_ok)
next
  assume "master s = StaleFound"
  with assms show "section_ok h StaleFound s"
    by (simp add: refuse_stale_def close_raise_def wp_simps moves_ok net_close_ok)
qed

lemma asked_edge [simp]: "is_edge l \<Longrightarrow> asked (h @ [l]) b i = asked h b i"
  by (cases l) (auto simp: asked_def)

lemma admit_edge_ok:
  assumes "net_ok 0 [] h s" "master s = Entering b"
  shows "wp (admit_edge b)
     (\<lambda>_ s'. (master s' = StaleFound \<longrightarrow> net_ok 0 [] h s') \<and> (master s' \<noteq> StaleFound \<longrightarrow> master s' = InFlight b \<and> net_ok 0 [] (h @ [Begun (inflight_id (flight s'))]) s'))
     (\<lambda>_ s'. net_ok 0 [] h s' \<and> master s' = EdgeIdle) s"
proof -
  let ?fl = "\<lambda>i fl. fl\<lparr>edge_inflight := True, inflight_id := i, response_seen := False, recip_bit := Some (b mod 2), recip_sent := False\<rparr>"
  have q: "queued_ok (h @ [Begun i]) r = queued_ok h r" for i r by (simp add: queued_ok_def)
  have legacy: "net_ok 0 [] (h @ [Begun None]) (s\<lparr>flight := ?fl None (flight s), master := InFlight b\<rparr>)" if "resp_queue (flight s) = []"
    using assms that by (simp add: net_ok_def work_defs flight_ok_def q answer_ok_def)
  have versioned: "net_ok 0 [] (h @ [Begun (Some (next_edge_id (ids s)))]) (s\<lparr>ids := (ids s)\<lparr>next_edge_id := Suc (next_edge_id (ids s))\<rparr>,
      flight := ?fl (Some (next_edge_id (ids s))) (flight s), master := InFlight b\<rparr>)" if "resp_queue (flight s) = []"
    using assms that by (auto simp: net_ok_def work_defs flight_ok_def ids_ok_def less_Suc_eq q answer_ok_def)
  have idle: "net_ok 0 [] h (s\<lparr>master := EdgeIdle\<rparr>)" "net_ok 0 [] h (s\<lparr>master := StaleFound\<rparr>)" using assms by (simp_all add: moves_ok)
  show ?thesis
    using legacy versioned idle by (simp add: admit_edge_def allocate_edge_id_def wp_simps)
qed

subsection \<open>In flight\<close>

lemma count_request_ok:
  assumes "net_ok 0 [] h s" "master s = InFlight b"
  shows "section_ok h (InFlight b) s"
proof -
  have "net_ok 0 [] h (s\<lparr>stats := x, ring := y, master := Counted b i\<rparr>)" if "inflight_id (flight s) = i" for i x y
    using assms net_phase [OF assms(1)] that by (intro moves_ok) simp_all
  then show ?thesis by (simp add: count_request_def wp_simps)
qed

lemma reserve_ok:
  assumes "net_ok 0 [] h s" "master s = Counted b i"
  shows "section_ok h (Counted b i) s"
proof -
  have ph: "i = inflight_id (flight s)" "answer_ok h i (resp_queue (flight s))" using net_phase [OF assms(1)] assms(2) by simp_all
  have none: "net_ok 0 [] h (t\<lparr>master := Reserved b i None\<rparr>)" if "net_ok 0 [] h t" "master t = Counted b i" for t
    using that net_phase [OF that(1)] by (intro moves_ok) simp_all
  show ?thesis
  proof (cases "edge_queue s")
    case Nil
    with none [OF assms] show ?thesis by (simp add: reserve_collision_def reserve_queued_master_collision_def wp_simps)
  next
    case (Cons e rest)
    show ?thesis
    proof (cases e)
      case None
      have "net_ok 0 [] h (s\<lparr>edge_queue := rest @ [None]\<rparr>)" using assms Cons None by (simp add: net_ok_def work_defs flight_ok_def)
      from none [OF this] none [OF assms] assms(2) Cons None show ?thesis
        by (simp add: reserve_collision_def reserve_queued_master_collision_def wp_simps)
    next
      case (Some r)
      let ?s = "s\<lparr>edge_queue := rest\<rparr>" and ?r = "r\<lparr>ie_response_bit := recip_bit (flight s)\<rparr>"
      have t: "net_ok 1 (opt_list (ie_id r)) h ?s"
        using taken_net_ok [OF assms(1), of "[]" r "requests rest @ (case held_response s of None \<Rightarrow> [] | Some r \<Rightarrow> [r]) @ requests (completed_queue s)" ?s] Cons Some
        by (auto simp: owed_def)
      have "net_ok 0 [] h (s\<lparr>edge_queue := Some (r\<lparr>ie_deferred := True\<rparr>) # rest\<rparr>)"
        using assms Cons Some by (simp add: net_ok_def work_defs flight_ok_def queued_ok_def)
      note deferred = none [OF this]
      have "net_ok 1 (opt_list (ie_id r)) h (?s\<lparr>flight := (flight s)\<lparr>recip_sent := True\<rparr>\<rparr>)"
        using t by (simp add: net_ok_def work_defs flight_ok_def)
      then have "net_ok 0 [] h (?s\<lparr>flight := (flight s)\<lparr>recip_sent := True\<rparr>, master := Reserved b i (Some ?r)\<rparr>)"
        by (rule becomes_ok) (use assms(2) ph in \<open>cases "ie_id r"; simp\<close>)+
      with deferred none [OF assms] assms(2) Cons Some show ?thesis
        by (simp add: reserve_collision_def reserve_queued_master_collision_def wp_simps)
    qed
  qed
qed

lemma write_request_ok:
  assumes "net_ok 0 [] h s" "master s = Reserved b i c"
  shows "section_ok h (Reserved b i c) s"
proof -
  have step: "net_ok 0 [] h (t\<lparr>master := ph\<rparr>)"
    if "same_view s t" "ph = (case c of None \<Rightarrow> Awaiting i | Some r \<Rightarrow> Written i r) \<or> ph = Failing e c" for t ph e
  proof (rule becomes_ok)
    show "net_ok 0 [] h t" using assms(1) that(1) by (simp add: same_view_ok)
  qed (use net_phase [OF assms(1)] that assms(2) in \<open>cases c; auto simp: same_viewD\<close>)+
  have "net_ok 0 [] h (t\<lparr>master := case c of None \<Rightarrow> Awaiting i | Some r \<Rightarrow> Written i r\<rparr>)" "net_ok 0 [] h (t\<lparr>master := Failing e c\<rparr>)"
    if "same_view s t" for t e
    using step [OF that, of _ e] by simp_all
  then show ?thesis
    unfolding edge_section.simps write_request_def wp_catch wp_then
    by (intro wp_same [OF view_send_frame]) (simp_all add: wp_simps)
qed

lemma count_collision_ok:
  assumes "net_ok 0 [] h s" "master s = Written i r"
  shows "section_ok h (Written i r) s"
proof -
  have "net_ok 0 [] h (s\<lparr>stats := x, ring := y, master := Answering i r\<rparr>)" for x y
    using assms net_phase [OF assms(1)] by (intro moves_ok) simp_all
  then show ?thesis by (simp add: count_collision_def wp_simps)
qed

lemma answer_collision_ok:
  assumes "net_ok 0 [] h s" "master s = Answering i r"
  shows "section_ok h (Answering i r) s"
proof -
  let ?s = "s\<lparr>master := Awaiting i\<rparr>"
  have "net_ok 1 (opt_list (ie_id r)) h ?s"
    by (rule becomes_ok [OF assms(1)]) (use assms(2) net_phase [OF assms(1)] in \<open>cases "ie_id r"; simp\<close>)+
  then have k: "net_ok 1 [] h ?s" "may_answer [] (ie_id r) ?s"
    using drop_held [of 1 "opt_list (ie_id r)" "[]"] may_answer_in_hand [of 1 "ie_id r" "[]"] by simp_all
  have "net_ok 0 [] h (decrement_pending t)" if "net_ok 1 [] h t" for t
    using that hand_dropped [of None] by simp
  moreover have "net_ok 0 [] h (t\<lparr>master := Failing e (Some r)\<rparr>)" if "net_ok 1 [] h t" "master t = Awaiting i" for e t
    by (rule becomes_ok [OF that(1)]) (use that(2) in simp_all)
  ultimately show ?thesis
    using wp_standing [OF master_response send_response_ok [OF k]]
    unfolding edge_section.simps answer_collision_def wp_then wp_becomes wp_catch
    by (elim wp_mono) (simp_all add: wp_simps)
qed

lemma wait_sections_ok:
  assumes "net_ok 0 [] h s"
  shows "master s = Awaiting i \<Longrightarrow> section_ok h (Awaiting i) s" "master s = Looking i \<Longrightarrow> section_ok h (Looking i) s"
    "master s = Looking i \<Longrightarrow> wp wait_expires (\<lambda>_. net_ok 0 [] h) (\<lambda>_. net_ok 0 [] h) s"
    "master s = Taken i b \<Longrightarrow> section_ok h (Taken i b) s" "master s = Consumed i b \<Longrightarrow> section_ok h (Consumed i b) s"
proof -
  note ph = net_phase [OF assms]
  assume m: "master s = Awaiting i"
  have "net_ok 0 [] h (s\<lparr>master := ph\<rparr>)" if "ph = Looking i \<or> ph = Failing e None" for ph e
    using assms m net_phase [OF assms] that by (intro moves_ok) auto
  then show "section_ok h (Awaiting i) s" by (simp add: look_for_answer_def wp_simps)
next
  assume m: "master s = Looking i"
  note p = net_phase [OF assms, unfolded m, simplified]
  have "net_ok 0 [] h (s\<lparr>master := Awaiting i\<rparr>)" using assms m p by (intro moves_ok) auto
  moreover have "net_ok 0 [] h (s\<lparr>flight := (flight s)\<lparr>resp_queue := q\<rparr>, master := Taken i b\<rparr>)" if "resp_queue (flight s) = b # q" for b q
    using assms m p that by (simp add: net_ok_def work_defs flight_ok_def answer_ok_def)
  ultimately show "section_ok h (Looking i) s"
    by (auto simp: take_answer_def wp_simps split: list.split)
next
  assume m: "master s = Looking i"
  show "wp wait_expires (\<lambda>_. net_ok 0 [] h) (\<lambda>_. net_ok 0 [] h) s"
    using assms m by (simp add: wait_expires_def wp_simps moves_ok net_close_ok)
next
  assume m: "master s = Taken i b"
  have "net_ok 0 [] h (s\<lparr>stats := x, flight := (flight s)\<lparr>response_seen := True\<rparr>, master := Consumed i b\<rparr>)" for x
    using assms m net_phase [OF assms] by (simp add: net_ok_def work_defs flight_ok_def)
  then show "section_ok h (Taken i b) s" by (simp add: note_answer_def wp_simps)
next
  assume m: "master s = Consumed i b"
  have "net_ok 0 [] h (s\<lparr>ring := x, master := Clearing (Inr (i, b))\<rparr>)" for x
    using assms m net_phase [OF assms] by (intro moves_ok) simp_all
  then show "section_ok h (Consumed i b) s" by (simp add: record_answer_def wp_simps)
qed

subsection \<open>The end\<close>

lemma failing_sections_ok:
  assumes "net_ok 0 [] h s"
  shows "master s = Failing e c \<Longrightarrow> section_ok h (Failing e c) s" "master s = Unwinding e c \<Longrightarrow> section_ok h (Unwinding e c) s"
proof -
  assume m: "master s = Failing e c"
  have "net_ok 0 [] h ((net_close (Some e) s)\<lparr>master := Unwinding e c\<rparr>)"
    by (rule moves_ok [OF net_close_ok [OF assms]]) (use m in \<open>cases c; simp\<close>)+
  then show "section_ok h (Failing e c) s" by (simp add: fail_edge_def wp_simps)
next
  assume m: "master s = Unwinding e c"
  have "net_ok 0 [] h (s\<lparr>master := Clearing (Inl e)\<rparr>)" if "c = None"
    using assms m that by (intro moves_ok) simp_all
  moreover have "net_ok 0 [] h ((decrement_pending s)\<lparr>master := Clearing (Inl e)\<rparr>)" if "c \<noteq> None"
  proof -
    have "net_ok 1 [] h (s\<lparr>master := Clearing (Inl e)\<rparr>)"
      by (rule becomes_ok [OF assms]) (use m that in auto)
    then have "net_ok 0 [] h (decrement_pending (s\<lparr>master := Clearing (Inl e)\<rparr>))" using hand_dropped [of None] by simp
    moreover have "(decrement_pending s)\<lparr>master := Clearing (Inl e)\<rparr> = decrement_pending (s\<lparr>master := Clearing (Inl e)\<rparr>)"
      by (simp add: decrement_pending_def notify_change_def)
    ultimately show ?thesis by simp
  qed
  ultimately show "section_ok h (Unwinding e c) s" by (simp add: unwind_edge_def wp_simps)
qed

text \<open>An answer that is returned was heard for this edge, and this edge had none before.\<close>

lemma cleared_ok:
  assumes "net_ok 0 [] h s" "master s = Clearing v"
  shows "net_ok 0 [] h ((clear_flight s)\<lparr>master := EdgeIdle\<rparr>)"
    "v = Inr (i, b) \<Longrightarrow> net_ok 0 [] (h @ [Answered i b]) ((clear_flight s)\<lparr>master := EdgeIdle\<rparr>) \<and> fresh h i b"
proof -
  show "net_ok 0 [] h ((clear_flight s)\<lparr>master := EdgeIdle\<rparr>)"
    using assms by (simp add: clear_flight_def notify_change_def net_ok_def work_defs flight_ok_def)
next
  assume v: "v = Inr (i, b)"
  have f: "i = inflight_id (flight s)" "fresh h i b" using net_phase [OF assms(1)] assms(2) v by simp_all
  have q: "queued_ok (h @ [Answered i b]) r = queued_ok h r" for i r by (simp add: queued_ok_def)
  have "net_ok 0 [] (h @ [Answered i b]) ((clear_flight s)\<lparr>master := EdgeIdle\<rparr>)"
    using assms v f(1) [symmetric] by (cases i) (auto simp: clear_flight_def notify_change_def net_ok_def work_defs flight_ok_def q)
  with f(2) show "net_ok 0 [] (h @ [Answered i b]) ((clear_flight s)\<lparr>master := EdgeIdle\<rparr>) \<and> fresh h i b" by blast
qed

section \<open>Every history\<close>

lemma phase_grows: "phase_ok h i q ph \<Longrightarrow> \<not> is_edge l \<Longrightarrow> phase_ok (h @ [l]) i q ph"
  by (cases "(h, i, q, ph)" rule: phase_ok.cases) (auto simp: answer_ok_def intro: fresh_mono)

lemma flight_grows: "flight_ok h s \<Longrightarrow> \<not> is_edge l \<Longrightarrow> flight_ok (h @ [l]) s"
  by (cases l) (auto simp: flight_ok_def intro: awaited_mono phase_grows)

lemma history_grows: "net_ok n k h s \<Longrightarrow> net_ok n k (h @ [Read f]) s" "net_ok n k h s \<Longrightarrow> net_ok n k (h @ [Silent]) s"
  by (auto simp: net_ok_def queued_ok_def intro: asked_mono flight_grows)

lemma id_listI: "r \<in> set rs \<Longrightarrow> ie_id r = Some i \<Longrightarrow> i \<in> set (id_list rs)"
  by (induction rs) auto

lemma performed_ok:
  assumes "performable h e s"
  shows "net_ok 0 [] (h @ [Performed e]) s"
proof -
  have "queued_ok (h @ [Performed e]) r" if "r \<in> set (requests (edge_queue s))" for r
  proof -
    have "queued_ok h r" using assms that by (simp add: performable_def net_ok_def)
    moreover note id_listI [OF that]
    ultimately show ?thesis
      using assms by (cases "ie_id e") (auto simp: queued_ok_def performable_def intro: asked_mono)
  qed
  moreover have "net_ok 0 [] h s" using assms by (simp add: performable_def)
  moreover note flight_grows [of h s "Performed e"]
  ultimately show ?thesis
    using assms by (cases "ie_id e") (auto simp: net_ok_def performable_def queued_ok_def)
qed

lemma local_core_ok:
  assumes "\<And>s. net_ok 0 [] h s \<Longrightarrow> wp m Q (\<lambda>_. net_ok 0 [] h) s" "net_ok 0 [] h s"
  shows "wp (with_local_core m) Q (\<lambda>_. net_ok 0 [] h) s"
  using assms by (simp add: with_local_core_def wp_simps)

text \<open>What a step reports is grounded in what was read before.\<close>

definition grounded :: "label list \<Rightarrow> label \<Rightarrow> bool" where
  "grounded h l \<longleftrightarrow> (case l of Performed e \<Rightarrow> asked h (ie_peer_bit e) (ie_id e) | Answered i b \<Rightarrow> fresh h i b | _ \<Rightarrow> True)"

lemma advance_ok:
  assumes "net_ok 0 [] h s" "master s \<noteq> EdgeIdle" "edge_section (master s) s = (r, s')"
  shows "net_ok 0 [] (h @ [edge_label (master s) s']) s' \<and> grounded h (edge_label (master s) s')"
proof -
  have silent: "edge_label (master s) s' = Silent \<Longrightarrow> section_ok h (master s) s \<Longrightarrow> ?thesis"
    using wp_result [of "edge_section (master s)" "net_ok 0 [] h" s r s'] assms(3) by (simp add: history_grows grounded_def)
  show ?thesis
  proof (cases "master s")
    case (Entering b)
    have "(master s' = StaleFound \<or> master s' = EdgeIdle) \<and> net_ok 0 [] h s'
        \<or> master s' = InFlight b \<and> net_ok 0 [] (h @ [Begun (inflight_id (flight s'))]) s'"
      using admit_edge_ok [OF assms(1) Entering] assms(3) Entering by (cases r) (auto simp: wp_def)
    with Entering show ?thesis by (auto simp: edge_label_def grounded_def history_grows)
  next
    case (Clearing v)
    have s': "s' = (clear_flight s)\<lparr>master := EdgeIdle\<rparr>"
      using assms(3) unfolding Clearing edge_section.simps clear_edge_def set_net_def becomes_def
      by (auto simp: act_then_def act_bind_def act_modify_def act_raise_def act_return_def split: sum.splits)
    show ?thesis
    proof (cases v)
      case (Inl e)
      with cleared_ok(1) [OF assms(1) Clearing] s' Clearing show ?thesis by (simp add: edge_label_def grounded_def history_grows)
    next
      case (Inr p)
      with cleared_ok(2) [OF assms(1) Clearing, of "fst p" "snd p"] s' Clearing show ?thesis
        by (cases p) (simp add: edge_label_def grounded_def)
    qed
  qed (use assms(1,2) silent in \<open>simp_all add: edge_label_def held_sections_ok count_request_ok reserve_ok write_request_ok
      count_collision_ok answer_collision_ok wait_sections_ok failing_sections_ok del: edge_section.simps\<close>)
qed

lemma step_ok:
  assumes "net_step s l s'" "net_ok 0 [] h s"
  shows "net_ok 0 [] (h @ [l]) s' \<and> grounded h l"
  using assms(1)
proof cases
  case (read f rest)
  have "net_ok 0 [] (h @ [Read f]) s'"
    using reader_round_ok [OF history_grows(1) [OF assms(2)] read(3)] read(2) by simp
  then show ?thesis by (simp add: read grounded_def)
next
  case (read_fails e rest)
  have "net_ok 0 [] h s'" by (rule reader_round_ok [OF assms(2) read_fails(3)]) (use read_fails(2) in simp)
  then show ?thesis by (simp add: read_fails grounded_def history_grows)
next
  case (perform v e)
  have "wp (with_local_core service_one) (serviced_ok h) (\<lambda>_. net_ok 0 [] h) s"
    by (rule local_core_ok [OF service_one_ok assms(2)])
  with perform have "serviced_ok h v s'" by (simp add: wp_def)
  with perform(4) have "performable h e s'" by (auto simp: serviced_ok_def)
  with performed_ok [OF this] show ?thesis by (simp add: perform(1) grounded_def performable_def queued_ok_def)
next
  case postpone
  have "wp (with_local_core service_one) (serviced_ok h) (\<lambda>_. net_ok 0 [] h) s"
    by (rule local_core_ok [OF service_one_ok assms(2)])
  with postpone have "net_ok 0 [] h s'" by (simp add: wp_def serviced_ok_def)
  then show ?thesis by (simp add: postpone grounded_def history_grows)
next
  case (perform_fails err)
  have "wp (with_local_core service_one) (serviced_ok h) (\<lambda>_. net_ok 0 [] h) s"
    by (rule local_core_ok [OF service_one_ok assms(2)])
  with perform_fails have "net_ok 0 [] h s'" by (simp add: wp_def)
  then show ?thesis by (simp add: perform_fails grounded_def history_grows)
next
  case respond
  with worker_round_ok [OF assms(2)] show ?thesis by (simp add: grounded_def history_grows)
next
  case (enter b)
  have "net_ok 0 [] h s'" using assms(2) enter by (simp add: moves_ok)
  then show ?thesis by (simp add: enter grounded_def history_grows)
next
  case (advance r)
  from advance_ok [OF assms(2) advance(2,3)] show ?thesis by (simp add: advance)
next
  case (expire i r)
  from wp_result [OF wait_sections_ok(3) [OF assms(2) expire(2)] expire(3)] show ?thesis by (simp add: expire grounded_def history_grows)
next
  case (abandon b)
  have "net_ok 0 [] h s'" using assms(2) abandon by (simp add: moves_ok)
  then show ?thesis by (simp add: abandon grounded_def history_grows)
next
  case (call m r)
  from keepsD [OF calls_keep [OF call(2)] call(3)] assms(2) show ?thesis
    by (simp add: call stable_def grounded_def history_grows)
qed (use assms(2) in \<open>simp_all add: grounded_def history_grows\<close>)

lemma net_created_ok:
  assumes "new_backend rom script sends = (Inr (), s)"
  shows "net_ok 0 [] [] s"
proof -
  have "net_ok 0 [] [] (blank_backend rom script sends)"
    by (simp add: net_ok_def blank_backend_def ids_ok_def new_ids_def work_defs flight_ok_def no_flight_def performed_ids_def answered_ids_def)
  moreover have "keeps_ok [] (send_hello r)" for r
    unfolding send_hello_def by (intro net_keeps)
  ultimately show ?thesis
    using assms by (cases rom; simp add: new_backend_def act_return_def) (metis keepsD stable_def)
qed

theorem run_ok:
  assumes "net_run s0 h s"
  shows "net_ok 0 [] h s \<and> (\<forall>h1 l h2. h = h1 @ l # h2 \<longrightarrow> grounded h1 l)"
  using assms
proof induction
  case (created rom script sends s)
  then show ?case by (simp add: net_created_ok)
next
  case (stepped s0 h s l s')
  from step_ok [OF stepped(2)] stepped(3) have ok: "net_ok 0 [] (h @ [l]) s'" "grounded h l" by auto
  have "grounded h1 l'" if "h @ [l] = h1 @ l' # h2" for h1 l' h2
    using that stepped(3) ok(2) by (cases h2 rule: rev_cases) auto
  with ok(1) show ?case by blast
qed

end
