(* ===== verification/Net_Histories.thy ===== *)
theory Net_Histories
  imports Net_Safety
begin

text \<open>
  The properties of a TCP backend over all its histories, and the runs they are applied to; the end of a
  connection that cuts a frame, the replay of a duplicate, and the keep-alive byte.
\<close>

section \<open>Two runs to speak about\<close>

text \<open>The peer's edge 5 arrives at an armed slave, is applied and answered, and arrives again.\<close>

definition demo_slave :: core where
  "demo_slave = set_SC 0x80 (set_SB 0xA5 (new_core False))"

definition demo_start :: net where
  "demo_start = snd (new_backend None [Readable (pack_frame (edge_request 1 (Some 5)))] [Wrote 6])"

definition demo_attached :: net where
  "demo_attached = snd (start_receiver (Some demo_slave) None True True False demo_start)"

definition demo_read :: net where
  "demo_read = the (reader_round demo_attached)"

definition demo_performed :: net where
  "demo_performed = snd (with_local_core service_one demo_read)"

definition demo_edge :: inbound_edge where
  "demo_edge = (case fst (with_local_core service_one demo_read) of Inr (Applied e) \<Rightarrow> e | _ \<Rightarrow> inbound 0 0 None)"

lemma demo_starts: "net_run demo_start [] demo_start"
  by (rule net_run.created [of None "[Readable (pack_frame (edge_request 1 (Some 5)))]" "[Wrote 6]"])
    (simp add: demo_start_def new_backend_def act_return_def)

lemma demo_attaches: "net_run demo_start [Silent] demo_attached"
proof -
  have "net_step demo_start Silent demo_attached"
    unfolding demo_attached_def by (rule net_step.call [OF net_call.intros(16) prod.collapse [symmetric]])
  from net_run.stepped [OF demo_starts this] show ?thesis by simp
qed

lemma demo_reads: "net_run demo_start [Silent, Read (edge_request 1 (Some 5))] demo_read"
proof -
  have "case recv_frame (incoming demo_attached) of
      Received f rest \<Rightarrow> f_opcode f = OP_EDGE_REQ_ID \<and> f_payload f = 1 \<and> f_id f = Some 5 \<and> f_data f = [] | _ \<Rightarrow> False"
    by code_simp
  then obtain rest where r: "recv_frame (incoming demo_attached) = Received (edge_request 1 (Some 5)) rest"
    by (auto simp: edge_request_def plain_def split: recv.splits)
  have "case reader_round demo_attached of None \<Rightarrow> False | Some _ \<Rightarrow> True" by code_simp
  then have "reader_round demo_attached = Some demo_read" by (auto simp: demo_read_def split: option.splits)
  from net_run.stepped [OF demo_attaches net_step.read [OF r this]] show ?thesis by simp
qed

lemma demo_performs: "net_run demo_start [Silent, Read (edge_request 1 (Some 5)), Performed demo_edge] demo_performed"
proof -
  have "case fst (with_local_core service_one demo_read) of Inr (Applied e) \<Rightarrow> True | _ \<Rightarrow> False" by code_simp
  then have "fst (with_local_core service_one demo_read) = Inr (Applied demo_edge)"
    by (auto simp: demo_edge_def split: sum.splits serviced.splits)
  then have p: "with_local_core service_one demo_read = (Inr (Applied demo_edge), demo_performed)"
    by (simp add: demo_performed_def prod_eq_iff)
  have "dispatch_to_owner demo_read" by code_simp
  from net_run.stepped [OF demo_reads net_step.perform [OF this p]] show ?thesis by simp
qed











section \<open>Histories\<close>

text \<open>
  C7. In every history of a backend - any order of its reader, owner, response worker and frame calls, any
  bytes from the peer, any close - no identified edge is applied to the local core twice, and every edge that is
  applied was read from the wire before, with that bit and that identifier.
\<close>

theorem no_edge_applied_twice:
  assumes "net_run s0 h s"
  shows "distinct (performed_ids h) \<and> (\<forall>h1 e h2. h = h1 @ Performed e # h2 \<longrightarrow> asked h1 (ie_peer_bit e) (ie_id e))"
proof -
  have "distinct (performed_ids h)" using run_ok [OF assms] by (simp add: net_ok_def)
  moreover have "grounded h1 (Performed e)" if "h = h1 @ Performed e # h2" for h1 e h2
    using run_ok [OF assms] that by blast
  ultimately show ?thesis by (simp add: grounded_def)
qed

theorem no_edge_applied_twice_witness:
  "\<exists>s0 h s. net_run s0 h s \<and> performed_ids h = [5] \<and> asked (take 2 h) 1 (Some 5)"
proof -
  have "ie_id demo_edge = Some 5" "ie_peer_bit demo_edge = 1" by code_simp+
  moreover have "asked [Silent, Read (edge_request 1 (Some 5))] (ie_peer_bit demo_edge) (ie_id demo_edge)"
    using no_edge_applied_twice [OF demo_performs, THEN conjunct2, rule_format, of _ demo_edge "[]"] by simp
  ultimately show ?thesis
    by (intro exI [of _ demo_start] exI [of _ "[Silent, Read (edge_request 1 (Some 5)), Performed demo_edge]"]
        exI [of _ demo_performed] conjI demo_performs) (simp_all add: performed_ids_def)
qed



text \<open>
  C9. At every moment of an open backend the pending count is the number of requests queued, held, waiting to be
  answered or in the hand of a master edge they cross, and a backend that is closed counts none. So when the barrier
  observes an idle wire, no admitted request is left unanswered and no edge is in flight.
\<close>

theorem pending_counts_the_work:
  assumes "net_run s0 h s"
  shows "edge_pending s = (if net_closed s then 0 else length (work s))
    \<and> (observe_wire allow s = (Inr WireIdle, s') \<longrightarrow> work s = [] \<and> \<not> edge_inflight (flight s) \<and> resp_queue (flight s) = [])"
proof -
  have "net_ok 0 [] h s" using run_ok [OF assms] by blast
  then have "edge_pending s = (if net_closed s then 0 else length (work s))" by (simp add: net_ok_def)
  then show ?thesis
    by (auto simp: observe_wire_def act_bind_def act_get_def act_return_def act_raise_def split: if_splits)
qed

theorem pending_counts_the_work_witness:
  "\<exists>s0 h s. net_run s0 h s \<and> \<not> net_closed s \<and> edge_pending s = 1 \<and> length (work s) = 1"
proof -
  have "edge_pending demo_read = 1" "\<not> net_closed demo_read" by code_simp+
  moreover have "edge_pending demo_read = (if net_closed demo_read then 0 else length (work demo_read))"
    using pending_counts_the_work [OF demo_reads] by blast
  ultimately show ?thesis
    by (intro exI [of _ demo_start] exI [of _ "[Silent, Read (edge_request 1 (Some 5))]"] exI [of _ demo_read] conjI demo_reads) simp_all
qed

section \<open>The end of a connection\<close>

text \<open>
  C11. A peer that disappears after the two header bytes of an identified edge or of an exchange leaves a frame cut
  in the middle, and the backend closes as it does for an orderly end: without an error, so that the barrier which
  tolerates a peer's close accepts it. A frame cut inside its header closes with one.
\<close>

theorem cut_frame_closes_in_order:
  assumes "\<not> net_closed s" "reader_exc s = None" "flight s = no_flight" "identified opcode \<or> opcode = OP_NET_EXCHANGE"
  shows "(\<exists>s'. reader_round (s\<lparr>incoming := Readable [opcode, b] # Readable [] # rest\<rparr>) = Some s' \<and> net_closed s' \<and> reader_exc s' = None
        \<and> fst (observe_wire True s') = Inr WireClosed)
    \<and> (\<exists>s'. reader_round (s\<lparr>incoming := Readable [opcode] # Readable [] # rest\<rparr>) = Some s' \<and> net_closed s' \<and> reader_exc s' = Some ClosedMidFrame
        \<and> fst (observe_wire True s') = Inl BackendClosed)"
proof -
  have c: "reader_exc (net_close e t) = (if e = None then reader_exc t else e)" "edge_pending (net_close e t) = 0"
    "flight (net_close e t) = flight t" if "\<not> net_closed t" for e t
    using that by (simp_all add: net_close_def Let_def signal_worker_stop_def notify_change_def split: option.split)
  have w: "fst (observe_wire True t) = (if reader_exc t = None then Inr WireClosed else Inl BackendClosed)"
    if "net_closed t" "edge_pending t = 0" "flight t = no_flight" for t
    using that by (simp add: observe_wire_def no_flight_def act_bind_def act_get_def act_return_def act_raise_def)
  have "recv_frame (Readable [opcode, b] # Readable [] # rest) = Raised PeerClosed rest"
    using assms(4) by (auto simp: recv_frame_def recv_exactly_def recv_edge_id_def recv_block_def recv_loop.simps)
  moreover have "recv_frame (Readable [opcode] # Readable [] # rest) = Raised ClosedMidFrame rest"
    by (simp add: recv_frame_def recv_exactly_def recv_loop.simps)
  ultimately show ?thesis
    using assms(1-3) by (simp add: reader_round_def reader_closes_def c w)
qed

theorem cut_frame_closes_in_order_witness:
  "\<exists>s'. reader_round (blank_backend (Some Red) [Readable [0x12, 1], Readable []] []) = Some s' \<and> reader_exc s' = None
     \<and> fst (observe_wire True s') = Inr WireClosed"
  using cut_frame_closes_in_order [of "blank_backend (Some Red) [] []" "0x12" 1 "[]"]
  by (auto simp: blank_backend_def identified_def opcode_defs)

section \<open>Duplicates\<close>

text \<open>
  A duplicate of a request that was answered is answered again with the remembered bit, whatever bit it
  carries, and nothing else happens: the core, the queues, the identifiers and the pending count are as before.
\<close>

theorem duplicate_is_replayed:
  assumes "\<not> net_closed s" "id_responses (ids s) i = Some v" "v \<le> 1" "1 \<le> i" "int i \<le> EDGE_ID_MAX" "ids_ok (ids s)"
    and "recv_frame (incoming s) = Received (edge_request b (Some i)) rest" "b \<le> 1" "outgoing s = Wrote n # sends" "n \<ge> 6"
  shows "\<exists>s'. reader_round s = Some s' \<and> wire_out s' = wire_out s @ pack_frame (edge_response v (Some i)) \<and> \<not> net_closed s'
     \<and> local_core s' = local_core s \<and> edge_queue s' = edge_queue s \<and> completed_queue s' = completed_queue s
     \<and> ids s' = ids s \<and> edge_pending s' = edge_pending s"
proof -
  let ?f = "edge_request b (Some i)"
  have f: "f_opcode ?f = OP_EDGE_REQ_ID" "unat (f_payload ?f) = b" "f_id ?f = Some i"
    using assms(8) by (auto simp: edge_request_def plain_def unat_of_nat)
  have frame: "length (pack_frame (edge_response v (Some i))) = 6" "pack_frame (edge_response v (Some i)) \<noteq> []"
    by (simp_all add: pack_frame_def edge_response_def plain_def opcode_defs)
  then obtain x xs where x: "pack_frame (edge_response v (Some i)) = x # xs" "length xs = 5" by (cases "pack_frame (edge_response v (Some i))") auto
  have send: "send_loop (pack_frame (edge_response v (Some i))) (Wrote n # sends) = (Inr (), pack_frame (edge_response v (Some i)), sends)"
    using assms(10) x by simp
  have rem: "remember_id (Some i) v (ids s) = ids s"
  proof -
    have "i \<notin> ids_pending (ids s)" using assms(2,6) by (auto simp: ids_ok_def)
    with assms(2) show ?thesis by (simp add: remember_id_def release_id_def)
  qed
  have d: "dispatch_frame ?f = read_edge_request b (Some i)"
    by (simp add: dispatch_frame_def f opcode_defs)
  obtain s' where s': "dispatch_frame ?f (s\<lparr>incoming := rest\<rparr>) = (Inr (), s')"
    "wire_out s' = wire_out s @ pack_frame (edge_response v (Some i))" "\<not> net_closed s'" "local_core s' = local_core s"
    "edge_queue s' = edge_queue s" "completed_queue s' = completed_queue s" "ids s' = ids s" "edge_pending s' = edge_pending s"
    using assms(1-5,8,9) send rem unfolding d
    by (simp add: read_edge_request_def claim_inbound_edge_id_def replay_response_def send_edge_response_def inbound_def
        transmit_response_def response_outcome_def remember_inbound_edge_response_def send_net_frame_def set_ids_def
        record_event_def bump_def bump_if_def act_bind_def act_get_def act_then_def act_return_def act_modify_def act_catch_def act_unless_def)
  with assms(1,7) show ?thesis by (intro exI [of _ s']) (simp add: reader_round_def)
qed

definition answered_five :: net where
  "answered_five = (blank_backend None [Readable (pack_frame (edge_request 0 (Some 5)))] [Wrote 6])
     \<lparr>ids := remember_id (Some 5) 1 (new_ids\<lparr>highest_inbound := 5, ids_pending := {5}\<rparr>)\<rparr>"

theorem duplicate_is_replayed_witness:
  "\<exists>s'. reader_round answered_five = Some s' \<and> wire_out s' = [0x13, 1, 0, 0, 0, 5] \<and> edge_queue s' = []"
proof -
  have ids: "ids answered_five = \<lparr>next_edge_id = 1, highest_inbound = 5, ids_pending = {}, id_responses = [5 \<mapsto> 1], id_order = [5]\<rparr>"
    by (simp add: answered_five_def new_ids_def remember_id_def release_id_def evict.simps EDGE_RESPONSE_HISTORY_MAX_def)
  have "case recv_frame (incoming answered_five) of
      Received f rest \<Rightarrow> f_opcode f = OP_EDGE_REQ_ID \<and> f_payload f = 0 \<and> f_id f = Some 5 \<and> f_data f = [] | _ \<Rightarrow> False"
    by code_simp
  then obtain rest where r: "recv_frame (incoming answered_five) = Received (edge_request 0 (Some 5)) rest"
    by (auto simp: edge_request_def plain_def split: recv.splits)
  have st: "\<not> net_closed answered_five" "outgoing answered_five = Wrote 6 # []" "wire_out answered_five = []" "edge_queue answered_five = []"
    by (simp_all add: answered_five_def blank_backend_def)
  have "ids_ok (ids answered_five)" by (simp add: ids ids_ok_def EDGE_RESPONSE_HISTORY_MAX_def)
  moreover have "id_responses (ids answered_five) 5 = Some 1" by (simp add: ids)
  moreover have "be_bytes 4 5 = [0, 0, 0, 5]" by (simp add: eval_nat_numeral)
  then have "pack_frame (edge_response 1 (Some 5)) = [0x13, 1, 0, 0, 0, 5]"
    by (simp add: pack_frame_def edge_response_def plain_def opcode_defs)
  ultimately show ?thesis
    using duplicate_is_replayed [of answered_five 5 1 0 rest 6 "[]"] r st by (auto simp: EDGE_ID_MAX_def)
qed

end
