(* ===== verification/Execution_Adapter.thy ===== *)
theory Execution_Adapter
  imports Emulated_Time Wire_Codec Actions
begin

text \<open>
  The bridge between the motherboard's execution hooks and the time permits of the coordinator
  (\<open>link/execution_adapter.py\<close>). The world holds the coordinator, what the adapter reads of the board, and
  the rest; the instruction counter, the progress callback, the monotonic clock and the board's governor
  setter are functions on the world. They cannot touch the adapter's own fields: every public operation
  of the adapter they could call while one is running raises before it changes any. Times are in units of
  the monotonic clock.
\<close>

subsection \<open>State\<close>

text \<open>Python's equality: a bool equals the integer of its value.\<close>

definition py_number :: "pyval \<Rightarrow> pyval" where
  "py_number v = (case v of PyBool b \<Rightarrow> PyInt (of_bool b) | _ \<Rightarrow> v)"

definition py_eq :: "pyval \<Rightarrow> pyval \<Rightarrow> bool" where
  "py_eq v w \<longleftrightarrow> py_number v = py_number w"

text \<open>
  What the adapter and its callbacks raise. The last four are raised by the callbacks of the timed session:
  the errors of the wire, a misuse, a bad argument, and an error that the serial core has latched.
\<close>

datatype adapter_error =
    Timing time_error
  | DeadlineError string
  | AttributeError
  | WireFault wire_error
  | RuntimeFault string
  | ArgumentFault exn
  | BackendFailure adapter_error

datatype hook = NoHook | OwnHook | OtherHook

record board =
  board_cycles :: pyval
  board_double :: pyval
  board_count :: pyval
  board_clock :: pyval
  board_speed :: pyval
  hook_before :: hook
  hook_after :: hook

record 'x world =
  co :: coord
  mb :: board
  rest :: 'x

record observation =
  ob_raw :: pyval
  ob_speed :: pyval
  ob_count :: pyval
  ob_clock :: pyval
  ob_tspeed :: pyval

record adapter =
  timeout :: int
  attempts :: nat
  attached :: bool
  retired :: bool
  depth :: nat
  owner_active :: bool
  ad_permit :: "permit option"
  start :: "observation option"
  last_counter :: "int option"
  start_counter :: int
  ad_kind :: string
  required :: int

text \<open>The progress callback may look at the adapter.\<close>

record 'x env =
  counter :: "'x world \<Rightarrow> (adapter_error + pyval) \<times> 'x world"
  wait_progress :: "adapter \<Rightarrow> int \<Rightarrow> 'x world \<Rightarrow> (adapter_error + unit) \<times> 'x world"
  monotonic :: "'x world \<Rightarrow> int \<times> 'x world"
  set_governor :: "bool \<Rightarrow> 'x world \<Rightarrow> (adapter_error + unit) \<times> 'x world"

type_synonym 'x sys = "adapter \<times> 'x world"
type_synonym ('x, 'a) gov = "('x sys, adapter_error, 'a) act"

text \<open>\<open>None\<close> is a timeout that is not a finite number.\<close>

definition new_adapter :: "bool \<Rightarrow> int option \<Rightarrow> pyval \<Rightarrow> exn + adapter" where
  "new_adapter callables wait_timeout max_wait_attempts =
     (if \<not> callables then Inl TypeError
      else case wait_timeout of
        None \<Rightarrow> Inl ValueError
      | Some t \<Rightarrow>
          if t \<le> 0 then Inl ValueError
          else if \<not> int_at_least 1 max_wait_attempts then Inl ValueError
          else Inr \<lparr>timeout = t, attempts = nat (the_int max_wait_attempts), attached = False, retired = False, depth = 0,
                    owner_active = False, ad_permit = None, start = None, last_counter = None, start_counter = 0,
                    ad_kind = [], required = 0\<rparr>)"

subsection \<open>Small steps\<close>

definition in_world :: "('x world \<Rightarrow> (adapter_error + 'a) \<times> 'x world) \<Rightarrow> ('x, 'a) gov" where
  "in_world f s = (case f (snd s) of (r, w) \<Rightarrow> (r, fst s, w))"

definition set_ad :: "(adapter \<Rightarrow> adapter) \<Rightarrow> ('x, unit) gov" where
  "set_ad f = act_modify (\<lambda>s. (f (fst s), snd s))"

text \<open>A call of the coordinator; what it raises propagates.\<close>

definition coordinator :: "(coord \<Rightarrow> 'a outcome) \<Rightarrow> ('x, 'a) gov" where
  "coordinator f = in_world (\<lambda>w. case f (co w) of
       (Inl e, c) \<Rightarrow> (Inl (Timing e), w\<lparr>co := c\<rparr>) | (Inr x, c) \<Rightarrow> (Inr x, w\<lparr>co := c\<rparr>))"

definition raise_time :: "string \<Rightarrow> ('x, 'a) gov" where
  "raise_time message = act_raise (Timing (EmulatedTimeError message))"

definition fail_adapter :: "string \<Rightarrow> ('x, 'a) gov" where
  "fail_adapter message = act_then (coordinator close) (raise_time message)"

definition fail_if :: "bool \<Rightarrow> string \<Rightarrow> ('x, unit) gov" where
  "fail_if b message = act_unless (\<not> b) (fail_adapter message)"

definition now :: "'x env \<Rightarrow> ('x, int) gov" where
  "now en = in_world (\<lambda>w. case monotonic en w of (t, w') \<Rightarrow> (Inr t, w'))"

definition read_counter :: "'x env \<Rightarrow> ('x, int) gov" where
  "read_counter en =
     act_bind (in_world (counter en)) (\<lambda>v. act_bind (act_get (last_counter \<circ> fst)) (\<lambda>previous.
       if \<not> int_at_least 0 v \<or> (case previous of None \<Rightarrow> False | Some n \<Rightarrow> the_int v < n)
       then raise_time ''instruction counter must be a monotonic nonnegative int''
       else act_then (set_ad (\<lambda>a. a\<lparr>last_counter := Some (the_int v)\<rparr>)) (act_return (the_int v))))"

definition view :: "board \<Rightarrow> observation" where
  "view b = \<lparr>ob_raw = board_cycles b, ob_speed = board_double b, ob_count = board_count b, ob_clock = board_clock b, ob_tspeed = board_speed b\<rparr>"

definition observe :: "bool \<Rightarrow> ('x, observation) gov" where
  "observe strict = act_bind (act_get (\<lambda>s. (attached (fst s), view (mb (snd s))))) (\<lambda>(on, ob).
     if \<not> on then act_raise AttributeError
     else if \<not> int_at_least 0 (ob_raw ob) \<or> (strict \<and> \<not> is_bool (ob_speed ob)) then raise_time ''invalid motherboard clock or rate''
     else act_return ob)"

definition ob_eq :: "observation \<Rightarrow> observation \<Rightarrow> bool" where
  "ob_eq x y \<longleftrightarrow> py_eq (ob_raw x) (ob_raw y) \<and> py_eq (ob_speed x) (ob_speed y) \<and> py_eq (ob_count x) (ob_count y)
     \<and> py_eq (ob_clock x) (ob_clock y) \<and> py_eq (ob_tspeed x) (ob_tspeed y)"

definition registered :: "'x sys \<Rightarrow> bool" where
  "registered s \<longleftrightarrow> attached (fst s) \<and> hook_before (mb (snd s)) = OwnHook \<and> hook_after (mb (snd s)) = OwnHook"

definition time_view :: "('x, time_snapshot) gov" where
  "time_view = act_get (\<lambda>s. snapshot (co (snd s)))"

subsection \<open>Attaching and detaching\<close>

definition fresh_epoch :: "time_snapshot \<Rightarrow> bool" where
  "fresh_epoch t \<longleftrightarrow> \<not> s_closed t \<and> \<not> s_cancelled t \<and> s_local t = 0 \<and> s_peer t = 0 \<and> s_debt t = 0 \<and> \<not> s_pending_permit t
     \<and> \<not> s_pending_delivery t \<and> s_observed_raw t = s_raw t"

definition attach_body :: "'x env \<Rightarrow> time_snapshot \<Rightarrow> ('x, unit) gov" where
  "attach_body en t =
     act_bind (observe True) (\<lambda>ob.
     if \<not> (py_eq (ob_raw ob) (PyInt (s_raw t)) \<and> py_eq (ob_speed ob) (PyBool (s_double_speed t)))
     then raise_time ''motherboard clock/rate does not match coordinator''
     else if \<not> int_at_least 0 (ob_count ob) \<or> \<not> int_at_least 0 (ob_clock ob) \<or> \<not> is_bool (ob_tspeed ob)
     then raise_time ''invalid motherboard transition metadata''
     else act_then (read_counter en) (act_bind (observe True) (\<lambda>ob'.
       if \<not> ob_eq ob' ob then raise_time ''instruction counter mutated motherboard''
       else in_world (set_governor en True))))"

definition attach :: "'x env \<Rightarrow> ('x, unit) gov" where
  "attach en = act_bind (act_get id) (\<lambda>s.
     if retired (fst s) \<or> attached (fst s) \<or> depth (fst s) \<noteq> 0 then raise_time ''adapter is attached or retired''
     else if \<not> fresh_epoch (snapshot (co (snd s))) then raise_time ''attachment requires a fresh open coordinator epoch''
     else if hook_before (mb (snd s)) \<noteq> NoHook \<or> hook_after (mb (snd s)) \<noteq> NoHook
     then raise_time ''motherboard already has execution callbacks''
     else act_then (set_ad (\<lambda>a. a\<lparr>attached := True\<rparr>))
       (act_catch (attach_body en (snapshot (co (snd s))))
          (\<lambda>e. act_then (set_ad (\<lambda>a. a\<lparr>attached := False\<rparr>)) (act_then (coordinator close) (act_raise e)))))"

definition detach :: "'x env \<Rightarrow> ('x, unit) gov" where
  "detach en = act_bind (act_get id) (\<lambda>s.
     if owner_active (fst s) \<or> depth (fst s) \<noteq> 0 \<or> ad_permit (fst s) \<noteq> None
     then raise_time ''cannot detach during an execution callback pair''
     else act_then
       (if attached (fst s)
        then act_then (fail_if (\<not> registered s) ''execution callback registration changed'') (in_world (set_governor en False))
        else act_return ())
       (act_then (set_ad (\<lambda>a. a\<lparr>attached := False, retired := True\<rparr>)) (coordinator close)))"

subsection \<open>Accounting of an interval\<close>

definition invalid_transition :: transition_arg where
  "invalid_transition = SpeedTransition (PyInt (-1)) (PyBool False)"

definition transition :: "observation \<Rightarrow> observation \<Rightarrow> pyval \<Rightarrow> pyval \<Rightarrow> pyval \<Rightarrow> transition_arg" where
  "transition st ob n clock speed =
     (let valid_types = int_at_least 0 n \<and> int_at_least 0 clock \<and> is_bool speed \<and> is_bool (ob_speed ob)
      in if valid_types \<and> the_int n = 0 \<and> py_eq (ob_speed st) (ob_speed ob) then NoTransition
         else if valid_types \<and> the_int n = 1 \<and> the_int (ob_raw st) \<le> the_int clock \<and> the_int clock \<le> the_int (ob_raw ob)
                 \<and> py_eq speed (ob_speed ob) \<and> \<not> py_eq speed (ob_speed st)
         then SpeedTransition clock speed
         else invalid_transition)"

text \<open>Whether it raises or not, a permit the coordinator no longer holds is forgotten.\<close>

definition forget_settled :: "'x sys \<Rightarrow> 'x sys" where
  "forget_settled s = (if s_pending_permit (snapshot (co (snd s))) then s else (fst s\<lparr>ad_permit := None\<rparr>, snd s))"

definition record_interval :: "observation \<Rightarrow> int \<Rightarrow> transition_arg \<Rightarrow> ('x, unit) gov" where
  "record_interval ob instrs tr =
     act_finally (act_bind (act_get fst) (\<lambda>a.
       let st = the (start a); ref = Issued (permit_token (the (ad_permit a)))
       in if py_eq (ob_raw ob) (ob_raw st) \<and> py_eq (ob_speed ob) (ob_speed st) \<and> instrs = 0 \<and> tr = NoTransition
          then act_then (coordinator (discard_unconsumed_permit ref (ob_raw ob) (PyInt instrs) (Some (ob_speed ob)))) (act_return ())
          else act_then (coordinator (commit ref (ob_raw ob) (PyInt instrs) tr)) (act_return ())))
       forget_settled"

text \<open>The actuals of an interval that an exception cut short; an interrupted counter counts as invalid.\<close>

definition recover_actuals :: "'x env \<Rightarrow> ('x, unit) gov" where
  "recover_actuals en =
     act_bind (act_catch (act_bind (read_counter en) (\<lambda>n. act_bind (act_get (start_counter \<circ> fst)) (\<lambda>n0. act_return (n - n0))))
                (\<lambda>_. act_return (- 1))) (\<lambda>instrs.
     act_bind (observe False) (\<lambda>ob. act_bind (act_get (the \<circ> start \<circ> fst)) (\<lambda>st.
       let n = (if int_at_least 0 (ob_count ob) \<and> int_at_least 0 (ob_count st) then the_int (ob_count ob) - the_int (ob_count st) else - 1)
       in record_interval ob instrs (transition st ob (PyInt n) (ob_clock ob) (ob_tspeed ob)))))"

definition recover :: "'x env \<Rightarrow> ('x, unit) gov" where
  "recover en = act_then (coordinator close) (act_bind (act_get (ad_permit \<circ> fst)) (\<lambda>p.
     act_unless (p = None) (act_try (recover_actuals en))))"

text \<open>A callback that recovers from its own exceptions and leaves the nesting depth as it found it.\<close>

definition recovering :: "'x env \<Rightarrow> ('x, 'a) gov \<Rightarrow> ('x, 'a) gov" where
  "recovering en m =
     act_then (set_ad (\<lambda>a. a\<lparr>depth := depth a + 1\<rparr>))
       (act_finally (act_catch m (\<lambda>e. act_then (recover en) (act_raise e))) (\<lambda>s. (fst s\<lparr>depth := depth (fst s) - 1\<rparr>, snd s)))"

subsection \<open>Before an instruction\<close>

definition need :: "string \<Rightarrow> int" where
  "need kind = (if kind = ''cpu'' then 24 else 206)"

definition metadata_valid :: "pyval \<Rightarrow> pyval \<Rightarrow> pyval \<Rightarrow> pyval \<Rightarrow> bool" where
  "metadata_valid clock double kind req \<longleftrightarrow>
     int_at_least 0 clock \<and> is_bool double
     \<and> (case kind of PyStr k \<Rightarrow> (k = ''cpu'' \<or> k = ''hdma'') \<and> (case req of PyInt n \<Rightarrow> n = need k \<and> the_int clock \<le> 9223372036854775807 - n | _ \<Rightarrow> False)
        | _ \<Rightarrow> False)"

text \<open>One round of the waiting loop: the permit's cycles when it suffices, \<open>None\<close> when progress must be awaited.\<close>

definition unmoved :: "'x env \<Rightarrow> observation \<Rightarrow> string \<Rightarrow> ('x, unit) gov" where
  "unmoved en st message =
     act_bind (observe True) (\<lambda>ob.
       if \<not> ob_eq ob st then fail_adapter message
       else act_bind (read_counter en) (\<lambda>n. act_bind (act_get (start_counter \<circ> fst)) (\<lambda>n0. fail_if (n \<noteq> n0) message)))"

definition timeline_kept :: "time_snapshot \<Rightarrow> observation \<Rightarrow> time_snapshot \<Rightarrow> bool" where
  "timeline_kept t0 st t \<longleftrightarrow> s_epoch t = s_epoch t0 \<and> s_local t = s_local t0 \<and> py_eq (PyInt (s_raw t)) (ob_raw st)
     \<and> py_eq (PyBool (s_double_speed t)) (ob_speed st) \<and> s_observed_raw t = s_observed_raw t0 \<and> \<not> s_pending_permit t"

definition expire :: "'x env \<Rightarrow> bool \<Rightarrow> int \<Rightarrow> ('x, unit) gov" where
  "expire en waited deadline =
     act_unless (\<not> waited) (act_bind (now en) (\<lambda>t. act_unless (t < deadline) (act_raise (DeadlineError ''execution permit deadline expired''))))"

definition hand_back :: "'x env \<Rightarrow> ('x, unit) gov" where
  "hand_back en =
     act_bind (observe True) (\<lambda>ob. act_bind (read_counter en) (\<lambda>n. act_bind (act_get (start_counter \<circ> fst)) (\<lambda>n0.
       record_interval ob (n - n0) NoTransition)))"

definition take_permit :: "'x env \<Rightarrow> observation \<Rightarrow> int \<Rightarrow> bool \<Rightarrow> ('x, int option) gov" where
  "take_permit en st req double =
     act_bind (coordinator (reserve (PyInt (req * (if double then 2 else 1))))) (\<lambda>p.
     act_then (set_ad (\<lambda>a. a\<lparr>ad_permit := p\<rparr>))
       (case p of
          None \<Rightarrow> act_return None
        | Some q \<Rightarrow>
            act_then (unmoved en st ''execution occurred while reserving a permit'')
             (if cpu_cycles q \<ge> req \<and> half_cycles q \<ge> req * 2 then act_return (Some req)
              else act_then (hand_back en) (act_return None))))"

definition await_round :: "'x env \<Rightarrow> observation \<Rightarrow> time_snapshot \<Rightarrow> int \<Rightarrow> bool \<Rightarrow> int \<Rightarrow> bool \<Rightarrow> ('x, int option) gov" where
  "await_round en st t0 req double deadline waited =
     act_then (unmoved en st ''execution occurred while awaiting a permit'')
     (act_bind (act_get id) (\<lambda>s. act_then (fail_if (\<not> registered s) ''execution callbacks changed while awaiting a permit'')
     (act_bind time_view (\<lambda>t. act_then (fail_if (\<not> timeline_kept t0 st t) ''coordinator timeline changed while awaiting a permit'')
     (act_then (expire en waited deadline) (take_permit en st req double))))))"

fun await :: "'x env \<Rightarrow> observation \<Rightarrow> time_snapshot \<Rightarrow> int \<Rightarrow> bool \<Rightarrow> int \<Rightarrow> bool \<Rightarrow> nat \<Rightarrow> ('x, int) gov" where
  "await en st t0 req double deadline waited left =
     act_bind (await_round en st t0 req double deadline waited) (\<lambda>r.
       case r of
         Some n \<Rightarrow> act_return n
       | None \<Rightarrow> act_bind (now en) (\<lambda>t.
           if deadline - t \<le> 0 then act_raise (DeadlineError ''execution permit wait exhausted'')
           else (case left of
                   0 \<Rightarrow> act_raise (DeadlineError ''execution permit wait exhausted'')
                 | Suc k \<Rightarrow> act_then (act_bind (act_get fst) (\<lambda>a. in_world (wait_progress en a (deadline - t)))) (await en st t0 req double deadline True k))))"

declare await.simps [simp del]

definition before_body :: "'x env \<Rightarrow> pyval \<Rightarrow> pyval \<Rightarrow> pyval \<Rightarrow> pyval \<Rightarrow> ('x, int) gov" where
  "before_body en clock double kind req =
     act_bind (act_get id) (\<lambda>s. act_then (fail_if (\<not> registered s \<or> retired (fst s)) ''adapter is not registered'')
     (act_then (fail_if (\<not> metadata_valid clock double kind req) ''invalid execution before metadata'')
     (act_bind (observe True) (\<lambda>st. act_then (set_ad (\<lambda>a. a\<lparr>start := Some st\<rparr>))
     (act_bind time_view (\<lambda>t. act_then
        (fail_if (\<not> (py_eq (ob_raw st) clock \<and> py_eq (ob_speed st) double \<and> py_eq (PyInt (s_raw t)) (ob_raw st)
                     \<and> py_eq (PyBool (s_double_speed t)) (ob_speed st) \<and> int_at_least 0 (ob_count st)
                     \<and> int_at_least 0 (ob_clock st) \<and> is_bool (ob_tspeed st)))
           ''execution start contradicts motherboard or coordinator'')
     (act_bind (act_get (last_counter \<circ> fst)) (\<lambda>previous. act_bind (read_counter en) (\<lambda>n.
      act_then (set_ad (\<lambda>a. a\<lparr>start_counter := n\<rparr>))
     (act_then (fail_if (previous \<noteq> Some n) ''instructions executed outside a governed interval'')
     (act_then (set_ad (\<lambda>a. a\<lparr>ad_kind := the_str kind, required := the_int req\<rparr>))
     (act_bind (now en) (\<lambda>t1. act_bind (act_get fst) (\<lambda>a.
      await en st t (the_int req) (the_bool double) (t1 + timeout a) False (attempts a)))))))))))))))"

definition before :: "'x env \<Rightarrow> pyval \<Rightarrow> pyval \<Rightarrow> pyval \<Rightarrow> pyval \<Rightarrow> ('x, int) gov" where
  "before en clock double kind req = act_bind (act_get fst) (\<lambda>a.
     if depth a \<noteq> 0 \<or> ad_permit a \<noteq> None then fail_adapter ''recursive or unmatched execution before callback''
     else recovering en (before_body en clock double kind req))"

subsection \<open>After an instruction\<close>

record report =
  start_raw :: pyval
  end_raw :: pyval
  start_double :: pyval
  end_double :: pyval
  rep_kind :: pyval
  rep_required :: pyval
  transition_count :: pyval
  transition_clock :: pyval
  transition_speed :: pyval

definition actual_count :: "observation \<Rightarrow> observation \<Rightarrow> int" where
  "actual_count st ob = (if int_at_least 0 (ob_count ob) then the_int (ob_count ob) - the_int (ob_count st) else - 1)"

definition judged_transition :: "report \<Rightarrow> observation \<Rightarrow> observation \<Rightarrow> transition_arg" where
  "judged_transition r st ob =
     (let tr = transition st ob (transition_count r) (transition_clock r) (transition_speed r);
          actual = transition st ob (PyInt (actual_count st ob)) (ob_clock ob) (ob_tspeed ob)
      in if tr \<noteq> actual \<or> transition_count r \<noteq> PyInt (actual_count st ob)
            \<or> is_bool (end_double r) \<and> \<not> py_eq (end_double r) (ob_speed ob)
         then invalid_transition else tr)"

definition contradicts :: "report \<Rightarrow> adapter \<Rightarrow> bool \<Rightarrow> observation \<Rightarrow> observation \<Rightarrow> bool" where
  "contradicts r a reg ob0 ob \<longleftrightarrow>
     (let st = the (start a)
      in \<not> int_at_least 0 (start_raw r) \<or> \<not> int_at_least 0 (end_raw r) \<or> \<not> is_bool (start_double r) \<or> \<not> is_bool (end_double r)
         \<or> \<not> (py_eq (start_raw r) (ob_raw st) \<and> py_eq (start_double r) (ob_speed st))
         \<or> \<not> (py_eq (end_raw r) (ob_raw ob) \<and> py_eq (end_double r) (ob_speed ob))
         \<or> rep_kind r \<noteq> PyStr (ad_kind a) \<or> rep_required r \<noteq> PyInt (required a) \<or> \<not> reg \<or> \<not> ob_eq ob0 ob
         \<or> py_eq (transition_count r) (PyInt 1)
            \<and> (\<not> py_eq (transition_clock r) (ob_clock ob) \<or> \<not> py_eq (transition_speed r) (ob_tspeed ob)))"

definition after_body :: "'x env \<Rightarrow> report \<Rightarrow> ('x, unit) gov" where
  "after_body en r =
     act_bind (observe False) (\<lambda>ob0.
     act_bind (act_catch (act_bind (read_counter en) (\<lambda>n. act_bind (act_get (start_counter \<circ> fst)) (\<lambda>n0. act_return (n - n0, None))))
                (\<lambda>e. act_return (- 1, Some e))) (\<lambda>(instrs, counter_error).
     act_bind (observe False) (\<lambda>ob. act_bind (act_get id) (\<lambda>s.
       let st = the (start (fst s));
           contradiction = contradicts r (fst s) (registered s) ob0 ob;
           delta = the_int (ob_raw ob) - the_int (ob_raw st)
       in act_then (act_catch (record_interval ob instrs (judged_transition r st ob))
                      (\<lambda>e. case counter_error of Some e' \<Rightarrow> act_raise e' | None \<Rightarrow> act_raise e))
          (case counter_error of Some e' \<Rightarrow> act_raise e' | None \<Rightarrow>
          act_then (fail_if contradiction ''execution metadata contradicts observed motherboard interval'')
          (act_then (fail_if (delta > required (fst s)) ''execution exceeded required CPU bound; actual elapsed recorded'')
          (fail_if (instrs > (if ad_kind (fst s) = ''cpu'' then 1 else 0)) ''execution exceeded instruction bound; actual elapsed recorded'')))))))"

definition after :: "'x env \<Rightarrow> report \<Rightarrow> ('x, unit) gov" where
  "after en r = act_bind (act_get fst) (\<lambda>a.
     if depth a \<noteq> 0 \<or> ad_permit a = None then fail_adapter ''recursive or unmatched execution after callback''
     else recovering en (after_body en r))"

subsection \<open>A guarded tick\<close>

text \<open>\<open>tick\<close> is the board's own tick, which runs the two callbacks around every instruction.\<close>

definition tick_body :: "('x, bool) gov \<Rightarrow> ('x, bool) gov" where
  "tick_body tick =
     act_then (set_ad (\<lambda>a. a\<lparr>owner_active := True\<rparr>))
     (act_finally
       (act_bind tick (\<lambda>result. act_bind (act_get id) (\<lambda>s.
          act_then (fail_if (\<not> registered s \<or> closed (co (snd s)) \<or> cancelled (co (snd s)))
            ''governor registration or accounting failed during tick'')
          (act_then (fail_if (ad_permit (fst s) \<noteq> None) ''motherboard tick returned with pending execution accounting'')
          (act_return result)))))
       (\<lambda>s. (fst s\<lparr>owner_active := False\<rparr>, snd s)))"

definition guarded_tick :: "'x env \<Rightarrow> ('x, bool) gov \<Rightarrow> ('x, bool) gov" where
  "guarded_tick en tick = act_bind (act_get id) (\<lambda>s.
     if owner_active (fst s) \<or> depth (fst s) \<noteq> 0 \<or> ad_permit (fst s) \<noteq> None
     then fail_adapter ''recursive or active execution in guarded_tick''
     else if \<not> attached (fst s) \<or> retired (fst s) then fail_adapter ''guarded_tick requires an attached, nonretired adapter''
     else if \<not> registered s then fail_adapter ''execution callback registration changed''
     else if closed (co (snd s)) \<or> cancelled (co (snd s)) then fail_adapter ''guarded_tick requires an open coordinator''
     else act_catch (tick_body tick)
       (\<lambda>e. act_then (set_ad (\<lambda>a. a\<lparr>retired := True\<rparr>))
         (act_then (act_try (recover en)) (act_then (act_try (detach en)) (act_raise e)))))"

end
