(* ===== verification/Adapter_Safety.thy ===== *)
theory Adapter_Safety
  imports Time_Safety Execution_Adapter
begin

text \<open>
  The execution adapter over the safety of the coordinator: it reaches the coordinator only through public
  calls, so every invariant of \<open>Time_Safety\<close> holds across it; it lets an instruction begin only under a
  permit that covers it; a truthful report is accounted exactly; and every exception leaves the coordinator
  closed.
\<close>

subsection \<open>The coordinator is only called\<close>

definition evolves :: "coord \<Rightarrow> coord \<Rightarrow> bool" where
  "evolves c c' \<longleftrightarrow> (\<exists>calls. c' = fold after_call calls c)"

lemma evolves_refl: "evolves c c"
  unfolding evolves_def by (rule exI [of _ "[]"]) simp

lemma evolves_call: "evolves c (after_call a c)"
  unfolding evolves_def by (rule exI [of _ "[a]"]) simp

lemma evolves_trans: "evolves c d \<Longrightarrow> evolves d e \<Longrightarrow> evolves c e"
  unfolding evolves_def by (metis fold_append comp_apply)

lemma fold_calls_reachable: "reachable c \<Longrightarrow> reachable (fold after_call calls c)"
  by (induction calls arbitrary: c) (auto intro: reachable.called)

lemma evolves_reachable: "evolves c c' \<Longrightarrow> reachable c \<Longrightarrow> reachable c'"
  unfolding evolves_def using fold_calls_reachable by auto

lemma step_stays_closed: "step c c' \<Longrightarrow> closed c \<Longrightarrow> closed c'"
  by (erule stepE) (auto simp: halts_fields)

lemma fold_calls_closed: "reachable c \<Longrightarrow> closed c \<Longrightarrow> closed (fold after_call calls c)"
proof (induction calls arbitrary: c)
  case (Cons a calls)
  then show ?case using step_stays_closed [OF reachable_step] by (simp add: reachable.called)
qed simp

lemma evolves_closed: "evolves c c' \<Longrightarrow> reachable c \<Longrightarrow> closed c \<Longrightarrow> closed c'"
  unfolding evolves_def using fold_calls_closed by auto

definition moves :: "'x sys \<Rightarrow> 'x sys \<Rightarrow> bool" where
  "moves s s' \<longleftrightarrow> evolves (co (snd s)) (co (snd s'))"

lemma moves_refl [simp]: "moves s s"
  by (simp add: moves_def evolves_refl)

lemma moves_preorder: "reflp moves" "transp moves"
  by (auto simp: moves_def reflp_def transp_def intro: evolves_refl evolves_trans)

text \<open>The callbacks, too, reach the coordinator through its public calls only.\<close>

definition orderly :: "'x env \<Rightarrow> bool" where
  "orderly en \<longleftrightarrow> (\<forall>w. evolves (co w) (co (snd (counter en w))) \<and> evolves (co w) (co (snd (monotonic en w)))
     \<and> (\<forall>a t. evolves (co w) (co (snd (wait_progress en a t w)))) \<and> (\<forall>b. evolves (co w) (co (snd (set_governor en b w)))))"

text \<open>
  What a relation between states must satisfy for the adapter's operations to keep it: it is a preorder, the
  adapter's own fields do not matter, and the coordinator's calls and the callbacks keep it.
\<close>

locale quiet_callbacks =
  fixes R :: "'x sys \<Rightarrow> 'x sys \<Rightarrow> bool" and en :: "'x env"
  assumes preorder: "reflp R" "transp R"
    and settings: "keeps R (set_ad f)"
    and calls: "keeps R (coordinator close)" "keeps R (coordinator (reserve n))" "keeps R (coordinator (commit ref k i tr))"
      "keeps R (coordinator (discard_unconsumed_permit ref k i d))"
    and environment: "keeps R (in_world (counter en))" "keeps R (in_world (set_governor en b))" "keeps R (now en)"
begin

lemma own_fields: "R s (f (fst s), snd s)"
  using settings [of f] by (cases s) (simp add: keeps_def set_ad_def act_modify_def)

lemma own_field: "R s (a, snd s)"
  by (rule own_fields [of s "\<lambda>_. a"])

lemma own_refl: "R s s"
  using preorder(1) by (cases s) (simp add: reflp_def)

lemma raises: "keeps R (raise_time m)" "keeps R (fail_adapter m)" "keeps R (fail_if c m)" "keeps R time_view" "keeps R (observe strict)"
  unfolding raise_time_def fail_adapter_def fail_if_def time_view_def observe_def
  by (auto intro!: keeps_intros preorder calls)

lemmas steps = keeps_intros preorder settings calls environment raises

lemma read_counter_kept: "keeps R (read_counter en)"
  unfolding read_counter_def by (intro steps)

lemma record_interval_kept: "keeps R (record_interval ob i tr)"
  unfolding record_interval_def Let_def
  by (intro steps) (auto simp: forget_settled_def intro: own_field own_refl)

lemma recover_kept: "keeps R (recover en)"
  unfolding recover_def recover_actuals_def Let_def by (intro steps read_counter_kept record_interval_kept)

lemma await_round_kept: "keeps R (await_round en st t0 req d dl waited)"
  unfolding await_round_def take_permit_def hand_back_def expire_def unmoved_def
  by (intro steps read_counter_kept record_interval_kept)

lemma recovering_kept: "keeps R m \<Longrightarrow> keeps R (recovering en m)"
  unfolding recovering_def by (intro steps recover_kept; assumption?) (rule own_field)

lemma after_body_kept: "keeps R (after_body en r)"
  unfolding after_body_def Let_def by (intro steps read_counter_kept record_interval_kept)

lemma after_kept: "keeps R (after en r)"
  unfolding after_def by (intro steps recovering_kept after_body_kept)

lemma detach_kept: "keeps R (detach en)"
  unfolding detach_def by (intro steps)

lemma attach_kept: "keeps R (attach en)"
  unfolding attach_def attach_body_def by (intro steps read_counter_kept)

lemma guarded_tick_kept: "keeps R tick \<Longrightarrow> keeps R (guarded_tick en tick)"
  unfolding guarded_tick_def tick_body_def
  by (intro steps recover_kept detach_kept; assumption?) (rule own_field)

end

text \<open>
  A progress callback that keeps an invariant, or leaves a weaker form of it when it raises: so does waiting
  for a permit, if the relation of everything else preserves both forms.
\<close>

context quiet_callbacks
begin

lemma before_stays:
  assumes stable: "\<And>s s'. I s \<Longrightarrow> R s s' \<Longrightarrow> I s'" "\<And>s s'. X s \<Longrightarrow> R s s' \<Longrightarrow> X s'" "\<And>s. I s \<Longrightarrow> X s"
    and wait: "\<And>a t. stays I X (in_world (wait_progress en a t))"
  shows "stays I X (before en clock double kind req)"
proof -
  note k = keeps_stays [of R _ I X, OF _ stable(1,3)]
  have await: "stays I X (await en st t0 req d dl waited left)" for st t0 req d dl waited left
  proof (induction left arbitrary: waited)
    case 0
    show ?case by (subst await.simps) (auto intro!: stays_intros stable(3) k [OF await_round_kept] k [OF environment(3)])
  next
    case (Suc left)
    show ?case
      by (subst await.simps) (auto intro!: stays_intros stable(3) k [OF await_round_kept] k [OF environment(3)] wait Suc)
  qed
  have body: "stays I X (before_body en clock double kind req)"
    unfolding before_body_def
    by (intro stays_intros await k [OF read_counter_kept] k [OF environment(3)] k [OF raises(3)] k [OF raises(4)] k [OF raises(5)]
          k [OF settings])
  have "stays I X (act_catch (before_body en clock double kind req) (\<lambda>e. act_then (recover en) (act_raise e)))"
    by (rule stays_catch [OF body])
      (auto simp: wp_simps intro!: wp_mono [OF keeps_wp [OF recover_kept]] elim: stable(2))
  then have "stays I X (recovering en (before_body en clock double kind req))"
    unfolding recovering_def
    by (intro stays_then stays_finally k [OF settings]) (auto intro: stable(1,2) own_field)
  then show ?thesis
    unfolding before_def by (intro stays_intros k [OF raises(2)])
qed

end

text \<open>With a progress callback that keeps the relation as well, so does waiting for a permit.\<close>

locale callbacks = quiet_callbacks +
  assumes waiting: "keeps R (in_world (wait_progress en a t))"
begin

lemma await_kept: "keeps R (await en st t0 req d dl waited left)"
proof (induction left arbitrary: waited)
  case 0
  show ?case by (subst await.simps) (auto intro!: steps waiting await_round_kept)
next
  case (Suc left)
  show ?case by (subst await.simps) (auto intro!: steps waiting await_round_kept Suc)
qed

lemma before_body_kept: "keeps R (before_body en clock double kind req)"
  unfolding before_body_def by (intro steps read_counter_kept await_kept)

lemma before_kept: "keeps R (before en clock double kind req)"
  unfolding before_def by (intro steps recovering_kept before_body_kept)

end

text \<open>Orderly callbacks reach the coordinator through its public calls, and so does the adapter.\<close>

lemma keeps_in_world: "(\<And>w. evolves (co w) (co (snd (f w)))) \<Longrightarrow> keeps moves (in_world f)"
  by (auto simp: keeps_def moves_def in_world_def split: prod.splits) (metis snd_conv)

lemma keeps_coordinator: "(\<And>c. \<exists>a. snd (f c) = after_call a c) \<Longrightarrow> keeps moves (coordinator f)"
  unfolding coordinator_def
  by (rule keeps_in_world) (auto split: prod.splits sum.splits; metis snd_conv evolves_call)

lemma keeps_plain [keeps_intros]:
  "keeps moves (set_ad f)" "keeps moves (coordinator close)" "keeps moves (coordinator (reserve n))"
  "keeps moves (coordinator (commit ref k i tr))" "keeps moves (coordinator (discard_unconsumed_permit ref k i d))"
  by (simp add: set_ad_def keeps_def act_modify_def moves_def evolves_refl, (rule keeps_coordinator, metis after_call.simps)+)

lemma keeps_raises [keeps_intros]: "keeps moves (raise_time m)" "keeps moves (fail_adapter m)" "keeps moves (fail_if b m)"
  "keeps moves time_view" "keeps moves (observe strict)"
  unfolding raise_time_def fail_adapter_def fail_if_def time_view_def observe_def
  by (auto intro!: keeps_intros moves_preorder)

definition governed_moves :: "'x env \<Rightarrow> 'x sys \<Rightarrow> 'x sys \<Rightarrow> bool" where
  "governed_moves en s s' \<longleftrightarrow> (orderly en \<longrightarrow> moves s s')"

lemma keeps_governed: "(orderly en \<Longrightarrow> keeps moves m) \<Longrightarrow> keeps (governed_moves en) m"
  by (auto simp: keeps_def governed_moves_def)

interpretation adapter_calls: callbacks "governed_moves en" en for en :: "'x env"
proof (unfold_locales; (rule keeps_governed)?)
  show "reflp (governed_moves en)" "transp (governed_moves en)" for en :: "'x env"
    using moves_preorder by (auto simp: governed_moves_def reflp_def intro!: transpI dest: transpD)
  show "keeps moves (set_ad f)" "keeps moves (coordinator close)" "keeps moves (coordinator (reserve n))"
    "keeps moves (coordinator (commit ref k i tr))" "keeps moves (coordinator (discard_unconsumed_permit ref k i d))" for f n ref k i tr d
    by (rule keeps_intros)+
next
  fix en :: "'x env" assume o: "orderly en"
  show "keeps moves (in_world (counter en))" "keeps moves (in_world (wait_progress en a t))" "keeps moves (in_world (set_governor en b))"
    for a t b
    using o by (auto intro!: keeps_in_world simp: orderly_def)
  show "keeps moves (now en)"
    unfolding now_def by (rule keeps_in_world) (use o in \<open>auto simp: orderly_def split: prod.splits dest: spec\<close>, metis snd_conv)
qed

lemma moves_of: "keeps (governed_moves en) m \<Longrightarrow> orderly en \<Longrightarrow> keeps moves m"
  by (simp add: keeps_def governed_moves_def)

lemma keeps_guarded_tick: "orderly en \<Longrightarrow> keeps moves tick \<Longrightarrow> keeps moves (guarded_tick en tick)"
  by (rule moves_of [OF adapter_calls.guarded_tick_kept]) (auto intro: keeps_governed)

lemmas keeps_before = adapter_calls.before_kept [THEN moves_of]
  and keeps_after = adapter_calls.after_kept [THEN moves_of]
  and keeps_recover [keeps_intros] = adapter_calls.recover_kept [THEN moves_of]
  and keeps_detach [keeps_intros] = adapter_calls.detach_kept [THEN moves_of]
  and keeps_await_round [keeps_intros] = adapter_calls.await_round_kept [THEN moves_of]
  and keeps_read_counter [keeps_intros] = adapter_calls.read_counter_kept [THEN moves_of]
  and keeps_record_interval [keeps_intros] = adapter_calls.record_interval_kept [THEN moves_of]
  and keeps_before_body = adapter_calls.before_body_kept [THEN moves_of]
  and keeps_after_body = adapter_calls.after_body_kept [THEN moves_of]
  and keeps_env = adapter_calls.environment [THEN moves_of]
  and keeps_waiting = adapter_calls.waiting [THEN moves_of]

subsection \<open>Every exception closes\<close>

lemma wp_coordinator [wp_simps]:
  "wp (coordinator f) Q E = (\<lambda>s. case f (co (snd s)) of
     (Inl e, c) \<Rightarrow> E (Timing e) (fst s, (snd s)\<lparr>co := c\<rparr>) | (Inr x, c) \<Rightarrow> Q x (fst s, (snd s)\<lparr>co := c\<rparr>))"
  by (auto simp: fun_eq_iff wp_def coordinator_def in_world_def split: prod.splits sum.splits)

lemma wp_set_ad [wp_simps]: "wp (set_ad f) Q E = (\<lambda>s. Q () (f (fst s), snd s))"
  by (simp add: set_ad_def wp_simps)

lemma wp_raise_time [wp_simps]: "wp (raise_time m) Q E = E (Timing (EmulatedTimeError m))"
  by (simp add: raise_time_def wp_simps)

definition shut :: "'x sys \<Rightarrow> bool" where
  "shut s \<longleftrightarrow> reachable (co (snd s)) \<and> closed (co (snd s))"

lemma keeps_shut: "keeps moves m \<Longrightarrow> shut s \<Longrightarrow> wp m (\<lambda>_. shut) (\<lambda>_. shut) s"
  by (rule wp_mono [OF keeps_wp [of moves]]) (auto simp: shut_def moves_def intro: evolves_reachable evolves_closed)

lemma keeps_reachable: "keeps moves m \<Longrightarrow> reachable (co (snd s)) \<Longrightarrow> wp m (\<lambda>_ s'. reachable (co (snd s'))) (\<lambda>_ s'. reachable (co (snd s'))) s"
  by (rule wp_mono [OF keeps_wp [of moves]]) (auto simp: moves_def intro: evolves_reachable)

lemma close_shut: "reachable (co w) \<Longrightarrow> shut (a, w\<lparr>co := snd (close (co w))\<rparr>)"
  using reachable.called [of "co w" Close] by (simp add: shut_def close_def)

lemma fail_adapter_shuts: "reachable (co (snd s)) \<Longrightarrow> wp (fail_adapter m) Q (\<lambda>_. shut) s"
  using close_shut [of "snd s" "fst s"] by (simp add: fail_adapter_def wp_simps) (simp add: close_def)

lemma recover_shuts:
  assumes "orderly en" "reachable (co (snd s))"
  shows "wp (recover en) (\<lambda>_. shut) (\<lambda>_ _. False) s"
proof -
  let ?s = "(fst s, (snd s)\<lparr>co := snd (close (co (snd s)))\<rparr>)"
  have "keeps moves (recover_actuals en)"
    unfolding recover_actuals_def Let_def using assms(1) by (intro keeps_intros moves_preorder; assumption?)
  from keeps_shut [OF this close_shut [OF assms(2)], of "fst s"] close_shut [OF assms(2), of "fst s"]
  show ?thesis unfolding recover_def by (auto simp: wp_simps close_def)
qed

text \<open>The callbacks: whatever their body does through public calls, an exception leaves it closed.\<close>

lemma recovering_shuts:
  assumes "orderly en" "keeps moves m" "reachable (co (snd s))"
  shows "wp (recovering en m) (\<lambda>_ _. True) (\<lambda>_. shut) s"
proof -
  let ?s = "((fst s)\<lparr>depth := depth (fst s) + 1\<rparr>, snd s)"
  have "wp m (\<lambda>_ _. True) (\<lambda>_ s'. reachable (co (snd s'))) ?s"
    by (rule wp_mono [OF keeps_reachable [OF assms(2)]]) (use assms(3) in auto)
  then have "wp m (\<lambda>_ _. True) (\<lambda>e. wp (recover en) (\<lambda>_. shut) (\<lambda>_ _. False)) ?s"
    by (rule wp_mono) (auto intro: recover_shuts [OF assms(1)])
  then have "wp m (\<lambda>_ _. True) (\<lambda>e. wp (recover en) (\<lambda>_ s'. shut ((fst s')\<lparr>depth := depth (fst s') - 1\<rparr>, snd s'))
      (\<lambda>_ s'. shut ((fst s')\<lparr>depth := depth (fst s') - 1\<rparr>, snd s'))) ?s"
    by (rule wp_mono) (auto elim: wp_mono simp: shut_def)
  then show ?thesis unfolding recovering_def by (simp add: wp_simps)
qed

lemma before_shuts:
  assumes "orderly en" "reachable (co (snd s))"
  shows "wp (before en clock double kind req) (\<lambda>_ _. True) (\<lambda>_. shut) s"
  using recovering_shuts [OF assms(1) keeps_before_body [OF assms(1)] assms(2)]
  unfolding before_def by (simp add: wp_simps fail_adapter_shuts [OF assms(2)])

lemma after_shuts:
  assumes "orderly en" "reachable (co (snd s))"
  shows "wp (after en r) (\<lambda>_ _. True) (\<lambda>_. shut) s"
  using recovering_shuts [OF assms(1) keeps_after_body [OF assms(1)] assms(2)]
  unfolding after_def by (simp add: wp_simps fail_adapter_shuts [OF assms(2)])

lemma guarded_tick_shuts:
  assumes "orderly en" "keeps moves tick" "reachable (co (snd s))"
  shows "wp (guarded_tick en tick) (\<lambda>_ s'. \<not> closed (co (snd s')) \<and> ad_permit (fst s') = None) (\<lambda>_ s'. shut s') s"
proof -
  have k: "keeps moves (tick_body tick)"
    unfolding tick_body_def using assms(2)
    by (intro keeps_intros moves_preorder; assumption?) (simp add: moves_def evolves_refl)
  have result: "wp (tick_body tick) (\<lambda>_ s'. \<not> closed (co (snd s')) \<and> ad_permit (fst s') = None) (\<lambda>_ _. True) s"
    unfolding tick_body_def fail_if_def fail_adapter_def
    by (simp add: wp_simps close_def cong: if_cong) (rule wpI, auto)
  have cleanup: "wp (act_then (act_try (recover en)) (act_then (act_try (detach en)) (act_raise e))) Q (\<lambda>_. shut) s'"
    if "reachable (co (snd s'))" for e Q and s' :: "'a sys"
  proof -
    have "wp (recover en) (\<lambda>_ s'. wp (detach en) (\<lambda>_. shut) (\<lambda>_. shut) s') (\<lambda>_ s'. wp (detach en) (\<lambda>_. shut) (\<lambda>_. shut) s') s'"
      by (rule wp_mono [OF recover_shuts [OF assms(1) that]])
        (auto intro!: keeps_shut keeps_detach assms(1))
    then show ?thesis by (simp add: wp_simps)
  qed
  have "wp (tick_body tick) (\<lambda>_ s'. \<not> closed (co (snd s')) \<and> ad_permit (fst s') = None)
     (\<lambda>e s'. wp (act_then (act_try (recover en)) (act_then (act_try (detach en)) (act_raise e))) Q (\<lambda>_. shut)
        ((fst s')\<lparr>retired := True\<rparr>, snd s')) s" for Q :: "bool \<Rightarrow> 'a sys \<Rightarrow> bool"
    by (rule wp_mono [OF wp_conj [OF result keeps_reachable [OF k assms(3)]]]) (auto intro!: cleanup)
  then show ?thesis
    unfolding guarded_tick_def by (simp add: wp_simps fail_adapter_shuts [OF assms(3)])
qed

subsection \<open>A permit before every instruction\<close>

text \<open>The instruction counter and the clock leave the coordinator and the board alone.\<close>

definition hands_off :: "'x env \<Rightarrow> bool" where
  "hands_off en \<longleftrightarrow> (\<forall>w. co (snd (counter en w)) = co w \<and> mb (snd (counter en w)) = mb w
     \<and> co (snd (monotonic en w)) = co w \<and> mb (snd (monotonic en w)) = mb w)"

definition same :: "'x sys \<Rightarrow> 'x sys \<Rightarrow> bool" where
  "same s s' \<longleftrightarrow> co (snd s') = co (snd s) \<and> mb (snd s') = mb (snd s) \<and> (\<exists>n. fst s' = (fst s)\<lparr>last_counter := n\<rparr>)"

lemma same_refl: "same s s"
  unfolding same_def by (simp add: exI [of _ "last_counter (fst s)"])

lemma same_trans: "same s t \<Longrightarrow> same t u \<Longrightarrow> same s u"
  by (auto simp: same_def)

lemma now_same: "hands_off en \<Longrightarrow> wp (now en) (\<lambda>_. same s) (\<lambda>_ _. False) s"
proof -
  assume "hands_off en"
  then have "co (snd (monotonic en (snd s))) = co (snd s)" "mb (snd (monotonic en (snd s))) = mb (snd s)"
    by (auto simp: hands_off_def)
  then show ?thesis
    by (cases "monotonic en (snd s)") (auto simp: wp_def now_def in_world_def same_def intro: exI [of _ "last_counter (fst s)"])
qed

lemma counter_same: "hands_off en \<Longrightarrow> wp (in_world (counter en)) (\<lambda>_. same s) (\<lambda>_. same s) s"
proof -
  assume "hands_off en"
  then have "co (snd (counter en (snd s))) = co (snd s)" "mb (snd (counter en (snd s))) = mb (snd s)"
    by (auto simp: hands_off_def)
  then show ?thesis
    by (cases "counter en (snd s)")
      (auto simp: wp_def in_world_def same_def intro: exI [of _ "last_counter (fst s)"] split: sum.splits)
qed

lemma read_counter_same:
  assumes "hands_off en"
  shows "wp (read_counter en) (\<lambda>n s'. same s s' \<and> last_counter (fst s') = Some n \<and> 0 \<le> n) (\<lambda>_. same s) s"
  unfolding read_counter_def
  by (simp add: wp_simps) (rule wp_mono [OF counter_same [OF assms, of s]], auto simp: same_def dest: int_at_least_the_int)

lemma wp_observe [wp_simps]:
  "wp (observe strict) Q E = (\<lambda>s. if \<not> attached (fst s) then E AttributeError s
     else let ob = view (mb (snd s)) in
       if \<not> int_at_least 0 (ob_raw ob) \<or> (strict \<and> \<not> is_bool (ob_speed ob))
       then E (Timing (EmulatedTimeError ''invalid motherboard clock or rate'')) s else Q ob s)"
  unfolding observe_def by (simp add: fun_eq_iff wp_simps Let_def)

lemma wp_fail_if: "(\<not> b \<Longrightarrow> Q () s) \<Longrightarrow> wp (fail_if b m) Q (\<lambda>_ _. True) s"
  by (auto simp: fail_if_def fail_adapter_def wp_simps close_def)

lemma unmoved_same:
  assumes "hands_off en"
  shows "wp (unmoved en st m) (\<lambda>_ s'. same s s' \<and> attached (fst s) \<and> ob_eq (view (mb (snd s))) st
     \<and> last_counter (fst s') = Some (start_counter (fst s)) \<and> 0 \<le> start_counter (fst s)) (\<lambda>_ _. True) s"
proof -
  have "wp (read_counter en) (\<lambda>n. wp (fail_if (n \<noteq> start_counter (fst s)) m)
      (\<lambda>_ s'. same s s' \<and> last_counter (fst s') = Some (start_counter (fst s)) \<and> 0 \<le> start_counter (fst s)) (\<lambda>_ _. True)) (\<lambda>_ _. True) s"
    by (rule wp_mono [OF read_counter_same [OF assms, of s]]) (auto intro!: wp_fail_if)
  then have "wp (read_counter en) (\<lambda>n s'. wp (fail_if (n \<noteq> start_counter (fst s')) m)
      (\<lambda>_ s'. same s s' \<and> last_counter (fst s') = Some (start_counter (fst s)) \<and> 0 \<le> start_counter (fst s)) (\<lambda>_ _. True) s') (\<lambda>_ _. True) s"
    by (rule wp_mono [OF wp_conj [OF _ read_counter_same [OF assms, of s]]]) (auto simp: same_def)
  then show ?thesis
    unfolding unmoved_def by (simp add: wp_simps Let_def) (auto simp: fail_adapter_def wp_simps close_def)
qed

definition covered :: "int \<Rightarrow> observation \<Rightarrow> 'x sys \<Rightarrow> bool" where
  "covered n st s \<longleftrightarrow> registered s \<and> ob_eq (view (mb (snd s))) st \<and> last_counter (fst s) = Some (start_counter (fst s)) \<and> 0 \<le> start_counter (fst s)
     \<and> (let c = co (snd s) in \<not> closed c \<and> py_eq (PyInt (raw c)) (ob_raw st) \<and> py_eq (PyBool (rate c = 1)) (ob_speed st)
        \<and> (\<exists>p. ad_permit (fst s) = Some p \<and> pending c = Some p \<and> n \<le> cpu_cycles p \<and> 2 * n \<le> half_cycles p \<and> permit_fits c p
             \<and> (\<forall>e \<in> set (edges c). local c + half_cycles p \<le> edge_at e + max_lateness c)))"

lemma covered_same:
  assumes "covered n st s" "same s s'" "last_counter (fst s') = Some (start_counter (fst s))"
  shows "covered n st s'"
  using assms by (auto simp: covered_def same_def registered_def Let_def)

lemma reserve_Some:
  assumes "reachable c" "reserve n c = (Inr (Some p), c')"
  shows "\<not> closed c \<and> c' = c\<lparr>token := token c + 1, pending := Some p\<rparr> \<and> permit_fits c' p
     \<and> (\<forall>e \<in> set (edges c'). local c' + half_cycles p \<le> edge_at e + max_lateness c')"
proof -
  have op: "\<not> closed c" and n: "int_at_least 1 n" and r: "reserve_core (the_int n) c = (Inr (Some p), c')"
    using assms(2) by (auto simp: reserve_def fail_def raise_closed_def split: if_splits)
  note wf = reachable_wf [OF assms(1)]
  have "valid_rate (rate c)" using wf by (simp add: wf_coord_def)
  note g = reserve_core_Some [OF r this int_at_least_pos [OF n]]
  have "local c + half_cycles p \<le> edge_at e + max_lateness c" if "e \<in> set (edges c)" for e
    using g front_least [OF _ that] wf that by (force simp: wf_coord_def)
  with op g show ?thesis by (auto simp: permit_fits_def)
qed

lemma expire_same:
  assumes "hands_off en"
  shows "wp (expire en waited deadline) (\<lambda>_. same s) (\<lambda>_ _. True) s"
  unfolding expire_def
  by (auto simp: wp_simps same_refl intro!: wp_mono [OF now_same [OF assms, of s]])

lemma take_permit_covers:
  assumes hands: "hands_off en" and reach: "reachable (co (snd s))"
    and pre: "registered s" "timeline_kept t0 st (snapshot (co (snd s)))"
  shows "wp (take_permit en st req d) (\<lambda>r s'. \<forall>n. r = Some n \<longrightarrow> n = req \<and> covered req st s') (\<lambda>_ _. True) s"
proof (cases "reserve (PyInt (req * (if d then 2 else 1))) (co (snd s))")
  case (Pair r c)
  show ?thesis
  proof (cases "\<exists>q. r = Inr (Some q)")
    case True
    then obtain q where r: "r = Inr (Some q)" by blast
    note g = reserve_Some [OF reach Pair [unfolded r]]
    let ?s = "((fst s)\<lparr>ad_permit := Some q\<rparr>, (snd s)\<lparr>co := c\<rparr>)"
    have "covered req st s''" if "same ?s s''" "ob_eq (view (mb (snd ?s))) st" "last_counter (fst s'') = Some (start_counter (fst ?s))"
        "0 \<le> start_counter (fst ?s)" "cpu_cycles q \<ge> req" "half_cycles q \<ge> req * 2" for s''
      using that pre g by (auto simp: covered_def same_def registered_def Let_def timeline_kept_def snapshot_def)
    then have "wp (unmoved en st m) (\<lambda>_. covered req st) (\<lambda>_ _. True) ?s" if "req \<le> cpu_cycles q" "req * 2 \<le> half_cycles q" for m
      using that by (intro wp_mono [OF unmoved_same [OF hands, of st m ?s]]) auto
    moreover have "wp (unmoved en st m) (\<lambda>_. wp (hand_back en) (\<lambda>_ _. True) (\<lambda>_ _. True)) (\<lambda>_ _. True) ?s" for m
      by (intro wp_mono [OF unmoved_same [OF hands, of st m ?s]]) (auto intro: wpI)
    ultimately show ?thesis unfolding take_permit_def by (simp add: wp_simps Pair r split: if_split_asm)
  qed (auto simp: take_permit_def wp_simps Pair split: sum.splits option.splits)
qed

lemma await_round_covers:
  assumes hands: "hands_off en" and reach: "reachable (co (snd s))"
  shows "wp (await_round en st t0 req d dl waited) (\<lambda>r s'. \<forall>n. r = Some n \<longrightarrow> n = req \<and> covered req st s') (\<lambda>_ _. True) s"
proof -
  let ?Q = "\<lambda>r s'. \<forall>n. r = Some n \<longrightarrow> n = req \<and> covered req st s'"
  have take: "wp (expire en waited dl) (\<lambda>_. wp (take_permit en st req d) ?Q (\<lambda>_ _. True)) (\<lambda>_ _. True) s'"
    if "same s s'" "registered s'" "timeline_kept t0 st (snapshot (co (snd s')))" for s'
    by (rule wp_mono [OF expire_same [OF hands, of _ _ s']], rule take_permit_covers [OF hands])
      (use that reach in \<open>auto simp: same_def registered_def\<close>)
  show ?thesis
    unfolding await_round_def
    apply (simp only: wp_simps time_view_def id_apply)
    apply (rule wp_mono [OF unmoved_same [OF hands, of _ _ s]])
     apply (intro wp_fail_if take; simp)
    apply simp
    done
qed

lemma await_covers:
  assumes hands: "hands_off en" and orderly: "orderly en"
  shows "reachable (co (snd s)) \<Longrightarrow>
    wp (await en st t0 req d dl waited left) (\<lambda>n s'. n = req \<and> covered req st s') (\<lambda>_ _. True) s"
proof (induction left arbitrary: s waited)
  case 0
  show ?case
    by (subst await.simps, simp only: wp_simps, rule wp_mono [OF await_round_covers [OF hands 0]])
      (auto simp: wp_simps split: option.splits intro!: wpI)
next
  case (Suc left)
  have again: "wp (in_world (wait_progress en a t)) (\<lambda>_. wp (await en st t0 req d dl True left) (\<lambda>n s'. n = req \<and> covered req st s') (\<lambda>_ _. True)) (\<lambda>_ _. True) s'"
    if "reachable (co (snd s'))" for a t s'
    by (rule wp_mono [OF keeps_reachable [OF keeps_waiting [OF orderly] that]]) (auto intro: Suc.IH)
  show ?case
    apply (subst await.simps, simp only: wp_simps nat.case)
    apply (rule wp_mono [OF wp_conj [OF await_round_covers [OF hands Suc.prems]
          keeps_reachable [OF keeps_await_round [OF orderly] Suc.prems]]])
    apply (case_tac x)
    apply (auto simp: wp_simps intro!: wp_mono [OF keeps_reachable [OF keeps_env(3) [OF orderly]]] again)
    done
qed

text \<open>Waiting changes only what the adapter knows of the counter and of its permit.\<close>

definition frame :: "'x sys \<Rightarrow> 'x sys \<Rightarrow> bool" where
  "frame s s' \<longleftrightarrow> (\<exists>n p. fst s' = (fst s)\<lparr>last_counter := n, ad_permit := p\<rparr>)"

lemma frame_self: "fst s' = fst s \<Longrightarrow> frame s s'"
  unfolding frame_def by (intro exI [of _ "last_counter (fst s)"] exI [of _ "ad_permit (fst s)"]) simp

lemma frame_preorder: "reflp frame" "transp frame"
  by (auto simp: reflp_def transp_def intro: frame_self) (auto simp: frame_def, blast)

lemma frame_in_world [keeps_intros]: "keeps frame (in_world f)"
  by (rule keepsI, rule frame_self) (auto simp: in_world_def split: prod.splits)

lemma frame_set_ad [keeps_intros]: "(\<And>a. \<exists>n p. f a = a\<lparr>last_counter := n, ad_permit := p\<rparr>) \<Longrightarrow> keeps frame (set_ad f)"
  by (simp add: set_ad_def keeps_def act_modify_def frame_def)

lemma frame_updates: "\<exists>n p. a\<lparr>last_counter := l\<rparr> = a\<lparr>last_counter := n, ad_permit := p\<rparr>"
  "\<exists>n p. a\<lparr>ad_permit := l'\<rparr> = a\<lparr>last_counter := n, ad_permit := p\<rparr>"
  by (rule exI [of _ l], rule exI [of _ "ad_permit a"], simp) (rule exI [of _ "last_counter a"], rule exI [of _ l'], simp)

lemma frame_steps [keeps_intros]: "keeps frame (coordinator f)" "keeps frame (raise_time m)" "keeps frame (fail_adapter m)"
  "keeps frame (fail_if b m)" "keeps frame time_view" "keeps frame (observe strict)" "keeps frame (now en)" "keeps frame (read_counter en)"
  unfolding coordinator_def raise_time_def fail_adapter_def fail_if_def time_view_def observe_def now_def read_counter_def
  by (auto intro!: keeps_intros frame_preorder frame_updates)

lemma frame_record_interval [keeps_intros]: "keeps frame (record_interval ob i tr)"
  unfolding record_interval_def Let_def
  by (intro keeps_intros frame_preorder) (auto simp: forget_settled_def frame_self, simp add: frame_def frame_updates)

lemma frame_round [keeps_intros]: "keeps frame (await_round en st t0 req d dl waited)"
  unfolding await_round_def take_permit_def hand_back_def unmoved_def expire_def by (intro keeps_intros frame_preorder frame_updates)

lemma frame_await: "keeps frame (await en st t0 req d dl waited left)"
proof (induction left arbitrary: waited)
  case 0
  show ?case by (subst await.simps) (auto intro!: keeps_intros frame_preorder)
next
  case (Suc left)
  show ?case by (subst await.simps) (auto intro!: keeps_intros frame_preorder Suc)
qed

text \<open>What a callback that lets the board go on has left behind.\<close>

definition ready :: "pyval \<Rightarrow> pyval \<Rightarrow> pyval \<Rightarrow> pyval \<Rightarrow> int \<Rightarrow> 'x sys \<Rightarrow> bool" where
  "ready clock double kind req n s \<longleftrightarrow> metadata_valid clock double kind req \<and> n = the_int req
     \<and> ad_kind (fst s) = the_str kind \<and> required (fst s) = the_int req
     \<and> (\<exists>st. start (fst s) = Some st \<and> covered n st s \<and> int_at_least 0 (ob_raw st) \<and> is_bool (ob_speed st)
          \<and> int_at_least 0 (ob_count st) \<and> int_at_least 0 (ob_clock st) \<and> is_bool (ob_tspeed st)
          \<and> py_eq (ob_raw st) clock \<and> py_eq (ob_speed st) double)"

definition start_valid :: "pyval \<Rightarrow> pyval \<Rightarrow> observation \<Rightarrow> bool" where
  "start_valid clock double st \<longleftrightarrow> int_at_least 0 (ob_raw st) \<and> is_bool (ob_speed st)
          \<and> int_at_least 0 (ob_count st) \<and> int_at_least 0 (ob_clock st) \<and> is_bool (ob_tspeed st)
          \<and> py_eq (ob_raw st) clock \<and> py_eq (ob_speed st) double"

lemma before_body_covers:
  assumes hands: "hands_off en" and orderly: "orderly en" and reach: "reachable (co (snd s))"
  shows "wp (before_body en clock double kind req) (ready clock double kind req) (\<lambda>_ _. True) s"
proof -
  let ?Q = "ready clock double kind req" and ?m = "metadata_valid clock double kind req"
  have last: "wp (await en st t (the_int req) d dl False k) ?Q (\<lambda>_ _. True) s'"
    if "reachable (co (snd s'))" ?m "start_valid clock double st" "start (fst s') = Some st"
      "ad_kind (fst s') = the_str kind" "required (fst s') = the_int req" for st t d dl k s'
    by (rule wp_mono [OF wp_conj [OF await_covers [OF hands orderly that(1)] keeps_wp [OF frame_await]]])
      (use that in \<open>auto simp: ready_def frame_def start_valid_def\<close>)
  have mid: "wp (now en) (\<lambda>t1 s'. wp (await en st t (the_int req) d (t1 + timeout (fst s')) False (attempts (fst s'))) ?Q (\<lambda>_ _. True) s') (\<lambda>_ _. True) s'"
    if "co (snd s') = co (snd s)" ?m "start_valid clock double st" "start (fst s') = Some st"
      "ad_kind (fst s') = the_str kind" "required (fst s') = the_int req" for st t d s'
    by (rule wp_mono [OF now_same [OF hands, of s']], rule last) (use that reach in \<open>auto simp: same_def\<close>)
  have first: "wp (read_counter en) (\<lambda>n s'. wp (fail_if (previous \<noteq> Some n) m)
      (\<lambda>_ s'. wp (now en) (\<lambda>t1 s'. wp (await en st t (the_int req) d (t1 + timeout (fst s')) False (attempts (fst s'))) ?Q (\<lambda>_ _. True) s') (\<lambda>_ _. True)
          ((fst s')\<lparr>ad_kind := the_str kind, required := the_int req\<rparr>, snd s')) (\<lambda>_ _. True) ((fst s')\<lparr>start_counter := n\<rparr>, snd s')) (\<lambda>_ _. True) s'"
    if "co (snd s') = co (snd s)" ?m "start_valid clock double st" "start (fst s') = Some st" for st t d s' m previous
    by (rule wp_mono [OF read_counter_same [OF hands, of s']], rule wp_fail_if, rule mid) (use that in \<open>auto simp: same_def\<close>)
  show ?thesis
    unfolding before_body_def
    apply (simp only: wp_simps time_view_def id_apply comp_apply)
    apply (intro wp_fail_if)
    apply (simp only: Let_def)
    apply (split if_split, intro conjI impI TrueI)
    apply (split if_split, intro conjI impI TrueI)
    apply (rule wp_fail_if, rule first)
       apply (simp_all add: start_valid_def)
    done
qed

lemma before_ready:
  assumes "orderly en" "hands_off en" "reachable (co w)" "before en clock double kind req (a, w) = (Inr n, a', w')"
  shows "ready clock double kind req n (a', w')"
proof -
  have "wp (before_body en clock double kind req) (\<lambda>n s. ready clock double kind req n ((fst s)\<lparr>depth := depth (fst s) - 1\<rparr>, snd s)) (\<lambda>_ _. True)
      (a\<lparr>depth := depth a + 1\<rparr>, w)"
    by (rule wp_mono [OF before_body_covers [OF assms(2,1)]]) (use assms(3) in \<open>auto simp: ready_def covered_def registered_def\<close>)
  then have "wp (before_body en clock double kind req) (\<lambda>n s. ready clock double kind req n ((fst s)\<lparr>depth := depth (fst s) - 1\<rparr>, snd s))
      (\<lambda>e. wp (recover en) (\<lambda>_ _. True) (\<lambda>_ _. True)) (a\<lparr>depth := depth a + 1\<rparr>, w)"
    by (rule wp_mono) (auto intro: wpI)
  then have "wp (before en clock double kind req) (ready clock double kind req) (\<lambda>_ _. True) (a, w)"
    unfolding before_def recovering_def by (cases "depth a = 0") (simp_all add: wp_simps fail_adapter_def close_def)
  from wp_resultD [OF this assms(4)] show ?thesis .
qed

lemma py_eq_typed:
  "int_at_least 0 v \<Longrightarrow> int_at_least 0 w \<Longrightarrow> py_eq v w \<longleftrightarrow> v = w"
  "is_bool v \<Longrightarrow> is_bool w \<Longrightarrow> py_eq v w \<longleftrightarrow> v = w"
  "int_at_least 0 v \<Longrightarrow> py_eq (PyInt k) v \<longleftrightarrow> v = PyInt k"
  "is_bool v \<Longrightarrow> py_eq (PyBool b) v \<longleftrightarrow> v = PyBool b"
  by (auto simp: py_eq_def py_number_def int_at_least_def is_bool_def of_bool_def split: pyval.splits if_splits)

lemma readyE:
  assumes "ready clock double kind req n (a, w)"
  obtains st p where "metadata_valid clock double kind req" "n = the_int req" "ad_kind a = the_str kind" "required a = the_int req"
    "start a = Some st" "start_valid clock double st" "registered (a, w)" "ob_eq (view (mb w)) st" "last_counter a = Some (start_counter a)" "0 \<le> start_counter a"
    "\<not> closed (co w)" "raw (co w) = the_int (ob_raw st)" "rate (co w) = 1 \<longleftrightarrow> the_bool (ob_speed st)"
    "ad_permit a = Some p" "pending (co w) = Some p" "n \<le> cpu_cycles p" "2 * n \<le> half_cycles p" "permit_fits (co w) p"
    "\<forall>e \<in> set (edges (co w)). local (co w) + half_cycles p \<le> edge_at e + max_lateness (co w)"
proof -
  obtain st where st: "start a = Some st" "covered n st (a, w)" "start_valid clock double st"
    and m: "metadata_valid clock double kind req" "n = the_int req" "ad_kind a = the_str kind" "required a = the_int req"
    using assms by (auto simp: ready_def start_valid_def)
  from st(2) obtain p where p: "ad_permit a = Some p" "pending (co w) = Some p" "n \<le> cpu_cycles p" "2 * n \<le> half_cycles p" "permit_fits (co w) p"
    "\<forall>e \<in> set (edges (co w)). local (co w) + half_cycles p \<le> edge_at e + max_lateness (co w)"
    by (auto simp: covered_def Let_def)
  have q: "raw (co w) = the_int (ob_raw st)" "rate (co w) = 1 \<longleftrightarrow> the_bool (ob_speed st)"
    using st(2,3) by (simp_all add: covered_def Let_def start_valid_def py_eq_typed the_int_def the_bool_def)
  show ?thesis using st(2) by (intro that [OF m st(1,3) _ _ _ _ _ q p]) (auto simp: covered_def Let_def)
qed

text \<open>
  C12. No instruction begins without credit for all of it. When the hook before an instruction returns, the
  clock and speed it was given are those of the coordinator, an outstanding permit covers the required
  cycles, and running them leaves local time within the peer's credit, the episode, the deadline of a held
  delivery, the lateness bound of every queued edge and the watermark - at the slow rate as well, so a
  speed change inside the instruction cannot break a bound.
\<close>

theorem instruction_is_covered:
  assumes "orderly en" "hands_off en" "reachable (co w)" "before en clock double kind req (a, w) = (Inr n, a', w')"
  shows "case co w' of c \<Rightarrow> req = PyInt n \<and> n \<in> {24, 206} \<and> clock = PyInt (raw c) \<and> double = PyBool (rate c = 1) \<and> \<not> closed c
     \<and> (\<exists>p. ad_permit a' = Some p \<and> pending c = Some p \<and> n \<le> cpu_cycles p)
     \<and> local c + 2 * n \<le> peer c + quantum c + (if episode_open c then rearm c else 0)
     \<and> (episode_open c \<longrightarrow> local c + 2 * n \<le> episode_end c)
     \<and> (\<forall>d. held_deadline c = Some d \<longrightarrow> local c + 2 * n \<le> d)
     \<and> (\<forall>e \<in> set (edges c). local c + 2 * n \<le> edge_at e + max_lateness c)
     \<and> (enforce_completeness c \<longrightarrow> local c + 2 * n \<le> watermark c + max_lateness c)"
proof -
  from before_ready [OF assms] show ?thesis
  proof (rule readyE)
    fix st p
    assume r: "metadata_valid clock double kind req" "n = the_int req" and st: "start_valid clock double st"
      and c: "\<not> closed (co w')" "raw (co w') = the_int (ob_raw st)" "rate (co w') = 1 \<longleftrightarrow> the_bool (ob_speed st)"
        "ad_permit a' = Some p" "pending (co w') = Some p" "n \<le> cpu_cycles p" "2 * n \<le> half_cycles p" "permit_fits (co w') p"
        "\<forall>e \<in> set (edges (co w')). local (co w') + half_cycles p \<le> edge_at e + max_lateness (co w')"
    have t: "req = PyInt n" "n \<in> {24, 206}" "int_at_least 0 clock" "is_bool double"
      using r by (auto simp: metadata_valid_def need_def the_int_def split: pyval.split_asm if_split_asm)
    have "clock = PyInt (raw (co w'))" "double = PyBool (rate (co w') = 1)"
      using st c(2,3) t(3,4)
      by (auto simp: start_valid_def py_eq_typed int_at_least_def is_bool_def the_int_def the_bool_def split: pyval.splits)
    with t c show ?thesis by (auto simp: permit_fits_def)
  qed
qed

subsection \<open>A sample board\<close>

definition sample_env :: "int env" where
  "sample_env = \<lparr>counter = (\<lambda>w. (Inr (PyInt (rest w)), w)), wait_progress = (\<lambda>a t w. (Inr (), w)), monotonic = (\<lambda>w. (0, w)),
     set_governor = (\<lambda>b w. (Inr (), w\<lparr>mb := (mb w)\<lparr>hook_before := (if b then OwnHook else NoHook), hook_after := (if b then OwnHook else NoHook)\<rparr>\<rparr>))\<rparr>"

definition sample_board :: board where
  "sample_board = \<lparr>board_cycles = PyInt 1000, board_double = PyBool False, board_count = PyInt 0, board_clock = PyInt 0,
     board_speed = PyBool False, hook_before = OwnHook, hook_after = OwnHook\<rparr>"

definition sample_adapter :: adapter where
  "sample_adapter = \<lparr>timeout = 1, attempts = 16, attached = True, retired = False, depth = 0, owner_active = False,
     ad_permit = None, start = None, last_counter = Some 0, start_counter = 0, ad_kind = [], required = 0\<rparr>"

definition sample_world :: "int world" where
  "sample_world = \<lparr>co = sample_anchored, mb = sample_board, rest = 0\<rparr>"

definition sample_granted :: "int sys" where
  "sample_granted = snd (before sample_env (PyInt 1000) (PyBool False) (PyStr ''cpu'') (PyInt 24) (sample_adapter, sample_world))"

lemma sample_env_good: "orderly sample_env" "hands_off sample_env"
  by (auto simp: orderly_def hands_off_def sample_env_def evolves_refl)

lemma sample_before: "before sample_env (PyInt 1000) (PyBool False) (PyStr ''cpu'') (PyInt 24) (sample_adapter, sample_world) = (Inr 24, sample_granted)"
proof -
  have "fst (before sample_env (PyInt 1000) (PyBool False) (PyStr ''cpu'') (PyInt 24) (sample_adapter, sample_world)) = Inr 24"
    by code_simp
  then show ?thesis by (simp add: sample_granted_def prod_eq_iff)
qed

theorem instruction_is_covered_witness:
  "local (co (snd sample_granted)) + 48 \<le> peer (co (snd sample_granted)) + quantum (co (snd sample_granted))
     + (if episode_open (co (snd sample_granted)) then rearm (co (snd sample_granted)) else 0)"
proof -
  have "before sample_env (PyInt 1000) (PyBool False) (PyStr ''cpu'') (PyInt 24) (sample_adapter, sample_world)
      = (Inr 24, fst sample_granted, snd sample_granted)" using sample_before by simp
  moreover have "reachable (co sample_world)" using sample_reachable(2) by (simp add: sample_world_def)
  ultimately show ?thesis using instruction_is_covered [OF sample_env_good] by fastforce
qed

text \<open>
  C14. Failure never lets ungoverned work go on. Whatever callbacks and board do, as long as they reach the
  coordinator through its public operations, an exception out of either hook or out of a guarded tick
  leaves the coordinator closed - it grants no further permit - and a guarded tick that returns leaves it
  open with no interval unaccounted.
\<close>

theorem exception_closes:
  assumes "orderly en" "reachable (co (snd s))" "\<And>s. evolves (co (snd s)) (co (snd (snd (tick s))))"
  shows "(\<forall>e s'. before en clock double kind req s = (Inl e, s') \<longrightarrow> closed (co (snd s')))
     \<and> (\<forall>e s'. after en r s = (Inl e, s') \<longrightarrow> closed (co (snd s')))
     \<and> (\<forall>e s'. guarded_tick en tick s = (Inl e, s') \<longrightarrow> closed (co (snd s')))
     \<and> (\<forall>b s'. guarded_tick en tick s = (Inr b, s') \<longrightarrow> \<not> closed (co (snd s')) \<and> ad_permit (fst s') = None)"
proof -
  have "keeps moves tick" using assms(3) by (simp add: keeps_def moves_def)
  note t = guarded_tick_shuts [OF assms(1) this assms(2)]
  show ?thesis
    using wp_errorD [OF before_shuts [OF assms(1,2)]] wp_errorD [OF after_shuts [OF assms(1,2)]] wp_errorD [OF t] wp_resultD [OF t]
    by (auto simp: shut_def)
qed

theorem exception_closes_witness:
  "\<exists>s'. before sample_env (PyInt 1000) (PyBool False) (PyStr ''dma'') (PyInt 24) (sample_adapter, sample_world)
       = (Inl (Timing (EmulatedTimeError ''invalid execution before metadata'')), s') \<and> closed (co (snd s'))"
proof -
  have "fst (before sample_env (PyInt 1000) (PyBool False) (PyStr ''dma'') (PyInt 24) (sample_adapter, sample_world))
      = Inl (Timing (EmulatedTimeError ''invalid execution before metadata''))"
    by code_simp
  then obtain s' where s': "before sample_env (PyInt 1000) (PyBool False) (PyStr ''dma'') (PyInt 24) (sample_adapter, sample_world)
      = (Inl (Timing (EmulatedTimeError ''invalid execution before metadata'')), s')" by (metis prod.collapse)
  have "reachable (co (snd (sample_adapter, sample_world)))" using sample_reachable(2) by (simp add: sample_world_def)
  then have "closed (co (snd s'))"
    by (rule exception_closes [OF sample_env_good(1) _ _, of _ "act_return True", THEN conjunct1, rule_format, OF _ _ s'])
      (simp add: act_return_def evolves_refl)
  with s' show ?thesis by blast
qed

subsection \<open>A truthful report\<close>

definition same_depth :: "'x sys \<Rightarrow> 'x sys \<Rightarrow> bool" where
  "same_depth s s' \<longleftrightarrow> depth (fst s') = depth (fst s)"

lemma same_depth_preorder: "reflp same_depth" "transp same_depth"
  by (auto simp: reflp_def transp_def same_depth_def)

lemma frame_same_depth: "keeps frame m \<Longrightarrow> keeps same_depth m"
  by (rule keepsI) (auto dest!: keepsD [of frame] simp: frame_def same_depth_def)

lemma before_depth:
  assumes "before en clock double kind req (a, w) = (Inr n, a', w')"
  shows "depth a' = 0"
proof -
  have sd: "keeps same_depth (set_ad f)" if "\<And>a. depth (f a) = depth a" for f :: "adapter \<Rightarrow> adapter"
    using that by (simp add: keeps_def set_ad_def act_modify_def same_depth_def)
  have "keeps same_depth (before_body en clock double kind req)"
    unfolding before_body_def
    by (intro keeps_bind keeps_then same_depth_preorder keeps_get sd frame_same_depth frame_await) (auto intro!: frame_steps)
  then have b: "wp (before_body en clock double kind req) (\<lambda>_ s. depth (fst s) = Suc 0) (\<lambda>_ _. True) (a\<lparr>depth := Suc 0\<rparr>, w)"
    by (rule wp_mono [OF keeps_wp]) (auto simp: same_depth_def)
  then have "wp (before_body en clock double kind req) (\<lambda>_ s. depth (fst s) = Suc 0) (\<lambda>e. wp (recover en) (\<lambda>_ _. True) (\<lambda>_ _. True)) (a\<lparr>depth := Suc 0\<rparr>, w)"
    by (rule wp_mono) (auto intro: wpI)
  then have "wp (before_body en clock double kind req) (\<lambda>_ s. depth (fst s) - Suc 0 = 0) (\<lambda>e. wp (recover en) (\<lambda>_ _. True) (\<lambda>_ _. True)) (a\<lparr>depth := Suc 0\<rparr>, w)"
    by (rule wp_mono) auto
  then have "wp (before en clock double kind req) (\<lambda>_ s. depth (fst s) = 0) (\<lambda>_ _. True) (a, w)"
    unfolding before_def recovering_def by (cases "depth a = 0") (simp_all add: wp_simps fail_adapter_def close_def)
  from wp_resultD [OF this assms] show ?thesis by simp
qed

lemma commit_interval:
  assumes c: "reachable c" "\<not> closed c" "pending c = Some p" "permit_fits c p"
    and room: "\<forall>e \<in> set (edges c). local c + half_cycles p \<le> edge_at e + max_lateness c"
    and run: "0 < d" "d \<le> cpu_cycles p" "0 \<le> i" "i \<le> instruction_cap p" "0 \<le> raw c + d"
  shows "\<exists>t c'. commit (Issued (permit_token p)) (PyInt (raw c + d)) (PyInt i) NoTransition c = (Inr t, c') \<and> \<not> closed c'
    \<and> local c' = local c + d * rate c \<and> raw c' = raw c + d \<and> pending c' = None \<and> rate c' = rate c"
proof -
  have r: "0 < rate c" using reachable_wf [OF c(1)] by (auto simp: wf_coord_def valid_rate_def)
  have e: "elapsed_halves NoTransition c (raw c + d) = d * rate c" by (simp add: elapsed_halves_def)
  have h: "d * rate c \<le> half_cycles p" using c(4) run(2) r by (simp add: permit_fits_def)
  note k = commit_within_permit [OF c(1-3) _ run(5), of NoTransition i, unfolded e]
  have "commit (Issued (permit_token p)) (PyInt (raw c + d)) (PyInt i) NoTransition c =
      (Inr (snapshot (record_execution NoTransition (raw c + d) (PyInt i) (c\<lparr>observed_raw := raw c + d\<rparr>))),
       record_execution NoTransition (raw c + d) (PyInt i) (c\<lparr>observed_raw := raw c + d\<rparr>))"
    by (rule k [THEN conjunct1]) (use run h room in \<open>auto simp: transition_valid_def\<close>)
  then show ?thesis using c(2) by (simp add: record_execution_def elapsed_halves_def transition_rate_def)
qed

text \<open>The board after an instruction of \<open>d\<close> cycles without a speed change, and what it then reports.\<close>

definition ran :: "'x env \<Rightarrow> int \<Rightarrow> int \<Rightarrow> adapter \<Rightarrow> 'x world \<Rightarrow> 'x world \<Rightarrow> bool" where
  "ran en d i a w w2 \<longleftrightarrow> co w2 = co w \<and> view (mb w2) = (the (start a))\<lparr>ob_raw := PyInt (raw (co w) + d)\<rparr>
     \<and> hook_before (mb w2) = OwnHook \<and> hook_after (mb w2) = OwnHook \<and> counter en w2 = (Inr (PyInt (start_counter a + i)), w2)"

definition truthful :: "pyval \<Rightarrow> pyval \<Rightarrow> pyval \<Rightarrow> pyval \<Rightarrow> int \<Rightarrow> 'x world \<Rightarrow> report" where
  "truthful clock double kind req d w2 = \<lparr>start_raw = clock, end_raw = PyInt (raw (co w2) + d), start_double = double, end_double = double,
     rep_kind = kind, rep_required = req, transition_count = PyInt 0, transition_clock = board_clock (mb w2), transition_speed = board_speed (mb w2)\<rparr>"

lemma wp_read_counter_here:
  assumes "counter en w = (Inr (PyInt k), w)" "0 \<le> k" "last_counter a = Some l" "l \<le> k"
  shows "wp (read_counter en) Q E (a, w) \<longleftrightarrow> Q k (a\<lparr>last_counter := Some k\<rparr>, w)"
  using assms unfolding read_counter_def
  by (simp add: wp_simps) (simp add: wp_def in_world_def int_at_least_def the_int_def act_then_def act_bind_def set_ad_def act_modify_def act_return_def)

lemma wp_record_interval:
  assumes "commit (Issued (permit_token p)) (ob_raw ob) (PyInt i) tr (co w) = (Inr t, c)" "ad_permit a = Some p" "start a = Some st"
    and "\<not> py_eq (ob_raw ob) (ob_raw st)" "pending c = None" and Q: "Q () (a\<lparr>ad_permit := None\<rparr>, w\<lparr>co := c\<rparr>)"
  shows "wp (record_interval ob i tr) Q E (a, w)"
  using assms unfolding record_interval_def
  by (simp add: wp_simps Let_def forget_settled_def snapshot_def)

lemma after_accounts:
  assumes start: "start a = Some st" "start_valid clock double st" "metadata_valid clock double kind req"
      "ad_kind a = the_str kind" "required a = the_int req" "raw (co w) = the_int (ob_raw st)" "last_counter a = Some (start_counter a)"
      "depth a = 0" "ad_permit a = Some p" "attached a" "0 \<le> start_counter a"
    and run: "ran en d i a w w2" "0 < d" "d \<le> the_int req" "0 \<le> i" "i \<le> (if kind = PyStr ''cpu'' then 1 else 0)"
    and commit: "commit (Issued (permit_token p)) (PyInt (raw (co w) + d)) (PyInt i) NoTransition (co w) = (Inr t, c)" "pending c = None"
  shows "\<exists>a2. after en (truthful clock double kind req d w2) (a, w2) = (Inr (), a2, w2\<lparr>co := c\<rparr>) \<and> ad_permit a2 = None \<and> depth a2 = 0"
proof -
  let ?r = "truthful clock double kind req d w2"
  let ?ob = "st\<lparr>ob_raw := PyInt (raw (co w) + d)\<rparr>"
  have v: "view (mb w2) = ?ob" "co w2 = co w" "counter en w2 = (Inr (PyInt (start_counter a + i)), w2)"
    "board_clock (mb w2) = ob_clock st" "board_speed (mb w2) = ob_tspeed st" "hook_before (mb w2) = OwnHook" "hook_after (mb w2) = OwnHook"
    using run(1) start(1) by (auto simp: ran_def view_def dest: arg_cong [of _ _ ob_clock] arg_cong [of _ _ ob_tspeed])
  have st: "int_at_least 0 (ob_raw st)" "int_at_least 0 clock" "is_bool double" "is_bool (ob_speed st)" "int_at_least 0 (ob_count st)"
    "int_at_least 0 (ob_clock st)" "is_bool (ob_tspeed st)" "ob_raw st = clock" "ob_speed st = double" "0 \<le> the_int (ob_raw st)"
    "ob_raw st = PyInt (raw (co w))"
    using start(2,3,6) by (auto simp: start_valid_def metadata_valid_def py_eq_typed dest: int_at_least_the_int)
      (auto simp: int_at_least_def the_int_def split: pyval.splits)
  obtain k m where kind: "kind = PyStr k" "req = PyInt m"
    using start(3) by (auto simp: metadata_valid_def split: pyval.split_asm)
  have raw: "raw (co w) = the_int clock" "0 \<le> raw (co w)" using start(6) st by simp_all
  have obs: "int_at_least 0 (ob_raw ?ob)" "\<not> py_eq (ob_raw ?ob) (ob_raw st)" "py_eq double double" "ob_eq ?ob ?ob"
    using raw run(2) st(11) by (auto simp: int_at_least_def py_eq_def py_number_def ob_eq_def)
  have tr: "judged_transition ?r st ?ob = NoTransition"
    using st by (simp add: judged_transition_def transition_def truthful_def actual_count_def v int_at_least_def the_int_def py_eq_def Let_def)
  have con: "\<not> contradicts ?r (a\<lparr>depth := n, last_counter := l\<rparr>) (registered (a\<lparr>depth := n, last_counter := l\<rparr>, w2)) ?ob ?ob" for n l
    unfolding contradicts_def Let_def
    using st(2,3,6,7,8,9,11) start(1,4,5,10) kind raw run(2) obs(4)
    by (simp add: truthful_def registered_def v the_str_def the_int_def int_at_least_def py_eq_def py_number_def)
  have bound: "\<not> the_int (ob_raw ?ob) - the_int (ob_raw st) > required a" "\<not> i > (if ad_kind a = ''cpu'' then 1 else 0)"
    using run(3,5) start(5,4,6) kind by (auto simp: the_int_def the_str_def split: if_split_asm)
  let ?a = "a\<lparr>depth := Suc 0, last_counter := Some (start_counter a + i)\<rparr>"
  have com: "commit (Issued (permit_token p)) (ob_raw ?ob) (PyInt i) (judged_transition ?r st ?ob) (co w2) = (Inr t, c)"
    using commit(1) by (simp add: tr v)
  have rec: "wp (record_interval ?ob i (judged_transition ?r st ?ob)) Q E (?a, w2)" if "Q () (?a\<lparr>ad_permit := None\<rparr>, w2\<lparr>co := c\<rparr>)" for Q E
    by (rule wp_record_interval [where st = st and Q = Q, OF com]) (use start obs commit(2) that in auto)
  have count: "wp (read_counter en) Q E (a\<lparr>depth := Suc 0\<rparr>, w2) \<longleftrightarrow> Q (start_counter a + i) (?a, w2)" for Q E
    using wp_read_counter_here [OF v(3), of "a\<lparr>depth := Suc 0\<rparr>" "start_counter a"] start(7,11) run(4) by simp
  have body: "wp (after_body en ?r) (\<lambda>_ s. s = (?a\<lparr>ad_permit := None\<rparr>, w2\<lparr>co := c\<rparr>)) (\<lambda>_ _. False) (a\<lparr>depth := Suc 0\<rparr>, w2)"
    unfolding after_body_def
    using start(1,10) obs(1) bound con
    by (simp add: wp_simps v(1) count Let_def rec fail_if_def)
  then have "wp (after_body en ?r) (\<lambda>_ s. snd s = w2\<lparr>co := c\<rparr> \<and> ad_permit (fst s) = None \<and> depth (fst s) - Suc 0 = 0)
      (\<lambda>e. wp (recover en) (\<lambda>_ _. False) (\<lambda>_ _. False)) (a\<lparr>depth := Suc 0\<rparr>, w2)"
    by (rule wp_mono) auto
  then have "wp (after en ?r) (\<lambda>_ s. snd s = w2\<lparr>co := c\<rparr> \<and> ad_permit (fst s) = None \<and> depth (fst s) = 0) (\<lambda>_ _. False) (a, w2)"
    using start(8,9) unfolding after_def recovering_def by (simp add: wp_simps)
  then show ?thesis by (auto simp: wp_def split: prod.splits sum.splits)
qed

text \<open>
  C13. An instruction that keeps to what it was granted goes through, and its time is charged exactly. After
  the hook before it has returned, an instruction (or a DMA step) that takes some of the required cycles at
  the current speed, executes at most its one instruction within the permit's cap and is reported truthfully
  is accepted: the hook after it returns, local time has grown by the cycles at the current rate, the raw
  clock is the board's, no permit is left outstanding and the coordinator is open.
\<close>

theorem truthful_report_accounted:
  assumes "orderly en" "hands_off en" "reachable (co w)" "before en clock double kind req (a, w) = (Inr n, a', w')"
    and "ran en d i a' w' w2" "0 < d" "d \<le> n" "0 \<le> i" "i \<le> (if kind = PyStr ''cpu'' then 1 else 0)"
    and "\<And>p. ad_permit a' = Some p \<Longrightarrow> i \<le> instruction_cap p"
  shows "\<exists>a2 c2. after en (truthful clock double kind req d w2) (a', w2) = (Inr (), a2, w2\<lparr>co := c2\<rparr>)
     \<and> ad_permit a2 = None \<and> depth a2 = 0 \<and> \<not> closed c2 \<and> pending c2 = None
     \<and> local c2 = local (co w') + d * rate (co w') \<and> raw c2 = raw (co w') + d \<and> rate c2 = rate (co w')"
proof -
  have reach: "reachable (co w')"
    using keepsD [OF keeps_before [OF assms(1)] assms(4)] assms(3) by (auto simp: moves_def intro: evolves_reachable)
  show ?thesis
  proof (rule readyE [OF before_ready [OF assms(1-4)]])
    fix st p
    assume m: "metadata_valid clock double kind req" "n = the_int req" and ad: "ad_kind a' = the_str kind" "required a' = the_int req"
      and st: "start a' = Some st" "start_valid clock double st" "registered (a', w')" "last_counter a' = Some (start_counter a')" "0 \<le> start_counter a'"
      and c: "\<not> closed (co w')" "raw (co w') = the_int (ob_raw st)" "ad_permit a' = Some p" "pending (co w') = Some p" "n \<le> cpu_cycles p"
        "permit_fits (co w') p" "\<forall>e \<in> set (edges (co w')). local (co w') + half_cycles p \<le> edge_at e + max_lateness (co w')"
    have "0 \<le> raw (co w') + d" using st(2) c(2) assms(6) int_at_least_the_int [of 0 "ob_raw st"] by (simp add: start_valid_def)
    with commit_interval [OF reach c(1,4,6,7) assms(6) _ assms(8) assms(10) [OF c(3)]] assms(7) c(5) obtain t c' where
      k: "commit (Issued (permit_token p)) (PyInt (raw (co w') + d)) (PyInt i) NoTransition (co w') = (Inr t, c')" "\<not> closed c'"
        "local c' = local (co w') + d * rate (co w')" "raw c' = raw (co w') + d" "pending c' = None" "rate c' = rate (co w')" by fastforce
    have "attached a'" using st(3) by (simp add: registered_def)
    from after_accounts [OF st(1,2) m(1) ad c(2) st(4) before_depth [OF assms(4)] c(3) this st(5) assms(5,6) _ assms(8,9) k(1,5)] assms(7) m(2) k
    show ?thesis by blast
  qed
qed

definition sample_ran :: "int world" where
  "sample_ran = (snd sample_granted)\<lparr>mb := (mb (snd sample_granted))\<lparr>board_cycles := PyInt 1012\<rparr>, rest := 1\<rparr>"

theorem truthful_report_accounted_witness:
  "\<exists>a2 c2. after sample_env (truthful (PyInt 1000) (PyBool False) (PyStr ''cpu'') (PyInt 24) 12 sample_ran) (fst sample_granted, sample_ran)
     = (Inr (), a2, sample_ran\<lparr>co := c2\<rparr>) \<and> local c2 = 24"
proof -
  have b: "before sample_env (PyInt 1000) (PyBool False) (PyStr ''cpu'') (PyInt 24) (sample_adapter, sample_world)
      = (Inr 24, fst sample_granted, snd sample_granted)" using sample_before by simp
  have r: "reachable (co sample_world)" using sample_reachable(2) by (simp add: sample_world_def)
  have ran: "ran sample_env 12 1 (fst sample_granted) (snd sample_granted) sample_ran"
    and cap: "map_option instruction_cap (ad_permit (fst sample_granted)) = Some 24"
    and loc: "local (co (snd sample_granted)) = 0" "rate (co (snd sample_granted)) = 2"
    unfolding ran_def by code_simp+
  have "i \<le> instruction_cap p" if "ad_permit (fst sample_granted) = Some p" "i = 1" for p i using cap that by simp
  then obtain a2 c2 where "after sample_env (truthful (PyInt 1000) (PyBool False) (PyStr ''cpu'') (PyInt 24) 12 sample_ran) (fst sample_granted, sample_ran)
      = (Inr (), a2, sample_ran\<lparr>co := c2\<rparr>)" "local c2 = local (co (snd sample_granted)) + 12 * rate (co (snd sample_granted))"
    using truthful_report_accounted [OF sample_env_good r b ran] by fastforce
  then show ?thesis using loc by (intro exI [of _ a2] exI [of _ c2]) simp
qed

end
