(* ===== verification/Timed_Session.thy ===== *)
theory Timed_Session
  imports Execution_Adapter Wire_Channel Serial_Core
begin

text \<open>
  The timed link session (\<open>link/timed_link_session.py\<close>): one emulator owner over the coordinator of
  \<open>Emulated_Time\<close>, the channel of \<open>Wire_Channel\<close> and the serial register of \<open>Serial_Core\<close>. This theory holds
  its state, its checks and sends, its map from raw cycles to half cycles, and the pump that moves messages
  between the wire, the coordinator and the register. The session is part of the world of
  \<open>Execution_Adapter\<close>, whose progress callback it provides. Other threads, the peer and the clock act
  where the code looks at what it shares with them: there, \<open>others\<close> is applied to the world. Times are in
  units of the monotonic clock.
\<close>

subsection \<open>State\<close>

text \<open>The fields that \<open>_start_hold\<close> sets and the end of a delivery clears together.\<close>

record hold =
  hold_until :: int
  hold_local :: int
  hold_counter :: int
  hold_earliest :: int

text \<open>
  The object's attributes. \<open>bound\<close> says that \<open>_pyboy\<close>, \<open>_board\<close> and \<open>_core\<close> are set, \<open>governed\<close> that the
  coordinator and the adapter exist. Of a queued edge request only the identifier is used again; of a response
  the delivery time and the bit. A dictionary is an association list, the set of gaps a list.
\<close>

record tsession =
  ts_epoch :: string
  ts_rearm :: int
  ts_cap :: int
  ts_lateness :: int
  ts_quantum :: int
  ts_threshold :: int
  ts_timeout :: int
  ts_attempts :: nat
  ts_capacity :: nat
  cancel_set :: bool
  terminal :: bool
  owner :: "nat option"
  used :: bool
  active :: bool
  attaching :: bool
  in_edge :: bool
  pumping :: bool
  pump_deadline :: "int option"
  bound :: bool
  governed :: bool
  previous_line :: nat
  terminal_error :: "adapter_error option"
  ingress :: "int message list"
  queued :: "int list"
  edge_deadlines :: "(int \<times> int) list"
  delivery :: "edge_delivery list"
  ts_batch :: "int option"
  ingress_edge :: int
  admitted_edge :: int
  out_edge :: int
  peer_sequence :: int
  ingress_watermark :: int
  ingress_prefix :: int
  coordinator_watermark :: int
  settled :: int
  sent_progress :: int
  sent_watermark :: int
  sent_prefix :: int
  waiting_edge :: "int option"
  response :: "(int \<times> int) option"
  applied :: int
  held :: "hold option"
  episode_id :: "string option"
  episode_number :: int
  segments :: "(int \<times> int \<times> bool) list"
  stop_count :: int
  mapped_raw :: int
  control_active :: bool
  control_deadline :: "int option"
  sync_markers :: "int list"
  inbound_fences :: "(int \<times> int) list"
  outbound_fences :: "(int \<times> int \<times> bool) list"
  last_inbound_fence :: int
  last_outbound_fence :: int
  completed_prefix :: int
  completion_gaps :: "int list"
  bootstrap_writes :: "(bool \<times> int) list"

text \<open>
  What surrounds the session: its channel, the serial register with the backend it calls and the error it has
  latched, whether the board still has that register (\<open>serial_kept\<close>) and the register its idle owner
  callbacks (\<open>dispatch_kept\<close>), the retired instructions, the serial interrupt request, the caller's cancel event,
  the clock, the calling thread, the process-wide counter of delivery batches, and everything else.
\<close>

datatype line_ref = NullLine nat | SessionLine | ForeignLine nat

record 'z timed =
  ts :: tsession
  chan :: channel
  port :: core
  line :: line_ref
  latched :: adapter_error
  serial_kept :: bool
  dispatch_kept :: bool
  retired_count :: pyval
  serial_irq :: bool
  external_cancel :: bool
  clk :: int
  thread :: nat
  next_batch :: int
  around :: 'z

type_synonym 'z tw = "'z timed world"
type_synonym ('z, 'a) tact = "('z tw, adapter_error, 'a) act"

text \<open>
  The environment: what others do between two looks, how long a look at the clock takes, how often a
  waiting call wakes up before its deadline, how the writing of admitted bytes ends, and the board's setter
  of the execution callbacks.
\<close>

record 'z tenv =
  others :: "'z tw \<Rightarrow> 'z tw"
  elapse :: "'z tw \<Rightarrow> nat"
  looks :: nat
  write_ends :: "'z tw \<Rightarrow> wire_error option \<times> 'z tw"
  install :: "bool \<Rightarrow> 'z tw \<Rightarrow> (adapter_error + unit) \<times> 'z tw"

definition ses :: "'z tw \<Rightarrow> tsession" where
  "ses w = ts (rest w)"

definition set_rest :: "('z timed \<Rightarrow> 'z timed) \<Rightarrow> ('z, unit) tact" where
  "set_rest f = act_modify (\<lambda>w. w\<lparr>rest := f (rest w)\<rparr>)"

definition set_ses :: "(tsession \<Rightarrow> tsession) \<Rightarrow> ('z, unit) tact" where
  "set_ses f = set_rest (\<lambda>r. r\<lparr>ts := f (ts r)\<rparr>)"

definition on_coordinator :: "(coord \<Rightarrow> 'a outcome) \<Rightarrow> ('z, 'a) tact" where
  "on_coordinator f w = (case f (co w) of
       (Inl e, c) \<Rightarrow> (Inl (Timing e), w\<lparr>co := c\<rparr>) | (Inr x, c) \<Rightarrow> (Inr x, w\<lparr>co := c\<rparr>))"

definition raise_wire :: "wire_error \<Rightarrow> ('z, 'a) tact" where
  "raise_wire e = act_raise (WireFault e)"

definition protocol_error :: "string \<Rightarrow> ('z, 'a) tact" where
  "protocol_error message = raise_wire (ProtocolError message)"

definition expired_error :: "string \<Rightarrow> ('z, 'a) tact" where
  "expired_error message = raise_wire (DeadlineExceeded message)"

definition misuse :: "string \<Rightarrow> ('z, 'a) tact" where
  "misuse message = act_raise (RuntimeFault message)"

definition time_error :: "string \<Rightarrow> ('z, 'a) tact" where
  "time_error message = act_raise (Timing (EmulatedTimeError message))"

definition pause :: "'z tenv \<Rightarrow> ('z, unit) tact" where
  "pause te = act_modify (others te)"

definition read_clock :: "'z tenv \<Rightarrow> 'z tw \<Rightarrow> int \<times> 'z tw" where
  "read_clock te w = (let t = clk (rest w) + int (elapse te w) in (t, w\<lparr>rest := (rest w)\<lparr>clk := t\<rparr>\<rparr>))"

definition clock_time :: "'z tenv \<Rightarrow> ('z, int) tact" where
  "clock_time te w = (case read_clock te w of (t, w') \<Rightarrow> (Inr t, w'))"

definition truth :: "pyval \<Rightarrow> bool" where
  "truth v = (case v of PyBool b \<Rightarrow> b | PyInt n \<Rightarrow> n \<noteq> 0 | PyStr s \<Rightarrow> s \<noteq> [] | PyBytes bs \<Rightarrow> bs \<noteq> [] | PyNone \<Rightarrow> False | PyOther \<Rightarrow> True)"

definition raw_cycles :: "'z tw \<Rightarrow> int" where
  "raw_cycles w = the_int (board_cycles (mb w))"

subsection \<open>Construction\<close>

definition hex_digit :: "nat \<Rightarrow> char" where
  "hex_digit n = ''0123456789abcdef'' ! n"

definition hex_bytes :: "byte list \<Rightarrow> string" where
  "hex_bytes bs = concat (map (\<lambda>b. [hex_digit (unat b div 16), hex_digit (unat b mod 16)]) bs)"

text \<open>\<open>None\<close> is a timeout that is not a finite number; the last flag says that the cancel event has the right type.\<close>

definition new_session :: "channel \<Rightarrow> pyval \<Rightarrow> pyval \<Rightarrow> pyval \<Rightarrow> pyval \<Rightarrow> int option \<Rightarrow> pyval \<Rightarrow> pyval \<Rightarrow> bool
    \<Rightarrow> exn + tsession" where
  "new_session ch rearm_budget cap max_edge_lateness quantum_cycles op_timeout wait_attempts capacity event_typed =
     (if \<not> (int_at_least 0 rearm_budget \<and> int_at_least 1 cap \<and> int_at_least 0 max_edge_lateness
            \<and> int_at_least 1 quantum_cycles \<and> int_at_least 1 wait_attempts \<and> int_at_least 1 capacity)
      then Inl ValueError
      else case op_timeout of
        None \<Rightarrow> Inl ValueError
      | Some t \<Rightarrow>
          if t \<le> 0 then Inl ValueError
          else if length (ch_epoch ch) \<noteq> 16 then Inl ValueError
          else if \<not> event_typed then Inl TypeError
          else Inr \<lparr>ts_epoch = hex_bytes (ch_epoch ch), ts_rearm = the_int rearm_budget, ts_cap = the_int cap,
            ts_lateness = the_int max_edge_lateness * 2, ts_quantum = the_int quantum_cycles,
            ts_threshold = max 1 (the_int quantum_cycles div 2), ts_timeout = t, ts_attempts = nat (the_int wait_attempts),
            ts_capacity = nat (the_int capacity), cancel_set = False, terminal = False, owner = None, used = False,
            active = False, attaching = False, in_edge = False, pumping = False, pump_deadline = None, bound = False,
            governed = False, previous_line = 0, terminal_error = None, ingress = [], queued = [], edge_deadlines = [],
            delivery = [], ts_batch = None, ingress_edge = 0, admitted_edge = 0, out_edge = 0, peer_sequence = 0,
            ingress_watermark = - 1, ingress_prefix = 0, coordinator_watermark = - 1, settled = 0, sent_progress = - 1,
            sent_watermark = - 1, sent_prefix = 0, waiting_edge = None, response = None, applied = 0, held = None,
            episode_id = None, episode_number = 0, segments = [], stop_count = 0, mapped_raw = 0,
            control_active = False, control_deadline = None, sync_markers = [], inbound_fences = [],
            outbound_fences = [], last_inbound_fence = 0, last_outbound_fence = 0, completed_prefix = 0,
            completion_gaps = [], bootstrap_writes = []\<rparr>)"

subsection \<open>Checks\<close>

definition cancel_requested :: "'z tw \<Rightarrow> bool" where
  "cancel_requested w \<longleftrightarrow> cancel_set (ses w) \<or> external_cancel (rest w)"

definition passed :: "int option \<Rightarrow> int \<Rightarrow> bool" where
  "passed d t \<longleftrightarrow> (case d of None \<Rightarrow> False | Some x \<Rightarrow> t \<ge> x)"

definition raise_when :: "bool \<Rightarrow> ('z, unit) tact \<Rightarrow> ('z, unit) tact" where
  "raise_when b m = act_unless (\<not> b) m"

definition check :: "'z tenv \<Rightarrow> ('z, unit) tact" where
  "check te = act_then (pause te) (act_bind (act_get id) (\<lambda>w.
     if cancel_requested w
     then (case ch_error (chan (rest w)) of
             Some (ProtocolError s) \<Rightarrow> raise_wire (ProtocolError s)
           | _ \<Rightarrow> raise_wire (Cancelled ''timed session cancelled''))
     else if terminal (ses w) then raise_wire (ChannelClosed ''timed session is terminal'')
     else case ch_error (chan (rest w)) of
       Some e \<Rightarrow> raise_wire e
     | None \<Rightarrow> act_bind (clock_time te) (\<lambda>t.
         if passed (control_deadline (ses w)) t then expired_error ''control deadline expired''
         else if passed (pump_deadline (ses w)) t then expired_error ''owner pump deadline expired''
         else act_return ())))"

definition require_owner :: "('z, unit) tact" where
  "require_owner = act_bind (act_get id) (\<lambda>w.
     if owner (ses w) \<noteq> Some (thread (rest w)) then misuse ''timed emulator mutation requires the attaching thread''
     else act_return ())"

definition verify_registration :: "adapter \<Rightarrow> ('z, unit) tact" where
  "verify_registration a = act_bind (act_get id) (\<lambda>w.
     if \<not> bound (ses w) then act_raise AttributeError
     else if \<not> serial_kept (rest w) \<or> line (rest w) \<noteq> SessionLine \<or> \<not> dispatch_kept (rest w) \<or> \<not> registered (a, w)
     then misuse ''timed session registration was replaced''
     else act_return ())"

definition busy :: "tsession \<Rightarrow> bool" where
  "busy s \<longleftrightarrow> active s \<or> in_edge s \<or> pumping s \<or> control_active s"

definition require_execution :: "'z tenv \<Rightarrow> adapter \<Rightarrow> ('z, unit) tact" where
  "require_execution te a = act_then require_owner (act_then (check te) (act_bind (act_get ses) (\<lambda>s.
     if \<not> active s \<or> in_edge s \<or> pumping s \<or> control_active s then misuse ''recursive or unowned timed execution''
     else verify_registration a)))"

subsection \<open>Sending and receiving\<close>

definition at_most :: "int option \<Rightarrow> int \<Rightarrow> int" where
  "at_most d t = (case d of None \<Rightarrow> t | Some x \<Rightarrow> min t x)"

definition bounded :: "tsession \<Rightarrow> int \<Rightarrow> int" where
  "bounded s d = at_most (map_option hold_until (held s)) (at_most (pump_deadline s) (at_most (control_deadline s) d))"

definition deadline_now :: "'z tenv \<Rightarrow> ('z, int) tact" where
  "deadline_now te = act_bind (clock_time te) (\<lambda>t. act_get (\<lambda>w. bounded (ses w) (t + ts_timeout (ses w))))"

definition stop_reason :: "int \<Rightarrow> 'z tw \<Rightarrow> wire_error option" where
  "stop_reason d w =
     (if cancel_requested w then Some (Cancelled ''operation cancelled'')
      else if clk (rest w) \<ge> d then Some (DeadlineExceeded ''operation deadline expired'') else None)"

definition set_chan :: "channel \<Rightarrow> ('z, unit) tact" where
  "set_chan ch = set_rest (\<lambda>r. r\<lparr>chan := ch\<rparr>)"

text \<open>One send of the channel: admission under its lock, then the writing, then its end.\<close>

definition finish_write :: "wire_error option \<Rightarrow> ('z, unit) tact" where
  "finish_write outcome = act_bind (act_get (\<lambda>w. finish_send outcome (chan (rest w)))) (\<lambda>(r, ch).
     act_then (set_chan ch) (case r of Inl e \<Rightarrow> raise_wire e | Inr _ \<Rightarrow> act_return ()))"

definition transmit :: "'z tenv \<Rightarrow> int \<Rightarrow> (wire_error option \<Rightarrow> channel \<Rightarrow> wire_error + admission \<times> channel) \<Rightarrow> ('z, unit) tact" where
  "transmit te d admitting = act_then (pause te)
     (act_bind (act_get (\<lambda>w. admitting (stop_reason d w) (chan (rest w)))) (\<lambda>r.
       case r of
         Inl e \<Rightarrow> raise_wire e
       | Inr (Repeated _, _) \<Rightarrow> act_return ()
       | Inr (Fresh _ _, ch) \<Rightarrow> act_then (set_chan ch)
           (act_bind (\<lambda>w. case write_ends te w of (outcome, w') \<Rightarrow> (Inr outcome, w')) finish_write)))"

definition as_sent :: "int message \<Rightarrow> py_message" where
  "as_sent m = IsMessage (map_message PyInt m)"

definition send :: "'z tenv \<Rightarrow> int message \<Rightarrow> int option \<Rightarrow> ('z, unit) tact" where
  "send te m deadline = act_then (check te)
     (act_bind (case deadline of None \<Rightarrow> deadline_now te | Some d \<Rightarrow> act_get (\<lambda>w. bounded (ses w) d)) (\<lambda>d.
       transmit te d (\<lambda>stopped. admit (as_sent m) False None stopped stopped)))"

text \<open>A wait on the channel: it wakes up some number of times, and at the deadline at the latest.\<close>

definition look :: "int \<Rightarrow> (channel \<Rightarrow> ('a \<times> channel) option) \<Rightarrow> ('z, 'a option) tact" where
  "look d ready = act_bind (act_get id) (\<lambda>w.
     case check_open (chan (rest w)) of
       Inl e \<Rightarrow> raise_wire e
     | Inr _ \<Rightarrow> (case stop_reason d w of
         Some e \<Rightarrow> raise_wire e
       | None \<Rightarrow> (case ready (chan (rest w)) of
           None \<Rightarrow> act_return None
         | Some (x, ch) \<Rightarrow> act_then (set_chan ch) (act_return (Some x)))))"

definition till_deadline :: "int \<Rightarrow> ('z, unit) tact" where
  "till_deadline d = set_rest (\<lambda>r. r\<lparr>clk := max (clk r) d\<rparr>)"

fun await_channel :: "'z tenv \<Rightarrow> int \<Rightarrow> (channel \<Rightarrow> ('a \<times> channel) option) \<Rightarrow> nat \<Rightarrow> ('z, 'a) tact" where
  "await_channel te d ready n =
     act_then (pause te) (act_then (if n = 0 then till_deadline d else act_return ())
       (act_bind (look d ready) (\<lambda>r. case r of
          Some x \<Rightarrow> act_return x
        | None \<Rightarrow> (case n of
            0 \<Rightarrow> expired_error ''operation deadline expired''
          | Suc k \<Rightarrow> await_channel te d ready k))))"

declare await_channel.simps [simp del]

definition first_queued :: "channel \<Rightarrow> (int message \<times> channel) option" where
  "first_queued ch = (case inbound ch of [] \<Rightarrow> None | f # fs \<Rightarrow> Some (fr_message f, ch\<lparr>inbound := fs\<rparr>))"

definition receive :: "'z tenv \<Rightarrow> int \<Rightarrow> ('z, int message) tact" where
  "receive te d = await_channel te d first_queued (looks te)"

definition handshake :: "'z tenv \<Rightarrow> int \<Rightarrow> ('z, unit) tact" where
  "handshake te d = act_bind (act_get (\<lambda>w. handshake_message (chan (rest w)))) (\<lambda>hello.
     act_then (transmit te d (\<lambda>stopped. admit hello True None stopped stopped))
       (await_channel te d (\<lambda>ch. if handshake_done ch then Some ((), ch) else None) (looks te)))"

end
