(* ===== verification/Timed_Pump.thy ===== *)
theory Timed_Pump
  imports Timed_Session
begin

text \<open>
  The pump of the timed session (\<open>link/timed_link_session.py\<close>, \<open>_observe_map\<close> to \<open>_wait_for_progress\<close>, and
  \<open>_normalize_failure\<close> of \<open>link/_timed_link_session_support.py\<close>): messages are staged, consumed by the
  coordinator, applied to the serial register and answered, and what has settled is published.
\<close>

subsection \<open>Raw cycles and half cycles\<close>

fun find_segment :: "int \<Rightarrow> (int \<times> int \<times> bool) list \<Rightarrow> int option" where
  "find_segment rc [] = None"
| "find_segment rc ((since, half, speed) # older) =
     (if rc \<ge> since then Some (half + (rc - since) * (if speed then 1 else 2)) else find_segment rc older)"

definition map_clock :: "int \<Rightarrow> (int \<times> int \<times> bool) list \<Rightarrow> string + int" where
  "map_clock rc segs =
     (if segs = [] \<or> rc < fst (hd segs) then Inl ''serial timestamp precedes epoch''
      else case find_segment rc (List.rev segs) of
             None \<Rightarrow> Inl ''serial timestamp has no exact rate interval''
           | Some h \<Rightarrow> Inr h)"

definition mapped :: "int \<Rightarrow> ('z, int) tact" where
  "mapped rc = act_bind (act_get ses) (\<lambda>s.
     case map_clock rc (segments s) of Inl e \<Rightarrow> time_error e | Inr h \<Rightarrow> act_return h)"

text \<open>\<open>speed_of\<close> is the rate of the newest segment; the list is never empty once a session is attached.\<close>

definition speed_of :: "tsession \<Rightarrow> bool" where
  "speed_of s = snd (snd (last (segments s)))"

definition observe_stop :: "int \<Rightarrow> int \<Rightarrow> ('z, unit) tact" where
  "observe_stop rc stops = act_bind (act_get id) (\<lambda>w.
     let at = the_int (board_clock (mb w)); speed = truth (board_speed (mb w))
     in if \<not> (mapped_raw (ses w) \<le> at \<and> at \<le> rc) \<or> speed = speed_of (ses w)
        then time_error ''contradictory native STOP transition''
        else act_bind (mapped at) (\<lambda>half.
          if length (segments (ses w)) \<ge> 4096 then time_error ''STOP interval history capacity exhausted''
          else set_ses (\<lambda>s. s\<lparr>segments := segments s @ [(at, half, speed)], stop_count := stops\<rparr>)))"

definition observe_map :: "('z, unit) tact" where
  "observe_map = act_bind (act_get id) (\<lambda>w.
     let rc = raw_cycles w; stops = the_int (board_count (mb w)); delta = stops - stop_count (ses w)
     in if rc < mapped_raw (ses w) \<or> delta \<noteq> 0 \<and> delta \<noteq> 1
        then time_error ''unmapped native execution or multiple STOP transitions''
        else act_then (if delta \<noteq> 0 then observe_stop rc stops else act_return ())
          (act_bind (act_get ses) (\<lambda>s.
             if truth (board_double (mb w)) \<noteq> speed_of s then time_error ''native rate changed without STOP metadata''
             else set_ses (\<lambda>s. s\<lparr>mapped_raw := rc\<rparr>))))"

subsection \<open>Failures\<close>

text \<open>The errors that cancellation takes the place of.\<close>

fun ending :: "adapter_error \<Rightarrow> bool" where
  "ending (WireFault (ProtocolError _)) = False"
| "ending (WireFault _) = True"
| "ending (Timing (CoordinatorClosed _)) = True"
| "ending _ = False"

definition native_cause :: "adapter_error \<Rightarrow> adapter_error option" where
  "native_cause e = (case e of BackendFailure c \<Rightarrow> if ending c then Some c else None | _ \<Rightarrow> None)"

fun is_cancelled :: "adapter_error \<Rightarrow> bool" where
  "is_cancelled (WireFault (Cancelled _)) = True"
| "is_cancelled _ = False"

definition normalize_failure :: "adapter_error \<Rightarrow> 'z tw \<Rightarrow> adapter_error" where
  "normalize_failure e w =
     (let effective = (case native_cause e of None \<Rightarrow> e | Some c \<Rightarrow> c)
      in if cancel_requested w \<and> ending effective
         then (case ch_error (chan (rest w)) of
                 Some (ProtocolError s) \<Rightarrow> WireFault (ProtocolError s)
               | _ \<Rightarrow> if is_cancelled effective \<and> native_cause e = None then effective
                      else WireFault (Cancelled ''timed session cancelled''))
         else e)"

subsection \<open>Staging and polling\<close>

definition is_control :: "int message \<Rightarrow> bool" where
  "is_control m \<longleftrightarrow> (case m of Sync _ \<Rightarrow> True | Fence _ _ \<Rightarrow> True | FenceAck _ _ \<Rightarrow> True | _ \<Rightarrow> False)"

definition backlog :: "tsession \<Rightarrow> nat" where
  "backlog s = length (ingress s) + length (queued s) + length (delivery s) + length (completion_gaps s)"

definition stage_response :: "int \<Rightarrow> int \<Rightarrow> int \<Rightarrow> ('z, unit) tact" where
  "stage_response i h b = act_bind (act_get ses) (\<lambda>s.
     if waiting_edge s \<noteq> Some i \<or> response s \<noteq> None then protocol_error ''unexpected or duplicate edge response''
     else set_ses (\<lambda>s. s\<lparr>response := Some (h, b)\<rparr>))"

definition stage_deadline :: "'z tenv \<Rightarrow> int message \<Rightarrow> ('z, unit) tact" where
  "stage_deadline te m = (case m of
     EdgeRequest i _ _ _ \<Rightarrow> act_bind (clock_time te) (\<lambda>t. set_ses (\<lambda>s.
       s\<lparr>edge_deadlines := (if map_of (edge_deadlines s) i = None then edge_deadlines s @ [(i, t + ts_timeout s)] else edge_deadlines s)\<rparr>))
   | _ \<Rightarrow> act_return ())"

definition stage :: "'z tenv \<Rightarrow> int message \<Rightarrow> ('z, unit) tact" where
  "stage te m = (case m of
     EdgeResponse i h b \<Rightarrow> stage_response i h b
   | Hello _ \<Rightarrow> protocol_error ''unexpected timed session message''
   | _ \<Rightarrow> act_bind (act_get id) (\<lambda>w.
       if is_control m \<and> ch_revision (chan (rest w)) \<noteq> 3 then protocol_error ''owner controls require wire revision 3''
       else if backlog (ses w) \<ge> ts_capacity (ses w) then protocol_error ''session ingress capacity exhausted''
       else act_then (stage_deadline te m) (set_ses (\<lambda>s. s\<lparr>ingress := ingress s @ [m]\<rparr>))))"

definition channel_poll :: "'z tenv \<Rightarrow> ('z, int message option) tact" where
  "channel_poll te = act_then (pause te) (act_bind (act_get (\<lambda>w. poll (chan (rest w)))) (\<lambda>(r, ch).
     act_then (set_chan ch) (case r of
       Inl (ChannelClosed s) \<Rightarrow> act_bind (act_get (normalize_failure (WireFault (ChannelClosed s)))) act_raise
     | Inl e \<Rightarrow> raise_wire e
     | Inr m \<Rightarrow> act_return m)))"

definition check_pump :: "'z tenv \<Rightarrow> ('z, unit) tact" where
  "check_pump te = act_bind (clock_time te) (\<lambda>t. act_bind (act_get ses) (\<lambda>s.
     if passed (pump_deadline s) t then expired_error ''owner pump deadline expired'' else act_return ()))"

fun poll_wire :: "'z tenv \<Rightarrow> nat \<Rightarrow> ('z, unit) tact" where
  "poll_wire te 0 = act_return ()"
| "poll_wire te (Suc k) =
     act_then (check te) (act_then (check_pump te) (act_bind (channel_poll te) (\<lambda>r.
       case r of None \<Rightarrow> act_return () | Some m \<Rightarrow> act_then (stage te m) (poll_wire te k))))"

subsection \<open>Consuming what was staged\<close>

definition session_epoch :: "tsession \<Rightarrow> pyval" where
  "session_epoch s = PyStr (ts_epoch s)"

definition consume_progress :: "int \<Rightarrow> ('z, unit) tact" where
  "consume_progress h = act_then (set_ses (\<lambda>s. s\<lparr>peer_sequence := peer_sequence s + 1\<rparr>))
     (act_bind (act_get ses) (\<lambda>s.
       act_then (on_coordinator (record_peer_progress (session_epoch s) (PyInt (peer_sequence s)) (PyInt h))) (act_return ())))"

definition consume_edge :: "int \<Rightarrow> int \<Rightarrow> int \<Rightarrow> ('z, unit) tact" where
  "consume_edge i scheduled b = act_bind (act_get ses) (\<lambda>s.
     if i \<noteq> ingress_edge s + 1 \<or> scheduled \<le> ingress_watermark s then protocol_error ''edge contradicts ingress prefix''
     else act_then (set_ses (\<lambda>s. s\<lparr>ingress_edge := i\<rparr>))
       (act_then (on_coordinator (receive_edge (session_epoch s) (PyInt i) (PyInt scheduled) (PyBytes [word_of_int b])))
         (set_ses (\<lambda>s. s\<lparr>admitted_edge := i, queued := queued s @ [i]\<rparr>))))"

definition consume_complete :: "int \<Rightarrow> int \<Rightarrow> ('z, unit) tact" where
  "consume_complete through last_edge_id = act_bind (act_get ses) (\<lambda>s.
     if last_edge_id \<noteq> ingress_edge s \<or> through < ingress_watermark s then protocol_error ''invalid ingress emission prefix''
     else act_then (set_ses (\<lambda>s. s\<lparr>ingress_watermark := through, ingress_prefix := last_edge_id\<rparr>))
       (act_then (on_coordinator (advance_watermark (session_epoch s) (PyInt (admitted_edge s)) (PyInt through)))
         (set_ses (\<lambda>s. s\<lparr>coordinator_watermark := through\<rparr>))))"

definition consume_sync :: "int \<Rightarrow> ('z, unit) tact" where
  "consume_sync marker = act_bind (act_get ses) (\<lambda>s.
     if length (sync_markers s) \<ge> ts_capacity s then protocol_error ''peer sync marker capacity exhausted''
     else set_ses (\<lambda>s. s\<lparr>sync_markers := sync_markers s @ [marker]\<rparr>))"

definition consume_fence :: "int \<Rightarrow> int \<Rightarrow> ('z, unit) tact" where
  "consume_fence f through = act_bind (act_get ses) (\<lambda>s.
     if f \<noteq> last_inbound_fence s + 1 \<or> through \<noteq> ingress_edge s \<or> length (inbound_fences s) \<ge> ts_capacity s
     then protocol_error ''invalid or excessive inbound fence''
     else set_ses (\<lambda>s. s\<lparr>last_inbound_fence := f, inbound_fences := inbound_fences s @ [(f, through)]\<rparr>))"

definition consume_ack :: "int \<Rightarrow> int \<Rightarrow> ('z, unit) tact" where
  "consume_ack f through = act_bind (act_get ses) (\<lambda>s.
     if map_of (outbound_fences s) f \<noteq> Some (through, False)
     then protocol_error ''unexpected or conflicting fence acknowledgement''
     else set_ses (\<lambda>s. s\<lparr>outbound_fences := AList.update f (through, True) (outbound_fences s)\<rparr>))"

text \<open>A message that \<open>stage\<close> never queues would be taken for an acknowledgement without its fields.\<close>

definition consume_message :: "int message \<Rightarrow> ('z, unit) tact" where
  "consume_message m = (case m of
     Progress h \<Rightarrow> consume_progress h
   | EdgeRequest i scheduled _ b \<Rightarrow> consume_edge i scheduled b
   | EmissionComplete through i \<Rightarrow> consume_complete through i
   | Sync marker \<Rightarrow> consume_sync marker
   | Fence f through \<Rightarrow> consume_fence f through
   | FenceAck f through \<Rightarrow> consume_ack f through
   | _ \<Rightarrow> act_raise AttributeError)"

fun consume_loop :: "'z tenv \<Rightarrow> nat \<Rightarrow> ('z, unit) tact" where
  "consume_loop te 0 = act_return ()"
| "consume_loop te (Suc k) =
     act_then (check te) (act_bind (act_get (\<lambda>w. ingress (ses w))) (\<lambda>q. case q of
       [] \<Rightarrow> act_raise (ArgumentFault IndexError)
     | m # ms \<Rightarrow> act_then (set_ses (\<lambda>s. s\<lparr>ingress := ms\<rparr>)) (act_then (consume_message m) (consume_loop te k))))"

definition consume :: "'z tenv \<Rightarrow> ('z, unit) tact" where
  "consume te = act_bind (act_get ses) (\<lambda>s. consume_loop te (min (length (ingress s)) (ts_capacity s)))"

subsection \<open>Publishing\<close>

definition publish_pair :: "'z tenv \<Rightarrow> int \<Rightarrow> ('z, unit) tact" where
  "publish_pair te at =
     act_then (check te) (act_bind (act_get (\<lambda>w. out_edge (ses w))) (\<lambda>n. act_bind (deadline_now te) (\<lambda>d.
       act_then (transmit te d (\<lambda>stopped. send_complete_progress (as_sent (EmissionComplete at n)) (as_sent (Progress at)) stopped stopped))
         (set_ses (\<lambda>s. s\<lparr>sent_watermark := at, sent_prefix := out_edge s, sent_progress := at\<rparr>)))))"

definition publish_completion :: "'z tenv \<Rightarrow> int \<Rightarrow> ('z, unit) tact" where
  "publish_completion te at = act_bind (act_get (\<lambda>w. out_edge (ses w))) (\<lambda>n.
     act_then (send te (EmissionComplete at n) None) (set_ses (\<lambda>s. s\<lparr>sent_watermark := at, sent_prefix := out_edge s\<rparr>)))"

definition publish :: "'z tenv \<Rightarrow> bool \<Rightarrow> ('z, unit) tact" where
  "publish te force = act_bind (act_get id) (\<lambda>w.
     let at = local (co w); s = ses w
     in if in_edge s then misuse ''cannot settle inside native serial callback''
        else if \<not> py_eq (PyInt (last_cycles (port (rest w)))) (board_cycles (mb w))
        then time_error ''peripherals have not reached the CPU endpoint''
        else act_then (set_ses (\<lambda>s. s\<lparr>settled := at\<rparr>))
          (if at > sent_progress s \<and> (force \<or> at - sent_progress s \<ge> ts_threshold s) then publish_pair te at
           else if at > sent_watermark s \<and> (force \<or> at - sent_watermark s \<ge> ts_threshold s) then publish_completion te at
           else act_return ()))"

subsection \<open>Held deliveries\<close>

definition start_hold :: "int \<Rightarrow> int \<Rightarrow> ('z, unit) tact" where
  "start_hold scheduled deadline = act_bind (act_get id) (\<lambda>w.
     if held (ses w) \<noteq> None then act_return ()
     else set_ses (\<lambda>s. s\<lparr>held := Some \<lparr>hold_until = deadline, hold_local = local (co w),
            hold_counter = the_int (retired_count (rest w)), hold_earliest = scheduled\<rparr>\<rparr>))"

definition check_hold :: "'z tenv \<Rightarrow> ('z, unit) tact" where
  "check_hold te = act_bind (act_get id) (\<lambda>w. case held (ses w) of
     None \<Rightarrow> act_return ()
   | Some h \<Rightarrow> act_bind (clock_time te) (\<lambda>t.
       if t \<ge> hold_until h \<or> local (co w) - hold_earliest h > ts_lateness (ses w)
       then expired_error ''held edge deadline or lateness exhausted'' else act_return ()))"

text \<open>A number in decimal, padded with zeros to twenty digits.\<close>

fun digits :: "nat \<Rightarrow> string" where
  "digits n = (if n < 10 then [hex_digit n] else digits (n div 10) @ [hex_digit (n mod 10)])"

declare digits.simps [simp del]

definition episode_name :: "int \<Rightarrow> string" where
  "episode_name n = (let d = digits (nat n) in replicate (20 - length d) (CHR ''0'') @ d)"

definition rearm_episode :: "hold \<Rightarrow> 'z tw \<Rightarrow> ('z, unit) tact" where
  "rearm_episode h w =
     (let s = ses w; at = local (co w);
          cycles = min (ts_rearm s - (at - hold_local h + 1) div 2) ((hold_earliest h + ts_lateness s - at) div 2);
          instrs = ts_cap s - (the_int (retired_count (rest w)) - hold_counter h)
      in if cycles \<le> 0 \<or> instrs \<le> 0 then expired_error ''held rearm allowance exhausted''
         else if debt (co w) \<noteq> 0 then act_return ()
         else act_then (set_ses (\<lambda>s. s\<lparr>episode_number := episode_number s + 1\<rparr>))
           (act_bind (act_get ses) (\<lambda>s. let name = episode_name (episode_number s)
            in act_then (on_coordinator (begin_delivery_rearm (case ts_batch s of None \<Rightarrow> PyNone | Some b \<Rightarrow> PyInt b)
                  (PyStr name) (PyInt cycles) (PyInt instrs)))
               (set_ses (\<lambda>s. s\<lparr>episode_id := Some name\<rparr>)))))"

definition begin_rearm :: "'z tenv \<Rightarrow> ('z, unit) tact" where
  "begin_rearm te = act_then (check_hold te) (act_bind (act_get id) (\<lambda>w.
     if episode_id (ses w) \<noteq> None
     then (if \<not> episode_open (co w) then expired_error ''held rearm allowance exhausted'' else act_return ())
     else case held (ses w) of
            None \<Rightarrow> act_raise (ArgumentFault TypeError)
          | Some h \<Rightarrow> rearm_episode h w))"

definition finish_held_episode :: "('z, unit) tact" where
  "finish_held_episode = act_bind (act_get ses) (\<lambda>s. case episode_id s of
     None \<Rightarrow> act_return ()
   | Some name \<Rightarrow> act_then (on_coordinator (finish_episode (PyStr name))) (set_ses (\<lambda>s. s\<lparr>episode_id := None\<rparr>)))"

subsection \<open>Delivering edges\<close>

function absorb_gaps :: "int \<Rightarrow> int list \<Rightarrow> int \<times> int list" where
  "absorb_gaps prefix gaps =
     (if prefix + 1 \<in> set gaps then absorb_gaps (prefix + 1) (removeAll (prefix + 1) gaps) else (prefix, gaps))"
  by pat_completeness auto
termination
  by (relation "measure (\<lambda>(_, gaps). length gaps)") (auto simp: length_removeAll_less)

declare absorb_gaps.simps [simp del]

definition complete_edge :: "int \<Rightarrow> ('z, unit) tact" where
  "complete_edge i = act_bind (act_get ses) (\<lambda>s.
     if i \<le> completed_prefix s \<or> i \<in> set (completion_gaps s) then protocol_error ''edge completion repeated''
     else let (prefix, gaps) = absorb_gaps (completed_prefix s) (i # completion_gaps s)
          in act_then (set_ses (\<lambda>s. s\<lparr>completed_prefix := prefix, completion_gaps := gaps\<rparr>))
               (if length gaps > ts_capacity s then protocol_error ''completed edge prefix gap capacity exhausted''
                else act_return ()))"

definition pop_deliveries :: "('z, edge_delivery list) tact" where
  "pop_deliveries = act_bind (act_get id) (\<lambda>w.
     act_then (if closed (co w) \<or> pending (co w) \<noteq> None \<or> pending_delivery (co w) \<noteq> None then act_return ()
               else set_rest (\<lambda>r. r\<lparr>next_batch := next_batch r + 1\<rparr>))
       (on_coordinator (pop_ready_edges (next_batch (rest w)))))"

definition delivered_ids :: "edge_delivery list \<Rightarrow> int list" where
  "delivered_ids ds = map (edge_sequence \<circ> dl_edge) ds"

definition take_deliveries :: "('z, unit) tact" where
  "take_deliveries = act_bind pop_deliveries (\<lambda>ds. case ds of
     [] \<Rightarrow> act_return ()
   | d # _ \<Rightarrow>
       act_then (set_ses (\<lambda>s. s\<lparr>delivery := ds, ts_batch := Some (batch_token d),
                                queued := List.filter (\<lambda>i. i \<notin> set (delivered_ids ds)) (queued s)\<rparr>))
       (act_bind (act_get ses) (\<lambda>s.
         case those (map (map_of (edge_deadlines s)) (delivered_ids ds)) of
           None \<Rightarrow> act_raise (ArgumentFault KeyError)
         | Some limits \<Rightarrow> start_hold (Min (set (map (edge_at \<circ> dl_edge) ds))) (Min (set limits)))))"

text \<open>The native shift of one delivered edge, its response, its interrupt and its end.\<close>

definition payload_bit :: "edge_delivery \<Rightarrow> bool" where
  "payload_bit d = bit (hd (edge_payload (dl_edge d))) 0"

definition shift_edge :: "edge_delivery \<Rightarrow> ('z, bool) tact" where
  "shift_edge d = act_bind (act_get (\<lambda>w. port (rest w))) (\<lambda>c.
     case apply_external_edge (payload_bit d) c of
       None \<Rightarrow> act_bind (act_get (\<lambda>w. latched (rest w))) (\<lambda>e. act_raise (BackendFailure e))
     | Some (completed, c') \<Rightarrow> act_then (set_rest (\<lambda>r. r\<lparr>port := c'\<rparr>))
         (act_then (set_ses (\<lambda>s. s\<lparr>applied := applied s + 1\<rparr>)) (act_return completed)))"

definition forget_deadline :: "int \<Rightarrow> ('z, unit) tact" where
  "forget_deadline i = act_bind (act_get ses) (\<lambda>s.
     if map_of (edge_deadlines s) i = None then act_raise (ArgumentFault KeyError)
     else set_ses (\<lambda>s. s\<lparr>edge_deadlines := AList.delete i (edge_deadlines s)\<rparr>))"

definition deliver_edge :: "'z tenv \<Rightarrow> edge_delivery \<Rightarrow> ('z, unit) tact" where
  "deliver_edge te d = act_bind (act_get (\<lambda>w. peek_out_bit (port (rest w)))) (\<lambda>b.
     let i = edge_sequence (dl_edge d)
     in act_bind (shift_edge d) (\<lambda>completed.
        act_bind (act_get (\<lambda>w. local (co w))) (\<lambda>at. act_then (send te (EdgeResponse i at (of_bool b)) None)
        (act_then (if completed then set_rest (\<lambda>r. r\<lparr>serial_irq := True\<rparr>) else act_return ())
        (act_then (complete_edge i)
        (act_then (set_ses (\<lambda>s. s\<lparr>delivery := tl (delivery s)\<rparr>)) (forget_deadline i)))))))"

text \<open>The flag says whether the loop ran to its end; it is left early when the register is not armed.\<close>

fun deliver_loop :: "'z tenv \<Rightarrow> bool \<Rightarrow> nat \<Rightarrow> ('z, bool) tact" where
  "deliver_loop te may_rearm 0 = act_return True"
| "deliver_loop te may_rearm (Suc k) = act_bind (act_get (\<lambda>w. delivery (ses w))) (\<lambda>ds. case ds of
     [] \<Rightarrow> act_return True
   | d # _ \<Rightarrow> act_then (check te) (act_then (check_hold te) (act_bind (act_get (\<lambda>w. port (rest w))) (\<lambda>c.
       if internal_clock c then protocol_error ''incoming clock conflicts with local internal clock''
       else if \<not> transfer_enabled c then act_then (if may_rearm then begin_rearm te else act_return ()) (act_return False)
       else act_then (deliver_edge te d) (deliver_loop te may_rearm k)))))"

definition end_batch :: "('z, unit) tact" where
  "end_batch = act_bind (act_get ses) (\<lambda>s. case ts_batch s of
     None \<Rightarrow> act_return ()
   | Some b \<Rightarrow> if delivery s \<noteq> [] then act_return ()
       else act_then (on_coordinator (acknowledge_delivery (PyInt b)))
         (set_ses (\<lambda>s. s\<lparr>ts_batch := None, episode_id := None, held := None\<rparr>)))"

definition deliver_ready :: "'z tenv \<Rightarrow> bool \<Rightarrow> ('z, unit) tact" where
  "deliver_ready te may_rearm = act_then (check_hold te)
     (act_bind (act_get ses) (\<lambda>s. act_then (if delivery s = [] then take_deliveries else act_return ())
     (act_bind (deliver_loop te may_rearm (ts_capacity s)) (\<lambda>over. if over then end_batch else act_return ()))))"

fun ack_fences :: "'z tenv \<Rightarrow> nat \<Rightarrow> ('z, unit) tact" where
  "ack_fences te 0 = act_return ()"
| "ack_fences te (Suc k) = act_bind (act_get ses) (\<lambda>s. case inbound_fences s of
     [] \<Rightarrow> act_return ()
   | (f, through) # _ \<Rightarrow>
       if through > completed_prefix s then act_return ()
       else act_then (send te (FenceAck f through) None)
         (act_then (set_ses (\<lambda>s. s\<lparr>inbound_fences := tl (inbound_fences s)\<rparr>)) (ack_fences te k)))"

subsection \<open>The pump\<close>

definition edge_expired :: "'z tenv \<Rightarrow> ('z, unit) tact" where
  "edge_expired te = act_bind (act_get ses) (\<lambda>s.
     if edge_deadlines s = [] then act_return ()
     else act_bind (clock_time te) (\<lambda>t.
       if t \<ge> Min (set (map snd (edge_deadlines s))) then expired_error ''incoming edge fixed deadline expired''
       else act_return ()))"

definition pump_body :: "'z tenv \<Rightarrow> adapter \<Rightarrow> bool \<Rightarrow> bool \<Rightarrow> ('z, unit) tact" where
  "pump_body te a may_rearm force = act_bind (act_get id) (\<lambda>w.
     if \<not> py_eq (board_cycles (mb w)) (PyInt (raw (co w)))
        \<or> \<not> (case last_counter a of None \<Rightarrow> retired_count (rest w) = PyNone | Some n \<Rightarrow> py_eq (retired_count (rest w)) (PyInt n))
     then time_error ''execution occurred outside the accounted interval''
     else act_then (poll_wire te (ts_capacity (ses w)))
         (act_then (consume te) (act_then (edge_expired te) (act_then (deliver_ready te may_rearm)
         (act_bind (act_get ses) (\<lambda>s. act_then (ack_fences te (ts_capacity s))
         (act_then (publish te force) (check te))))))))"

definition end_pump :: "'z tw \<Rightarrow> 'z tw" where
  "end_pump w = w\<lparr>rest := (rest w)\<lparr>ts := (ses w)\<lparr>pumping := False, pump_deadline := None\<rparr>\<rparr>\<rparr>"

definition safe_pump :: "'z tenv \<Rightarrow> adapter \<Rightarrow> bool \<Rightarrow> bool \<Rightarrow> int option \<Rightarrow> ('z, unit) tact" where
  "safe_pump te a may_rearm force deadline =
     act_then require_owner (act_then (check te) (act_bind (act_get id) (\<lambda>w.
       if in_edge (ses w) \<or> pumping (ses w) \<or> pending (co w) \<noteq> None then misuse ''unsafe recursive timed pump''
       else act_then (set_ses (\<lambda>s. s\<lparr>pumping := True\<rparr>)) (act_bind (clock_time te) (\<lambda>t.
         act_then (set_ses (\<lambda>s. s\<lparr>pump_deadline := Some (at_most deadline (t + ts_timeout s))\<rparr>))
           (act_finally (pump_body te a may_rearm force) end_pump))))))"

text \<open>The adapter's progress callback: pump, and when nothing moved, wait for one message and pump again.\<close>

definition moved :: "'z tw \<Rightarrow> 'z tw \<Rightarrow> bool" where
  "moved w w' \<longleftrightarrow> peer (co w') \<noteq> peer (co w) \<or> coordinator_watermark (ses w') > coordinator_watermark (ses w)
     \<or> map_option fst (episode (co w')) \<noteq> map_option fst (episode (co w))
     \<or> (pending_delivery (co w') \<noteq> None) \<noteq> (pending_delivery (co w) \<noteq> None)"

definition wait_for_progress :: "'z tenv \<Rightarrow> adapter \<Rightarrow> int \<Rightarrow> ('z, unit) tact" where
  "wait_for_progress te a remaining =
     act_bind (clock_time te) (\<lambda>t. act_bind (deadline_now te) (\<lambda>d0.
     let d = min (t + remaining) d0
     in act_bind (act_get id) (\<lambda>w. act_then (safe_pump te a True True (Some d)) (act_bind (act_get id) (\<lambda>w'.
        if moved w w' then act_return ()
        else act_bind (deadline_now te) (\<lambda>d1.
          act_bind (receive te (min d d1)) (\<lambda>m. act_then (stage te m) (safe_pump te a True True (Some (min d d1))))))))))"

end
