(* ===== verification/Timed_Control.thy ===== *)
theory Timed_Control
  imports Timed_Pump
begin

text \<open>
  The calls of the timed session (\<open>link/timed_link_session.py\<close>) and its end
  (\<open>link/_timed_link_session_support.py\<close>): failing, cancelling, closing and the cleanup that gives the emulator
  back, attaching with the start of the first transfer, the execution callbacks of \<open>_TimedAdapter\<close>, the master edge, the
  public tick and the controls of an idle owner. Calls that reach the adapter act on the adapter and the world.
\<close>

subsection \<open>The adapter's environment\<close>

definition session_env :: "'z tenv \<Rightarrow> 'z timed env" where
  "session_env te = \<lparr>counter = (\<lambda>w. (Inr (retired_count (rest w)), w)), wait_progress = wait_for_progress te,
     monotonic = read_clock te, set_governor = install te\<rparr>"

type_synonym ('z, 'a) tgov = "('z timed, 'a) gov"

text \<open>A call on the world that looks at the adapter.\<close>

definition beside :: "(adapter \<Rightarrow> ('z, 'a) tact) \<Rightarrow> ('z, 'a) tgov" where
  "beside f s = in_world (f (fst s)) s"

definition session_of :: "'z timed sys \<Rightarrow> tsession" where
  "session_of s = ses (snd s)"

subsection \<open>Failing and ending\<close>

definition fail_session :: "adapter_error \<Rightarrow> ('z, unit) tact" where
  "fail_session e = act_then (set_ses (\<lambda>s. s\<lparr>terminal_error := (if terminal_error s = None then Some e else terminal_error s), terminal := True\<rparr>))
     (act_bind (act_get id) (\<lambda>w. act_then
       (if governed (ses w) then on_coordinator (if cancel_requested w then cancel else close) else act_return ())
       (set_rest (\<lambda>r. r\<lparr>chan := close_channel (chan r)\<rparr>))))"

definition foreign_wiring :: "'z timed sys \<Rightarrow> string option" where
  "foreign_wiring s = (let r = rest (snd s) in
     if bound (ts r) \<and> \<not> serial_kept r then Some ''refusing cleanup of a replaced serial core''
     else if bound (ts r) \<and> line r \<noteq> SessionLine \<and> line r \<noteq> NullLine (previous_line (ts r))
     then Some ''refusing to overwrite a foreign serial backend''
     else if bound (ts r) \<and> \<not> dispatch_kept r then Some ''refusing to overwrite foreign serial callbacks''
     else if governed (ts r) \<and> attached (fst s) \<and> \<not> registered s then Some ''refusing to detach foreign execution callbacks''
     else None)"

definition refuse :: "string option \<Rightarrow> ('z, unit) tgov" where
  "refuse problem = (case problem of None \<Rightarrow> act_return () | Some message \<Rightarrow> act_raise (RuntimeFault message))"

definition release_port :: "('z, unit) tgov" where
  "release_port = act_bind (act_get (\<lambda>s. rest (snd s))) (\<lambda>r.
     if \<not> bound (ts r) then act_return ()
     else act_then
       (if line r = SessionLine then in_world (set_rest (\<lambda>r. r\<lparr>line := NullLine (previous_line (ts r))\<rparr>))
        else if line r \<noteq> NullLine (previous_line (ts r)) then act_raise (RuntimeFault ''refusing to overwrite a foreign serial backend'')
        else act_return ())
       (if \<not> dispatch_kept r then act_raise (RuntimeFault ''refusing to overwrite foreign serial callbacks'') else act_return ()))"

definition cleanup_body :: "'z tenv \<Rightarrow> ('z, unit) tgov" where
  "cleanup_body te = act_bind (act_get id) (\<lambda>s. act_then (refuse (foreign_wiring s))
     (act_then
       (if governed (session_of s) \<and> attached (fst s)
        then act_then (recover (session_env te)) (detach (session_env te)) else act_return ())
       (act_then release_port (in_world (set_ses (\<lambda>s. s\<lparr>bound := False\<rparr>))))))"

text \<open>With \<open>preserve\<close>, the failure that led here stays the one that is raised; the cleanup remains pending.\<close>

definition cleanup :: "'z tenv \<Rightarrow> bool \<Rightarrow> ('z, unit) tgov" where
  "cleanup te preserve = act_then (in_world require_owner) (act_bind (act_get session_of) (\<lambda>s.
     if busy s then act_raise (RuntimeFault ''cannot detach during native execution'')
     else if preserve then act_try (cleanup_body te) else cleanup_body te))"

definition cancel_session :: "('z, unit) tact" where
  "cancel_session = act_then (set_ses (\<lambda>s. s\<lparr>cancel_set := True, terminal := True\<rparr>))
     (act_bind (act_get ses) (\<lambda>s. act_then (if governed s then on_coordinator cancel else act_return ())
       (set_rest (\<lambda>r. r\<lparr>chan := close_channel (chan r)\<rparr>))))"

definition close_session :: "'z tenv \<Rightarrow> ('z, unit) tgov" where
  "close_session te =
     act_then (in_world (set_ses (\<lambda>s. s\<lparr>terminal := True\<rparr>))) (act_bind (act_get session_of) (\<lambda>s.
       act_then (if governed s then in_world (on_coordinator close) else act_return ())
         (act_then (in_world (set_rest (\<lambda>r. r\<lparr>chan := close_channel (chan r)\<rparr>)))
           (if owner s = None then in_world (set_ses (\<lambda>s. s\<lparr>used := True\<rparr>))
            else act_then (in_world require_owner) (cleanup te False)))))"

definition session_snapshot :: "'z tw \<Rightarrow> exn + time_snapshot" where
  "session_snapshot w = (if governed (ses w) then Inr (snapshot (co w)) else Inl OtherException)"

text \<open>An except clause that normalizes the failure, ends the session, and raises it after what follows.\<close>

definition failing :: "'z tenv \<Rightarrow> (adapter_error \<Rightarrow> ('z, unit) tgov) \<Rightarrow> ('z, 'a) tgov \<Rightarrow> ('z, 'a) tgov" where
  "failing te after_failure m = act_catch m (\<lambda>e. act_bind (act_get (\<lambda>s. normalize_failure e (snd s))) (\<lambda>e'.
     act_then (in_world (fail_session e')) (act_then (after_failure e') (act_raise e'))))"

subsection \<open>The execution callbacks\<close>

definition session_before :: "'z tenv \<Rightarrow> pyval \<Rightarrow> pyval \<Rightarrow> pyval \<Rightarrow> pyval \<Rightarrow> ('z, int) tgov" where
  "session_before te clk0 double kind req = failing te (\<lambda>_. act_return ())
     (act_then (beside (require_execution te)) (act_then (beside (\<lambda>a. safe_pump te a True False None))
       (before (session_env te) clk0 double kind req)))"

definition session_after :: "'z tenv \<Rightarrow> report \<Rightarrow> ('z, unit) tgov" where
  "session_after te r = act_then (after (session_env te) r) (in_world observe_map)"

subsection \<open>The master edge\<close>

text \<open>The messages that arrive while the response is awaited are staged; \<open>None\<close> stays with its caller.\<close>

fun await_response :: "'z tenv \<Rightarrow> int \<Rightarrow> int \<Rightarrow> nat \<Rightarrow> ('z, int) tact" where
  "await_response te d scheduled 0 = expired_error ''edge response message budget exhausted''"
| "await_response te d scheduled (Suc k) = act_bind (act_get ses) (\<lambda>s. case response s of
     Some (h, b) \<Rightarrow>
       if h < scheduled \<or> h - scheduled > ts_lateness s then protocol_error ''peer edge delivery outside lateness bound''
       else act_return b
   | None \<Rightarrow> act_bind (receive te d) (\<lambda>m. act_then (stage te m) (await_response te d scheduled k)))"

definition announce_edge :: "'z tenv \<Rightarrow> int \<Rightarrow> int \<Rightarrow> int \<Rightarrow> int \<Rightarrow> ('z, unit) tact" where
  "announce_edge te d scheduled observed our_bit =
     act_then (set_ses (\<lambda>s. s\<lparr>out_edge := out_edge s + 1, waiting_edge := Some (out_edge s + 1), response := None\<rparr>))
     (act_bind (act_get (\<lambda>w. out_edge (ses w))) (\<lambda>n.
      act_then (send te (EdgeRequest n scheduled observed our_bit) (Some d))
     (act_then (send te (EmissionComplete scheduled n) (Some d))
     (act_then (set_ses (\<lambda>s. s\<lparr>sent_watermark := scheduled, sent_prefix := out_edge s\<rparr>))
     (act_bind (act_get ses) (\<lambda>s.
       if settled s > sent_progress s
       then act_then (send te (Progress (settled s)) (Some d)) (set_ses (\<lambda>s. s\<lparr>sent_progress := settled s\<rparr>))
       else act_return ()))))))"

definition master_edge :: "'z tenv \<Rightarrow> int \<Rightarrow> ('z, int) tact" where
  "master_edge te our_bit = act_then observe_map (act_bind (act_get id) (\<lambda>w.
     let c = port (rest w); observed = last_cycles c; due = observed - (clock c - clock_target c)
     in if \<not> (due \<le> observed \<and> observed \<le> raw_cycles w) then time_error ''invalid native serial timestamp ordering''
        else act_bind (mapped due) (\<lambda>scheduled. act_bind (mapped observed) (\<lambda>seen.
          if scheduled \<le> sent_watermark (ses w) then protocol_error ''native edge contradicts emitted completeness prefix''
          else act_bind (deadline_now te) (\<lambda>d.
            act_then (announce_edge te d scheduled seen our_bit)
              (act_bind (act_get ses) (\<lambda>s. await_response te d scheduled (ts_attempts s * ts_capacity s))))))))"

definition end_edge :: "'z tw \<Rightarrow> 'z tw" where
  "end_edge w = w\<lparr>rest := (rest w)\<lparr>ts := (ses w)\<lparr>waiting_edge := None, response := None, in_edge := False\<rparr>\<rparr>\<rparr>"

definition session_on_edge :: "'z tenv \<Rightarrow> int \<Rightarrow> int \<Rightarrow> ('z, int) tact" where
  "session_on_edge te our_bit our_role = act_then require_owner (act_then (check te) (act_bind (act_get ses) (\<lambda>s.
     if \<not> active s \<or> in_edge s \<or> pumping s \<or> our_role \<noteq> 1 then misuse ''recursive or unowned serial edge''
     else act_then (set_ses (\<lambda>s. s\<lparr>in_edge := True\<rparr>)) (act_finally (master_edge te our_bit) end_edge))))"

subsection \<open>The public tick\<close>

definition set_flag :: "(tsession \<Rightarrow> tsession) \<Rightarrow> 'z timed sys \<Rightarrow> 'z timed sys" where
  "set_flag f s = (fst s, (snd s)\<lparr>rest := (rest (snd s))\<lparr>ts := f (session_of s)\<rparr>\<rparr>)"

text \<open>\<open>native\<close> is the emulator's own tick, which runs the callbacks and the edges of its instructions.\<close>

definition tick_inside :: "'z tenv \<Rightarrow> ('z, 'a) tgov \<Rightarrow> ('z, 'a) tgov" where
  "tick_inside te native =
     act_then (in_world (check te)) (act_then (beside verify_registration) (act_bind native (\<lambda>x.
       act_then (in_world (check te)) (act_then (beside verify_registration)
       (act_bind (act_get (\<lambda>s. pending (co (snd s)))) (\<lambda>p. act_then
         (if p \<noteq> None then act_raise (Timing (EmulatedTimeError ''public tick returned with uncommitted execution'')) else act_return ())
         (act_then (beside (\<lambda>a. safe_pump te a False True None)) (act_return x))))))))"

definition session_tick :: "'z tenv \<Rightarrow> ('z, 'a) tgov \<Rightarrow> ('z, 'a) tgov" where
  "session_tick te native =
     act_then (act_catch (in_world require_owner) (\<lambda>e. act_then (in_world (fail_session e)) (act_raise e)))
     (act_bind (act_get session_of) (\<lambda>s0. act_then (if \<not> bound s0 then in_world (check te) else act_return ())
     (act_bind (act_get session_of) (\<lambda>s.
       let e = RuntimeFault ''recursive tick or unattached timed session''
       in if active s \<or> attaching s \<or> control_active s \<or> \<not> bound s
          then act_then (if active s \<or> control_active s then in_world (fail_session e) else act_return ()) (act_raise e)
          else act_then (in_world (set_ses (\<lambda>s. s\<lparr>active := True\<rparr>)))
            (act_finally
              (failing te (\<lambda>_. act_then (in_world (set_ses (\<lambda>s. s\<lparr>active := False\<rparr>))) (cleanup te True)) (tick_inside te native))
              (set_flag (\<lambda>s. s\<lparr>active := False\<rparr>)))))))"

subsection \<open>Controls of an idle owner\<close>

text \<open>A deadline is absent, a finite number, or something else.\<close>

datatype deadline_arg = NoDeadline | Deadline int | BadDeadline

definition deadline_of :: "deadline_arg \<Rightarrow> int option" where
  "deadline_of d = (case d of Deadline t \<Rightarrow> Some t | _ \<Rightarrow> None)"

definition deadline_open :: "'z tenv \<Rightarrow> string \<Rightarrow> int option \<Rightarrow> ('z, unit) tact" where
  "deadline_open te message d = (case d of None \<Rightarrow> act_return () | Some x \<Rightarrow> act_bind (clock_time te) (\<lambda>t.
     if t \<ge> x then expired_error message else act_return ()))"

definition control_guard :: "'z tenv \<Rightarrow> deadline_arg \<Rightarrow> ('z, unit) tgov" where
  "control_guard te d = act_then (in_world require_owner) (act_then (in_world (check te)) (act_bind (act_get (\<lambda>s. rest (snd s))) (\<lambda>r.
     if busy (ts r) \<or> attaching (ts r) \<or> \<not> bound (ts r) then act_raise (RuntimeFault ''control operations require an idle owner boundary'')
     else if ch_revision (chan r) \<noteq> 3 then in_world (protocol_error ''owner controls require wire revision 3'')
     else if d = BadDeadline then act_raise (ArgumentFault ValueError)
     else act_then (in_world (deadline_open te ''control deadline expired'' (deadline_of d))) (beside verify_registration))))"

definition rejected_cleanup :: "'z tenv \<Rightarrow> adapter_error \<Rightarrow> ('z, unit) tgov" where
  "rejected_cleanup te e = act_bind (act_get (\<lambda>s. rest (snd s))) (\<lambda>r.
     if owner (ts r) = Some (thread r) \<and> \<not> busy (ts r) \<and> \<not> attaching (ts r) then cleanup te True else act_return ())"

definition control_inside :: "'z tenv \<Rightarrow> deadline_arg \<Rightarrow> ('z, 'a) tgov \<Rightarrow> ('z, 'a) tgov" where
  "control_inside te d body = act_bind body (\<lambda>x. act_then (in_world (check te))
     (act_then (in_world (deadline_open te ''control deadline expired'' (deadline_of d))) (act_return x)))"

definition control_operation :: "'z tenv \<Rightarrow> deadline_arg \<Rightarrow> ('z, 'a) tgov \<Rightarrow> ('z, 'a) tgov" where
  "control_operation te d body =
     act_then (failing te (rejected_cleanup te) (control_guard te d))
     (act_then (in_world (set_ses (\<lambda>s. s\<lparr>control_active := True, control_deadline := deadline_of d\<rparr>)))
       (act_finally
         (failing te (\<lambda>_. act_then (in_world (set_ses (\<lambda>s. s\<lparr>control_active := False\<rparr>))) (cleanup te True)) (control_inside te d body))
         (set_flag (\<lambda>s. s\<lparr>control_active := False, control_deadline := None\<rparr>))))"

record controls =
  pending_ingress :: nat
  c_pending_delivery :: bool
  pending_response :: bool
  pending_inbound_fences :: nat
  pending_outbound_fences :: nat
  pending_sync_markers :: nat
  completed_edge_prefix :: int
  c_completion_gaps :: nat
  c_bootstrap_writes :: nat
  quiescent :: bool

definition controls_of :: "tsession \<Rightarrow> controls" where
  "controls_of s =
     (let delivering = delivery s \<noteq> [] \<or> queued s \<noteq> [] \<or> ts_batch s \<noteq> None;
          responding = waiting_edge s \<noteq> None \<or> in_edge s
      in \<lparr>pending_ingress = length (ingress s), c_pending_delivery = delivering, pending_response = responding,
          pending_inbound_fences = length (inbound_fences s), pending_outbound_fences = length (outbound_fences s),
          pending_sync_markers = length (sync_markers s), completed_edge_prefix = completed_prefix s,
          c_completion_gaps = length (completion_gaps s), c_bootstrap_writes = length (bootstrap_writes s),
          quiescent = (ingress s = [] \<and> \<not> delivering \<and> \<not> responding \<and> inbound_fences s = [] \<and> completion_gaps s = [])\<rparr>)"

definition controls_snapshot :: "('z, controls) tact" where
  "controls_snapshot = act_then require_owner (act_get (\<lambda>w. controls_of (ses w)))"

definition service_controls :: "'z tenv \<Rightarrow> int \<Rightarrow> ('z, controls) tgov" where
  "service_controls te d = control_operation te (Deadline d)
     (act_then (beside (\<lambda>a. safe_pump te a False True (Some d))) (in_world
       (act_then (check te) (act_then (deadline_open te ''control deadline expired'' (Some d)) controls_snapshot))))"

definition marker_ok :: "pyval \<Rightarrow> bool" where
  "marker_ok v \<longleftrightarrow> (case v of PyInt n \<Rightarrow> 0 \<le> n \<and> n \<le> 255 | _ \<Rightarrow> False)"

definition announce_sync :: "'z tenv \<Rightarrow> pyval \<Rightarrow> int \<Rightarrow> ('z, unit) tgov" where
  "announce_sync te marker d = control_operation te (Deadline d)
     (if \<not> marker_ok marker then act_raise (ArgumentFault ValueError)
      else in_world (send te (Sync (the_int marker)) (Some d)))"

text \<open>Both polls take no deadline.\<close>

definition poll_peer_sync :: "'z tenv \<Rightarrow> pyval \<Rightarrow> ('z, bool) tgov" where
  "poll_peer_sync te marker = control_operation te NoDeadline
     (if \<not> marker_ok marker then act_raise (ArgumentFault ValueError)
      else act_bind (act_get session_of) (\<lambda>s.
        if the_int marker \<notin> set (sync_markers s) then act_return False
        else act_then (in_world (set_ses (\<lambda>s. s\<lparr>sync_markers := remove1 (the_int marker) (sync_markers s)\<rparr>))) (act_return True)))"

definition start_fence :: "'z tenv \<Rightarrow> int \<Rightarrow> ('z, int) tgov" where
  "start_fence te d = control_operation te (Deadline d)
     (act_then (beside (\<lambda>a. safe_pump te a False True (Some d))) (in_world (act_bind (act_get ses) (\<lambda>s.
       if length (outbound_fences s) \<ge> ts_capacity s then protocol_error ''outbound fence capacity exhausted''
       else let f = last_outbound_fence s + 1
            in act_then (set_ses (\<lambda>s. s\<lparr>outbound_fences := AList.update f (out_edge s, False) (outbound_fences s)\<rparr>))
              (act_then (send te (Fence f (out_edge s)) (Some d))
                (act_then (set_ses (\<lambda>s. s\<lparr>last_outbound_fence := f\<rparr>)) (act_return f)))))))"

definition poll_fence :: "'z tenv \<Rightarrow> pyval \<Rightarrow> ('z, bool) tgov" where
  "poll_fence te f = control_operation te NoDeadline
     (if \<not> int_at_least 1 f then act_raise (ArgumentFault ValueError)
      else act_bind (act_get session_of) (\<lambda>s. case map_of (outbound_fences s) (the_int f) of
        Some (_, True) \<Rightarrow>
          act_then (in_world (set_ses (\<lambda>s. s\<lparr>outbound_fences := AList.delete (the_int f) (outbound_fences s)\<rparr>))) (act_return True)
      | _ \<Rightarrow> act_return False))"

end
