(* ===== verification/Timed_Attach.thy ===== *)
theory Timed_Attach
  imports Timed_Control
begin

text \<open>
  Attaching a timed session to an emulator (\<open>attach\<close> and \<open>_bootstrap\<close> of \<open>link/timed_link_session.py\<close>): the checks of
  the idle emulator, the fresh coordinator and adapter, the handshake across which nothing may change, and the two
  or three register writes that start the first transfer.
\<close>

subsection \<open>Starting the first transfer\<close>

definition masked :: "byte \<Rightarrow> int \<Rightarrow> int" where
  "masked b m = uint b AND m"

text \<open>The flag of a write is set for the data register; the writes are fixed before the first of them.\<close>

definition startup_writes :: "bool \<Rightarrow> core \<Rightarrow> (bool \<times> int) list" where
  "startup_writes internal c =
     (let control = (masked (SC c) 2 OR 0x80) OR of_bool internal;
          writes = [(True, if internal then 1 else 2), (False, control)]
      in if transfer_enabled c then (False, masked (SC c) (NOT 0x80)) # writes else writes)"

definition write_register :: "bool \<times> int \<Rightarrow> core \<Rightarrow> core" where
  "write_register wr c = (if fst wr then set_SB (snd wr) c else set_SC (snd wr) c)"

definition cpu_view :: "'z tw \<Rightarrow> pyval \<times> pyval" where
  "cpu_view w = (board_cycles (mb w), retired_count (rest w))"

fun bootstrap_loop :: "'z tenv \<Rightarrow> int \<Rightarrow> adapter \<Rightarrow> pyval \<times> pyval \<Rightarrow> (bool \<times> int) list \<Rightarrow> ('z, unit) tact" where
  "bootstrap_loop te d a before_view [] = act_return ()"
| "bootstrap_loop te d a before_view (wr # wrs) =
     act_then (check te) (act_then (deadline_open te ''startup register-write deadline expired'' (Some d))
     (act_then (verify_registration a)
     (act_then (set_rest (\<lambda>r. r\<lparr>port := write_register wr (port r)\<rparr>))
     (act_then (set_ses (\<lambda>s. s\<lparr>bootstrap_writes := bootstrap_writes s @ [wr]\<rparr>))
     (act_bind (act_get cpu_view) (\<lambda>v.
       if \<not> (py_eq (fst before_view) (fst v) \<and> py_eq (snd before_view) (snd v))
       then time_error ''startup unexpectedly executed CPU work''
       else bootstrap_loop te d a before_view wrs))))))"

definition bootstrap :: "'z tenv \<Rightarrow> bool \<Rightarrow> int \<Rightarrow> adapter \<Rightarrow> ('z, unit) tact" where
  "bootstrap te internal d a = act_bind (act_get id) (\<lambda>w.
     bootstrap_loop te d a (cpu_view w) (startup_writes internal (port (rest w))))"

subsection \<open>Attaching\<close>

text \<open>What the code records of the emulator before the handshake and compares after it.\<close>

record attach_view =
  av_board :: observation
  av_counter :: pyval
  av_seen :: int
  av_data :: byte
  av_control :: byte
  av_bits :: int
  av_armed :: bool
  av_internal :: bool
  av_clock :: int
  av_target :: int

definition attach_state :: "'z tw \<Rightarrow> attach_view" where
  "attach_state w = (let c = port (rest w) in
     \<lparr>av_board = view (mb w), av_counter = retired_count (rest w), av_seen = last_cycles c, av_data = SB c, av_control = SC c,
      av_bits = bits_remaining c, av_armed = transfer_enabled c, av_internal = internal_clock c, av_clock = clock c,
      av_target = clock_target c\<rparr>)"

text \<open>\<open>idle_problem\<close>: what keeps an emulator from being attached. Python's \<open>TypeError\<close> is an argument fault.\<close>

definition idle_problem :: "bool option \<Rightarrow> bool \<Rightarrow> 'z tw \<Rightarrow> adapter_error option" where
  "idle_problem startup tick_callable w =
     (let c = port (rest w); b = mb w
      in if hook_before b \<noteq> NoHook \<or> hook_after b \<noteq> NoHook \<or> \<not> dispatch_kept (rest w)
         then Some (RuntimeFault ''attach requires idle serial and no callback ownership'')
         else if transfer_enabled c \<and> (startup = None \<or> internal_clock c \<or> bits_remaining c \<noteq> 8)
         then Some (RuntimeFault ''startup requires idle or a fresh external eight-bit transfer'')
         else if \<not> py_eq (PyInt (last_cycles c)) (board_cycles b)
         then Some (RuntimeFault ''attach requires serial.last_cycles == cpu.cycles'')
         else if \<not> int_at_least 0 (retired_count (rest w)) \<or> \<not> tick_callable then Some (ArgumentFault TypeError)
         else case line (rest w) of
                NullLine _ \<Rightarrow> None
              | _ \<Rightarrow> Some (RuntimeFault ''serial backend already belongs to another link''))"

definition bind_emulator :: "'z tw \<Rightarrow> tsession \<Rightarrow> tsession" where
  "bind_emulator w s =
     s\<lparr>bound := True, previous_line := (case line (rest w) of NullLine n \<Rightarrow> n | _ \<Rightarrow> 0),
       segments := [(raw_cycles w, 0, truth (board_double (mb w)))], mapped_raw := raw_cycles w,
       stop_count := the_int (board_count (mb w))\<rparr>"

definition fresh_coordinator :: "'z tw \<Rightarrow> time_error + coord" where
  "fresh_coordinator w = (let s = ses w in
     create (session_epoch s) (board_cycles (mb w)) (PyInt (ts_rearm s)) (PyInt (ts_lateness s div 2))
       (PyBool (truth (board_double (mb w)))) (PyInt (ts_quantum s)) (PyBool True))"

definition govern :: "('z, unit) tgov" where
  "govern s = (case fresh_coordinator (snd s) of
     Inl e \<Rightarrow> (Inl (Timing e), s)
   | Inr c \<Rightarrow> let w = (snd s)\<lparr>co := c\<rparr>; t = session_of s
              in case new_adapter True (Some (ts_timeout t)) (PyInt (int (ts_attempts t))) of
                   Inl e \<Rightarrow> (Inl (ArgumentFault e), fst s, w)
                 | Inr a \<Rightarrow> (Inr (), a, w\<lparr>rest := (rest w)\<lparr>ts := t\<lparr>governed := True\<rparr>\<rparr>\<rparr>))"

definition same_view :: "attach_view \<Rightarrow> attach_view \<Rightarrow> bool" where
  "same_view v v' \<longleftrightarrow> ob_eq (av_board v) (av_board v') \<and> py_eq (av_counter v) (av_counter v')
     \<and> v\<lparr>av_board := av_board v', av_counter := av_counter v'\<rparr> = v'"

definition unchanged :: "line_ref \<Rightarrow> attach_view \<Rightarrow> 'z tw \<Rightarrow> bool" where
  "unchanged previous v w \<longleftrightarrow> serial_kept (rest w) \<and> line (rest w) = previous \<and> dispatch_kept (rest w) \<and> same_view v (attach_state w)"

definition install_session :: "'z tenv \<Rightarrow> int \<Rightarrow> bool option \<Rightarrow> ('z, unit) tgov" where
  "install_session te d startup =
     act_then (attach (session_env te)) (act_then (in_world (set_rest (\<lambda>r. r\<lparr>line := SessionLine\<rparr>)))
     (act_then (case startup of None \<Rightarrow> act_return () | Some internal \<Rightarrow> beside (bootstrap te internal d))
     (act_then (in_world (send te (Progress 0) (Some d))) (in_world (set_ses (\<lambda>s. s\<lparr>sent_progress := 0\<rparr>))))))"

definition attach_inside :: "'z tenv \<Rightarrow> int \<Rightarrow> bool option \<Rightarrow> bool \<Rightarrow> adapter_error option \<Rightarrow> ('z, unit) tgov" where
  "attach_inside te d startup tick_callable socket_problem =
     act_then (in_world (check te)) (case socket_problem of Some e \<Rightarrow> act_raise e | None \<Rightarrow>
     act_bind (act_get snd) (\<lambda>w. case idle_problem startup tick_callable w of Some e \<Rightarrow> act_raise e | None \<Rightarrow>
       act_then (in_world (set_ses (bind_emulator w))) (act_then govern
       (act_then (in_world (handshake te d)) (act_then (in_world (check te))
       (act_bind (act_get snd) (\<lambda>w'.
         if \<not> unchanged (line (rest w)) (attach_state w) w'
         then act_raise (RuntimeFault ''emulator ownership or state changed during handshake'')
         else install_session te d startup)))))))"

text \<open>
  \<open>startup\<close> is the requested role of the first transfer, with \<open>BadStartup\<close> for an argument of another type;
  \<open>socket_problem\<close> is what the check for a local socket raises.
\<close>

datatype startup_arg = Startup "bool option" | BadStartup

definition session_attach :: "'z tenv \<Rightarrow> deadline_arg \<Rightarrow> startup_arg \<Rightarrow> bool \<Rightarrow> adapter_error option \<Rightarrow> ('z, unit) tgov" where
  "session_attach te deadline startup tick_callable socket_problem = act_bind (act_get session_of) (\<lambda>s.
     case deadline of
       Deadline d \<Rightarrow>
        (case startup of
           BadStartup \<Rightarrow> act_raise (ArgumentFault TypeError)
         | Startup internal \<Rightarrow>
             if used s then act_raise (RuntimeFault ''timed session epoch cannot be reused'')
             else act_bind (act_get (\<lambda>s. thread (rest (snd s)))) (\<lambda>me.
               act_then (in_world (set_ses (\<lambda>s. s\<lparr>used := True, owner := Some me, attaching := True\<rparr>)))
               (act_finally (failing te (\<lambda>_. cleanup te True) (attach_inside te d internal tick_callable socket_problem))
                 (set_flag (\<lambda>s. s\<lparr>attaching := False\<rparr>)))))
     | _ \<Rightarrow> act_raise (ArgumentFault ValueError))"

end
