(* ===== verification/Timed_Calm.thy ===== *)
theory Timed_Calm
  imports Adapter_Safety Timed_Attach
begin

text \<open>
  What the operations of a timed session leave alone. \<open>calm\<close> relates two worlds between which no edge of the
  peer was admitted, delivered or applied, and in which nothing that has ended is open again; most operations keep
  it, whatever others do meanwhile.
\<close>

subsection \<open>Other threads\<close>

text \<open>
  What another thread, the reader and the peer may do between two looks: let time pass, cancel, deliver frames to
  the channel or end it, and close the session, which only ends. The emulator and the rest of the session belong
  to the owner's thread. The board's setter only sets the callbacks.
\<close>

definition meddles :: "'z tw \<Rightarrow> 'z tw \<Rightarrow> bool" where
  "meddles w w' \<longleftrightarrow> co w' \<in> {co w, snd (cancel (co w)), snd (close (co w))} \<and> mb w' = mb w
     \<and> (\<exists>c t. ts (rest w') = (ts (rest w))\<lparr>cancel_set := c, terminal := t\<rparr> \<and> (cancel_set (ses w) \<longrightarrow> c) \<and> (terminal (ses w) \<longrightarrow> t))
     \<and> (ch_error (chan (rest w)) \<noteq> None \<longrightarrow> ch_error (chan (rest w')) \<noteq> None)
     \<and> port (rest w') = port (rest w) \<and> line (rest w') = line (rest w) \<and> serial_kept (rest w') = serial_kept (rest w)
     \<and> dispatch_kept (rest w') = dispatch_kept (rest w) \<and> retired_count (rest w') = retired_count (rest w)
     \<and> thread (rest w') = thread (rest w) \<and> clk (rest w) \<le> clk (rest w')"

definition civil :: "'z tenv \<Rightarrow> bool" where
  "civil te \<longleftrightarrow> (\<forall>w. meddles w (others te w) \<and> meddles w (snd (write_ends te w))
     \<and> (\<forall>b. \<exists>h h'. snd (install te b w) = w\<lparr>mb := (mb w)\<lparr>hook_before := h, hook_after := h'\<rparr>\<rparr>))"

subsection \<open>Calm changes\<close>

text \<open>What the session knows of the peer's edges.\<close>

definition ledger_of :: "tsession \<Rightarrow> int list \<times> edge_delivery list \<times> int \<times> int \<times> int \<times> int list \<times> int" where
  "ledger_of s = (queued s, delivery s, ingress_edge s, admitted_edge s, completed_prefix s, completion_gaps s, applied s)"

definition ended :: "'z tw \<Rightarrow> bool" where
  "ended w \<longleftrightarrow> terminal (ses w) \<and> ch_error (chan (rest w)) \<noteq> None \<and> (governed (ses w) \<longrightarrow> closed (co w))"

text \<open>\<open>lasting\<close> holds across every operation of a session that stays attached; \<open>calm\<close> across most.\<close>

definition lasting :: "'z tw \<Rightarrow> 'z tw \<Rightarrow> bool" where
  "lasting w w' \<longleftrightarrow> evolves (co w) (co w') \<and> governed (ses w') = governed (ses w)
     \<and> (terminal (ses w) \<longrightarrow> terminal (ses w')) \<and> (ch_error (chan (rest w)) \<noteq> None \<longrightarrow> ch_error (chan (rest w')) \<noteq> None)
     \<and> owner (ses w') = owner (ses w) \<and> thread (rest w') = thread (rest w) \<and> (used (ses w) \<longrightarrow> used (ses w'))"

definition calm :: "'z tw \<Rightarrow> 'z tw \<Rightarrow> bool" where
  "calm w w' \<longleftrightarrow> lasting w w' \<and> edges (co w') = edges (co w) \<and> last_sequence (co w') = last_sequence (co w)
     \<and> ledger_of (ses w') = ledger_of (ses w)"

lemma lasting_preorder: "reflp lasting" "transp lasting"
  unfolding lasting_def by (auto intro!: reflpI transpI evolves_refl elim: evolves_trans)

lemma calm_preorder: "reflp calm" "transp calm"
  using lasting_preorder unfolding calm_def by (auto intro!: reflpI transpI dest: reflpD elim: transpE)

lemma keeps_mono: "keeps R m \<Longrightarrow> (\<And>s s'. R s s' \<Longrightarrow> R' s s') \<Longrightarrow> keeps R' m"
  by (auto simp: keeps_def)

lemma calm_lasting: "keeps calm m \<Longrightarrow> keeps lasting m"
  by (erule keeps_mono) (simp add: calm_def)

lemma ended_lasting: "reachable (co w) \<Longrightarrow> lasting w w' \<Longrightarrow> ended w \<Longrightarrow> ended w'"
  by (auto simp: lasting_def ended_def intro: evolves_closed)

subsection \<open>The coordinator's calls that do not concern edges\<close>

definition edgeless :: "(coord \<Rightarrow> 'a outcome) \<Rightarrow> bool" where
  "edgeless f \<longleftrightarrow> (\<forall>c. edges (snd (f c)) = edges c \<and> last_sequence (snd (f c)) = last_sequence c \<and> (\<exists>a. snd (f c) = after_call a c))"

lemma record_failure_edges [simp]:
  "edges (record_failure m ph s a l c) = edges c" "last_sequence (record_failure m ph s a l c) = last_sequence c"
  by (simp_all add: record_failure_def)

named_theorems edgeless_intros

lemmas outcome_defs = fail_def raise_closed_def fail_late_def

lemma edgelessI:
  assumes "\<And>c. snd (f c) = after_call a c" "\<And>c. edges (snd (f c)) = edges c \<and> last_sequence (snd (f c)) = last_sequence c"
  shows "edgeless f"
  using assms unfolding edgeless_def by blast

lemma edgeless_ends [edgeless_intros]: "edgeless cancel" "edgeless close"
  by (rule edgelessI [where a = Cancel], simp_all add: cancel_def)
    (rule edgelessI [where a = Close], simp_all add: close_def)

lemma edgeless_progress [edgeless_intros]: "edgeless (record_peer_progress e n h)"
  by (rule edgelessI [where a = "RecordPeerProgress e n h"]) (simp_all add: record_peer_progress_def outcome_defs split: option.splits)

lemma edgeless_watermark [edgeless_intros]: "edgeless (advance_watermark e n h)"
  by (rule edgelessI [where a = "AdvanceWatermark e n h"]) (simp_all add: advance_watermark_def outcome_defs split: option.splits)

lemma edgeless_acknowledge [edgeless_intros]: "edgeless (acknowledge_delivery b)"
  by (rule edgelessI [where a = "AcknowledgeDelivery b"]) (simp_all add: acknowledge_delivery_def outcome_defs Let_def)

lemma edgeless_finish [edgeless_intros]: "edgeless (finish_episode r)"
  by (rule edgelessI [where a = "FinishEpisode r"]) (simp_all add: finish_episode_def outcome_defs)

lemma begin_episode_edges:
  "edges (snd (begin_episode r b i c)) = edges c \<and> last_sequence (snd (begin_episode r b i c)) = last_sequence c"
  by (simp add: begin_episode_def outcome_defs Let_def)

lemma edgeless_rearm [edgeless_intros]: "edgeless (begin_delivery_rearm t r b i)"
proof (rule edgelessI [where a = "BeginDeliveryRearm t r b i"])
  fix c
  obtain q c' where e: "begin_episode r b i c = (q, c')" by (cases "begin_episode r b i c")
  then have "edges c' = edges c" "last_sequence c' = last_sequence c" using begin_episode_edges [of r b i c] by simp_all
  then show "edges (snd (begin_delivery_rearm t r b i c)) = edges c
      \<and> last_sequence (snd (begin_delivery_rearm t r b i c)) = last_sequence c"
    by (cases q) (simp_all add: begin_delivery_rearm_def outcome_defs Let_def e)
qed simp

lemma edgeless_reserve [edgeless_intros]: "edgeless (reserve n)"
  by (rule edgelessI [where a = "Reserve n"])
    (simp_all add: reserve_def reserve_core_def with_ceiling_def grant_def outcome_defs Let_def split: ceiling_step.splits)

lemma edgeless_commit [edgeless_intros]: "edgeless (commit ref k i tr)"
  by (rule edgelessI [where a = "Commit ref k i tr"])
    (simp_all add: commit_def settle_def record_execution_def outcome_defs Let_def split: option.splits)

lemma edgeless_discard [edgeless_intros]: "edgeless (discard_unconsumed_permit ref k i d)"
  by (rule edgelessI [where a = "Discard ref k i d"])
    (simp_all add: discard_unconsumed_permit_def outcome_defs Let_def split: option.splits)

subsection \<open>Calm operations\<close>

text \<open>Updates of the surroundings and of the session that \<open>calm\<close> allows.\<close>

definition mild :: "('z timed \<Rightarrow> 'z timed) \<Rightarrow> bool" where
  "mild f \<longleftrightarrow> (\<forall>r. ledger_of (ts (f r)) = ledger_of (ts r) \<and> governed (ts (f r)) = governed (ts r)
     \<and> (terminal (ts r) \<longrightarrow> terminal (ts (f r))) \<and> (ch_error (chan r) \<noteq> None \<longrightarrow> ch_error (chan (f r)) \<noteq> None)
     \<and> owner (ts (f r)) = owner (ts r) \<and> thread (f r) = thread r \<and> (used (ts r) \<longrightarrow> used (ts (f r))))"

lemma calm_rest: "mild f \<Longrightarrow> calm w (w\<lparr>rest := f (rest w)\<rparr>)"
  by (simp add: calm_def lasting_def mild_def ses_def evolves_refl)

lemma calm_set_rest [keeps_intros]: "mild f \<Longrightarrow> keeps calm (set_rest f)"
  by (simp add: set_rest_def keeps_def act_modify_def calm_rest)

definition mild_own :: "(tsession \<Rightarrow> tsession) \<Rightarrow> bool" where
  "mild_own f \<longleftrightarrow> (\<forall>s. ledger_of (f s) = ledger_of s \<and> governed (f s) = governed s \<and> (terminal s \<longrightarrow> terminal (f s)) \<and> owner (f s) = owner s \<and> (used s \<longrightarrow> used (f s)))"

lemma mild_own_mild: "mild_own f \<Longrightarrow> mild (\<lambda>r. r\<lparr>ts := f (ts r)\<rparr>)"
  by (simp add: mild_own_def mild_def)

lemma calm_set_ses [keeps_intros]: "mild_own f \<Longrightarrow> keeps calm (set_ses f)"
  unfolding set_ses_def by (intro calm_set_rest mild_own_mild)

lemma calm_self: "calm w w"
  by (rule reflpD [OF calm_preorder(1)])

lemma calm_coordinator [keeps_intros]:
  assumes "edgeless f"
  shows "keeps calm (on_coordinator f :: ('z, 'a) tact)"
  unfolding keeps_def
proof
  fix w :: "'z tw"
  have e: "edges (snd (f (co w))) = edges (co w)" "last_sequence (snd (f (co w))) = last_sequence (co w)"
    "\<exists>a. snd (f (co w)) = after_call a (co w)"
    using assms by (simp_all add: edgeless_def)
  then have "evolves (co w) (snd (f (co w)))" by (metis evolves_call)
  moreover have "snd (on_coordinator f w) = w\<lparr>co := snd (f (co w))\<rparr>"
    by (simp add: on_coordinator_def split: prod.splits sum.splits)
  ultimately show "calm w (snd (on_coordinator f w))"
    using e by (simp add: calm_def lasting_def ses_def)
qed

lemma calm_raises [keeps_intros]:
  "keeps calm (raise_wire e)" "keeps calm (protocol_error m)" "keeps calm (expired_error m)" "keeps calm (misuse m)" "keeps calm (time_error m)"
  unfolding raise_wire_def protocol_error_def expired_error_def misuse_def time_error_def
  by (intro keeps_intros calm_preorder)+

lemma calm_meddles: "meddles w w' \<Longrightarrow> calm w w'"
proof -
  assume m: "meddles w w'"
  then obtain c t where t: "ts (rest w') = (ts (rest w))\<lparr>cancel_set := c, terminal := t\<rparr>" "terminal (ses w) \<longrightarrow> t"
    by (auto simp: meddles_def)
  have "evolves (co w) (co w') \<and> edges (co w') = edges (co w) \<and> last_sequence (co w') = last_sequence (co w)"
    using m evolves_call [of "co w" Cancel] evolves_call [of "co w" Close] by (auto simp: meddles_def evolves_refl cancel_def close_def)
  moreover have "ch_error (chan (rest w)) \<noteq> None \<longrightarrow> ch_error (chan (rest w')) \<noteq> None" "thread (rest w') = thread (rest w)"
    using m by (simp_all add: meddles_def)
  ultimately show ?thesis using t by (simp add: calm_def lasting_def ses_def ledger_of_def)
qed

lemma calm_pause [keeps_intros]: "civil te \<Longrightarrow> keeps calm (pause te)"
  by (auto simp: pause_def keeps_def act_modify_def civil_def intro: calm_meddles)

lemma mild_updates [simp]: "mild (\<lambda>r. r\<lparr>clk := t\<rparr>)" "mild (\<lambda>r. r\<lparr>port := c r\<rparr>)" "mild (\<lambda>r. r\<lparr>serial_irq := b\<rparr>)" "mild (\<lambda>r. r\<lparr>clk := max (clk r) t\<rparr>)"
  "mild (\<lambda>r. r\<lparr>next_batch := n r\<rparr>)" "mild (\<lambda>r. r\<lparr>line := l r\<rparr>)"
  by (simp_all add: mild_def)

lemma calm_clock_time [keeps_intros]: "keeps calm (clock_time te)"
  by (simp add: clock_time_def read_clock_def keeps_def Let_def calm_rest)

lemma calm_check [keeps_intros]: "civil te \<Longrightarrow> keeps calm (check te)"
  unfolding check_def by (intro keeps_intros calm_preorder; assumption?) (auto split: option.splits wire_error.splits intro!: keeps_intros calm_preorder)

lemma calm_guards [keeps_intros]: "keeps calm require_owner" "keeps calm (verify_registration a)"
  unfolding require_owner_def verify_registration_def by (intro keeps_intros calm_preorder)+

lemma calm_require_execution [keeps_intros]: "civil te \<Longrightarrow> keeps calm (require_execution te a)"
  unfolding require_execution_def by (intro keeps_intros calm_preorder; assumption?)

lemma calm_deadline_now [keeps_intros]: "keeps calm (deadline_now te)"
  unfolding deadline_now_def by (intro keeps_intros calm_preorder)

text \<open>The channel: an error that it keeps is never taken back.\<close>

lemma terminate_keeps_error [simp]: "ch_error (snd (terminate e ch)) \<noteq> None"
  by (simp add: terminate_def split: option.splits)

lemma admit_error: "admit pm h c st st' ch = Inr (Fresh fs data, ch') \<Longrightarrow> ch_error ch' = ch_error ch \<and> ch_error ch = None"
  unfolding admit_def admit_single_def admit_pair_def check_open_def
  by (auto simp: result_simps Let_def split: option.splits if_splits prod.splits)

lemma finish_send_error: "ch_error ch \<noteq> None \<Longrightarrow> ch_error (snd (finish_send outcome ch)) \<noteq> None"
  by (auto simp: finish_send_def check_open_def terminate_def split: option.splits sum.splits prod.splits)

lemma calm_chan: "(ch_error (chan (rest w)) \<noteq> None \<longrightarrow> ch_error ch \<noteq> None) \<Longrightarrow> calm w (w\<lparr>rest := (rest w)\<lparr>chan := ch\<rparr>\<rparr>)"
  by (simp add: calm_def lasting_def ses_def evolves_refl)

lemma act_step: "act_bind (act_get g) f w = f (g w) w" "act_then (act_modify h) m w = m (h w)"
  by (simp_all add: act_bind_def act_get_def act_then_def act_modify_def)

lemma set_chan_then: "act_then (set_chan ch) m w = m (w\<lparr>rest := (rest w)\<lparr>chan := ch\<rparr>\<rparr>)"
  by (simp add: set_chan_def set_rest_def act_step)

lemma calm_finish_write [keeps_intros]: "keeps calm (finish_write outcome :: ('z, unit) tact)"
  unfolding keeps_def
proof
  fix w :: "'z tw"
  obtain r ch where f: "finish_send outcome (chan (rest w)) = (r, ch)" by (cases "finish_send outcome (chan (rest w))")
  then have "calm w (w\<lparr>rest := (rest w)\<lparr>chan := ch\<rparr>\<rparr>)"
    using finish_send_error [of "chan (rest w)" outcome] by (intro calm_chan) simp
  then show "calm w (snd (finish_write outcome w))"
    by (cases r) (simp_all add: finish_write_def act_step set_chan_then f raise_wire_def act_raise_def act_return_def)
qed

definition admits :: "(wire_error option \<Rightarrow> channel \<Rightarrow> wire_error + admission \<times> channel) \<Rightarrow> bool" where
  "admits admitting \<longleftrightarrow> (\<forall>st ch fs data ch'. admitting st ch = Inr (Fresh fs data, ch') \<longrightarrow> ch_error ch = None)"

lemma admits_admit [simp]: "admits (\<lambda>stopped. admit pm h c stopped stopped)"
  using admit_error by (auto simp: admits_def)

lemma admits_pair [simp]: "admits (\<lambda>stopped. send_complete_progress c p stopped stopped)"
  unfolding admits_def send_complete_progress_def
  by (auto split: py_message.splits message.splits if_splits dest: admit_error)

lemma calm_transmit [keeps_intros]:
  assumes "civil te" "admits admitting"
  shows "keeps calm (transmit te d admitting :: ('z, unit) tact)"
proof -
  have writing: "keeps calm (\<lambda>w. case write_ends te w of (outcome, w') \<Rightarrow> (Inr outcome, w'))"
    using assms(1) by (auto simp: keeps_def civil_def split: prod.splits intro: calm_meddles dest: spec) (metis calm_meddles snd_conv)
  have admission: "keeps calm (act_bind (act_get (\<lambda>w. admitting (stop_reason d w) (chan (rest w)))) (\<lambda>r.
       case r of
         Inl e \<Rightarrow> raise_wire e
       | Inr (Repeated _, _) \<Rightarrow> act_return ()
       | Inr (Fresh _ _, ch) \<Rightarrow> act_then (set_chan ch)
           (act_bind (\<lambda>w. case write_ends te w of (outcome, w') \<Rightarrow> (Inr outcome, w')) finish_write)))"
    (is "keeps calm ?m")
    unfolding keeps_def
  proof
    fix w :: "'z tw"
    let ?rest = "act_bind (\<lambda>w. case write_ends te w of (outcome, w') \<Rightarrow> (Inr outcome, w')) finish_write :: ('z, unit) tact"
    have rest: "keeps calm ?rest" by (intro keeps_intros calm_preorder writing)
    show "calm w (snd (?m w))"
    proof (cases "admitting (stop_reason d w) (chan (rest w))")
      case (Inr x)
      obtain a ch where x: "x = (a, ch)" by (cases x)
      show ?thesis
      proof (cases a)
        case (Fresh fs data)
        then have "ch_error (chan (rest w)) = None" using Inr x assms(2) unfolding admits_def by blast
        then have "calm w (w\<lparr>rest := (rest w)\<lparr>chan := ch\<rparr>\<rparr>)" by (simp add: calm_chan)
        moreover have "calm (w\<lparr>rest := (rest w)\<lparr>chan := ch\<rparr>\<rparr>) (snd (?rest (w\<lparr>rest := (rest w)\<lparr>chan := ch\<rparr>\<rparr>)))"
          using rest by (simp add: keeps_def)
        ultimately show ?thesis using Inr x Fresh transpD [OF calm_preorder(2)] by (simp add: act_step set_chan_then)
      qed (use Inr x in \<open>simp add: act_step act_return_def calm_self\<close>)
    qed (simp add: act_step raise_wire_def act_raise_def calm_self)
  qed
  show ?thesis unfolding transmit_def by (intro keeps_then calm_preorder calm_pause assms(1) admission)
qed

lemma calm_send [keeps_intros]: "civil te \<Longrightarrow> keeps calm (send te m d)"
  unfolding send_def by (intro keeps_intros calm_preorder admits_admit; assumption?)

text \<open>What a wait takes from the channel does not end or open it.\<close>

definition takes :: "(channel \<Rightarrow> ('a \<times> channel) option) \<Rightarrow> bool" where
  "takes pick \<longleftrightarrow> (\<forall>ch x ch'. pick ch = Some (x, ch') \<longrightarrow> ch_error ch' = ch_error ch)"

lemma calm_look [keeps_intros]:
  assumes "takes pick"
  shows "keeps calm (look d pick :: ('z, 'a option) tact)"
  unfolding keeps_def
proof
  fix w :: "'z tw"
  have "calm w (w\<lparr>rest := (rest w)\<lparr>chan := ch\<rparr>\<rparr>)" if "pick (chan (rest w)) = Some (x, ch)" for x ch
    using assms that by (intro calm_chan) (auto simp: takes_def)
  then show "calm w (snd (look d pick w))"
    by (auto simp: look_def act_step set_chan_then raise_wire_def act_raise_def act_return_def calm_self split: sum.splits option.splits)
qed

lemma calm_till_deadline [keeps_intros]: "keeps calm (till_deadline d)"
  unfolding till_deadline_def by (intro keeps_intros mild_updates)

lemma calm_await_channel [keeps_intros]: "civil te \<Longrightarrow> takes pick \<Longrightarrow> keeps calm (await_channel te d pick n)"
proof (induction n)
  case 0
  then show ?case by (subst await_channel.simps) (auto intro!: keeps_intros calm_preorder)
next
  case (Suc n)
  then show ?case by (subst await_channel.simps) (auto intro!: keeps_intros calm_preorder)
qed

lemma takes_ready [simp]: "takes first_queued" "takes (\<lambda>ch. if handshake_done ch then Some ((), ch) else None)"
  by (auto simp: takes_def first_queued_def split: list.splits)

lemma calm_receive [keeps_intros]: "civil te \<Longrightarrow> keeps calm (receive te d)"
  unfolding receive_def by (intro keeps_intros takes_ready; assumption?)

lemma calm_handshake [keeps_intros]: "civil te \<Longrightarrow> keeps calm (handshake te d)"
  unfolding handshake_def by (intro keeps_intros calm_preorder takes_ready admits_admit; assumption?)

subsection \<open>The pump, apart from edges\<close>

lemma calm_channel_poll [keeps_intros]:
  assumes "civil te"
  shows "keeps calm (channel_poll te :: ('z, int message option) tact)"
proof -
  let ?m = "act_bind (act_get (\<lambda>w. poll (chan (rest w)))) (\<lambda>(r, ch).
     act_then (set_chan ch) (case r of
       Inl (ChannelClosed s) \<Rightarrow> act_bind (act_get (normalize_failure (WireFault (ChannelClosed s)))) act_raise
     | Inl e \<Rightarrow> raise_wire e
     | Inr m \<Rightarrow> act_return m)) :: ('z, int message option) tact"
  have "keeps calm ?m"
    unfolding keeps_def
  proof
    fix w :: "'z tw"
    obtain r ch where p: "poll (chan (rest w)) = (r, ch)" by (cases "poll (chan (rest w))")
    then have "calm w (w\<lparr>rest := (rest w)\<lparr>chan := ch\<rparr>\<rparr>)"
      by (intro calm_chan) (auto simp: poll_def check_open_def split: option.splits list.splits)
    then show "calm w (snd (?m w))"
      by (auto simp: act_step set_chan_then p raise_wire_def act_raise_def act_return_def split: sum.splits wire_error.splits)
  qed
  then show ?thesis unfolding channel_poll_def by (intro keeps_then calm_preorder calm_pause assms)
qed

lemma mild_own_updates [simp]:
  "mild_own (\<lambda>s. s\<lparr>response := r\<rparr>)" "mild_own (\<lambda>s. s\<lparr>edge_deadlines := ds s\<rparr>)" "mild_own (\<lambda>s. s\<lparr>ingress := q s\<rparr>)"
  "mild_own (\<lambda>s. s\<lparr>peer_sequence := n s\<rparr>)" "mild_own (\<lambda>s. s\<lparr>ingress_watermark := h, ingress_prefix := k\<rparr>)"
  "mild_own (\<lambda>s. s\<lparr>coordinator_watermark := h\<rparr>)" "mild_own (\<lambda>s. s\<lparr>sync_markers := ms s\<rparr>)"
  "mild_own (\<lambda>s. s\<lparr>last_inbound_fence := f, inbound_fences := fs s\<rparr>)" "mild_own (\<lambda>s. s\<lparr>outbound_fences := ofs s\<rparr>)"
  "mild_own (\<lambda>s. s\<lparr>inbound_fences := fs s\<rparr>)" "mild_own (\<lambda>s. s\<lparr>settled := h\<rparr>)"
  "mild_own (\<lambda>s. s\<lparr>sent_watermark := h, sent_prefix := e s, sent_progress := h\<rparr>)" "mild_own (\<lambda>s. s\<lparr>sent_watermark := h, sent_prefix := e s\<rparr>)"
  "mild_own (\<lambda>s. s\<lparr>held := ho\<rparr>)" "mild_own (\<lambda>s. s\<lparr>episode_number := n s\<rparr>)" "mild_own (\<lambda>s. s\<lparr>episode_id := i\<rparr>)"
  "mild_own (\<lambda>s. s\<lparr>ts_batch := None, episode_id := None, held := None\<rparr>)" "mild_own (\<lambda>s. s\<lparr>pumping := b\<rparr>)" "mild_own (\<lambda>s. s\<lparr>pump_deadline := d s\<rparr>)"
  "mild_own (\<lambda>s. s\<lparr>segments := sg s, stop_count := k\<rparr>)" "mild_own (\<lambda>s. s\<lparr>mapped_raw := k\<rparr>)"
  by (simp_all add: mild_own_def ledger_of_def)

lemma calm_stage [keeps_intros]: "keeps calm (stage te m)"
proof -
  have "keeps calm (stage_response i h b)" "keeps calm (stage_deadline te m)" for i h b
    unfolding stage_response_def stage_deadline_def
    by (auto split: message.splits intro!: keeps_intros calm_preorder)
  then show ?thesis unfolding stage_def by (auto split: message.splits intro!: keeps_intros calm_preorder)
qed

lemma calm_check_pump [keeps_intros]: "keeps calm (check_pump te)"
  unfolding check_pump_def by (intro keeps_intros calm_preorder)

lemma calm_poll_wire [keeps_intros]: "civil te \<Longrightarrow> keeps calm (poll_wire te n)"
  by (induction n) (auto intro!: keeps_intros calm_preorder)

lemma calm_consume [keeps_intros]:
  "keeps calm (consume_progress h)" "keeps calm (consume_complete h i)" "keeps calm (consume_sync n)" "keeps calm (consume_fence f i)"
  "keeps calm (consume_ack f i)"
  unfolding consume_progress_def consume_complete_def consume_sync_def consume_fence_def consume_ack_def
  by (intro keeps_intros calm_preorder edgeless_intros mild_own_updates)+

lemma calm_publish [keeps_intros]: "civil te \<Longrightarrow> keeps calm (publish te force)"
  unfolding publish_def publish_pair_def publish_completion_def Let_def
  by (intro keeps_intros calm_preorder admits_pair mild_own_updates; assumption?)

lemma calm_start_hold [keeps_intros]: "keeps calm (start_hold a d)"
  unfolding start_hold_def by (intro keeps_intros calm_preorder mild_own_updates)

lemma calm_check_hold [keeps_intros]: "keeps calm (check_hold te)"
  unfolding check_hold_def by (intro keeps_intros calm_preorder)

lemma calm_begin_rearm [keeps_intros]: "keeps calm (begin_rearm te)"
  unfolding begin_rearm_def rearm_episode_def Let_def
  by (intro keeps_intros calm_preorder mild_own_updates edgeless_intros)

lemma calm_end_batch [keeps_intros]: "keeps calm end_batch"
  unfolding end_batch_def by (intro keeps_intros calm_preorder mild_own_updates edgeless_intros)

lemma calm_ack_fences [keeps_intros]: "civil te \<Longrightarrow> keeps calm (ack_fences te n)"
  by (induction n) (auto intro!: keeps_intros calm_preorder split: list.splits)

lemma calm_edge_expired [keeps_intros]: "keeps calm (edge_expired te)"
  unfolding edge_expired_def by (intro keeps_intros calm_preorder)

lemma calm_forget_deadline [keeps_intros]: "keeps calm (forget_deadline i)"
  unfolding forget_deadline_def by (intro keeps_intros calm_preorder mild_own_updates)

lemma calm_end_pump: "calm w (end_pump w)"
  by (simp add: end_pump_def calm_def lasting_def ses_def ledger_of_def evolves_refl)

lemma calm_observe_map [keeps_intros]: "keeps calm observe_map"
  unfolding observe_map_def observe_stop_def mapped_def Let_def
  by (auto intro!: keeps_intros calm_preorder mild_own_updates split: sum.splits)

subsection \<open>Ends, edges of our own, and the callbacks\<close>

lemma mild_closes [simp]: "mild (\<lambda>r. r\<lparr>chan := close_channel (chan r)\<rparr>)"
  by (simp add: mild_def close_channel_def)

lemma mild_own_ends [simp]:
  "mild_own (\<lambda>s. s\<lparr>terminal_error := e s, terminal := True\<rparr>)" "mild_own (\<lambda>s. s\<lparr>cancel_set := True, terminal := True\<rparr>)"
  "mild_own (\<lambda>s. s\<lparr>terminal := True\<rparr>)" "mild_own (\<lambda>s. s\<lparr>used := True\<rparr>)" "mild_own (\<lambda>s. s\<lparr>active := b\<rparr>)" "mild_own (\<lambda>s. s\<lparr>bound := b\<rparr>)"
  "mild_own (\<lambda>s. s\<lparr>control_active := b, control_deadline := d\<rparr>)" "mild_own (\<lambda>s. s\<lparr>control_active := b\<rparr>)" "mild_own (\<lambda>s. s\<lparr>in_edge := b\<rparr>)"
  "mild_own (\<lambda>s. s\<lparr>out_edge := n s, waiting_edge := wt s, response := None\<rparr>)" "mild_own (\<lambda>s. s\<lparr>sent_progress := hs s\<rparr>)"
  "mild_own (\<lambda>s. s\<lparr>last_outbound_fence := f\<rparr>)" "mild_own (\<lambda>s. s\<lparr>bootstrap_writes := wr s\<rparr>)" "mild_own (\<lambda>s. s\<lparr>attaching := b\<rparr>)"
  by (simp_all add: mild_own_def ledger_of_def)

lemma calm_fail_session [keeps_intros]: "keeps calm (fail_session e)"
  unfolding fail_session_def by (intro keeps_intros calm_preorder mild_own_ends mild_closes) (simp_all add: edgeless_intros)

lemma calm_cancel_session [keeps_intros]: "keeps calm cancel_session"
  unfolding cancel_session_def by (intro keeps_intros calm_preorder mild_own_ends mild_closes edgeless_intros)

lemma calm_await_response [keeps_intros]: "civil te \<Longrightarrow> keeps calm (await_response te d h n)"
  by (induction n) (auto intro!: keeps_intros calm_preorder)

lemma calm_announce [keeps_intros]: "civil te \<Longrightarrow> keeps calm (announce_edge te d s ob b)"
  unfolding announce_edge_def by (intro keeps_intros calm_preorder mild_own_ends mild_own_updates; assumption?)

lemma calm_mapped [keeps_intros]: "keeps calm (mapped h)"
  unfolding mapped_def by (auto intro!: keeps_intros calm_preorder split: sum.splits)

lemma calm_master_edge [keeps_intros]: "civil te \<Longrightarrow> keeps calm (master_edge te b)"
  unfolding master_edge_def Let_def by (intro keeps_intros calm_preorder; assumption?)

lemma calm_end_edge: "calm w (end_edge w)"
  by (simp add: end_edge_def calm_def lasting_def ses_def ledger_of_def evolves_refl)

lemma calm_on_edge [keeps_intros]: "civil te \<Longrightarrow> keeps calm (session_on_edge te b r)"
  unfolding session_on_edge_def
  by (intro keeps_intros calm_preorder mild_own_ends calm_end_edge; assumption?)

end
