(* ===== verification/Timed_Edges.thy ===== *)
theory Timed_Edges
  imports Timed_Calm
begin

text \<open>
  Where a timed session keeps the edges of its peer: every edge that was admitted is in exactly one place - queued in
  the coordinator, held in the batch being delivered, or done - and the native register has been shifted once for every
  edge that is done. An exception can leave one edge in doubt, shifted but not done; the session has then ended.
\<close>

subsection \<open>The account\<close>

definition done_ids :: "tsession \<Rightarrow> int set" where
  "done_ids s = {1..completed_prefix s} \<union> set (completion_gaps s)"

definition waiting_ids :: "tsession \<Rightarrow> int list" where
  "waiting_ids s = queued s @ delivered_ids (delivery s)"

definition tidy :: "tsession \<Rightarrow> bool" where
  "tidy s \<longleftrightarrow> 0 \<le> completed_prefix s \<and> distinct (completion_gaps s) \<and> (\<forall>i \<in> set (completion_gaps s). completed_prefix s < i)"

definition done_count :: "tsession \<Rightarrow> int" where
  "done_count s = completed_prefix s + int (length (completion_gaps s))"

definition sequences :: "coord \<Rightarrow> int list" where
  "sequences c = map edge_sequence (edges c)"

definition placed :: "coord \<Rightarrow> tsession \<Rightarrow> bool" where
  "placed c s \<longleftrightarrow> distinct (waiting_ids s) \<and> set (waiting_ids s) \<inter> done_ids s = {}
     \<and> set (waiting_ids s) \<union> done_ids s \<subseteq> {1..admitted_edge s} \<and> 0 \<le> admitted_edge s \<and> admitted_edge s \<le> ingress_edge s
     \<and> (governed s \<longrightarrow> last_sequence c \<le> ingress_edge s \<and> distinct (sequences c) \<and> set (sequences c) \<subseteq> set (queued s)
          \<and> (\<not> closed c \<longrightarrow> admitted_edge s = ingress_edge s \<and> last_sequence c = ingress_edge s
               \<and> set (queued s) = set (sequences c) \<and> set (waiting_ids s) \<union> done_ids s = {1..admitted_edge s}))"

definition started :: "'z tw \<Rightarrow> bool" where
  "started w \<longleftrightarrow> (if governed (ses w) then reachable (co w) \<and> used (ses w) else ingress_edge (ses w) = 0 \<and> (owner (ses w) = None \<or> terminal (ses w)))"

definition accounted :: "'z tw \<Rightarrow> bool" where
  "accounted w \<longleftrightarrow> started w \<and> tidy (ses w) \<and> placed (co w) (ses w) \<and> applied (ses w) = done_count (ses w)"

definition doubtful :: "'z tw \<Rightarrow> bool" where
  "doubtful w \<longleftrightarrow> started w \<and> tidy (ses w) \<and> done_ids (ses w) \<subseteq> {1..ingress_edge (ses w)}
     \<and> applied (ses w) \<in> {done_count (ses w), done_count (ses w) + 1}"

lemma accounted_doubtful: "accounted w \<Longrightarrow> doubtful w"
  by (auto simp: accounted_def doubtful_def placed_def)

lemma ledger_fields:
  assumes "ledger_of s' = ledger_of s"
  shows "queued s' = queued s" "delivery s' = delivery s" "ingress_edge s' = ingress_edge s" "admitted_edge s' = admitted_edge s"
    "completed_prefix s' = completed_prefix s" "completion_gaps s' = completion_gaps s" "applied s' = applied s"
    "done_ids s' = done_ids s" "waiting_ids s' = waiting_ids s" "tidy s' = tidy s" "done_count s' = done_count s"
  using assms by (simp_all add: ledger_of_def done_ids_def waiting_ids_def tidy_def done_count_def)

lemma calm_ledger: "calm w w' \<Longrightarrow> ledger_of (ses w') = ledger_of (ses w)"
  by (simp add: calm_def)

lemma calm_coord:
  assumes "calm w w'"
  shows "evolves (co w) (co w')" "governed (ses w') = governed (ses w)" "used (ses w) \<Longrightarrow> used (ses w')"
    "sequences (co w') = sequences (co w)" "last_sequence (co w') = last_sequence (co w)"
    "owner (ses w') = owner (ses w)" "terminal (ses w) \<Longrightarrow> terminal (ses w')"
  using assms by (simp_all add: calm_def lasting_def sequences_def)

lemma calm_started:
  assumes "calm w w'" "started w"
  shows "started w'"
  using assms(2) calm_coord [OF assms(1)] ledger_fields(3) [OF calm_ledger [OF assms(1)]]
  by (auto simp: started_def split: if_splits intro: evolves_reachable)

lemma calm_placed:
  assumes "calm w w'" "started w" "placed (co w) (ses w)"
  shows "placed (co w') (ses w')"
proof -
  note c = calm_coord [OF assms(1)] and l = ledger_fields [OF calm_ledger [OF assms(1)]]
  have "closed (co w) \<longrightarrow> closed (co w')" if "governed (ses w)"
    using c(1) assms(2) that by (auto simp: started_def intro: evolves_closed)
  then show ?thesis using assms(3) unfolding placed_def c(2,4,5) l by blast
qed

lemma calm_accounted: "accounted w \<Longrightarrow> calm w w' \<Longrightarrow> accounted w'"
  unfolding accounted_def
  by (frule calm_ledger, frule ledger_fields(7), frule ledger_fields(10), frule ledger_fields(11))
    (auto intro: calm_placed calm_started)

lemma calm_doubtful: "doubtful w \<Longrightarrow> calm w w' \<Longrightarrow> doubtful w'"
  unfolding doubtful_def
  by (frule calm_ledger, frule ledger_fields(3), frule ledger_fields(7), frule ledger_fields(8), frule ledger_fields(10), frule ledger_fields(11))
    (auto intro: calm_started)

text \<open>The account of a session whose coordinator exists; only such a session pumps.\<close>

definition live :: "'z tw \<Rightarrow> bool" where
  "live w \<longleftrightarrow> accounted w \<and> governed (ses w)"

lemma live_doubtful: "live w \<Longrightarrow> doubtful w"
  by (simp add: live_def accounted_doubtful)

lemma calm_live: "live w \<Longrightarrow> calm w w' \<Longrightarrow> live w'"
  by (auto simp: live_def calm_coord(2) intro: calm_accounted)

lemma calm_stays: "keeps calm m \<Longrightarrow> stays live doubtful m"
  by (erule keeps_stays) (auto intro: calm_live live_doubtful)

subsection \<open>Weakest preconditions of the session's steps\<close>

lemma wp_on_coordinator [wp_simps]:
  "wp (on_coordinator f) Q E w = (case f (co w) of (Inl e, c) \<Rightarrow> E (Timing e) (w\<lparr>co := c\<rparr>) | (Inr x, c) \<Rightarrow> Q x (w\<lparr>co := c\<rparr>))"
  by (simp add: wp_def on_coordinator_def split: prod.splits sum.splits)

lemma wp_set_rest [wp_simps]: "wp (set_rest f) Q E = (\<lambda>w. Q () (w\<lparr>rest := f (rest w)\<rparr>))"
  by (simp add: set_rest_def wp_simps)

lemma wp_set_ses [wp_simps]: "wp (set_ses f) Q E = (\<lambda>w. Q () (w\<lparr>rest := (rest w)\<lparr>ts := f (ses w)\<rparr>\<rparr>))"
  by (simp add: set_ses_def wp_simps ses_def)

lemma wp_raises [wp_simps]:
  "wp (raise_wire e) Q E = E (WireFault e)" "wp (protocol_error m) Q E = E (WireFault (ProtocolError m))"
  "wp (expired_error m) Q E = E (WireFault (DeadlineExceeded m))" "wp (misuse m) Q E = E (RuntimeFault m)"
  "wp (time_error m) Q E = E (Timing (EmulatedTimeError m))"
  by (simp_all add: raise_wire_def protocol_error_def expired_error_def misuse_def time_error_def wp_simps)

lemma wp_clock_time [wp_simps]:
  "wp (clock_time te) Q E w = Q (clk (rest w) + int (elapse te w)) (w\<lparr>rest := (rest w)\<lparr>clk := clk (rest w) + int (elapse te w)\<rparr>\<rparr>)"
  by (simp add: wp_def clock_time_def read_clock_def Let_def)

lemma wp_pause [wp_simps]: "wp (pause te) Q E = (\<lambda>w. Q () (others te w))"
  by (simp add: pause_def wp_simps)

lemma ses_updates [simp]: "ses (w\<lparr>co := c\<rparr>) = ses w" "ses (w\<lparr>rest := r\<rparr>) = ts r" "ses (w\<lparr>mb := b\<rparr>) = ses w"
  by (simp_all add: ses_def)

subsection \<open>Admitting an edge\<close>

lemma receive_edge_cases:
  assumes "receive_edge ep (PyInt i) at pl c = (r, c')"
  obtains (failed) e where "r = Inl e" "closed c'" "edges c' = edges c" "last_sequence c' = last_sequence c"
  | (replayed) "r = Inr False" "c' = c" "i = last_sequence c"
  | (pushed) "r = Inr True" "i = last_sequence c + 1"
      "edges c' = push_edge \<lparr>edge_epoch = the_str ep, edge_sequence = i, edge_at = the_int at, edge_payload = the_bytes pl\<rparr> (edges c)"
      "last_sequence c' = i" "\<not> closed c" "\<not> closed c'"
  using assms
  by (auto simp: receive_edge_def outcome_defs the_int_def Let_def split: option.splits if_splits)

lemma sequences_push: "mset (map edge_sequence (push_edge e q)) = add_mset (edge_sequence e) (mset (map edge_sequence q))"
  by (simp add: mset_push_edge)

lemma placed_push:
  assumes p: "placed c s" and i: "i = ingress_edge s + 1" "i = last_sequence c + 1" "\<not> closed c" "governed s"
    and c': "edge_sequence e = i" "edges c' = push_edge e (edges c)" "last_sequence c' = i" "closed c' = closed c"
  shows "placed c' (s\<lparr>ingress_edge := i, admitted_edge := i, queued := queued s @ [i]\<rparr>)"
proof -
  let ?s = "s\<lparr>ingress_edge := i, admitted_edge := i, queued := queued s @ [i]\<rparr>"
  have a: "admitted_edge s = i - 1" "last_sequence c = i - 1" "set (queued s) = set (sequences c)" "distinct (sequences c)"
      "set (waiting_ids s) \<union> done_ids s = {1..i - 1}" "distinct (waiting_ids s)" "set (waiting_ids s) \<inter> done_ids s = {}"
      "0 \<le> i - 1"
    using p i by (auto simp: placed_def)
  have set': "set (sequences c') = insert i (set (sequences c))"
    unfolding sequences_def by (simp add: c' set_push_edge)
  have "i \<notin> set (queued s)" "i \<notin> set (waiting_ids s)" "i \<notin> done_ids s" using a(5) by (auto simp: waiting_ids_def)
  then have dist: "distinct (sequences c')"
    using a(3,4) c'(1) distinct_count_atmost_1 [of "sequences c"] sequences_push [of e "edges c"]
    unfolding sequences_def c'(2) by (metis distinct.simps(2) list.simps(9) mset.simps(2) mset_eq_imp_distinct_iff)
  have w: "set (waiting_ids ?s) = insert i (set (waiting_ids s))" "distinct (waiting_ids ?s) \<longleftrightarrow> distinct (waiting_ids s) \<and> i \<notin> set (waiting_ids s)"
      "done_ids ?s = done_ids s"
    by (auto simp: waiting_ids_def done_ids_def)
  have "{1..i} = insert i {1..i - 1}" using a(8) by auto
  then show ?thesis
    unfolding placed_def w using a set' dist \<open>i \<notin> set (waiting_ids s)\<close> \<open>i \<notin> done_ids s\<close> c'(3,4) by auto
qed

lemma consume_edge_stays: "stays live doubtful (consume_edge i scheduled b)"
proof (rule staysI)
  fix w :: "'z tw"
  assume a: "live w"
  then have st: "placed (co w) (ses w)" "tidy (ses w)" "applied (ses w) = done_count (ses w)" "governed (ses w)" "reachable (co w)" "used (ses w)"
    by (simp_all add: live_def accounted_def started_def)
  let ?s = "ses w" and ?i = "ingress_edge (ses w) + 1"
  let ?r = "receive_edge (session_epoch ?s) (PyInt ?i) (PyInt scheduled) (PyBytes [word_of_int b]) (co w)"
  obtain r c where r: "?r = (r, c)" by (cases ?r)
  have rc: "reachable c"
    using r reachable.called [OF st(5), of "ReceiveEdge (session_epoch ?s) (PyInt ?i) (PyInt scheduled) (PyBytes [word_of_int b])"] by simp
  have failing: "doubtful (w\<lparr>rest := (rest w)\<lparr>ts := ?s\<lparr>ingress_edge := ?i\<rparr>\<rparr>, co := c\<rparr>)"
    using st rc by (auto simp: doubtful_def started_def tidy_def done_ids_def done_count_def placed_def)
  have "wp (consume_edge ?i scheduled b) (\<lambda>_. live) (\<lambda>_. doubtful) w"
  proof (cases "scheduled \<le> ingress_watermark ?s")
    case False
    from r show ?thesis
    proof (cases rule: receive_edge_cases)
      case replayed
      then have False using st(1,4) by (auto simp: placed_def)
      then show ?thesis ..
    next
      case pushed
      have "placed c (?s\<lparr>ingress_edge := ?i, admitted_edge := ?i, queued := queued ?s @ [?i]\<rparr>)"
        by (rule placed_push [OF st(1) refl pushed(2,5) st(4) _ pushed(3,4)]) (use pushed in simp_all)
      then show ?thesis
        using False st rc pushed(1)
        by (simp add: consume_edge_def wp_simps r live_def accounted_def started_def tidy_def done_count_def)
    qed (use False failing in \<open>simp add: consume_edge_def wp_simps r\<close>)
  qed (use live_doubtful [OF a] in \<open>simp add: consume_edge_def wp_simps\<close>)
  moreover have "wp (consume_edge i scheduled b) (\<lambda>_. live) (\<lambda>_. doubtful) w" if "i \<noteq> ?i"
    using live_doubtful [OF a] that by (simp add: consume_edge_def wp_simps)
  ultimately show "wp (consume_edge i scheduled b) (\<lambda>_. live) (\<lambda>_. doubtful) w" by blast
qed

subsection \<open>Taking a batch\<close>

lemma pop_loop_split:
  "pop_loop through batch es got c = (late, rest', got') \<Longrightarrow>
     \<exists>ds. got' = got @ ds \<and> map dl_edge ds @ (case late of None \<Rightarrow> [] | Some e \<Rightarrow> [e]) @ rest' = es"
proof (induction es arbitrary: got)
  case (Cons e es)
  show ?case
  proof (cases "edge_at e \<le> through \<and> \<not> local c - edge_at e > max_lateness c")
    case True
    let ?d = "\<lparr>dl_edge = e, delivered_half_cycle = local c, lateness_half_cycles = local c - edge_at e, batch_token = batch\<rparr>"
    have "pop_loop through batch es (got @ [?d]) c = (late, rest', got')" using Cons.prems True by simp
    from Cons.IH [OF this] obtain ds where "got' = (got @ [?d]) @ ds" "map dl_edge ds @ (case late of None \<Rightarrow> [] | Some e \<Rightarrow> [e]) @ rest' = es"
      by blast
    then show ?thesis by (intro exI [of _ "?d # ds"]) simp
  qed (use Cons.prems in \<open>auto split: if_splits\<close>)
qed simp

lemma pop_ready_cases:
  assumes "pop_ready_edges batch c = (r, c')"
  obtains (failed) e where "r = Inl e" "closed c'"
  | (popped) ds where "r = Inr ds" "edges c = map dl_edge ds @ edges c'" "last_sequence c' = last_sequence c" "closed c' = closed c" "\<not> closed c"
proof (cases "closed c \<or> pending c \<noteq> None \<or> pending_delivery c \<noteq> None")
  case True
  then show ?thesis using assms that by (auto simp: pop_ready_edges_def raise_closed_def split: if_splits)
next
  case False
  obtain late rst got where l: "pop_loop (min (local c) (watermark c)) batch (edges c) [] c = (late, rst, got)"
    by (metis prod_cases3)
  from pop_loop_split [OF this] have "map dl_edge got @ (case late of None \<Rightarrow> [] | Some e \<Rightarrow> [e]) @ rst = edges c" by simp
  then show ?thesis
    using assms False that by (cases late) (auto simp: pop_ready_edges_def l fail_late_def split: if_splits)
qed

lemma placed_pop:
  assumes p: "placed c s" and d: "delivery s = []" "governed s"
    and c': "edges c = map dl_edge ds @ edges c'" "last_sequence c' = last_sequence c" "closed c' = closed c"
  shows "placed c' (s\<lparr>delivery := ds, ts_batch := bt, queued := List.filter (\<lambda>i. i \<notin> set (delivered_ids ds)) (queued s)\<rparr>)"
proof -
  let ?s = "s\<lparr>delivery := ds, ts_batch := bt, queued := List.filter (\<lambda>i. i \<notin> set (delivered_ids ds)) (queued s)\<rparr>"
  have q: "sequences c = delivered_ids ds @ sequences c'" by (simp add: sequences_def delivered_ids_def c')
  have a: "distinct (queued s)" "waiting_ids s = queued s" "distinct (delivered_ids ds @ sequences c')" "set (delivered_ids ds) \<subseteq> set (queued s)"
      "set (sequences c') \<subseteq> set (queued s)"
    using p d q by (auto simp: placed_def waiting_ids_def delivered_ids_def)
  have w: "set (waiting_ids ?s) = set (waiting_ids s)" "distinct (waiting_ids ?s)" "done_ids ?s = done_ids s"
    using a by (auto simp: waiting_ids_def done_ids_def)
  have s: "set (sequences c') \<subseteq> set (queued ?s)" "set (queued s) = set (sequences c) \<longrightarrow> set (queued ?s) = set (sequences c')"
    "distinct (sequences c')" "admitted_edge ?s = admitted_edge s" "ingress_edge ?s = ingress_edge s" "governed ?s = governed s"
    using a q by auto
  show ?thesis using p d(2) s w(2) unfolding placed_def w(1,3) s(4-6) c'(2,3) by blast
qed

lemma take_deliveries_stays:
  assumes "live w" "delivery (ses w) = []"
  shows "wp take_deliveries (\<lambda>_. live) (\<lambda>_. doubtful) w"
proof -
  let ?s = "ses w"
  have st: "placed (co w) ?s" "tidy ?s" "applied ?s = done_count ?s" "governed ?s" "reachable (co w)" "used ?s"
    using assms(1) by (simp_all add: live_def accounted_def started_def)
  obtain r c where r: "pop_ready_edges (next_batch (rest w)) (co w) = (r, c)" by (cases "pop_ready_edges (next_batch (rest w)) (co w)")
  have rc: "reachable c" using r reachable.called [OF st(5), of "PopReadyEdges (next_batch (rest w))"] by simp
  have pop: "wp pop_deliveries Q E w" if "\<And>n e. r = Inl e \<Longrightarrow> E (Timing e) (w\<lparr>rest := (rest w)\<lparr>next_batch := n\<rparr>, co := c\<rparr>)"
      "\<And>n ds. r = Inr ds \<Longrightarrow> Q ds (w\<lparr>rest := (rest w)\<lparr>next_batch := n\<rparr>, co := c\<rparr>)" for Q E
  proof -
    show ?thesis
      using that(1) [of _ "next_batch (rest w)"] that(2) [of _ "next_batch (rest w)"] that(1) [of _ "next_batch (rest w) + 1"]
        that(2) [of _ "next_batch (rest w) + 1"]
      by (cases r) (simp_all add: pop_deliveries_def wp_simps r)
  qed
  show ?thesis
    unfolding take_deliveries_def wp_bind
  proof (rule pop)
    fix n e assume "r = Inl e"
    show "doubtful (w\<lparr>rest := (rest w)\<lparr>next_batch := n\<rparr>, co := c\<rparr>)"
      using st rc accounted_doubtful [of w] assms(1) by (simp add: doubtful_def started_def live_def) (simp add: ses_def)
  next
    fix n ds assume ds: "r = Inr ds"
    let ?w = "w\<lparr>rest := (rest w)\<lparr>next_batch := n\<rparr>, co := c\<rparr>"
    from r have p: "edges (co w) = map dl_edge ds @ edges c" "last_sequence c = last_sequence (co w)" "closed c = closed (co w)"
      by (cases rule: pop_ready_cases; use ds in simp)+
    show "wp (case ds of [] \<Rightarrow> act_return () | d # _ \<Rightarrow>
       act_then (set_ses (\<lambda>s. s\<lparr>delivery := ds, ts_batch := Some (batch_token d),
                                queued := List.filter (\<lambda>i. i \<notin> set (delivered_ids ds)) (queued s)\<rparr>))
       (act_bind (act_get ses) (\<lambda>s.
         case those (map (map_of (edge_deadlines s)) (delivered_ids ds)) of
           None \<Rightarrow> act_raise (ArgumentFault KeyError)
         | Some limits \<Rightarrow> start_hold (Min (set (map (edge_at \<circ> dl_edge) ds))) (Min (set limits))))) (\<lambda>_. live) (\<lambda>_. doubtful) ?w"
    proof (cases ds)
      case Nil
      then have "placed c ?s" using st(1) p by (simp add: placed_def sequences_def)
      then show ?thesis using st rc Nil by (simp add: wp_simps live_def accounted_def started_def) (simp add: ses_def)
    next
      case (Cons d ds')
      let ?s' = "?s\<lparr>delivery := ds, ts_batch := Some (batch_token d), queued := List.filter (\<lambda>i. i \<notin> set (delivered_ids ds)) (queued ?s)\<rparr>"
      have "placed c ?s'" by (rule placed_pop [OF st(1) assms(2) st(4) p])
      then have l: "live (?w\<lparr>rest := (rest ?w)\<lparr>ts := ?s'\<rparr>\<rparr>)"
        using st rc by (simp add: live_def accounted_def started_def tidy_def done_count_def)
      have "wp (case those (map (map_of (edge_deadlines ?s')) (delivered_ids ds)) of
           None \<Rightarrow> act_raise (ArgumentFault KeyError)
         | Some limits \<Rightarrow> start_hold (Min (set (map (edge_at \<circ> dl_edge) ds))) (Min (set limits))) (\<lambda>_. live) (\<lambda>_. doubtful)
         (?w\<lparr>rest := (rest ?w)\<lparr>ts := ?s'\<rparr>\<rparr>)"
        using live_doubtful [OF l] staysD [OF calm_stays [OF calm_start_hold] l] by (simp add: wp_simps split: option.split)
      then show ?thesis by (simp add: Cons wp_simps) (simp add: ses_def)
    qed
  qed
qed

subsection \<open>Delivering an edge\<close>

lemma absorb_gaps_spec:
  "absorb_gaps p g = (p', g') \<Longrightarrow> 0 \<le> p \<Longrightarrow> distinct g \<Longrightarrow> \<forall>i \<in> set g. p < i \<Longrightarrow>
     0 \<le> p' \<and> distinct g' \<and> (\<forall>i \<in> set g'. p' < i) \<and> {1..p'} \<union> set g' = {1..p} \<union> set g
     \<and> p' + int (length g') = p + int (length g)"
proof (induction p g arbitrary: p' g' rule: absorb_gaps.induct)
  case (1 p g)
  show ?case
  proof (cases "p + 1 \<in> set g")
    case True
    let ?g = "removeAll (p + 1) g"
    have step: "absorb_gaps (p + 1) ?g = (p', g')" using True "1.prems"(1) by (simp add: absorb_gaps.simps [of p g])
    have pre: "0 \<le> p + 1" "distinct ?g" "\<forall>i \<in> set ?g. p + 1 < i" using "1.prems"(2-4)
      by (force simp: distinct_removeAll order_le_less)+
    have "length ?g = card (set g - {p + 1})" using distinct_card [OF pre(2)] by simp
    also have "\<dots> = length g - 1" using True distinct_card [OF "1.prems"(3)] by simp
    finally have len: "int (length ?g) = int (length g) - 1" using length_pos_if_in_set [OF True] by arith
    have "{1..p + 1} = insert (p + 1) {1..p}" using "1.prems"(2) by auto
    then have "{1..p + 1} \<union> set ?g = {1..p} \<union> set g" using True by auto
    then show ?thesis using "1.IH" [OF True step pre] len by simp
  next
    case False
    then show ?thesis using "1.prems" by (simp add: absorb_gaps.simps [of p g])
  qed
qed

text \<open>The first edge of the batch has been shifted natively and is not done yet.\<close>

definition shifted :: "int \<Rightarrow> 'z tw \<Rightarrow> bool" where
  "shifted i w \<longleftrightarrow> started w \<and> governed (ses w) \<and> tidy (ses w) \<and> placed (co w) (ses w) \<and> applied (ses w) = done_count (ses w) + 1
     \<and> (\<exists>d ds. delivery (ses w) = d # ds \<and> edge_sequence (dl_edge d) = i)"

lemma shifted_doubtful: "shifted i w \<Longrightarrow> doubtful w"
  by (auto simp: shifted_def doubtful_def placed_def)

lemma calm_shifted:
  assumes "shifted i w" "calm w w'"
  shows "shifted i w'"
  using assms(1) calm_started [OF assms(2)] calm_placed [OF assms(2)] calm_coord(2) [OF assms(2)]
    ledger_fields(2,7,10,11) [OF calm_ledger [OF assms(2)]]
  by (simp add: shifted_def)

lemma placed_done:
  assumes p: "placed c s" and d: "delivery s = d # ds" "edge_sequence (dl_edge d) = i"
    and s': "done_ids s' = insert i (done_ids s)" "delivery s' = ds" "queued s' = queued s"
      "admitted_edge s' = admitted_edge s" "ingress_edge s' = ingress_edge s" "governed s' = governed s"
  shows "placed c s'"
proof -
  have w: "waiting_ids s = queued s @ i # delivered_ids ds" "waiting_ids s' = queued s @ delivered_ids ds"
    using d by (simp_all add: waiting_ids_def delivered_ids_def s')
  have a: "distinct (waiting_ids s)" "i \<in> set (waiting_ids s)" "i \<notin> set (waiting_ids s')" "distinct (waiting_ids s')"
      "set (waiting_ids s) = insert i (set (waiting_ids s'))"
    using p w by (auto simp: placed_def)
  then have "set (waiting_ids s') \<union> done_ids s' = set (waiting_ids s) \<union> done_ids s" by (auto simp: s')
  moreover have "set (waiting_ids s') \<inter> done_ids s' = {}" using p a(3,5) by (auto simp: placed_def s')
  ultimately show ?thesis using p a(4) unfolding placed_def s'(3-6) by simp
qed

lemma complete_edge_stays:
  assumes "shifted i w"
  shows "wp (act_then (complete_edge i) (set_ses (\<lambda>s. s\<lparr>delivery := tl (delivery s)\<rparr>))) (\<lambda>_. live) (\<lambda>_. doubtful) w"
proof -
  let ?s = "ses w"
  obtain d ds where d: "delivery ?s = d # ds" "edge_sequence (dl_edge d) = i" using assms by (auto simp: shifted_def)
  have st: "started w" "governed ?s" "tidy ?s" "placed (co w) ?s" "applied ?s = done_count ?s + 1"
    using assms by (simp_all add: shifted_def)
  obtain p g where a: "absorb_gaps (completed_prefix ?s) (i # completion_gaps ?s) = (p, g)" by (cases "absorb_gaps (completed_prefix ?s) (i # completion_gaps ?s)")
  have i: "1 \<le> i" "i \<notin> done_ids ?s" using st(4) d by (auto simp: placed_def waiting_ids_def delivered_ids_def)
  then have new: "completed_prefix ?s < i" "i \<notin> set (completion_gaps ?s)" by (auto simp: done_ids_def)
  have spec: "0 \<le> p" "distinct g" "\<forall>j \<in> set g. p < j" "{1..p} \<union> set g = {1..completed_prefix ?s} \<union> set (i # completion_gaps ?s)"
      "p + int (length g) = completed_prefix ?s + int (length (i # completion_gaps ?s))"
    using absorb_gaps_spec [OF a] st(3) new by (simp_all add: tidy_def)
  let ?s' = "?s\<lparr>completed_prefix := p, completion_gaps := g\<rparr>"
  have s': "done_ids ?s' = insert i (done_ids ?s)" "tidy ?s'" "done_count ?s' = done_count ?s + 1"
    using spec by (simp_all add: tidy_def done_ids_def done_count_def)
  have "placed (co w) (?s'\<lparr>delivery := ds\<rparr>)"
    by (rule placed_done [OF st(4) d]) (use s'(1) in \<open>simp_all add: done_ids_def\<close>)
  then have "live (w\<lparr>rest := (rest w)\<lparr>ts := ?s'\<lparr>delivery := ds\<rparr>\<rparr>\<rparr>)"
    using st s' by (simp add: live_def accounted_def started_def tidy_def done_count_def split: if_splits)
  moreover have "done_ids ?s' \<subseteq> {1..ingress_edge ?s}"
    using s'(1) i(1) st(4) d by (auto simp: placed_def waiting_ids_def delivered_ids_def)
  then have "doubtful (w\<lparr>rest := (rest w)\<lparr>ts := ?s'\<rparr>\<rparr>)"
    using st s' by (simp add: doubtful_def started_def split: if_splits)
  ultimately show ?thesis
    using shifted_doubtful [OF assms] by (simp add: complete_edge_def wp_simps a d(1))
qed

lemma applied_irrelevant [simp]: "placed c (s\<lparr>applied := n\<rparr>) = placed c s" "tidy (s\<lparr>applied := n\<rparr>) = tidy s"
  "done_count (s\<lparr>applied := n\<rparr>) = done_count s"
  by (simp_all add: placed_def tidy_def done_count_def waiting_ids_def done_ids_def)

lemma shift_edge_stays:
  assumes "live w" "delivery (ses w) = d # ds"
  shows "wp (shift_edge d) (\<lambda>_. shifted (edge_sequence (dl_edge d))) (\<lambda>_. doubtful) w"
proof -
  have "shifted (edge_sequence (dl_edge d)) (w\<lparr>rest := (rest w)\<lparr>port := c, ts := (ses w)\<lparr>applied := applied (ses w) + 1\<rparr>\<rparr>\<rparr>)" for c
    using assms by (simp add: shifted_def live_def accounted_def started_def split: if_splits)
  moreover have "ts (rest w) = ses w" by (simp add: ses_def)
  ultimately show ?thesis
    using live_doubtful [OF assms(1)] by (simp add: shift_edge_def wp_simps split: option.split)
qed

lemma deliver_edge_stays:
  assumes "civil te" "live w" "delivery (ses w) = d # ds"
  shows "wp (deliver_edge te d) (\<lambda>_. live) (\<lambda>_. doubtful) w"
proof -
  let ?i = "edge_sequence (dl_edge d)"
  have finish: "wp (act_then (complete_edge ?i) (act_then (set_ses (\<lambda>s. s\<lparr>delivery := tl (delivery s)\<rparr>)) (forget_deadline ?i)))
      (\<lambda>_. live) (\<lambda>_. doubtful) w'" if "shifted ?i w'" for w' :: "'a tw"
    using complete_edge_stays [OF that] unfolding wp_then
    by (rule wp_mono) (auto elim!: wp_mono intro: staysD [OF calm_stays [OF calm_forget_deadline]])
  have irq: "wp (act_then (if b then set_rest (\<lambda>r. r\<lparr>serial_irq := True\<rparr>) else act_return ())
      (act_then (complete_edge ?i) (act_then (set_ses (\<lambda>s. s\<lparr>delivery := tl (delivery s)\<rparr>)) (forget_deadline ?i)))) (\<lambda>_. live) (\<lambda>_. doubtful) w'"
    if "shifted ?i w'" for b and w' :: "'a tw"
    using finish [OF that] finish [OF calm_shifted [OF that calm_rest [OF mild_updates(3) [of True]]]] by (cases b) (simp_all add: wp_simps)
  have send: "wp (act_then (send te m None) (act_then (if b then set_rest (\<lambda>r. r\<lparr>serial_irq := True\<rparr>) else act_return ())
      (act_then (complete_edge ?i) (act_then (set_ses (\<lambda>s. s\<lparr>delivery := tl (delivery s)\<rparr>)) (forget_deadline ?i))))) (\<lambda>_. live) (\<lambda>_. doubtful) w'"
    if "shifted ?i w'" for b m and w' :: "'a tw"
    unfolding wp_then [of "send te m None"]
    by (rule wp_mono [OF keeps_wp [OF calm_send [OF assms(1)]]], rule irq, erule calm_shifted [OF that])
      (rule shifted_doubtful, erule calm_shifted [OF that])
  show ?thesis
    unfolding deliver_edge_def Let_def wp_bind wp_get
    by (rule wp_mono [OF shift_edge_stays [OF assms(2,3)]], rule send)
qed

lemma deliver_loop_stays: "civil te \<Longrightarrow> stays live doubtful (deliver_loop te b n)"
proof (induction n)
  case (Suc n)
  show ?case
  proof (rule staysI)
    fix w :: "'a tw"
    assume l: "live w"
    show "wp (deliver_loop te b (Suc n)) (\<lambda>_. live) (\<lambda>_. doubtful) w"
    proof (cases "delivery (ses w)")
      case (Cons d ds)
      have later: "wp (act_bind (act_get (\<lambda>w. port (rest w))) (\<lambda>c.
          if internal_clock c then protocol_error ''incoming clock conflicts with local internal clock''
          else if \<not> transfer_enabled c then act_then (if b then begin_rearm te else act_return ()) (act_return False)
          else act_then (deliver_edge te d) (deliver_loop te b n))) (\<lambda>_. live) (\<lambda>_. doubtful) w'"
        if c: "calm w w'" for w' :: "'a tw"
      proof -
        have l': "live w'" "delivery (ses w') = d # ds"
          using calm_live [OF l c] Cons ledger_fields(2) [OF calm_ledger [OF c]] by simp_all
        have "wp (begin_rearm te) (\<lambda>_. live) (\<lambda>_. doubtful) w'"
          by (rule staysD [OF calm_stays [OF calm_begin_rearm] l'(1)])
        moreover have "wp (act_then (deliver_edge te d) (deliver_loop te b n)) (\<lambda>_. live) (\<lambda>_. doubtful) w'"
          unfolding wp_then
          by (rule wp_mono [OF deliver_edge_stays [OF Suc.prems l']]) (use staysD [OF Suc.IH [OF Suc.prems]] in auto)
        ultimately show ?thesis
          using live_doubtful [OF l'(1)] l'(1) by (simp add: wp_simps)
      qed
      have hold: "wp (check_hold te) (\<lambda>_ w'. wp (act_bind (act_get (\<lambda>w. port (rest w))) (\<lambda>c.
          if internal_clock c then protocol_error ''incoming clock conflicts with local internal clock''
          else if \<not> transfer_enabled c then act_then (if b then begin_rearm te else act_return ()) (act_return False)
          else act_then (deliver_edge te d) (deliver_loop te b n))) (\<lambda>_. live) (\<lambda>_. doubtful) w') (\<lambda>_. doubtful) w'"
        if c: "calm w w'" for w' :: "'a tw"
        by (rule wp_mono [OF keeps_wp [OF calm_check_hold]], rule later, erule transpD [OF calm_preorder(2) c])
          (rule calm_doubtful [OF live_doubtful [OF l]], erule transpD [OF calm_preorder(2) c])
      show ?thesis
        unfolding deliver_loop.simps wp_bind wp_get
        unfolding Cons list.case wp_then
        by (rule wp_mono [OF keeps_wp [OF calm_check [OF Suc.prems]]], erule hold)
          (erule calm_doubtful [OF live_doubtful [OF l]])
    qed (use l in \<open>simp add: wp_simps\<close>)
  qed
qed (simp add: stays_return)

lemma deliver_ready_stays: "civil te \<Longrightarrow> stays live doubtful (deliver_ready te b)"
proof -
  assume te: "civil te"
  have take: "stays live doubtful (act_bind (act_get ses) (\<lambda>s. act_then (if delivery s = [] then take_deliveries else act_return ())
     (act_bind (deliver_loop te b (ts_capacity s)) (\<lambda>over. if over then end_batch else act_return ()))))"
  proof (rule staysI)
    fix w :: "'a tw" assume l: "live w"
    have "stays live doubtful (act_bind (deliver_loop te b (ts_capacity (ses w))) (\<lambda>over. if over then end_batch else act_return ()) :: ('a, unit) tact)"
      by (intro stays_intros deliver_loop_stays te calm_stays [OF calm_end_batch])
    note rest = staysD [OF this]
    show "wp (act_bind (act_get ses) (\<lambda>s. act_then (if delivery s = [] then take_deliveries else act_return ())
     (act_bind (deliver_loop te b (ts_capacity s)) (\<lambda>over. if over then end_batch else act_return ())))) (\<lambda>_. live) (\<lambda>_. doubtful) w"
    proof (cases "delivery (ses w) = []")
      case True
      show ?thesis unfolding wp_bind [of "act_get ses"] wp_get wp_then
        using True by (auto intro!: wp_mono [OF take_deliveries_stays [OF l True]] rest)
    next
      case False
      then show ?thesis using rest [OF l] by (simp add: wp_then wp_get wp_bind [of "act_get ses"] wp_return)
    qed
  qed
  show ?thesis unfolding deliver_ready_def by (intro stays_then calm_stays [OF calm_check_hold] take)
qed

subsection \<open>The pump\<close>

lemma consume_message_stays: "stays live doubtful (consume_message m)"
  unfolding consume_message_def
  by (cases m)
    (simp_all add: consume_edge_stays stays_raise live_doubtful calm_stays calm_consume)

lemma consume_stays: "civil te \<Longrightarrow> stays live doubtful (consume te)"
proof -
  assume te: "civil te"
  have "stays live doubtful (consume_loop te n)" for n
    by (induction n)
      (auto intro!: stays_intros live_doubtful calm_stays [OF calm_check [OF te]] calm_stays [OF calm_set_ses] consume_message_stays split: list.splits)
  then show ?thesis unfolding consume_def by (intro stays_intros)
qed

lemma pump_body_stays: "civil te \<Longrightarrow> stays live doubtful (pump_body te a b force)"
  unfolding pump_body_def
  by (intro stays_intros consume_stays deliver_ready_stays calm_stays [OF calm_poll_wire] calm_stays [OF calm_edge_expired]
      calm_stays [OF calm_ack_fences] calm_stays [OF calm_publish] calm_stays [OF calm_check] calm_stays [OF calm_raises(5)]; assumption)

lemma check_open_now:
  assumes "civil te"
  shows "wp (check te) (\<lambda>_ w'. calm w w' \<and> \<not> terminal (ses w')) (\<lambda>_. calm w) w"
proof -
  have "wp (check te) (\<lambda>_ w'. \<not> terminal (ses w')) (\<lambda>_ _. True) w"
    by (simp add: check_def wp_simps split: option.split wire_error.split) (simp add: ses_def)
  from wp_conj [OF this keeps_wp [OF calm_check [OF assms]]] show ?thesis by (rule wp_mono) auto
qed

lemma calm_trans: "calm w w' \<Longrightarrow> calm w' w'' \<Longrightarrow> calm w w''"
  by (rule transpD [OF calm_preorder(2)])

lemma calm_accounted_stays: "keeps calm m \<Longrightarrow> stays accounted doubtful m"
  by (erule keeps_stays) (auto intro: calm_accounted accounted_doubtful)

lemma owner_running: "accounted w \<Longrightarrow> owner (ses w) \<noteq> None \<Longrightarrow> \<not> terminal (ses w) \<Longrightarrow> live w"
  by (auto simp: live_def accounted_def started_def split: if_splits)

lemma live_end_pump: "live w \<Longrightarrow> live (end_pump w)" "doubtful w \<Longrightarrow> doubtful (end_pump w)"
  by (auto intro: calm_live calm_doubtful calm_end_pump)

lemma live_accounted: "live w \<Longrightarrow> accounted w"
  by (simp add: live_def)

lemma safe_pump_stays: "civil te \<Longrightarrow> stays accounted doubtful (safe_pump te a b force d)"
proof -
  assume te: "civil te"
  let ?inner = "act_bind (act_get id) (\<lambda>w.
       if in_edge (ses w) \<or> pumping (ses w) \<or> pending (co w) \<noteq> None then misuse ''unsafe recursive timed pump''
       else act_then (set_ses (\<lambda>s. s\<lparr>pumping := True\<rparr>)) (act_bind (clock_time te) (\<lambda>t.
         act_then (set_ses (\<lambda>s. s\<lparr>pump_deadline := Some (at_most d (t + ts_timeout s))\<rparr>))
           (act_finally (pump_body te a b force) end_pump)))) :: ('a, unit) tact"
  have inner: "stays live doubtful ?inner"
    by (intro stays_intros calm_stays [OF calm_raises(4)] calm_stays [OF calm_set_ses] calm_stays [OF calm_clock_time]
        pump_body_stays te mild_own_updates live_end_pump)
  show ?thesis
  proof (rule staysI)
    fix w :: "'a tw" assume a: "accounted w"
    have "wp (act_then (check te) ?inner) (\<lambda>_. accounted) (\<lambda>_. doubtful) w" if "owner (ses w) \<noteq> None"
      unfolding wp_then
    proof (rule wp_mono [OF check_open_now [OF te]])
      fix w' :: "'a tw" assume c: "calm w w' \<and> \<not> terminal (ses w')"
      then have "live w'" using that a by (intro owner_running) (auto intro: calm_accounted simp: calm_coord(6))
      from staysD [OF inner this] show "wp ?inner (\<lambda>_. accounted) (\<lambda>_. doubtful) w'" by (rule wp_mono) (auto intro: live_accounted)
    qed (use a in \<open>auto intro: calm_doubtful accounted_doubtful\<close>)
    then show "wp (safe_pump te a b force d) (\<lambda>_. accounted) (\<lambda>_. doubtful) w"
      using accounted_doubtful [OF a] unfolding safe_pump_def wp_then [of require_owner] by (simp add: require_owner_def wp_simps)
  qed
qed

lemma wait_stays: "civil te \<Longrightarrow> stays accounted doubtful (wait_for_progress te a n)"
  unfolding wait_for_progress_def Let_def
  by (intro stays_intros safe_pump_stays calm_accounted_stays [OF calm_clock_time] calm_accounted_stays [OF calm_deadline_now]
      calm_accounted_stays [OF calm_receive] calm_accounted_stays [OF calm_stage]; assumption)

subsection \<open>Across every public call\<close>

text \<open>Between two calls of the session: the account is right, or the session has ended with one edge in doubt.\<close>

definition kept :: "'z tw \<Rightarrow> bool" where
  "kept w \<longleftrightarrow> accounted w \<or> doubtful w \<and> ended w"

lemma kept_doubtful: "kept w \<Longrightarrow> doubtful w"
  by (auto simp: kept_def accounted_doubtful)

lemma calm_ended: "calm w w' \<Longrightarrow> started w \<Longrightarrow> ended w \<Longrightarrow> ended w'"
  by (cases "governed (ses w)") (auto simp: calm_def lasting_def ended_def started_def intro: evolves_closed)

lemma doubtful_started: "doubtful w \<Longrightarrow> started w"
  by (simp add: doubtful_def)

lemma calm_kept: "kept w \<Longrightarrow> calm w w' \<Longrightarrow> kept w'"
  unfolding kept_def using calm_accounted calm_doubtful calm_ended doubtful_started by blast

lemma kept_open: "kept w \<Longrightarrow> \<not> terminal (ses w) \<Longrightarrow> accounted w"
  by (auto simp: kept_def ended_def)

lemma check_kept:
  assumes "civil te" "kept w"
  shows "wp (check te) (\<lambda>_. accounted) (\<lambda>_. kept) w"
  by (rule wp_mono [OF check_open_now [OF assms(1)]])
    (use assms(2) in \<open>auto intro: calm_kept kept_open\<close>)

lemma fail_session_ends: "wp (fail_session e) (\<lambda>_ w'. calm w w' \<and> ended w') (\<lambda>_ _. False) w"
proof -
  have "wp (fail_session e) (\<lambda>_. ended) (\<lambda>_ _. False) w"
    by (simp add: fail_session_def wp_simps ended_def cancel_def close_def close_channel_def)
  from wp_conj [OF this keeps_wp [OF calm_fail_session]] show ?thesis by (rule wp_mono) auto
qed

lemma fail_session_kept: "doubtful w \<Longrightarrow> wp (fail_session e) (\<lambda>_ w. doubtful w \<and> ended w) (\<lambda>_ _. False) w"
  by (rule wp_mono [OF fail_session_ends]) (auto intro: calm_doubtful)

end
