(* ===== verification/Timed_Runs.thy ===== *)
theory Timed_Runs
  imports Timed_Edges
begin

text \<open>
  The public calls of a timed session and the histories they make: an emulator's own tick runs the callbacks
  and the edges of its instructions in any order, catches what it likes of their exceptions, and does what it
  wants to the emulator in between. The account of the peer's edges holds in every history.
\<close>

subsection \<open>Calls on the adapter and the world\<close>

definition calm_sys :: "'z tenv \<Rightarrow> 'z timed sys \<Rightarrow> 'z timed sys \<Rightarrow> bool" where
  "calm_sys te s s' \<longleftrightarrow> (civil te \<longrightarrow> calm (snd s) (snd s'))"

lemma keeps_calm_sys: "(civil te \<Longrightarrow> keeps calm m) \<Longrightarrow> keeps (calm_sys te) (in_world m)"
  by (auto simp: keeps_def in_world_def calm_sys_def split: prod.splits) (metis snd_conv)

lemma keeps_beside:
  assumes "\<And>a. civil te \<Longrightarrow> keeps calm (m a)"
  shows "keeps (calm_sys te) (beside m)"
proof (rule keepsI)
  fix s r s'
  assume "beside m s = (r, s')"
  then show "calm_sys te s s'" using keepsD [OF keeps_calm_sys [of te "m (fst s)"]] assms by (simp add: beside_def)
qed

lemma calm_sys_preorder: "reflp (calm_sys te)" "transp (calm_sys te)"
  by (auto simp: calm_sys_def calm_self intro!: reflpI transpI intro: calm_trans)

lemma coordinator_in_world: "coordinator f = in_world (on_coordinator f)"
  by (rule ext) (simp add: coordinator_def in_world_def on_coordinator_def)

lemma keeps_calm_coordinator: "edgeless f \<Longrightarrow> keeps (calm_sys te) (coordinator f)"
  unfolding coordinator_in_world by (intro keeps_calm_sys calm_coordinator)

lemma calm_board: "calm w (w\<lparr>mb := b\<rparr>)"
  by (simp add: calm_def lasting_def ses_def evolves_refl)

lemma calm_install: "civil te \<Longrightarrow> keeps calm (install te b)"
  unfolding keeps_def civil_def
  by (metis calm_board)

lemma now_session: "now (session_env te) = in_world (clock_time te)"
  by (rule ext) (simp add: now_def session_env_def clock_time_def in_world_def)

interpretation session_calls: quiet_callbacks "calm_sys te" "session_env te" for te
proof unfold_locales
  show "reflp (calm_sys te)" "transp (calm_sys te)" for te by (fact calm_sys_preorder)+
  show "keeps (calm_sys te) (set_ad f)" for te f by (simp add: keeps_def set_ad_def act_modify_def calm_sys_def calm_self)
  show "keeps (calm_sys te) (coordinator close)" "keeps (calm_sys te) (coordinator (reserve n))"
    "keeps (calm_sys te) (coordinator (commit ref k i tr))" "keeps (calm_sys te) (coordinator (discard_unconsumed_permit ref k i d))"
    for te n ref k i tr d
    by (intro keeps_calm_coordinator edgeless_intros)+
  show "keeps (calm_sys te) (in_world (counter (session_env te)))" for te
    by (rule keeps_calm_sys) (simp add: session_env_def keeps_def calm_self)
  show "keeps (calm_sys te) (in_world (set_governor (session_env te) b))" for te b
    by (rule keeps_calm_sys) (simp add: session_env_def calm_install)
  show "keeps (calm_sys te) (now (session_env te))" for te
    unfolding now_session by (intro keeps_calm_sys calm_clock_time)
qed

lemmas calm_sys_steps = keeps_intros calm_sys_preorder keeps_calm_sys keeps_beside session_calls.steps

lemma wp_in_world [wp_simps]: "wp (in_world f) Q E = (\<lambda>s. wp f (\<lambda>x w. Q x (fst s, w)) (\<lambda>e w. E e (fst s, w)) (snd s))"
  by (rule ext) (simp add: wp_def in_world_def split: prod.splits sum.splits)

lemma wp_beside [wp_simps]: "wp (beside f) Q E = (\<lambda>s. wp (f (fst s)) (\<lambda>x w. Q x (fst s, w)) (\<lambda>e w. E e (fst s, w)) (snd s))"
proof
  fix s
  have "wp (beside f) Q E s = wp (in_world (f (fst s))) Q E s" by (simp add: wp_def beside_def)
  then show "wp (beside f) Q E s = wp (f (fst s)) (\<lambda>x w. Q x (fst s, w)) (\<lambda>e w. E e (fst s, w)) (snd s)" by (simp add: wp_simps)
qed

text \<open>Ends: the cleanup gives the emulator back and does not touch the account.\<close>

lemma calm_bound [simp]: "mild_own (\<lambda>s. s\<lparr>bound := False\<rparr>)" "mild (\<lambda>r. r\<lparr>line := NullLine (previous_line (ts r))\<rparr>)"
  by (simp_all add: mild_own_def ledger_of_def mild_def)

lemma release_port_kept: "keeps (calm_sys te) release_port"
  unfolding release_port_def by (intro calm_sys_steps calm_set_rest calm_bound)

lemma cleanup_kept: "keeps (calm_sys te) (cleanup te preserve)"
  unfolding cleanup_def cleanup_body_def refuse_def
  by (intro calm_sys_steps session_calls.recover_kept session_calls.detach_kept release_port_kept calm_set_ses calm_bound calm_guards)

lemma close_session_kept: "keeps (calm_sys te) (close_session te)"
  unfolding close_session_def
  by (intro calm_sys_steps cleanup_kept calm_set_ses calm_set_rest mild_own_ends mild_closes calm_guards calm_coordinator edgeless_ends)

lemma session_after_kept: "keeps (calm_sys te) (session_after te r)"
  unfolding session_after_def by (intro calm_sys_steps session_calls.after_kept calm_observe_map)

lemma session_edge_kept: "keeps (calm_sys te) (in_world (session_on_edge te b r))"
  by (intro keeps_calm_sys calm_on_edge)

end
