(* ===== verification/Spec2Isabelle.thy ===== *)
theory Spec2Isabelle
  imports Game_State Party_Records Time_Safety Wire_Safety Serial_Exchange
    Link_Exchange Cable_Link Link_Transport Event_Safety Ownership_Safety
    Agent_Sync Bridge_Safety Path_Plan Net_Histories Timed_Runs
begin

text \<open>
  Verification of the emulator-independent core of \<open>pokered-harness\<close>: a Python harness that drives
  Game Boy emulators running the generation 1 games, decodes their memory into semantic state, and links
  two of them over a wire. Source names below are relative to \<open>src/pokered_harness\<close> unless they start with
  \<open>scripts\<close> or \<open>vendor\<close>.

  \<^bold>\<open>The program and how its parts interact.\<close>
  A session owns one emulator. After every step it reads the work RAM through the symbol table and asks the
  parsers of \<open>state/\<close> for one aggregate snapshot. Hooks at game addresses feed the event bus. Two sessions can
  be linked in several ways: by a bridge that swaps the bytes of the serial routines, by a coordinator that
  exchanges single bits between two serial registers of one process, by a backend that exchanges those bits
  over a TCP connection, by a link of tagged payloads between agents, and by the timed link, in which a
  coordinator of emulated time issues permits to an execution adapter and a wire channel carries the edges and
  promises that the permits rest on. Emulator ownership guards all of it against concurrent threads. A script
  plans routes on the map that the state describes.

  \<^bold>\<open>Theories and the code they model, in reading order.\<close>
  \<^item> \<open>Prelude\<close> (Python values, exceptions, results, big-endian byte strings, the collections of rewrite rules)
    and \<open>Actions\<close> (stateful code that may raise, with a weakest-precondition calculus: \<open>wp\<close> for one call,
    \<open>keeps\<close> for an invariant, exceptions included).
  \<^item> \<open>Symbols\<close>: \<open>symbols/loader.py\<close>. The symbol file, the table, and reads at a bank and an address.
  \<^item> \<open>Text_State\<close>, \<open>Menu_State\<close>, \<open>State_Base\<close>, \<open>Overworld_State\<close>, \<open>Progress_State\<close>, \<open>Bag_State\<close>,
    \<open>Party_State\<close>, \<open>Battle_State\<close>, \<open>Game_State\<close>: the module of \<open>state/\<close> of the same name, each parser with the
    order of its reads. \<open>Party_Records\<close>: the raw records of \<open>state/party.py\<close> and the audit of an exchange.
  \<^item> \<open>Time_Queue\<close>, \<open>Emulated_Time\<close>: \<open>link/emulated_time.py\<close>. \<open>Time_Steps\<close> is its abstract account, \<open>Time_Safety\<close>
    the theorems. \<open>Execution_Adapter\<close>, \<open>Adapter_Safety\<close>: \<open>link/execution_adapter.py\<close> over it.
  \<^item> \<open>Timed_Session\<close> (state, checks, sends and waits), \<open>Timed_Pump\<close> (staging, consuming and delivering the peer's
    edges), \<open>Timed_Control\<close> (failing, closing, callbacks, the master edge, the tick) and \<open>Timed_Attach\<close>:
    \<open>link/timed_link_session.py\<close> with its support module. \<open>Timed_Calm\<close> and \<open>Timed_Runs\<close> show which of its operations leave
    the peer's edges alone, \<open>Timed_Edges\<close> that the others account for each of them.
  \<^item> \<open>Wire_Codec\<close>, \<open>Wire_Channel\<close>: \<open>link/timed_wire.py\<close>. \<open>Wire_Ledger\<close>, \<open>Wire_Invariant\<close>, \<open>Wire_Peers\<close> and
    \<open>Wire_Safety\<close> reason about one channel against any peer and about two channels joined by byte streams.
  \<^item> \<open>Serial_Core\<close>, \<open>Serial_Safety\<close>: the serial register of the bundled emulator, \<open>vendor/pyboy-src/pyboy/core/serial.py\<close>,
    which the harness extends with its backend interface. \<open>Serial_Coordinator\<close>, \<open>Serial_Exchange\<close>:
    \<open>link/serial_coordinator.py\<close>.
  \<^item> \<open>Net_Wire\<close>, \<open>Net_Backend\<close>, \<open>Net_Reader\<close>, \<open>Net_Owner\<close>, \<open>Net_Edge\<close>, \<open>Net_Worker\<close>: the TCP backend,
    \<open>link/network_backend.py\<close> with its support module and its four mixins. \<open>Net_Steps\<close> puts the pieces together as a
    labelled step relation; \<open>Net_Invariant\<close>, \<open>Net_Reading\<close>, \<open>Net_Owning\<close>, \<open>Net_Safety\<close>, \<open>Net_Histories\<close> prove what
    every history of it satisfies. The master edge is one step for each lock section of \<open>on_edge\<close>, and the state says
    between which of them its caller stands.
  \<^item> \<open>Link_Framing\<close>, \<open>Link_Store\<close>, \<open>Serial_Link\<close>, \<open>Link_Safety\<close>, \<open>Link_Exchange\<close>: \<open>link/serial_link.py\<close> over TCP.
    \<open>Cable_Link\<close> is its in-process form, \<open>Link_Transport\<close> is \<open>link/transport.py\<close> and \<open>link/symbols.py\<close>, and
    \<open>Agent_Sync\<close> is \<open>link/agent_sync.py\<close>.
  \<^item> \<open>Event_Bus\<close>, \<open>Event_Safety\<close>: \<open>events/hooks.py\<close>. \<open>Ownership\<close>, \<open>Ownership_Safety\<close>: \<open>ownership.py\<close>.
    \<open>Serial_Bridge\<close>, \<open>Bridge_Safety\<close>: \<open>link/serial_bridge.py\<close>.
  \<^item> \<open>Path_Search\<close>, \<open>Path_Grid\<close>, \<open>Path_Safety\<close>, \<open>Path_Plan\<close>: \<open>scripts/path_from_tiles.py\<close>.

  \<^bold>\<open>How state and operations correspond to the code.\<close>
  The attributes of an object are the fields of a record, under their names less the leading underscore. A
  method is a function from the state to a result and a new state; what it raises is the left side of a sum, and
  the changes made before a raise are kept. The guards stand in the order of the code, so that the first one that
  fails decides the exception. Unbounded integers are \<open>int\<close>, or \<open>nat\<close> where the code has checked the sign; bytes
  are 8-bit words or integers in their range, as the code treats them; sets, dictionaries and deques are sets,
  maps or association lists, and lists. Objects compared by identity are numbers. A code section under a lock is
  one step; what happens between two sections - other threads, the peer, the clock - is another step, in any
  order. A condition-variable wait is left by an argument that says why it ended, or is a step that is only
  taken when the wait is over.

  \<^bold>\<open>Interfaces.\<close>
  \<open>min_queue\<close> is what the coordinator asks of its heap (interpreted as \<open>edge_heap\<close>). \<open>wram_reader\<close> is what the
  parsers ask of a memory (interpreted on the flat and on the banked memory). \<open>ledger\<close> is what the channel
  asks of its outstanding requests (interpreted for edges and for fences). \<open>delivery_queue\<close> is what an exchange asks of
  queues of payloads (interpreted on the byte transport), and \<open>closing_queue\<close> adds that a refused payload closes for
  good and drops what is queued (interpreted on the TCP link and on the cable). \<open>quiet_callbacks\<close> and \<open>callbacks\<close> are
  what the adapter asks of its callbacks (interpreted on the coordinator's state and on the timed session's own).
  \<open>pulled_up\<close> is a backend behind which nobody answers (interpreted on the null backend and on a dead line).
  \<open>ordered_waiting\<close> is the law that excludes deadlock (interpreted on the ownership scopes). The properties use
  their facts through these interpretations.

  \<^bold>\<open>What the lemmas show.\<close>
  \<^item> Emulated time: bounds on every reachable coordinator; a granted permit never runs past a credit, an edge that
    is due or the completeness watermark; exactly the edges that are ready are popped; with enforced
    completeness no edge is ever late. The adapter starts an instruction only under a permit that covers it, a
    truthful report is accounted exactly, and an exception leaves the coordinator closed.
  \<^item> Timed wire: decoding inverts encoding; two ends that follow the protocol never fault each other, however the
    byte streams are cut, unless one has more room for outstanding requests than the other and fills it; every
    frame arrives once and in order.
  \<^item> TCP backend: frames survive every chunking of the socket; no edge of the peer is applied twice and none is
    invented; an answer was read for the edge that returns it, while that edge waited; the pending count is the work
    that is left; a cut frame closes the connection - in order, without an error, which is a finding.
  \<^item> Serial register and coordinator: consistency of the register's clocks; ticking in one or in two steps is the
    same; a byte completes on time; saving and loading are inverse; an armed pair swaps its two bytes in eight edges.
  \<^item> Links: exchanges pair up in order on both kinds of link, up to the payload that overflows the other end and
    closes the link, which drops what is queued; a request reaches the peer; a link that ended uses no
    late answer. The event log refines the full history; slots hold exactly the active registrations,
    and closing one leaves the others alone. The bridge
    swaps the two bytes in either order of arrival, and its installation is all or nothing. No set of threads that use the
    ownership scopes deadlocks, an owner is held by one thread, and a group of owners is entered whole or not at all.
  \<^item> Route planner: the route returned leads to the goal and is found whenever there is one; it is shortest without
    ledges and at most twice the shortest with them; a planned route only enters free cells.
  \<^item> State: a snapshot marked valid is the decoding of memory; a battle's phase is reported exactly when the evidence
    proves it and none contradicts it; a trade passes the audit exactly when it was one; raw records follow the bank
    that is mapped, which is a finding.

  \<^bold>\<open>Termination, bounds and fuel.\<close>
  Every definition is total. The route search recurses over a decreasing count of cells not yet settled at their
  final score, and a walk back along parents gets the score of its cell as fuel, which it cannot exceed since the score
  drops with every parent. The rearm loop of the compatibility worker has the code's own 256 chances. A loop that waits
  is driven by the list of what happens to it, and the owner's service round by the length of the queue it found. The
  socket loops recurse over the script of the socket's answers: a script that ends early leaves them waiting,
  and the round-trip theorem shows that a script carrying all bytes never does.

  \<^bold>\<open>Parameters and what is assumed of them.\<close>
  Code outside the repository is an argument: the emulator's memory reads and hook functions, the digest of a raw
  record, the board's clock, tick and governor, the owner's callbacks, the interrupt request of the emulated CPU and
  the sockets. Named hypotheses are stated only where a theorem needs them: \<open>orderly\<close> and \<open>hands_off\<close> say that a callback
  returns, or does not touch the serial registers, while an edge is applied. Each theorem that has such a hypothesis is
  followed by a witness that instantiates it with a concrete function.

  \<^bold>\<open>Not modelled.\<close>
  Blocking itself: \<open>wait_for_permit\<close>, the waiting loops of the handshakes and of \<open>receive\<close>, threads, locks, sockets,
  deadlines and cancellation, beyond the ways in which they end an operation. Diagnostics: \<open>debug_snapshot\<close>, the core
  register snapshots in transcript records, the provider of completion contexts. The owner pump and owner callbacks inside
  the serial register. Floating-point \<open>hp_fraction\<close>. The PyBoy link session, the remote
  endpoints and the link pair, which step emulators and join threads around the modelled parts; the emulator session; input,
  configuration and JSON rendering; the MCP server; all scripts other than the route planner; the tests; and the
  emulator in \<open>vendor\<close> other than its serial register.
\<close>

end
